(* ===== verification/Prelude.thy ===== *)
theory Prelude
  imports Main "HOL-Library.AList"
begin

text \<open>
  Shared vocabulary of the development: Go strings and the functions of Go's standard
  library (strings, unicode/utf8, fmt) that the modelled code calls, association lists
  for Go maps that the code iterates over, and the collections of rewrite rules that
  the component theories extend.

  A Go string is a sequence of bytes, so it is a char list here and \<open>length\<close> is Go's
  \<open>len\<close>. A character of the source beyond ASCII is the list of the bytes of its UTF-8
  encoding. Go's int and int64 values that only count are \<open>int\<close> or \<open>nat\<close>; times and
  durations are \<open>int\<close> nanoseconds.
\<close>

named_theorems journal_simps "equations of the event journal"
named_theorems sub_simps "equations of the subscription queue"
named_theorems turn_simps "equations of the turn service handlers"
named_theorems goal_simps "equations of the goal runtime"
named_theorems policy_simps "equations of the restricted git policy"

section \<open>Go strings\<close>

type_synonym bytes = "char list"

definition byte_val :: "char \<Rightarrow> nat" where
  "byte_val c = of_char c"

text \<open>strings.HasPrefix and strings.HasSuffix, in Go's argument order.\<close>

definition has_prefix :: "string \<Rightarrow> string \<Rightarrow> bool" where
  "has_prefix s p \<longleftrightarrow> take (length p) s = p"

definition has_suffix :: "string \<Rightarrow> string \<Rightarrow> bool" where
  "has_suffix s p \<longleftrightarrow> length p \<le> length s \<and> drop (length s - length p) s = p"

lemma has_prefix_iff: "has_prefix s p \<longleftrightarrow> (\<exists>t. s = p @ t)"
  unfolding has_prefix_def by (metis append_eq_conv_conj append_take_drop_id)

lemma has_suffix_iff: "has_suffix s p \<longleftrightarrow> (\<exists>t. s = t @ p)"
proof
  assume "has_suffix s p"
  then show "\<exists>t. s = t @ p"
    unfolding has_suffix_def by (metis append_take_drop_id)
next
  assume "\<exists>t. s = t @ p"
  then show "has_suffix s p" by (auto simp: has_suffix_def)
qed

lemma has_prefix_append [simp]: "has_prefix (p @ t) p"
  by (simp add: has_prefix_def)

lemma has_prefix_Nil [simp]: "has_prefix s []"
  by (simp add: has_prefix_def)

lemma has_prefix_Cons [simp]:
  "has_prefix (x # s) (y # p) \<longleftrightarrow> x = y \<and> has_prefix s p"
  by (auto simp: has_prefix_def)

lemma has_prefix_Nil_left [simp]: "has_prefix [] p \<longleftrightarrow> p = []"
  by (auto simp: has_prefix_def)

lemma has_suffix_append [simp]: "has_suffix (t @ p) p"
  by (simp add: has_suffix_def)

text \<open>strings.Cut with a one-byte separator: before, after, found.\<close>

fun str_cut :: "string \<Rightarrow> char \<Rightarrow> string \<times> string \<times> bool" where
  "str_cut [] c = ([], [], False)"
| "str_cut (x # xs) c =
     (if x = c then ([], xs, True)
      else (case str_cut xs c of (b, a, f) \<Rightarrow> (x # b, a, f)))"

lemma str_cut_not_found: "c \<notin> set s \<Longrightarrow> str_cut s c = (s, [], False)"
  by (induction s) auto

lemma str_cut_found: "c \<notin> set b \<Longrightarrow> str_cut (b @ c # a) c = (b, a, True)"
  by (induction b) auto

lemma str_cut_before: "str_cut s c = (b, a, f) \<Longrightarrow> c \<notin> set b \<and> has_prefix s b"
  by (induction s arbitrary: b) (auto split: if_splits prod.splits)

section \<open>UTF-8\<close>

text \<open>utf8.RuneStart: a byte that is not a continuation byte 10xxxxxx.\<close>

definition rune_start :: "char \<Rightarrow> bool" where
  "rune_start c \<longleftrightarrow> \<not> (digit7 c \<and> \<not> digit6 c)"

definition in_range :: "nat \<Rightarrow> nat \<Rightarrow> char \<Rightarrow> bool" where
  "in_range lo hi c \<longleftrightarrow> lo \<le> byte_val c \<and> byte_val c \<le> hi"

text \<open>
  The width of the rune at the head of a string, 0 when the bytes there are not a valid
  encoding (Go decodes such a byte as RuneError of width 1). The ranges are those of
  Go's decoder: no overlong forms, no surrogates, nothing above U+10FFFF.
\<close>

fun rune_width :: "string \<Rightarrow> nat" where
  "rune_width [] = 0"
| "rune_width (a # r) =
     (let x = byte_val a;
          ok2 = (\<lambda>lo hi. case r of b # _ \<Rightarrow> in_range lo hi b | _ \<Rightarrow> False);
          ok3 = (case r of _ # c # _ \<Rightarrow> in_range 128 191 c | _ \<Rightarrow> False);
          ok4 = (case r of _ # _ # d # _ \<Rightarrow> in_range 128 191 d | _ \<Rightarrow> False)
      in if x < 128 then 1
         else if 194 \<le> x \<and> x \<le> 223 then (if ok2 128 191 then 2 else 0)
         else if x = 224 then (if ok2 160 191 \<and> ok3 then 3 else 0)
         else if x = 237 then (if ok2 128 159 \<and> ok3 then 3 else 0)
         else if 225 \<le> x \<and> x \<le> 239 then (if ok2 128 191 \<and> ok3 then 3 else 0)
         else if x = 240 then (if ok2 144 191 \<and> ok3 \<and> ok4 then 4 else 0)
         else if 241 \<le> x \<and> x \<le> 243 then (if ok2 128 191 \<and> ok3 \<and> ok4 then 4 else 0)
         else if x = 244 then (if ok2 128 143 \<and> ok3 \<and> ok4 then 4 else 0)
         else 0)"

declare rune_width.simps(2) [simp del]

definition replacement_char :: string where
  "replacement_char = [CHR 0xEF, CHR 0xBF, CHR 0xBD]"

text \<open>strings.ToValidUTF8: a run of invalid bytes becomes one replacement string.\<close>

function to_valid_utf8_from :: "bool \<Rightarrow> string \<Rightarrow> string \<Rightarrow> string" where
  "to_valid_utf8_from bad repl [] = []"
| "to_valid_utf8_from bad repl (c # cs) =
     (let w = rune_width (c # cs) in
      if w = 0 then (if bad then [] else repl) @ to_valid_utf8_from True repl cs
      else take w (c # cs) @ to_valid_utf8_from False repl (drop w (c # cs)))"
  by pat_completeness auto
termination
  by (relation "measure (\<lambda>(b, r, s). length s)") (auto simp: less_Suc_eq_le)

definition to_valid_utf8 :: "string \<Rightarrow> string \<Rightarrow> string" where
  "to_valid_utf8 s repl = to_valid_utf8_from False repl s"

text \<open>
  The truncation loop of sessionevent, turn and mcplifecycle:
  \<^verbatim>\<open>for end > 0 && !utf8.RuneStart(value[end]) { end-- }\<close>. The index is in range because
  the callers start it below the length of the value.
\<close>

fun back_to_rune_start :: "string \<Rightarrow> nat \<Rightarrow> nat" where
  "back_to_rune_start s 0 = 0"
| "back_to_rune_start s (Suc n) =
     (if \<not> rune_start (s ! Suc n) then back_to_rune_start s n else Suc n)"

lemma back_to_rune_start_le: "back_to_rune_start s n \<le> n"
  by (induction n) auto

lemma back_to_rune_start_start:
  "back_to_rune_start s n \<noteq> 0 \<Longrightarrow> rune_start (s ! back_to_rune_start s n)"
  by (induction n) auto

section \<open>White space\<close>

text \<open>The UTF-8 encodings of the runes for which unicode.IsSpace holds.\<close>

definition ws_runes :: "string list" where
  "ws_runes =
     [[CHR 0x09], [CHR 0x0A], [CHR 0x0B], [CHR 0x0C], [CHR 0x0D], [CHR 0x20],
      [CHR 0xC2, CHR 0x85], [CHR 0xC2, CHR 0xA0], [CHR 0xE1, CHR 0x9A, CHR 0x80],
      [CHR 0xE2, CHR 0x80, CHR 0x80], [CHR 0xE2, CHR 0x80, CHR 0x81],
      [CHR 0xE2, CHR 0x80, CHR 0x82], [CHR 0xE2, CHR 0x80, CHR 0x83],
      [CHR 0xE2, CHR 0x80, CHR 0x84], [CHR 0xE2, CHR 0x80, CHR 0x85],
      [CHR 0xE2, CHR 0x80, CHR 0x86], [CHR 0xE2, CHR 0x80, CHR 0x87],
      [CHR 0xE2, CHR 0x80, CHR 0x88], [CHR 0xE2, CHR 0x80, CHR 0x89],
      [CHR 0xE2, CHR 0x80, CHR 0x8A], [CHR 0xE2, CHR 0x80, CHR 0xA8],
      [CHR 0xE2, CHR 0x80, CHR 0xA9], [CHR 0xE2, CHR 0x80, CHR 0xAF],
      [CHR 0xE2, CHR 0x81, CHR 0x9F], [CHR 0xE3, CHR 0x80, CHR 0x80]]"

lemma ws_runes_nonempty: "w \<in> set ws_runes \<Longrightarrow> w \<noteq> []"
  by (auto simp: ws_runes_def)

function trim_left :: "string \<Rightarrow> string" where
  "trim_left s =
     (case find (has_prefix s) ws_runes of
        None \<Rightarrow> s
      | Some w \<Rightarrow> trim_left (drop (length w) s))"
  by pat_completeness auto
termination
  by (relation "measure length")
     (auto simp: find_Some_iff has_prefix_iff dest!: ws_runes_nonempty [OF nth_mem])

function trim_right :: "string \<Rightarrow> string" where
  "trim_right s =
     (case find (has_suffix s) ws_runes of
        None \<Rightarrow> s
      | Some w \<Rightarrow> trim_right (take (length s - length w) s))"
  by pat_completeness auto
termination
  by (relation "measure length")
     (auto simp: find_Some_iff has_suffix_iff dest!: ws_runes_nonempty [OF nth_mem])

declare trim_left.simps [simp del] trim_right.simps [simp del]

text \<open>strings.TrimSpace.\<close>

definition trim_space :: "string \<Rightarrow> string" where
  "trim_space s = trim_right (trim_left s)"

section \<open>Joining and splitting\<close>

text \<open>strings.Join, strings.Split at one byte, strings.Fields and strings.Contains.\<close>

fun str_join :: "string \<Rightarrow> string list \<Rightarrow> string" where
  "str_join sep [] = []"
| "str_join sep [s] = s"
| "str_join sep (s # ss) = s @ sep @ str_join sep ss"

fun str_split :: "char \<Rightarrow> string \<Rightarrow> string list" where
  "str_split sep [] = [[]]"
| "str_split sep (c # s) =
     (if c = sep then [] # str_split sep s
      else (case str_split sep s of [] \<Rightarrow> [[c]] | p # ps \<Rightarrow> (c # p) # ps))"

function str_fields_from :: "string \<Rightarrow> string \<Rightarrow> string list" where
  "str_fields_from cur s =
     (if s = [] then (if cur = [] then [] else [cur])
      else case find (has_prefix s) ws_runes of
        None \<Rightarrow> str_fields_from (cur @ [hd s]) (tl s)
      | Some w \<Rightarrow> (if cur = [] then [] else [cur]) @ str_fields_from [] (drop (length w) s))"
  by pat_completeness auto
termination
  by (relation "measure (\<lambda>(cur, s). length s)")
     (auto simp: find_Some_iff has_prefix_iff dest!: ws_runes_nonempty [OF nth_mem])

declare str_fields_from.simps [simp del]

definition str_fields :: "string \<Rightarrow> string list" where
  "str_fields s = str_fields_from [] s"

fun str_contains :: "string \<Rightarrow> string \<Rightarrow> bool" where
  "str_contains [] p = (p = [])"
| "str_contains (c # s) p = (has_prefix (c # s) p \<or> str_contains s p)"

text \<open>fmt's percent-q, exact on ASCII; bytes beyond it are kept.\<close>

definition quote_char :: "char \<Rightarrow> string" where
  "quote_char c =
     (let n = of_char c :: nat; hex = (\<lambda>k. if k < 10 then char_of (48 + k) else char_of (87 + k)) in
      if c = CHR 0x22 \<or> c = CHR 0x5C then [CHR 0x5C, c]
      else if n = 7 then [CHR 0x5C, CHR ''a''] else if n = 8 then [CHR 0x5C, CHR ''b'']
      else if n = 9 then [CHR 0x5C, CHR ''t''] else if n = 10 then [CHR 0x5C, CHR ''n'']
      else if n = 11 then [CHR 0x5C, CHR ''v''] else if n = 12 then [CHR 0x5C, CHR ''f'']
      else if n = 13 then [CHR 0x5C, CHR ''r'']
      else if n < 32 \<or> n = 127 then [CHR 0x5C, CHR ''x'', hex (n div 16), hex (n mod 16)]
      else [c])"

definition go_quote :: "string \<Rightarrow> string" where
  "go_quote s = [CHR 0x22] @ concat (map quote_char s) @ [CHR 0x22]"

section \<open>Decimal numbers\<close>

fun show_nat :: "nat \<Rightarrow> string" where
  "show_nat n =
     (if n < 10 then [char_of (48 + n)]
      else show_nat (n div 10) @ [char_of (48 + n mod 10)])"

declare show_nat.simps [simp del]

text \<open>fmt's percent-d.\<close>

definition show_int :: "int \<Rightarrow> string" where
  "show_int i = (if i < 0 then CHR ''-'' # show_nat (nat (- i)) else show_nat (nat i))"

lemma trim_left_no_prefix: "find (has_prefix (trim_left s)) ws_runes = None"
  by (induction s rule: trim_left.induct) (subst trim_left.simps, auto split: option.splits)

lemma trim_right_no_suffix: "find (has_suffix (trim_right s)) ws_runes = None"
  by (induction s rule: trim_right.induct) (subst trim_right.simps, auto split: option.splits)

lemma trim_right_prefix: "\<exists>t. s = trim_right s @ t"
proof (induction s rule: trim_right.induct)
  case (1 s)
  show ?case
  proof (cases "find (has_suffix s) ws_runes")
    case None
    then show ?thesis by (subst trim_right.simps) simp
  next
    case (Some w)
    then obtain t where "take (length s - length w) s = trim_right (take (length s - length w) s) @ t"
      using 1 by blast
    moreover have "trim_right s = trim_right (take (length s - length w) s)"
      using Some by (subst trim_right.simps) simp
    ultimately have "s = trim_right s @ t @ drop (length s - length w) s"
      by (metis append.assoc append_take_drop_id)
    then show ?thesis by blast
  qed
qed

lemma trim_space_idem [simp]: "trim_space (trim_space s) = trim_space s"
proof -
  let ?t = "trim_left s"
  have "find (has_prefix (trim_right ?t)) ws_runes = None"
    using trim_left_no_prefix [of s] trim_right_prefix [of ?t]
    by (fastforce simp: find_None_iff has_prefix_iff)
  then have "trim_left (trim_right ?t) = trim_right ?t" by (subst trim_left.simps) simp
  moreover have "trim_right (trim_right ?t) = trim_right ?t"
    by (subst trim_right.simps) (simp add: trim_right_no_suffix)
  ultimately show ?thesis by (simp add: trim_space_def)
qed

lemma trim_space_empty [simp]: "trim_space [] = []"
  by (simp add: trim_space_def trim_left.simps [of "[]"] trim_right.simps [of "[]"] ws_runes_def has_suffix_def)

text \<open>strings.ToLower and strings.EqualFold on the ASCII letters; other bytes stand for themselves.\<close>

definition to_lower_char :: "char \<Rightarrow> char" where
  "to_lower_char c = (if 65 \<le> byte_val c \<and> byte_val c \<le> 90 then char_of (byte_val c + 32) else c)"

definition to_lower :: "string \<Rightarrow> string" where
  "to_lower s = map to_lower_char s"

definition equal_fold :: "string \<Rightarrow> string \<Rightarrow> bool" where
  "equal_fold a b \<longleftrightarrow> to_lower a = to_lower b"

section \<open>Lists\<close>

lemma distinct_remove1_notin: "distinct xs \<Longrightarrow> x \<notin> set (remove1 x xs)"
  by simp

lemma set_remove1_distinct: "distinct xs \<Longrightarrow> set (remove1 x xs) = set xs - {x}"
  by simp

text \<open>The last \<open>n\<close> elements: what a bounded buffer keeps.\<close>

definition last_n :: "nat \<Rightarrow> 'a list \<Rightarrow> 'a list" where
  "last_n n xs = drop (length xs - n) xs"

lemma length_last_n [simp]: "length (last_n n xs) = min n (length xs)"
  by (auto simp: last_n_def)

lemma last_n_all [simp]: "length xs \<le> n \<Longrightarrow> last_n n xs = xs"
  by (simp add: last_n_def)

section \<open>Association lists\<close>

text \<open>
  A Go map that the code ranges over is an association list with distinct keys; the
  order of the list is one of the iteration orders Go may choose.
\<close>

abbreviation keys_of :: "('k \<times> 'v) list \<Rightarrow> 'k list" where
  "keys_of m \<equiv> map fst m"

lemma map_of_update [simp]: "map_of (AList.update k v m) = (map_of m)(k \<mapsto> v)"
  by (rule update_conv')

lemma map_of_delete [simp]: "map_of (AList.delete k m) = (map_of m)(k := None)"
  by (rule delete_conv')

lemma distinct_keys_update [simp]:
  "distinct (keys_of m) \<Longrightarrow> distinct (keys_of (AList.update k v m))"
  by (rule distinct_update)

lemma distinct_keys_delete [simp]:
  "distinct (keys_of m) \<Longrightarrow> distinct (keys_of (AList.delete k m))"
  by (rule distinct_delete)

lemma distinct_keys_filter [simp]:
  "distinct (keys_of m) \<Longrightarrow> distinct (keys_of (filter P m))"
  by (rule distinct_map_filter)

lemma map_of_filter_keys:
  "distinct (keys_of m) \<Longrightarrow>
   map_of (filter (\<lambda>(k, v). P k v) m) k =
     (case map_of m k of None \<Rightarrow> None | Some v \<Rightarrow> if P k v then Some v else None)"
  by (induction m) (auto split: option.splits simp: map_of_eq_None_iff dest: map_of_SomeD)

lemma length_update_new:
  "map_of m k = None \<Longrightarrow> length (AList.update k v m) = Suc (length m)"
  by (induction m) (auto split: if_splits)

lemma length_update_old:
  "map_of m k = Some w \<Longrightarrow> length (AList.update k v m) = length m"
  by (induction m) (auto split: if_splits)

lemma length_delete_less:
  "map_of m k = Some v \<Longrightarrow> length (AList.delete k m) < length m"
  by (induction m) (auto split: if_splits intro: le_less_trans [OF length_delete_le])

end
