(* ===== verification/Session_Events.thy ===== *)
theory Session_Events
  imports Prelude "HOL-Library.Word"
begin

text \<open>
  The data of internal/sessionevent/event.go: event kinds, delivery classes, payloads and
  the envelope stored in a session journal. The payload, an \<^verbatim>\<open>any\<close> in Go, is the sum of the
  payload structs of that file; \<open>PNil\<close> is the nil interface and \<open>POther\<close> a value of any
  further dynamic type (the hub only copies it). Sequence numbers and offsets are Go
  uint64 values that start at 0 and count events or bytes, so they are \<open>nat\<close>;
  MergedCount is a uint16 and is kept as a 16-bit word.
\<close>

datatype kind =
    KindSessionUpdated | KindTurnStarted | KindTurnCompleted | KindTurnFailed
  | KindTurnCancelled | KindTurnSteered | KindTurnProgress | KindCancelAcknowledged
  | KindMessageDelta | KindMessageCreated | KindMessageCompleted | KindMessageReset
  | KindReasoningDelta | KindToolProgress | KindToolCompleted | KindPermissionRequested
  | KindUsageUpdated | KindQueueUpdated | KindTerminalOutput | KindTerminalExited
  | KindMCPStatus | KindSnapshotRequired

datatype delivery = DeliveryReliable | DeliveryMerge | DeliveryLatest

record text_delta =
  td_message_id :: string
  td_part_id :: string
  td_text :: string

record terminal_output =
  to_terminal_id :: string
  to_offset :: nat
  to_data :: bytes

record terminal_exit =
  tx_terminal_id :: string
  tx_state :: string
  tx_code :: int
  tx_signal :: string
  tx_timestamp :: int
  tx_offset :: nat

record mcp_status =
  ms_server_id :: string
  ms_name :: string
  ms_scope :: string
  ms_status :: string
  ms_tools :: int
  ms_prompts :: int
  ms_resources :: int
  ms_revision :: nat
  ms_error_code :: string

record message_event =
  me_message_id :: string
  me_finish_reason :: string

record tool_file =
  tf_path :: string
  tf_source_uri :: string
  tf_revision :: string

record tool_event =
  te_message_id :: string
  te_tool_call_id :: string
  te_name :: string
  te_status :: string
  te_input :: string
  te_result :: string
  te_is_error :: bool
  te_truncated :: bool
  te_files :: "tool_file list"

record turn_event =
  tn_turn_id :: string
  tn_message_id :: string
  tn_reason :: string
  tn_phase :: string

record queued_turn =
  qt_turn_id :: string
  qt_status :: string
  qt_position :: nat
  qt_preview :: string

record queue_event =
  qe_revision :: nat
  qe_turns :: "queued_turn list"

record usage_event =
  ue_input_tokens :: int
  ue_output_tokens :: int
  ue_reasoning_tokens :: int
  ue_cache_read_tokens :: int
  ue_cache_write_tokens :: int

datatype payload =
    PNil
  | PTextDelta text_delta
  | PTerminalOutput terminal_output
  | PTerminalExit terminal_exit
  | PMCPStatus mcp_status
  | PSnapshotRequired string
  | PMessage message_event
  | PTool tool_event
  | PTurn turn_event
  | PQueue queue_event
  | PUsage usage_event
  | POther string

record event =
  ev_session :: string
  ev_first :: nat
  ev_seq :: nat
  ev_revision :: nat
  ev_id :: string
  ev_time :: int
  ev_kind :: kind
  ev_payload :: payload
  ev_delivery :: delivery
  ev_key :: string
  ev_merged :: "16 word"

record new_event =
  ne_revision :: nat
  ne_advance :: bool
  ne_kind :: kind
  ne_payload :: payload
  ne_delivery :: delivery
  ne_key :: string

text \<open>Go's zero time.Time (1 January of year 1) in nanoseconds since the Unix epoch.\<close>

definition zero_time :: int where
  "zero_time = - 62135596800 * 1000000000"

text \<open>
  \<open>Event{}\<close>, the zero envelope. Kind is a string in Go and its zero value is empty; it is
  only ever found in cleared buffer slots, so the kind chosen here is never read.
\<close>

definition zero_event :: event where
  "zero_event =
     \<lparr>ev_session = [], ev_first = 0, ev_seq = 0, ev_revision = 0, ev_id = [],
      ev_time = zero_time, ev_kind = KindSessionUpdated, ev_payload = PNil,
      ev_delivery = DeliveryReliable, ev_key = [], ev_merged = 0\<rparr>"

text \<open>metricKind: the label under which a kind is counted.\<close>

fun metric_kind :: "kind \<Rightarrow> string" where
  "metric_kind KindSessionUpdated = ''session''"
| "metric_kind KindTurnStarted = ''turn''"
| "metric_kind KindTurnCompleted = ''turn''"
| "metric_kind KindTurnFailed = ''turn''"
| "metric_kind KindTurnCancelled = ''turn''"
| "metric_kind KindTurnSteered = ''turn''"
| "metric_kind KindTurnProgress = ''turn''"
| "metric_kind KindCancelAcknowledged = ''turn''"
| "metric_kind KindMessageDelta = ''message''"
| "metric_kind KindMessageCreated = ''message''"
| "metric_kind KindMessageCompleted = ''message''"
| "metric_kind KindMessageReset = ''message''"
| "metric_kind KindReasoningDelta = ''reasoning''"
| "metric_kind KindToolProgress = ''tool''"
| "metric_kind KindToolCompleted = ''tool''"
| "metric_kind KindPermissionRequested = ''permission''"
| "metric_kind KindUsageUpdated = ''usage''"
| "metric_kind KindQueueUpdated = ''queue''"
| "metric_kind KindTerminalOutput = ''terminal''"
| "metric_kind KindSnapshotRequired = ''snapshot''"
| "metric_kind _ = ''other''"

section \<open>Sequence ranges\<close>

text \<open>
  \<open>chain lo es hi\<close>: the events of \<open>es\<close> cover the sequence numbers \<open>lo + 1\<close> to \<open>hi\<close> in
  order, each number exactly once. This is what a subscriber may rely on.
\<close>

fun chain :: "nat \<Rightarrow> event list \<Rightarrow> nat \<Rightarrow> bool" where
  "chain lo [] hi \<longleftrightarrow> lo = hi"
| "chain lo (e # es) hi \<longleftrightarrow>
     ev_first e = Suc lo \<and> ev_first e \<le> ev_seq e \<and> chain (ev_seq e) es hi"

lemma chain_append:
  "chain lo (xs @ ys) hi \<longleftrightarrow> (\<exists>mid. chain lo xs mid \<and> chain mid ys hi)"
  by (induction xs arbitrary: lo) auto

lemma chain_snoc:
  "chain lo (xs @ [e]) hi \<longleftrightarrow>
     (\<exists>mid. chain lo xs mid \<and> ev_first e = Suc mid \<and> ev_first e \<le> ev_seq e \<and> ev_seq e = hi)"
  by (auto simp: chain_append)

lemma chain_le: "chain lo es hi \<Longrightarrow> lo \<le> hi"
  by (induction es arbitrary: lo) fastforce+

lemma chain_covered:
  "chain lo es hi \<Longrightarrow> lo < n \<Longrightarrow> n \<le> hi \<Longrightarrow>
   \<exists>e \<in> set es. ev_first e \<le> n \<and> n \<le> ev_seq e"
proof (induction es arbitrary: lo)
  case Nil
  then show ?case by simp
next
  case (Cons e es)
  then show ?case by (cases "n \<le> ev_seq e") force+
qed

lemma chain_last: "chain lo es hi \<Longrightarrow> es \<noteq> [] \<Longrightarrow> ev_seq (last es) = hi"
  by (induction es arbitrary: lo) (auto split: if_splits)

lemma chain_bounds:
  "chain lo es hi \<Longrightarrow> e \<in> set es \<Longrightarrow> lo < ev_first e \<and> ev_seq e \<le> hi"
  by (induction es arbitrary: lo) (fastforce dest: chain_le)+

lemma chain_sorted: "chain lo es hi \<Longrightarrow> sorted_wrt (\<lambda>a b. ev_seq a < ev_first b) es"
  by (induction es arbitrary: lo) (auto dest: chain_bounds)

end
