(* ===== verification/Event_Journal.thy ===== *)
theory Event_Journal
  imports Session_Events "HOL-Library.Sublist"
begin

text \<open>
  internal/sessionevent/journal.go: the bounded ring of recent events of one session.
  The ring is modelled with its buffer, start index and size as the code has them;
  \<open>contents\<close> reads it as the list of retained events, oldest first, and every operation
  is shown to act on that list as a bounded, age-limited log. The locale \<open>event_log\<close> is
  the interface the hub relies on; the ring is its interpretation.
\<close>

section \<open>The ring buffer\<close>

record journal =
  j_max_events :: nat
  j_max_age :: int
  j_buffer :: "event list"
  j_start :: nat
  j_size :: nat
  j_last :: nat
  j_has_last :: bool

text \<open>NewJournal panics on a non-positive bound: None.\<close>

definition new_journal :: "int \<Rightarrow> int \<Rightarrow> journal option" where
  "new_journal max_events max_age =
     (if max_events \<le> 0 then None
      else Some \<lparr>j_max_events = nat max_events, j_max_age = max_age,
                 j_buffer = replicate (nat max_events) zero_event,
                 j_start = 0, j_size = 0, j_last = 0, j_has_last = False\<rparr>)"

definition journal_at :: "journal \<Rightarrow> nat \<Rightarrow> event" where
  "journal_at j i = j_buffer j ! ((j_start j + i) mod j_max_events j)"

definition journal_drop_oldest :: "journal \<Rightarrow> journal" where
  "journal_drop_oldest j =
     j\<lparr>j_buffer := (j_buffer j)[j_start j := zero_event],
       j_start := (j_start j + 1) mod j_max_events j,
       j_size := j_size j - 1\<rparr>"

function journal_prune_loop :: "int \<Rightarrow> journal \<Rightarrow> journal" where
  "journal_prune_loop cutoff j =
     (if 0 < j_size j \<and> ev_time (journal_at j 0) < cutoff
      then journal_prune_loop cutoff (journal_drop_oldest j)
      else j)"
  by pat_completeness auto
termination
  by (relation "measure (\<lambda>(c, j). j_size j)") (auto simp: journal_drop_oldest_def)

declare journal_prune_loop.simps [simp del]

definition journal_prune :: "int \<Rightarrow> journal \<Rightarrow> journal" where
  "journal_prune now j =
     (if j_max_age j \<le> 0 \<or> j_size j = 0 then j
      else journal_prune_loop (now - j_max_age j) j)"

text \<open>Append panics when the sequence does not increase: None.\<close>

definition journal_append :: "event \<Rightarrow> int \<Rightarrow> journal \<Rightarrow> journal option" where
  "journal_append e now j =
     (if j_has_last j \<and> ev_seq e \<le> j_last j then None
      else
        let j1 = j\<lparr>j_last := ev_seq e, j_has_last := True\<rparr>;
            j2 = (if j_size j1 < j_max_events j1
                  then j1\<lparr>j_buffer := (j_buffer j1)[(j_start j1 + j_size j1) mod j_max_events j1 := e],
                          j_size := j_size j1 + 1\<rparr>
                  else j1\<lparr>j_buffer := (j_buffer j1)[j_start j1 := e],
                          j_start := (j_start j1 + 1) mod j_max_events j1\<rparr>)
        in Some (journal_prune now j2))"

function journal_skip :: "journal \<Rightarrow> nat \<Rightarrow> nat \<Rightarrow> nat" where
  "journal_skip j sequence i =
     (if i < j_size j \<and> ev_seq (journal_at j i) \<le> sequence
      then journal_skip j sequence (i + 1) else i)"
  by pat_completeness auto
termination
  by (relation "measure (\<lambda>(j, s, i). j_size j - i)") auto

declare journal_skip.simps [simp del]

definition journal_replay_after ::
  "nat \<Rightarrow> nat \<Rightarrow> int \<Rightarrow> journal \<Rightarrow> journal \<times> event list option" where
  "journal_replay_after sequence latest now j =
     (let j = journal_prune now j in
      (j, if sequence \<ge> latest then Some []
          else if j_size j = 0 \<or> sequence + 1 < ev_seq (journal_at j 0) then None
          else let index = journal_skip j sequence 0
               in Some (map (\<lambda>r. journal_at j (index + r)) [0..<j_size j - index])))"

section \<open>The list the ring stands for\<close>

definition contents :: "journal \<Rightarrow> event list" where
  "contents j = map (journal_at j) [0..<j_size j]"

definition ring_ok :: "journal \<Rightarrow> bool" where
  "ring_ok j \<longleftrightarrow>
     0 < j_max_events j \<and> length (j_buffer j) = j_max_events j \<and>
     j_start j < j_max_events j \<and> j_size j \<le> j_max_events j"

definition journal_inv :: "journal \<Rightarrow> bool" where
  "journal_inv j \<longleftrightarrow>
     ring_ok j \<and> sorted_wrt (\<lambda>a b. ev_seq a < ev_seq b) (contents j) \<and>
     (contents j \<noteq> [] \<longrightarrow> j_has_last j) \<and>
     (\<forall>e \<in> set (contents j). ev_seq e \<le> j_last j)"

definition expire :: "int \<Rightarrow> int \<Rightarrow> event list \<Rightarrow> event list" where
  "expire max_age now es =
     (if max_age \<le> 0 then es else dropWhile (\<lambda>e. ev_time e < now - max_age) es)"

lemma length_contents [simp]: "length (contents j) = j_size j"
  by (simp add: contents_def)

lemma contents_nth: "i < j_size j \<Longrightarrow> contents j ! i = journal_at j i"
  by (simp add: contents_def)

lemma contents_empty [simp]: "contents j = [] \<longleftrightarrow> j_size j = 0"
  by (simp add: contents_def)

lemma suffix_expire: "suffix (expire a n es) es"
  by (simp add: expire_def suffix_dropWhile)

lemma suffix_last_n: "suffix (last_n n es) es"
  by (simp add: last_n_def suffix_drop)

lemma new_journal_inv: "new_journal m a = Some j \<Longrightarrow> journal_inv j \<and> contents j = []"
  by (auto simp: new_journal_def journal_inv_def ring_ok_def contents_def split: if_splits)

lemma ring_index_neq:
  assumes "s < m" "i < m" "0 < i"
  shows "(s + i) mod m \<noteq> (s::nat)"
proof (cases "s + i < m")
  case True
  with assms show ?thesis by simp
next
  case False
  with assms have "(s + i) mod m = s + i - m"
    by (simp add: mod_if)
  with assms False show ?thesis by simp
qed

lemma ring_distinct:
  assumes "i < k" "k - i < m"
  shows "(s + i) mod m \<noteq> (s + k) mod (m::nat)"
proof
  assume "(s + i) mod m = (s + k) mod m"
  then have "m dvd (s + k) - (s + i)"
    using assms(1) by (metis mod_eq_dvd_iff_nat add_le_cancel_left less_imp_le)
  with assms show False by (auto dest: dvd_imp_le)
qed

lemma ring_wrap: "s < m \<Longrightarrow> (Suc s mod m + (m - 1)) mod m = (s::nat)"
  by (cases "Suc s = m") (auto simp: mod_if)

lemma drop_oldest_ring:
  assumes "ring_ok j" "0 < j_size j"
  shows "ring_ok (journal_drop_oldest j)"
    and "contents (journal_drop_oldest j) = tl (contents j)"
proof -
  show "ring_ok (journal_drop_oldest j)"
    using assms by (auto simp: ring_ok_def journal_drop_oldest_def)
  have "journal_at (journal_drop_oldest j) i = journal_at j (Suc i)" if "i < j_size j - 1" for i
  proof -
    have "(j_start j + Suc i) mod j_max_events j \<noteq> j_start j"
      using that assms by (intro ring_index_neq) (auto simp: ring_ok_def)
    moreover have "((j_start j + 1) mod j_max_events j + i) mod j_max_events j
        = (j_start j + Suc i) mod j_max_events j"
      by (simp add: mod_simps)
    ultimately show ?thesis
      by (simp add: journal_at_def journal_drop_oldest_def)
  qed
  then show "contents (journal_drop_oldest j) = tl (contents j)"
    by (intro nth_equalityI) (auto simp: contents_nth nth_tl journal_drop_oldest_def)
qed

lemma drop_oldest_frame [simp]:
  "j_last (journal_drop_oldest j) = j_last j"
  "j_has_last (journal_drop_oldest j) = j_has_last j"
  "j_max_events (journal_drop_oldest j) = j_max_events j"
  "j_max_age (journal_drop_oldest j) = j_max_age j"
  by (auto simp: journal_drop_oldest_def)

lemma prune_loop_ring:
  "ring_ok j \<Longrightarrow>
   ring_ok (journal_prune_loop c j) \<and>
   contents (journal_prune_loop c j) = dropWhile (\<lambda>e. ev_time e < c) (contents j) \<and>
   j_last (journal_prune_loop c j) = j_last j \<and>
   j_has_last (journal_prune_loop c j) = j_has_last j \<and>
   j_max_events (journal_prune_loop c j) = j_max_events j \<and>
   j_max_age (journal_prune_loop c j) = j_max_age j"
proof (induction c j rule: journal_prune_loop.induct)
  case (1 c j)
  have head: "contents j = journal_at j 0 # tl (contents j)" if "0 < j_size j"
    using that by (intro nth_equalityI) (auto simp: contents_nth nth_tl nth_Cons split: nat.split)
  show ?case
  proof (cases "0 < j_size j \<and> ev_time (journal_at j 0) < c")
    case True
    with "1.prems" have "ring_ok (journal_drop_oldest j)"
      "contents (journal_drop_oldest j) = tl (contents j)"
      by (auto intro: drop_oldest_ring)
    moreover have "dropWhile (\<lambda>e. ev_time e < c) (contents j) =
        dropWhile (\<lambda>e. ev_time e < c) (tl (contents j))"
      using head True by (metis dropWhile.simps(2))
    ultimately show ?thesis
      using "1.IH" [OF True] True by (simp add: journal_prune_loop.simps [of c j])
  next
    case False
    then have "dropWhile (\<lambda>e. ev_time e < c) (contents j) = contents j"
    proof (cases "j_size j = 0")
      case True
      then show ?thesis by (metis contents_empty dropWhile.simps(1))
    next
      case nz: False
      with False head show ?thesis by (metis dropWhile.simps(2) neq0_conv)
    qed
    with False "1.prems" show ?thesis by (auto simp: journal_prune_loop.simps [of c j])
  qed
qed

lemma prune_ring:
  assumes "ring_ok j"
  shows "ring_ok (journal_prune now j)"
    and "contents (journal_prune now j) = expire (j_max_age j) now (contents j)"
    and "j_last (journal_prune now j) = j_last j"
    and "j_has_last (journal_prune now j) = j_has_last j"
    and "j_max_events (journal_prune now j) = j_max_events j"
    and "j_max_age (journal_prune now j) = j_max_age j"
  using prune_loop_ring [OF assms] assms
  by (auto simp: journal_prune_def expire_def)
     (metis contents_empty dropWhile.simps(1))

lemma append_slot_ring:
  fixes j :: journal and e :: event
  assumes "ring_ok j" "j_size j < j_max_events j"
  defines "j' \<equiv> j\<lparr>j_buffer := (j_buffer j)[(j_start j + j_size j) mod j_max_events j := e],
                   j_size := j_size j + 1\<rparr>"
  shows "ring_ok j'" and "contents j' = contents j @ [e]"
proof -
  show "ring_ok j'" using assms by (auto simp: ring_ok_def)
  have old: "(j_start j + i) mod j_max_events j \<noteq> (j_start j + j_size j) mod j_max_events j"
    if "i < j_size j" for i
  using that assms(1,2) by (intro ring_distinct) (auto simp: ring_ok_def)
  have "journal_at j' i = (contents j @ [e]) ! i" if "i < Suc (j_size j)" for i
  proof (cases "i = j_size j")
    case True
    then show ?thesis using assms
      by (simp add: journal_at_def nth_append ring_ok_def)
  next
    case False
    with that have "i < j_size j" by simp
    with old [OF this] show ?thesis
      by (simp add: assms(3) journal_at_def nth_append contents_nth)
  qed
  then show "contents j' = contents j @ [e]"
    by (intro nth_equalityI) (auto simp: contents_nth assms(3))
qed

lemma overwrite_slot_ring:
  fixes j :: journal and e :: event
  assumes "ring_ok j" "\<not> j_size j < j_max_events j"
  defines "j' \<equiv> j\<lparr>j_buffer := (j_buffer j)[j_start j := e],
                   j_start := (j_start j + 1) mod j_max_events j\<rparr>"
  shows "ring_ok j'" and "contents j' = tl (contents j) @ [e]"
proof -
  show ok: "ring_ok j'" using assms by (auto simp: ring_ok_def)
  have full: "j_size j = j_max_events j" "0 < j_size j"
    using assms(1,2) by (auto simp: ring_ok_def)
  have "journal_at j' i = (tl (contents j) @ [e]) ! i" if i: "i < j_size j" for i
  proof (cases "i = j_size j - 1")
    case True
    then have "(Suc (j_start j) mod j_max_events j + i) mod j_max_events j = j_start j"
      using full assms(1) ring_wrap by (simp add: ring_ok_def)
    then show ?thesis using assms(1) full True
      by (simp add: assms(3) journal_at_def nth_append ring_ok_def)
  next
    case False
    with i have i': "i < j_size j - 1" by simp
    have "(j_start j + Suc i) mod j_max_events j \<noteq> j_start j"
      using i' assms(1) full by (intro ring_index_neq) (auto simp: ring_ok_def)
    then show ?thesis
      using i' by (simp add: assms(3) journal_at_def nth_append nth_tl contents_nth mod_simps)
  qed
  then show "contents j' = tl (contents j) @ [e]"
    using full by (intro nth_equalityI) (auto simp: contents_nth assms(3))
qed

lemma expire_append_contents:
  assumes "ring_ok j" "journal_append e now j = Some j'"
  shows "ring_ok j'"
    and "contents j' = expire (j_max_age j) now (last_n (j_max_events j) (contents j @ [e]))"
    and "j_last j' = ev_seq e" and "j_has_last j'"
    and "j_max_events j' = j_max_events j" and "j_max_age j' = j_max_age j"
proof -
  let ?j1 = "j\<lparr>j_last := ev_seq e, j_has_last := True\<rparr>"
  have ok1: "ring_ok ?j1" and c1: "contents ?j1 = contents j"
    using assms(1) by (auto simp: ring_ok_def contents_def journal_at_def)
  define j2 where "j2 = (if j_size ?j1 < j_max_events ?j1
     then ?j1\<lparr>j_buffer := (j_buffer ?j1)[(j_start ?j1 + j_size ?j1) mod j_max_events ?j1 := e],
             j_size := j_size ?j1 + 1\<rparr>
     else ?j1\<lparr>j_buffer := (j_buffer ?j1)[j_start ?j1 := e],
             j_start := (j_start ?j1 + 1) mod j_max_events ?j1\<rparr>)"
  have j': "j' = journal_prune now j2"
    using assms(2) by (auto simp: journal_append_def j2_def Let_def split: if_splits)
  have ok2: "ring_ok j2"
    using append_slot_ring(1) [OF ok1] overwrite_slot_ring(1) [OF ok1] by (simp add: j2_def)
  have "contents j2 = last_n (j_max_events j) (contents j @ [e])"
  proof (cases "j_size j < j_max_events j")
    case True
    then show ?thesis using append_slot_ring(2) [OF ok1, of e] c1
      by (simp add: j2_def Suc_le_eq)
  next
    case False
    then have "j_size j = j_max_events j" using assms(1) by (simp add: ring_ok_def)
    then show ?thesis
      using overwrite_slot_ring(2) [OF ok1, of e] c1 False assms(1) length_contents [of j]
      by (cases "contents j") (auto simp: j2_def last_n_def ring_ok_def)
  qed
  moreover have "j_max_age j2 = j_max_age j" "j_max_events j2 = j_max_events j"
    "j_last j2 = ev_seq e" "j_has_last j2"
    by (auto simp: j2_def)
  ultimately show "ring_ok j'"
    and "contents j' = expire (j_max_age j) now (last_n (j_max_events j) (contents j @ [e]))"
    and "j_last j' = ev_seq e" and "j_has_last j'"
    and "j_max_events j' = j_max_events j" and "j_max_age j' = j_max_age j"
    using prune_ring [OF ok2, of now] by (auto simp: j')
qed

section \<open>Invariant and functional behaviour\<close>

lemma sorted_wrt_suffix: "suffix xs ys \<Longrightarrow> sorted_wrt R ys \<Longrightarrow> sorted_wrt R xs"
  by (auto simp: suffix_def sorted_wrt_append)

lemma journal_prune_inv:
  assumes "journal_inv j"
  shows "journal_inv (journal_prune now j)"
proof -
  have ring: "ring_ok j" using assms by (simp add: journal_inv_def)
  have suf: "suffix (contents (journal_prune now j)) (contents j)"
    by (simp only: prune_ring(2) [OF ring] suffix_expire)
  show ?thesis
    using assms prune_ring [OF ring, of now] sorted_wrt_suffix [OF suf] set_mono_suffix [OF suf]
      suf by (auto simp: journal_inv_def simp del: contents_empty)
qed

lemma journal_append_total:
  "j_has_last j \<longrightarrow> j_last j < ev_seq e \<Longrightarrow> \<exists>j'. journal_append e now j = Some j'"
  by (auto simp: journal_append_def Let_def)

lemma journal_append_inv:
  assumes "journal_inv j" "journal_append e now j = Some j'"
  shows "journal_inv j'"
proof -
  have ring: "ring_ok j" using assms by (simp add: journal_inv_def)
  have inc: "j_has_last j \<longrightarrow> j_last j < ev_seq e"
    using assms(2) by (auto simp: journal_append_def split: if_splits)
  note eff = expire_append_contents [OF ring assms(2)]
  have suf: "suffix (contents j') (contents j @ [e])"
    unfolding eff(2) by (blast intro: suffix_order.trans suffix_expire suffix_last_n)
  have below: "\<forall>x \<in> set (contents j). ev_seq x < ev_seq e"
    using assms(1) inc unfolding journal_inv_def
    by (metis empty_iff le_less_trans list.set(1))
  then have "sorted_wrt (\<lambda>a b. ev_seq a < ev_seq b) (contents j @ [e])"
    using assms(1) by (auto simp: journal_inv_def sorted_wrt_append)
  moreover have "\<forall>x \<in> set (contents j @ [e]). ev_seq x \<le> ev_seq e"
    using below by (auto intro: less_imp_le)
  ultimately show ?thesis
    using eff sorted_wrt_suffix [OF suf] set_mono_suffix [OF suf]
    by (auto simp: journal_inv_def)
qed

lemma skip_spec:
  assumes "sorted_wrt (\<lambda>a b. ev_seq a < ev_seq b) (contents j)" "i \<le> j_size j"
    and "\<forall>k < i. ev_seq (journal_at j k) \<le> s"
  shows "journal_skip j s i \<le> j_size j \<and>
         (\<forall>k < journal_skip j s i. ev_seq (journal_at j k) \<le> s) \<and>
         (\<forall>k. journal_skip j s i \<le> k \<longrightarrow> k < j_size j \<longrightarrow> s < ev_seq (journal_at j k))"
  using assms
proof (induction j s i rule: journal_skip.induct)
  case (1 j s i)
  show ?case
  proof (cases "i < j_size j \<and> ev_seq (journal_at j i) \<le> s")
    case True
    have "\<forall>k < i + 1. ev_seq (journal_at j k) \<le> s"
      using True "1.prems"(3) by (auto simp: less_Suc_eq)
    from "1.IH" [OF True "1.prems"(1) _ this] True show ?thesis
      by (simp add: journal_skip.simps [of j s i])
  next
    case False
    have "s < ev_seq (journal_at j k)" if "i \<le> k" "k < j_size j" for k
    proof -
      have "ev_seq (contents j ! i) \<le> ev_seq (contents j ! k)"
        using that "1.prems"(1)
        by (cases "i = k") (auto simp: sorted_wrt_iff_nth_less intro!: less_imp_le)
      then show ?thesis using False that by (simp add: contents_nth)
    qed
    with False "1.prems" show ?thesis by (auto simp: journal_skip.simps [of j s i])
  qed
qed

lemma filter_split_at:
  assumes "\<forall>x \<in> set (take n xs). \<not> P x" "\<forall>x \<in> set (drop n xs). P x"
  shows "filter P xs = drop n xs"
proof -
  have "filter P xs = filter P (take n xs) @ filter P (drop n xs)"
    by (metis append_take_drop_id filter_append)
  with assms show ?thesis by (simp add: filter_id_conv)
qed

lemma replay_contents:
  fixes j :: journal and now :: int
  assumes "journal_inv j"
  defines "p \<equiv> journal_prune now j"
  shows "journal_replay_after s l now j =
     (p, if l \<le> s then Some []
         else if contents p = [] \<or> s + 1 < ev_seq (hd (contents p)) then None
         else Some (filter (\<lambda>e. s < ev_seq e) (contents p)))"
proof -
  have inv: "journal_inv p" using assms journal_prune_inv by simp
  let ?i = "journal_skip p s 0"
  have sk: "?i \<le> j_size p" "\<forall>k < ?i. ev_seq (journal_at p k) \<le> s"
    "\<forall>k. ?i \<le> k \<longrightarrow> k < j_size p \<longrightarrow> s < ev_seq (journal_at p k)"
    using skip_spec [of p 0 s] inv by (auto simp: journal_inv_def)
  have dr: "map (\<lambda>r. journal_at p (?i + r)) [0..<j_size p - ?i] = drop ?i (contents p)"
    by (intro nth_equalityI) (auto simp: contents_nth)
  have "filter (\<lambda>e. s < ev_seq e) (contents p) = drop ?i (contents p)"
  proof (rule filter_split_at)
    show "\<forall>x \<in> set (take ?i (contents p)). \<not> s < ev_seq x"
      using sk(1,2) by (auto simp: set_conv_nth contents_nth not_less)
    show "\<forall>x \<in> set (drop ?i (contents p)). s < ev_seq x"
      using sk(3) by (auto simp: set_conv_nth contents_nth)
  qed
  moreover have "hd (contents p) = journal_at p 0" if "j_size p \<noteq> 0"
    using that by (metis contents_empty contents_nth hd_conv_nth neq0_conv)
  ultimately show ?thesis
    by (simp add: journal_replay_after_def Let_def dr flip: p_def)
qed

section \<open>The interface the hub relies on\<close>

text \<open>
  An event log keeps a suffix of what was appended and replays the retained events after a
  sequence number, or says that they are gone.
\<close>

definition normal_tail :: "event list \<Rightarrow> nat \<Rightarrow> bool" where
  "normal_tail es hi \<longleftrightarrow> (\<exists>lo. chain lo es hi) \<and> (\<forall>e \<in> set es. ev_first e = ev_seq e)"

lemma normal_tail_suffix: "suffix xs ys \<Longrightarrow> normal_tail ys hi \<Longrightarrow> normal_tail xs hi"
  by (auto simp: normal_tail_def suffix_def chain_append)

lemma normal_tail_snoc:
  "normal_tail es hi \<Longrightarrow> ev_first e = Suc hi \<Longrightarrow> ev_seq e = Suc hi \<Longrightarrow>
   normal_tail (es @ [e]) (Suc hi)"
  by (auto simp: normal_tail_def chain_snoc)

lemma chain_filter_after:
  "chain lo es hi \<Longrightarrow> \<forall>e \<in> set es. ev_first e = ev_seq e \<Longrightarrow> lo \<le> s \<Longrightarrow> s \<le> hi \<Longrightarrow>
   chain s (filter (\<lambda>e. s < ev_seq e) es) hi"
proof (induction es arbitrary: lo)
  case Nil
  then show ?case by simp
next
  case (Cons e es)
  show ?case
  proof (cases "s < ev_seq e")
    case True
    with Cons.prems have "lo = s" by simp
    moreover have "filter (\<lambda>e. s < ev_seq e) es = es"
      using Cons.prems True by (fastforce simp: filter_id_conv dest: chain_bounds)
    moreover have "chain lo (e # es) hi" by (rule Cons.prems)
    ultimately show ?thesis using True by (simp del: chain.simps)
  next
    case False
    with Cons.prems have "chain (ev_seq e) es hi" "ev_seq e \<le> s" by auto
    with Cons.IH [of "ev_seq e"] Cons.prems False show ?thesis by simp
  qed
qed

locale event_log =
  fixes inv :: "'j \<Rightarrow> bool"
    and log :: "'j \<Rightarrow> event list"
    and last_seq :: "'j \<Rightarrow> nat"
    and append_log :: "event \<Rightarrow> int \<Rightarrow> 'j \<Rightarrow> 'j option"
    and replay_log :: "nat \<Rightarrow> nat \<Rightarrow> int \<Rightarrow> 'j \<Rightarrow> 'j \<times> event list option"
  assumes append_ok:
    "inv j \<Longrightarrow> last_seq j < ev_seq e \<Longrightarrow>
     \<exists>j'. append_log e now j = Some j' \<and> inv j' \<and> suffix (log j') (log j @ [e]) \<and>
          last_seq j' = ev_seq e"
    and replay_keeps:
    "inv j \<Longrightarrow> replay_log s l now j = (j', r) \<Longrightarrow>
     inv j' \<and> suffix (log j') (log j) \<and> last_seq j' = last_seq j"
    and replay_up_to_date: "inv j \<Longrightarrow> l \<le> s \<Longrightarrow> snd (replay_log s l now j) = Some []"
    and replay_events:
    "inv j \<Longrightarrow> s < l \<Longrightarrow> replay_log s l now j = (j', Some es) \<Longrightarrow>
     log j' \<noteq> [] \<and> ev_seq (hd (log j')) \<le> s + 1 \<and> es = filter (\<lambda>e. s < ev_seq e) (log j')"
    and replay_expired:
    "inv j \<Longrightarrow> s < l \<Longrightarrow> replay_log s l now j = (j', None) \<Longrightarrow>
     \<forall>e \<in> set (log j'). s + 1 < ev_seq e"
begin

lemma append_tail:
  assumes "inv j" "normal_tail (log j) (last_seq j)"
    and "ev_first e = Suc (last_seq j)" "ev_seq e = Suc (last_seq j)"
  shows "\<exists>j'. append_log e now j = Some j' \<and> inv j' \<and> normal_tail (log j') (Suc (last_seq j)) \<and>
              last_seq j' = Suc (last_seq j)"
proof -
  from append_ok [of j e now] assms obtain j' where j':
    "append_log e now j = Some j'" "inv j'" "suffix (log j') (log j @ [e])" "last_seq j' = ev_seq e"
    by auto
  have "normal_tail (log j @ [e]) (Suc (last_seq j))"
    using assms by (intro normal_tail_snoc) auto
  from normal_tail_suffix [OF j'(3) this] j' assms(4) show ?thesis by metis
qed

text \<open>A successful replay is gap-free up to the newest event.\<close>

lemma replay_chain:
  assumes "inv j" "normal_tail (log j) l" "s \<le> l" "replay_log s l now j = (j', Some es)"
  shows "chain s es l"
proof (cases "s < l")
  case False
  with assms(3) replay_up_to_date [OF assms(1), of l s now] assms(4) show ?thesis by simp
next
  case True
  note ev = replay_events [OF assms(1) True assms(4)]
  have "normal_tail (log j') l"
    using replay_keeps [OF assms(1,4)] normal_tail_suffix assms(2) by blast
  then obtain lo where lo: "chain lo (log j') l" "\<forall>e \<in> set (log j'). ev_first e = ev_seq e"
    by (auto simp: normal_tail_def)
  have "lo \<le> s" using ev lo by (cases "log j'") auto
  with chain_filter_after [OF lo this] True ev show ?thesis by simp
qed

lemma replay_normal:
  "inv j \<Longrightarrow> normal_tail (log j) l \<Longrightarrow> replay_log s l now j = (j', Some es) \<Longrightarrow>
   e \<in> set es \<Longrightarrow> ev_first e = ev_seq e"
  using replay_events [of j s l now j' es] replay_up_to_date [of j l s now]
    replay_keeps [of j s l now j' "Some es"]
  by (cases "s < l") (auto simp: normal_tail_def dest: set_mono_suffix)

end

text \<open>
  The number of the last appended event: 0 while nothing was appended, as in a new session.
\<close>

definition journal_last :: "journal \<Rightarrow> nat" where
  "journal_last j = (if j_has_last j then j_last j else 0)"

interpretation ring: event_log journal_inv contents journal_last journal_append journal_replay_after
proof
  fix j and e :: event and now
  assume inv: "journal_inv j" and inc: "journal_last j < ev_seq e"
  then obtain j' where j': "journal_append e now j = Some j'"
    using journal_append_total [of j e now] by (auto simp: journal_last_def split: if_splits)
  have ring: "ring_ok j" using inv by (simp add: journal_inv_def)
  note eff = expire_append_contents [OF ring j']
  have "suffix (contents j') (contents j @ [e])"
    unfolding eff(2) by (blast intro: suffix_order.trans suffix_expire suffix_last_n)
  then show "\<exists>j'. journal_append e now j = Some j' \<and> journal_inv j' \<and>
      suffix (contents j') (contents j @ [e]) \<and> journal_last j' = ev_seq e"
    using j' journal_append_inv [OF inv j'] eff by (auto simp: journal_last_def)
next
  fix j s l now j' r
  assume inv: "journal_inv j" and r: "journal_replay_after s l now j = (j', r)"
  have ring: "ring_ok j" using inv by (simp add: journal_inv_def)
  have "j' = journal_prune now j" using r replay_contents [OF inv] by simp
  then show "journal_inv j' \<and> suffix (contents j') (contents j) \<and> journal_last j' = journal_last j"
    using journal_prune_inv [OF inv] prune_ring [OF ring, of now] suffix_expire
    by (simp add: journal_last_def)
next
  fix j and l s :: nat and now
  assume "journal_inv j" "l \<le> s"
  then show "snd (journal_replay_after s l now j) = Some []"
    by (simp add: replay_contents)
next
  fix j s l now j' es
  assume "journal_inv j" "s < l" "journal_replay_after s l now j = (j', Some es)"
  then show "contents j' \<noteq> [] \<and> ev_seq (hd (contents j')) \<le> s + 1 \<and>
      es = filter (\<lambda>e. s < ev_seq e) (contents j')"
    by (auto simp: replay_contents split: if_splits)
next
  fix j s l now j'
  assume inv: "journal_inv j" and "s < l" "journal_replay_after s l now j = (j', None)"
  then have j': "j' = journal_prune now j" "contents j' = [] \<or> s + 1 < ev_seq (hd (contents j'))"
    by (auto simp: replay_contents split: if_splits)
  have "sorted_wrt (\<lambda>a b. ev_seq a < ev_seq b) (contents j')"
    using journal_prune_inv [OF inv] j' by (simp add: journal_inv_def)
  with j'(2) show "\<forall>e \<in> set (contents j'). s + 1 < ev_seq e"
    by (cases "contents j'") (auto simp del: contents_empty)
qed

declare contents_empty [simp del]

end
