(* ===== verification/Event_Coalescer.thy ===== *)
theory Event_Coalescer
  imports Event_Journal
begin

text \<open>
  internal/sessionevent/coalescer.go and the Subscription of hub.go: merging of adjacent
  events of one subscriber, and the bounded pull queue they are merged in. The locale
  \<open>coalescer\<close> is Go's Coalescer interface with the law the queue needs; DefaultCoalescer is
  its interpretation. What a subscriber receives is gap-free until its queue overflows,
  and an overflow keeps every reliable event and says that a snapshot is needed.
\<close>

section \<open>DefaultCoalescer\<close>

definition default_merge_window :: int where "default_merge_window = 33 * 1000000"

definition max_merged_payload_bytes :: nat where "max_merged_payload_bytes = 64 * 1024"

definition max_merged_events :: nat where "max_merged_events = 32"

definition merge_payload :: "event \<Rightarrow> event \<Rightarrow> event option" where
  "merge_payload previous next =
     (case ev_payload previous of
        PTextDelta p \<Rightarrow>
          (case ev_payload next of
             PTextDelta n \<Rightarrow>
               (if td_message_id p \<noteq> td_message_id n \<or> td_part_id p \<noteq> td_part_id n then None
                else if length (td_text p) + length (td_text n) > max_merged_payload_bytes then None
                else Some (next\<lparr>ev_payload := PTextDelta (n\<lparr>td_text := td_text p @ td_text n\<rparr>),
                                ev_first := ev_first previous\<rparr>))
           | _ \<Rightarrow> None)
      | PTerminalOutput p \<Rightarrow>
          (case ev_payload next of
             PTerminalOutput n \<Rightarrow>
               (if to_terminal_id p \<noteq> to_terminal_id n \<or>
                   to_offset p + length (to_data p) \<noteq> to_offset n then None
                else if length (to_data p) + length (to_data n) > max_merged_payload_bytes then None
                else Some (next\<lparr>ev_payload := PTerminalOutput
                                   (n\<lparr>to_offset := to_offset p, to_data := to_data p @ to_data n\<rparr>),
                                ev_first := ev_first previous\<rparr>))
           | _ \<Rightarrow> None)
      | _ \<Rightarrow> None)"

definition default_merge :: "event \<Rightarrow> event \<Rightarrow> event option" where
  "default_merge previous next =
     (if ev_session previous \<noteq> ev_session next \<or> ev_delivery previous \<noteq> ev_delivery next \<or>
         ev_kind previous \<noteq> ev_kind next \<or> ev_key previous = [] \<or>
         ev_key previous \<noteq> ev_key next \<or> ev_seq previous + 1 \<noteq> ev_first next \<or>
         ev_time next - ev_time previous > default_merge_window
      then None
      else (case ev_delivery next of
              DeliveryLatest \<Rightarrow> Some (next\<lparr>ev_first := ev_first previous\<rparr>)
            | DeliveryMerge \<Rightarrow>
                (let previous_count = max (ev_merged previous) 1;
                     next_count = max (ev_merged next) 1
                 in if unat previous_count + unat next_count > max_merged_events then None
                    else merge_payload previous
                           (next\<lparr>ev_merged := previous_count + next_count,
                                 ev_time := ev_time previous\<rparr>))
            | DeliveryReliable \<Rightarrow> None))"

lemma merge_payload_fields:
  "merge_payload p n = Some m \<Longrightarrow>
   ev_first m = ev_first p \<and> ev_seq m = ev_seq n \<and> ev_delivery m = ev_delivery n \<and>
   ev_kind m = ev_kind n \<and> ev_session m = ev_session n \<and> ev_merged m = ev_merged n \<and>
   ev_time m = ev_time n \<and> ev_key m = ev_key n"
  by (auto simp: merge_payload_def split: payload.splits if_splits)

lemma default_merge_guards:
  "default_merge p n = Some m \<Longrightarrow>
   ev_session p = ev_session n \<and> ev_delivery p = ev_delivery n \<and> ev_kind p = ev_kind n \<and>
   ev_key p = ev_key n \<and> ev_first n = Suc (ev_seq p) \<and> ev_delivery n \<noteq> DeliveryReliable"
  by (auto simp: default_merge_def split: if_splits delivery.splits)

lemma default_merge_fields:
  "default_merge p n = Some m \<Longrightarrow>
   ev_first m = ev_first p \<and> ev_seq m = ev_seq n \<and> ev_delivery m = ev_delivery n \<and>
   ev_kind m = ev_kind n \<and> ev_session m = ev_session n"
  by (auto simp: default_merge_def Let_def split: if_splits delivery.splits
           dest!: merge_payload_fields)

text \<open>The uint16 addition of the counters never wraps.\<close>

lemma merged_count_no_wrap:
  assumes "unat (max a (1::16 word)) + unat (max b 1) \<le> max_merged_events"
  shows "unat (max a 1 + max b (1::16 word)) = unat (max a 1) + unat (max b 1)"
proof -
  have "unat (max a 1) + unat (max b (1::16 word)) < 2 ^ LENGTH(16)"
    using assms by (simp add: max_merged_events_def)
  then show ?thesis by (subst unat_add_lem [symmetric])
qed

lemma default_merge_count:
  assumes "default_merge p n = Some m" "ev_delivery n = DeliveryMerge"
  shows "unat (ev_merged m) = unat (max (ev_merged p) 1) + unat (max (ev_merged n) 1)"
    and "unat (ev_merged m) \<le> max_merged_events"
proof -
  have le: "unat (max (ev_merged p) 1) + unat (max (ev_merged n) 1) \<le> max_merged_events"
    and m: "ev_merged m = max (ev_merged p) 1 + max (ev_merged n) 1"
    using assms by (auto simp: default_merge_def Let_def split: if_splits
                         dest!: merge_payload_fields)
  show "unat (ev_merged m) = unat (max (ev_merged p) 1) + unat (max (ev_merged n) 1)"
    using merged_count_no_wrap [OF le] m by simp
  with le show "unat (ev_merged m) \<le> max_merged_events" by simp
qed

section \<open>What a stream of deltas says\<close>

text \<open>
  The bytes an event contributes to one mergeable stream: the text of a message part or
  the output of a terminal.
\<close>

datatype stream_key = TextStream string string | TerminalStream string

fun stream_bytes :: "stream_key \<Rightarrow> event \<Rightarrow> bytes" where
  "stream_bytes (TextStream m p) e =
     (case ev_payload e of
        PTextDelta d \<Rightarrow> if td_message_id d = m \<and> td_part_id d = p then td_text d else []
      | _ \<Rightarrow> [])"
| "stream_bytes (TerminalStream t) e =
     (case ev_payload e of
        PTerminalOutput d \<Rightarrow> if to_terminal_id d = t then to_data d else []
      | _ \<Rightarrow> [])"

definition stream :: "stream_key \<Rightarrow> event list \<Rightarrow> bytes" where
  "stream k es = concat (map (stream_bytes k) es)"

lemma stream_append [simp]: "stream k (xs @ ys) = stream k xs @ stream k ys"
  by (simp add: stream_def)

lemma stream_simps [simp]: "stream k [] = []" "stream k [e] = stream_bytes k e"
  by (simp_all add: stream_def)

lemma merge_payload_cases:
  assumes "merge_payload p n = Some m"
  obtains (delta) dp dn where
      "ev_payload p = PTextDelta dp" "ev_payload n = PTextDelta dn"
      "td_message_id dp = td_message_id dn" "td_part_id dp = td_part_id dn"
      "ev_payload m = PTextDelta (dn\<lparr>td_text := td_text dp @ td_text dn\<rparr>)"
      "length (td_text dp @ td_text dn) \<le> max_merged_payload_bytes"
  | (terminal) tp tn where
      "ev_payload p = PTerminalOutput tp" "ev_payload n = PTerminalOutput tn"
      "to_terminal_id tp = to_terminal_id tn" "to_offset tp + length (to_data tp) = to_offset tn"
      "ev_payload m = PTerminalOutput
         (tn\<lparr>to_offset := to_offset tp, to_data := to_data tp @ to_data tn\<rparr>)"
      "length (to_data tp @ to_data tn) \<le> max_merged_payload_bytes"
proof (cases "ev_payload p")
  case (PTextDelta dp)
  with assms that(1) show ?thesis
    by (cases "ev_payload n") (auto simp: merge_payload_def split: if_splits)
next
  case (PTerminalOutput tp)
  with assms that(2) show ?thesis
    by (cases "ev_payload n") (auto simp: merge_payload_def split: if_splits)
qed (use assms in \<open>simp_all add: merge_payload_def\<close>)

lemma merge_payload_stream:
  assumes "merge_payload p n = Some m"
  shows "stream_bytes k m = stream_bytes k p @ stream_bytes k n"
  using assms by (cases rule: merge_payload_cases; cases k) auto

lemma stream_bytes_frame [simp]:
  "stream_bytes k (n\<lparr>ev_merged := c\<rparr>) = stream_bytes k n"
  "stream_bytes k (n\<lparr>ev_time := t\<rparr>) = stream_bytes k n"
  "stream_bytes k (n\<lparr>ev_first := f\<rparr>) = stream_bytes k n"
  by (cases k; simp)+

lemma default_merge_stream:
  assumes "default_merge p n = Some m" "ev_delivery n \<noteq> DeliveryLatest"
  shows "stream_bytes k m = stream_bytes k p @ stream_bytes k n"
proof -
  have "\<exists>c. merge_payload p (n\<lparr>ev_merged := c, ev_time := ev_time p\<rparr>) = Some m"
    using assms by (auto simp: default_merge_def Let_def split: if_splits delivery.splits)
  then show ?thesis by (auto dest: merge_payload_stream [where k = k])
qed

section \<open>The subscription queue\<close>

datatype hub_error =
    ErrSequenceExpired | ErrSubscriptionClosed | ErrSnapshotRequired | ErrContextDone | HubPanic

text \<open>
  \<open>sub_wake\<close> is the one-slot wake channel: True when a token is in it. \<open>sub_close_done\<close> is
  closeOnce. Metrics are not modelled.
\<close>

record subscription =
  sub_id :: string
  sub_session :: string
  sub_max_events :: nat
  sub_merge :: "event \<Rightarrow> event \<Rightarrow> event option"
  sub_queue :: "event list"
  sub_wake :: bool
  sub_closed :: bool
  sub_overflowed :: bool
  sub_close_done :: bool

definition new_subscription ::
  "string \<Rightarrow> string \<Rightarrow> nat \<Rightarrow> (event \<Rightarrow> event \<Rightarrow> event option) \<Rightarrow> subscription" where
  "new_subscription sid session_id max_events merge =
     \<lparr>sub_id = sid, sub_session = session_id, sub_max_events = max_events, sub_merge = merge,
      sub_queue = [], sub_wake = False, sub_closed = False, sub_overflowed = False,
      sub_close_done = False\<rparr>"

definition sub_signal :: "subscription \<Rightarrow> subscription" where
  "sub_signal s = s\<lparr>sub_wake := True\<rparr>"

abbreviation reliable :: "event \<Rightarrow> bool" where
  "reliable e \<equiv> ev_delivery e = DeliveryReliable"

definition snapshot_marker :: "string \<Rightarrow> event \<Rightarrow> event" where
  "snapshot_marker sid e =
     \<lparr>ev_session = ev_session e, ev_first = ev_seq e, ev_seq = ev_seq e,
      ev_revision = ev_revision e, ev_id = ''snapshot-required:'' @ sid, ev_time = ev_time e,
      ev_kind = KindSnapshotRequired, ev_payload = PSnapshotRequired ''subscriber_overflow'',
      ev_delivery = DeliveryReliable, ev_key = [], ev_merged = 0\<rparr>"

definition sub_enqueue :: "event \<Rightarrow> subscription \<Rightarrow> subscription" where
  "sub_enqueue e s =
     (if sub_closed s \<or> sub_overflowed s then s
      else
        (case (if sub_queue s = [] then None else sub_merge s (last (sub_queue s)) e) of
           Some merged \<Rightarrow> sub_signal (s\<lparr>sub_queue := butlast (sub_queue s) @ [merged]\<rparr>)
         | None \<Rightarrow>
             if length (sub_queue s) < sub_max_events s
             then sub_signal (s\<lparr>sub_queue := sub_queue s @ [e]\<rparr>)
             else sub_signal
                    (s\<lparr>sub_queue := filter reliable (sub_queue s) @
                         (if reliable e then [e] else []) @ [snapshot_marker (sub_id s) e],
                       sub_overflowed := True\<rparr>)))"

datatype next_result = NextEvent event | NextError hub_error | NextWait

text \<open>
  One call of Next up to the point where it returns or blocks. On an empty open queue it
  takes the wake token if there is one, finds the queue still empty, and blocks
  (\<open>NextWait\<close>) unless its context is done.
\<close>

definition sub_next :: "bool \<Rightarrow> subscription \<Rightarrow> subscription \<times> next_result" where
  "sub_next ctx_done s =
     (case sub_queue s of
        e # rest \<Rightarrow>
          (s\<lparr>sub_queue := rest\<rparr>,
           if sub_overflowed s \<and> rest = [] \<and> ev_kind e \<noteq> KindSnapshotRequired
           then NextError ErrSnapshotRequired else NextEvent e)
      | [] \<Rightarrow>
          if sub_overflowed s then (s, NextError ErrSnapshotRequired)
          else if sub_closed s then (s, NextError ErrSubscriptionClosed)
          else (s\<lparr>sub_wake := False\<rparr>,
                if ctx_done then NextError ErrContextDone else NextWait))"

definition sub_close_without_callback :: "subscription \<Rightarrow> subscription" where
  "sub_close_without_callback s = sub_signal (s\<lparr>sub_closed := True, sub_queue := []\<rparr>)"

definition sub_close_once :: "subscription \<Rightarrow> subscription" where
  "sub_close_once s =
     (if sub_close_done s then s
      else (sub_close_without_callback s)\<lparr>sub_close_done := True\<rparr>)"

text \<open>
  What holds of a live subscription of a session whose newest event is \<open>hi\<close>: its queue is
  bounded, an unread queue that did not overflow covers everything up to \<open>hi\<close>, and an
  overflowed queue ends in the marker until it is drained.
\<close>

definition sub_ok :: "nat \<Rightarrow> subscription \<Rightarrow> bool" where
  "sub_ok hi s \<longleftrightarrow>
     (\<not> sub_overflowed s \<longrightarrow>
        length (sub_queue s) \<le> sub_max_events s \<and> (\<exists>lo. chain lo (sub_queue s) hi)) \<and>
     (sub_overflowed s \<longrightarrow>
        length (sub_queue s) \<le> sub_max_events s + 2 \<and>
        (\<forall>e \<in> set (sub_queue s). reliable e) \<and>
        (sub_queue s \<noteq> [] \<longrightarrow> ev_kind (last (sub_queue s)) = KindSnapshotRequired))"

locale coalescer =
  fixes merge :: "event \<Rightarrow> event \<Rightarrow> event option"
  assumes merge_range:
    "merge p n = Some m \<Longrightarrow>
     ev_first m = ev_first p \<and> ev_seq m = ev_seq n \<and> ev_first n = Suc (ev_seq p)"
    and merge_unreliable:
    "merge p n = Some m \<Longrightarrow> \<not> reliable p \<and> \<not> reliable n \<and> \<not> reliable m"
begin

lemma enqueue_chain:
  assumes "sub_merge s = merge" "chain lo (sub_queue s) hi"
    and "\<not> sub_closed s" "\<not> sub_overflowed (sub_enqueue e s)"
    and "ev_first e = Suc hi" "ev_first e \<le> ev_seq e"
  shows "chain lo (sub_queue (sub_enqueue e s)) (ev_seq e)"
proof (cases "sub_queue s = [] \<or> merge (last (sub_queue s)) e = None")
  case True
  with assms show ?thesis
    by (auto simp: sub_enqueue_def sub_signal_def chain_snoc split: if_splits)
next
  case False
  then obtain q l m where q: "sub_queue s = q @ [l]" and m: "merge l e = Some m"
    by (cases "sub_queue s" rule: rev_cases) auto
  from merge_range [OF m] assms q m show ?thesis
    by (auto simp: sub_enqueue_def sub_signal_def chain_snoc)
qed

lemma enqueue_length:
  assumes "length (sub_queue s) \<le> sub_max_events s" "\<not> sub_overflowed s"
  shows "length (sub_queue (sub_enqueue e s)) \<le>
           sub_max_events s + (if sub_overflowed (sub_enqueue e s) then 2 else 0)"
proof -
  have "length (filter reliable (sub_queue s)) \<le> sub_max_events s"
    using assms(1) length_filter_le le_trans by blast
  with assms show ?thesis
    by (auto simp: sub_enqueue_def sub_signal_def split: option.splits)
qed

lemma enqueue_ok:
  assumes "sub_merge s = merge" "sub_ok hi s" "\<not> sub_closed s" "ev_first e = Suc hi"
    and "ev_seq e = Suc hi"
  shows "sub_ok (Suc hi) (sub_enqueue e s)"
proof (cases "sub_overflowed s")
  case True
  with assms(2) show ?thesis by (auto simp: sub_ok_def sub_enqueue_def)
next
  case False
  then obtain lo where lo: "chain lo (sub_queue s) hi" and
      len: "length (sub_queue s) \<le> sub_max_events s"
    using assms(2) by (auto simp: sub_ok_def)
  have max: "sub_max_events (sub_enqueue e s) = sub_max_events s"
    by (auto simp: sub_enqueue_def sub_signal_def split: option.splits)
  show ?thesis
  proof (cases "sub_overflowed (sub_enqueue e s)")
    case True
    then have "\<forall>x \<in> set (sub_queue (sub_enqueue e s)). reliable x"
      "ev_kind (last (sub_queue (sub_enqueue e s))) = KindSnapshotRequired"
      using False by (auto simp: sub_enqueue_def sub_signal_def snapshot_marker_def
                           split: option.splits if_splits)
    with True enqueue_length [OF len False, of e] max show ?thesis by (auto simp: sub_ok_def)
  next
    case no: False
    with enqueue_chain [OF assms(1) lo assms(3) no] enqueue_length [OF len False, of e] max assms
    show ?thesis by (auto simp: sub_ok_def)
  qed
qed

text \<open>No accepted reliable event is lost, whatever merging or overflow does.\<close>

lemma enqueue_reliable:
  assumes "sub_merge s = merge" "\<not> sub_closed s" "\<not> sub_overflowed s"
  shows "filter reliable (sub_queue (sub_enqueue e s)) =
           filter reliable (sub_queue s) @ (if reliable e then [e] else []) @
           (if sub_overflowed (sub_enqueue e s) then [snapshot_marker (sub_id s) e] else [])"
proof (cases "sub_queue s = [] \<or> merge (last (sub_queue s)) e = None")
  case True
  with assms show ?thesis
    by (auto simp: sub_enqueue_def sub_signal_def snapshot_marker_def)
next
  case False
  then obtain q l m where q: "sub_queue s = q @ [l]" and m: "merge l e = Some m"
    by (cases "sub_queue s" rule: rev_cases) auto
  from merge_unreliable [OF m] assms q m show ?thesis
    by (simp add: sub_enqueue_def sub_signal_def)
qed

lemma fold_enqueue_overflowed [simp]:
  "sub_overflowed s \<Longrightarrow> fold sub_enqueue es s = s"
  by (induction es) (auto simp: sub_enqueue_def)

text \<open>Queueing a gap-free run of events, as Subscribe does with the replay.\<close>

lemma fold_enqueue_chain:
  "sub_merge s = merge \<Longrightarrow> \<not> sub_closed s \<Longrightarrow> length (sub_queue s) \<le> sub_max_events s \<Longrightarrow>
   chain lo (sub_queue s) mid \<Longrightarrow> chain mid es hi \<Longrightarrow>
   \<not> sub_overflowed (fold sub_enqueue es s) \<Longrightarrow>
   chain lo (sub_queue (fold sub_enqueue es s)) hi \<and>
   length (sub_queue (fold sub_enqueue es s)) \<le> sub_max_events s"
proof (induction es arbitrary: s mid)
  case Nil
  then show ?case by simp
next
  case (Cons e es)
  have no: "\<not> sub_overflowed (sub_enqueue e s)"
    using Cons.prems(6) by (cases "sub_overflowed (sub_enqueue e s)") auto
  then have nos: "\<not> sub_overflowed s" by (auto simp: sub_enqueue_def)
  have fr: "sub_merge (sub_enqueue e s) = sub_merge s" "sub_closed (sub_enqueue e s) = sub_closed s"
    "sub_max_events (sub_enqueue e s) = sub_max_events s"
    by (auto simp: sub_enqueue_def sub_signal_def split: option.splits)
  have "chain lo (sub_queue (sub_enqueue e s)) (ev_seq e)"
    using enqueue_chain [OF Cons.prems(1,4,2) no] Cons.prems(5) by simp
  moreover have "length (sub_queue (sub_enqueue e s)) \<le> sub_max_events s"
    using enqueue_length [OF Cons.prems(3) nos, of e] no by simp
  ultimately show ?case
    using Cons.IH [of "sub_enqueue e s" "ev_seq e"] Cons.prems fr by simp
qed

end

interpretation default_coalescer: coalescer default_merge
  by unfold_locales (use default_merge_fields default_merge_guards in metis)+

lemma sub_enqueue_fields [simp]:
  "sub_id (sub_enqueue e s) = sub_id s"
  "sub_session (sub_enqueue e s) = sub_session s"
  "sub_max_events (sub_enqueue e s) = sub_max_events s"
  "sub_merge (sub_enqueue e s) = sub_merge s"
  "sub_closed (sub_enqueue e s) = sub_closed s"
  "sub_close_done (sub_enqueue e s) = sub_close_done s"
  by (auto simp: sub_enqueue_def sub_signal_def split: option.splits)

lemma sub_enqueue_closed [simp]: "sub_closed s \<Longrightarrow> sub_enqueue e s = s"
  by (simp add: sub_enqueue_def)

lemma sub_next_ok: "sub_ok hi s \<Longrightarrow> sub_ok hi (fst (sub_next c s))"
  by (auto simp: sub_ok_def sub_next_def split: list.splits if_splits)

lemma sub_next_fields [simp]:
  "sub_session (fst (sub_next c s)) = sub_session s"
  "sub_merge (fst (sub_next c s)) = sub_merge s"
  "sub_closed (fst (sub_next c s)) = sub_closed s"
  "sub_overflowed (fst (sub_next c s)) = sub_overflowed s"
  "sub_close_done (fst (sub_next c s)) = sub_close_done s"
  by (auto simp: sub_next_def split: list.splits)

lemma fold_enqueue_fields [simp]:
  "sub_session (fold sub_enqueue es s) = sub_session s"
  "sub_max_events (fold sub_enqueue es s) = sub_max_events s"
  "sub_merge (fold sub_enqueue es s) = sub_merge s"
  "sub_closed (fold sub_enqueue es s) = sub_closed s"
  "sub_close_done (fold sub_enqueue es s) = sub_close_done s"
  by (induction es arbitrary: s) auto

lemma new_subscription_fields [simp]:
  "sub_session (new_subscription i sid n m) = sid"
  "sub_max_events (new_subscription i sid n m) = n"
  "sub_merge (new_subscription i sid n m) = m"
  "sub_queue (new_subscription i sid n m) = []"
  "\<not> sub_closed (new_subscription i sid n m)"
  "\<not> sub_overflowed (new_subscription i sid n m)"
  "\<not> sub_close_done (new_subscription i sid n m)"
  by (simp_all add: new_subscription_def)

text \<open>
  Merging never loses, repeats or reorders the bytes of a mergeable stream: as long as the
  queue does not overflow it says what it said before, followed by the new event.
\<close>

lemma enqueue_stream:
  assumes "sub_merge s = default_merge" "\<not> sub_closed s"
    and "\<not> sub_overflowed (sub_enqueue e s)" "ev_delivery e \<noteq> DeliveryLatest"
  shows "stream k (sub_queue (sub_enqueue e s)) = stream k (sub_queue s) @ stream_bytes k e"
proof (cases "sub_queue s = [] \<or> default_merge (last (sub_queue s)) e = None")
  case True
  with assms show ?thesis
    by (auto simp: sub_enqueue_def sub_signal_def split: if_splits)
next
  case False
  then obtain q l m where q: "sub_queue s = q @ [l]" and m: "default_merge l e = Some m"
    by (cases "sub_queue s" rule: rev_cases) auto
  then show ?thesis using assms default_merge_stream [OF m assms(4), of k]
    by (auto simp: sub_enqueue_def sub_signal_def split: if_splits)
qed

end
