(* ===== verification/Event_Hub.thy ===== *)
theory Event_Hub
  imports Event_Coalescer
begin

text \<open>
  internal/sessionevent/hub.go: isolated sequence spaces per session, publication to the
  journal and to every subscription, replay, snapshot cuts and the bounded draft of the
  active assistant message (with truncateUTF8 and the draft bound of snapshot.go).

  Subscriptions are objects shared by the hub and their readers, so they live in a heap
  indexed by subscription id; a session holds the ids of its subscriptions. The hub's
  locks make each operation one atomic step. Clock values, event ids and subscription
  ids, which Go obtains from its configuration and from uuid, are arguments.
\<close>

section \<open>State\<close>

record draft =
  dr_message_id :: string
  dr_text :: string
  dr_truncated :: bool
  dr_available :: bool

definition empty_draft :: draft where
  "empty_draft = \<lparr>dr_message_id = [], dr_text = [], dr_truncated = False, dr_available = False\<rparr>"

record session_state =
  ss_latest :: nat
  ss_revision :: nat
  ss_journal :: journal
  ss_subs :: "string list"
  ss_draft :: draft

record hub =
  h_sessions :: "(string \<times> session_state) list"
  h_heap :: "string \<Rightarrow> subscription option"
  h_closed :: bool
  h_journal_events :: int
  h_journal_age :: int
  h_queue_events :: nat
  h_merge :: "event \<Rightarrow> event \<Rightarrow> event option"

record hub_config =
  hc_journal_events :: int
  hc_journal_age :: int
  hc_queue_events :: int
  hc_coalescer :: "(event \<Rightarrow> event \<Rightarrow> event option) option"

definition new_hub :: "hub_config \<Rightarrow> hub" where
  "new_hub c =
     \<lparr>h_sessions = [], h_heap = (\<lambda>_. None), h_closed = False,
      h_journal_events = (if hc_journal_events c \<le> 0 then 4096 else hc_journal_events c),
      h_journal_age = (if hc_journal_age c = 0 then 5 * 60 * 1000000000 else hc_journal_age c),
      h_queue_events = (if hc_queue_events c \<le> 0 then 256 else nat (hc_queue_events c)),
      h_merge = (case hc_coalescer c of None \<Rightarrow> default_merge | Some m \<Rightarrow> m)\<rparr>"

section \<open>The active draft\<close>

definition snapshot_draft_bytes :: nat where "snapshot_draft_bytes = 64 * 1024"

definition truncate_utf8 :: "string \<Rightarrow> nat \<Rightarrow> string \<times> bool" where
  "truncate_utf8 value max_bytes =
     (if length value \<le> max_bytes then (value, False)
      else (take (back_to_rune_start value max_bytes) value, True))"

definition draft_append :: "string \<Rightarrow> draft \<Rightarrow> draft" where
  "draft_append txt d =
     (if txt = [] \<or> dr_truncated d then d
      else
        let d = d\<lparr>dr_available := True\<rparr>;
            txt = to_valid_utf8 txt replacement_char
        in if snapshot_draft_bytes \<le> length (dr_text d) then d\<lparr>dr_truncated := True\<rparr>
           else
             let remaining = snapshot_draft_bytes - length (dr_text d)
             in if length txt \<le> remaining then d\<lparr>dr_text := dr_text d @ txt\<rparr>
                else d\<lparr>dr_text := dr_text d @ fst (truncate_utf8 txt remaining),
                       dr_truncated := True\<rparr>)"

definition apply_draft :: "event \<Rightarrow> draft \<Rightarrow> draft" where
  "apply_draft e d =
     (case ev_kind e of
        KindMessageCreated \<Rightarrow>
          (case ev_payload e of
             PMessage v \<Rightarrow> if me_message_id v \<noteq> [] then empty_draft\<lparr>dr_message_id := me_message_id v\<rparr> else d
           | _ \<Rightarrow> d)
      | KindMessageDelta \<Rightarrow>
          (case ev_payload e of
             PTextDelta v \<Rightarrow>
               if td_message_id v = [] then d
               else
                 let d = (if dr_message_id d = [] then d\<lparr>dr_message_id := td_message_id v\<rparr> else d)
                 in if dr_message_id d \<noteq> td_message_id v then d
                    else draft_append (td_text v) d
           | _ \<Rightarrow> d)
      | KindMessageCompleted \<Rightarrow>
          (case ev_payload e of
             PMessage v \<Rightarrow> if me_message_id v = dr_message_id d then empty_draft else d
           | _ \<Rightarrow> d)
      | KindMessageReset \<Rightarrow>
          (case ev_payload e of
             PMessage v \<Rightarrow> if me_message_id v = dr_message_id d then empty_draft else d
           | _ \<Rightarrow> d)
      | KindTurnCompleted \<Rightarrow> empty_draft
      | KindTurnFailed \<Rightarrow> empty_draft
      | KindTurnCancelled \<Rightarrow> empty_draft
      | _ \<Rightarrow> d)"

section \<open>Operations\<close>

abbreviation hub_session :: "hub \<Rightarrow> string \<Rightarrow> session_state option" where
  "hub_session h sid \<equiv> map_of (h_sessions h) sid"

definition put_session :: "string \<Rightarrow> session_state \<Rightarrow> hub \<Rightarrow> hub" where
  "put_session sid st h = h\<lparr>h_sessions := AList.update sid st (h_sessions h)\<rparr>"

text \<open>getOrCreateSession; NewJournal's panic would surface as \<open>HubPanic\<close>.\<close>

definition get_or_create_session :: "hub \<Rightarrow> string \<Rightarrow> hub_error + hub \<times> session_state" where
  "get_or_create_session h sid =
     (if h_closed h then Inl ErrSubscriptionClosed
      else
        (case hub_session h sid of
           Some st \<Rightarrow> Inr (h, st)
         | None \<Rightarrow>
             (case new_journal (h_journal_events h) (h_journal_age h) of
                None \<Rightarrow> Inl HubPanic
              | Some j \<Rightarrow>
                  let st = \<lparr>ss_latest = 0, ss_revision = 0, ss_journal = j, ss_subs = [],
                            ss_draft = empty_draft\<rparr>
                  in Inr (put_session sid st h, st))))"

text \<open>clonePayload copies terminal bytes; values are immutable here.\<close>

definition clone_payload :: "payload \<Rightarrow> payload" where
  "clone_payload p =
     (case p of PTerminalOutput v \<Rightarrow> PTerminalOutput (v\<lparr>to_data := [] @ to_data v\<rparr>) | _ \<Rightarrow> p)"

lemma clone_payload_id [simp]: "clone_payload p = p"
  by (simp add: clone_payload_def split: payload.split)

definition offer :: "string list \<Rightarrow> event \<Rightarrow> (string \<Rightarrow> subscription option) \<Rightarrow>
    string \<Rightarrow> subscription option" where
  "offer ids e heap = (\<lambda>i. if i \<in> set ids then map_option (sub_enqueue e) (heap i) else heap i)"

definition build_event :: "string \<Rightarrow> nat \<Rightarrow> nat \<Rightarrow> string \<Rightarrow> int \<Rightarrow> new_event \<Rightarrow> event" where
  "build_event sid sequence revision eid now input =
     \<lparr>ev_session = sid, ev_first = sequence, ev_seq = sequence, ev_revision = revision,
      ev_id = eid, ev_time = now, ev_kind = ne_kind input,
      ev_payload = clone_payload (ne_payload input), ev_delivery = ne_delivery input,
      ev_key = ne_key input, ev_merged = 1\<rparr>"

definition next_revision :: "new_event \<Rightarrow> nat \<Rightarrow> nat \<times> nat" where
  "next_revision input current =
     (if (ne_kind input = KindSessionUpdated \<or> ne_advance input) \<and> ne_revision input = 0
      then (current + 1, current + 1)
      else (max current (ne_revision input), ne_revision input))"

definition publish :: "string \<Rightarrow> new_event \<Rightarrow> int \<Rightarrow> string \<Rightarrow> hub \<Rightarrow> hub \<times> (hub_error + event)" where
  "publish sid input now eid h =
     (case get_or_create_session h sid of
        Inl err \<Rightarrow> (h, Inl err)
      | Inr (h1, st) \<Rightarrow>
          let latest = ss_latest st + 1;
              (session_revision, revision) = next_revision input (ss_revision st);
              e = build_event sid latest revision eid now input
          in (case journal_append e now (ss_journal st) of
                None \<Rightarrow> (h1, Inl HubPanic)
              | Some j \<Rightarrow>
                  let st' = st\<lparr>ss_latest := latest, ss_revision := session_revision,
                               ss_draft := apply_draft e (ss_draft st), ss_journal := j\<rparr>
                  in ((put_session sid st' h1)\<lparr>h_heap := offer (ss_subs st) e (h_heap h1)\<rparr>, Inr e)))"

record snapshot_cut =
  sc_latest :: nat
  sc_revision :: nat
  sc_draft :: draft

definition hub_snapshot_cut :: "string \<Rightarrow> hub \<Rightarrow> snapshot_cut" where
  "hub_snapshot_cut sid h =
     (case hub_session h sid of
        None \<Rightarrow> \<lparr>sc_latest = 0, sc_revision = 0, sc_draft = empty_draft\<rparr>
      | Some st \<Rightarrow> \<lparr>sc_latest = ss_latest st, sc_revision = ss_revision st, sc_draft = ss_draft st\<rparr>)"

definition latest_revision :: "string \<Rightarrow> hub \<Rightarrow> nat" where
  "latest_revision sid h = (case hub_session h sid of None \<Rightarrow> 0 | Some st \<Rightarrow> ss_revision st)"

definition latest_sequence :: "string \<Rightarrow> hub \<Rightarrow> nat" where
  "latest_sequence sid h = (case hub_session h sid of None \<Rightarrow> 0 | Some st \<Rightarrow> ss_latest st)"

definition hub_replay_after :: "string \<Rightarrow> nat \<Rightarrow> int \<Rightarrow> hub \<Rightarrow> hub \<times> (hub_error + event list)" where
  "hub_replay_after sid sequence now h =
     (case hub_session h sid of
        None \<Rightarrow> (h, if sequence = 0 then Inr [] else Inl ErrSequenceExpired)
      | Some st \<Rightarrow>
          (case journal_replay_after sequence (ss_latest st) now (ss_journal st) of
             (j, available) \<Rightarrow>
               (put_session sid (st\<lparr>ss_journal := j\<rparr>) h,
                case available of None \<Rightarrow> Inl ErrSequenceExpired | Some es \<Rightarrow> Inr es)))"

text \<open>Subscribe, with the fresh subscription id as an argument.\<close>

definition subscribe ::
  "string \<Rightarrow> nat \<Rightarrow> int \<Rightarrow> string \<Rightarrow> hub \<Rightarrow> hub \<times> (hub_error + string)" where
  "subscribe sid after now i h =
     (case get_or_create_session h sid of
        Inl err \<Rightarrow> (h, Inl err)
      | Inr (h1, st) \<Rightarrow>
          (case journal_replay_after after (ss_latest st) now (ss_journal st) of
             (j, None) \<Rightarrow> (put_session sid (st\<lparr>ss_journal := j\<rparr>) h1, Inl ErrSequenceExpired)
           | (j, Some replay) \<Rightarrow>
               let s = fold sub_enqueue replay
                         (new_subscription i sid (h_queue_events h1) (h_merge h1))
               in if sub_overflowed s
                  then (put_session sid (st\<lparr>ss_journal := j\<rparr>) h1, Inl ErrSnapshotRequired)
                  else ((put_session sid (st\<lparr>ss_journal := j, ss_subs := i # ss_subs st\<rparr>) h1)
                          \<lparr>h_heap := (h_heap h1)(i \<mapsto> s)\<rparr>, Inr i)))"

definition hub_next :: "string \<Rightarrow> bool \<Rightarrow> hub \<Rightarrow> hub \<times> next_result" where
  "hub_next i ctx_done h =
     (case h_heap h i of
        None \<Rightarrow> (h, NextError ErrSubscriptionClosed)
      | Some s \<Rightarrow> (case sub_next ctx_done s of (s', r) \<Rightarrow> (h\<lparr>h_heap := (h_heap h)(i \<mapsto> s')\<rparr>, r)))"

text \<open>Subscription.Close with its onClose callback, which detaches it from its session.\<close>

definition close_subscription :: "string \<Rightarrow> hub \<Rightarrow> hub" where
  "close_subscription i h =
     (case h_heap h i of
        None \<Rightarrow> h
      | Some s \<Rightarrow>
          if sub_close_done s then h
          else
            let h1 = h\<lparr>h_heap := (h_heap h)(i \<mapsto> sub_close_once s)\<rparr>
            in (case hub_session h1 (sub_session s) of
                  None \<Rightarrow> h1
                | Some st \<Rightarrow>
                    put_session (sub_session s)
                      (st\<lparr>ss_subs := filter (\<lambda>k. k \<noteq> i) (ss_subs st)\<rparr>) h1))"

definition hub_close_session :: "string \<Rightarrow> hub \<Rightarrow> hub" where
  "hub_close_session sid h =
     (case hub_session h sid of
        None \<Rightarrow> h
      | Some st \<Rightarrow>
          h\<lparr>h_sessions := AList.delete sid (h_sessions h),
            h_heap := (\<lambda>i. if i \<in> set (ss_subs st) then map_option sub_close_once (h_heap h i)
                           else h_heap h i)\<rparr>)"

definition hub_close :: "hub \<Rightarrow> hub" where
  "hub_close h =
     (if h_closed h then h
      else fold hub_close_session (keys_of (h_sessions h)) (h\<lparr>h_closed := True\<rparr>))"

section \<open>Invariant\<close>

definition session_inv :: "session_state \<Rightarrow> bool" where
  "session_inv st \<longleftrightarrow>
     journal_inv (ss_journal st) \<and> journal_last (ss_journal st) = ss_latest st \<and>
     normal_tail (contents (ss_journal st)) (ss_latest st) \<and>
     length (dr_text (ss_draft st)) \<le> snapshot_draft_bytes"

definition live_sub :: "hub \<Rightarrow> string \<Rightarrow> nat \<Rightarrow> subscription \<Rightarrow> bool" where
  "live_sub h sid hi s \<longleftrightarrow>
     sub_session s = sid \<and> \<not> sub_closed s \<and> \<not> sub_close_done s \<and>
     sub_merge s = h_merge h \<and> sub_ok hi s"

definition hub_inv :: "hub \<Rightarrow> bool" where
  "hub_inv h \<longleftrightarrow>
     distinct (keys_of (h_sessions h)) \<and> 0 < h_journal_events h \<and> coalescer (h_merge h) \<and>
     (\<forall>sid st. hub_session h sid = Some st \<longrightarrow>
        session_inv st \<and>
        (\<forall>i \<in> set (ss_subs st). \<exists>s. h_heap h i = Some s \<and> live_sub h sid (ss_latest st) s))"

lemma hub_session_put [simp]:
  "hub_session (put_session sid st h) k = (if k = sid then Some st else hub_session h k)"
  by (simp add: put_session_def)

lemma put_session_frame [simp]:
  "h_heap (put_session sid st h) = h_heap h"
  "h_closed (put_session sid st h) = h_closed h"
  "h_journal_events (put_session sid st h) = h_journal_events h"
  "h_journal_age (put_session sid st h) = h_journal_age h"
  "h_queue_events (put_session sid st h) = h_queue_events h"
  "h_merge (put_session sid st h) = h_merge h"
  "distinct (keys_of (h_sessions h)) \<Longrightarrow> distinct (keys_of (h_sessions (put_session sid st h)))"
  by (auto simp: put_session_def)

lemma live_sub_frame [simp]:
  "live_sub (put_session sid st h) = live_sub h"
  "live_sub (h\<lparr>h_heap := f\<rparr>) = live_sub h"
  "live_sub (h\<lparr>h_sessions := g\<rparr>) = live_sub h"
  "live_sub (h\<lparr>h_closed := c\<rparr>) = live_sub h"
  by (auto simp: fun_eq_iff live_sub_def)

lemma new_hub_inv:
  assumes "\<And>m. hc_coalescer c = Some m \<Longrightarrow> coalescer m"
  shows "hub_inv (new_hub c)"
  using assms default_coalescer.coalescer_axioms
  by (auto simp: hub_inv_def new_hub_def split: option.split)

lemma hub_inv_session:
  "hub_inv h \<Longrightarrow> hub_session h sid = Some st \<Longrightarrow> session_inv st"
  by (auto simp: hub_inv_def)

lemma hub_inv_sub:
  "hub_inv h \<Longrightarrow> hub_session h sid = Some st \<Longrightarrow> i \<in> set (ss_subs st) \<Longrightarrow>
   \<exists>s. h_heap h i = Some s \<and> live_sub h sid (ss_latest st) s"
  by (auto simp: hub_inv_def)

text \<open>Changing one session keeps the invariant when the new state and its readers are fine.\<close>

lemma hub_inv_put:
  assumes "hub_inv h" "session_inv st"
    and "\<And>i. i \<in> set (ss_subs st) \<Longrightarrow> \<exists>s. f i = Some s \<and> live_sub h sid (ss_latest st) s"
    and "\<And>k st' i s. k \<noteq> sid \<Longrightarrow> hub_session h k = Some st' \<Longrightarrow> i \<in> set (ss_subs st') \<Longrightarrow>
          h_heap h i = Some s \<Longrightarrow> sub_session s = k \<Longrightarrow> f i = Some s"
  shows "hub_inv ((put_session sid st h)\<lparr>h_heap := f\<rparr>)"
proof -
  have "\<exists>s. f i = Some s \<and> live_sub h k (ss_latest st') s"
    if k: "k \<noteq> sid" "hub_session h k = Some st'" "i \<in> set (ss_subs st')" for k st' i
  proof -
    obtain s where s: "h_heap h i = Some s" "live_sub h k (ss_latest st') s"
      using hub_inv_sub [OF assms(1) k(2,3)] by blast
    then have "sub_session s = k" by (simp add: live_sub_def)
    with assms(4) [OF k s(1)] s show ?thesis by blast
  qed
  with assms show ?thesis by (auto simp: hub_inv_def put_session_def)
qed

lemma hub_inv_put_same_heap:
  assumes "hub_inv h" "session_inv st"
    and "\<And>i. i \<in> set (ss_subs st) \<Longrightarrow> \<exists>s. h_heap h i = Some s \<and> live_sub h sid (ss_latest st) s"
  shows "hub_inv (put_session sid st h)"
proof -
  have "hub_inv ((put_session sid st h)\<lparr>h_heap := h_heap h\<rparr>)"
    by (rule hub_inv_put [OF assms])
  then show ?thesis by (simp add: put_session_def)
qed

lemma new_session_inv:
  "new_journal m a = Some j \<Longrightarrow>
   session_inv \<lparr>ss_latest = 0, ss_revision = 0, ss_journal = j, ss_subs = [],
                ss_draft = empty_draft\<rparr>"
  using new_journal_inv [of m a j]
  by (auto simp: session_inv_def normal_tail_def journal_last_def empty_draft_def new_journal_def
           split: if_splits)

lemma get_or_create_inv:
  assumes "hub_inv h" "get_or_create_session h sid = Inr (h1, st)"
  shows "hub_inv h1" and "hub_session h1 sid = Some st" and "h_heap h1 = h_heap h"
    and "h_merge h1 = h_merge h" and "h_queue_events h1 = h_queue_events h"
  using assms
  by (auto simp: get_or_create_session_def Let_def intro!: hub_inv_put_same_heap new_session_inv
           split: if_splits option.splits)

lemma get_or_create_no_panic:
  "hub_inv h \<Longrightarrow> get_or_create_session h sid \<noteq> Inl HubPanic"
  by (auto simp: get_or_create_session_def hub_inv_def new_journal_def Let_def split: option.splits)

subsection \<open>The draft stays within its bound\<close>

lemma truncate_utf8_length: "length (fst (truncate_utf8 v n)) \<le> n"
  using back_to_rune_start_le [of v n] by (auto simp: truncate_utf8_def)

lemma draft_append_length:
  "length (dr_text d) \<le> snapshot_draft_bytes \<Longrightarrow>
   length (dr_text (draft_append txt d)) \<le> snapshot_draft_bytes"
  using truncate_utf8_length [of "to_valid_utf8 txt replacement_char"
      "snapshot_draft_bytes - length (dr_text d)"]
  by (auto simp: draft_append_def Let_def)

lemma empty_draft_text [simp]: "dr_text empty_draft = []" "dr_text (empty_draft\<lparr>dr_message_id := m\<rparr>) = []"
  by (simp_all add: empty_draft_def)

lemma apply_draft_length:
  "length (dr_text d) \<le> snapshot_draft_bytes \<Longrightarrow>
   length (dr_text (apply_draft e d)) \<le> snapshot_draft_bytes"
  by (cases "ev_kind e")
     (simp_all add: apply_draft_def Let_def draft_append_length split: payload.split)

subsection \<open>Publication\<close>

lemma build_event_fields [simp]:
  "ev_first (build_event sid n r eid now input) = n"
  "ev_seq (build_event sid n r eid now input) = n"
  "ev_session (build_event sid n r eid now input) = sid"
  "ev_delivery (build_event sid n r eid now input) = ne_delivery input"
  "ev_kind (build_event sid n r eid now input) = ne_kind input"
  "ev_payload (build_event sid n r eid now input) = ne_payload input"
  by (simp_all add: build_event_def)

text \<open>What a publication does when the hub is open and its invariant holds.\<close>

lemma publish_effect:
  assumes inv: "hub_inv h" and goc: "get_or_create_session h sid = Inr (h1, st)"
  obtains j sr r e where
    "next_revision input (ss_revision st) = (sr, r)"
    "e = build_event sid (Suc (ss_latest st)) r eid now input"
    "journal_append e now (ss_journal st) = Some j"
    "session_inv (st\<lparr>ss_latest := Suc (ss_latest st), ss_revision := sr,
                    ss_draft := apply_draft e (ss_draft st), ss_journal := j\<rparr>)"
    "publish sid input now eid h =
       ((put_session sid (st\<lparr>ss_latest := Suc (ss_latest st), ss_revision := sr,
          ss_draft := apply_draft e (ss_draft st), ss_journal := j\<rparr>) h1)
          \<lparr>h_heap := offer (ss_subs st) e (h_heap h1)\<rparr>, Inr e)"
proof -
  obtain sr r where rev: "next_revision input (ss_revision st) = (sr, r)"
    by (cases "next_revision input (ss_revision st)") auto
  define e where "e = build_event sid (Suc (ss_latest st)) r eid now input"
  have st: "session_inv st"
    using hub_inv_session get_or_create_inv [OF inv goc] by blast
  have last: "journal_last (ss_journal st) = ss_latest st" using st by (simp add: session_inv_def)
  have "\<exists>j. journal_append e now (ss_journal st) = Some j \<and> journal_inv j \<and>
      normal_tail (contents j) (Suc (ss_latest st)) \<and> journal_last j = Suc (ss_latest st)"
    unfolding last [symmetric]
    by (rule ring.append_tail) (use st last in \<open>simp_all add: session_inv_def e_def\<close>)
  then obtain j where j: "journal_append e now (ss_journal st) = Some j" "journal_inv j"
    "normal_tail (contents j) (Suc (ss_latest st))" "journal_last j = Suc (ss_latest st)"
    by blast
  show ?thesis
  proof (rule that [of sr r e j])
    show "session_inv (st\<lparr>ss_latest := Suc (ss_latest st), ss_revision := sr,
        ss_draft := apply_draft e (ss_draft st), ss_journal := j\<rparr>)"
      using j st by (simp add: session_inv_def apply_draft_length)
    show "publish sid input now eid h =
       ((put_session sid (st\<lparr>ss_latest := Suc (ss_latest st), ss_revision := sr,
          ss_draft := apply_draft e (ss_draft st), ss_journal := j\<rparr>) h1)
          \<lparr>h_heap := offer (ss_subs st) e (h_heap h1)\<rparr>, Inr e)"
      using goc rev j(1) by (simp add: publish_def Let_def e_def)
  qed (fact rev e_def j(1))+
qed

lemma publish_inv:
  assumes "hub_inv h"
  shows "hub_inv (fst (publish sid input now eid h))"
proof (cases "get_or_create_session h sid")
  case (Inl err)
  with assms show ?thesis by (simp add: publish_def)
next
  case (Inr p)
  obtain h1 st where goc: "get_or_create_session h sid = Inr (h1, st)"
    using Inr by (cases p) auto
  note g = get_or_create_inv [OF assms goc]
  show ?thesis
  proof (rule publish_effect [OF assms goc, of input eid now])
    fix j sr r e
    assume e: "e = build_event sid (Suc (ss_latest st)) r eid now input"
      and st': "session_inv (st\<lparr>ss_latest := Suc (ss_latest st), ss_revision := sr,
                    ss_draft := apply_draft e (ss_draft st), ss_journal := j\<rparr>)"
      and pub: "publish sid input now eid h =
       ((put_session sid (st\<lparr>ss_latest := Suc (ss_latest st), ss_revision := sr,
          ss_draft := apply_draft e (ss_draft st), ss_journal := j\<rparr>) h1)
          \<lparr>h_heap := offer (ss_subs st) e (h_heap h1)\<rparr>, Inr e)"
    have co: "coalescer (h_merge h1)" using g(1) by (simp add: hub_inv_def)
    have own: "\<exists>s. offer (ss_subs st) e (h_heap h1) i = Some s \<and>
        live_sub h1 sid (Suc (ss_latest st)) s" if i: "i \<in> set (ss_subs st)" for i
    proof -
      obtain s where s: "h_heap h1 i = Some s" "live_sub h1 sid (ss_latest st) s"
        using hub_inv_sub [OF g(1,2) i] by blast
      then have "sub_ok (Suc (ss_latest st)) (sub_enqueue e s)"
        using coalescer.enqueue_ok [OF co] by (auto simp: live_sub_def e)
      with s i show ?thesis by (auto simp: offer_def live_sub_def)
    qed
    have others: "offer (ss_subs st) e (h_heap h1) i = Some s"
      if "h_heap h1 i = Some s" "sub_session s \<noteq> sid" for i s
      using that hub_inv_sub [OF g(1,2), of i] by (auto simp: offer_def live_sub_def)
    have "hub_inv ((put_session sid (st\<lparr>ss_latest := Suc (ss_latest st), ss_revision := sr,
          ss_draft := apply_draft e (ss_draft st), ss_journal := j\<rparr>) h1)
          \<lparr>h_heap := offer (ss_subs st) e (h_heap h1)\<rparr>)"
      by (rule hub_inv_put [OF g(1) st']) (use own others in auto)
    then show ?thesis by (simp add: pub)
  qed
qed

lemma publish_no_panic: "hub_inv h \<Longrightarrow> snd (publish sid input now eid h) \<noteq> Inl HubPanic"
proof (cases "get_or_create_session h sid")
  case (Inl err)
  assume "hub_inv h"
  with Inl get_or_create_no_panic [of h sid] show ?thesis by (auto simp: publish_def)
next
  case (Inr p)
  assume inv: "hub_inv h"
  obtain h1 st where goc: "get_or_create_session h sid = Inr (h1, st)"
    using Inr by (cases p) auto
  show ?thesis by (rule publish_effect [OF inv goc, of input eid now]) auto
qed

subsection \<open>Subscriptions\<close>

lemma subscribe_effect:
  assumes inv: "hub_inv h" and ok: "subscribe sid after now i h = (h', Inr k)"
  obtains h1 st j s where
    "get_or_create_session h sid = Inr (h1, st)" "k = i"
    "session_inv (st\<lparr>ss_journal := j, ss_subs := i # ss_subs st\<rparr>)"
    "live_sub h1 sid (ss_latest st) s" "\<not> sub_overflowed s"
    "chain (min after (ss_latest st)) (sub_queue s) (ss_latest st)"
    "h' = (put_session sid (st\<lparr>ss_journal := j, ss_subs := i # ss_subs st\<rparr>) h1)
             \<lparr>h_heap := (h_heap h1)(i \<mapsto> s)\<rparr>"
proof -
  from ok obtain h1 st where goc: "get_or_create_session h sid = Inr (h1, st)"
    by (auto simp: subscribe_def split: sum.splits)
  from ok goc obtain j replay where
    rep: "journal_replay_after after (ss_latest st) now (ss_journal st) = (j, Some replay)"
    by (auto simp: subscribe_def Let_def split: option.splits prod.splits)
  define s where "s = fold sub_enqueue replay
                         (new_subscription i sid (h_queue_events h1) (h_merge h1))"
  from ok goc rep have no: "\<not> sub_overflowed s" "k = i" and
    h': "h' = (put_session sid (st\<lparr>ss_journal := j, ss_subs := i # ss_subs st\<rparr>) h1)
             \<lparr>h_heap := (h_heap h1)(i \<mapsto> s)\<rparr>"
    by (auto simp: subscribe_def Let_def s_def split: if_splits)
  note g = get_or_create_inv [OF inv goc]
  have st: "session_inv st" using hub_inv_session [OF g(1,2)] .
  then have j: "journal_inv (ss_journal st)" "normal_tail (contents (ss_journal st)) (ss_latest st)"
    by (simp_all add: session_inv_def)
  have ch: "chain (min after (ss_latest st)) replay (ss_latest st)"
  proof (cases "after \<le> ss_latest st")
    case True
    with ring.replay_chain [OF j True rep] show ?thesis by simp
  next
    case False
    then have "replay = []"
      using ring.replay_up_to_date [OF j(1), of "ss_latest st" after now] rep by simp
    with False show ?thesis by simp
  qed
  have co: "coalescer (h_merge h1)" using g(1) by (simp add: hub_inv_def)
  have q: "chain (min after (ss_latest st)) (sub_queue s) (ss_latest st) \<and>
      length (sub_queue s) \<le> h_queue_events h1"
    using coalescer.fold_enqueue_chain [OF co, of
        "new_subscription i sid (h_queue_events h1) (h_merge h1)"
        "min after (ss_latest st)" "min after (ss_latest st)" replay "ss_latest st"] ch no(1)
    by (simp add: s_def)
  have "live_sub h1 sid (ss_latest st) s"
    using q no(1) by (auto simp: live_sub_def sub_ok_def s_def)
  moreover have "session_inv (st\<lparr>ss_journal := j, ss_subs := i # ss_subs st\<rparr>)"
    using st ring.replay_keeps [OF j(1) rep] normal_tail_suffix by (auto simp: session_inv_def)
  ultimately show ?thesis using that goc no q h' by blast
qed

lemma session_inv_replay:
  assumes "session_inv st" "journal_replay_after s l now (ss_journal st) = (j, r)"
  shows "session_inv (st\<lparr>ss_journal := j\<rparr>)"
proof -
  have "journal_inv (ss_journal st)" using assms(1) by (simp add: session_inv_def)
  from ring.replay_keeps [OF this assms(2)] assms(1) normal_tail_suffix show ?thesis
    by (auto simp: session_inv_def)
qed

lemma hub_inv_put_journal:
  assumes "hub_inv h" "hub_session h sid = Some st" "session_inv (st\<lparr>ss_journal := j\<rparr>)"
  shows "hub_inv (put_session sid (st\<lparr>ss_journal := j\<rparr>) h)"
  by (rule hub_inv_put_same_heap) (use assms hub_inv_sub [OF assms(1,2)] in auto)

lemma hub_inv_replayed:
  assumes "hub_inv h" "hub_session h sid = Some st"
    and "journal_replay_after s l now (ss_journal st) = (j, r)"
  shows "hub_inv (put_session sid (st\<lparr>ss_journal := j\<rparr>) h)"
  using hub_inv_put_journal [OF assms(1,2)] session_inv_replay [OF hub_inv_session assms(3)] assms
  by blast

lemma subscribe_inv:
  assumes inv: "hub_inv h" and fresh: "h_heap h i = None"
  shows "hub_inv (fst (subscribe sid after now i h))"
proof (cases "snd (subscribe sid after now i h)")
  case (Inr k)
  then have "subscribe sid after now i h = (fst (subscribe sid after now i h), Inr k)"
    by (metis prod.collapse)
  then show ?thesis
  proof (rule subscribe_effect [OF inv])
    fix h1 st j s
    assume goc: "get_or_create_session h sid = Inr (h1, st)"
      and st': "session_inv (st\<lparr>ss_journal := j, ss_subs := i # ss_subs st\<rparr>)"
      and s: "live_sub h1 sid (ss_latest st) s"
      and h': "fst (subscribe sid after now i h) =
        (put_session sid (st\<lparr>ss_journal := j, ss_subs := i # ss_subs st\<rparr>) h1)
             \<lparr>h_heap := (h_heap h1)(i \<mapsto> s)\<rparr>"
    note g = get_or_create_inv [OF inv goc]
    have "i \<notin> set (ss_subs st)" using hub_inv_sub [OF g(1,2), of i] fresh g(3) by auto
    show "hub_inv (fst (subscribe sid after now i h))"
      unfolding h'
      by (rule hub_inv_put [OF g(1) st']) (use s hub_inv_sub [OF g(1,2)] fresh g(3) in auto)
  qed
next
  case (Inl err)
  show ?thesis
  proof (cases "get_or_create_session h sid")
    case (Inl e)
    with inv show ?thesis by (simp add: subscribe_def)
  next
    case (Inr p)
    then obtain h1 st where goc: "get_or_create_session h sid = Inr (h1, st)" by (cases p) auto
    note g = get_or_create_inv [OF inv goc]
    obtain j r where rep: "journal_replay_after after (ss_latest st) now (ss_journal st) = (j, r)"
      by fastforce
    have "fst (subscribe sid after now i h) = put_session sid (st\<lparr>ss_journal := j\<rparr>) h1"
      using Inl goc rep by (auto simp: subscribe_def Let_def split: option.splits if_splits)
    with hub_inv_replayed [OF g(1,2) rep] show ?thesis by simp
  qed
qed

lemma hub_replay_inv: "hub_inv h \<Longrightarrow> hub_inv (fst (hub_replay_after sid sequence now h))"
  by (auto simp: hub_replay_after_def split: option.splits prod.splits intro: hub_inv_replayed)

text \<open>Changing a subscription object that stays live keeps the invariant.\<close>

lemma hub_inv_heap:
  assumes "hub_inv h"
    and "\<And>i s sid hi. h_heap h i = Some s \<Longrightarrow> live_sub h sid hi s \<Longrightarrow>
          \<exists>s'. f i = Some s' \<and> live_sub h sid hi s'"
  shows "hub_inv (h\<lparr>h_heap := f\<rparr>)"
proof -
  have "\<exists>s. f i = Some s \<and> live_sub h sid (ss_latest st) s"
    if st: "hub_session h sid = Some st" "i \<in> set (ss_subs st)" for sid st i
    using hub_inv_sub [OF assms(1) st] assms(2) by blast
  with assms(1) show ?thesis by (auto simp: hub_inv_def)
qed

lemma hub_next_inv: "hub_inv h \<Longrightarrow> hub_inv (fst (hub_next i c h))"
  by (auto simp: hub_next_def split: option.split prod.split intro!: hub_inv_heap)
     (metis fst_conv live_sub_def option.inject sub_next_fields sub_next_ok)

lemma close_subscription_inv:
  assumes "hub_inv h"
  shows "hub_inv (close_subscription i h)"
proof (cases "h_heap h i")
  case None
  with assms show ?thesis by (simp add: close_subscription_def)
next
  case (Some s)
  show ?thesis
  proof (cases "sub_close_done s")
    case True
    with assms Some show ?thesis by (simp add: close_subscription_def)
  next
    case nd: False
    let ?h1 = "h\<lparr>h_heap := (h_heap h)(i \<mapsto> sub_close_once s)\<rparr>"
    have only: "k = sub_session s" if "hub_session h k = Some st'" "i \<in> set (ss_subs st')" for k st'
      using hub_inv_sub [OF assms that] Some by (auto simp: live_sub_def)
    show ?thesis
    proof (cases "hub_session h (sub_session s)")
      case None
      then have "i \<notin> set (ss_subs st')" if "hub_session h k = Some st'" for k st'
        using only that by fastforce
      then have "hub_inv ?h1" using assms by (fastforce simp: hub_inv_def)
      with None Some nd show ?thesis by (simp add: close_subscription_def)
    next
      case (Some st)
      let ?st = "st\<lparr>ss_subs := filter (\<lambda>k. k \<noteq> i) (ss_subs st)\<rparr>"
      have "hub_inv ((put_session (sub_session s) ?st h)
          \<lparr>h_heap := (h_heap h)(i \<mapsto> sub_close_once s)\<rparr>)"
      proof (rule hub_inv_put [OF assms])
        show "session_inv ?st" using hub_inv_session [OF assms Some] by (simp add: session_inv_def)
        show "\<exists>t. ((h_heap h)(i \<mapsto> sub_close_once s)) k = Some t \<and>
            live_sub h (sub_session s) (ss_latest ?st) t" if "k \<in> set (ss_subs ?st)" for k
          using hub_inv_sub [OF assms Some, of k] that by auto
      qed (use only in auto)
      moreover have "close_subscription i h = (put_session (sub_session s) ?st h)
          \<lparr>h_heap := (h_heap h)(i \<mapsto> sub_close_once s)\<rparr>"
        using \<open>h_heap h i = Some s\<close> Some nd
        by (simp add: close_subscription_def Let_def put_session_def)
      ultimately show ?thesis by simp
    qed
  qed
qed

lemma hub_close_session_inv:
  assumes "hub_inv h"
  shows "hub_inv (hub_close_session sid h)"
proof (cases "hub_session h sid")
  case None
  with assms show ?thesis by (simp add: hub_close_session_def)
next
  case (Some st)
  have "i \<notin> set (ss_subs st)" if k: "k \<noteq> sid" "hub_session h k = Some st'" "i \<in> set (ss_subs st')"
    for k st' i
    using hub_inv_sub [OF assms Some, of i] hub_inv_sub [OF assms k(2,3)] k(1)
    by (auto simp: live_sub_def)
  with Some assms show ?thesis
    by (auto simp: hub_close_session_def hub_inv_def split: if_splits)
qed

lemma hub_close_inv: "hub_inv h \<Longrightarrow> hub_inv (hub_close h)"
proof -
  have "hub_inv h \<Longrightarrow> hub_inv (fold hub_close_session ks h)" for ks h
    by (induction ks arbitrary: h) (auto intro: hub_close_session_inv)
  moreover assume "hub_inv h"
  moreover from this have "hub_inv (h\<lparr>h_closed := True\<rparr>)" by (simp add: hub_inv_def)
  ultimately show ?thesis by (simp add: hub_close_def)
qed

section \<open>Reachable hubs\<close>

inductive hub_step :: "hub \<Rightarrow> hub \<Rightarrow> bool" where
  step_publish: "hub_step h (fst (publish sid input now eid h))"
| step_replay: "hub_step h (fst (hub_replay_after sid sequence now h))"
| step_subscribe: "h_heap h i = None \<Longrightarrow> hub_step h (fst (subscribe sid after now i h))"
| step_next: "hub_step h (fst (hub_next i c h))"
| step_close_subscription: "hub_step h (close_subscription i h)"
| step_close_session: "hub_step h (hub_close_session sid h)"
| step_close: "hub_step h (hub_close h)"

inductive hub_reach :: "hub_config \<Rightarrow> hub \<Rightarrow> bool" for c where
  reach_new: "hub_reach c (new_hub c)"
| reach_step: "hub_reach c h \<Longrightarrow> hub_step h h' \<Longrightarrow> hub_reach c h'"

lemma hub_step_inv: "hub_step h h' \<Longrightarrow> hub_inv h \<Longrightarrow> hub_inv h'"
  by (induction rule: hub_step.induct)
     (auto intro: publish_inv hub_replay_inv subscribe_inv hub_next_inv close_subscription_inv
        hub_close_session_inv hub_close_inv)

lemma hub_reach_inv: "hub_reach c h \<Longrightarrow> hc_coalescer c = None \<Longrightarrow> hub_inv h"
  by (induction rule: hub_reach.induct) (auto intro: new_hub_inv hub_step_inv)

end
