(* ===== verification/Event_Properties.thy ===== *)
theory Event_Properties
  imports Event_Hub
begin

text \<open>
  The properties of the session event hub: what the journal retains, what a replay and a
  subscription deliver, what an overflow keeps, and the bound and meaning of the draft that
  a snapshot shows. Each property with hypotheses is followed by a closed instance.
\<close>

section \<open>Concrete hubs for the instances\<close>

definition ex_config :: hub_config where
  "ex_config = \<lparr>hc_journal_events = 2, hc_journal_age = - 1, hc_queue_events = 1, hc_coalescer = None\<rparr>"

definition ex_delta :: "string \<Rightarrow> new_event" where
  "ex_delta t =
     \<lparr>ne_revision = 0, ne_advance = False, ne_kind = KindMessageDelta,
      ne_payload = PTextDelta \<lparr>td_message_id = ''m'', td_part_id = ''p'', td_text = t\<rparr>,
      ne_delivery = DeliveryMerge, ne_key = ''m:p''\<rparr>"

definition ex_status :: new_event where
  "ex_status =
     \<lparr>ne_revision = 0, ne_advance = True, ne_kind = KindMCPStatus, ne_payload = PNil,
      ne_delivery = DeliveryReliable, ne_key = []\<rparr>"

definition ex_hub0 :: hub where
  "ex_hub0 = fst (publish ''s'' (ex_delta ''a'') 0 ''e1'' (new_hub ex_config))"

definition ex_hub1 :: hub where
  "ex_hub1 = fst (subscribe ''s'' 0 0 ''i'' ex_hub0)"

definition ex_hub2 :: hub where
  "ex_hub2 = fst (publish ''s'' (ex_delta ''b'') 0 ''e2'' ex_hub1)"

definition ex_event :: "nat \<Rightarrow> event" where
  "ex_event n = zero_event\<lparr>ev_first := n, ev_seq := n, ev_time := 10 * int n\<rparr>"

lemmas journal_eval = new_journal_def journal_append_def journal_prune_def
  journal_prune_loop.simps journal_drop_oldest_def journal_replay_after_def
  journal_at_def journal_skip.simps Let_def contents_def

lemmas sub_eval = sub_enqueue_def sub_signal_def new_subscription_def snapshot_marker_def
  sub_next_def default_merge_def merge_payload_def default_merge_window_def
  max_merged_payload_bytes_def max_merged_events_def

lemmas hub_eval = journal_eval sub_eval new_hub_def get_or_create_session_def put_session_def
  offer_def build_event_def next_revision_def publish_def latest_sequence_def
  latest_revision_def hub_replay_after_def subscribe_def hub_next_def apply_draft_def
  draft_append_def empty_draft_def ex_config_def ex_delta_def ex_status_def ex_hub0_def
  ex_hub1_def ex_hub2_def

lemma ex_hub0_reach: "hub_reach ex_config ex_hub0"
  unfolding ex_hub0_def by (intro reach_step [OF reach_new] step_publish)

lemma ex_hub1_reach: "hub_reach ex_config ex_hub1"
  unfolding ex_hub1_def
  by (intro reach_step [OF ex_hub0_reach] step_subscribe) (simp add: hub_eval)

lemma ex_hub2_reach: "hub_reach ex_config ex_hub2"
  unfolding ex_hub2_def by (intro reach_step [OF ex_hub1_reach] step_publish)

lemma ex_config_default: "hc_coalescer ex_config = None"
  by (simp add: ex_config_def)

section \<open>The journal\<close>

text \<open>
  C14. Appending to the ring buffer refines an append to a bounded, age-limited log: the
  retained events are the last JournalEvents ones of the old log and the new event, less
  the expired ones at its front, whatever the ring's start index is.
\<close>

theorem journal_append_refines:
  assumes "journal_inv j" and "journal_append e now j = Some j'"
  shows "contents j' = expire (j_max_age j) now (last_n (j_max_events j) (contents j @ [e])) \<and>
         journal_inv j'"
  using expire_append_contents(2) [OF _ assms(2)] journal_append_inv [OF assms] assms(1)
  by (simp add: journal_inv_def)

definition ex_journal :: journal where
  "ex_journal =
     \<lparr>j_max_events = 2, j_max_age = 15, j_buffer = [ex_event 3, ex_event 2], j_start = 1,
      j_size = 2, j_last = 3, j_has_last = True\<rparr>"

definition ex_journal' :: journal where
  "ex_journal' = the (journal_append (ex_event 4) 40 ex_journal)"

theorem journal_append_refines_witness: "contents ex_journal' = [ex_event 3, ex_event 4]"
proof -
  have inv: "journal_inv ex_journal"
    by (simp add: journal_inv_def ring_ok_def ex_journal_def contents_def journal_at_def
        ex_event_def zero_event_def upt_rec)
  have app: "journal_append (ex_event 4) 40 ex_journal = Some ex_journal'"
    by (simp add: ex_journal'_def journal_append_def ex_journal_def ex_event_def Let_def)
  have "contents ex_journal = [ex_event 2, ex_event 3]"
    by (simp add: ex_journal_def contents_def journal_at_def upt_rec)
  with journal_append_refines [OF inv app] show ?thesis
    by (simp add: expire_def last_n_def ex_journal_def ex_event_def)
qed

section \<open>Replay and publication\<close>

lemma chain_normal_seqs:
  "chain lo es hi \<Longrightarrow> \<forall>e \<in> set es. ev_first e = ev_seq e \<Longrightarrow> map ev_seq es = [Suc lo..<Suc hi]"
proof (induction es arbitrary: lo)
  case Nil
  then show ?case by simp
next
  case (Cons e es)
  then have "map ev_seq es = [Suc (Suc lo)..<Suc hi]" "Suc lo \<le> hi"
    using chain_le [of "ev_seq e" es hi] Cons.IH [of "Suc lo"] by (auto simp del: upt_Suc)
  with Cons.prems show ?case by (simp add: upt_conv_Cons del: upt_Suc)
qed

text \<open>
  A successful replay after a sequence number returns every event after it, exactly
  once and in order, up to the newest: the sequence numbers are the full interval.
\<close>

theorem replay_exact:
  assumes "hub_reach c h" and "hc_coalescer c = None"
    and "snd (hub_replay_after sid sequence now h) = Inr es"
  shows "map ev_seq es = [Suc sequence..<Suc (latest_sequence sid h)]"
proof (cases "hub_session h sid")
  case None
  with assms(3) show ?thesis
    by (simp add: hub_replay_after_def latest_sequence_def split: if_splits)
next
  case (Some st)
  have st: "session_inv st" using hub_reach_inv [OF assms(1,2)] Some hub_inv_session by blast
  then have j: "journal_inv (ss_journal st)" "normal_tail (contents (ss_journal st)) (ss_latest st)"
    by (simp_all add: session_inv_def)
  obtain j' where rep:
    "journal_replay_after sequence (ss_latest st) now (ss_journal st) = (j', Some es)"
    using assms(3) Some by (auto simp: hub_replay_after_def split: prod.splits option.splits)
  show ?thesis
  proof (cases "sequence \<le> ss_latest st")
    case True
    with chain_normal_seqs [OF ring.replay_chain [OF j True rep]] ring.replay_normal [OF j rep] Some
    show ?thesis by (simp add: latest_sequence_def del: upt_Suc)
  next
    case False
    with ring.replay_up_to_date [OF j(1), of "ss_latest st" sequence now] rep Some
    show ?thesis by (simp add: latest_sequence_def del: upt_Suc)
  qed
qed

theorem replay_exact_witness:
  "\<exists>es. snd (hub_replay_after ''s'' 0 0 ex_hub2) = Inr es \<and> map ev_seq es = [1, 2]"
proof -
  have "\<exists>es. snd (hub_replay_after ''s'' 0 0 ex_hub2) = Inr es" by (simp add: hub_eval)
  then obtain es where es: "snd (hub_replay_after ''s'' 0 0 ex_hub2) = Inr es" by blast
  have "latest_sequence ''s'' ex_hub2 = 2" by (simp add: hub_eval)
  with replay_exact [OF ex_hub2_reach ex_config_default es] es show ?thesis
    by (simp add: upt_rec)
qed

lemma latest_sequence_put:
  "latest_sequence sid ((put_session sid st h)\<lparr>h_heap := f\<rparr>) = ss_latest st"
  by (simp add: latest_sequence_def put_session_def)

text \<open>
  Publishing on a reachable hub never panics; on an open hub it succeeds with the next
  sequence number of its session, which becomes the latest.
\<close>

theorem publish_allocates:
  assumes "hub_reach c h" and "hc_coalescer c = None"
  shows "snd (publish sid input now eid h) \<noteq> Inl HubPanic \<and>
         (\<not> h_closed h \<longrightarrow>
          (\<exists>e. snd (publish sid input now eid h) = Inr e \<and>
             ev_seq e = Suc (latest_sequence sid h) \<and> ev_first e = ev_seq e \<and>
             latest_sequence sid (fst (publish sid input now eid h)) = ev_seq e))"
proof (intro conjI impI)
  have inv: "hub_inv h" using hub_reach_inv [OF assms] .
  show "snd (publish sid input now eid h) \<noteq> Inl HubPanic" using publish_no_panic [OF inv] .
  assume "\<not> h_closed h"
  then have "get_or_create_session h sid \<noteq> Inl e" for e
    using inv by (auto simp: get_or_create_session_def hub_inv_def new_journal_def Let_def
        split: option.splits)
  then obtain h1 st where goc: "get_or_create_session h sid = Inr (h1, st)"
    by (cases "get_or_create_session h sid") auto
  have lat: "latest_sequence sid h = ss_latest st"
    using goc by (auto simp: get_or_create_session_def latest_sequence_def Let_def
        split: if_splits option.splits)
  show "\<exists>e. snd (publish sid input now eid h) = Inr e \<and>
             ev_seq e = Suc (latest_sequence sid h) \<and> ev_first e = ev_seq e \<and>
             latest_sequence sid (fst (publish sid input now eid h)) = ev_seq e"
    by (rule publish_effect [OF inv goc, of input eid now])
       (simp add: lat latest_sequence_put)
qed

theorem publish_allocates_witness:
  "\<exists>e. snd (publish ''s'' ex_status 0 ''e3'' ex_hub2) = Inr e \<and> ev_seq e = 3"
proof -
  have "\<not> h_closed ex_hub2" "latest_sequence ''s'' ex_hub2 = 2" by (simp_all add: hub_eval)
  with publish_allocates [OF ex_hub2_reach ex_config_default, of "''s''" ex_status 0 "''e3''"]
  show ?thesis by auto
qed

section \<open>Delivery to subscribers\<close>

text \<open>
  A subscription whose reader has seen everything up to \<open>lo\<close>: its queue covers what
  follows, up to the newest event.
\<close>

definition lagging :: "hub \<Rightarrow> string \<Rightarrow> nat \<Rightarrow> bool" where
  "lagging h i lo \<longleftrightarrow>
     (case h_heap h i of
        None \<Rightarrow> False
      | Some s \<Rightarrow>
          (case hub_session h (sub_session s) of
             None \<Rightarrow> False
           | Some st \<Rightarrow> i \<in> set (ss_subs st) \<and> \<not> sub_overflowed s \<and>
                        chain lo (sub_queue s) (ss_latest st)))"

text \<open>
  A successful Subscribe starts the reader exactly after the sequence number it asked
  for (or at the newest event when it asked for a later one).
\<close>

theorem subscribe_starts_after:
  assumes "hub_reach c h" and "hc_coalescer c = None"
    and "subscribe sid after now i h = (h', Inr k)"
  shows "k = i \<and> lagging h' i (min after (latest_sequence sid h))"
proof (rule subscribe_effect [OF hub_reach_inv [OF assms(1,2)] assms(3)])
  fix h1 st j s
  assume goc: "get_or_create_session h sid = Inr (h1, st)"
    and s: "k = i" "live_sub h1 sid (ss_latest st) s" "\<not> sub_overflowed s"
      "chain (min after (ss_latest st)) (sub_queue s) (ss_latest st)"
    and h': "h' = (put_session sid (st\<lparr>ss_journal := j, ss_subs := i # ss_subs st\<rparr>) h1)
             \<lparr>h_heap := (h_heap h1)(i \<mapsto> s)\<rparr>"
  have "latest_sequence sid h = ss_latest st"
    using goc by (auto simp: get_or_create_session_def latest_sequence_def Let_def
        split: if_splits option.splits)
  with s h' show ?thesis by (simp add: lagging_def live_sub_def put_session_def)
qed

theorem subscribe_starts_after_witness: "lagging ex_hub1 ''i'' 0"
proof -
  have sub: "subscribe ''s'' 0 0 ''i'' ex_hub0 = (ex_hub1, Inr ''i'')"
    by (simp add: hub_eval)
  from subscribe_starts_after [OF ex_hub0_reach ex_config_default sub] show ?thesis by simp
qed

text \<open>
  C1. Gap-free delivery: whatever the hub does next, a reader that lags at \<open>lo\<close> keeps its
  position, unless its queue overflows or it is closed; and when Next hands it an event,
  that event starts at \<open>lo + 1\<close> and the reader's new position is the event's end. So no
  event is skipped, repeated or reordered, merged ranges included.
\<close>

theorem delivery_gap_free:
  assumes "hub_reach c h" and "hc_coalescer c = None" and "lagging h i lo"
  shows "(\<forall>sid input now eid s'. h_heap (fst (publish sid input now eid h)) i = Some s' \<longrightarrow>
            \<not> sub_overflowed s' \<longrightarrow> lagging (fst (publish sid input now eid h)) i lo) \<and>
         (\<forall>done h' e. hub_next i done h = (h', NextEvent e) \<longrightarrow>
            ev_first e = Suc lo \<and> lagging h' i (ev_seq e)) \<and>
         (\<forall>done h' err. hub_next i done h = (h', NextError err) \<longrightarrow> err = ErrContextDone)"
proof -
  have inv: "hub_inv h" using hub_reach_inv [OF assms(1,2)] .
  obtain s st where s: "h_heap h i = Some s" and st: "hub_session h (sub_session s) = Some st"
    and i: "i \<in> set (ss_subs st)" and no: "\<not> sub_overflowed s"
    and ch: "chain lo (sub_queue s) (ss_latest st)"
    using assms(3) by (auto simp: lagging_def split: option.splits)
  have live: "live_sub h (sub_session s) (ss_latest st) s"
    using hub_inv_sub [OF inv st i] s by auto
  have next1: "ev_first e = Suc lo \<and> lagging h' i (ev_seq e)"
    if "hub_next i don h = (h', NextEvent e)" for don h' e
    using that s st i no ch
    by (auto simp: hub_next_def sub_next_def lagging_def split: list.splits if_splits)
  have next2: "err = ErrContextDone" if "hub_next i don h = (h', NextError err)" for don h' err
    using that s no live
    by (auto simp: hub_next_def sub_next_def live_sub_def split: list.splits if_splits)
  have pub: "lagging (fst (publish sid input now eid h)) i lo"
    if s': "h_heap (fst (publish sid input now eid h)) i = Some s'" "\<not> sub_overflowed s'"
    for sid input now eid s'
  proof (cases "get_or_create_session h sid")
    case (Inl err)
    with assms(3) show ?thesis by (simp add: publish_def)
  next
    case (Inr p)
    then obtain h1 st1 where goc: "get_or_create_session h sid = Inr (h1, st1)" by (cases p) auto
    note g = get_or_create_inv [OF inv goc]
    have same: "hub_session h1 (sub_session s) = Some st"
      using goc st by (auto simp: get_or_create_session_def Let_def split: if_splits option.splits)
    show ?thesis
    proof (rule publish_effect [OF inv goc, of input eid now])
      fix j sr r e
      assume e: "e = build_event sid (Suc (ss_latest st1)) r eid now input"
        and pub: "publish sid input now eid h =
       ((put_session sid (st1\<lparr>ss_latest := Suc (ss_latest st1), ss_revision := sr,
          ss_draft := apply_draft e (ss_draft st1), ss_journal := j\<rparr>) h1)
          \<lparr>h_heap := offer (ss_subs st1) e (h_heap h1)\<rparr>, Inr e)"
      show ?thesis
      proof (cases "sub_session s = sid")
        case True
        with same g(2) have st1: "st1 = st" by simp
        have "s' = sub_enqueue e s" using s' s i g(3) st1 by (simp add: pub offer_def)
        moreover have "coalescer (sub_merge s)" "\<not> sub_closed s"
          using inv live by (simp_all add: hub_inv_def live_sub_def)
        ultimately have "chain lo (sub_queue s') (Suc (ss_latest st))"
          using coalescer.enqueue_chain [of "sub_merge s" s lo "ss_latest st" e] ch s'(2) e st1 by simp
        with s' i st1 True \<open>s' = sub_enqueue e s\<close> show ?thesis
          by (simp add: pub lagging_def put_session_def)
      next
        case False
        then have "i \<notin> set (ss_subs st1)"
          using hub_inv_sub [OF g(1,2), of i] s g(3) by (auto simp: live_sub_def)
        with False s same i no ch g(3) show ?thesis
          by (simp add: pub lagging_def offer_def put_session_def)
      qed
    qed
  qed
  from next1 next2 pub show ?thesis by blast
qed

theorem delivery_gap_free_witness:
  "\<exists>h' e. hub_next ''i'' False ex_hub2 = (h', NextEvent e) \<and> ev_first e = 1 \<and> lagging h' ''i'' 2"
proof -
  have lag: "lagging ex_hub2 ''i'' 0" by (simp add: lagging_def hub_eval)
  have "\<exists>h' e. hub_next ''i'' False ex_hub2 = (h', NextEvent e) \<and> ev_seq e = 2"
    by (simp add: hub_eval)
  then obtain h' e where n: "hub_next ''i'' False ex_hub2 = (h', NextEvent e)" "ev_seq e = 2"
    by blast
  with delivery_gap_free [OF ex_hub2_reach ex_config_default lag] show ?thesis by fastforce
qed

text \<open>
  Backpressure is bounded and honest: on every reachable hub a live subscription holds
  at most QueueEvents events, or, once it overflowed, at most two more, all of them
  reliable and the last one the snapshot marker.
\<close>

theorem overflow_bounded:
  assumes "hub_reach c h" and "hc_coalescer c = None"
    and "hub_session h sid = Some st" and "i \<in> set (ss_subs st)"
  shows "\<exists>s. h_heap h i = Some s \<and>
           length (sub_queue s) \<le> sub_max_events s + (if sub_overflowed s then 2 else 0) \<and>
           (sub_overflowed s \<and> sub_queue s \<noteq> [] \<longrightarrow>
              (\<forall>e \<in> set (sub_queue s). reliable e) \<and>
              ev_kind (last (sub_queue s)) = KindSnapshotRequired)"
  using hub_inv_sub [OF hub_reach_inv [OF assms(1,2)] assms(3,4)]
  by (auto simp: live_sub_def sub_ok_def)

definition ex_hub3 :: hub where
  "ex_hub3 = fst (publish ''s'' ex_status 0 ''e3'' ex_hub2)"

theorem overflow_bounded_witness:
  "\<exists>st s. hub_session ex_hub3 ''s'' = Some st \<and> h_heap ex_hub3 ''i'' = Some s \<and>
     sub_overflowed s \<and> length (sub_queue s) \<le> sub_max_events s + 2 \<and>
     ev_kind (last (sub_queue s)) = KindSnapshotRequired"
proof -
  have reach: "hub_reach ex_config ex_hub3"
    unfolding ex_hub3_def by (intro reach_step [OF ex_hub2_reach] step_publish)
  have "\<exists>st. hub_session ex_hub3 ''s'' = Some st \<and> ''i'' \<in> set (ss_subs st)"
    by (simp add: ex_hub3_def hub_eval)
  then obtain st where st: "hub_session ex_hub3 ''s'' = Some st" "''i'' \<in> set (ss_subs st)" by blast
  have over: "\<exists>s. h_heap ex_hub3 ''i'' = Some s \<and> sub_overflowed s \<and> sub_queue s \<noteq> []"
    by (simp add: ex_hub3_def hub_eval)
  from overflow_bounded [OF reach ex_config_default st] over st(1) show ?thesis by auto
qed

text \<open>
  C24. No accepted reliable event is ever merged away or dropped by the queue: offering an
  event to an open subscription leaves its reliable events as they were, adds the new one
  when it is reliable, and adds the marker exactly when the queue overflows.
\<close>

theorem reliable_events_kept:
  assumes "sub_merge s = default_merge" and "\<not> sub_closed s" and "\<not> sub_overflowed s"
  shows "filter reliable (sub_queue (sub_enqueue e s)) =
           filter reliable (sub_queue s) @ (if reliable e then [e] else []) @
           (if sub_overflowed (sub_enqueue e s) then [snapshot_marker (sub_id s) e] else [])"
  using default_coalescer.enqueue_reliable [OF assms] .

theorem reliable_events_kept_witness:
  "filter reliable (sub_queue (sub_enqueue (ex_event 1) (new_subscription ''i'' ''s'' 1 default_merge)))
     = [ex_event 1]"
proof -
  have "\<not> sub_overflowed (sub_enqueue (ex_event 1) (new_subscription ''i'' ''s'' 1 default_merge))"
    by (simp add: sub_eval)
  moreover have "reliable (ex_event 1)" by (simp add: ex_event_def zero_event_def)
  ultimately show ?thesis
    using reliable_events_kept [of "new_subscription ''i'' ''s'' 1 default_merge" "ex_event 1"] by simp
qed

text \<open>
  Coalescing is lossless for text and terminal output: while the queue does not
  overflow, the bytes it says for any message part or terminal are those it said before,
  followed by the new event's; and merged payloads and counts stay within their bounds.
\<close>

theorem coalescing_lossless:
  assumes "sub_merge s = default_merge" and "\<not> sub_closed s"
    and "\<not> sub_overflowed (sub_enqueue e s)" and "ev_delivery e \<noteq> DeliveryLatest"
  shows "stream k (sub_queue (sub_enqueue e s)) = stream k (sub_queue s) @ stream_bytes k e"
  using enqueue_stream [OF assms] .

definition ex_text_event :: "nat \<Rightarrow> string \<Rightarrow> event" where
  "ex_text_event n t = build_event ''s'' n 0 ''e'' 0 (ex_delta t)"

theorem coalescing_lossless_witness:
  "stream (TextStream ''m'' ''p'')
     (sub_queue (sub_enqueue (ex_text_event 2 ''lo'')
        (sub_enqueue (ex_text_event 1 ''hel'') (new_subscription ''i'' ''s'' 1 default_merge)))) = ''hello''"
proof -
  let ?s = "sub_enqueue (ex_text_event 1 ''hel'') (new_subscription ''i'' ''s'' 1 default_merge)"
  have "\<not> sub_overflowed (sub_enqueue (ex_text_event 2 ''lo'') ?s)"
    by (simp add: hub_eval ex_text_event_def)
  moreover have "ev_delivery (ex_text_event 2 ''lo'') \<noteq> DeliveryLatest"
    by (simp add: ex_text_event_def ex_delta_def)
  moreover have "stream (TextStream ''m'' ''p'') (sub_queue ?s) = ''hel''"
    by (simp add: hub_eval ex_text_event_def)
  moreover have "stream_bytes (TextStream ''m'' ''p'') (ex_text_event 2 ''lo'') = ''lo''"
    by (simp add: ex_text_event_def ex_delta_def)
  ultimately show ?thesis
    using coalescing_lossless [of ?s "ex_text_event 2 ''lo''" "TextStream ''m'' ''p''"] by simp
qed

section \<open>The draft\<close>

lemma to_valid_utf8_nonempty: "v \<noteq> [] \<Longrightarrow> to_valid_utf8 v replacement_char \<noteq> []"
  by (cases v) (auto simp: to_valid_utf8_def Let_def replacement_char_def)

definition valid_text :: "string list \<Rightarrow> string" where
  "valid_text ts = concat (map (\<lambda>t. if t = [] then [] else to_valid_utf8 t replacement_char) ts)"

lemma valid_text_snoc:
  "valid_text (ts @ [t]) = valid_text ts @ (if t = [] then [] else to_valid_utf8 t replacement_char)"
  by (simp add: valid_text_def)

lemma truncate_utf8_prefix: "prefix (fst (truncate_utf8 v n)) v"
  by (simp add: truncate_utf8_def take_is_prefix)

lemma draft_append_step:
  fixes t :: string and whole :: string
  assumes "prefix (dr_text d) whole" "dr_truncated d \<longleftrightarrow> snapshot_draft_bytes < length whole"
    and "\<not> dr_truncated d \<longrightarrow> dr_text d = whole"
  defines "whole' \<equiv> whole @ (if t = [] then [] else to_valid_utf8 t replacement_char)"
  shows "prefix (dr_text (draft_append t d)) whole' \<and>
         (dr_truncated (draft_append t d) \<longleftrightarrow> snapshot_draft_bytes < length whole') \<and>
         (\<not> dr_truncated (draft_append t d) \<longrightarrow> dr_text (draft_append t d) = whole')"
proof (cases "t = [] \<or> dr_truncated d")
  case True
  with assms(1-3) show ?thesis
    by (auto simp: draft_append_def whole'_def prefix_def)
next
  case False
  let ?v = "to_valid_utf8 t replacement_char"
  have v: "0 < length ?v" using to_valid_utf8_nonempty False by auto
  have d: "dr_text d = whole" "length whole \<le> snapshot_draft_bytes" using False assms(2,3) by auto
  have "prefix (whole @ fst (truncate_utf8 ?v (snapshot_draft_bytes - length whole))) (whole @ ?v)"
    by (simp add: truncate_utf8_prefix)
  with False v d show ?thesis by (auto simp: draft_append_def Let_def whole'_def prefix_def)
qed

text \<open>
  The draft a snapshot shows is the assistant's text: after any appends it is a prefix
  of everything appended (made valid UTF-8), it is all of it unless it is marked truncated,
  it is marked truncated exactly when the whole exceeds SnapshotDraftBytes, and it never
  exceeds that bound.
\<close>

theorem draft_is_bounded_prefix:
  "let d = fold draft_append ts empty_draft in
     prefix (dr_text d) (valid_text ts) \<and>
     (dr_truncated d = (snapshot_draft_bytes < length (valid_text ts))) \<and>
     (dr_truncated d \<or> dr_text d = valid_text ts) \<and>
     length (dr_text d) \<le> snapshot_draft_bytes"
proof -
  have "prefix (dr_text (fold draft_append ts empty_draft)) (valid_text ts) \<and>
     (dr_truncated (fold draft_append ts empty_draft) \<longleftrightarrow>
        snapshot_draft_bytes < length (valid_text ts)) \<and>
     (\<not> dr_truncated (fold draft_append ts empty_draft) \<longrightarrow>
        dr_text (fold draft_append ts empty_draft) = valid_text ts)"
  proof (induction ts rule: rev_induct)
    case Nil
    show ?case by (simp add: valid_text_def empty_draft_def)
  next
    case (snoc t ts)
    with draft_append_step [of "fold draft_append ts empty_draft" "valid_text ts" t] show ?case
      by (simp add: valid_text_snoc)
  qed
  moreover have "length (dr_text (fold draft_append ts d)) \<le> snapshot_draft_bytes"
    if "length (dr_text d) \<le> snapshot_draft_bytes" for d
    using that by (induction ts arbitrary: d) (auto intro: draft_append_length)
  ultimately show ?thesis by (auto simp: Let_def)
qed

section \<open>A divergence\<close>

text \<open>
  LatestRevision is documented as the revision attached to the newest session event. It is
  the largest revision so far: an ordinary event carries revision 0, and LatestRevision
  still answers with the revision of an older one.
\<close>

theorem latest_revision_not_of_newest:
  "\<exists>h e. h = fst (publish ''s'' ex_status 0 ''e1'' (new_hub ex_config)) \<and>
     snd (publish ''s'' (ex_delta ''a'') 0 ''e2'' h) = Inr e \<and> ev_revision e = 0 \<and>
     latest_revision ''s'' (fst (publish ''s'' (ex_delta ''a'') 0 ''e2'' h)) = 1"
  by (simp add: hub_eval)

end
