(* ===== verification/Session_Data.thy ===== *)
theory Session_Data
  imports Prelude "HOL-Library.Word"
begin

text \<open>
  The data of internal/session: todos, goal tasks, goals and sessions, their normalisation for
  storage and on load, and the mode guards (session.go, mode_guards.go, mode_state.go). Go's
  string types (statuses, modes, kinds) stay strings, because any string can be read back
  from the database; an int64 is an int whose sums go through \<open>i64\<close>, which wraps.
\<close>

section \<open>Numbers\<close>

definition i64 :: "int \<Rightarrow> int" where
  "i64 x = (x + 2 ^ 63) mod 2 ^ 64 - 2 ^ 63"

lemma i64_id: "- (2 ^ 63) \<le> x \<Longrightarrow> x < 2 ^ 63 \<Longrightarrow> i64 x = x"
  by (simp add: i64_def mod_pos_pos_trivial)

lemma i64_range: "- (2 ^ 63) \<le> i64 x" "i64 x < 2 ^ 63"
  using pos_mod_bound [of "2 ^ 64" "x + 2 ^ 63"] by (simp_all add: i64_def)

text \<open>fmt's percent-x of an unsigned number.\<close>

fun show_hex_nat :: "nat \<Rightarrow> string" where
  "show_hex_nat n =
     (if n < 16 then [if n < 10 then char_of (48 + n) else char_of (87 + n)]
      else show_hex_nat (n div 16) @
        [if n mod 16 < 10 then char_of (48 + n mod 16) else char_of (87 + n mod 16)])"

declare show_hex_nat.simps [simp del]

section \<open>Statuses, modes and kinds\<close>

definition normalize_todo_status :: "string \<Rightarrow> string" where
  "normalize_todo_status s =
     (if s \<in> {''in_progress'', ''completed'', ''failed'', ''canceled''} then s else ''pending'')"

definition normalize_collaboration_mode :: "string \<Rightarrow> string" where
  "normalize_collaboration_mode m =
     (if m \<in> {''plan'', ''plan_paused'', ''orchestrate''} then m else ''default'')"

definition normalize_permission_mode :: "string \<Rightarrow> string" where
  "normalize_permission_mode m = (if m \<in> {''auto'', ''yolo''} then m else ''default'')"

definition normalize_kind :: "string \<Rightarrow> string" where
  "normalize_kind k = (if k = ''handoff'' then k else ''normal'')"

definition normalize_task_status :: "string \<Rightarrow> string" where
  "normalize_task_status s =
     (if s \<in> {''in_progress'', ''completed'', ''blocked'', ''dropped''} then s else ''pending'')"

lemma normalize_idem [simp]:
  "normalize_todo_status (normalize_todo_status s) = normalize_todo_status s"
  "normalize_collaboration_mode (normalize_collaboration_mode s) = normalize_collaboration_mode s"
  "normalize_permission_mode (normalize_permission_mode s) = normalize_permission_mode s"
  "normalize_kind (normalize_kind s) = normalize_kind s"
  "normalize_task_status (normalize_task_status s) = normalize_task_status s"
  by (simp_all add: normalize_todo_status_def normalize_collaboration_mode_def
      normalize_permission_mode_def normalize_kind_def normalize_task_status_def)

section \<open>Records\<close>

text \<open>session.InferenceOverrides; floats are kept as their 64 bits, only their presence is read.\<close>

record inference =
  in_model :: string
  in_provider :: string
  in_max_output_tokens :: "int option"
  in_temperature :: "64 word option"
  in_top_p :: "64 word option"
  in_top_k :: "int option"
  in_frequency_penalty :: "64 word option"
  in_presence_penalty :: "64 word option"
  in_think :: "bool option"
  in_reasoning_effort :: "string option"

record todo =
  td_id :: string
  td_content :: string
  td_status :: string
  td_active_form :: string
  td_progress :: int
  td_created :: int
  td_updated :: int
  td_started :: int
  td_completed :: int

record task =
  tk_id :: string
  tk_content :: string
  tk_status :: string
  tk_blocker :: string
  tk_evidence :: string
  tk_drop_reason :: string
  tk_created :: int
  tk_updated :: int
  tk_completed :: int

record goal =
  gl_id :: string
  gl_text :: string
  gl_status :: string
  gl_token_budget :: int
  gl_tokens_used :: int
  gl_time_seconds :: int
  gl_max_iterations :: int
  gl_block_cap :: int
  gl_iterations :: int
  gl_no_progress :: int
  gl_last_reason :: string
  gl_verifier_id :: string
  gl_last_evaluator_met :: "bool option"
  gl_last_evaluator_at :: int
  gl_tasks :: "task list"
  gl_created :: int
  gl_updated :: int

definition no_goal :: goal where
  "no_goal = \<lparr>gl_id = [], gl_text = [], gl_status = [], gl_token_budget = 0, gl_tokens_used = 0,
     gl_time_seconds = 0, gl_max_iterations = 0, gl_block_cap = 0, gl_iterations = 0,
     gl_no_progress = 0, gl_last_reason = [], gl_verifier_id = [], gl_last_evaluator_met = None,
     gl_last_evaluator_at = 0, gl_tasks = [], gl_created = 0, gl_updated = 0\<rparr>"

text \<open>Session; the cost is a float64, kept as its 64 bits.\<close>

record session =
  se_id :: string
  se_parent :: string
  se_kind :: string
  se_title :: string
  se_cwd :: string
  se_collaboration :: string
  se_permission :: string
  se_plan_path :: string
  se_handoff_source :: string
  se_handoff_goal :: string
  se_handoff_draft :: string
  se_handoff_files :: "string list"
  se_goal :: goal
  se_message_count :: int
  se_prompt_tokens :: int
  se_completion_tokens :: int
  se_last_prompt :: int
  se_last_completion :: int
  se_summary :: string
  se_cost :: "64 word"
  se_todos :: "todo list"
  se_estimated :: bool
  se_archived :: bool
  se_pinned :: bool
  se_inference :: inference
  se_inference_rev :: nat
  se_created :: int
  se_updated :: int

section \<open>Goals and tasks\<close>

definition is_active :: "goal \<Rightarrow> bool" where
  "is_active g \<longleftrightarrow> gl_status g = ''active''"

definition has_budget :: "goal \<Rightarrow> bool" where
  "has_budget g \<longleftrightarrow> gl_token_budget g > 0"

definition is_budget_exhausted :: "goal \<Rightarrow> bool" where
  "is_budget_exhausted g \<longleftrightarrow> has_budget g \<and> gl_tokens_used g \<ge> gl_token_budget g"

definition remaining_tokens :: "goal \<Rightarrow> int" where
  "remaining_tokens g =
     (if \<not> has_budget g then 0
      else let remaining = i64 (gl_token_budget g - gl_tokens_used g)
           in if remaining < 0 then 0 else remaining)"

fun has_actionable_tasks :: "task list \<Rightarrow> bool" where
  "has_actionable_tasks [] = False"
| "has_actionable_tasks (t # ts) =
     (if tk_status t = ''pending'' \<or> tk_status t = ''in_progress'' then True
      else has_actionable_tasks ts)"

fun has_incomplete_todos :: "todo list \<Rightarrow> bool" where
  "has_incomplete_todos [] = False"
| "has_incomplete_todos (t # ts) =
     (if td_status t \<noteq> ''completed'' then True else has_incomplete_todos ts)"

definition occupies_session :: "goal \<Rightarrow> bool" where
  "occupies_session g \<longleftrightarrow> gl_status g \<in> {''active'', ''paused'', ''budget-limited''}"

section \<open>Normalisation\<close>

definition normalize_todo_progress :: "string \<Rightarrow> int \<Rightarrow> int" where
  "normalize_todo_progress status progress =
     (let progress = (if progress < 0 then 0 else progress);
          progress = (if progress > 100 then 100 else progress)
      in if status = ''completed'' then 100
         else if status = ''failed'' \<or> status = ''canceled''
         then (if progress = 0 then 100 else progress)
         else progress)"

text \<open>
  The legacy ids hash the fields of an entry; \<open>xxh3\<close> is the hash of the zeebo/xxh3 package.
  The statuses are written as they stand, the free texts trimmed.
\<close>

definition bar_join :: "string list \<Rightarrow> string" where
  "bar_join parts = concat (case parts of [] \<Rightarrow> [] | p # ps \<Rightarrow> p # map (\<lambda>x. CHR 0x7C # x) ps)"

definition legacy_todo_id :: "(string \<Rightarrow> 64 word) \<Rightarrow> todo \<Rightarrow> nat \<Rightarrow> string" where
  "legacy_todo_id xxh3 t i =
     ''todo-'' @ show_hex_nat (unat (xxh3 (bar_join
       [show_nat i, trim_space (td_content t), td_status t, trim_space (td_active_form t),
        show_int (td_progress t), show_int (td_created t), show_int (td_started t),
        show_int (td_completed t)])))"

definition legacy_task_id :: "(string \<Rightarrow> 64 word) \<Rightarrow> task \<Rightarrow> nat \<Rightarrow> string" where
  "legacy_task_id xxh3 t i =
     ''task-'' @ show_hex_nat (unat (xxh3 (bar_join
       [show_nat i, trim_space (tk_content t), tk_status t, trim_space (tk_evidence t),
        show_int (tk_created t), show_int (tk_completed t)])))"

text \<open>
  One turn of the loop of normalizeTodos: \<open>seen\<close> are the ids given so far, \<open>uid i\<close> is the
  fresh uuid the code would draw for the entry at index \<open>i\<close>.
\<close>

definition normalize_todo ::
  "(string \<Rightarrow> 64 word) \<Rightarrow> bool \<Rightarrow> int \<Rightarrow> (nat \<Rightarrow> string) \<Rightarrow> nat \<Rightarrow> string list \<Rightarrow> todo \<Rightarrow> todo" where
  "normalize_todo xxh3 populate now uid i seen t =
     (let status = normalize_todo_status (td_status t);
          c = \<lparr>td_id = trim_space (td_id t), td_content = trim_space (td_content t),
               td_status = status, td_active_form = trim_space (td_active_form t),
               td_progress = normalize_todo_progress status (td_progress t),
               td_created = td_created t, td_updated = td_updated t, td_started = td_started t,
               td_completed = td_completed t\<rparr>;
          c = (if td_id c = [] then
                 (if populate then c\<lparr>td_id := uid i\<rparr> else c\<lparr>td_id := legacy_todo_id xxh3 c i\<rparr>)
               else if td_id c \<in> set seen then c\<lparr>td_id := uid i\<rparr> else c)
      in if \<not> populate then c
         else
           let c = (if td_created c = 0 then c\<lparr>td_created := now\<rparr> else c);
               c = c\<lparr>td_updated := now\<rparr>;
               begun = (if td_started c = 0 then c\<lparr>td_started := now\<rparr> else c)
           in if status = ''in_progress'' then begun\<lparr>td_completed := 0\<rparr>
              else if status \<in> {''completed'', ''failed'', ''canceled''} then
                (if td_completed begun = 0 then begun\<lparr>td_completed := now\<rparr> else begun)
              else c\<lparr>td_completed := 0\<rparr>)"

fun normalize_todos_from ::
  "(string \<Rightarrow> 64 word) \<Rightarrow> bool \<Rightarrow> int \<Rightarrow> (nat \<Rightarrow> string) \<Rightarrow> nat \<Rightarrow> string list \<Rightarrow> todo list \<Rightarrow> todo list" where
  "normalize_todos_from xxh3 populate now uid i seen [] = []"
| "normalize_todos_from xxh3 populate now uid i seen (t # ts) =
     (let c = normalize_todo xxh3 populate now uid i seen t
      in c # normalize_todos_from xxh3 populate now uid (Suc i) (td_id c # seen) ts)"

definition normalize_todos ::
  "(string \<Rightarrow> 64 word) \<Rightarrow> bool \<Rightarrow> int \<Rightarrow> (nat \<Rightarrow> string) \<Rightarrow> todo list \<Rightarrow> todo list" where
  "normalize_todos xxh3 populate now uid ts = normalize_todos_from xxh3 populate now uid 0 [] ts"

definition normalize_task ::
  "(string \<Rightarrow> 64 word) \<Rightarrow> bool \<Rightarrow> int \<Rightarrow> (nat \<Rightarrow> string) \<Rightarrow> nat \<Rightarrow> string list \<Rightarrow> task \<Rightarrow> task" where
  "normalize_task xxh3 populate now uid i seen t =
     (let c = \<lparr>tk_id = trim_space (tk_id t), tk_content = trim_space (tk_content t),
               tk_status = normalize_task_status (tk_status t),
               tk_blocker = trim_space (tk_blocker t), tk_evidence = trim_space (tk_evidence t),
               tk_drop_reason = trim_space (tk_drop_reason t), tk_created = tk_created t,
               tk_updated = tk_updated t, tk_completed = tk_completed t\<rparr>;
          c = (if tk_id c = [] then
                 (if populate then c\<lparr>tk_id := uid i\<rparr> else c\<lparr>tk_id := legacy_task_id xxh3 c i\<rparr>)
               else if tk_id c \<in> set seen then c\<lparr>tk_id := uid i\<rparr> else c);
          c = (if tk_status c \<noteq> ''completed'' \<and> tk_completed c \<noteq> 0 then c\<lparr>tk_completed := 0\<rparr> else c)
      in if \<not> populate then c
         else
           let c = (if tk_created c = 0 then c\<lparr>tk_created := now\<rparr> else c);
               c = c\<lparr>tk_updated := now\<rparr>
           in if tk_status c = ''completed'' \<and> tk_completed c = 0 then c\<lparr>tk_completed := now\<rparr> else c)"

fun normalize_tasks_from ::
  "(string \<Rightarrow> 64 word) \<Rightarrow> bool \<Rightarrow> int \<Rightarrow> (nat \<Rightarrow> string) \<Rightarrow> nat \<Rightarrow> string list \<Rightarrow> task list \<Rightarrow> task list" where
  "normalize_tasks_from xxh3 populate now uid i seen [] = []"
| "normalize_tasks_from xxh3 populate now uid i seen (t # ts) =
     (let c = normalize_task xxh3 populate now uid i seen t
      in c # normalize_tasks_from xxh3 populate now uid (Suc i) (tk_id c # seen) ts)"

definition normalize_tasks ::
  "(string \<Rightarrow> 64 word) \<Rightarrow> bool \<Rightarrow> int \<Rightarrow> (nat \<Rightarrow> string) \<Rightarrow> task list \<Rightarrow> task list" where
  "normalize_tasks xxh3 populate now uid ts = normalize_tasks_from xxh3 populate now uid 0 [] ts"

section \<open>Mode guards\<close>

datatype session_error =
    ErrNoRows | ErrDriver | ErrConstraint | ErrForkBoundary string | ErrInferenceConflict
  | ErrGoalBlocksPlanMode | ErrPlanBlocksGoalMode | ErrWorkspace | ErrPlanFile

definition is_active_plan_mode :: "session \<Rightarrow> bool" where
  "is_active_plan_mode s \<longleftrightarrow> normalize_collaboration_mode (se_collaboration s) = ''plan''"

definition is_plan_paused :: "session \<Rightarrow> bool" where
  "is_plan_paused s \<longleftrightarrow> normalize_collaboration_mode (se_collaboration s) = ''plan_paused''"

definition is_plan_flow :: "session \<Rightarrow> bool" where
  "is_plan_flow s \<longleftrightarrow> normalize_collaboration_mode (se_collaboration s) \<in> {''plan'', ''plan_paused''}"

definition validate_enter_plan_mode :: "session \<Rightarrow> session_error option" where
  "validate_enter_plan_mode s =
     (if is_active_plan_mode s then None
      else if occupies_session (se_goal s) then Some ErrGoalBlocksPlanMode
      else None)"

definition validate_goal_work :: "session \<Rightarrow> session_error option" where
  "validate_goal_work s = (if is_plan_flow s then Some ErrPlanBlocksGoalMode else None)"

section \<open>Mode states\<close>

record mode_state =
  ms_collaboration :: string
  ms_permission :: string

definition normalize_mode_state :: "mode_state \<Rightarrow> mode_state" where
  "normalize_mode_state m =
     \<lparr>ms_collaboration = normalize_collaboration_mode (ms_collaboration m),
      ms_permission = normalize_permission_mode (ms_permission m)\<rparr>"

definition mode_state_from_session :: "session \<Rightarrow> mode_state" where
  "mode_state_from_session s =
     normalize_mode_state \<lparr>ms_collaboration = se_collaboration s, ms_permission = se_permission s\<rparr>"

definition with_collaboration_mode :: "string \<Rightarrow> mode_state \<Rightarrow> mode_state" where
  "with_collaboration_mode mode m = normalize_mode_state (m\<lparr>ms_collaboration := mode\<rparr>)"

definition with_permission_mode :: "string \<Rightarrow> mode_state \<Rightarrow> mode_state" where
  "with_permission_mode mode m = normalize_mode_state (m\<lparr>ms_permission := mode\<rparr>)"

definition current_mode_id :: "mode_state \<Rightarrow> string" where
  "current_mode_id m = normalize_permission_mode (ms_permission m)"

definition state_plan_active :: "mode_state \<Rightarrow> bool" where
  "state_plan_active m \<longleftrightarrow> normalize_collaboration_mode (ms_collaboration m) = ''plan''"

definition state_plan_flow :: "mode_state \<Rightarrow> bool" where
  "state_plan_flow m \<longleftrightarrow> normalize_collaboration_mode (ms_collaboration m) \<in> {''plan'', ''plan_paused''}"

definition state_orchestrate :: "mode_state \<Rightarrow> bool" where
  "state_orchestrate m \<longleftrightarrow> normalize_collaboration_mode (ms_collaboration m) = ''orchestrate''"

record mode_transition =
  mt_previous :: mode_state
  mt_current :: mode_state

definition new_mode_transition :: "session \<Rightarrow> string option \<Rightarrow> string option \<Rightarrow> mode_transition" where
  "new_mode_transition s cmode pmode =
     (let previous = mode_state_from_session s;
          next_state = previous;
          next_state = (case cmode of None \<Rightarrow> next_state | Some m \<Rightarrow> with_collaboration_mode m next_state);
          next_state = (case pmode of None \<Rightarrow> next_state | Some m \<Rightarrow> with_permission_mode m next_state)
      in \<lparr>mt_previous = previous, mt_current = next_state\<rparr>)"

definition transition_changed :: "mode_transition \<Rightarrow> bool" where
  "transition_changed t \<longleftrightarrow> mt_previous t \<noteq> mt_current t"

definition exited_auto_mode :: "mode_transition \<Rightarrow> bool" where
  "exited_auto_mode t \<longleftrightarrow>
     ms_permission (mt_previous t) = ''auto'' \<and> ms_permission (mt_current t) \<noteq> ''auto''"

end
