(* ===== verification/Turn_Service.thy ===== *)
theory Turn_Service
  imports Event_Hub Session_Data
begin

text \<open>
  internal/turn/service.go: acceptance, queueing, cancellation, reordering, retry and
  completion of the turns of a session, and the queue events it publishes on the hub.

  Every locked section of the code is one definition that maps a service to a service
  (suffix \<open>_locked\<close> or \<open>_section\<close>); an operation is their composition in the order of the
  code. A runtime is shared by pointer between the sessions map and the calls that hold
  it, so runtimes live in a heap indexed by \<open>nat\<close>, with the session they were made for
  (the one their watch goroutine serves). Clock readings (nanoseconds) and fresh uuids are
  arguments: \<open>clk i\<close> and \<open>uid i\<close> are the i-th ones of a call. The runner is an interface;
  its answers are arguments and the calls it receives are logged in \<open>sv_calls\<close>.
  Attachment references carry the result their Resolve function returns.
\<close>

section \<open>Data\<close>

datatype turn_error =
    ErrNotFound | ErrNotQueued | ErrQueueFull | ErrInputTooLarge | ErrRevisionConflict
  | ErrInvalidOrder | ErrRetrySource | ErrClosed | ErrEmptyPrompt | ErrEventsUnavailable
  | ErrEvents hub_error | ErrResolve string | ErrContext | TurnPanic

datatype status =
    StatusQueued | StatusRunning | StatusCancelRequested | StatusCompleted | StatusFailed
  | StatusCancelled

definition terminal :: "status \<Rightarrow> bool" where
  "terminal s \<longleftrightarrow> s = StatusCompleted \<or> s = StatusFailed \<or> s = StatusCancelled"

fun status_string :: "status \<Rightarrow> string" where
  "status_string StatusQueued = ''queued''"
| "status_string StatusRunning = ''running''"
| "status_string StatusCancelRequested = ''cancel_requested''"
| "status_string StatusCompleted = ''completed''"
| "status_string StatusFailed = ''failed''"
| "status_string StatusCancelled = ''cancelled''"

record attachment =
  at_path :: string
  at_name :: string
  at_mime :: string
  at_content :: bytes

record attachment_ref =
  ar_id :: string
  ar_resolve :: "(string + attachment) option"

text \<open>Scope is an in-memory closure that the service only passes on; a number names it.\<close>

record turn_input =
  ti_prompt :: string
  ti_attachments :: "attachment list"
  ti_references :: "attachment_ref list"
  ti_inference :: inference
  ti_scope :: "nat option"

record turn =
  tu_id :: string
  tu_session :: string
  tu_status :: status
  tu_position :: nat
  tu_accepted :: nat
  tu_message :: string
  tu_reason :: string
  tu_created :: int
  tu_started :: int
  tu_completed :: int

record turn_state =
  ts_turn :: turn
  ts_input :: turn_input
  ts_done :: bool
  ts_dispatched :: bool
  ts_cancel_requested :: bool

record turn_queue =
  tq_session :: string
  tq_revision :: nat
  tq_paused :: bool
  tq_turns :: "queued_turn list"

record session_runtime =
  rt_active :: string
  rt_pending :: "string list"
  rt_revision :: nat
  rt_paused :: bool
  rt_sub :: string
  rt_ctx_done :: bool
  rt_done :: bool

datatype runner_call =
    CallRun string string string "attachment list"
  | CallCancel string
  | CallRemoveQueued string string
  | CallSteer string string "attachment list"

text \<open>A dispatched goroutine: session, turn and the cloned input.\<close>

type_synonym turn_task = "string \<times> string \<times> turn_input"

record turn_config =
  tc_max_queue :: int
  tc_max_input :: int
  tc_retention :: int
  tc_max_turns :: int

record service =
  sv_max_queue :: nat
  sv_max_input :: nat
  sv_retention :: int
  sv_max_turns :: nat
  sv_events :: "hub option"
  sv_sessions :: "(string \<times> nat) list"
  sv_heap :: "nat \<Rightarrow> (string \<times> session_runtime) option"
  sv_next :: nat
  sv_turns :: "(string \<times> turn_state) list"
  sv_closed :: bool
  sv_calls :: "runner_call list"
  sv_tasks :: "turn_task list"

definition new_service :: "hub option \<Rightarrow> turn_config \<Rightarrow> service" where
  "new_service events c =
     \<lparr>sv_max_queue = (if tc_max_queue c \<le> 0 then 128 else nat (tc_max_queue c)),
      sv_max_input = (if tc_max_input c \<le> 0 then 1024 * 1024 else nat (tc_max_input c)),
      sv_retention = (if tc_retention c \<le> 0 then 10 * 60 * 1000000000 else tc_retention c),
      sv_max_turns = (if tc_max_turns c \<le> 0 then 4096 else nat (tc_max_turns c)),
      sv_events = events, sv_sessions = [], sv_heap = (\<lambda>_. None), sv_next = 0, sv_turns = [],
      sv_closed = False, sv_calls = [], sv_tasks = []\<rparr>"

abbreviation turn_of :: "service \<Rightarrow> string \<Rightarrow> turn_state option" where
  "turn_of s tid \<equiv> map_of (sv_turns s) tid"

abbreviation status_of :: "turn_state \<Rightarrow> status" where
  "status_of ts \<equiv> tu_status (ts_turn ts)"

definition upd_turn :: "string \<Rightarrow> (turn_state \<Rightarrow> turn_state) \<Rightarrow> service \<Rightarrow> service" where
  "upd_turn tid f s = s\<lparr>sv_turns := AList.map_entry tid f (sv_turns s)\<rparr>"

definition upd_runtime :: "nat \<Rightarrow> (session_runtime \<Rightarrow> session_runtime) \<Rightarrow> service \<Rightarrow> service" where
  "upd_runtime r f s =
     s\<lparr>sv_heap := (sv_heap s)(r := map_option (\<lambda>(sid, rt). (sid, f rt)) (sv_heap s r))\<rparr>"

definition log_call :: "runner_call \<Rightarrow> service \<Rightarrow> service" where
  "log_call c s = s\<lparr>sv_calls := sv_calls s @ [c]\<rparr>"

text \<open>The runtime the sessions map holds for a session: \<^verbatim>\<open>s.sessions[sessionID]\<close>.\<close>

definition runtime_of :: "service \<Rightarrow> string \<Rightarrow> (nat \<times> session_runtime) option" where
  "runtime_of s sid =
     (case map_of (sv_sessions s) sid of
        None \<Rightarrow> None
      | Some r \<Rightarrow> (case sv_heap s r of None \<Rightarrow> None | Some (_, rt) \<Rightarrow> Some (r, rt)))"

text \<open>time.Time.UnixMilli of a time in nanoseconds.\<close>

definition unix_milli :: "int \<Rightarrow> int" where
  "unix_milli t = t div 1000000"

section \<open>Inputs\<close>

definition input_size :: "turn_input \<Rightarrow> nat" where
  "input_size i =
     length (ti_prompt i) + length (in_model (ti_inference i)) + length (in_provider (ti_inference i)) +
     (if in_max_output_tokens (ti_inference i) \<noteq> None \<or> in_temperature (ti_inference i) \<noteq> None \<or>
         in_top_p (ti_inference i) \<noteq> None \<or> in_top_k (ti_inference i) \<noteq> None \<or>
         in_frequency_penalty (ti_inference i) \<noteq> None \<or>
         in_presence_penalty (ti_inference i) \<noteq> None \<or> in_think (ti_inference i) \<noteq> None
      then 128 else 0) +
     sum_list (map (\<lambda>a. length (at_content a) + length (at_path a) + length (at_mime a))
       (ti_attachments i)) +
     sum_list (map (\<lambda>r. length (ar_id r)) (ti_references i))"

definition clone_inference :: "inference \<Rightarrow> inference" where
  "clone_inference v =
     v\<lparr>in_max_output_tokens := map_option (\<lambda>x. x) (in_max_output_tokens v),
       in_temperature := map_option (\<lambda>x. x) (in_temperature v),
       in_top_p := map_option (\<lambda>x. x) (in_top_p v),
       in_top_k := map_option (\<lambda>x. x) (in_top_k v),
       in_frequency_penalty := map_option (\<lambda>x. x) (in_frequency_penalty v),
       in_presence_penalty := map_option (\<lambda>x. x) (in_presence_penalty v),
       in_think := map_option (\<lambda>x. x) (in_think v)\<rparr>"

definition clone_input :: "turn_input \<Rightarrow> turn_input" where
  "clone_input i =
     \<lparr>ti_prompt = ti_prompt i,
      ti_attachments = map (\<lambda>a. a\<lparr>at_content := [] @ at_content a\<rparr>) (ti_attachments i),
      ti_references = [] @ ti_references i, ti_inference = clone_inference (ti_inference i),
      ti_scope = ti_scope i\<rparr>"

lemma clone_input_id [simp]: "clone_input i = i"
proof -
  have "clone_inference v = v" for v
    by (cases v) (simp add: clone_inference_def option.map_ident)
  then show ?thesis by (cases i) (simp add: clone_input_def)
qed

text \<open>resolveAttachments, with the loop over the references.\<close>

fun resolve_references ::
  "attachment list \<Rightarrow> attachment_ref list \<Rightarrow> turn_error + attachment list" where
  "resolve_references acc [] = Inr acc"
| "resolve_references acc (r # rs) =
     (case ar_resolve r of
        None \<Rightarrow> Inl ErrRetrySource
      | Some (Inl err) \<Rightarrow> Inl (ErrResolve err)
      | Some (Inr a) \<Rightarrow> resolve_references (acc @ [a]) rs)"

definition resolve_attachments :: "turn_input \<Rightarrow> turn_error + attachment list" where
  "resolve_attachments i = resolve_references (ti_attachments i) (ti_references i)"

definition turn_truncate :: "string \<Rightarrow> nat \<Rightarrow> string" where
  "turn_truncate value max_bytes =
     (if length value \<le> max_bytes then value else take (back_to_rune_start value max_bytes) value)"

definition preview_bytes :: nat where "preview_bytes = 256"

text \<open>removeID: the first occurrence goes, and whether there was one.\<close>

fun remove_id :: "string list \<Rightarrow> string \<Rightarrow> string list \<times> bool" where
  "remove_id [] target = ([], False)"
| "remove_id (x # xs) target =
     (if x = target then (xs, True)
      else (case remove_id xs target of (ys, b) \<Rightarrow> (x # ys, b)))"

lemma remove_id_remove1: "remove_id xs t = (remove1 t xs, t \<in> set xs)"
  by (induction xs) auto

fun terminal_kind :: "status \<Rightarrow> kind" where
  "terminal_kind StatusCancelled = KindTurnCancelled"
| "terminal_kind StatusCompleted = KindTurnCompleted"
| "terminal_kind _ = KindTurnFailed"

section \<open>Reading\<close>

definition get_turn :: "string \<Rightarrow> service \<Rightarrow> turn_error + turn" where
  "get_turn tid s = (case turn_of s tid of None \<Rightarrow> Inl ErrNotFound | Some ts \<Rightarrow> Inr (ts_turn ts))"

text \<open>
  Wait: \<open>None\<close> while it blocks. When the turn is done and the context is done, Go's select
  takes either case: \<open>pick\<close> is its choice.
\<close>

definition wait_turn :: "string \<Rightarrow> bool \<Rightarrow> bool \<Rightarrow> service \<Rightarrow> (turn_error + turn) option" where
  "wait_turn tid ctx_done pick s =
     (case turn_of s tid of
        None \<Rightarrow> Some (Inl ErrNotFound)
      | Some ts \<Rightarrow>
          if terminal (status_of ts) then Some (Inr (ts_turn ts))
          else if ts_done ts \<and> (pick \<or> \<not> ctx_done) then Some (get_turn tid s)
          else if ctx_done then Some (Inl ErrContext)
          else None)"

text \<open>The loop of queueLocked; \<open>position\<close> is the index in the list plus one.\<close>

fun queued_turns :: "service \<Rightarrow> nat \<Rightarrow> string list \<Rightarrow> queued_turn list" where
  "queued_turns s position [] = []"
| "queued_turns s position (i # ids) =
     (case turn_of s i of
        None \<Rightarrow> queued_turns s (Suc position) ids
      | Some ts \<Rightarrow>
          if terminal (status_of ts) then queued_turns s (Suc position) ids
          else \<lparr>qt_turn_id = i, qt_status = status_string (status_of ts), qt_position = position,
                qt_preview = turn_truncate (ti_prompt (ts_input ts)) preview_bytes\<rparr>
               # queued_turns s (Suc position) ids)"

definition queue_locked :: "string \<Rightarrow> service \<Rightarrow> turn_queue" where
  "queue_locked sid s =
     (case runtime_of s sid of
        None \<Rightarrow> \<lparr>tq_session = sid, tq_revision = 0, tq_paused = False, tq_turns = []\<rparr>
      | Some (_, rt) \<Rightarrow>
          let ids = rt_pending rt;
              ids = (if rt_active rt \<noteq> [] then
                       (case turn_of s (rt_active rt) of
                          Some ts \<Rightarrow> if status_of ts \<noteq> StatusRunning then rt_active rt # ids else ids
                        | None \<Rightarrow> ids)
                     else ids)
          in \<lparr>tq_session = sid, tq_revision = rt_revision rt, tq_paused = rt_paused rt,
              tq_turns = queued_turns s 1 ids\<rparr>)"

section \<open>Pruning\<close>

text \<open>The scan for the oldest terminal turn, over the turns in iteration order.\<close>

fun oldest_terminal :: "(string \<times> turn_state) list \<Rightarrow> string \<Rightarrow> int \<Rightarrow> string" where
  "oldest_terminal [] oldest_id oldest = oldest_id"
| "oldest_terminal ((i, ts) # rest) oldest_id oldest =
     (if \<not> terminal (status_of ts) \<or> oldest_id \<noteq> [] \<and> oldest \<le> tu_completed (ts_turn ts)
      then oldest_terminal rest oldest_id oldest
      else oldest_terminal rest i (tu_completed (ts_turn ts)))"

lemma oldest_terminal_cases:
  "oldest_terminal ts i c = i \<or>
   (\<exists>v. (oldest_terminal ts i c, v) \<in> set ts \<and> terminal (status_of v))"
  by (induction ts i c rule: oldest_terminal.induct) auto

lemma oldest_terminal_key:
  "oldest_terminal ts [] c \<noteq> [] \<Longrightarrow>
   \<exists>v. (oldest_terminal ts [] c, v) \<in> set ts \<and> terminal (status_of v)"
  using oldest_terminal_cases [of ts "[]" c] by auto

function evict_loop :: "nat \<Rightarrow> (string \<times> turn_state) list \<Rightarrow> (string \<times> turn_state) list" where
  "evict_loop max_turns ts =
     (if length ts < max_turns then ts
      else let i = oldest_terminal ts [] 0 in
           if i = [] then ts else evict_loop max_turns (AList.delete i ts))"
  by pat_completeness auto
termination
proof (relation "measure (\<lambda>(m, ts). length ts)")
  fix max_turns and ts :: "(string \<times> turn_state) list" and i
  assume "i = oldest_terminal ts [] 0" "i \<noteq> []"
  then have "\<exists>v. map_of ts i = Some v"
    using oldest_terminal_key [of ts 0] weak_map_of_SomeI by metis
  then show "((max_turns, AList.delete i ts), max_turns, ts) \<in> measure (\<lambda>(m, ts). length ts)"
    using length_delete_less by auto
qed auto

declare evict_loop.simps [simp del]

definition prune_locked :: "int \<Rightarrow> service \<Rightarrow> service" where
  "prune_locked now s =
     (let cutoff = unix_milli (now - sv_retention s);
          kept = filter (\<lambda>(i, ts). \<not> (terminal (status_of ts) \<and> tu_completed (ts_turn ts) < cutoff))
                   (sv_turns s)
      in s\<lparr>sv_turns := evict_loop (sv_max_turns s) kept\<rparr>)"

section \<open>Events\<close>

text \<open>Publish on the hub; the nil hub panics.\<close>

definition publish_event ::
  "string \<Rightarrow> new_event \<Rightarrow> int \<Rightarrow> string \<Rightarrow> service \<Rightarrow> service \<times> (hub_error + event)" where
  "publish_event sid e now eid s =
     (case sv_events s of
        None \<Rightarrow> (s, Inl HubPanic)
      | Some h \<Rightarrow> (case publish sid e now eid h of (h', res) \<Rightarrow> (s\<lparr>sv_events := Some h'\<rparr>, res)))"

definition turn_news :: "kind \<Rightarrow> string \<Rightarrow> string \<Rightarrow> new_event" where
  "turn_news k tid reason =
     \<lparr>ne_revision = 0, ne_advance = False, ne_kind = k,
      ne_payload = PTurn \<lparr>tn_turn_id = tid, tn_message_id = [], tn_reason = reason, tn_phase = []\<rparr>,
      ne_delivery = DeliveryReliable, ne_key = []\<rparr>"

definition queue_news :: "string \<Rightarrow> turn_queue \<Rightarrow> new_event" where
  "queue_news sid q =
     \<lparr>ne_revision = 0, ne_advance = False, ne_kind = KindQueueUpdated,
      ne_payload = PQueue \<lparr>qe_revision = tq_revision q, qe_turns = tq_turns q\<rparr>,
      ne_delivery = DeliveryLatest, ne_key = ''queue:'' @ sid\<rparr>"

definition publish_cancel_ack :: "string \<Rightarrow> string \<Rightarrow> string \<Rightarrow> int \<Rightarrow> string \<Rightarrow> service \<Rightarrow> service" where
  "publish_cancel_ack sid tid reason now eid s =
     fst (publish_event sid (turn_news KindCancelAcknowledged tid reason) now eid s)"

definition publish_turn_cancelled ::
  "string \<Rightarrow> string \<Rightarrow> string \<Rightarrow> int \<Rightarrow> string \<Rightarrow> service \<Rightarrow> service" where
  "publish_turn_cancelled sid tid reason now eid s =
     fst (publish_event sid (turn_news KindTurnCancelled tid reason) now eid s)"

definition publish_cancellation ::
  "string \<Rightarrow> string \<Rightarrow> string \<Rightarrow> (nat \<Rightarrow> int) \<Rightarrow> (nat \<Rightarrow> string) \<Rightarrow> service \<Rightarrow> service" where
  "publish_cancellation sid tid reason clk uid s =
     publish_turn_cancelled sid tid reason (clk 1) (uid 1)
       (publish_cancel_ack sid tid reason (clk 0) (uid 0) s)"

definition publish_queue :: "string \<Rightarrow> int \<Rightarrow> string \<Rightarrow> service \<Rightarrow> service \<times> (hub_error + event)" where
  "publish_queue sid now eid s = publish_event sid (queue_news sid (queue_locked sid s)) now eid s"

section \<open>Finishing and advancing\<close>

definition finish_state :: "status \<Rightarrow> string \<Rightarrow> string \<Rightarrow> int \<Rightarrow> turn_state \<Rightarrow> turn_state" where
  "finish_state st reason mid now ts =
     ts\<lparr>ts_turn := (ts_turn ts)\<lparr>tu_status := st, tu_reason := reason, tu_message := mid,
                      tu_position := 0, tu_completed := unix_milli now\<rparr>,
        ts_done := True\<rparr>"

definition finish_locked ::
  "string \<Rightarrow> status \<Rightarrow> string \<Rightarrow> string \<Rightarrow> int \<Rightarrow> service \<Rightarrow> service" where
  "finish_locked tid st reason mid now s = upd_turn tid (finish_state st reason mid now) s"

definition finish_turn :: "string \<Rightarrow> status \<Rightarrow> string \<Rightarrow> string \<Rightarrow> int \<Rightarrow> service \<Rightarrow> service" where
  "finish_turn tid st reason mid now s =
     (case turn_of s tid of
        None \<Rightarrow> s
      | Some ts \<Rightarrow> if terminal (status_of ts) then s else finish_locked tid st reason mid now s)"

text \<open>
  dispatch up to the \<^verbatim>\<open>go\<close> statement. The goroutine is recorded in \<open>sv_tasks\<close>; what it does is
  \<open>task_begin\<close> and \<open>task_returned\<close> below.
\<close>

definition dispatch_turn :: "string \<Rightarrow> service \<Rightarrow> service" where
  "dispatch_turn tid s =
     (case turn_of s tid of
        None \<Rightarrow> s
      | Some ts \<Rightarrow>
          if terminal (status_of ts) then s
          else (upd_turn tid (\<lambda>ts. ts\<lparr>ts_dispatched := True\<rparr>) s)
                 \<lparr>sv_tasks := sv_tasks s @ [(tu_session (ts_turn ts), tid, clone_input (ts_input ts))]\<rparr>)"

text \<open>
  The locked section of advance: \<open>None\<close> when the completed turn is not the active one,
  otherwise the turn to dispatch next (\<open>[]\<close> for none).
\<close>

definition advance_locked :: "string \<Rightarrow> string \<Rightarrow> service \<Rightarrow> service \<times> string option" where
  "advance_locked sid completed s =
     (case runtime_of s sid of
        None \<Rightarrow> (s, None)
      | Some (r, rt) \<Rightarrow>
          if rt_active rt \<noteq> completed then (s, None)
          else if \<not> rt_paused rt \<and> rt_pending rt \<noteq> [] then
            (upd_runtime r (\<lambda>rt. rt\<lparr>rt_active := hd (rt_pending rt), rt_pending := tl (rt_pending rt),
                                   rt_revision := rt_revision rt + 1\<rparr>) s,
             Some (hd (rt_pending rt)))
          else
            (upd_runtime r (\<lambda>rt. rt\<lparr>rt_active := [], rt_revision := rt_revision rt + 1\<rparr>) s,
             Some []))"

definition advance :: "string \<Rightarrow> string \<Rightarrow> int \<Rightarrow> string \<Rightarrow> service \<Rightarrow> service" where
  "advance sid completed now eid s =
     (case advance_locked sid completed s of
        (s1, None) \<Rightarrow> s1
      | (s1, Some nxt) \<Rightarrow>
          let s2 = fst (publish_queue sid now eid s1)
          in if nxt \<noteq> [] then dispatch_turn nxt s2 else s2)"

section \<open>Starting\<close>

text \<open>ensureRuntime: the lookup, the subscription, and the section that installs the runtime.\<close>

definition ensure_lookup :: "string \<Rightarrow> service \<Rightarrow> turn_error + nat option" where
  "ensure_lookup sid s =
     (if sv_closed s then Inl ErrClosed else Inr (map_of (sv_sessions s) sid))"

definition ensure_subscribe ::
  "string \<Rightarrow> int \<Rightarrow> string \<Rightarrow> service \<Rightarrow> service \<times> (turn_error + string)" where
  "ensure_subscribe sid now i s =
     (case sv_events s of
        None \<Rightarrow> (s, Inl ErrEventsUnavailable)
      | Some h \<Rightarrow>
          (case subscribe sid (latest_sequence sid h) now i h of
             (h', Inl err) \<Rightarrow> (s\<lparr>sv_events := Some h'\<rparr>, Inl (ErrEvents err))
           | (h', Inr k) \<Rightarrow> (s\<lparr>sv_events := Some h'\<rparr>, Inr k)))"

definition close_sub :: "string \<Rightarrow> service \<Rightarrow> service" where
  "close_sub i s = s\<lparr>sv_events := map_option (close_subscription i) (sv_events s)\<rparr>"

definition ensure_install :: "string \<Rightarrow> string \<Rightarrow> service \<Rightarrow> service \<times> nat \<times> bool" where
  "ensure_install sid i s =
     (case map_of (sv_sessions s) sid of
        Some r \<Rightarrow> (close_sub i s, r, False)
      | None \<Rightarrow>
          (s\<lparr>sv_sessions := AList.update sid (sv_next s) (sv_sessions s),
             sv_heap := (sv_heap s)(sv_next s \<mapsto>
               (sid, \<lparr>rt_active = [], rt_pending = [], rt_revision = 0, rt_paused = False,
                     rt_sub = i, rt_ctx_done = False, rt_done = False\<rparr>)),
             sv_next := Suc (sv_next s)\<rparr>,
           sv_next s, True))"

definition ensure_runtime ::
  "string \<Rightarrow> int \<Rightarrow> string \<Rightarrow> service \<Rightarrow> service \<times> (turn_error + nat \<times> bool)" where
  "ensure_runtime sid now i s =
     (case ensure_lookup sid s of
        Inl err \<Rightarrow> (s, Inl err)
      | Inr (Some r) \<Rightarrow> (s, Inr (r, False))
      | Inr None \<Rightarrow>
          (case ensure_subscribe sid now i s of
             (s1, Inl err) \<Rightarrow> (s1, Inl err)
           | (s1, Inr k) \<Rightarrow> (case ensure_install sid k s1 of (s2, r, c) \<Rightarrow> (s2, Inr (r, c)))))"

definition new_turn_state :: "string \<Rightarrow> string \<Rightarrow> int \<Rightarrow> turn_input \<Rightarrow> turn_state" where
  "new_turn_state tid sid now i =
     \<lparr>ts_turn = \<lparr>tu_id = tid, tu_session = sid, tu_status = StatusQueued, tu_position = 0,
                 tu_accepted = 0, tu_message = [], tu_reason = [], tu_created = unix_milli now,
                 tu_started = 0, tu_completed = 0\<rparr>,
      ts_input = clone_input i, ts_done = False, ts_dispatched = False,
      ts_cancel_requested = False\<rparr>"

datatype accept_result =
    Accepted bool
  | Rejected turn_error bool

text \<open>
  The locked section of Start on the runtime that ensureRuntime returned. \<open>Accepted\<close> says
  whether the turn is to be dispatched, \<open>Rejected\<close> whether the runtime is to be cleaned up.
\<close>

definition accept_locked ::
  "string \<Rightarrow> nat \<Rightarrow> bool \<Rightarrow> turn_state \<Rightarrow> int \<Rightarrow> service \<Rightarrow> service \<times> accept_result" where
  "accept_locked sid r created ts now s =
     (if sv_closed s then (s, Rejected ErrClosed False)
      else
        let s = prune_locked now s in
        (case sv_heap s r of
           None \<Rightarrow> (s, Rejected TurnPanic False)
         | Some (_, rt) \<Rightarrow>
             if sv_max_queue s \<le> length (rt_pending rt) + (if rt_active rt \<noteq> [] then 1 else 0) \<or>
                sv_max_turns s \<le> length (sv_turns s)
             then
               (if created \<and> rt_active rt = [] \<and> rt_pending rt = [] \<and>
                   map_of (sv_sessions s) sid = Some r
                then (s\<lparr>sv_sessions := AList.delete sid (sv_sessions s)\<rparr>, Rejected ErrQueueFull True)
                else (s, Rejected ErrQueueFull False))
             else
               let tid = tu_id (ts_turn ts);
                   start = (rt_active rt = []);
                   rt' = (if start then rt\<lparr>rt_active := tid\<rparr>
                          else rt\<lparr>rt_pending := rt_pending rt @ [tid]\<rparr>);
                   position = (if start then 0 else length (rt_pending rt'));
                   ts' = ts\<lparr>ts_turn := (ts_turn ts)\<lparr>tu_position := position\<rparr>\<rparr>
               in ((upd_runtime r (\<lambda>_. rt'\<lparr>rt_revision := rt_revision rt + 1\<rparr>) s)
                     \<lparr>sv_turns := AList.update tid ts' (sv_turns s)\<rparr>, Accepted start)))"

text \<open>runtime.cancel() and runtime.subscription.Close().\<close>

definition close_runtime :: "nat \<Rightarrow> service \<Rightarrow> service" where
  "close_runtime r s =
     (case sv_heap s r of
        None \<Rightarrow> s
      | Some (_, rt) \<Rightarrow> close_sub (rt_sub rt) (upd_runtime r (\<lambda>rt. rt\<lparr>rt_ctx_done := True\<rparr>) s))"

definition set_accepted :: "string \<Rightarrow> nat \<Rightarrow> service \<Rightarrow> service" where
  "set_accepted tid n s =
     upd_turn tid (\<lambda>ts. ts\<lparr>ts_turn := (ts_turn ts)\<lparr>tu_accepted := n\<rparr>\<rparr>) s"

definition start_input :: "turn_input \<Rightarrow> turn_input" where
  "start_input i = i\<lparr>ti_prompt := trim_space (ti_prompt i)\<rparr>"

definition start_check :: "turn_input \<Rightarrow> service \<Rightarrow> turn_error option" where
  "start_check i s =
     (if ti_prompt i = [] \<and> ti_attachments i = [] \<and> ti_references i = [] then Some ErrEmptyPrompt
      else if sv_max_input s < input_size i then Some ErrInputTooLarge
      else None)"

definition start :: "string \<Rightarrow> turn_input \<Rightarrow> (nat \<Rightarrow> int) \<Rightarrow> (nat \<Rightarrow> string) \<Rightarrow> service \<Rightarrow>
    service \<times> (turn_error + turn)" where
  "start sid i clk uid s =
     (let i = start_input i in
      case start_check i s of
        Some err \<Rightarrow> (s, Inl err)
      | None \<Rightarrow>
          (case ensure_runtime sid (clk 0) (uid 0) s of
             (s, Inl err) \<Rightarrow> (s, Inl err)
           | (s, Inr (r, created)) \<Rightarrow>
               let tid = uid 1 in
               (case accept_locked sid r created (new_turn_state tid sid (clk 1) i) (clk 2) s of
                  (s, Rejected err cleanup) \<Rightarrow> (if cleanup then close_runtime r s else s, Inl err)
                | (s, Accepted go) \<Rightarrow>
                    (case publish_queue sid (clk 3) (uid 2) s of
                       (s, res) \<Rightarrow>
                         let s = (case res of Inr e \<Rightarrow> set_accepted tid (ev_seq e) s | Inl _ \<Rightarrow> s);
                             s = (if go then dispatch_turn tid s else s)
                         in (s, get_turn tid s)))))"

section \<open>Cancelling, removing and reordering\<close>

text \<open>
  The locked section of Cancel: not found, already terminal, removed from the pending
  list, or marked; the code dereferences the session's runtime, which panics when nil.
\<close>

datatype cancel_result =
    CancelError turn_error
  | CancelDone turn
  | CancelUnqueued turn string
  | CancelMarked string status

definition cancel_locked :: "string \<Rightarrow> int \<Rightarrow> service \<Rightarrow> service \<times> cancel_result" where
  "cancel_locked tid now s =
     (case turn_of s tid of
        None \<Rightarrow> (s, CancelError ErrNotFound)
      | Some ts \<Rightarrow>
          if terminal (status_of ts) then (s, CancelDone (ts_turn ts))
          else
            let sid = tu_session (ts_turn ts) in
            (case runtime_of s sid of
               None \<Rightarrow> (s, CancelError TurnPanic)
             | Some (r, rt) \<Rightarrow>
                 (case remove_id (rt_pending rt) tid of
                    (pending, True) \<Rightarrow>
                      let s1 = finish_locked tid StatusCancelled ''queue_removed'' [] now s;
                          s2 = upd_runtime r (\<lambda>rt. rt\<lparr>rt_pending := pending,
                                                       rt_revision := rt_revision rt + 1\<rparr>) s1
                      in (s2, CancelUnqueued
                                (ts_turn (finish_state StatusCancelled ''queue_removed'' [] now ts)) sid)
                  | (_, False) \<Rightarrow>
                      (upd_turn tid (\<lambda>ts. ts\<lparr>ts_cancel_requested := True,
                          ts_turn := (ts_turn ts)\<lparr>tu_status := StatusCancelRequested\<rparr>\<rparr>) s,
                       CancelMarked sid (status_of ts)))))"

text \<open>Cancel; \<open>removed\<close> is the runner's answer to RemoveQueuedTurn.\<close>

definition cancel_turn :: "string \<Rightarrow> bool \<Rightarrow> (nat \<Rightarrow> int) \<Rightarrow> (nat \<Rightarrow> string) \<Rightarrow> service \<Rightarrow>
    service \<times> (turn_error + turn)" where
  "cancel_turn tid removed clk uid s =
     (case cancel_locked tid (clk 0) s of
        (s, CancelError err) \<Rightarrow> (s, Inl err)
      | (s, CancelDone t) \<Rightarrow> (s, Inr t)
      | (s, CancelUnqueued t sid) \<Rightarrow>
          let s = publish_cancellation sid tid ''queue_removed'' (\<lambda>i. clk (1 + i)) uid s;
              s = fst (publish_queue sid (clk 3) (uid 2) s)
          in (s, Inr t)
      | (s, CancelMarked sid previous) \<Rightarrow>
          let s = publish_cancel_ack sid tid ''user_requested'' (clk 1) (uid 0) s;
              s = log_call (CallRemoveQueued sid tid) s;
              s = (if removed then
                     advance sid tid (clk 4) (uid 2)
                       (publish_turn_cancelled sid tid ''queue_removed'' (clk 3) (uid 1)
                         (finish_turn tid StatusCancelled ''queue_removed'' [] (clk 2) s))
                   else if previous = StatusRunning then log_call (CallCancel sid) s
                   else s)
          in (s, get_turn tid s))"

definition remove_queued :: "string \<Rightarrow> string \<Rightarrow> bool \<Rightarrow> (nat \<Rightarrow> int) \<Rightarrow> (nat \<Rightarrow> string) \<Rightarrow>
    service \<Rightarrow> service \<times> (turn_error + turn_queue)" where
  "remove_queued sid tid removed clk uid s =
     (case get_turn tid s of
        Inl _ \<Rightarrow> (s, Inl ErrNotFound)
      | Inr t \<Rightarrow>
          if tu_session t \<noteq> sid then (s, Inl ErrNotFound)
          else if tu_status t \<noteq> StatusQueued \<and> tu_status t \<noteq> StatusCancelRequested
          then (s, Inl ErrNotQueued)
          else (case cancel_turn tid removed clk uid s of
                  (s, Inl err) \<Rightarrow> (s, Inl err)
                | (s, Inr _) \<Rightarrow> (s, Inr (queue_locked sid s))))"

text \<open>The validation loop of Reorder over the requested order.\<close>

fun order_valid :: "string list \<Rightarrow> string list \<Rightarrow> string list \<Rightarrow> bool" where
  "order_valid pending seen [] = True"
| "order_valid pending seen (i # ids) =
     (if i \<notin> set pending then False
      else if i \<in> set seen then False
      else order_valid pending (i # seen) ids)"

definition reorder_locked :: "string \<Rightarrow> nat \<Rightarrow> string list \<Rightarrow> service \<Rightarrow>
    service \<times> (turn_error + turn_queue) \<times> bool" where
  "reorder_locked sid expected ids s =
     (case runtime_of s sid of
        None \<Rightarrow> (s, Inr \<lparr>tq_session = sid, tq_revision = 0, tq_paused = False, tq_turns = []\<rparr>, False)
      | Some (r, rt) \<Rightarrow>
          if rt_revision rt \<noteq> expected then (s, Inl ErrRevisionConflict, False)
          else if \<not> order_valid (rt_pending rt) [] ids then (s, Inl ErrInvalidOrder, False)
          else
            let reordered = ids @ filter (\<lambda>i. i \<notin> set ids) (rt_pending rt);
                s = upd_runtime r (\<lambda>rt. rt\<lparr>rt_pending := reordered,
                                            rt_revision := rt_revision rt + 1\<rparr>) s
            in (s, Inr (queue_locked sid s), True))"

definition reorder :: "string \<Rightarrow> nat \<Rightarrow> string list \<Rightarrow> int \<Rightarrow> string \<Rightarrow> service \<Rightarrow>
    service \<times> (turn_error + turn_queue)" where
  "reorder sid expected ids now eid s =
     (case reorder_locked sid expected ids s of
        (s, res, changed) \<Rightarrow> (if changed then fst (publish_queue sid now eid s) else s, res))"

section \<open>Steering and retrying\<close>

text \<open>Steer; \<open>accepted\<close> is the runner's answer. \<open>Inl n\<close> of the result is a steered turn.\<close>

definition steer :: "string \<Rightarrow> turn_input \<Rightarrow> bool \<Rightarrow> (nat \<Rightarrow> int) \<Rightarrow> (nat \<Rightarrow> string) \<Rightarrow> service \<Rightarrow>
    service \<times> (turn_error + string \<times> turn option \<times> nat)" where
  "steer sid i accepted clk uid s =
     (if sv_max_input s < input_size i then (s, Inl ErrInputTooLarge)
      else
        (case resolve_attachments i of
           Inl err \<Rightarrow> (s, Inl err)
         | Inr as \<Rightarrow>
             let s = log_call (CallSteer sid (ti_prompt i) as) s in
             if accepted then
               let active = (case runtime_of s sid of None \<Rightarrow> [] | Some (_, rt) \<Rightarrow> rt_active rt) in
               (case publish_event sid (turn_news KindTurnSteered active ''accepted'') (clk 0) (uid 0) s of
                  (s, Inl err) \<Rightarrow> (s, Inl (ErrEvents err))
                | (s, Inr e) \<Rightarrow> (s, Inr (''steered'', None, ev_seq e)))
             else
               (case start sid i clk uid s of
                  (s, Inl err) \<Rightarrow> (s, Inl err)
                | (s, Inr t) \<Rightarrow> (s, Inr (''queued'', Some t, tu_accepted t)))))"

definition retry_turn :: "string \<Rightarrow> (nat \<Rightarrow> int) \<Rightarrow> (nat \<Rightarrow> string) \<Rightarrow> service \<Rightarrow>
    service \<times> (turn_error + turn)" where
  "retry_turn tid clk uid s =
     (case turn_of s tid of
        None \<Rightarrow> (s, Inl ErrRetrySource)
      | Some ts \<Rightarrow>
          if status_of ts \<noteq> StatusFailed \<and> status_of ts \<noteq> StatusCancelled then (s, Inl ErrRetrySource)
          else start (tu_session (ts_turn ts)) (clone_input (ts_input ts)) clk uid s)"

text \<open>RetryMessage; \<open>source\<close> is the retry source: nil, or what its RetryInput returns.\<close>

definition retry_message :: "string \<Rightarrow> string \<Rightarrow> (string \<Rightarrow> string \<Rightarrow> string + turn_input) option \<Rightarrow>
    (nat \<Rightarrow> int) \<Rightarrow> (nat \<Rightarrow> string) \<Rightarrow> service \<Rightarrow> service \<times> (turn_error + turn)" where
  "retry_message sid mid source clk uid s =
     (case source of
        None \<Rightarrow> (s, Inl ErrRetrySource)
      | Some f \<Rightarrow>
          (case f sid mid of
             Inl _ \<Rightarrow> (s, Inl ErrRetrySource)
           | Inr i \<Rightarrow> start sid i clk uid s))"

text \<open>
  MessageRetrySource.RetryInput of retry.go; the message reader is a parameter that yields
  the text and the binary parts (path, MIME type, data) of the message.
\<close>

definition retry_input :: "(string \<Rightarrow> string \<Rightarrow> string + string \<times> (string \<times> string \<times> bytes) list) \<Rightarrow>
    inference \<Rightarrow> string \<Rightarrow> string \<Rightarrow> string + turn_input" where
  "retry_input reader zero sid mid =
     (case reader sid mid of
        Inl err \<Rightarrow> Inl err
      | Inr (txt, parts) \<Rightarrow>
          Inr \<lparr>ti_prompt = txt,
               ti_attachments = map (\<lambda>(path, mime, content).
                 \<lparr>at_path = path, at_name = [], at_mime = mime, at_content = content\<rparr>) parts,
               ti_references = [], ti_inference = zero, ti_scope = None\<rparr>)"

section \<open>Closing\<close>

fun finish_all :: "(nat \<Rightarrow> int) \<Rightarrow> nat \<Rightarrow> string list \<Rightarrow> service \<Rightarrow> service" where
  "finish_all clk n [] s = s"
| "finish_all clk n (i # ids) s =
     (case turn_of s i of
        Some ts \<Rightarrow>
          if \<not> terminal (status_of ts)
          then finish_all clk (Suc n) ids
                 (finish_locked i StatusCancelled ''session_closed'' [] (clk n) s)
          else finish_all clk n ids s
      | None \<Rightarrow> finish_all clk n ids s)"

text \<open>The locked section of CloseSession: the runtime that was removed, if there was one.\<close>

definition close_session_locked :: "string \<Rightarrow> (nat \<Rightarrow> int) \<Rightarrow> service \<Rightarrow>
    service \<times> (nat \<times> string) option" where
  "close_session_locked sid clk s =
     (case runtime_of s sid of
        None \<Rightarrow> (s, None)
      | Some (r, rt) \<Rightarrow>
          (finish_all clk 0 (rt_active rt # rt_pending rt)
             (s\<lparr>sv_sessions := AList.delete sid (sv_sessions s)\<rparr>),
           Some (r, rt_active rt)))"

definition close_session :: "string \<Rightarrow> (nat \<Rightarrow> int) \<Rightarrow> service \<Rightarrow> service" where
  "close_session sid clk s =
     (case close_session_locked sid clk s of
        (s, None) \<Rightarrow> s
      | (s, Some (r, active)) \<Rightarrow>
          let s = close_runtime r s
          in if active \<noteq> [] then log_call (CallCancel sid) s else s)"

definition close_service :: "(string \<Rightarrow> nat \<Rightarrow> int) \<Rightarrow> service \<Rightarrow> service" where
  "close_service clk s =
     (if sv_closed s then s
      else fold (\<lambda>sid. close_session sid (clk sid)) (keys_of (sv_sessions s)) (s\<lparr>sv_closed := True\<rparr>))"

section \<open>Events of the turns\<close>

datatype after_event =
    AfterNothing
  | AfterCancelRunner
  | AfterAdvance

definition handle_event_locked :: "string \<Rightarrow> kind \<Rightarrow> turn_event \<Rightarrow> int \<Rightarrow> int \<Rightarrow> service \<Rightarrow>
    service \<times> after_event" where
  "handle_event_locked sid k p now finish_now s =
     (let tid = tn_turn_id p in
      case turn_of s tid of
        None \<Rightarrow> (s, AfterNothing)
      | Some ts \<Rightarrow>
          if tu_session (ts_turn ts) \<noteq> sid \<or> terminal (status_of ts) then (s, AfterNothing)
          else
            (case k of
               KindTurnStarted \<Rightarrow>
                 (upd_turn tid (\<lambda>ts. ts\<lparr>ts_turn := (ts_turn ts)
                     \<lparr>tu_status := (if ts_cancel_requested ts then StatusCancelRequested
                                    else StatusRunning),
                       tu_started := unix_milli now\<rparr>\<rparr>) s,
                  if ts_cancel_requested ts then AfterCancelRunner else AfterNothing)
             | KindCancelAcknowledged \<Rightarrow>
                 (upd_turn tid (\<lambda>ts. ts\<lparr>ts_turn := (ts_turn ts)
                     \<lparr>tu_status := StatusCancelRequested\<rparr>\<rparr>) s, AfterNothing)
             | KindTurnCompleted \<Rightarrow>
                 (finish_locked tid StatusCompleted (tn_reason p) (tn_message_id p) finish_now s,
                  AfterAdvance)
             | KindTurnCancelled \<Rightarrow>
                 (finish_locked tid StatusCancelled (tn_reason p) (tn_message_id p) finish_now s,
                  AfterAdvance)
             | KindTurnFailed \<Rightarrow>
                 (finish_locked tid StatusFailed (tn_reason p) (tn_message_id p) finish_now s,
                  AfterAdvance)
             | _ \<Rightarrow> (s, AfterNothing)))"

definition handle_turn_event :: "string \<Rightarrow> kind \<Rightarrow> turn_event \<Rightarrow> (nat \<Rightarrow> int) \<Rightarrow> string \<Rightarrow>
    service \<Rightarrow> service" where
  "handle_turn_event sid k p clk eid s =
     (case handle_event_locked sid k p (clk 0) (clk 1) s of
        (s, AfterNothing) \<Rightarrow> s
      | (s, AfterCancelRunner) \<Rightarrow> log_call (CallCancel sid) s
      | (s, AfterAdvance) \<Rightarrow> advance sid (tn_turn_id p) (clk 2) eid s)"

text \<open>One iteration of watch for the runtime \<open>r\<close>.\<close>

datatype watch_result = WatchWait | WatchAgain | WatchExit

definition watch_step :: "nat \<Rightarrow> (nat \<Rightarrow> int) \<Rightarrow> string \<Rightarrow> service \<Rightarrow> service \<times> watch_result" where
  "watch_step r clk eid s =
     (case (sv_heap s r, sv_events s) of
        (Some (sid, rt), Some h) \<Rightarrow>
          (case hub_next (rt_sub rt) (rt_ctx_done rt) h of
             (h, NextWait) \<Rightarrow> (s\<lparr>sv_events := Some h\<rparr>, WatchWait)
           | (h, NextError err) \<Rightarrow>
               (upd_runtime r (\<lambda>rt. rt\<lparr>rt_done := True\<rparr>) (s\<lparr>sv_events := Some h\<rparr>), WatchExit)
           | (h, NextEvent e) \<Rightarrow>
               let s = s\<lparr>sv_events := Some h\<rparr> in
               (case ev_payload e of
                  PTurn p \<Rightarrow>
                    if tn_turn_id p = [] then (s, WatchAgain)
                    else (handle_turn_event sid (ev_kind e) p clk eid s, WatchAgain)
                | _ \<Rightarrow> (s, WatchAgain)))
      | _ \<Rightarrow> (s, WatchExit))"

section \<open>Dispatched goroutines\<close>

text \<open>
  The goroutine of dispatch up to the runner's Run. \<open>True\<close> when Run was called.
\<close>

definition task_begin :: "turn_task \<Rightarrow> (nat \<Rightarrow> int) \<Rightarrow> (nat \<Rightarrow> string) \<Rightarrow> service \<Rightarrow> service \<times> bool" where
  "task_begin task clk uid s =
     (case task of (sid, tid, i) \<Rightarrow>
        (case resolve_attachments i of
           Inl _ \<Rightarrow>
             (case publish_event sid (turn_news KindTurnFailed tid ''attachment_unavailable'')
                     (clk 0) (uid 0) s of
                (s, Inl _) \<Rightarrow>
                  (advance sid tid (clk 2) (uid 1)
                     (finish_turn tid StatusFailed ''attachment_unavailable'' [] (clk 1) s), False)
              | (s, Inr _) \<Rightarrow> (s, False))
         | Inr as \<Rightarrow> (log_call (CallRun sid tid (ti_prompt i) as) s, True)))"

datatype run_error = RunCanceled | RunFailed

definition run_outcome :: "run_error \<Rightarrow> status \<times> string" where
  "run_outcome err =
     (case err of
        RunCanceled \<Rightarrow> (StatusCancelled, ''cancelled_before_start'')
      | RunFailed \<Rightarrow> (StatusFailed, ''run_failed''))"

text \<open>The goroutine after Run returned \<open>err\<close>; \<open>removed\<close> answers RemoveQueuedTurn.\<close>

definition task_returned :: "string \<Rightarrow> string \<Rightarrow> run_error option \<Rightarrow> bool \<Rightarrow> (nat \<Rightarrow> int) \<Rightarrow>
    (nat \<Rightarrow> string) \<Rightarrow> service \<Rightarrow> service" where
  "task_returned sid tid err removed clk uid s =
     (case turn_of s tid of
        None \<Rightarrow> s
      | Some ts \<Rightarrow>
          if terminal (status_of ts) then s
          else if ts_cancel_requested ts then
            let s = log_call (CallRemoveQueued sid tid) s in
            if removed then
              advance sid tid (clk 2) (uid 1)
                (publish_turn_cancelled sid tid ''queue_removed'' (clk 1) (uid 0)
                  (finish_turn tid StatusCancelled ''queue_removed'' [] (clk 0) s))
            else log_call (CallCancel sid) s
          else
            (case err of
               None \<Rightarrow> s
             | Some e \<Rightarrow>
                 (case run_outcome e of
                    (st, reason) \<Rightarrow>
                      advance sid tid (clk 2) (uid 1)
                        (fst (publish_event sid (turn_news (terminal_kind st) tid reason) (clk 1) (uid 0)
                          (finish_turn tid st reason [] (clk 0) s))))))"

end
