(* ===== verification/Turn_Threads.thy ===== *)
theory Turn_Threads
  imports Turn_Service
begin

text \<open>
  The turn service under concurrency. Each call of the service, each dispatched goroutine
  and each watch iteration is a thread: the list of the sections it still has to run
  (\<open>cont\<close>). A step of the system runs the next section of one thread, so every
  interleaving at the granularity of the code's locks is a sequence of steps. The
  invariant below holds in every reachable state.
\<close>

section \<open>Sections and threads\<close>

datatype cont =
    KEnsure string turn_input
  | KSubscribe string turn_input
  | KInstall string string turn_input
  | KAccept string nat bool turn_input
  | KCloseRuntime nat
  | KReadQueue string "string option"
  | KPublish string new_event "string option"
  | KAccepted string nat
  | KDispatch string
  | KCancel string
  | KRemove string string status
  | KCancelRunner string
  | KFinish string status string
  | KAdvance string string
  | KRun turn_task
  | KPublishFailed string string
  | KReturned string string
  | KReorder string nat "string list"
  | KCloseSession string
  | KClose
  | KEvent string kind turn_event
  | KRetry string

type_synonym thread = "cont list"

text \<open>What the environment supplies to a section: clock readings, a uuid, answers.\<close>

record step_env =
  en_clk :: "nat \<Rightarrow> int"
  en_id :: string
  en_yes :: bool
  en_err :: "run_error option"

fun exec_section :: "step_env \<Rightarrow> cont \<Rightarrow> service \<Rightarrow> service \<times> cont list \<times> thread list" where
  "exec_section e (KEnsure sid i) s =
     (case start_check (start_input i) s of
        Some _ \<Rightarrow> (s, [], [])
      | None \<Rightarrow>
          (case ensure_lookup sid s of
             Inl _ \<Rightarrow> (s, [], [])
           | Inr (Some r) \<Rightarrow> (s, [KAccept sid r False (start_input i)], [])
           | Inr None \<Rightarrow> (s, [KSubscribe sid (start_input i)], [])))"
| "exec_section e (KSubscribe sid i) s =
     (case ensure_subscribe sid (en_clk e 0) (en_id e) s of
        (s, Inl _) \<Rightarrow> (s, [], [])
      | (s, Inr k) \<Rightarrow> (s, [KInstall sid k i], []))"
| "exec_section e (KInstall sid k i) s =
     (case ensure_install sid k s of (s, r, c) \<Rightarrow> (s, [KAccept sid r c i], []))"
| "exec_section e (KAccept sid r created i) s =
     (case accept_locked sid r created (new_turn_state (en_id e) sid (en_clk e 0) i) (en_clk e 1) s of
        (s, Rejected _ cleanup) \<Rightarrow> (s, if cleanup then [KCloseRuntime r] else [], [])
      | (s, Accepted go) \<Rightarrow>
          (s, KReadQueue sid (Some (en_id e)) # (if go then [KDispatch (en_id e)] else []), []))"
| "exec_section e (KCloseRuntime r) s = (close_runtime r s, [], [])"
| "exec_section e (KReadQueue sid t) s =
     (s, [KPublish sid (queue_news sid (queue_locked sid s)) t], [])"
| "exec_section e (KPublish sid news t) s =
     (case publish_event sid news (en_clk e 0) (en_id e) s of
        (s, Inl _) \<Rightarrow> (s, [], [])
      | (s, Inr v) \<Rightarrow> (s, case t of None \<Rightarrow> [] | Some tid \<Rightarrow> [KAccepted tid (ev_seq v)], []))"
| "exec_section e (KAccepted tid n) s = (set_accepted tid n s, [], [])"
| "exec_section e (KDispatch tid) s =
     (let s' = dispatch_turn tid s
      in (s', [], map (\<lambda>t. [KRun t]) (drop (length (sv_tasks s)) (sv_tasks s'))))"
| "exec_section e (KCancel tid) s =
     (case cancel_locked tid (en_clk e 0) s of
        (s, CancelError _) \<Rightarrow> (s, [], [])
      | (s, CancelDone _) \<Rightarrow> (s, [], [])
      | (s, CancelUnqueued _ sid) \<Rightarrow>
          (s, [KPublish sid (turn_news KindCancelAcknowledged tid ''queue_removed'') None,
               KPublish sid (turn_news KindTurnCancelled tid ''queue_removed'') None,
               KReadQueue sid None], [])
      | (s, CancelMarked sid previous) \<Rightarrow>
          (s, [KPublish sid (turn_news KindCancelAcknowledged tid ''user_requested'') None,
               KRemove sid tid previous], []))"
| "exec_section e (KRemove sid tid previous) s =
     (log_call (CallRemoveQueued sid tid) s,
      if en_yes e then
        [KFinish tid StatusCancelled ''queue_removed'',
         KPublish sid (turn_news KindTurnCancelled tid ''queue_removed'') None, KAdvance sid tid]
      else if previous = StatusRunning then [KCancelRunner sid] else [], [])"
| "exec_section e (KCancelRunner sid) s = (log_call (CallCancel sid) s, [], [])"
| "exec_section e (KFinish tid st reason) s = (finish_turn tid st reason [] (en_clk e 0) s, [], [])"
| "exec_section e (KAdvance sid tid) s =
     (case advance_locked sid tid s of
        (s, None) \<Rightarrow> (s, [], [])
      | (s, Some nxt) \<Rightarrow> (s, KReadQueue sid None # (if nxt \<noteq> [] then [KDispatch nxt] else []), []))"
| "exec_section e (KRun task) s =
     (case task of (sid, tid, i) \<Rightarrow>
        (case resolve_attachments i of
           Inl _ \<Rightarrow> (s, [KPublishFailed sid tid], [])
         | Inr as \<Rightarrow> (log_call (CallRun sid tid (ti_prompt i) as) s, [KReturned sid tid], [])))"
| "exec_section e (KPublishFailed sid tid) s =
     (case publish_event sid (turn_news KindTurnFailed tid ''attachment_unavailable'')
             (en_clk e 0) (en_id e) s of
        (s, Inl _) \<Rightarrow>
          (s, [KFinish tid StatusFailed ''attachment_unavailable'', KAdvance sid tid], [])
      | (s, Inr _) \<Rightarrow> (s, [], []))"
| "exec_section e (KReturned sid tid) s =
     (s,
      case turn_of s tid of
        None \<Rightarrow> []
      | Some ts \<Rightarrow>
          if terminal (status_of ts) then []
          else if ts_cancel_requested ts then [KRemove sid tid StatusRunning]
          else (case en_err e of
                  None \<Rightarrow> []
                | Some err \<Rightarrow>
                    [KFinish tid (fst (run_outcome err)) (snd (run_outcome err)),
                     KPublish sid (turn_news (terminal_kind (fst (run_outcome err))) tid
                       (snd (run_outcome err))) None,
                     KAdvance sid tid]),
      [])"
| "exec_section e (KReorder sid n ids) s =
     (case reorder_locked sid n ids s of
        (s, _, changed) \<Rightarrow> (s, if changed then [KReadQueue sid None] else [], []))"
| "exec_section e (KCloseSession sid) s =
     (case close_session_locked sid (en_clk e) s of
        (s, None) \<Rightarrow> (s, [], [])
      | (s, Some (r, active)) \<Rightarrow>
          (s, KCloseRuntime r # (if active \<noteq> [] then [KCancelRunner sid] else []), []))"
| "exec_section e KClose s =
     (if sv_closed s then (s, [], [])
      else (s\<lparr>sv_closed := True\<rparr>, map KCloseSession (keys_of (sv_sessions s)), []))"
| "exec_section e (KEvent sid k p) s =
     (case handle_event_locked sid k p (en_clk e 0) (en_clk e 1) s of
        (s, AfterNothing) \<Rightarrow> (s, [], [])
      | (s, AfterCancelRunner) \<Rightarrow> (s, [KCancelRunner sid], [])
      | (s, AfterAdvance) \<Rightarrow> (s, [KAdvance sid (tn_turn_id p)], []))"
| "exec_section e (KRetry tid) s =
     (s,
      case turn_of s tid of
        None \<Rightarrow> []
      | Some ts \<Rightarrow>
          if status_of ts \<noteq> StatusFailed \<and> status_of ts \<noteq> StatusCancelled then []
          else [KEnsure (tu_session (ts_turn ts)) (clone_input (ts_input ts))],
      [])"

text \<open>The sections with which a call of the service or an event of the watch loop begins.\<close>

fun entry_section :: "cont \<Rightarrow> bool" where
  "entry_section (KEnsure _ _) = True"
| "entry_section (KCancel _) = True"
| "entry_section (KReorder _ _ _) = True"
| "entry_section (KCloseSession _) = True"
| "entry_section KClose = True"
| "entry_section (KEvent _ _ _) = True"
| "entry_section (KRetry _) = True"
| "entry_section _ = False"

text \<open>The turn a section is bound to once the turn has left the pending list.\<close>

fun section_turn :: "cont \<Rightarrow> string option" where
  "section_turn (KDispatch t) = Some t"
| "section_turn (KRemove _ t _) = Some t"
| "section_turn (KFinish t _ _) = Some t"
| "section_turn (KAdvance _ t) = Some t"
| "section_turn (KRun task) = Some (fst (snd task))"
| "section_turn (KPublishFailed _ t) = Some t"
| "section_turn (KReturned _ t) = Some t"
| "section_turn _ = None"

abbreviation sections :: "thread list \<Rightarrow> cont set" where
  "sections ths \<equiv> \<Union> (set ` set ths)"

definition bound_turns :: "cont set \<Rightarrow> string set" where
  "bound_turns C = {t. \<exists>k \<in> C. section_turn k = Some t}"

text \<open>
  The environment: a uuid handed to Start is fresh, and no event names a pending turn
  (turn events come from the service itself and from runs, which only dispatched turns have).
\<close>

definition fresh_turn :: "service \<Rightarrow> cont set \<Rightarrow> string \<Rightarrow> bool" where
  "fresh_turn s C t \<longleftrightarrow>
     t \<noteq> [] \<and> turn_of s t = None \<and> t \<notin> bound_turns C \<and>
     (\<forall>r sid rt. sv_heap s r = Some (sid, rt) \<longrightarrow> t \<noteq> rt_active rt \<and> t \<notin> set (rt_pending rt))"

fun env_ok :: "step_env \<Rightarrow> cont \<Rightarrow> service \<Rightarrow> cont set \<Rightarrow> bool" where
  "env_ok e (KAccept _ _ _ _) s C = fresh_turn s C (en_id e)"
| "env_ok e (KEvent sid _ p) s C =
     (\<forall>r rt. runtime_of s sid = Some (r, rt) \<longrightarrow> tn_turn_id p \<notin> set (rt_pending rt))"
| "env_ok e _ s C = True"

inductive sys_step :: "service \<times> thread list \<Rightarrow> service \<times> thread list \<Rightarrow> bool" where
  sys_call: "entry_section k \<Longrightarrow> sys_step (s, ths) (s, ths @ [[k]])"
| sys_exec: "env_ok e k s (sections (A @ (k # ks) # B)) \<Longrightarrow>
    exec_section e k s = (s', todo, spawned) \<Longrightarrow>
    sys_step (s, A @ (k # ks) # B) (s', A @ (todo @ ks) # B @ spawned)"

inductive sys_reach :: "hub option \<Rightarrow> turn_config \<Rightarrow> service \<times> thread list \<Rightarrow> bool" for h c where
  sys_init: "sys_reach h c (new_service h c, [])"
| sys_next: "sys_reach h c x \<Longrightarrow> sys_step x y \<Longrightarrow> sys_reach h c y"

section \<open>Invariant\<close>

definition live_turn :: "service \<Rightarrow> string \<Rightarrow> bool" where
  "live_turn s t \<longleftrightarrow> (\<exists>ts. turn_of s t = Some ts \<and> \<not> terminal (status_of ts))"

definition turn_ok :: "string \<Rightarrow> turn_state \<Rightarrow> bool" where
  "turn_ok t ts \<longleftrightarrow> t \<noteq> [] \<and> tu_id (ts_turn ts) = t \<and> ts_done ts = terminal (status_of ts)"

definition tracked :: "service \<Rightarrow> string \<Rightarrow> string \<Rightarrow> bool" where
  "tracked s sid t \<longleftrightarrow>
     (\<exists>r rt. sv_heap s r = Some (sid, rt) \<and> (t = rt_active rt \<or> t \<in> set (rt_pending rt)))"

definition service_ok :: "service \<Rightarrow> bool" where
  "service_ok s \<longleftrightarrow>
     distinct (keys_of (sv_sessions s)) \<and> distinct (keys_of (sv_turns s)) \<and>
     (\<forall>sid r. map_of (sv_sessions s) sid = Some r \<longrightarrow> (\<exists>rt. sv_heap s r = Some (sid, rt))) \<and>
     (\<forall>r. sv_heap s r \<noteq> None \<longrightarrow> r < sv_next s) \<and>
     (\<forall>t ts. turn_of s t = Some ts \<longrightarrow> turn_ok t ts) \<and>
     (\<forall>t ts. turn_of s t = Some ts \<longrightarrow> \<not> terminal (status_of ts) \<longrightarrow>
        tracked s (tu_session (ts_turn ts)) t) \<and>
     length (sv_turns s) \<le> sv_max_turns s"

definition pending_ok :: "service \<Rightarrow> string \<Rightarrow> string \<Rightarrow> bool" where
  "pending_ok s sid p \<longleftrightarrow>
     (\<exists>ts. turn_of s p = Some ts \<and> tu_session (ts_turn ts) = sid \<and> status_of ts = StatusQueued \<and>
        \<not> ts_cancel_requested ts \<and> \<not> ts_dispatched ts)"

definition active_ok :: "service \<Rightarrow> cont set \<Rightarrow> string \<Rightarrow> string \<Rightarrow> bool" where
  "active_ok s C sid a \<longleftrightarrow>
     (\<exists>ts. turn_of s a = Some ts \<and> tu_session (ts_turn ts) = sid \<and> \<not> terminal (status_of ts) \<and>
        (ts_dispatched ts \<or> KDispatch a \<in> C)) \<or>
     KAdvance sid a \<in> C"

definition runtime_ok :: "service \<Rightarrow> cont set \<Rightarrow> string \<Rightarrow> session_runtime \<Rightarrow> bool" where
  "runtime_ok s C sid rt \<longleftrightarrow>
     distinct (rt_pending rt) \<and> rt_active rt \<notin> set (rt_pending rt) \<and> \<not> rt_paused rt \<and>
     (rt_active rt = [] \<longrightarrow> rt_pending rt = []) \<and>
     length (rt_pending rt) + (if rt_active rt \<noteq> [] then 1 else 0) \<le> sv_max_queue s \<and>
     (\<forall>p \<in> set (rt_pending rt). pending_ok s sid p) \<and>
     (rt_active rt \<noteq> [] \<longrightarrow> active_ok s C sid (rt_active rt))"

text \<open>What holds of each section still to be run.\<close>

fun section_session :: "cont \<Rightarrow> (string \<times> string) option" where
  "section_session (KRemove sid t _) = Some (sid, t)"
| "section_session (KAdvance sid t) = Some (sid, t)"
| "section_session (KRun task) = Some (fst task, fst (snd task))"
| "section_session (KPublishFailed sid t) = Some (sid, t)"
| "section_session (KReturned sid t) = Some (sid, t)"
| "section_session _ = None"

fun section_data :: "service \<Rightarrow> cont \<Rightarrow> bool" where
  "section_data s (KAccept sid r _ _) = (\<exists>rt. sv_heap s r = Some (sid, rt))"
| "section_data s (KFinish _ st _) = terminal st"
| "section_data s _ = True"

definition section_ok :: "service \<Rightarrow> cont \<Rightarrow> bool" where
  "section_ok s k \<longleftrightarrow>
     section_data s k \<and>
     (\<forall>t. section_turn k = Some t \<longrightarrow>
        (\<forall>sid r rt. runtime_of s sid = Some (r, rt) \<longrightarrow> t \<notin> set (rt_pending rt))) \<and>
     (\<forall>sid t. section_session k = Some (sid, t) \<longrightarrow>
        (\<forall>ts. turn_of s t = Some ts \<longrightarrow> tu_session (ts_turn ts) = sid))"

text \<open>
  When a thread comes to advance past a turn, the turn is no longer live: it was, or will
  be, finished by an earlier section of the thread; and who finishes a turn advances.
\<close>

fun advance_ok :: "(string \<Rightarrow> bool) \<Rightarrow> thread \<Rightarrow> bool" where
  "advance_ok l [] = True"
| "advance_ok l (KAdvance sid t # ks) = (\<not> l t \<and> advance_ok l ks)"
| "advance_ok l (KFinish t st reason # ks) =
     ((\<exists>sid. KAdvance sid t \<in> set ks) \<and> advance_ok (l(t := False)) ks)"
| "advance_ok l (k # ks) = advance_ok l ks"

definition state_ok :: "service \<Rightarrow> cont set \<Rightarrow> bool" where
  "state_ok s C \<longleftrightarrow>
     service_ok s \<and> (\<forall>k \<in> C. section_ok s k) \<and>
     (\<forall>sid r rt. runtime_of s sid = Some (r, rt) \<longrightarrow> runtime_ok s C sid rt)"

definition sys_inv :: "service \<times> thread list \<Rightarrow> bool" where
  "sys_inv x \<longleftrightarrow>
     (case x of (s, ths) \<Rightarrow>
        state_ok s (sections ths) \<and> (\<forall>ks \<in> set ths. advance_ok (live_turn s) ks))"

section \<open>General facts\<close>

lemma bound_turns_simps [simp]:
  "bound_turns {} = {}"
  "t \<in> bound_turns (insert k C) \<longleftrightarrow> section_turn k = Some t \<or> t \<in> bound_turns C"
  "t \<in> bound_turns (C \<union> D) \<longleftrightarrow> t \<in> bound_turns C \<or> t \<in> bound_turns D"
  by (auto simp: bound_turns_def)

lemma advance_ok_less:
  "\<forall>t \<in> bound_turns (set ks). l' t \<longrightarrow> l t \<Longrightarrow> advance_ok l ks \<Longrightarrow> advance_ok l' ks"
proof (induction l ks arbitrary: l' rule: advance_ok.induct)
  case (3 l t st reason ks)
  have "\<forall>u \<in> bound_turns (set ks). (l'(t := False)) u \<longrightarrow> (l(t := False)) u"
    using "3.prems"(1) by auto
  then have "advance_ok (l'(t := False)) ks"
    using "3.IH" [of "l'(t := False)"] "3.prems"(2) by (simp only: advance_ok.simps)
  with "3.prems"(2) show ?case by (simp only: advance_ok.simps)
qed (auto simp: bound_turns_def)

lemma advance_ok_live:
  assumes "advance_ok (live_turn s) ks" "set ks \<subseteq> C"
    and "\<And>t. live_turn s' t \<Longrightarrow> live_turn s t \<or> t \<notin> bound_turns C"
  shows "advance_ok (live_turn s') ks"
proof (rule advance_ok_less [OF _ assms(1)])
  have "bound_turns (set ks) \<subseteq> bound_turns C" using assms(2) by (auto simp: bound_turns_def)
  then show "\<forall>t \<in> bound_turns (set ks). live_turn s' t \<longrightarrow> live_turn s t" using assms(3) by blast
qed

lemma runtime_of_simps [simp]:
  "runtime_of (s\<lparr>sv_events := x\<rparr>) = runtime_of s"
  "runtime_of (s\<lparr>sv_calls := y\<rparr>) = runtime_of s"
  "runtime_of (s\<lparr>sv_tasks := z\<rparr>) = runtime_of s"
  "runtime_of (s\<lparr>sv_turns := w\<rparr>) = runtime_of s"
  "runtime_of (s\<lparr>sv_closed := c\<rparr>) = runtime_of s"
  by (simp_all add: runtime_of_def fun_eq_iff cong: option.case_cong)

lemma runtime_of_SomeD:
  "runtime_of s sid = Some (r, rt) \<Longrightarrow>
   map_of (sv_sessions s) sid = Some r \<and> (\<exists>sid'. sv_heap s r = Some (sid', rt))"
  by (auto simp: runtime_of_def split: option.splits)

lemma service_ok_runtime:
  "service_ok s \<Longrightarrow> runtime_of s sid = Some (r, rt) \<longleftrightarrow>
   map_of (sv_sessions s) sid = Some r \<and> sv_heap s r = Some (sid, rt)"
  by (fastforce simp: runtime_of_def service_ok_def split: option.splits)

lemma runtime_ok_mono:
  "runtime_ok s C sid rt \<Longrightarrow> (\<And>a. KDispatch a \<in> C \<Longrightarrow> KDispatch a \<in> D) \<Longrightarrow>
   (\<And>a. KAdvance sid a \<in> C \<Longrightarrow> KAdvance sid a \<in> D) \<Longrightarrow> runtime_ok s D sid rt"
  by (auto simp: runtime_ok_def active_ok_def)

lemma state_ok_sections:
  assumes "state_ok s C"
    and "\<And>a. KDispatch a \<in> C \<Longrightarrow> KDispatch a \<in> D"
    and "\<And>sid a. KAdvance sid a \<in> C \<Longrightarrow> KAdvance sid a \<in> D"
    and "\<And>k. k \<in> D \<Longrightarrow> k \<notin> C \<Longrightarrow> section_ok s k"
  shows "state_ok s D"
  using assms runtime_ok_mono unfolding state_ok_def by metis

text \<open>Sections that bind no turn hold of every service.\<close>

lemma section_ok_unbound [simp]:
  "section_turn k = None \<Longrightarrow> section_session k = None \<Longrightarrow> section_data s k \<Longrightarrow> section_ok s k"
  by (simp add: section_ok_def)

text \<open>The parts of the service that the invariant reads.\<close>

definition same_core :: "service \<Rightarrow> service \<Rightarrow> bool" where
  "same_core s s' \<longleftrightarrow>
     sv_turns s' = sv_turns s \<and> sv_sessions s' = sv_sessions s \<and> sv_heap s' = sv_heap s \<and>
     sv_next s' = sv_next s \<and> sv_max_queue s' = sv_max_queue s \<and> sv_max_turns s' = sv_max_turns s"

lemma same_core_ok:
  assumes "same_core s s'"
  shows "service_ok s' = service_ok s" "section_data s' k = section_data s k"
    "section_ok s' k = section_ok s k"
    "runtime_of s' = runtime_of s" "runtime_ok s' = runtime_ok s" "live_turn s' = live_turn s"
proof -
  note eq = assms [unfolded same_core_def]
  show r: "runtime_of s' = runtime_of s"
    by (rule ext) (simp add: runtime_of_def eq cong: option.case_cong)
  show "service_ok s' = service_ok s" using eq by (simp add: service_ok_def tracked_def)
  show d: "section_data s' k = section_data s k" using eq by (cases k) simp_all
  show "section_ok s' k = section_ok s k" using eq r d by (simp add: section_ok_def)
  show "runtime_ok s' = runtime_ok s"
    using eq by (simp add: fun_eq_iff runtime_ok_def pending_ok_def active_ok_def)
  show "live_turn s' = live_turn s" using eq by (simp add: live_turn_def fun_eq_iff)
qed

lemma same_core_state_ok: "same_core s s' \<Longrightarrow> state_ok s' C = state_ok s C"
  by (simp add: state_ok_def same_core_ok)

lemma same_core_intros [intro, simp]:
  "same_core s s"
  "same_core s (s\<lparr>sv_events := x\<rparr>)"
  "same_core s (log_call c s)"
  "same_core s (s\<lparr>sv_closed := b\<rparr>)"
  by (simp_all add: same_core_def log_call_def)

lemma publish_event_core: "publish_event sid news now eid s = (s', res) \<Longrightarrow> same_core s s'"
  by (auto simp: publish_event_def split: option.splits prod.splits)

lemma ensure_subscribe_core: "ensure_subscribe sid now i s = (s', res) \<Longrightarrow> same_core s s'"
  by (auto simp: ensure_subscribe_def split: option.splits prod.splits sum.splits)

end
