(* ===== verification/Turn_Invariant.thy ===== *)
theory Turn_Invariant
  imports Turn_Threads
begin

text \<open>
  The invariant of the concurrent turn service is kept by every section of the code and
  so holds in every reachable state. Sections that only publish or ask the runner leave
  the core of the service alone; sections that change one turn and sections that change a
  runtime each have a general lemma; closing a session and accepting a turn combine them.
\<close>

section \<open>Every section keeps the invariant\<close>

declare map_of_eq_Some_iff [simp del]

definition step_ok ::
  "service \<Rightarrow> cont set \<Rightarrow> thread \<Rightarrow> service \<Rightarrow> cont list \<Rightarrow> thread list \<Rightarrow> bool" where
  "step_ok s C ks s' todo spawned \<longleftrightarrow>
     state_ok s' (C \<union> set todo \<union> sections spawned) \<and> advance_ok (live_turn s') (todo @ ks) \<and>
     (\<forall>t \<in> set spawned. advance_ok (live_turn s') t) \<and>
     (\<forall>t. live_turn s' t \<longrightarrow> live_turn s t \<or> t \<notin> bound_turns C)"

text \<open>Sections that leave the core of the service alone.\<close>

lemma step_ok_quiet:
  assumes "state_ok s (insert k C)" "same_core s s'"
    and "\<forall>a. k \<noteq> KDispatch a" "\<forall>sid a. k \<noteq> KAdvance sid a"
    and "\<forall>k' \<in> set todo. section_ok s k'" "advance_ok (live_turn s) (todo @ ks)"
  shows "step_ok s C ks s' todo []"
proof -
  have "state_ok s (C \<union> set todo)"
    by (rule state_ok_sections [OF assms(1)]) (use assms(3,4,5) in auto)
  with assms(2,6) show ?thesis by (simp add: step_ok_def same_core_ok same_core_state_ok)
qed

lemma section_ok_insert: "state_ok s (insert k C) \<Longrightarrow> section_ok s k"
  by (simp add: state_ok_def)

lemma section_ok_weaken:
  "section_ok s k \<Longrightarrow> section_turn k' = section_turn k \<or> section_turn k' = None \<Longrightarrow>
   section_session k' = section_session k \<or> section_session k' = None \<Longrightarrow>
   section_data s k' \<Longrightarrow> section_ok s k'"
  unfolding section_ok_def by (metis option.distinct(1))

lemma advance_ok_Cons:
  "advance_ok l (k # ks) \<Longrightarrow> \<forall>t st reason. k \<noteq> KFinish t st reason \<Longrightarrow> advance_ok l ks"
  by (cases k) auto

lemma advance_ok_clear: "advance_ok l ks \<Longrightarrow> advance_ok (l(t := False)) ks"
  by (erule advance_ok_less [rotated]) simp

lemma run_outcome_terminal [simp]: "terminal (fst (run_outcome err))"
  by (cases err) (simp_all add: run_outcome_def terminal_def)

lemma quiet_sections:
  assumes ok: "state_ok s (insert k C)" "advance_ok (live_turn s) (k # ks)"
    and ex: "(s', todo, spawned) = exec_section e k s"
  shows
    "k = KEnsure sid i \<Longrightarrow> step_ok s C ks s' todo spawned"
    "k = KSubscribe sid i \<Longrightarrow> step_ok s C ks s' todo spawned"
    "k = KReadQueue sid q \<Longrightarrow> step_ok s C ks s' todo spawned"
    "k = KPublish sid news q \<Longrightarrow> step_ok s C ks s' todo spawned"
    "k = KRemove sid t prev \<Longrightarrow> step_ok s C ks s' todo spawned"
    "k = KCancelRunner sid \<Longrightarrow> step_ok s C ks s' todo spawned"
    "k = KRun task \<Longrightarrow> step_ok s C ks s' todo spawned"
    "k = KPublishFailed sid t \<Longrightarrow> step_ok s C ks s' todo spawned"
    "k = KReturned sid t \<Longrightarrow> step_ok s C ks s' todo spawned"
    "k = KClose \<Longrightarrow> step_ok s C ks s' todo spawned"
    "k = KRetry t \<Longrightarrow> step_ok s C ks s' todo spawned"
proof -
  note so = section_ok_insert [OF ok(1)]
  note adv = ok(2) [THEN advance_ok_Cons]
  note clear = advance_ok_clear [of "live_turn s" ks]
  note quiet = step_ok_quiet [OF ok(1)]
  have srv: "service_ok s" using ok(1) by (simp add: state_ok_def)
  show "step_ok s C ks s' todo spawned" if k: "k = KEnsure sid i"
  proof (cases "ensure_lookup sid s")
    case (Inr o')
    show ?thesis
    proof (cases o')
      case (Some r)
      then have "map_of (sv_sessions s) sid = Some r" using Inr
        by (auto simp: ensure_lookup_def split: if_splits)
      then have "\<exists>rt. sv_heap s r = Some (sid, rt)" using srv by (simp add: service_ok_def)
      with k ex Inr Some adv show ?thesis
        by (auto intro!: quiet section_ok_unbound split: option.splits)
    qed (use k ex Inr adv in \<open>auto intro!: quiet split: option.splits\<close>)
  qed (use k ex adv in \<open>auto intro!: quiet split: option.splits\<close>)
  show "step_ok s C ks s' todo spawned" if "k = KSubscribe sid i"
    using that ex adv
    by (auto intro!: quiet dest!: ensure_subscribe_core split: prod.splits sum.splits)
  show "step_ok s C ks s' todo spawned" if "k = KReadQueue sid q"
    using that ex adv by (auto intro!: quiet)
  show "step_ok s C ks s' todo spawned" if "k = KPublish sid news q"
    using that ex adv
    by (auto intro!: quiet dest!: publish_event_core split: prod.splits sum.splits option.splits)
  show "step_ok s C ks s' todo spawned" if k: "k = KRemove sid t prev"
    using k ex adv clear
    by (auto intro!: quiet section_ok_weaken [OF so] split: if_splits simp: terminal_def)
  show "step_ok s C ks s' todo spawned" if "k = KCancelRunner sid"
    using that ex adv by (auto intro!: quiet)
  show "step_ok s C ks s' todo spawned" if k: "k = KRun task"
    using k ex adv
    by (auto intro!: quiet section_ok_weaken [OF so] split: prod.splits sum.splits)
  show "step_ok s C ks s' todo spawned" if "k = KPublishFailed sid t"
    using that ex adv clear
    by (auto intro!: quiet section_ok_weaken [OF so] dest!: publish_event_core
        split: prod.splits sum.splits simp: terminal_def)
  show "step_ok s C ks s' todo spawned" if k: "k = KReturned sid t"
    using k ex adv clear
    by (auto intro!: quiet section_ok_weaken [OF so] split: option.splits if_splits)
  show "step_ok s C ks s' todo spawned" if "k = KClose"
  proof -
    have "advance_ok l (map (KCloseSession \<circ> fst) xs @ ks) = advance_ok l ks"
      for l and xs :: "(string \<times> nat) list"
      by (induction xs) auto
    with that ex adv show ?thesis by (auto intro!: quiet split: if_splits)
  qed
  show "step_ok s C ks s' todo spawned" if "k = KRetry t"
    using that ex adv by (auto intro!: quiet split: option.splits if_splits)
qed


subsection \<open>Changing one turn\<close>

lemma trackedI:
  "sv_heap s r = Some (sid, rt) \<Longrightarrow> t = rt_active rt \<or> t \<in> set (rt_pending rt) \<Longrightarrow> tracked s sid t"
  by (auto simp: tracked_def)

lemma map_of_map_entry:
  "map_of (AList.map_entry k f m) i = (if i = k then map_option f (map_of m k) else map_of m i)"
  by (induction m) auto

lemma length_map_entry [simp]: "length (AList.map_entry k f m) = length m"
  by (induction m) auto


lemma keys_map_entry [simp]: "keys_of (AList.map_entry k f m) = keys_of m"
  by (induction m) auto

lemma upd_turn_simps [simp]:
  "turn_of (upd_turn t f s) u = (if u = t then map_option f (turn_of s t) else turn_of s u)"
  "sv_sessions (upd_turn t f s) = sv_sessions s" "sv_heap (upd_turn t f s) = sv_heap s"
  "sv_next (upd_turn t f s) = sv_next s" "sv_max_queue (upd_turn t f s) = sv_max_queue s"
  "sv_max_turns (upd_turn t f s) = sv_max_turns s" "runtime_of (upd_turn t f s) = runtime_of s"
  "keys_of (sv_turns (upd_turn t f s)) = keys_of (sv_turns s)"
  "length (sv_turns (upd_turn t f s)) = length (sv_turns s)"
  by (simp_all add: upd_turn_def map_of_map_entry)

text \<open>An update that keeps the identity of a turn and never revives it.\<close>

definition turn_update :: "(turn_state \<Rightarrow> turn_state) \<Rightarrow> bool" where
  "turn_update f \<longleftrightarrow>
     (\<forall>ts. tu_id (ts_turn (f ts)) = tu_id (ts_turn ts) \<and>
        tu_session (ts_turn (f ts)) = tu_session (ts_turn ts) \<and>
        (ts_dispatched ts \<longrightarrow> ts_dispatched (f ts)))"

lemma service_okD:
  assumes "service_ok s"
  shows "distinct (keys_of (sv_sessions s))" "distinct (keys_of (sv_turns s))"
    "map_of (sv_sessions s) sid = Some r \<Longrightarrow> \<exists>rt. sv_heap s r = Some (sid, rt)"
    "sv_heap s r = Some x \<Longrightarrow> r < sv_next s"
    "turn_of s t = Some ts \<Longrightarrow> turn_ok t ts"
    "turn_of s t = Some ts \<Longrightarrow> \<not> terminal (status_of ts) \<Longrightarrow> tracked s (tu_session (ts_turn ts)) t"
    "length (sv_turns s) \<le> sv_max_turns s"
  using assms unfolding service_ok_def by (blast, blast, blast, metis option.distinct(1), blast, blast, blast)

lemma service_okI:
  assumes "distinct (keys_of (sv_sessions s))" "distinct (keys_of (sv_turns s))"
    "\<And>sid r. map_of (sv_sessions s) sid = Some r \<Longrightarrow> \<exists>rt. sv_heap s r = Some (sid, rt)"
    "\<And>r x. sv_heap s r = Some x \<Longrightarrow> r < sv_next s"
    "\<And>t ts. turn_of s t = Some ts \<Longrightarrow> turn_ok t ts"
    "\<And>t ts. turn_of s t = Some ts \<Longrightarrow> \<not> terminal (status_of ts) \<Longrightarrow>
       tracked s (tu_session (ts_turn ts)) t"
    "length (sv_turns s) \<le> sv_max_turns s"
  shows "service_ok s"
  unfolding service_ok_def using assms by blast

lemma upd_turn_section_ok:
  assumes "turn_update f" "section_ok s k"
  shows "section_ok (upd_turn t f s) k"
proof -
  have "section_data (upd_turn t f s) k = section_data s k" by (cases k) simp_all
  with assms show ?thesis by (auto simp: section_ok_def turn_update_def)
qed

lemma upd_turn_service_ok:
  assumes so: "service_ok s" and f: "turn_update f"
    and old: "\<And>ts. turn_of s t = Some ts \<Longrightarrow>
      ts_done (f ts) = terminal (status_of (f ts)) \<and> (terminal (status_of ts) \<longrightarrow> terminal (status_of (f ts)))"
  shows "service_ok (upd_turn t f s)"
proof -
  have "tracked (upd_turn t f s) = tracked s" by (simp add: tracked_def fun_eq_iff)
  moreover have "turn_ok u ts \<and> (\<not> terminal (status_of ts) \<longrightarrow> tracked s (tu_session (ts_turn ts)) u)"
    if u: "turn_of (upd_turn t f s) u = Some ts" for u ts
  proof (cases "u = t")
    case True
    with u obtain v where v: "turn_of s t = Some v" "ts = f v" by auto
    with service_okD(5,6) [OF so v(1)] old [OF v(1)] f True show ?thesis
      by (auto simp: turn_ok_def turn_update_def)
  next
    case False
    with u service_okD(5,6) [OF so, of u] show ?thesis by auto
  qed
  ultimately show ?thesis
    by (intro service_okI) (use service_okD [OF so] in auto)
qed

lemma upd_turn_state_ok:
  assumes ok: "state_ok s C" and f: "turn_update f"
    and old: "\<And>ts. turn_of s t = Some ts \<Longrightarrow>
      ts_done (f ts) = terminal (status_of (f ts)) \<and> (terminal (status_of ts) \<longrightarrow> terminal (status_of (f ts)))"
    and pend: "\<And>sid r rt ts. runtime_of s sid = Some (r, rt) \<Longrightarrow> t \<in> set (rt_pending rt) \<Longrightarrow>
      turn_of s t = Some ts \<Longrightarrow> pending_ok s sid t \<Longrightarrow> pending_ok (upd_turn t f s) sid t"
    and act: "\<And>sid r rt ts. runtime_of s sid = Some (r, rt) \<Longrightarrow> t = rt_active rt \<Longrightarrow>
      turn_of s t = Some ts \<Longrightarrow> tu_session (ts_turn ts) = sid \<Longrightarrow> \<not> terminal (status_of ts) \<Longrightarrow>
      \<not> terminal (status_of (f ts)) \<or> KAdvance sid t \<in> C"
  shows "state_ok (upd_turn t f s) C"
  unfolding state_ok_def
proof (intro conjI allI impI ballI)
  have so: "service_ok s" using ok by (simp add: state_ok_def)
  show "service_ok (upd_turn t f s)" by (rule upd_turn_service_ok [OF so f old])
  show "section_ok (upd_turn t f s) k" if "k \<in> C" for k
    using ok that upd_turn_section_ok [OF f] by (simp add: state_ok_def)
  fix sid r rt assume "runtime_of (upd_turn t f s) sid = Some (r, rt)"
  then have rt: "runtime_of s sid = Some (r, rt)" by simp
  with ok have ro: "runtime_ok s C sid rt" by (simp add: state_ok_def)
  have "pending_ok (upd_turn t f s) sid p" if p: "p \<in> set (rt_pending rt)" for p
  proof (cases "p = t")
    case True
    with ro p have "pending_ok s sid t" by (simp add: runtime_ok_def)
    with True p pend [OF rt] show ?thesis by (auto simp: pending_ok_def)
  next
    case False
    with ro p show ?thesis by (auto simp: runtime_ok_def pending_ok_def)
  qed
  moreover have "active_ok (upd_turn t f s) C sid (rt_active rt)"
    if "active_ok s C sid (rt_active rt)"
  proof (cases "rt_active rt = t")
    case True
    with that act [OF rt] f show ?thesis by (auto simp: active_ok_def turn_update_def)
  next
    case False
    with that show ?thesis by (auto simp: active_ok_def)
  qed
  ultimately show "runtime_ok (upd_turn t f s) C sid rt" using ro by (auto simp: runtime_ok_def)
qed

lemma upd_turn_live:
  "(\<And>ts. turn_of s t = Some ts \<Longrightarrow> terminal (status_of ts) \<Longrightarrow> terminal (status_of (f ts))) \<Longrightarrow>
   live_turn (upd_turn t f s) u \<Longrightarrow> live_turn s u"
  by (auto simp: live_turn_def split: if_splits)

lemma finish_state_simps [simp]:
  "tu_id (ts_turn (finish_state st reason mid now ts)) = tu_id (ts_turn ts)"
  "tu_session (ts_turn (finish_state st reason mid now ts)) = tu_session (ts_turn ts)"
  "status_of (finish_state st reason mid now ts) = st"
  "ts_done (finish_state st reason mid now ts)"
  "ts_dispatched (finish_state st reason mid now ts) = ts_dispatched ts"
  by (simp_all add: finish_state_def)

lemma turn_update_finish [simp]: "turn_update (finish_state st reason mid now)"
  by (simp add: turn_update_def)

text \<open>Finishing a turn that is not pending and that some thread will advance past.\<close>

lemma finish_state_ok:
  assumes "state_ok s C" "terminal st"
    and "\<And>sid r rt. runtime_of s sid = Some (r, rt) \<Longrightarrow> t \<notin> set (rt_pending rt)"
    and "\<And>sid r rt ts. runtime_of s sid = Some (r, rt) \<Longrightarrow> t = rt_active rt \<Longrightarrow>
      turn_of s t = Some ts \<Longrightarrow> tu_session (ts_turn ts) = sid \<Longrightarrow> KAdvance sid t \<in> C"
  shows "state_ok (finish_locked t st reason mid now s) C"
  unfolding finish_locked_def
  by (rule upd_turn_state_ok [OF assms(1) turn_update_finish]) (use assms(2-4) in auto)

lemma finish_live:
  "terminal st \<Longrightarrow> live_turn (finish_locked t st reason mid now s) u \<longleftrightarrow> live_turn s u \<and> u \<noteq> t"
  by (auto simp: finish_locked_def live_turn_def split: if_splits)


lemma state_ok_runtime:
  "state_ok s C \<Longrightarrow> runtime_of s sid = Some (r, rt) \<Longrightarrow> runtime_ok s C sid rt"
  by (simp add: state_ok_def)

lemma section_not_pending:
  "state_ok s C \<Longrightarrow> k \<in> C \<Longrightarrow> section_turn k = Some t \<Longrightarrow>
   runtime_of s sid = Some (r, rt) \<Longrightarrow> t \<notin> set (rt_pending rt)"
  by (simp add: state_ok_def section_ok_def)

lemma pending_session:
  "state_ok s C \<Longrightarrow> runtime_of s sid = Some (r, rt) \<Longrightarrow> t \<in> set (rt_pending rt) \<Longrightarrow> pending_ok s sid t"
  by (auto dest: state_ok_runtime simp: runtime_ok_def)

text \<open>A turn that is not pending in the runtime of its session is pending nowhere.\<close>

lemma not_pending_anywhere:
  assumes "state_ok s C" "turn_of s t = Some ts"
    and "\<And>r rt. runtime_of s (tu_session (ts_turn ts)) = Some (r, rt) \<Longrightarrow> t \<notin> set (rt_pending rt)"
    and "runtime_of s sid = Some (r, rt)"
  shows "t \<notin> set (rt_pending rt)"
  using pending_session [OF assms(1,4), of t] assms(2-4) by (auto simp: pending_ok_def)

subsection \<open>Sections that change one turn\<close>

lemma accepted_section:
  assumes ok: "state_ok s (insert (KAccepted t n) C)" "advance_ok (live_turn s) (KAccepted t n # ks)"
  shows "step_ok s C ks (set_accepted t n s) [] []"
proof -
  let ?f = "\<lambda>ts. ts\<lparr>ts_turn := (ts_turn ts)\<lparr>tu_accepted := n\<rparr>\<rparr>"
  have C: "state_ok s C" by (rule state_ok_sections [OF ok(1)]) auto
  have srv: "service_ok s" using C by (simp add: state_ok_def)
  have "state_ok (upd_turn t ?f s) C"
  proof (rule upd_turn_state_ok [OF C])
    show "turn_update ?f" by (simp add: turn_update_def)
    show "ts_done (?f ts) = terminal (status_of (?f ts)) \<and>
        (terminal (status_of ts) \<longrightarrow> terminal (status_of (?f ts)))" if "turn_of s t = Some ts" for ts
      using service_okD(5) [OF srv that] by (simp add: turn_ok_def)
  qed (auto simp: pending_ok_def)
  moreover have "live_turn (upd_turn t ?f s) = live_turn s"
    by (auto simp: live_turn_def fun_eq_iff)
  ultimately show ?thesis using ok(2) by (simp add: step_ok_def set_accepted_def)
qed

lemma finish_section:
  assumes ok: "state_ok s (insert (KFinish t st reason) C)"
    and adv: "advance_ok (live_turn s) (KFinish t st reason # ks)" and ks: "set ks \<subseteq> C"
  shows "step_ok s C ks (finish_turn t st reason [] now s) [] []"
proof -
  have C: "state_ok s C" by (rule state_ok_sections [OF ok]) auto
  have st: "terminal st" using section_ok_insert [OF ok] by (simp add: section_ok_def)
  obtain sid where "KAdvance sid t \<in> set ks" using adv by auto
  then have due: "KAdvance (tu_session (ts_turn ts)) t \<in> C" if "turn_of s t = Some ts" for ts
    using C ks that by (fastforce simp: state_ok_def section_ok_def)
  have np: "t \<notin> set (rt_pending rt)" if "runtime_of s sid = Some (r, rt)" for sid r rt
    using section_not_pending [OF ok, of "KFinish t st reason"] that by simp
  have adv': "advance_ok ((live_turn s)(t := False)) ks" using adv by simp
  show ?thesis
  proof (cases "live_turn s t")
    case False
    then have "finish_turn t st reason [] now s = s"
      by (auto simp: finish_turn_def live_turn_def split: option.splits)
    moreover have "(live_turn s)(t := False) = live_turn s" using False by (simp add: fun_upd_idem)
    ultimately show ?thesis using C adv' by (simp add: step_ok_def)
  next
    case True
    then have "finish_turn t st reason [] now s = finish_locked t st reason [] now s"
      by (auto simp: finish_turn_def live_turn_def)
    moreover have "live_turn (finish_locked t st reason [] now s) = (live_turn s)(t := False)"
      by (rule ext) (simp add: finish_live [OF st])
    moreover have "state_ok (finish_locked t st reason [] now s) C"
      by (rule finish_state_ok [OF C st np]) (use due in auto)
    ultimately show ?thesis using adv' by (simp add: step_ok_def)
  qed
qed

lemma runtime_ok_dispatched:
  assumes "runtime_ok s (insert (KDispatch t) C) sid rt"
    and "\<And>ts. turn_of s t = Some ts \<Longrightarrow> \<not> terminal (status_of ts) \<Longrightarrow> ts_dispatched ts"
  shows "runtime_ok s C sid rt"
proof -
  have "active_ok s C sid a" if "active_ok s (insert (KDispatch t) C) sid a" for a
    using that assms(2) by (cases "a = t") (auto simp: active_ok_def)
  with assms(1) show ?thesis by (simp add: runtime_ok_def)
qed

lemma dispatch_section:
  assumes ok: "state_ok s (insert (KDispatch t) C)" "advance_ok (live_turn s) (KDispatch t # ks)"
    and ex: "(s', todo, spawned) = exec_section e (KDispatch t) s"
  shows "step_ok s C ks s' todo spawned"
proof (cases "live_turn s t")
  case False
  then have s': "s' = s" "todo = []" "spawned = []"
    using ex by (auto simp: dispatch_turn_def live_turn_def Let_def split: option.splits if_splits)
  have "runtime_ok s C sid rt" if "runtime_of s sid = Some (r, rt)" for sid r rt
    by (rule runtime_ok_dispatched [OF state_ok_runtime [OF ok(1) that]])
       (use False in \<open>simp add: live_turn_def\<close>)
  with ok have "state_ok s C" by (auto simp: state_ok_def)
  with ok s' show ?thesis by (simp add: step_ok_def)
next
  case True
  then obtain ts where ts: "turn_of s t = Some ts" "\<not> terminal (status_of ts)"
    by (auto simp: live_turn_def)
  let ?f = "\<lambda>ts. ts\<lparr>ts_dispatched := True\<rparr>"
  let ?s = "upd_turn t ?f s"
  let ?task = "KRun (tu_session (ts_turn ts), t, ts_input ts)"
  have srv: "service_ok s" using ok(1) by (simp add: state_ok_def)
  have s': "same_core ?s s'" "todo = []" "spawned = [[?task]]"
    using ex ts by (auto simp: dispatch_turn_def Let_def same_core_def upd_turn_def)
  have np: "t \<notin> set (rt_pending rt)" if "runtime_of s sid = Some (r, rt)" for sid r rt
    using section_not_pending [OF ok(1), of "KDispatch t"] that by simp
  have "state_ok ?s (insert (KDispatch t) C)"
  proof (rule upd_turn_state_ok [OF ok(1)])
    show "ts_done (?f ts) = terminal (status_of (?f ts)) \<and>
        (terminal (status_of ts) \<longrightarrow> terminal (status_of (?f ts)))" if "turn_of s t = Some ts" for ts
      using service_okD(5) [OF srv that] by (simp add: turn_ok_def)
  qed (use np in \<open>auto simp: turn_update_def\<close>)
  then have "state_ok ?s C"
    using runtime_ok_dispatched [of ?s t C] ts by (simp add: state_ok_def)
  moreover have "section_ok ?s ?task"
    using np ts by (auto simp: section_ok_def)
  ultimately have "state_ok ?s (insert ?task C)"
    by - (rule state_ok_sections, auto)
  moreover have "live_turn ?s = live_turn s" by (auto simp: live_turn_def fun_eq_iff)
  ultimately show ?thesis
    using ok(2) s' by (simp add: step_ok_def same_core_state_ok same_core_ok Un_commute)
qed


lemma event_section:
  assumes ok: "state_ok s (insert (KEvent sid k p) C)"
    and adv: "advance_ok (live_turn s) (KEvent sid k p # ks)"
    and env: "env_ok e (KEvent sid k p) s D"
    and ex: "(s', todo, spawned) = exec_section e (KEvent sid k p) s"
  shows "step_ok s C ks s' todo spawned"
proof -
  define t where "t = tn_turn_id p"
  have C: "state_ok s C" by (rule state_ok_sections [OF ok]) auto
  have srv: "service_ok s" using C by (simp add: state_ok_def)
  note adv = advance_ok_Cons [OF adv, simplified]
  have quiet: "step_ok s C ks s [] []" using C adv by (simp add: step_ok_def)
  show ?thesis
  proof (cases "\<exists>ts. turn_of s t = Some ts \<and> tu_session (ts_turn ts) = sid \<and> \<not> terminal (status_of ts)")
    case False
    then have "handle_event_locked sid k p a b s = (s, AfterNothing)" for a b
      by (auto simp: handle_event_locked_def Let_def t_def split: option.splits)
    with quiet ex show ?thesis by simp
  next
    case True
    then obtain ts where ts: "turn_of s t = Some ts" "tu_session (ts_turn ts) = sid"
      "\<not> terminal (status_of ts)" by blast
    have np: "t \<notin> set (rt_pending rt)" if "runtime_of s sid' = Some (r, rt)" for sid' r rt
      by (rule not_pending_anywhere [OF C ts(1) _ that]) (use env ts(2) in \<open>simp add: t_def\<close>)
    have mark: "state_ok (upd_turn t f s) C \<and> live_turn (upd_turn t f s) = live_turn s"
      if f: "turn_update f" "\<And>ts. \<not> terminal (status_of (f ts)) \<and> ts_done (f ts) = ts_done ts" for f
    proof
      have "\<not> ts_done ts" using service_okD(5) [OF srv ts(1)] ts(3) by (simp add: turn_ok_def)
      with ts(1,3) f show "state_ok (upd_turn t f s) C"
        by (intro upd_turn_state_ok [OF C f(1)]) (use np in auto)
      show "live_turn (upd_turn t f s) = live_turn s"
        using ts f by (auto simp: live_turn_def fun_eq_iff)
    qed
    have fin: "step_ok s C ks (finish_locked t st reason mid now s) [KAdvance sid t] []"
      if st: "terminal st" for st reason mid now
    proof -
      let ?s = "finish_locked t st reason mid now s"
      have "section_ok s (KAdvance sid t)" using ts np by (auto simp: section_ok_def)
      then have "state_ok s (insert (KAdvance sid t) C)" by (intro state_ok_sections [OF C]) auto
      then have "state_ok ?s (insert (KAdvance sid t) C)"
        by (rule finish_state_ok [OF _ st np]) (use ts in auto)
      moreover have live: "live_turn ?s = (live_turn s)(t := False)"
        by (rule ext) (simp add: finish_live [OF st])
      ultimately show ?thesis using advance_ok_clear [OF adv] by (simp add: step_ok_def)
    qed
    note fin = fin [of StatusCompleted] fin [of StatusCancelled] fin [of StatusFailed]
    show ?thesis
    proof (cases k)
      case KindTurnStarted
      let ?f = "\<lambda>ts. ts\<lparr>ts_turn := (ts_turn ts)
                     \<lparr>tu_status := (if ts_cancel_requested ts then StatusCancelRequested
                                    else StatusRunning),
                       tu_started := unix_milli (en_clk e 0)\<rparr>\<rparr>"
      have "state_ok (upd_turn t ?f s) C \<and> live_turn (upd_turn t ?f s) = live_turn s"
        by (rule mark) (auto simp: turn_update_def terminal_def)
      moreover have "section_ok (upd_turn t ?f s) (KCancelRunner sid)" by simp
      ultimately show ?thesis
        using ex adv ts KindTurnStarted state_ok_sections [of "upd_turn t ?f s" C "insert (KCancelRunner sid) C"]
        by (cases "ts_cancel_requested ts") (auto simp: handle_event_locked_def Let_def step_ok_def t_def)
    next
      case KindCancelAcknowledged
      let ?f = "\<lambda>ts. ts\<lparr>ts_turn := (ts_turn ts)\<lparr>tu_status := StatusCancelRequested\<rparr>\<rparr>"
      have "state_ok (upd_turn t ?f s) C \<and> live_turn (upd_turn t ?f s) = live_turn s"
        by (rule mark) (auto simp: turn_update_def terminal_def)
      with ex adv ts KindCancelAcknowledged show ?thesis
        by (simp add: handle_event_locked_def Let_def step_ok_def t_def)
    qed (use ex quiet fin ts in \<open>simp_all add: handle_event_locked_def Let_def terminal_def t_def\<close>)
  qed
qed


subsection \<open>Sections that change a runtime\<close>

lemma upd_runtime_simps [simp]:
  "sv_turns (upd_runtime r f s) = sv_turns s" "sv_sessions (upd_runtime r f s) = sv_sessions s"
  "sv_next (upd_runtime r f s) = sv_next s" "sv_max_queue (upd_runtime r f s) = sv_max_queue s"
  "sv_max_turns (upd_runtime r f s) = sv_max_turns s"
  "sv_heap (upd_runtime r f s) q =
     (if q = r then map_option (\<lambda>(sid, rt). (sid, f rt)) (sv_heap s r) else sv_heap s q)"
  by (simp_all add: upd_runtime_def)

lemma runtime_of_upd_runtime [simp]:
  "runtime_of (upd_runtime r f s) sid =
     map_option (\<lambda>(q, rt). (q, if q = r then f rt else rt)) (runtime_of s sid)"
  by (auto simp: runtime_of_def split: option.splits)

lemma live_upd_runtime [simp]: "live_turn (upd_runtime r f s) = live_turn s"
  by (simp add: live_turn_def fun_eq_iff)

text \<open>Two sessions never share a runtime.\<close>

lemma runtime_owner:
  "service_ok s \<Longrightarrow> runtime_of s sid = Some (r, rt) \<Longrightarrow> runtime_of s sid' = Some (r, rt') \<Longrightarrow> sid' = sid"
  by (simp add: service_ok_runtime)

lemma runtime_ok_frame:
  "sv_turns s' = sv_turns s \<Longrightarrow> sv_max_queue s' = sv_max_queue s \<Longrightarrow> runtime_ok s' = runtime_ok s"
  by (simp add: fun_eq_iff runtime_ok_def pending_ok_def active_ok_def)

lemma section_data_upd_runtime [simp]:
  "section_data s k \<Longrightarrow> section_data (upd_runtime r f s) k"
  by (cases k) auto

lemma upd_runtime_section_ok:
  assumes "section_ok s k" "\<And>rt. set (rt_pending (f rt)) \<subseteq> set (rt_pending rt) \<or> rt \<noteq> rt0"
    and "service_ok s" "runtime_of s sid = Some (r, rt0)"
  shows "section_ok (upd_runtime r f s) k"
proof -
  have "rt = rt0" if "runtime_of s sid' = Some (r, rt)" for sid' rt
    using runtime_owner [OF assms(3,4) that] that assms(4) by simp
  with assms(1,2) show ?thesis by (fastforce simp: section_ok_def split: if_splits)
qed

lemma service_ok_runtimes:
  assumes srv: "service_ok s" and "sv_turns s' = sv_turns s" "sv_max_turns s' = sv_max_turns s"
    and "distinct (keys_of (sv_sessions s'))"
    and "\<And>k q. map_of (sv_sessions s') k = Some q \<Longrightarrow> \<exists>v. sv_heap s' q = Some (k, v)"
    and "\<And>q x. sv_heap s' q = Some x \<Longrightarrow> q < sv_next s'"
    and tr: "\<And>k t. live_turn s t \<Longrightarrow> tracked s k t \<Longrightarrow> tracked s' k t"
  shows "service_ok s'"
proof (rule service_okI)
  show "turn_ok t ts" if "turn_of s' t = Some ts" for t ts
    using service_okD(5) [OF srv] that assms(2) by simp
  show "tracked s' (tu_session (ts_turn ts)) t"
    if t: "turn_of s' t = Some ts" "\<not> terminal (status_of ts)" for t ts
  proof (rule tr)
    show "live_turn s t" using t assms(2) by (simp add: live_turn_def)
    show "tracked s (tu_session (ts_turn ts)) t" using service_okD(6) [OF srv] t assms(2) by simp
  qed
  show "distinct (keys_of (sv_turns s'))" "length (sv_turns s') \<le> sv_max_turns s'"
    using service_okD(2,7) [OF srv] assms(2,3) by simp_all
qed (fact assms)+

lemma upd_runtime_state_ok:
  assumes srv: "service_ok s" and rt: "runtime_of s sid = Some (r, rt)"
    and new: "runtime_ok s D sid (f rt)"
    and sect: "\<And>k. k \<in> D \<Longrightarrow> section_ok (upd_runtime r f s) k"
    and oth: "\<And>sid' r' rt'. sid' \<noteq> sid \<Longrightarrow> runtime_of s sid' = Some (r', rt') \<Longrightarrow> runtime_ok s D sid' rt'"
    and keep: "\<And>t. live_turn s t \<Longrightarrow> t = rt_active rt \<or> t \<in> set (rt_pending rt) \<Longrightarrow>
      t = rt_active (f rt) \<or> t \<in> set (rt_pending (f rt))"
  shows "state_ok (upd_runtime r f s) D"
  unfolding state_ok_def
proof (intro conjI allI impI ballI sect)
  have h: "sv_heap s r = Some (sid, rt)" using srv rt by (simp add: service_ok_runtime)
  have "tracked (upd_runtime r f s) k t" if tr: "tracked s k t" "live_turn s t" for k t
  proof -
    obtain q v where q: "sv_heap s q = Some (k, v)" "t = rt_active v \<or> t \<in> set (rt_pending v)"
      using tr(1) by (auto simp: tracked_def)
    show ?thesis
    proof (cases "q = r")
      case True
      then have "sv_heap (upd_runtime r f s) q = Some (k, f rt)" and "v = rt" using q h by auto
      moreover have "t = rt_active (f rt) \<or> t \<in> set (rt_pending (f rt))"
        by (rule keep [OF tr(2)]) (use q(2) \<open>v = rt\<close> in simp)
      ultimately show ?thesis unfolding tracked_def by blast
    next
      case False
      then have "sv_heap (upd_runtime r f s) q = Some (k, v)" using q by simp
      with q(2) show ?thesis unfolding tracked_def by blast
    qed
  qed
  then show "service_ok (upd_runtime r f s)"
  proof (rule service_ok_runtimes [OF srv, rotated -1])
    show "\<exists>v. sv_heap (upd_runtime r f s) q = Some (k, v)"
      if "map_of (sv_sessions (upd_runtime r f s)) k = Some q" for k q
      using service_okD(3) [OF srv, of k q] that by (cases "q = r") auto
    show "q < sv_next (upd_runtime r f s)" if "sv_heap (upd_runtime r f s) q = Some x" for q x
      using service_okD(4) [OF srv, of q] that by (cases "q = r") auto
  qed (use service_okD(1) [OF srv] in simp_all)
  have eq: "runtime_ok (upd_runtime r f s) = runtime_ok s" by (rule runtime_ok_frame) simp_all
  show "runtime_ok (upd_runtime r f s) D sid' rt'"
    if "runtime_of (upd_runtime r f s) sid' = Some (q, rt')" for sid' q rt'
  proof (cases "sid' = sid")
    case True
    with that rt have "rt' = f rt" by auto
    with True new show ?thesis by (simp add: eq)
  next
    case False
    with that obtain v where v: "runtime_of s sid' = Some (q, v)" "rt' = (if q = r then f v else v)"
      by auto
    with False runtime_owner [OF srv rt, of sid' v] oth show ?thesis by (auto simp: eq)
  qed
qed


lemma runtime_ok_no_advance:
  assumes "runtime_ok s (insert k C) sid rt" "k \<noteq> KAdvance sid (rt_active rt)" "k \<noteq> KDispatch (rt_active rt)"
  shows "runtime_ok s C sid rt"
  using assms by (auto simp: runtime_ok_def active_ok_def)

lemma advance_section:
  assumes ok: "state_ok s (insert (KAdvance sid t) C)"
    and adv: "advance_ok (live_turn s) (KAdvance sid t # ks)"
    and ex: "(s', todo, spawned) = exec_section e (KAdvance sid t) s"
  shows "step_ok s C ks s' todo spawned"
proof -
  have srv: "service_ok s" and sects: "\<forall>k \<in> C. section_ok s k" using ok by (simp_all add: state_ok_def)
  have oth: "runtime_ok s C sid' rt'"
    if "sid' \<noteq> sid \<or> rt_active rt' \<noteq> t" "runtime_of s sid' = Some (q, rt')" for sid' q rt'
    using runtime_ok_no_advance [OF state_ok_runtime [OF ok that(2)]] that(1) by blast
  show ?thesis
  proof (cases "\<exists>r rt. runtime_of s sid = Some (r, rt) \<and> rt_active rt = t")
    case False
    then have "s' = s" "todo = []" "spawned = []"
      using ex by (auto simp: advance_locked_def split: option.splits if_splits)
    moreover have "runtime_ok s C sid' rt'" if k: "runtime_of s sid' = Some (q, rt')" for sid' q rt'
      by (rule oth [OF _ k]) (use False k in auto)
    then have "state_ok s C" using srv sects by (simp add: state_ok_def)
    ultimately show ?thesis using adv by (simp add: step_ok_def)
  next
    case True
    then obtain r rt where rt: "runtime_of s sid = Some (r, rt)" "rt_active rt = t" by blast
    have ro: "runtime_ok s (insert (KAdvance sid t) C) sid rt" using state_ok_runtime [OF ok rt(1)] .
    have dead: "\<not> live_turn s t" using adv by simp
    have paused: "\<not> rt_paused rt" using ro by (simp add: runtime_ok_def)
    have adv: "advance_ok (live_turn s) ks" using adv by simp
    show ?thesis
    proof (cases "rt_pending rt")
      case Nil
      let ?f = "\<lambda>rt. rt\<lparr>rt_active := [], rt_revision := rt_revision rt + 1\<rparr>"
      have s': "s' = upd_runtime r ?f s" "todo = [KReadQueue sid None]" "spawned = []"
        using ex rt Nil by (auto simp: advance_locked_def)
      have "state_ok s' (insert (KReadQueue sid None) C)" unfolding s'(1)
      proof (rule upd_runtime_state_ok [OF srv rt(1)])
        show "runtime_ok s (insert (KReadQueue sid None) C) sid (?f rt)"
          using Nil paused by (simp add: runtime_ok_def)
        show "section_ok (upd_runtime r ?f s) k" if "k \<in> insert (KReadQueue sid None) C" for k
          by (rule upd_runtime_section_ok [OF _ _ srv rt(1)]) (use that sects in auto)
        show "runtime_ok s (insert (KReadQueue sid None) C) sid' rt'"
          if "sid' \<noteq> sid" "runtime_of s sid' = Some (r', rt')" for sid' r' rt'
          using runtime_ok_mono [OF oth [of sid' rt' r']] that by simp
      qed (use Nil dead rt(2) in auto)
      with s' adv show ?thesis by (simp add: step_ok_def)
    next
      case (Cons n ps)
      let ?f = "\<lambda>rt. rt\<lparr>rt_active := hd (rt_pending rt), rt_pending := tl (rt_pending rt),
                         rt_revision := rt_revision rt + 1\<rparr>"
      let ?D = "insert (KReadQueue sid None) (insert (KDispatch n) C)"
      have po: "pending_ok s sid n" using ro Cons by (simp add: runtime_ok_def)
      then have n: "n \<noteq> []" using service_okD(5) [OF srv, of n] by (auto simp: pending_ok_def turn_ok_def)
      have s': "s' = upd_runtime r ?f s" "todo = [KReadQueue sid None, KDispatch n]" "spawned = []"
        using ex rt Cons n paused by (auto simp: advance_locked_def)
      have sect: "section_ok (upd_runtime r ?f s) k" if "section_ok s k" for k
        by (rule upd_runtime_section_ok [OF that _ srv rt(1)])
           (use Cons in \<open>auto dest: list.set_sel(2)\<close>)
      have "state_ok s' ?D" unfolding s'(1)
      proof (rule upd_runtime_state_ok [OF srv rt(1)])
        have "active_ok s ?D sid n" using po by (auto simp: pending_ok_def active_ok_def terminal_def)
        with ro Cons n show "runtime_ok s ?D sid (?f rt)" by (auto simp: runtime_ok_def split: if_splits)
        have "n \<notin> set (rt_pending rt')"
          if "runtime_of (upd_runtime r ?f s) sid' = Some (q, rt')" for sid' q rt'
        proof (cases "sid' = sid")
          case True
          with that rt(1) Cons ro show ?thesis by (auto simp: runtime_ok_def)
        next
          case False
          with that obtain v where v: "runtime_of s sid' = Some (q, v)" "rt' = (if q = r then ?f v else v)"
            by auto
          with False runtime_owner [OF srv rt(1), of sid' v] have "rt' = v" by auto
          with v(1) pending_session [OF ok v(1), of n] po False show ?thesis by (auto simp: pending_ok_def)
        qed
        then have "section_ok (upd_runtime r ?f s) (KDispatch n)" by (auto simp: section_ok_def)
        then show "section_ok (upd_runtime r ?f s) k" if "k \<in> ?D" for k using that sect sects by auto
        show "runtime_ok s ?D sid' rt'"
          if "sid' \<noteq> sid" "runtime_of s sid' = Some (r', rt')" for sid' r' rt'
          using runtime_ok_mono [OF oth [of sid' rt' r']] that by simp
      qed (use Cons dead rt(2) in auto)
      with s' adv show ?thesis by (simp add: step_ok_def insert_commute)
    qed
  qed
qed


lemma close_runtime_core:
  "same_core (upd_runtime r (\<lambda>rt. rt\<lparr>rt_ctx_done := True\<rparr>) s) (close_runtime r s) \<or>
   close_runtime r s = s"
  by (auto simp: close_runtime_def close_sub_def same_core_def split: option.split)

text \<open>Closing a runtime only marks its context, in a runtime of whatever session.\<close>

lemma mark_runtime_state_ok:
  fixes r
  defines "f \<equiv> \<lambda>rt :: session_runtime. rt\<lparr>rt_ctx_done := True\<rparr>"
  assumes ok: "state_ok s C"
  shows "state_ok (upd_runtime r f s) C"
proof -
  let ?s = "upd_runtime r f s"
  have srv: "service_ok s" using ok by (simp add: state_ok_def)
  have "tracked ?s k t" if tr: "tracked s k t" for k t
  proof -
    obtain q v where q: "sv_heap s q = Some (k, v)" "t = rt_active v \<or> t \<in> set (rt_pending v)"
      using tr by (auto simp: tracked_def)
    then have "sv_heap ?s q = Some (k, if q = r then f v else v)" by auto
    then show ?thesis by (rule trackedI) (use q(2) in \<open>simp add: f_def\<close>)
  qed
  then have "service_ok ?s"
  proof (rule service_ok_runtimes [OF srv, rotated -1])
    show "\<exists>v. sv_heap ?s q = Some (k, v)" if "map_of (sv_sessions ?s) k = Some q" for k q
      using service_okD(3) [OF srv, of k q] that by (cases "q = r") auto
    show "q < sv_next ?s" if "sv_heap ?s q = Some x" for q x
      using service_okD(4) [OF srv, of q] that by (cases "q = r") auto
  qed (use service_okD(1) [OF srv] in simp_all)
  moreover have "section_ok ?s k" if "section_ok s k" for k
  proof -
    have "t \<notin> set (rt_pending rt)" if "section_turn k = Some t" "runtime_of ?s sid = Some (q, rt)"
      for t sid q rt
      using that \<open>section_ok s k\<close> by (auto simp: section_ok_def f_def split: if_splits)
    with that show ?thesis by (simp add: section_ok_def del: runtime_of_upd_runtime)
  qed
  moreover have "runtime_ok ?s C sid rt" if rt: "runtime_of ?s sid = Some (q, rt)" for sid q rt
  proof -
    have eq: "runtime_ok ?s = runtime_ok s" by (rule runtime_ok_frame) simp_all
    obtain v where v: "runtime_of s sid = Some (q, v)" "rt = (if q = r then f v else v)"
      using rt by auto
    have "runtime_ok s C sid v" using state_ok_runtime [OF ok v(1)] .
    moreover from this have "runtime_ok s C sid (f v)" by (simp add: runtime_ok_def f_def)
    ultimately have "runtime_ok s C sid rt" using v(2) by simp
    then show ?thesis by (simp only: eq)
  qed
  ultimately show ?thesis using ok by (simp add: state_ok_def del: runtime_of_upd_runtime)
qed

lemma close_runtime_section:
  assumes ok: "state_ok s (insert (KCloseRuntime r) C)" "advance_ok (live_turn s) (KCloseRuntime r # ks)"
  shows "step_ok s C ks (close_runtime r s) [] []"
proof -
  have C: "state_ok s C" by (rule state_ok_sections [OF ok(1)]) auto
  from close_runtime_core [of r s] show ?thesis
  proof
    assume c: "same_core (upd_runtime r (\<lambda>rt. rt\<lparr>rt_ctx_done := True\<rparr>) s) (close_runtime r s)"
    have "live_turn (close_runtime r s) = live_turn s" using same_core_ok(6) [OF c] by simp
    with mark_runtime_state_ok [OF C, of r] ok(2) c show ?thesis
      by (simp add: step_ok_def same_core_state_ok)
  qed (use C ok(2) in \<open>simp add: step_ok_def\<close>)
qed

lemma order_valid_sound:
  "order_valid pending seen ids \<longleftrightarrow>
   set ids \<subseteq> set pending \<and> distinct ids \<and> set ids \<inter> set seen = {}"
  by (induction pending seen ids rule: order_valid.induct) auto

lemma reordered_perm:
  assumes "distinct pending" "order_valid pending [] ids"
  shows "distinct (ids @ filter (\<lambda>i. i \<notin> set ids) pending)"
    "set (ids @ filter (\<lambda>i. i \<notin> set ids) pending) = set pending"
    "length (ids @ filter (\<lambda>i. i \<notin> set ids) pending) = length pending"
proof -
  show d: "distinct (ids @ filter (\<lambda>i. i \<notin> set ids) pending)"
    and st: "set (ids @ filter (\<lambda>i. i \<notin> set ids) pending) = set pending"
    using assms by (auto simp: order_valid_sound)
  show "length (ids @ filter (\<lambda>i. i \<notin> set ids) pending) = length pending"
    using d st assms(1) by (metis distinct_card)
qed

lemma reorder_section:
  assumes ok: "state_ok s (insert (KReorder sid n ids) C)"
    and adv: "advance_ok (live_turn s) (KReorder sid n ids # ks)"
    and ex: "(s', todo, spawned) = exec_section e (KReorder sid n ids) s"
  shows "step_ok s C ks s' todo spawned"
proof -
  have C: "state_ok s C" by (rule state_ok_sections [OF ok]) auto
  then have srv: "service_ok s" and sects: "\<forall>k \<in> C. section_ok s k" by (simp_all add: state_ok_def)
  show ?thesis
  proof (cases "\<exists>r rt. runtime_of s sid = Some (r, rt) \<and> rt_revision rt = n \<and>
                order_valid (rt_pending rt) [] ids")
    case False
    then have "s' = s" "todo = []" "spawned = []"
      using ex by (auto simp: reorder_locked_def split: option.splits if_splits)
    with C adv show ?thesis by (simp add: step_ok_def)
  next
    case True
    then obtain r rt where rt: "runtime_of s sid = Some (r, rt)" "rt_revision rt = n"
      "order_valid (rt_pending rt) [] ids" by blast
    let ?new = "ids @ filter (\<lambda>i. i \<notin> set ids) (rt_pending rt)"
    let ?f = "\<lambda>rt. rt\<lparr>rt_pending := ?new, rt_revision := rt_revision rt + 1\<rparr>"
    let ?D = "insert (KReadQueue sid None) C"
    have ro: "runtime_ok s C sid rt" using state_ok_runtime [OF C rt(1)] .
    then have "distinct (rt_pending rt)" by (simp add: runtime_ok_def)
    note new = reordered_perm [OF this rt(3)]
    have s': "s' = upd_runtime r ?f s" "todo = [KReadQueue sid None]" "spawned = []"
      using ex rt by (auto simp: reorder_locked_def Let_def)
    have "state_ok s' ?D" unfolding s'(1)
    proof (rule upd_runtime_state_ok [OF srv rt(1)])
      have "runtime_ok s C sid (?f rt)"
        using ro new by (auto simp: runtime_ok_def simp del: set_append length_append distinct_append)
      then show "runtime_ok s ?D sid (?f rt)" by (rule runtime_ok_mono) auto
      show "section_ok (upd_runtime r ?f s) k" if "k \<in> ?D" for k
      proof (rule upd_runtime_section_ok [OF _ _ srv rt(1)])
        show "section_ok s k" using that sects by auto
        show "set (rt_pending (?f v)) \<subseteq> set (rt_pending v) \<or> v \<noteq> rt" for v
          using new(2) by (cases "v = rt") simp_all
      qed
      show "runtime_ok s ?D sid' rt'" if "runtime_of s sid' = Some (r', rt')" for sid' r' rt'
        by (rule runtime_ok_mono [OF state_ok_runtime [OF C that]]) auto
    qed (use new(2) in auto)
    with s' adv show ?thesis by (simp add: step_ok_def)
  qed
qed


lemma unqueue_state_ok:
  fixes pending
  defines "f \<equiv> \<lambda>rt. rt\<lparr>rt_pending := pending, rt_revision := rt_revision rt + 1\<rparr>"
  assumes ok: "state_ok s C" and rt: "runtime_of s sid = Some (r, rt)"
    and t: "t \<in> set (rt_pending rt)" and pending: "pending = remove1 t (rt_pending rt)"
    and st: "terminal st"
  shows "state_ok (upd_runtime r f (finish_locked t st reason mid now s)) C"
proof -
  let ?fin = "finish_locked t st reason mid now s" and ?g = "finish_state st reason mid now"
  let ?s = "upd_runtime r f ?fin"
  have srv: "service_ok s" using ok by (simp add: state_ok_def)
  have ro: "runtime_ok s C sid rt" using state_ok_runtime [OF ok rt] .
  have po: "pending_ok s sid t" using pending_session [OF ok rt t] .
  have h: "sv_heap s r = Some (sid, rt)" using srv rt by (simp add: service_ok_runtime)
  have f [simp]: "rt_pending (f v) = pending" "rt_active (f v) = rt_active v"
    "rt_paused (f v) = rt_paused v" for v by (simp_all add: f_def)
  have set_p: "set pending = set (rt_pending rt) - {t}" using ro pending by (simp add: runtime_ok_def)
  have s1: "service_ok ?fin" unfolding finish_locked_def
    by (rule upd_turn_service_ok [OF srv turn_update_finish]) (use st in simp)
  have "tracked ?s k u" if u: "live_turn ?fin u" "tracked ?fin k u" for k u
  proof -
    obtain q v where q: "sv_heap s q = Some (k, v)" "u = rt_active v \<or> u \<in> set (rt_pending v)"
      using u(2) by (auto simp: tracked_def finish_locked_def)
    then have "sv_heap ?s q = Some (k, if q = r then f v else v)" by (auto simp: finish_locked_def)
    then show ?thesis
      by (rule trackedI) (use q h u(1) finish_live [OF st] set_p in auto)
  qed
  then have "service_ok ?s"
  proof (rule service_ok_runtimes [OF s1, rotated -1])
    show "\<exists>v. sv_heap ?s q = Some (k, v)" if "map_of (sv_sessions ?s) k = Some q" for k q
      using service_okD(3) [OF srv, of k q] that by (cases "q = r") (auto simp: finish_locked_def)
    show "q < sv_next ?s" if "sv_heap ?s q = Some x" for q x
      using service_okD(4) [OF srv, of q] that by (cases "q = r") (auto simp: finish_locked_def)
  qed (use service_okD(1) [OF srv] in \<open>simp_all add: finish_locked_def\<close>)
  moreover have "section_ok ?s k" if "k \<in> C" for k
  proof (rule upd_runtime_section_ok [OF _ _ s1])
    show "section_ok ?fin k" unfolding finish_locked_def
      by (rule upd_turn_section_ok) (use ok that in \<open>simp_all add: state_ok_def\<close>)
    show "runtime_of ?fin sid = Some (r, rt)" using rt by (simp add: finish_locked_def)
    show "set (rt_pending (f v)) \<subseteq> set (rt_pending v) \<or> v \<noteq> rt" for v using set_p by auto
  qed
  moreover have "runtime_ok ?s C k v" if v: "runtime_of ?s k = Some (q, v)" for k q v
  proof (cases "k = sid")
    case True
    with v rt have "v = f rt" by (auto simp: finish_locked_def)
    moreover have "pending_ok ?s sid p" if "p \<in> set pending" for p
      using ro that set_p by (auto simp: runtime_ok_def pending_ok_def finish_locked_def)
    moreover have "rt_active rt \<noteq> t" using ro t by (auto simp: runtime_ok_def)
    then have "active_ok s C sid (rt_active rt) \<Longrightarrow> active_ok ?s C sid (rt_active rt)"
      by (simp add: active_ok_def finish_locked_def)
    ultimately show ?thesis using ro set_p True t length_remove1 [of t "rt_pending rt"] pending
      by (auto simp: runtime_ok_def finish_locked_def)
  next
    case False
    with v runtime_owner [OF srv rt, of k] have v: "runtime_of s k = Some (q, v)" "q \<noteq> r"
      by (auto simp: finish_locked_def split: if_splits)
    have "runtime_ok s C k v" using state_ok_runtime [OF ok v(1)] .
    moreover have "pending_ok ?s k p" if "p \<in> set (rt_pending v)" for p
      using pending_session [OF ok v(1) that] po False by (auto simp: pending_ok_def finish_locked_def)
    moreover have "active_ok ?s C k (rt_active v)" if "active_ok s C k (rt_active v)"
      using that po False by (auto simp: active_ok_def pending_ok_def finish_locked_def)
    ultimately show ?thesis by (auto simp: runtime_ok_def finish_locked_def)
  qed
  ultimately show ?thesis by (simp add: state_ok_def del: runtime_of_upd_runtime)
qed


lemma cancel_section:
  assumes ok: "state_ok s (insert (KCancel t) C)" "advance_ok (live_turn s) (KCancel t # ks)"
    and ex: "(s', todo, spawned) = exec_section e (KCancel t) s"
  shows "step_ok s C ks s' todo spawned"
proof -
  have C: "state_ok s C" by (rule state_ok_sections [OF ok(1)]) auto
  then have srv: "service_ok s" by (simp add: state_ok_def)
  have adv: "advance_ok (live_turn s) ks" using ok(2) by simp
  have quiet: "step_ok s C ks s [] []" using C adv by (simp add: step_ok_def)
  show ?thesis
  proof (cases "live_turn s t")
    case False
    with ex quiet show ?thesis
      by (auto simp: cancel_locked_def live_turn_def split: option.splits if_splits)
  next
    case True
    then obtain ts where ts: "turn_of s t = Some ts" "\<not> terminal (status_of ts)"
      by (auto simp: live_turn_def)
    define sid where "sid = tu_session (ts_turn ts)"
    show ?thesis
    proof (cases "runtime_of s sid")
      case None
      with ex quiet ts show ?thesis by (simp add: cancel_locked_def Let_def sid_def)
    next
      case (Some x)
      then obtain r rt where rt: "runtime_of s sid = Some (r, rt)" by (cases x) auto
      show ?thesis
      proof (cases "t \<in> set (rt_pending rt)")
        case t: True
        let ?s = "upd_runtime r (\<lambda>v. v\<lparr>rt_pending := remove1 t (rt_pending rt),
            rt_revision := rt_revision v + 1\<rparr>)
            (finish_locked t StatusCancelled ''queue_removed'' [] (en_clk e 0) s)"
        have s': "s' = ?s" "spawned = []" and
          todo: "todo = [KPublish sid (turn_news KindCancelAcknowledged t ''queue_removed'') None,
            KPublish sid (turn_news KindTurnCancelled t ''queue_removed'') None, KReadQueue sid None]"
          using ex ts t rt by (simp_all add: cancel_locked_def Let_def remove_id_remove1 sid_def)
        have "state_ok ?s C" by (rule unqueue_state_ok [OF C rt t]) (simp_all add: terminal_def)
        then have "state_ok ?s (C \<union> set todo)" by (rule state_ok_sections) (auto simp: todo)
        moreover have "live_turn ?s = (live_turn s)(t := False)"
          by (rule ext) (simp add: finish_live terminal_def)
        ultimately show ?thesis using s' advance_ok_clear [OF adv] by (simp add: step_ok_def todo)
      next
        case np: False
        let ?f = "\<lambda>ts. ts\<lparr>ts_cancel_requested := True,
            ts_turn := (ts_turn ts)\<lparr>tu_status := StatusCancelRequested\<rparr>\<rparr>"
        let ?s = "upd_turn t ?f s"
        have s': "s' = ?s" "spawned = []" and
          todo: "todo = [KPublish sid (turn_news KindCancelAcknowledged t ''user_requested'') None,
            KRemove sid t (status_of ts)]"
          using ex ts np rt by (simp_all add: cancel_locked_def Let_def remove_id_remove1 sid_def)
        have nowhere: "t \<notin> set (rt_pending v)" if "runtime_of s k = Some (q, v)" for k q v
          by (rule not_pending_anywhere [OF C ts(1) _ that])
             (use np rt in \<open>simp add: sid_def\<close>)
        have "state_ok ?s C"
        proof (rule upd_turn_state_ok [OF C])
          show "ts_done (?f v) = terminal (status_of (?f v)) \<and>
              (terminal (status_of v) \<longrightarrow> terminal (status_of (?f v)))" if "turn_of s t = Some v" for v
            using service_okD(5) [OF srv that] ts that by (simp add: turn_ok_def terminal_def)
        qed (use nowhere in \<open>auto simp: turn_update_def terminal_def\<close>)
        then have "state_ok ?s (C \<union> set todo)"
          by (rule state_ok_sections)
             (use nowhere ts in \<open>auto simp: todo section_ok_def sid_def\<close>)
        moreover have "live_turn ?s = live_turn s"
          using ts by (auto simp: live_turn_def fun_eq_iff terminal_def)
        ultimately show ?thesis using s' adv by (simp add: step_ok_def todo)
      qed
    qed
  qed
qed

lemma finish_all_state_ok:
  assumes "state_ok s C"
    and "\<forall>t \<in> set ids. \<forall>sid r rt. runtime_of s sid = Some (r, rt) \<longrightarrow>
      t \<notin> set (rt_pending rt) \<and> (t = rt_active rt \<longrightarrow>
        (\<forall>ts. turn_of s t = Some ts \<longrightarrow> tu_session (ts_turn ts) = sid \<longrightarrow> KAdvance sid t \<in> C))"
  shows "state_ok (finish_all clk n ids s) C \<and>
    (\<forall>u. live_turn (finish_all clk n ids s) u \<longrightarrow> live_turn s u)"
  using assms
proof (induction clk n ids s rule: finish_all.induct)
  case (1 clk n s)
  then show ?case by simp
next
  case (2 clk n t ids s)
  let ?s = "finish_locked t StatusCancelled ''session_closed'' [] (clk n) s"
  show ?case
  proof (cases "live_turn s t")
    case False
    then have "finish_all clk n (t # ids) s = finish_all clk n ids s"
      by (auto simp: live_turn_def split: option.split)
    with 2 False show ?thesis by (auto simp: live_turn_def split: option.splits)
  next
    case True
    then obtain ts where ts: "turn_of s t = Some ts" "\<not> terminal (status_of ts)"
      by (auto simp: live_turn_def)
    have step: "state_ok ?s C"
      by (rule finish_state_ok [OF "2.prems"(1)]) (use "2.prems"(2) in \<open>auto simp: terminal_def\<close>)
    have "state_ok (finish_all clk (Suc n) ids ?s) C \<and>
        (\<forall>u. live_turn (finish_all clk (Suc n) ids ?s) u \<longrightarrow> live_turn ?s u)"
      by (rule "2.IH"(2) [OF ts step])
         (use "2.prems"(2) in \<open>auto simp: finish_locked_def split: if_splits\<close>)
    moreover have "live_turn ?s u \<Longrightarrow> live_turn s u" for u
      by (simp add: finish_live terminal_def)
    ultimately show ?thesis using ts by simp
  qed
qed


lemma drop_session_state_ok:
  assumes ok: "state_ok s C"
  shows "state_ok (s\<lparr>sv_sessions := AList.delete sid (sv_sessions s)\<rparr>) C"
proof -
  let ?s = "s\<lparr>sv_sessions := AList.delete sid (sv_sessions s)\<rparr>"
  have srv: "service_ok s" using ok by (simp add: state_ok_def)
  have run: "runtime_of ?s k = (if k = sid then None else runtime_of s k)" for k
    by (simp add: runtime_of_def cong: option.case_cong)
  have "service_ok ?s"
  proof (rule service_ok_runtimes [OF srv])
    show "\<exists>v. sv_heap ?s q = Some (k, v)" if "map_of (sv_sessions ?s) k = Some q" for k q
      using service_okD(3) [OF srv, of k q] that by (auto split: if_splits)
    show "q < sv_next ?s" if "sv_heap ?s q = Some x" for q x
      using service_okD(4) [OF srv, of q] that by simp
  qed (use service_okD(1) [OF srv] in \<open>simp_all add: tracked_def\<close>)
  moreover have "section_ok ?s k" if "section_ok s k" for k
  proof -
    have "section_data ?s k = section_data s k" by (cases k) simp_all
    with that show ?thesis by (auto simp: section_ok_def run)
  qed
  moreover have "runtime_ok ?s C k rt" if "runtime_of ?s k = Some (q, rt)" for k q rt
    using state_ok_runtime [OF ok, of k] that runtime_ok_frame [of ?s s]
    by (auto simp: run split: if_splits)
  ultimately show ?thesis using ok by (simp add: state_ok_def)
qed

lemma live_drop_session [simp]: "live_turn (s\<lparr>sv_sessions := x\<rparr>) = live_turn s"
  by (simp add: live_turn_def fun_eq_iff)

lemma close_session_section:
  assumes ok: "state_ok s (insert (KCloseSession sid) C)"
    and adv: "advance_ok (live_turn s) (KCloseSession sid # ks)" and ks: "set ks \<subseteq> C"
    and ex: "(s', todo, spawned) = exec_section e (KCloseSession sid) s"
  shows "step_ok s C ks s' todo spawned"
proof -
  have C: "state_ok s C" by (rule state_ok_sections [OF ok]) auto
  then have srv: "service_ok s" by (simp add: state_ok_def)
  have adv: "advance_ok (live_turn s) ks" using adv by simp
  show ?thesis
  proof (cases "runtime_of s sid")
    case None
    with ex C adv show ?thesis by (simp add: close_session_locked_def step_ok_def)
  next
    case (Some x)
    then obtain r rt where rt: "runtime_of s sid = Some (r, rt)" by (cases x) auto
    let ?base = "s\<lparr>sv_sessions := AList.delete sid (sv_sessions s)\<rparr>"
    let ?s = "finish_all (en_clk e) 0 (rt_active rt # rt_pending rt) ?base"
    have s': "s' = ?s" "spawned = []" and
      todo: "todo = KCloseRuntime r # (if rt_active rt \<noteq> [] then [KCancelRunner sid] else [])"
      using ex rt by (simp_all add: close_session_locked_def split: if_splits)
    have ro: "runtime_ok s C sid rt" using state_ok_runtime [OF C rt] .
    have act: "t \<noteq> []" "\<And>ts. turn_of s t = Some ts \<Longrightarrow> tu_session (ts_turn ts) = sid"
      if t: "t = rt_active rt" "turn_of s t = Some w" for t w
    proof -
      show ne: "t \<noteq> []" using service_okD(5) [OF srv t(2)] by (simp add: turn_ok_def)
      then have "active_ok s C sid t" using ro t(1) by (simp add: runtime_ok_def)
      then show "tu_session (ts_turn ts) = sid" if "turn_of s t = Some ts" for ts
        using that C unfolding active_ok_def state_ok_def section_ok_def by fastforce
    qed
    have sess: "tu_session (ts_turn ts) = sid"
      if t: "t \<in> set (rt_active rt # rt_pending rt)" "turn_of s t = Some ts" for t ts
    proof (cases "t = rt_active rt")
      case True
      with act(2) [OF True t(2)] t(2) show ?thesis by simp
    next
      case False
      with t pending_session [OF C rt, of t] show ?thesis by (auto simp: pending_ok_def)
    qed
    have elsewhere: "t \<notin> set (rt_pending v) \<and> (t = rt_active v \<longrightarrow>
        (\<forall>ts. turn_of ?base t = Some ts \<longrightarrow> tu_session (ts_turn ts) = k \<longrightarrow> KAdvance k t \<in> C))"
      if t: "t \<in> set (rt_active rt # rt_pending rt)" and v: "runtime_of ?base k = Some (q, v)" for t k q v
    proof -
      have k: "k \<noteq> sid" "runtime_of s k = Some (q, v)"
        using v by (auto simp: runtime_of_def split: option.splits if_splits)
      have "t \<notin> set (rt_pending v)"
        using pending_session [OF C k(2), of t] sess [OF t] k(1) by (auto simp: pending_ok_def)
      with sess [OF t] k(1) show ?thesis by auto
    qed
    have fin: "state_ok ?s C \<and> (\<forall>u. live_turn ?s u \<longrightarrow> live_turn ?base u)"
      by (rule finish_all_state_ok [OF drop_session_state_ok [OF C]]) (use elsewhere in blast)
    then have "state_ok ?s (C \<union> set todo)"
      by - (rule state_ok_sections [of ?s C], auto simp: todo split: if_splits)
    moreover have "advance_ok (live_turn ?s) ks"
      by (rule advance_ok_less [OF _ adv]) (use fin in simp)
    moreover have "advance_ok l (todo @ ks) = advance_ok l ks" for l by (simp add: todo)
    ultimately show ?thesis using s' fin by (simp add: step_ok_def del: finish_all.simps)
  qed
qed

lemma install_section:
  assumes ok: "state_ok s (insert (KInstall sid i inp) C)"
    and adv: "advance_ok (live_turn s) (KInstall sid i inp # ks)"
    and ex: "(s', todo, spawned) = exec_section e (KInstall sid i inp) s"
  shows "step_ok s C ks s' todo spawned"
proof -
  have C: "state_ok s C" by (rule state_ok_sections [OF ok]) auto
  then have srv: "service_ok s" by (simp add: state_ok_def)
  have adv: "advance_ok (live_turn s) ks" using adv by simp
  show ?thesis
  proof (cases "map_of (sv_sessions s) sid")
    case (Some r)
    obtain rt where "sv_heap s r = Some (sid, rt)" using service_okD(3) [OF srv Some] by blast
    moreover have "same_core s (close_sub i s)" by (simp add: close_sub_def same_core_def)
    ultimately show ?thesis
      using ex Some adv step_ok_quiet [OF ok, of "close_sub i s" todo ks]
      by (auto simp: ensure_install_def)
  next
    case None
    let ?rt = "\<lparr>rt_active = [], rt_pending = [], rt_revision = 0, rt_paused = False,
                     rt_sub = i, rt_ctx_done = False, rt_done = False\<rparr>"
    let ?s = "s\<lparr>sv_sessions := AList.update sid (sv_next s) (sv_sessions s),
             sv_heap := (sv_heap s)(sv_next s \<mapsto> (sid, ?rt)), sv_next := Suc (sv_next s)\<rparr>"
    have s': "s' = ?s" "todo = [KAccept sid (sv_next s) True inp]" "spawned = []"
      using ex None by (simp_all add: ensure_install_def)
    have fresh: "sv_heap s (sv_next s) = None"
      using service_okD(4) [OF srv, of "sv_next s"] by (cases "sv_heap s (sv_next s)") auto
    have "map_of (sv_sessions s) k \<noteq> Some (sv_next s)" for k
      using service_okD(3) [OF srv, of k "sv_next s"] fresh by auto
    then have run: "runtime_of ?s k = (if k = sid then Some (sv_next s, ?rt) else runtime_of s k)" for k
      by (auto simp: runtime_of_def split: option.split)
    have "service_ok ?s"
    proof (rule service_ok_runtimes [OF srv])
      show "\<exists>v. sv_heap ?s q = Some (k, v)" if "map_of (sv_sessions ?s) k = Some q" for k q
      proof (cases "k = sid")
        case False
        with that have "map_of (sv_sessions s) k = Some q" by simp
        with service_okD(3) [OF srv this] fresh show ?thesis by (cases "q = sv_next s") auto
      qed (use that in auto)
      show "q < sv_next ?s" if "sv_heap ?s q = Some x" for q x
        using service_okD(4) [OF srv, of q] that by (auto split: if_splits intro: less_SucI)
      show "tracked ?s k t" if tr: "tracked s k t" for k t
      proof -
        obtain q v where q: "sv_heap s q = Some (k, v)" "t = rt_active v \<or> t \<in> set (rt_pending v)"
          using tr by (auto simp: tracked_def)
        with fresh have "sv_heap ?s q = Some (k, v)" by auto
        then show ?thesis by (rule trackedI) (fact q(2))
      qed
    qed (use service_okD(1) [OF srv] in simp_all)
    moreover have "section_ok ?s k" if "section_ok s k" for k
    proof -
      have "section_data ?s k" using that fresh by (cases k) (auto simp: section_ok_def)
      with that show ?thesis by (auto simp: section_ok_def run)
    qed
    moreover have "runtime_ok ?s (C \<union> set todo) k rt" if k: "runtime_of ?s k = Some (q, rt)" for k q rt
    proof (cases "k = sid")
      case True
      with k show ?thesis by (auto simp: run runtime_ok_def)
    next
      case False
      then have "runtime_ok s C k rt" using state_ok_runtime [OF C, of k] k by (auto simp: run)
      then have "runtime_ok ?s C k rt" using runtime_ok_frame [of ?s s] by simp
      then show ?thesis by (rule runtime_ok_mono) auto
    qed
    ultimately have "state_ok ?s (C \<union> set todo)" using C s'(2) by (auto simp: state_ok_def)
    moreover have "live_turn ?s = live_turn s" by (simp add: live_turn_def fun_eq_iff)
    ultimately show ?thesis using s' adv by (simp add: step_ok_def)
  qed
qed


subsection \<open>Accepting a turn\<close>

lemma oldest_terminal_dead:
  assumes "distinct (keys_of ts)" "oldest_terminal ts [] c \<noteq> []"
  shows "\<exists>v. map_of ts (oldest_terminal ts [] c) = Some v \<and> terminal (status_of v)"
  using oldest_terminal_key [OF assms(2)] assms(1) by (auto simp: map_of_eq_Some_iff)

lemma evict_loop_keeps:
  assumes "distinct (keys_of ts)"
  shows "distinct (keys_of (evict_loop n ts)) \<and> length (evict_loop n ts) \<le> length ts \<and>
    (\<forall>k v. map_of (evict_loop n ts) k = Some v \<longrightarrow> map_of ts k = Some v) \<and>
    (\<forall>k v. map_of ts k = Some v \<longrightarrow> \<not> terminal (status_of v) \<longrightarrow>
       map_of (evict_loop n ts) k = Some v)"
  using assms
proof (induction n ts rule: evict_loop.induct)
  case (1 n ts)
  let ?i = "oldest_terminal ts [] 0"
  show ?case
  proof (cases "length ts < n \<or> ?i = []")
    case True
    then have "evict_loop n ts = ts" by (subst evict_loop.simps) (auto simp: Let_def)
    then show ?thesis using "1.prems" by simp
  next
    case False
    then have ev: "evict_loop n ts = evict_loop n (AList.delete ?i ts)"
      by (subst evict_loop.simps) (simp add: Let_def)
    obtain w where w: "map_of ts ?i = Some w" "terminal (status_of w)"
      using oldest_terminal_dead [OF "1.prems"] False by blast
    have "distinct (keys_of (AList.delete ?i ts))" using "1.prems" by simp
    note ih = "1.IH" [OF _ refl _ this, folded ev]
    have ih: "distinct (keys_of (evict_loop n ts))"
        "length (evict_loop n ts) \<le> length (AList.delete ?i ts)"
        "\<And>k v. map_of (evict_loop n ts) k = Some v \<Longrightarrow> map_of (AList.delete ?i ts) k = Some v"
        "\<And>k v. map_of (AList.delete ?i ts) k = Some v \<Longrightarrow> \<not> terminal (status_of v) \<Longrightarrow>
           map_of (evict_loop n ts) k = Some v"
      using ih False by blast+
    have "length (evict_loop n ts) \<le> length ts"
      using ih(2) length_delete_le [of ?i ts] by linarith
    moreover have "map_of ts k = Some v" if "map_of (evict_loop n ts) k = Some v" for k v
      using ih(3) [OF that] by (simp split: if_splits)
    moreover have "map_of (evict_loop n ts) k = Some v"
      if "map_of ts k = Some v" "\<not> terminal (status_of v)" for k v
      by (rule ih(4)) (use that w in auto)
    ultimately show ?thesis using ih(1) by blast
  qed
qed

lemma prune_keeps:
  assumes "distinct (keys_of (sv_turns s))"
  shows "distinct (keys_of (sv_turns (prune_locked now s)))"
    "length (sv_turns (prune_locked now s)) \<le> length (sv_turns s)"
    "turn_of (prune_locked now s) t = Some ts \<Longrightarrow> turn_of s t = Some ts"
    "turn_of s t = Some ts \<Longrightarrow> \<not> terminal (status_of ts) \<Longrightarrow> turn_of (prune_locked now s) t = Some ts"
proof -
  define P where "P = (\<lambda>(i :: string) ts. \<not> (terminal (status_of ts) \<and>
      tu_completed (ts_turn ts) < unix_milli (now - sv_retention s)))"
  define kept where "kept = filter (\<lambda>(i, ts). P i ts) (sv_turns s)"
  have eq: "sv_turns (prune_locked now s) = evict_loop (sv_max_turns s) kept"
    unfolding prune_locked_def Let_def kept_def P_def by simp
  have d: "distinct (keys_of kept)" using assms by (simp add: kept_def)
  note ev = evict_loop_keeps [OF d, of "sv_max_turns s", folded eq]
  have k: "map_of kept t = (case turn_of s t of None \<Rightarrow> None | Some v \<Rightarrow> if P t v then Some v else None)"
    unfolding kept_def by (rule map_of_filter_keys [OF assms])
  show "distinct (keys_of (sv_turns (prune_locked now s)))" using ev by blast
  have "length kept \<le> length (sv_turns s)" unfolding kept_def by (rule length_filter_le)
  with ev show "length (sv_turns (prune_locked now s)) \<le> length (sv_turns s)" by linarith
  show "turn_of s t = Some ts" if "turn_of (prune_locked now s) t = Some ts"
  proof -
    have "map_of kept t = Some ts" using ev that by blast
    with k show ?thesis by (auto split: option.splits if_splits)
  qed
  show "turn_of (prune_locked now s) t = Some ts" if "turn_of s t = Some ts" "\<not> terminal (status_of ts)"
  proof -
    have "map_of kept t = Some ts" using k that by (simp add: P_def)
    with ev that(2) show ?thesis by blast
  qed
qed


lemma prune_frame [simp]:
  "sv_sessions (prune_locked now s) = sv_sessions s" "sv_heap (prune_locked now s) = sv_heap s"
  "sv_next (prune_locked now s) = sv_next s" "sv_max_queue (prune_locked now s) = sv_max_queue s"
  "sv_max_turns (prune_locked now s) = sv_max_turns s" "runtime_of (prune_locked now s) = runtime_of s"
  "sv_closed (prune_locked now s) = sv_closed s"
  by (simp_all add: prune_locked_def Let_def)

lemma prune_state_ok:
  assumes ok: "state_ok s C"
  shows "state_ok (prune_locked now s) C \<and> live_turn (prune_locked now s) = live_turn s"
proof
  let ?s = "prune_locked now s"
  have srv: "service_ok s" using ok by (simp add: state_ok_def)
  note d = service_okD(2) [OF srv]
  note pr = prune_keeps [OF d, where now = now]
  show "live_turn ?s = live_turn s"
    using pr(3,4) unfolding live_turn_def fun_eq_iff by blast
  have "service_ok ?s"
  proof (rule service_okI)
    show "turn_ok t ts" if "turn_of ?s t = Some ts" for t ts using service_okD(5) [OF srv pr(3) [OF that]] .
    show "tracked ?s (tu_session (ts_turn ts)) t"
      if "turn_of ?s t = Some ts" "\<not> terminal (status_of ts)" for t ts
      using service_okD(6) [OF srv pr(3) [OF that(1)] that(2)] by (simp add: tracked_def)
    show "length (sv_turns ?s) \<le> sv_max_turns ?s" using pr(2) service_okD(7) [OF srv] by simp
    show "\<exists>rt. sv_heap ?s r = Some (sid, rt)" if "map_of (sv_sessions ?s) sid = Some r" for sid r
      using service_okD(3) [OF srv] that by simp
    show "r < sv_next ?s" if "sv_heap ?s r = Some x" for r x
      using service_okD(4) [OF srv] that by simp
  qed (use pr(1) service_okD(1) [OF srv] in simp_all)
  moreover have "section_ok ?s k" if "section_ok s k" for k
  proof -
    have "section_data ?s k = section_data s k" by (cases k) simp_all
    with that pr(3) show ?thesis by (auto simp: section_ok_def)
  qed
  moreover have "runtime_ok ?s C sid rt" if "runtime_of ?s sid = Some (r, rt)" for sid r rt
  proof -
    have ro: "runtime_ok s C sid rt" using state_ok_runtime [OF ok] that by simp
    have "pending_ok ?s sid p" if "pending_ok s sid p" for p
      using that pr(4) by (auto simp: pending_ok_def terminal_def)
    moreover have "active_ok ?s C sid a" if "active_ok s C sid a" for a
      using that pr(4) by (auto simp: active_ok_def)
    ultimately show ?thesis using ro by (simp add: runtime_ok_def)
  qed
  ultimately show "state_ok ?s C" using ok by (simp add: state_ok_def)
qed

text \<open>The state after a new turn has been entered in a runtime of its session.\<close>

lemma enter_state_ok:
  fixes s r rt' ts
  defines "t \<equiv> tu_id (ts_turn ts)"
  defines "s' \<equiv> (upd_runtime r (\<lambda>_. rt') s)\<lparr>sv_turns := AList.update t ts (sv_turns s)\<rparr>"
  assumes ok: "state_ok s C" and h: "sv_heap s r = Some (sid, rt)"
    and fresh: "fresh_turn s C t"
    and ts: "tu_session (ts_turn ts) = sid" "status_of ts = StatusQueued" "\<not> ts_done ts"
      "\<not> ts_cancel_requested ts" "\<not> ts_dispatched ts"
    and room: "length (rt_pending rt) + (if rt_active rt \<noteq> [] then 1 else 0) < sv_max_queue s"
      "length (sv_turns s) < sv_max_turns s"
    and rt': "rt_active rt = [] \<and> rt_pending rt' = rt_pending rt \<and> rt_active rt' = t \<or>
       rt_active rt \<noteq> [] \<and> rt_pending rt' = rt_pending rt @ [t] \<and> rt_active rt' = rt_active rt"
      "rt_paused rt' = rt_paused rt"
  defines "D \<equiv> if rt_active rt = [] then insert (KDispatch t) C else C"
  shows "state_ok s' D"
proof -
  have srv: "service_ok s" using ok by (simp add: state_ok_def)
  note f = fresh [unfolded fresh_turn_def]
  have t: "t \<noteq> []" "turn_of s t = None" using f by auto
  have tur: "turn_of s' u = (if u = t then Some ts else turn_of s u)" for u by (simp add: s'_def)
  have frame: "sv_sessions s' = sv_sessions s" "sv_next s' = sv_next s" "sv_max_queue s' = sv_max_queue s"
    "sv_max_turns s' = sv_max_turns s" by (simp_all add: s'_def)
  have heap: "sv_heap s' q = (if q = r then Some (sid, rt') else sv_heap s q)" for q
    using h by (simp add: s'_def)
  have run: "runtime_of s' k = map_option (\<lambda>(q, v). (q, if q = r then rt' else v)) (runtime_of s k)" for k
    by (simp add: s'_def)
  have grown: "set (rt_pending rt') \<subseteq> insert t (set (rt_pending rt))" using rt'(1) by auto
  have kept: "tracked s' k u" if tr: "tracked s k u" "u \<noteq> []" for k u
  proof -
    obtain q v where q: "sv_heap s q = Some (k, v)" "u = rt_active v \<or> u \<in> set (rt_pending v)"
      using tr(1) by (auto simp: tracked_def)
    show ?thesis
    proof (cases "q = r")
      case True
      with q h have "k = sid" "v = rt" by auto
      have "sv_heap s' r = Some (k, rt')" using heap \<open>k = sid\<close> by simp
      then show ?thesis by (rule trackedI) (use q(2) \<open>v = rt\<close> rt'(1) tr(2) in auto)
    next
      case False
      with q heap have "sv_heap s' q = Some (k, v)" by simp
      then show ?thesis by (rule trackedI) (fact q(2))
    qed
  qed
  have srv': "service_ok s'"
  proof (rule service_okI)
    show "\<exists>v. sv_heap s' q = Some (k, v)" if "map_of (sv_sessions s') k = Some q" for k q
      using service_okD(3) [OF srv, of k q] that h by (auto simp: frame heap)
    show "q < sv_next s'" if "sv_heap s' q = Some x" for q x
      using service_okD(4) [OF srv, of q] that h by (auto simp: frame heap split: if_splits)
    show "turn_ok u v" if "turn_of s' u = Some v" for u v
      using service_okD(5) [OF srv, of u v] that ts t(1)
      by (auto simp: tur turn_ok_def t_def terminal_def split: if_splits)
    show "tracked s' (tu_session (ts_turn v)) u"
      if u: "turn_of s' u = Some v" "\<not> terminal (status_of v)" for u v
    proof (cases "u = t")
      case True
      with u ts have "v = ts" by (simp add: tur)
      have "sv_heap s' r = Some (sid, rt')" by (simp add: heap)
      then show ?thesis using trackedI [of s' r sid rt' t] rt'(1) True \<open>v = ts\<close> ts(1) by auto
    next
      case False
      with u have v: "turn_of s u = Some v" by (simp add: tur)
      show ?thesis
        by (rule kept [OF service_okD(6) [OF srv v u(2)]])
           (use service_okD(5) [OF srv v] in \<open>simp add: turn_ok_def\<close>)
    qed
    show "distinct (keys_of (sv_sessions s'))" using service_okD(1) [OF srv] by (simp add: frame)
    show "distinct (keys_of (sv_turns s'))" using service_okD(2) [OF srv] by (simp add: s'_def)
    show "length (sv_turns s') \<le> sv_max_turns s'"
      using length_update_new [OF t(2)] room(2) by (simp add: s'_def)
  qed
  have sect: "section_ok s' k" if k: "k \<in> C" for k
  proof -
    have so: "section_ok s k" using ok k by (simp add: state_ok_def)
    have "section_data s' k" using so h by (cases k) (auto simp: section_ok_def heap)
    moreover have "u \<noteq> t" if "section_turn k = Some u" for u
      using that f k by (auto simp: bound_turns_def)
    moreover have "section_turn k = Some (snd x)" if "section_session k = Some x" for x
      using that by (cases k) auto
    moreover have "u \<notin> set (rt_pending v)"
      if u: "section_turn k = Some u" "runtime_of s' q = Some (p, v)" for u q p v
    proof -
      have "u \<noteq> t" using u(1) f k by (auto simp: bound_turns_def)
      obtain w where w: "runtime_of s q = Some (p, w)" "v = (if p = r then rt' else w)"
        using u(2) by (auto simp: run)
      have "u \<notin> set (rt_pending w)" using so u(1) w(1) by (simp add: section_ok_def)
      moreover have "w = rt" if "p = r"
        using w(1) that h service_ok_runtime [OF srv] by simp
      ultimately show ?thesis using w(2) grown \<open>u \<noteq> t\<close> by auto
    qed
    ultimately show ?thesis using so unfolding section_ok_def tur by fastforce
  qed
  have pend: "pending_ok s' k p" if "pending_ok s k p" for k p
    using that t(2) by (auto simp: pending_ok_def tur)
  have act: "active_ok s' D k a" if "active_ok s C k a" for k a
    using that t(2) by (auto simp: active_ok_def tur D_def)
  have runs: "runtime_ok s' D k v" if v: "runtime_of s' k = Some (q, v)" for k q v
  proof -
    obtain w where w: "runtime_of s k = Some (q, w)" "v = (if q = r then rt' else w)"
      using v by (auto simp: run)
    have ro: "runtime_ok s C k w" using state_ok_runtime [OF ok w(1)] .
    show ?thesis
    proof (cases "q = r")
      case False
      with ro w(2) pend act show ?thesis by (simp add: runtime_ok_def frame)
    next
      case True
      then have eq: "w = rt" "k = sid" "v = rt'"
        using w h service_ok_runtime [OF srv] by auto
      have new: "t \<notin> set (rt_pending rt)" "t \<noteq> rt_active rt" using f h by auto
      have "pending_ok s' sid t" using ts by (simp add: pending_ok_def tur)
      moreover have "rt_active rt = [] \<Longrightarrow> active_ok s' D sid t"
        using ts by (simp add: active_ok_def tur terminal_def D_def)
      ultimately show ?thesis
        using ro rt' new pend act t(1) room(1) unfolding eq
        by (auto simp: runtime_ok_def frame split: if_splits)
    qed
  qed
  have "t \<notin> set (rt_pending v)"
    if idle: "rt_active rt = []" and v: "runtime_of s' k = Some (q, v)" for k q v
  proof -
    obtain w where w: "runtime_of s k = Some (q, w)" "v = (if q = r then rt' else w)"
      using v by (auto simp: run)
    then have h': "\<exists>x. sv_heap s q = Some (x, w)" using service_ok_runtime [OF srv] by blast
    then have "t \<notin> set (rt_pending w)" using f by auto
    moreover have "rt_pending rt' = rt_pending w" if "q = r"
      using h' that h rt'(1) idle by auto
    ultimately show ?thesis using w(2) by auto
  qed
  then have "section_ok s' (KDispatch t)" if "rt_active rt = []"
    using that by (auto simp: section_ok_def)
  with srv' sect runs show ?thesis unfolding state_ok_def D_def by (auto split: if_splits)
qed

lemma advance_ok_live_eq: "live_turn s' = live_turn s \<Longrightarrow> advance_ok (live_turn s) ks \<Longrightarrow> advance_ok (live_turn s') ks"
  by simp

lemma accept_section:
  assumes ok: "state_ok s (insert (KAccept sid r created i) C)"
    and adv: "advance_ok (live_turn s) (KAccept sid r created i # ks)" and ks: "set ks \<subseteq> C"
    and env: "env_ok e (KAccept sid r created i) s (insert (KAccept sid r created i) C)"
    and ex: "(s', todo, spawned) = exec_section e (KAccept sid r created i) s"
  shows "step_ok s C ks s' todo spawned"
proof -
  have C: "state_ok s C" by (rule state_ok_sections [OF ok]) auto
  have adv: "advance_ok (live_turn s) ks" using adv by simp
  obtain rt where h: "sv_heap s r = Some (sid, rt)"
    using section_ok_insert [OF ok] by (auto simp: section_ok_def)
  define t where "t = en_id e"
  define p where "p = prune_locked (en_clk e 1) s"
  have p: "state_ok p C" "live_turn p = live_turn s" "sv_heap p = sv_heap s"
    using prune_state_ok [OF C, of "en_clk e 1"] by (simp_all add: p_def)
  have quiet: "step_ok s C ks p [] []" using p adv by (simp add: step_ok_def)
  show ?thesis
  proof (cases "sv_closed s")
    case True
    with ex C adv show ?thesis by (simp add: accept_locked_def step_ok_def)
  next
    case open_: False
    define full where "full \<longleftrightarrow> sv_max_queue p \<le> length (rt_pending rt) + (if rt_active rt \<noteq> [] then 1 else 0) \<or>
                sv_max_turns p \<le> length (sv_turns p)"
    show ?thesis
    proof (cases full)
      case True
      show ?thesis
      proof (cases "created \<and> rt_active rt = [] \<and> rt_pending rt = [] \<and> map_of (sv_sessions s) sid = Some r")
        case False
        with ex open_ h True have "s' = p" "todo = []" "spawned = []"
          by (auto simp: accept_locked_def Let_def full_def p_def split: if_splits)
        with quiet show ?thesis by simp
      next
        case drop: True
        let ?s = "p\<lparr>sv_sessions := AList.delete sid (sv_sessions p)\<rparr>"
        have s': "s' = ?s" "todo = [KCloseRuntime r]" "spawned = []"
          using ex open_ h True drop
          by (simp_all add: accept_locked_def Let_def full_def p_def)
        have "state_ok ?s C" by (rule drop_session_state_ok [OF p(1)])
        then have "state_ok ?s (insert (KCloseRuntime r) C)" by (rule state_ok_sections) auto
        with s' p adv show ?thesis by (simp add: step_ok_def)
      qed
    next
      case room: False
      define pos where "pos = (if rt_active rt = [] then 0 else length (rt_pending rt @ [t]))"
      define ts where "ts = new_turn_state t sid (en_clk e 0) i"
      define ts' where "ts' = ts\<lparr>ts_turn := (ts_turn ts)\<lparr>tu_position := pos\<rparr>\<rparr>"
      define rt' where "rt' = (if rt_active rt = [] then rt\<lparr>rt_active := t\<rparr>
          else rt\<lparr>rt_pending := rt_pending rt @ [t]\<rparr>)\<lparr>rt_revision := rt_revision rt + 1\<rparr>"
      define n where "n = (upd_runtime r (\<lambda>_. rt') p)\<lparr>sv_turns := AList.update t ts' (sv_turns p)\<rparr>"
      have id: "tu_id (ts_turn ts') = t" by (simp add: ts'_def ts_def new_turn_state_def)
      have s': "s' = n" "spawned = []" and
        todo: "todo = KReadQueue sid (Some t) # (if rt_active rt = [] then [KDispatch t] else [])"
        using ex open_ h room unfolding n_def rt'_def ts'_def ts_def pos_def p_def t_def full_def
        by (auto simp: accept_locked_def Let_def new_turn_state_def)
      have old: "fresh_turn s C t" using env by (auto simp: fresh_turn_def t_def)
      then have "turn_of s t = None" by (simp add: fresh_turn_def)
      moreover have "distinct (keys_of (sv_turns s))" using C service_okD(2) by (simp add: state_ok_def)
      ultimately have "turn_of p t = None"
        using prune_keeps(3) [of s "en_clk e 1" t] by (cases "turn_of p t") (auto simp: p_def)
      with old p(3) have fresh: "fresh_turn p C t" by (simp add: fresh_turn_def)
      define D where "D = (if rt_active rt = [] then insert (KDispatch t) C else C)"
      have "state_ok n D" unfolding n_def D_def id [symmetric]
      proof (rule enter_state_ok [OF p(1)])
        show "sv_heap p r = Some (sid, rt)" using h p(3) by simp
        show "fresh_turn p C (tu_id (ts_turn ts'))" using fresh id by simp
      qed (use room in \<open>auto simp: ts'_def ts_def new_turn_state_def rt'_def full_def\<close>)
      then have st: "state_ok n (C \<union> set todo)"
        by (rule state_ok_sections) (auto simp: todo D_def split: if_splits)
      have live: "live_turn n u \<Longrightarrow> live_turn s u \<or> u = t" for u
        using p(2) by (auto simp: live_turn_def n_def fun_eq_iff split: if_splits)
      have new: "t \<notin> bound_turns C" using fresh by (simp add: fresh_turn_def)
      have "advance_ok (live_turn n) ks"
        by (rule advance_ok_live [OF adv ks]) (use live new in auto)
      then have "advance_ok (live_turn n) (todo @ ks)" by (simp add: todo)
      with st s' live new show ?thesis by (auto simp: step_ok_def)
    qed
  qed
qed



section \<open>The invariant of the system\<close>

lemma section_preserves:
  assumes "state_ok s (insert k C)" "advance_ok (live_turn s) (k # ks)" "set ks \<subseteq> C"
    and "env_ok e k s (insert k C)" and "exec_section e k s = (s', todo, spawned)"
  shows "step_ok s C ks s' todo spawned"
proof -
  note quiet = quiet_sections [OF assms(1,2) assms(5) [symmetric]]
  note ex = assms(5) [symmetric]
  show ?thesis
  proof (cases k)
    case (KInstall sid i inp)
    show ?thesis by (rule install_section) (use assms KInstall in auto)
  next
    case (KAccept sid r c i)
    show ?thesis by (rule accept_section) (use assms KAccept in auto)
  next
    case (KCloseRuntime r)
    with close_runtime_section [of s r C ks] assms show ?thesis by simp
  next
    case (KAccepted t n)
    with accepted_section [of s t n C ks] assms show ?thesis by simp
  next
    case (KDispatch t)
    show ?thesis by (rule dispatch_section) (use assms ex KDispatch in auto)
  next
    case (KCancel t)
    show ?thesis by (rule cancel_section) (use assms ex KCancel in auto)
  next
    case (KFinish t st reason)
    with finish_section [of s t st reason C ks "en_clk e 0"] assms show ?thesis by simp
  next
    case (KAdvance sid t)
    show ?thesis by (rule advance_section) (use assms ex KAdvance in auto)
  next
    case (KReorder sid n ids)
    show ?thesis by (rule reorder_section) (use assms ex KReorder in auto)
  next
    case (KCloseSession sid)
    show ?thesis by (rule close_session_section) (use assms ex KCloseSession in auto)
  next
    case (KEvent sid kd p)
    show ?thesis by (rule event_section) (use assms ex KEvent in auto)
  qed (erule quiet)+
qed

lemma entry_section_ok: "entry_section k \<Longrightarrow> section_ok s k \<and> advance_ok l [k]"
  by (cases k) auto

lemma sys_step_inv:
  assumes "sys_step x y" "sys_inv x"
  shows "sys_inv y"
  using assms
proof (induction rule: sys_step.induct)
  case (sys_call k s ths)
  then have "state_ok s (sections ths)" by (simp add: sys_inv_def)
  then have "state_ok s (sections (ths @ [[k]]))"
    by (rule state_ok_sections) (use entry_section_ok [OF sys_call.hyps] in auto)
  with sys_call entry_section_ok [of k s] show ?case by (auto simp: sys_inv_def)
next
  case (sys_exec e k s A ks B s' todo spawned)
  define C where "C = sections A \<union> set ks \<union> sections B"
  have eq: "sections (A @ (k # ks) # B) = insert k C" by (auto simp: C_def)
  have ok: "state_ok s (insert k C)"
    using sys_exec.prems unfolding sys_inv_def prod.case eq by blast
  have adv: "advance_ok (live_turn s) (k # ks)"
    and oth: "\<forall>t \<in> set A \<union> set B. advance_ok (live_turn s) t"
    using sys_exec.prems by (simp_all add: sys_inv_def)
  have st: "step_ok s C ks s' todo spawned"
    by (rule section_preserves [OF ok adv _ _ sys_exec.hyps(2)])
       (use sys_exec.hyps(1) eq in \<open>auto simp: C_def\<close>)
  have "advance_ok (live_turn s') t" if "t \<in> set A \<union> set B" for t
    by (rule advance_ok_live [of s t C]) (use oth that st in \<open>auto simp: C_def step_ok_def\<close>)
  moreover have "sections (A @ (todo @ ks) # B @ spawned) = C \<union> set todo \<union> sections spawned"
    by (auto simp: C_def)
  moreover have "advance_ok (live_turn s') (todo @ ks)" "\<forall>t \<in> set spawned. advance_ok (live_turn s') t"
    "state_ok s' (C \<union> set todo \<union> sections spawned)" using st by (simp_all add: step_ok_def)
  ultimately show ?case unfolding sys_inv_def by auto
qed

lemma sys_init_inv: "sys_inv (new_service h c, [])"
  by (auto simp: sys_inv_def state_ok_def service_ok_def new_service_def runtime_of_def)

lemma sys_reach_inv: "sys_reach h c x \<Longrightarrow> sys_inv x"
  by (induction rule: sys_reach.induct) (auto intro: sys_init_inv sys_step_inv)

end
