(* ===== verification/Turn_Properties.thy ===== *)
theory Turn_Properties
  imports Turn_Invariant Event_Properties "HOL-Library.Multiset"
begin

text \<open>
  The properties of the turn service: what holds of queues and turns in every interleaving
  of its sections, what Start, Reorder, pruning and the queue view do, and two behaviours
  of the code that its callers have to live with: a turn lost between Start and
  CloseSession, and a watch loop that ends when its subscription overflows.
\<close>

section \<open>Concrete services for the instances\<close>

lemma trim_space_go: "trim_space ''go'' = ''go''"
  by (simp add: trim_space_def trim_left.simps [of "''go''"] trim_right.simps [of "''go''"] ws_runes_def
      has_suffix_def)

definition ex_inference :: inference where
  "ex_inference = \<lparr>in_model = [], in_provider = [], in_max_output_tokens = None, in_temperature = None,
     in_top_p = None, in_top_k = None, in_frequency_penalty = None, in_presence_penalty = None,
     in_think = None, in_reasoning_effort = None\<rparr>"

definition ex_input :: turn_input where
  "ex_input = \<lparr>ti_prompt = ''go'', ti_attachments = [], ti_references = [], ti_inference = ex_inference,
     ti_scope = None\<rparr>"

definition ex_turns :: turn_config where
  "ex_turns = \<lparr>tc_max_queue = 2, tc_max_input = 100, tc_retention = 0, tc_max_turns = 3\<rparr>"

definition ex_service :: service where
  "ex_service = new_service (Some (new_hub ex_config)) ex_turns"

definition ex_uid :: "char \<Rightarrow> nat \<Rightarrow> string" where "ex_uid c n = c # replicate n CHR ''x''"

lemmas turn_eval = new_service_def ex_service_def ex_turns_def ex_input_def ex_inference_def
  start_def start_input_def start_check_def input_size_def ensure_runtime_def ensure_lookup_def
  ensure_subscribe_def ensure_install_def accept_locked_def new_turn_state_def prune_locked_def
  evict_loop.simps upd_runtime_def upd_turn_def runtime_of_def publish_queue_def publish_event_def
  queue_news_def queue_locked_def set_accepted_def dispatch_turn_def get_turn_def close_runtime_def
  close_sub_def unix_milli_def terminal_def turn_truncate_def preview_bytes_def ex_uid_def trim_space_go



text \<open>Running the first section of the n-th thread.\<close>

definition run_at :: "nat \<Rightarrow> step_env \<Rightarrow> service \<times> thread list \<Rightarrow> service \<times> thread list" where
  "run_at n e x =
     (case x of (s, ths) \<Rightarrow>
        (case ths ! n of
           [] \<Rightarrow> x
         | k # ks \<Rightarrow>
             (case exec_section e k s of
                (s', todo, spawned) \<Rightarrow> (s', take n ths @ (todo @ ks) # drop (Suc n) ths @ spawned))))"

lemma run_at_step:
  assumes "n < length (snd x)" "snd x ! n \<noteq> []"
    and env: "env_ok e (hd (snd x ! n)) (fst x) (sections (snd x))"
  shows "sys_step x (run_at n e x)"
proof -
  obtain k ks where kk: "snd x ! n = k # ks" using assms(2) by (cases "snd x ! n") auto
  obtain s ths where x: "x = (s, ths)" by (cases x)
  obtain s' todo spawned where ex: "exec_section e k s = (s', todo, spawned)"
    by (metis prod_cases3)
  have ths: "ths = take n ths @ (k # ks) # drop (Suc n) ths"
    using id_take_nth_drop [of n ths] assms(1) kk x by simp
  have "sys_step (s, take n ths @ (k # ks) # drop (Suc n) ths)
      (s', take n ths @ (todo @ ks) # drop (Suc n) ths @ spawned)"
    by (rule sys_exec [OF _ ex]) (use env kk x ths in simp)
  with kk x ex ths show ?thesis by (simp add: run_at_def)
qed

lemma run_at_reach:
  "sys_reach h c x \<Longrightarrow> n < length (snd x) \<Longrightarrow> snd x ! n \<noteq> [] \<Longrightarrow>
   env_ok e (hd (snd x ! n)) (fst x) (sections (snd x)) \<Longrightarrow> sys_reach h c (run_at n e x)"
  by (blast intro: sys_next run_at_step)

text \<open>A call of the service: one more thread.\<close>

definition call :: "cont \<Rightarrow> service \<times> thread list \<Rightarrow> service \<times> thread list" where
  "call k x = (fst x, snd x @ [[k]])"

lemma call_reach: "sys_reach h c x \<Longrightarrow> entry_section k \<Longrightarrow> sys_reach h c (call k x)"
  using sys_call [of k "fst x" "snd x"] by (auto simp: call_def intro: sys_next)

definition ex_env :: "string \<Rightarrow> step_env" where
  "ex_env i = \<lparr>en_clk = (\<lambda>_. 0), en_id = i, en_yes = False, en_err = None\<rparr>"

definition ex_race1 :: "service \<times> thread list" where
  "ex_race1 = run_at 0 (ex_env ''i'') (run_at 0 (ex_env ''i'') (run_at 0 (ex_env ''i'')
     (call (KEnsure ''s'' ex_input) (ex_service, []))))"

definition ex_race2 :: "service \<times> thread list" where
  "ex_race2 = run_at 1 (ex_env ''i'') (call (KCloseSession ''s'') ex_race1)"

definition ex_race3 :: "service \<times> thread list" where
  "ex_race3 = run_at 0 (ex_env ''t'') ex_race2"

text \<open>Two turns of one session: the first runs, the second waits.\<close>

definition ex_two :: "service \<times> thread list" where
  "ex_two = run_at 2 (ex_env ''u'') (run_at 2 (ex_env ''i'') (call (KEnsure ''s'' ex_input)
     (run_at 0 (ex_env ''e2'') (run_at 0 (ex_env ''e1'') (run_at 0 (ex_env ''e1'')
       (run_at 0 (ex_env ''e1'') (run_at 0 (ex_env ''t'') ex_race1)))))))"

definition ex_cancelled :: "service \<times> thread list" where
  "ex_cancelled = run_at 3 (ex_env ''e3'') (call (KCancel ''u'') ex_two)"

lemmas race_eval = turn_eval ex_race1_def ex_race2_def ex_race3_def ex_two_def ex_cancelled_def
  call_def run_at_def ex_env_def close_session_locked_def cancel_locked_def fresh_turn_def
  bound_turns_def finish_locked_def finish_state_def AList.delete_eq

lemma ex_race1_reach: "sys_reach (Some (new_hub ex_config)) ex_turns ex_race1"
proof -
  let ?reach = "sys_reach (Some (new_hub ex_config)) ex_turns"
  have "?reach (ex_service, [])" unfolding ex_service_def by (rule sys_init)
  then have "?reach (call (KEnsure ''s'' ex_input) (ex_service, []))" by (rule call_reach) simp
  then show ?thesis unfolding ex_race1_def
    by (intro run_at_reach) (simp_all add: race_eval hub_eval)
qed

lemma ex_two_reach: "sys_reach (Some (new_hub ex_config)) ex_turns ex_two"
proof -
  let ?reach = "sys_reach (Some (new_hub ex_config)) ex_turns"
  let ?a = "run_at 0 (ex_env ''t'') ex_race1"
  let ?b = "run_at 0 (ex_env ''e1'') ?a"
  let ?c = "run_at 0 (ex_env ''e1'') ?b"
  let ?d = "run_at 0 (ex_env ''e1'') ?c"
  let ?e = "run_at 0 (ex_env ''e2'') ?d"
  let ?f = "call (KEnsure ''s'' ex_input) ?e"
  have "?reach ?a" by (rule run_at_reach [OF ex_race1_reach]) (simp_all add: race_eval hub_eval)
  then have "?reach ?b" by (rule run_at_reach) (simp_all add: race_eval hub_eval)
  then have "?reach ?c" by (rule run_at_reach) (simp_all add: race_eval hub_eval)
  then have "?reach ?d" by (rule run_at_reach) (simp_all add: race_eval hub_eval)
  then have "?reach ?e" by (rule run_at_reach) (simp_all add: race_eval hub_eval)
  then have "?reach ?f" by (rule call_reach) simp
  then have "?reach (run_at 2 (ex_env ''i'') ?f)"
    by (rule run_at_reach) (simp_all add: race_eval hub_eval)
  then show ?thesis unfolding ex_two_def
    by (rule run_at_reach) (simp_all add: race_eval hub_eval)
qed

lemma ex_two_runtime:
  "\<exists>r rt. runtime_of (fst ex_two) ''s'' = Some (r, rt) \<and> rt_active rt = ''t'' \<and> rt_pending rt = [''u''] \<and>
     rt_revision rt = 2"
  by (simp add: race_eval hub_eval)

section \<open>The queue in every interleaving\<close>

text \<open>
  C2. In every reachable state of the concurrent service the queue of a session is well
  formed: pending turns are distinct, differ from the active one, belong to the session,
  are queued and neither dispatched nor marked for cancellation, and the queue respects
  its limit.
\<close>

theorem turn_queue_invariant:
  assumes "sys_reach h c (s, ths)" and "runtime_of s sid = Some (r, rt)"
  shows "distinct (rt_pending rt) \<and> rt_active rt \<notin> set (rt_pending rt) \<and>
    length (rt_pending rt) + (if rt_active rt \<noteq> [] then 1 else 0) \<le> sv_max_queue s \<and>
    (\<forall>p \<in> set (rt_pending rt). \<exists>ts. turn_of s p = Some ts \<and> tu_session (ts_turn ts) = sid \<and>
       status_of ts = StatusQueued \<and> \<not> ts_dispatched ts \<and> \<not> ts_cancel_requested ts)"
proof -
  have "runtime_ok s (sections ths) sid rt"
    using sys_reach_inv [OF assms(1)] assms(2) by (simp add: sys_inv_def state_ok_def)
  then show ?thesis by (auto simp: runtime_ok_def pending_ok_def)
qed

theorem turn_queue_invariant_witness:
  "\<exists>r rt. runtime_of (fst ex_two) ''s'' = Some (r, rt) \<and> rt_pending rt = [''u''] \<and>
     (\<exists>ts. turn_of (fst ex_two) ''u'' = Some ts \<and> status_of ts = StatusQueued)"
proof -
  obtain r rt where rt: "runtime_of (fst ex_two) ''s'' = Some (r, rt)" "rt_pending rt = [''u'']"
    using ex_two_runtime by blast
  have "sys_reach (Some (new_hub ex_config)) ex_turns (fst ex_two, snd ex_two)"
    using ex_two_reach by simp
  from turn_queue_invariant [OF this rt(1)] rt show ?thesis by auto
qed

text \<open>
  C15. No session stalls: an idle session has nothing pending; the active turn of a busy
  one is either live with its run dispatched (or its dispatch still to come in some
  thread), or some thread has yet to advance the session past it.
\<close>

theorem turn_no_stall:
  assumes "sys_reach h c (s, ths)" and "runtime_of s sid = Some (r, rt)"
  shows "(rt_active rt = [] \<longrightarrow> rt_pending rt = []) \<and>
    (rt_active rt \<noteq> [] \<longrightarrow>
       (\<exists>ts. turn_of s (rt_active rt) = Some ts \<and> tu_session (ts_turn ts) = sid \<and>
          \<not> terminal (status_of ts) \<and>
          (ts_dispatched ts \<or> (\<exists>ks \<in> set ths. KDispatch (rt_active rt) \<in> set ks))) \<or>
       (\<exists>ks \<in> set ths. KAdvance sid (rt_active rt) \<in> set ks))"
proof -
  have "runtime_ok s (sections ths) sid rt"
    using sys_reach_inv [OF assms(1)] assms(2) by (simp add: sys_inv_def state_ok_def)
  then show ?thesis unfolding runtime_ok_def active_ok_def by auto
qed

theorem turn_no_stall_witness:
  "\<exists>r rt ts. runtime_of (fst ex_two) ''s'' = Some (r, rt) \<and> rt_active rt = ''t'' \<and>
     turn_of (fst ex_two) ''t'' = Some ts \<and> \<not> terminal (status_of ts)"
proof -
  obtain r rt where rt: "runtime_of (fst ex_two) ''s'' = Some (r, rt)" "rt_active rt = ''t''"
    using ex_two_runtime by blast
  have "\<forall>ks \<in> set (snd ex_two). KAdvance ''s'' ''t'' \<notin> set ks" by (simp add: race_eval hub_eval)
  moreover have "sys_reach (Some (new_hub ex_config)) ex_turns (fst ex_two, snd ex_two)"
    using ex_two_reach by simp
  ultimately show ?thesis using turn_no_stall [OF _ rt(1)] rt by fastforce
qed

text \<open>
  Every turn that is not terminal is the active or a pending turn of a runtime made for
  its session; the done channel of a turn is closed exactly when it is terminal; and the
  table of turns stays within its limit.
\<close>

theorem turn_tracked:
  assumes "sys_reach h c (s, ths)"
  shows "length (sv_turns s) \<le> sv_max_turns s \<and>
    (\<forall>t ts. turn_of s t = Some ts \<longrightarrow>
       tu_id (ts_turn ts) = t \<and> ts_done ts = terminal (status_of ts) \<and>
       (terminal (status_of ts) \<or>
        (\<exists>r rt. sv_heap s r = Some (tu_session (ts_turn ts), rt) \<and>
           (t = rt_active rt \<or> t \<in> set (rt_pending rt)))))"
proof -
  have so: "service_ok s" using sys_reach_inv [OF assms] by (simp add: sys_inv_def state_ok_def)
  have "tu_id (ts_turn ts) = t \<and> ts_done ts = terminal (status_of ts) \<and>
       (terminal (status_of ts) \<or>
        (\<exists>r rt. sv_heap s r = Some (tu_session (ts_turn ts), rt) \<and>
           (t = rt_active rt \<or> t \<in> set (rt_pending rt))))" if "turn_of s t = Some ts" for t ts
    using service_okD(5,6) [OF so that] by (auto simp: turn_ok_def tracked_def)
  then show ?thesis using service_okD(7) [OF so] by blast
qed

theorem turn_tracked_witness:
  "length (sv_turns (fst ex_two)) \<le> 3"
proof -
  have "sys_reach (Some (new_hub ex_config)) ex_turns (fst ex_two, snd ex_two)"
    using ex_two_reach by simp
  from turn_tracked [OF this] show ?thesis by (simp add: race_eval hub_eval)
qed

section \<open>Terminal turns\<close>

definition frozen :: "service \<Rightarrow> service \<Rightarrow> bool" where
  "frozen s s' \<longleftrightarrow>
     (\<forall>t ts ts'. turn_of s t = Some ts \<longrightarrow> terminal (status_of ts) \<longrightarrow> turn_of s' t = Some ts' \<longrightarrow>
        (ts_turn ts')\<lparr>tu_accepted := 0\<rparr> = (ts_turn ts)\<lparr>tu_accepted := 0\<rparr>)"

lemma frozen_same [intro]: "sv_turns s' = sv_turns s \<Longrightarrow> frozen s s'"
  by (simp add: frozen_def)

lemma frozen_trans:
  "frozen s s' \<Longrightarrow> frozen s' s'' \<Longrightarrow> keys_of (sv_turns s') = keys_of (sv_turns s) \<Longrightarrow> frozen s s''"
  unfolding frozen_def
proof (intro allI impI)
  fix t ts ts''
  assume a: "\<forall>t ts ts'. turn_of s t = Some ts \<longrightarrow> terminal (status_of ts) \<longrightarrow> turn_of s' t = Some ts' \<longrightarrow>
        (ts_turn ts')\<lparr>tu_accepted := 0\<rparr> = (ts_turn ts)\<lparr>tu_accepted := 0\<rparr>"
    "\<forall>t ts ts'. turn_of s' t = Some ts \<longrightarrow> terminal (status_of ts) \<longrightarrow> turn_of s'' t = Some ts' \<longrightarrow>
        (ts_turn ts')\<lparr>tu_accepted := 0\<rparr> = (ts_turn ts)\<lparr>tu_accepted := 0\<rparr>"
    and k: "keys_of (sv_turns s') = keys_of (sv_turns s)"
    and t: "turn_of s t = Some ts" "terminal (status_of ts)" "turn_of s'' t = Some ts''"
  obtain ts' where t': "turn_of s' t = Some ts'"
    using t(1) k map_of_eq_None_iff [of "sv_turns s'" t] map_of_eq_None_iff [of "sv_turns s" t]
    by (metis list.set_map not_None_eq option.distinct(1))
  have eq: "(ts_turn ts')\<lparr>tu_accepted := 0\<rparr> = (ts_turn ts)\<lparr>tu_accepted := 0\<rparr>" using a(1) t t' by blast
  then have "status_of ts' = status_of ts" by (metis turn.select_convs(3) turn.surjective turn.update_convs(5))
  with a(2) t t' eq show "(ts_turn ts'')\<lparr>tu_accepted := 0\<rparr> = (ts_turn ts)\<lparr>tu_accepted := 0\<rparr>" by metis
qed

lemma frozen_upd_turn:
  "(\<And>ts. turn_of s t = Some ts \<Longrightarrow> terminal (status_of ts) \<Longrightarrow>
     (ts_turn (f ts))\<lparr>tu_accepted := 0\<rparr> = (ts_turn ts)\<lparr>tu_accepted := 0\<rparr>) \<Longrightarrow>
   frozen s (upd_turn t f s)"
  by (auto simp: frozen_def split: if_splits)

lemma frozen_finish_all: "frozen s (finish_all clk n ids s) \<and> 
    keys_of (sv_turns (finish_all clk n ids s)) = keys_of (sv_turns s)"
proof (induction clk n ids s rule: finish_all.induct)
  case (2 clk n i ids s)
  show ?case
  proof (cases "live_turn s i")
    case True
    then obtain ts where ts: "turn_of s i = Some ts" "\<not> terminal (status_of ts)"
      by (auto simp: live_turn_def)
    let ?s = "finish_locked i StatusCancelled ''session_closed'' [] (clk n) s"
    have "frozen s ?s" unfolding finish_locked_def by (rule frozen_upd_turn) (use ts in simp)
    moreover have "keys_of (sv_turns ?s) = keys_of (sv_turns s)" by (simp add: finish_locked_def)
    ultimately show ?thesis using "2.IH"(2) [OF ts] frozen_trans ts by simp
  next
    case False
    with "2.IH"(1,3) show ?thesis by (auto simp: live_turn_def split: option.split)
  qed
qed (auto simp: frozen_def)

lemma frozen_runtime [simp]: "frozen s (upd_runtime r f s') = frozen s s'"
  by (simp add: frozen_def)

lemma frozen_sessions [simp]: "frozen (s\<lparr>sv_sessions := x\<rparr>) s' = frozen s s'"
  by (simp add: frozen_def)


lemma frozen_accept:
  assumes "distinct (keys_of (sv_turns s))" "turn_of s (tu_id (ts_turn ts)) = None"
  shows "frozen s (fst (accept_locked sid r created ts now s))"
proof -
  have p: "turn_of s t = Some v" if "turn_of (prune_locked now s) t = Some v" for t v
    using prune_keeps(3) [OF assms(1) that] .
  have "turn_of s t = Some v \<or> t = tu_id (ts_turn ts)"
    if "turn_of (fst (accept_locked sid r created ts now s)) t = Some v" for t v
    using that p [of t v] by (auto simp: accept_locked_def Let_def split: if_splits option.splits)
  with assms(2) show ?thesis by (fastforce simp: frozen_def)
qed

lemma frozen_event: "frozen s (fst (handle_event_locked sid k p now fin s))"
proof (cases "live_turn s (tn_turn_id p)")
  case False
  then have "fst (handle_event_locked sid k p now fin s) = s"
    by (auto simp: handle_event_locked_def Let_def live_turn_def split: option.splits)
  then show ?thesis by auto
next
  case True
  then obtain ts where "turn_of s (tn_turn_id p) = Some ts" "\<not> terminal (status_of ts)"
    by (auto simp: live_turn_def)
  then have "frozen s (upd_turn (tn_turn_id p) f s)" for f by (intro frozen_upd_turn) simp
  then show ?thesis
    by (cases k) (auto simp: handle_event_locked_def Let_def finish_locked_def split: option.split)
qed

lemma frozen_cancel: "frozen s (fst (cancel_locked t now s))"
proof (cases "live_turn s t")
  case False
  then have "fst (cancel_locked t now s) = s"
    by (auto simp: cancel_locked_def live_turn_def split: option.splits)
  then show ?thesis by auto
next
  case True
  then obtain ts where "turn_of s t = Some ts" "\<not> terminal (status_of ts)"
    by (auto simp: live_turn_def)
  then have "frozen s (upd_turn t f s)" for f by (intro frozen_upd_turn) simp
  then show ?thesis
    by (auto simp: cancel_locked_def Let_def finish_locked_def remove_id_remove1
        split: option.split prod.split bool.split)
qed

lemma exec_frozen:
  assumes ok: "service_ok s" and env: "env_ok e k s C" and ex: "exec_section e k s = (s', todo, spawned)"
  shows "frozen s s'"
proof (cases k)
  case (KAccept sid r c i)
  let ?a = "accept_locked sid r c (new_turn_state (en_id e) sid (en_clk e 0) i) (en_clk e 1) s"
  have "s' = fst ?a" using ex KAccept by (auto split: prod.splits accept_result.splits)
  moreover have "frozen s (fst ?a)"
    by (rule frozen_accept [OF service_okD(2) [OF ok]])
       (use env KAccept in \<open>simp add: fresh_turn_def new_turn_state_def\<close>)
  ultimately show ?thesis by simp
next
  case (KCloseSession sid)
  then have "sv_turns s' = sv_turns s \<or>
      (\<exists>ids. s' = finish_all (en_clk e) 0 ids (s\<lparr>sv_sessions := AList.delete sid (sv_sessions s)\<rparr>))"
    using ex by (fastforce simp: close_session_locked_def simp del: finish_all.simps
        split: option.splits)
  moreover have "frozen s (finish_all clk n ids (s\<lparr>sv_sessions := x\<rparr>))" for clk n ids x
    using frozen_finish_all [of "s\<lparr>sv_sessions := x\<rparr>" clk n ids] by simp
  ultimately show ?thesis by auto
next
  case (KEvent sid kd p)
  then have "s' = fst (handle_event_locked sid kd p (en_clk e 0) (en_clk e 1) s)"
    using ex by (auto split: prod.splits after_event.splits)
  then show ?thesis using frozen_event by simp
next
  case (KCancel t)
  then have "s' = fst (cancel_locked t (en_clk e 0) s)"
    using ex by (auto split: prod.splits cancel_result.splits)
  then show ?thesis using frozen_cancel by simp
next
  case (KFinish t st reason)
  then have "s' = finish_turn t st reason [] (en_clk e 0) s" using ex by simp
  then show ?thesis
    by (auto simp: finish_turn_def finish_locked_def intro!: frozen_upd_turn split: option.split)
next
  case (KAccepted t n)
  then have "s' = set_accepted t n s" using ex by simp
  then show ?thesis by (auto simp: set_accepted_def intro!: frozen_upd_turn)
next
  case (KDispatch t)
  then have "s' = s \<or> (\<exists>x. s' = (upd_turn t (\<lambda>ts. ts\<lparr>ts_dispatched := True\<rparr>) s)\<lparr>sv_tasks := x\<rparr>)"
    using ex by (simp add: dispatch_turn_def Let_def split: option.splits if_splits) blast
  moreover have "frozen s (v\<lparr>sv_tasks := x\<rparr>) = frozen s v" for v x by (simp add: frozen_def)
  ultimately show ?thesis by (auto intro!: frozen_upd_turn)
next
  case (KAdvance sid t)
  with ex show ?thesis by (auto simp: advance_locked_def frozen_same split: option.splits if_splits)
next
  case (KReorder sid n ids)
  with ex show ?thesis
    by (auto simp: reorder_locked_def Let_def frozen_same split: option.splits if_splits)
next
  case (KCloseRuntime r)
  with ex close_runtime_core [of r s] show ?thesis by (auto simp: same_core_def)
next
  case (KInstall sid i inp)
  with ex show ?thesis by (auto simp: ensure_install_def close_sub_def split: option.splits)
next
  case (KSubscribe sid i)
  with ex show ?thesis
    by (auto dest!: ensure_subscribe_core simp: same_core_def split: prod.splits sum.splits)
next
  case (KPublish sid news t)
  with ex show ?thesis
    by (auto dest!: publish_event_core simp: same_core_def split: prod.splits sum.splits)
next
  case (KPublishFailed sid t)
  with ex show ?thesis
    by (auto dest!: publish_event_core simp: same_core_def split: prod.splits sum.splits)
next
  case (KEnsure sid i)
  with ex show ?thesis by (auto split: option.splits sum.splits)
qed (use ex in \<open>auto simp: log_call_def split: prod.splits sum.splits if_splits\<close>)

text \<open>
  A terminal turn is final: no step of any thread changes it, apart from recording the
  sequence number of the queue event that announced it; it may only be pruned.
\<close>

theorem terminal_turn_final:
  assumes "sys_reach h c x" and "sys_step x y"
    and "turn_of (fst x) t = Some ts" and "terminal (status_of ts)"
    and "turn_of (fst y) t = Some ts'"
  shows "(ts_turn ts')\<lparr>tu_accepted := 0\<rparr> = (ts_turn ts)\<lparr>tu_accepted := 0\<rparr>"
  using assms(2)
proof (cases rule: sys_step.cases)
  case (sys_call k s ths)
  with assms show ?thesis by simp
next
  case (sys_exec e k s A ks B s' todo spawned)
  have "service_ok s" using sys_reach_inv [OF assms(1)] sys_exec(1) by (simp add: sys_inv_def state_ok_def)
  then have "frozen s s'" by (rule exec_frozen) (fact sys_exec(3,4))+
  with assms(3-5) sys_exec(1,2) show ?thesis by (simp add: frozen_def)
qed

theorem terminal_turn_final_witness:
  "\<exists>ts ts'. turn_of (fst ex_cancelled) ''u'' = Some ts \<and>
     turn_of (fst (run_at 3 (ex_env ''e4'') ex_cancelled)) ''u'' = Some ts' \<and>
     status_of ts = StatusCancelled \<and> tu_reason (ts_turn ts') = ''queue_removed''"
proof -
  let ?y = "run_at 3 (ex_env ''e4'') ex_cancelled"
  have r: "sys_reach (Some (new_hub ex_config)) ex_turns ex_cancelled" unfolding ex_cancelled_def
    by (rule run_at_reach [OF call_reach [OF ex_two_reach]]) (simp_all add: race_eval hub_eval)
  have step: "sys_step ex_cancelled ?y"
    by (rule run_at_step) (simp_all add: race_eval hub_eval)
  have ex: "\<exists>ts ts'. turn_of (fst ex_cancelled) ''u'' = Some ts \<and> turn_of (fst ?y) ''u'' = Some ts' \<and>
      status_of ts = StatusCancelled \<and> tu_reason (ts_turn ts) = ''queue_removed''"
    by (simp add: race_eval hub_eval)
  then obtain ts ts' where ts: "turn_of (fst ex_cancelled) ''u'' = Some ts"
      "turn_of (fst ?y) ''u'' = Some ts'" "status_of ts = StatusCancelled"
      "tu_reason (ts_turn ts) = ''queue_removed''" by blast
  have "(ts_turn ts')\<lparr>tu_accepted := 0\<rparr> = (ts_turn ts)\<lparr>tu_accepted := 0\<rparr>"
    by (rule terminal_turn_final [OF r step ts(1) _ ts(2)]) (simp add: ts(3) terminal_def)
  then have "tu_reason ((ts_turn ts')\<lparr>tu_accepted := 0\<rparr>) = tu_reason ((ts_turn ts)\<lparr>tu_accepted := 0\<rparr>)"
    by (rule arg_cong)
  with ts show ?thesis by auto
qed


section \<open>Operations\<close>

text \<open>
  Reorder changes the queue exactly when the caller's revision is current and the order
  names pending turns without repetition. The queue is then a permutation of the old one
  with the listed turns first, in the order asked for, the others behind them in their old
  order, and a new revision; otherwise nothing changes.
\<close>

theorem reorder_permutes:
  assumes "runtime_of s sid = Some (r, rt)" and "distinct (rt_pending rt)"
    and "reorder_locked sid expected ids s = (s', res, changed)"
  shows "changed = (rt_revision rt = expected \<and> distinct ids \<and> set ids \<subseteq> set (rt_pending rt)) \<and>
    (\<not> changed \<longrightarrow> s' = s \<and>
       res = Inl (if rt_revision rt \<noteq> expected then ErrRevisionConflict else ErrInvalidOrder)) \<and>
    (changed \<longrightarrow> res = Inr (queue_locked sid s') \<and>
       (\<exists>rt'. runtime_of s' sid = Some (r, rt') \<and> rt_active rt' = rt_active rt \<and>
          rt_revision rt' = rt_revision rt + 1 \<and> mset (rt_pending rt') = mset (rt_pending rt) \<and>
          take (length ids) (rt_pending rt') = ids \<and>
          drop (length ids) (rt_pending rt') = filter (\<lambda>i. i \<notin> set ids) (rt_pending rt)))"
proof -
  have v: "order_valid (rt_pending rt) [] ids \<longleftrightarrow> set ids \<subseteq> set (rt_pending rt) \<and> distinct ids"
    by (simp add: order_valid_sound)
  show ?thesis
  proof (cases "rt_revision rt = expected \<and> order_valid (rt_pending rt) [] ids")
    case True
    have "mset (ids @ filter (\<lambda>i. i \<notin> set ids) (rt_pending rt)) = mset (rt_pending rt)"
      using reordered_perm(1,2) [of "rt_pending rt" ids] assms(2) True
      by (metis set_eq_iff_mset_eq_distinct)
    with True assms(1,3) v show ?thesis by (auto simp: reorder_locked_def Let_def)
  next
    case False
    with assms(1,3) v show ?thesis by (auto simp: reorder_locked_def)
  qed
qed

definition ex_reorder :: service where
  "ex_reorder = ex_service\<lparr>sv_sessions := [(''s'', 0)],
     sv_heap := [0 \<mapsto> (''s'', \<lparr>rt_active = ''t'', rt_pending = [''a'', ''b'', ''c''], rt_revision = 7,
       rt_paused = False, rt_sub = ''i'', rt_ctx_done = False, rt_done = False\<rparr>)]\<rparr>"

theorem reorder_permutes_witness:
  "\<exists>s' res r rt'. reorder_locked ''s'' 7 [''c'', ''a''] ex_reorder = (s', res, True) \<and>
     runtime_of s' ''s'' = Some (r, rt') \<and> take 2 (rt_pending rt') = [''c'', ''a''] \<and>
     drop 2 (rt_pending rt') = [''b'']"
proof -
  obtain s' res changed where re: "reorder_locked ''s'' 7 [''c'', ''a''] ex_reorder = (s', res, changed)"
    by (metis prod_cases3)
  have rt: "runtime_of ex_reorder ''s'' = Some (0, \<lparr>rt_active = ''t'', rt_pending = [''a'', ''b'', ''c''],
      rt_revision = 7, rt_paused = False, rt_sub = ''i'', rt_ctx_done = False, rt_done = False\<rparr>)"
    by (simp add: ex_reorder_def runtime_of_def)
  from reorder_permutes [OF rt _ re] re show ?thesis by (auto simp: numeral_2_eq_2)
qed

lemma oldest_terminal_finds:
  "i \<noteq> [] \<Longrightarrow> oldest_terminal ts i c \<noteq> [] \<or> (\<exists>v. ([], v) \<in> set ts)"
  by (induction ts i c rule: oldest_terminal.induct) auto

lemma oldest_terminal_none:
  assumes "oldest_terminal ts [] c = []" "\<forall>(i, v) \<in> set ts. i \<noteq> []" "(i, v) \<in> set ts"
  shows "\<not> terminal (status_of v)"
  using assms
proof (induction ts "[] :: string" c rule: oldest_terminal.induct)
  case (2 j w rest c)
  then show ?case using oldest_terminal_finds [of j rest] by (fastforce split: if_splits)
qed auto

lemma evict_loop_room:
  assumes "\<forall>(i, v) \<in> set ts. i \<noteq> []"
  shows "length (evict_loop n ts) < n \<or> (\<forall>(i, v) \<in> set (evict_loop n ts). \<not> terminal (status_of v))"
  using assms
proof (induction n ts rule: evict_loop.induct)
  case (1 n ts)
  let ?i = "oldest_terminal ts [] 0"
  show ?case
  proof (cases "length ts < n \<or> ?i = []")
    case True
    then have "evict_loop n ts = ts" by (subst evict_loop.simps) (auto simp: Let_def)
    with True oldest_terminal_none [OF _ "1.prems"] show ?thesis by fastforce
  next
    case False
    then have "evict_loop n ts = evict_loop n (AList.delete ?i ts)"
      by (subst evict_loop.simps) (simp add: Let_def)
    moreover have "\<forall>(i, v) \<in> set (AList.delete ?i ts). i \<noteq> []"
      using "1.prems" by (auto simp: AList.delete_eq)
    ultimately show ?thesis using "1.IH" False by auto
  qed
qed


text \<open>
  Pruning makes room or there is none to make: it never drops a turn that is not
  terminal, everything that stays is unchanged, and if the table is still full then no
  terminal turn is left in it.
\<close>

theorem prune_makes_room:
  assumes "service_ok s"
  shows "(length (sv_turns (prune_locked now s)) < sv_max_turns s \<or>
     (\<forall>t ts. turn_of (prune_locked now s) t = Some ts \<longrightarrow> \<not> terminal (status_of ts))) \<and>
    (\<forall>t ts. turn_of s t = Some ts \<longrightarrow> \<not> terminal (status_of ts) \<longrightarrow>
       turn_of (prune_locked now s) t = Some ts) \<and>
    (\<forall>t ts. turn_of (prune_locked now s) t = Some ts \<longrightarrow> turn_of s t = Some ts)"
proof -
  define P where "P = (\<lambda>(i :: string, ts). \<not> (terminal (status_of ts) \<and>
      tu_completed (ts_turn ts) < unix_milli (now - sv_retention s)))"
  have ne: "\<forall>(i, v) \<in> set (filter P (sv_turns s)). i \<noteq> []"
  proof
    fix x assume x: "x \<in> set (filter P (sv_turns s))"
    then have "turn_of s (fst x) = Some (snd x)"
      using map_of_is_SomeI [OF service_okD(2) [OF assms], of "fst x" "snd x"] by simp
    with service_okD(5) [OF assms this] show "case x of (i, v) \<Rightarrow> i \<noteq> []"
      by (simp add: turn_ok_def split_beta)
  qed
  have "sv_turns (prune_locked now s) = evict_loop (sv_max_turns s) (filter P (sv_turns s))"
    unfolding prune_locked_def Let_def P_def by simp
  with evict_loop_room [OF ne, of "sv_max_turns s"]
  have "length (sv_turns (prune_locked now s)) < sv_max_turns s \<or>
      (\<forall>(i, v) \<in> set (sv_turns (prune_locked now s)). \<not> terminal (status_of v))" by simp
  then have "length (sv_turns (prune_locked now s)) < sv_max_turns s \<or>
      (\<forall>t ts. turn_of (prune_locked now s) t = Some ts \<longrightarrow> \<not> terminal (status_of ts))"
    by (fastforce dest: map_of_SomeD)
  with prune_keeps(3,4) [OF service_okD(2) [OF assms], where now = now] show ?thesis by blast
qed

theorem prune_makes_room_witness:
  "turn_of (prune_locked 5 (fst ex_two)) ''u'' = turn_of (fst ex_two) ''u''"
proof -
  have so: "service_ok (fst ex_two)"
    using sys_reach_inv [OF ex_two_reach] by (simp add: sys_inv_def state_ok_def split_beta)
  have "\<exists>ts. turn_of (fst ex_two) ''u'' = Some ts \<and> \<not> terminal (status_of ts)"
    by (simp add: race_eval hub_eval)
  then obtain ts where ts: "turn_of (fst ex_two) ''u'' = Some ts" "\<not> terminal (status_of ts)" by blast
  from prune_makes_room [OF so, of 5] have "turn_of (prune_locked 5 (fst ex_two)) ''u'' = Some ts"
    using ts by blast
  with ts(1) show ?thesis by simp
qed

section \<open>Starting a turn\<close>

lemma runtime_of_map:
  "service_ok s \<Longrightarrow> runtime_of s k = None \<longleftrightarrow> map_of (sv_sessions s) k = None"
  using service_okD(3) [of s k] by (force simp: runtime_of_def split: option.splits)

lemma ensure_runtime_effect:
  assumes srv: "service_ok s" and ok: "ensure_runtime sid now i s = (s1, Inr (r, c))"
  obtains rt where
    "sv_turns s1 = sv_turns s" "sv_tasks s1 = sv_tasks s" "sv_heap s1 r = Some (sid, rt)"
    "runtime_of s1 sid = Some (r, rt)" "\<And>k. k \<noteq> sid \<Longrightarrow> runtime_of s1 k = runtime_of s k"
    "\<And>k q v. k \<noteq> sid \<Longrightarrow> runtime_of s1 k = Some (q, v) \<Longrightarrow> q \<noteq> r"
    "case runtime_of s sid of
       Some (r0, rt0) \<Rightarrow> r = r0 \<and> rt = rt0
     | None \<Rightarrow> rt_active rt = [] \<and> rt_pending rt = []"
proof (cases "map_of (sv_sessions s) sid")
  case (Some r0)
  with ok have s1: "s1 = s" "r = r0" by (auto simp: ensure_runtime_def ensure_lookup_def split: if_splits)
  obtain rt where rt: "sv_heap s r0 = Some (sid, rt)" using service_okD(3) [OF srv Some] by blast
  with Some have run: "runtime_of s sid = Some (r0, rt)" by (simp add: runtime_of_def)
  show ?thesis
  proof (rule that [of rt])
    show "q \<noteq> r" if "k \<noteq> sid" "runtime_of s1 k = Some (q, v)" for k q v
      using that s1 rt service_ok_runtime [OF srv] by auto
  qed (use s1 rt run in auto)
next
  case None
  then have run: "runtime_of s sid = None" using runtime_of_map [OF srv] by simp
  let ?n = "sv_next s"
  have fresh: "sv_heap s ?n = None"
    using service_okD(4) [OF srv, of ?n] by (cases "sv_heap s ?n") auto
  have other: "map_of (sv_sessions s) k \<noteq> Some ?n" for k
    using service_okD(3) [OF srv, of k ?n] fresh by auto
  obtain s0 i0 where s0: "ensure_subscribe sid now i s = (s0, Inr i0)" "ensure_install sid i0 s0 = (s1, r, c)"
    using ok None by (auto simp: ensure_runtime_def ensure_lookup_def split: if_splits prod.splits sum.splits)
  have core: "same_core s s0" "sv_tasks s0 = sv_tasks s"
    using s0(1) by (auto simp: ensure_subscribe_def same_core_def split: option.splits prod.splits sum.splits)
  let ?rt = "\<lparr>rt_active = [], rt_pending = [], rt_revision = 0, rt_paused = False,
                     rt_sub = i0, rt_ctx_done = False, rt_done = False\<rparr>"
  have s1: "s1 = s0\<lparr>sv_sessions := AList.update sid ?n (sv_sessions s),
             sv_heap := (sv_heap s)(?n \<mapsto> (sid, ?rt)), sv_next := Suc ?n\<rparr>" "r = ?n"
    using s0(2) core None by (auto simp: ensure_install_def same_core_def)
  have oth: "runtime_of s1 k = runtime_of s k" if "k \<noteq> sid" for k
    using that other [of k] by (auto simp: s1 runtime_of_def split: option.split)
  show ?thesis
  proof (rule that [of ?rt])
    show "q \<noteq> r" if "k \<noteq> sid" "runtime_of s1 k = Some (q, v)" for k q v
      using oth [OF that(1)] that(2) other [of k] runtime_of_SomeD [of s k q v] s1(2) by auto
  qed (use core run oth in \<open>auto simp: s1 same_core_def runtime_of_def\<close>)
qed

lemma publish_event_tasks:
  "publish_event sid news now eid s = (s', res) \<Longrightarrow> sv_tasks s' = sv_tasks s"
  by (auto simp: publish_event_def split: option.splits prod.splits)

text \<open>
  A successful Start returns the new turn, queued in its session. If the session had an
  active turn the new one is appended behind the pending ones and takes the position at the
  end; otherwise it becomes the active turn and its goroutine is dispatched with the
  trimmed input. The runtimes of other sessions are untouched.
\<close>

theorem start_enqueues:
  assumes srv: "service_ok s" and fresh: "turn_of s (uid 1) = None"
    and ok: "start sid i clk uid s = (s', Inr t)"
  shows "tu_id t = uid 1 \<and> tu_session t = sid \<and> tu_status t = StatusQueued \<and>
    (\<exists>ts. turn_of s' (uid 1) = Some ts \<and> ts_turn ts = t \<and> ts_input ts = start_input i) \<and>
    (\<forall>k. k \<noteq> sid \<longrightarrow> runtime_of s' k = runtime_of s k) \<and>
    (\<exists>r rt rt'. runtime_of s' sid = Some (r, rt') \<and>
       (case runtime_of s sid of
          Some (r0, rt0) \<Rightarrow> r = r0 \<and> rt = rt0
        | None \<Rightarrow> rt_active rt = [] \<and> rt_pending rt = []) \<and>
       (if rt_active rt \<noteq> []
        then rt_active rt' = rt_active rt \<and> rt_pending rt' = rt_pending rt @ [uid 1] \<and>
             tu_position t = length (rt_pending rt') \<and> sv_tasks s' = sv_tasks s
        else rt_active rt' = uid 1 \<and> rt_pending rt' = rt_pending rt \<and> tu_position t = 0 \<and>
             sv_tasks s' = sv_tasks s @ [(sid, uid 1, start_input i)]))"
proof -
  let ?i = "start_input i" and ?t = "uid 1"
  let ?ts = "new_turn_state ?t sid (clk 1) ?i"
  obtain s1 r c where en: "ensure_runtime sid (clk 0) (uid 0) s = (s1, Inr (r, c))"
    using ok by (auto simp: start_def Let_def split: option.splits prod.splits sum.splits)
  obtain s2 go where ac: "accept_locked sid r c ?ts (clk 2) s1 = (s2, Accepted go)"
    using ok en by (auto simp: start_def Let_def split: option.splits prod.splits sum.splits accept_result.splits)
  obtain s3 res where pq: "publish_queue sid (clk 3) (uid 2) s2 = (s3, res)" by fastforce
  define s4 where "s4 = (case res of Inr e \<Rightarrow> set_accepted ?t (ev_seq e) s3 | Inl _ \<Rightarrow> s3)"
  have s': "s' = (if go then dispatch_turn ?t s4 else s4)" "get_turn ?t s' = Inr t"
    using ok en ac pq by (auto simp: start_def Let_def s4_def simp del: One_nat_def split: option.splits)
  obtain rt where e: "sv_turns s1 = sv_turns s" "sv_tasks s1 = sv_tasks s" "sv_heap s1 r = Some (sid, rt)"
    "runtime_of s1 sid = Some (r, rt)" "\<And>k. k \<noteq> sid \<Longrightarrow> runtime_of s1 k = runtime_of s k"
    "\<And>k q v. k \<noteq> sid \<Longrightarrow> runtime_of s1 k = Some (q, v) \<Longrightarrow> q \<noteq> r"
    "case runtime_of s sid of Some (r0, rt0) \<Rightarrow> r = r0 \<and> rt = rt0
       | None \<Rightarrow> rt_active rt = [] \<and> rt_pending rt = []"
    by (rule ensure_runtime_effect [OF srv en]) (rule that)
  define rt' where "rt' = (if rt_active rt = [] then rt\<lparr>rt_active := ?t\<rparr>
          else rt\<lparr>rt_pending := rt_pending rt @ [?t]\<rparr>)\<lparr>rt_revision := rt_revision rt + 1\<rparr>"
  define pos where "pos = (if rt_active rt = [] then 0 else length (rt_pending rt'))"
  define ts' where "ts' = ?ts\<lparr>ts_turn := (ts_turn ?ts)\<lparr>tu_position := pos\<rparr>\<rparr>"
  define p where "p = prune_locked (clk 2) s1"
  have s2: "s2 = (upd_runtime r (\<lambda>_. rt') p)\<lparr>sv_turns := AList.update ?t ts' (sv_turns p)\<rparr>"
    "go = (rt_active rt = [])"
    using ac e(3) unfolding ts'_def rt'_def pos_def p_def
    by (auto simp: accept_locked_def Let_def new_turn_state_def split: if_splits)
  have run2: "runtime_of s2 k = (if k = sid then Some (r, rt') else runtime_of s k)" for k
    using e(4) e(5,6) [of k] by (cases "runtime_of s k") (auto simp: s2 p_def)
  have pe: "publish_event sid (queue_news sid (queue_locked sid s2)) (clk 3) (uid 2) s2 = (s3, res)"
    using pq by (simp add: publish_queue_def)
  have core: "same_core s2 s3" "sv_tasks s3 = sv_tasks s2"
    using publish_event_core [OF pe] publish_event_tasks [OF pe] by simp_all
  have tasks2: "sv_tasks s2 = sv_tasks s" using e(2) by (simp add: s2 p_def upd_runtime_def prune_locked_def)
  define n where "n = (case res of Inr e \<Rightarrow> ev_seq e | Inl _ \<Rightarrow> 0)"
  have t4: "turn_of s4 ?t = Some (ts'\<lparr>ts_turn := (ts_turn ts')\<lparr>tu_accepted := n\<rparr>\<rparr>)"
    and run4: "runtime_of s4 = runtime_of s2" and tasks4: "sv_tasks s4 = sv_tasks s"
    using same_core_ok(4) [OF core(1)] core tasks2
    by (auto simp: s4_def n_def set_accepted_def same_core_def s2 ts'_def new_turn_state_def
        upd_turn_def runtime_of_def map_of_map_entry split: sum.split cong: option.case_cong)
  have st: "status_of ts' = StatusQueued" "ts_input ts' = ?i" "tu_session (ts_turn ts') = sid"
    "tu_id (ts_turn ts') = ?t" "tu_position (ts_turn ts') = pos"
    by (simp_all add: ts'_def new_turn_state_def)
  have fin: "runtime_of s' = runtime_of s2"
    "\<exists>d. turn_of s' ?t = Some (ts'\<lparr>ts_turn := (ts_turn ts')\<lparr>tu_accepted := n\<rparr>, ts_dispatched := d\<rparr>)"
    "sv_tasks s' = (if go then sv_tasks s @ [(sid, ?t, ?i)] else sv_tasks s)"
    using t4 run4 tasks4 st unfolding s'(1)
    by (auto simp: dispatch_turn_def terminal_def intro: exI [of _ "ts_dispatched ts'"])
  then obtain d where d: "turn_of s' ?t = Some (ts'\<lparr>ts_turn := (ts_turn ts')\<lparr>tu_accepted := n\<rparr>, ts_dispatched := d\<rparr>)"
    by blast
  then have t: "t = (ts_turn ts')\<lparr>tu_accepted := n\<rparr>" using s'(2) by (simp add: get_turn_def)
  have q: "runtime_of s' sid = Some (r, rt')" "\<And>k. k \<noteq> sid \<Longrightarrow> runtime_of s' k = runtime_of s k"
    using fin(1) run2 by simp_all
  have w: "\<exists>ts. turn_of s' (uid 1) = Some ts \<and> ts_turn ts = t \<and> ts_input ts = start_input i"
    using d t st by simp
  have e': "if rt_active rt \<noteq> []
        then rt_active rt' = rt_active rt \<and> rt_pending rt' = rt_pending rt @ [uid 1] \<and>
             tu_position t = length (rt_pending rt') \<and> sv_tasks s' = sv_tasks s
        else rt_active rt' = uid 1 \<and> rt_pending rt' = rt_pending rt \<and> tu_position t = 0 \<and>
             sv_tasks s' = sv_tasks s @ [(sid, uid 1, start_input i)]"
    using fin(3) s2(2) t st(5) by (simp add: rt'_def pos_def)
  have "tu_id t = uid 1" "tu_session t = sid" "tu_status t = StatusQueued" using t st by simp_all
  with w q e(7) e' show ?thesis by blast
qed

theorem start_enqueues_witness:
  "\<exists>t s'. start ''s'' ex_input (\<lambda>_. 0) (ex_uid CHR ''a'') ex_service = (s', Inr t) \<and> tu_id t = ''ax'' \<and>
     (\<exists>r rt'. runtime_of s' ''s'' = Some (r, rt') \<and> rt_active rt' = ''ax'')"
proof -
  have "service_ok ex_service"
    using sys_init_inv [of "Some (new_hub ex_config)" ex_turns]
    by (simp add: sys_inv_def state_ok_def ex_service_def)
  moreover have "turn_of ex_service (ex_uid CHR ''a'' 1) = None" by (simp add: turn_eval)
  moreover have "\<exists>t s'. start ''s'' ex_input (\<lambda>_. 0) (ex_uid CHR ''a'') ex_service = (s', Inr t)"
    by (simp add: turn_eval hub_eval)
  then obtain t s' where
    st: "start ''s'' ex_input (\<lambda>_. 0) (ex_uid CHR ''a'') ex_service = (s', Inr t)" by blast
  moreover have "runtime_of ex_service ''s'' = None" by (simp add: turn_eval)
  ultimately show ?thesis
    using start_enqueues [of ex_service "ex_uid CHR ''a''" "''s''" ex_input "\<lambda>_. 0" s' t]
    by (auto simp: ex_uid_def split: if_splits)
qed

section \<open>The published queue\<close>

lemma queued_turns_live:
  assumes "\<forall>i \<in> set ids. live_turn s i"
  shows "map qt_turn_id (queued_turns s n ids) = ids \<and>
    map qt_position (queued_turns s n ids) = [n..<n + length ids] \<and>
    (\<forall>q \<in> set (queued_turns s n ids). \<exists>ts. turn_of s (qt_turn_id q) = Some ts \<and>
       qt_status q = status_string (status_of ts) \<and> length (qt_preview q) \<le> preview_bytes)"
  using assms
proof (induction s n ids rule: queued_turns.induct)
  case (1 s n)
  then show ?case by simp
next
  case (2 s n i ids)
  then obtain ts where ts: "turn_of s i = Some ts" "\<not> terminal (status_of ts)"
    by (auto simp: live_turn_def)
  have "length (turn_truncate v m) \<le> m" for v m
    using back_to_rune_start_le [of v m] by (auto simp: turn_truncate_def)
  with "2.IH"(3) [OF ts] "2.prems" ts show ?case by (auto simp: upt_conv_Cons simp del: upt_Suc)
qed

text \<open>
  The queue of a session whose active turn no thread has yet to advance past lists
  exactly the turns that wait: the active turn while it has not been seen to run, then the
  pending turns in order, at consecutive positions from 1, each with its present status.
\<close>

theorem queue_view_exact:
  assumes "sys_reach h c (s, ths)" and "runtime_of s sid = Some (r, rt)"
    and "rt_active rt = [] \<or> live_turn s (rt_active rt)"
  shows "map qt_turn_id (tq_turns (queue_locked sid s)) =
      (if rt_active rt \<noteq> [] \<and> status_of (the (turn_of s (rt_active rt))) \<noteq> StatusRunning
       then [rt_active rt] else []) @ rt_pending rt \<and>
    map qt_position (tq_turns (queue_locked sid s)) =
      [1..<Suc (length (tq_turns (queue_locked sid s)))] \<and>
    (\<forall>q \<in> set (tq_turns (queue_locked sid s)). \<exists>ts. turn_of s (qt_turn_id q) = Some ts \<and>
       qt_status q = status_string (status_of ts) \<and> length (qt_preview q) \<le> preview_bytes)"
proof -
  let ?ids = "(if rt_active rt \<noteq> [] \<and> status_of (the (turn_of s (rt_active rt))) \<noteq> StatusRunning
       then [rt_active rt] else []) @ rt_pending rt"
  have "runtime_ok s (sections ths) sid rt"
    using sys_reach_inv [OF assms(1)] assms(2) by (simp add: sys_inv_def state_ok_def)
  then have "\<forall>i \<in> set (rt_pending rt). live_turn s i"
    by (fastforce simp: runtime_ok_def pending_ok_def live_turn_def terminal_def)
  with assms(3) have live: "\<forall>i \<in> set ?ids. live_turn s i" by auto
  have q: "tq_turns (queue_locked sid s) = queued_turns s 1 ?ids"
    using assms(2,3) by (auto simp: queue_locked_def Let_def live_turn_def)
  note v = queued_turns_live [OF live, of 1]
  then have "length (queued_turns s 1 ?ids) = length ?ids" by (metis length_map)
  with v show ?thesis unfolding q by (simp del: upt_Suc)
qed

theorem queue_view_exact_witness:
  "map qt_turn_id (tq_turns (queue_locked ''s'' (fst ex_two))) = [''t'', ''u'']"
proof -
  obtain r rt where rt: "runtime_of (fst ex_two) ''s'' = Some (r, rt)" "rt_active rt = ''t''"
      "rt_pending rt = [''u'']"
    using ex_two_runtime by blast
  have "\<exists>ts. turn_of (fst ex_two) ''t'' = Some ts \<and> status_of ts = StatusQueued"
    by (simp add: race_eval hub_eval)
  then have q: "status_of (the (turn_of (fst ex_two) ''t'')) = StatusQueued" "live_turn (fst ex_two) ''t''"
    by (auto simp: live_turn_def terminal_def)
  have "sys_reach (Some (new_hub ex_config)) ex_turns (fst ex_two, snd ex_two)"
    using ex_two_reach by simp
  from queue_view_exact [OF this rt(1)] rt q show ?thesis by simp
qed

section \<open>The watch loop\<close>

text \<open>
  Once the subscription of a runtime has overflowed and been drained, the watch loop of
  the runtime is over: the next iteration exits without touching a turn or a runtime but
  its own done channel, and no event published later is ever delivered to it.
\<close>

theorem watch_ends_on_overflow:
  assumes "sv_heap s r = Some (sid, rt)" and "sv_events s = Some h"
    and "h_heap h (rt_sub rt) = Some sub" and "sub_overflowed sub" and "sub_queue sub = []"
  shows "snd (watch_step r clk eid s) = WatchExit \<and>
    sv_turns (fst (watch_step r clk eid s)) = sv_turns s \<and>
    sv_sessions (fst (watch_step r clk eid s)) = sv_sessions s \<and>
    (\<forall>k news now i. \<exists>sub'. h_heap (fst (publish k news now i h)) (rt_sub rt) = Some sub' \<and>
       sub_overflowed sub' \<and> sub_queue sub' = [])"
proof -
  have n: "hub_next (rt_sub rt) (rt_ctx_done rt) h =
      (h\<lparr>h_heap := (h_heap h)(rt_sub rt \<mapsto> sub)\<rparr>, NextError ErrSnapshotRequired)"
    using assms(3-5) by (simp add: hub_next_def sub_next_def)
  have "\<exists>sub'. h_heap (fst (publish k news now i h)) (rt_sub rt) = Some sub' \<and>
       sub_overflowed sub' \<and> sub_queue sub' = []" for k news now i
  proof (cases "get_or_create_session h k")
    case (Inl err)
    with assms(3-5) show ?thesis by (simp add: publish_def)
  next
    case (Inr x)
    obtain h1 st where x: "x = (h1, st)" by (cases x)
    have "h_heap h1 = h_heap h"
      using Inr x by (auto simp: get_or_create_session_def put_session_def Let_def
          split: if_splits option.splits)
    with Inr x assms(3-5) show ?thesis
      by (auto simp: publish_def Let_def offer_def sub_enqueue_def
          split: option.splits prod.splits)
  qed
  with assms(1,2) n show ?thesis by (simp add: watch_step_def upd_runtime_def)
qed

definition ex_deaf_hub :: hub where
  "ex_deaf_hub = (new_hub ex_config)\<lparr>h_heap :=
     [''i'' \<mapsto> (new_subscription ''i'' ''s'' 1 default_merge)\<lparr>sub_overflowed := True\<rparr>]\<rparr>"

definition ex_deaf :: service where
  "ex_deaf = ex_reorder\<lparr>sv_events := Some ex_deaf_hub\<rparr>"

theorem watch_ends_on_overflow_witness:
  "snd (watch_step 0 (\<lambda>_. 0) ''e'' ex_deaf) = WatchExit"
  using watch_ends_on_overflow [of ex_deaf 0 "''s''" _ ex_deaf_hub
      "(new_subscription ''i'' ''s'' 1 default_merge)\<lparr>sub_overflowed := True\<rparr>" "\<lambda>_. 0" "''e''"]
  by (simp add: ex_deaf_def ex_deaf_hub_def ex_reorder_def new_subscription_def)

section \<open>The race between Start and CloseSession\<close>

lemma ex_race_reach: "sys_reach (Some (new_hub ex_config)) ex_turns ex_race3"
proof -
  let ?reach = "sys_reach (Some (new_hub ex_config)) ex_turns"
  have "?reach (ex_service, [])" unfolding ex_service_def by (rule sys_init)
  then have "?reach (call (KEnsure ''s'' ex_input) (ex_service, []))" by (rule call_reach) simp
  then have 1: "?reach ex_race1" unfolding ex_race1_def
    by (intro run_at_reach) (simp_all add: race_eval hub_eval)
  then have "?reach (call (KCloseSession ''s'') ex_race1)" by (rule call_reach) simp
  then have "?reach ex_race2" unfolding ex_race2_def
    by (rule run_at_reach) (simp_all add: race_eval hub_eval)
  then show ?thesis unfolding ex_race3_def
    by (rule run_at_reach) (simp_all add: race_eval hub_eval)
qed

text \<open>
  C25. CloseSession between the two locked sections of Start loses the turn: the service is
  in a reachable state with a live turn whose session has no runtime, its watch loop is
  over, and Cancel of it dereferences a nil runtime.
\<close>

theorem lost_turn_reachable:
  "\<exists>s ths t ts. sys_reach (Some (new_hub ex_config)) ex_turns (s, ths) \<and>
     turn_of s t = Some ts \<and> \<not> terminal (status_of ts) \<and>
     runtime_of s (tu_session (ts_turn ts)) = None \<and>
     snd (cancel_locked t 0 s) = CancelError TurnPanic"
proof -
  have "\<exists>ts. turn_of (fst ex_race3) ''t'' = Some ts \<and> \<not> terminal (status_of ts) \<and>
     runtime_of (fst ex_race3) (tu_session (ts_turn ts)) = None \<and>
     snd (cancel_locked ''t'' 0 (fst ex_race3)) = CancelError TurnPanic"
    by (simp add: race_eval hub_eval)
  with ex_race_reach show ?thesis by (metis prod.collapse)
qed


end
