(* ===== verification/Shell_Syntax.thy ===== *)
theory Shell_Syntax
  imports Prelude
begin

text \<open>
  The syntax tree of the shell parser (mvdan.cc/sh, outside the repository) as far as the
  repository reads it: the constructors its type switches name, the fields it uses, and for
  everything else the statements that syntax.Walk reaches inside. The parser itself is an
  argument of the functions that call it.
\<close>

section \<open>Syntax trees\<close>

datatype redir_op = RdrOut | DplOut | OtherRedir

datatype binary_op = Pipe | PipeAll | AndStmt | OrStmt | OtherBinary

text \<open>
  A word is the list of its parts; \<open>OtherPart\<close> (an expansion or substitution) holds the
  statements inside it. A redirect has the literal of its descriptor (nil when absent), its
  operator, its word and the parts of its here document. \<open>Stmt\<close> carries whether the statement
  is negated, in the background, a coprocess or disowned, its redirects, and its command if it
  has one; \<open>CallExpr\<close> the words of its assignments and its arguments. \<open>CompoundCmd\<close> is a
  subshell, block, if, while, for, case, function declaration, arithmetic command, test,
  declaration, let or time clause, \<open>OtherCmd\<close> every other form, both with the statements inside
  them. Nil statements are never built.
\<close>

datatype word_part =
    Lit string
  | SglQuoted string
  | DblQuoted "word_part list"
  | OtherPart "stmt list"
and redirect =
    Redirect (rd_n: "string option") (rd_op: redir_op) (rd_word: "word_part list option")
             (rd_hdoc: "word_part list")
and stmt =
    Stmt (st_negated: bool) (st_background: bool) (st_coprocess: bool) (st_disown: bool)
         (st_redirs: "redirect list") (st_cmd: "cmd option")
and cmd =
    CallExpr "word_part list list" "word_part list list"
  | BinaryCmd binary_op stmt stmt
  | CompoundCmd "stmt list"
  | OtherCmd "stmt list"

type_synonym shell_word = "word_part list"

section \<open>Literal words\<close>

fun literal_word_parts :: "word_part list \<Rightarrow> string option" where
  "literal_word_parts [] = Some []"
| "literal_word_parts (Lit v # ps) = map_option (\<lambda>r. v @ r) (literal_word_parts ps)"
| "literal_word_parts (SglQuoted v # ps) = map_option (\<lambda>r. v @ r) (literal_word_parts ps)"
| "literal_word_parts (DblQuoted qs # ps) =
     (case literal_word_parts qs of
        None \<Rightarrow> None
      | Some v \<Rightarrow> map_option (\<lambda>r. v @ r) (literal_word_parts ps))"
| "literal_word_parts (OtherPart ss # ps) = None"

definition literal_word :: "shell_word option \<Rightarrow> string option" where
  "literal_word w = (case w of None \<Rightarrow> None | Some parts \<Rightarrow> literal_word_parts parts)"

section \<open>Walking\<close>

text \<open>The commands syntax.Walk visits from a statement on when its function always says true.\<close>

fun walk_part :: "word_part \<Rightarrow> cmd list"
  and walk_redirect :: "redirect \<Rightarrow> cmd list"
  and walk_stmt :: "stmt \<Rightarrow> cmd list"
  and walk_cmd :: "cmd \<Rightarrow> cmd list" where
  "walk_part (Lit v) = []"
| "walk_part (SglQuoted v) = []"
| "walk_part (DblQuoted ps) = concat (map walk_part ps)"
| "walk_part (OtherPart ss) = concat (map walk_stmt ss)"
| "walk_redirect (Redirect n op w h) =
     (case w of None \<Rightarrow> [] | Some ps \<Rightarrow> concat (map walk_part ps)) @ concat (map walk_part h)"
| "walk_stmt (Stmt negated background coprocess disown redirs c) =
     (case c of None \<Rightarrow> [] | Some cm \<Rightarrow> walk_cmd cm) @ concat (map walk_redirect redirs)"
| "walk_cmd (CallExpr assigns ws) =
     CallExpr assigns ws # concat (map (\<lambda>w. concat (map walk_part w)) assigns) @
       concat (map (\<lambda>w. concat (map walk_part w)) ws)"
| "walk_cmd (BinaryCmd op x y) = BinaryCmd op x y # walk_stmt x @ walk_stmt y"
| "walk_cmd (CompoundCmd ss) = CompoundCmd ss # concat (map walk_stmt ss)"
| "walk_cmd (OtherCmd ss) = OtherCmd ss # concat (map walk_stmt ss)"

end
