(* ===== verification/Git_Policy.thy ===== *)
theory Git_Policy
  imports Shell_Syntax
begin

text \<open>
  internal/agent/tools/bash_policy.go: the gate of the bash tool that lets only read-only git
  commands through. Go's \<^verbatim>\<open>error\<close> is an option: \<open>None\<close> is nil, and the constructors of
  \<open>policy_error\<close> are the places where the code builds a message, with the argument it
  quotes. The command functions take the shell parser as an argument. Go map literals used as
  sets are lists.
\<close>

section \<open>Errors\<close>

datatype policy_error =
    ErrParse | ErrWrapperShell string | ErrNoCommand | ErrControl | ErrRedirection | ErrAssignment
  | ErrExpansion | ErrCdArgs | ErrNotDirect | ErrNotGit string | ErrGlobalValue string
  | ErrNoSubcommand | ErrGitOption string | ErrSubcommand string | ErrStage policy_error
  | ErrEmptyStage | ErrPipeCommand string | ErrPipeOption string | ErrPipeValue string
  | ErrFileOperand string | ErrPatterns string | ErrTrOperands

section \<open>Literal arguments\<close>

text \<open>The loops that collect the literal arguments of a call.\<close>

fun literal_args :: "shell_word list \<Rightarrow> string list option" where
  "literal_args [] = Some []"
| "literal_args (w # ws) =
     (case literal_word (Some w) of
        None \<Rightarrow> None
      | Some a \<Rightarrow> map_option (\<lambda>as. a # as) (literal_args ws))"

section \<open>Wrapper shells\<close>

text \<open>
  \<open>to_lower\<close> is the identity beyond ASCII: no rune there has a lower case that occurs in the
  strings compared with.
\<close>

fun has_leading_shell_flag :: "string list \<Rightarrow> string list \<Rightarrow> string \<Rightarrow> bool" where
  "has_leading_shell_flag [] blocked prefix = False"
| "has_leading_shell_flag (arg # args) blocked prefix =
     (if to_lower arg \<in> set blocked then True
      else if \<not> has_prefix arg prefix then False
      else has_leading_shell_flag args blocked prefix)"

definition validate_wrapper_shell_args :: "string list \<Rightarrow> policy_error option" where
  "validate_wrapper_shell_args args =
     (if length args < 2 then None
      else
        let command = to_lower (hd args) in
        if command \<in> {''bash'', ''sh'', ''zsh'', ''dash''} then
          (if has_leading_shell_flag (tl args) [''-c'', ''-lc''] ''-''
           then Some (ErrWrapperShell (hd args)) else None)
        else if command \<in> {''cmd'', ''cmd.exe''} then
          (if has_leading_shell_flag (tl args) [''/c''] ''/''
           then Some (ErrWrapperShell (hd args)) else None)
        else if command \<in> {''powershell'', ''powershell.exe'', ''pwsh'', ''pwsh.exe''} then
          (if has_leading_shell_flag (tl args) [''-c'', ''-command''] ''-''
           then Some (ErrWrapperShell (hd args)) else None)
        else None)"

text \<open>
  validateNoWrapperShellCommand. syntax.Walk is the parser's: \<open>parse\<close> yields the words of
  the calls of the tree in the order in which Walk visits them, nested ones included.
\<close>

fun walk_calls :: "shell_word list list \<Rightarrow> policy_error option" where
  "walk_calls [] = None"
| "walk_calls (call # calls) =
     (case literal_args call of
        None \<Rightarrow> walk_calls calls
      | Some args \<Rightarrow>
          (case validate_wrapper_shell_args args of
             None \<Rightarrow> walk_calls calls
           | Some err \<Rightarrow> Some err))"

definition validate_no_wrapper_shell_command ::
  "(string \<Rightarrow> shell_word list list option) \<Rightarrow> string \<Rightarrow> policy_error option" where
  "validate_no_wrapper_shell_command parse command =
     (case parse command of None \<Rightarrow> Some ErrParse | Some calls \<Rightarrow> walk_calls calls)"

section \<open>The arguments of git\<close>

text \<open>restrictedGitGlobalFlags: the flag and whether it takes a value.\<close>

definition git_global_flags :: "(string \<times> bool) list" where
  "git_global_flags =
     [(''-C'', True), (''--git-dir'', True), (''--no-optional-locks'', False),
      (''--no-pager'', False), (''--work-tree'', True)]"

definition git_subcommands :: "string list" where
  "git_subcommands =
     [''blame'', ''describe'', ''diff'', ''grep'', ''log'', ''ls-files'', ''merge-base'',
      ''rev-parse'', ''show'', ''status'']"

definition git_blocked_flags :: "string list" where
  "git_blocked_flags = [''--ext-diff'', ''--open-files-in-pager'', ''--output'', ''--textconv'']"

text \<open>isRestrictedGitPipeFlag; validateRestrictedGitArgs repeats the same condition.\<close>

definition is_pipe_flag :: "string \<Rightarrow> bool" where
  "is_pipe_flag arg \<longleftrightarrow> arg \<noteq> [] \<and> arg \<noteq> ''-'' \<and> has_prefix arg ''-''"

text \<open>The loop over the global flags: what is left of the arguments, or the missing value.\<close>

fun skip_globals :: "string list \<Rightarrow> policy_error + string list" where
  "skip_globals [] = Inr []"
| "skip_globals (arg # rest) =
     (if \<not> is_pipe_flag arg then Inr (arg # rest)
      else
        (case str_cut arg CHR ''='' of
           (flag, _, has_inline) \<Rightarrow>
             (case map_of git_global_flags flag of
                None \<Rightarrow> Inr (arg # rest)
              | Some takes_value \<Rightarrow>
                  if takes_value \<and> \<not> has_inline then
                    (case rest of [] \<Rightarrow> Inl (ErrGlobalValue flag) | _ # rest' \<Rightarrow> skip_globals rest')
                  else skip_globals rest)))"

text \<open>The loop over the arguments of the subcommand.\<close>

fun check_sub_args :: "string list \<Rightarrow> policy_error option" where
  "check_sub_args [] = None"
| "check_sub_args (arg # rest) =
     (if arg = ''--'' then None
      else if \<not> is_pipe_flag arg then check_sub_args rest
      else
        (case str_cut arg CHR ''='' of
           (flag, _) \<Rightarrow>
             if \<exists>b \<in> set git_blocked_flags. has_prefix b flag then Some (ErrGitOption flag)
             else check_sub_args rest))"

definition validate_git_args :: "string list \<Rightarrow> policy_error option" where
  "validate_git_args args =
     (case args of
        [] \<Rightarrow> Some ErrNoCommand
      | command # rest \<Rightarrow>
          if command \<noteq> ''git'' then Some (ErrNotGit command)
          else
            (case skip_globals rest of
               Inl err \<Rightarrow> Some err
             | Inr [] \<Rightarrow> Some ErrNoSubcommand
             | Inr (sub # sub_args) \<Rightarrow>
                 if has_prefix sub ''-'' then Some (ErrGitOption sub)
                 else if sub \<notin> set git_subcommands then Some (ErrSubcommand sub)
                 else check_sub_args sub_args))"

section \<open>Filters behind a pipe\<close>

definition has_pipe_flag_prefix :: "string \<Rightarrow> string list \<Rightarrow> bool" where
  "has_pipe_flag_prefix arg prefixes \<longleftrightarrow>
     \<not> has_prefix arg ''--'' \<and> (\<exists>p \<in> set prefixes. arg \<noteq> p \<and> has_prefix arg p)"

definition is_blocked_pipe_option :: "string \<Rightarrow> string \<Rightarrow> string list \<Rightarrow> string list \<Rightarrow> bool" where
  "is_blocked_pipe_option flag arg blocked prefixes \<longleftrightarrow>
     flag \<in> set blocked \<or> has_pipe_flag_prefix arg prefixes \<or>
     (has_prefix flag ''--'' \<and>
      (\<exists>b \<in> set blocked. has_prefix b ''--'' \<and>
         (flag = b \<or>
          has_prefix arg (b @ ''='') \<and> length b < length arg \<and> arg ! length b = CHR ''='')))"

text \<open>The loop of validateRestrictedGitNoFileOperandPipeArgs, from the argument at index 1 on.\<close>

fun no_file_operand_args ::
  "string \<Rightarrow> string list \<Rightarrow> string list \<Rightarrow> string list \<Rightarrow> string list \<Rightarrow> policy_error option" where
  "no_file_operand_args command [] value_options blocked prefixes = None"
| "no_file_operand_args command (arg # rest) value_options blocked prefixes =
     (if arg = ''--'' then (if rest \<noteq> [] then Some (ErrFileOperand command) else None)
      else if \<not> is_pipe_flag arg then Some (ErrFileOperand command)
      else
        (case str_cut arg CHR ''='' of
           (flag, _, has_inline) \<Rightarrow>
             if is_blocked_pipe_option flag arg blocked prefixes then Some (ErrPipeOption flag)
             else if flag \<in> set value_options \<and> \<not> has_inline then
               (case rest of
                  [] \<Rightarrow> Some (ErrPipeValue flag)
                | _ # rest' \<Rightarrow> no_file_operand_args command rest' value_options blocked prefixes)
             else no_file_operand_args command rest value_options blocked prefixes))"

definition grep_value_options :: "string list" where
  "grep_value_options =
     [''-A'', ''--after-context'', ''-B'', ''--before-context'', ''-C'', ''--context'', ''-D'',
      ''--devices'', ''-d'', ''--directories'', ''-e'', ''--regexp'', ''-m'', ''--max-count'',
      ''--binary-files'', ''--label'']"

definition grep_blocked_options :: "string list" where
  "grep_blocked_options =
     [''-f'', ''--file'', ''--exclude-from'', ''-r'', ''-R'', ''--recursive'',
      ''--dereference-recursive'']"

text \<open>
  The loop of validateRestrictedGitGrepPipeArgs: whether a pattern came by an option, and
  the number of positional arguments.
\<close>

fun grep_scan :: "string list \<Rightarrow> bool \<Rightarrow> nat \<Rightarrow> policy_error + bool \<times> nat" where
  "grep_scan [] by_option positionals = Inr (by_option, positionals)"
| "grep_scan (arg # rest) by_option positionals =
     (if arg = ''--'' then Inr (by_option, positionals + length rest)
      else if \<not> is_pipe_flag arg then grep_scan rest by_option (positionals + 1)
      else
        (case str_cut arg CHR ''='' of
           (flag, _, has_inline) \<Rightarrow>
             if is_blocked_pipe_option flag arg grep_blocked_options [''-f'']
             then Inl (ErrPipeOption flag)
             else if has_prefix arg ''-e'' \<and> arg \<noteq> ''-e'' \<and> \<not> has_prefix arg ''--''
             then grep_scan rest True positionals
             else
               let by_option = (by_option \<or> flag = ''-e'' \<or> flag = ''--regexp'') in
               if flag \<in> set grep_value_options \<and> \<not> has_inline then
                 (case rest of
                    [] \<Rightarrow> Inl (ErrPipeValue flag)
                  | _ # rest' \<Rightarrow> grep_scan rest' by_option positionals)
               else grep_scan rest by_option positionals))"

definition grep_pipe_args :: "string \<Rightarrow> string list \<Rightarrow> policy_error option" where
  "grep_pipe_args command args =
     (case grep_scan args False 0 of
        Inl err \<Rightarrow> Some err
      | Inr (by_option, positionals) \<Rightarrow>
          if by_option \<and> 0 < positionals then Some (ErrFileOperand command)
          else if \<not> by_option \<and> 1 < positionals then Some (ErrPatterns command)
          else None)"

fun tr_positionals :: "string list \<Rightarrow> nat \<Rightarrow> nat" where
  "tr_positionals [] n = n"
| "tr_positionals (arg # rest) n =
     (if arg = ''--'' then n + length rest
      else if is_pipe_flag arg then tr_positionals rest n
      else tr_positionals rest (n + 1))"

definition tr_pipe_args :: "string list \<Rightarrow> policy_error option" where
  "tr_pipe_args args = (if 2 < tr_positionals args 0 then Some ErrTrOperands else None)"

definition pipe_commands :: "string list" where
  "pipe_commands =
     [''grep'', ''egrep'', ''fgrep'', ''head'', ''tail'', ''sort'', ''uniq'', ''wc'', ''tr'', ''cut'']"

definition validate_pipe_command :: "string list \<Rightarrow> policy_error option" where
  "validate_pipe_command args =
     (case args of
        [] \<Rightarrow> Some ErrNoCommand
      | command # rest \<Rightarrow>
          if command \<notin> set pipe_commands then Some (ErrPipeCommand command)
          else if command \<in> {''grep'', ''egrep'', ''fgrep''} then grep_pipe_args command rest
          else if command = ''head'' then
            no_file_operand_args command rest [''-c'', ''--bytes'', ''-n'', ''--lines''] [] []
          else if command = ''tail'' then
            no_file_operand_args command rest [''-c'', ''--bytes'', ''-n'', ''--lines'']
              [''-f'', ''-F'', ''--follow''] []
          else if command = ''sort'' then
            no_file_operand_args command rest
              [''-k'', ''--key'', ''-S'', ''--buffer-size'', ''-t'', ''--field-separator'']
              [''-o'', ''--output''] [''-o'']
          else if command = ''uniq'' then
            no_file_operand_args command rest
              [''-f'', ''--skip-fields'', ''-s'', ''--skip-chars'', ''-w'', ''--check-chars''] [] []
          else if command = ''wc'' then no_file_operand_args command rest [] [] []
          else if command = ''cut'' then
            no_file_operand_args command rest
              [''-b'', ''--bytes'', ''-c'', ''--characters'', ''-d'', ''--delimiter'', ''-f'',
               ''--fields'', ''--output-delimiter''] [] []
          else if command = ''tr'' then tr_pipe_args rest
          else None)"

text \<open>restrictedGitBlockFunc: whether the interpreter blocks a call at run time.\<close>

definition git_block_func :: "string list \<Rightarrow> bool" where
  "git_block_func args =
     (if validate_git_args args = None then False else validate_pipe_command args \<noteq> None)"

section \<open>Statements\<close>

definition is_allowed_redirect :: "redirect \<Rightarrow> bool" where
  "is_allowed_redirect r =
     (if rd_n r \<noteq> Some ''2'' then False
      else
        (case literal_word (rd_word r) of
           None \<Rightarrow> False
         | Some target \<Rightarrow>
             if rd_op r = RdrOut \<and> target = ''/dev/null'' then True
             else if rd_op r = DplOut \<and> target = ''1'' then True
             else False))"

definition call_expr_args :: "stmt \<Rightarrow> policy_error + string list" where
  "call_expr_args s =
     (if st_negated s \<or> st_background s \<or> st_coprocess s \<or> st_disown s then Inl ErrControl
      else if \<not> list_all is_allowed_redirect (st_redirs s) then Inl ErrRedirection
      else
        (case st_cmd s of
           Some (CallExpr assigns ws) \<Rightarrow>
             if assigns \<noteq> [] then Inl ErrAssignment
             else (case literal_args ws of None \<Rightarrow> Inl ErrExpansion | Some as \<Rightarrow> Inr as)
         | _ \<Rightarrow> Inl ErrNotDirect))"

text \<open>collectPipelineStages: the stages of a left-nested pipe, in order.\<close>

fun collect_stages :: "cmd \<Rightarrow> policy_error + stmt list" where
  "collect_stages (BinaryCmd op (Stmt n bg co d rs (Some (BinaryCmd op' x' y'))) y) =
     (if op \<noteq> Pipe then Inl ErrControl
      else
        (case collect_stages (BinaryCmd op' x' y') of
           Inl err \<Rightarrow> Inl err
         | Inr stages \<Rightarrow> Inr (stages @ [y])))"
| "collect_stages (BinaryCmd op x y) = (if op \<noteq> Pipe then Inl ErrControl else Inr [x, y])"
| "collect_stages _ = Inl ErrNotDirect"

fun validate_stages :: "stmt list \<Rightarrow> policy_error option" where
  "validate_stages [] = None"
| "validate_stages (s # ss) =
     (case call_expr_args s of
        Inl err \<Rightarrow> Some (ErrStage err)
      | Inr args \<Rightarrow>
          if args = [] then Some ErrEmptyStage
          else (case validate_pipe_command args of
                  Some err \<Rightarrow> Some err
                | None \<Rightarrow> validate_stages ss))"

definition validate_pipeline :: "cmd \<Rightarrow> policy_error option" where
  "validate_pipeline c =
     (case collect_stages c of
        Inl err \<Rightarrow> Some err
      | Inr [] \<Rightarrow> Some ErrNoCommand
      | Inr (first # rest) \<Rightarrow>
          (case call_expr_args first of
             Inl err \<Rightarrow> Some (ErrStage err)
           | Inr args \<Rightarrow>
               (case validate_git_args args of
                  Some err \<Rightarrow> Some err
                | None \<Rightarrow> validate_stages rest)))"

fun validate_stmt :: "stmt \<Rightarrow> policy_error option"
  and validate_cmd :: "cmd \<Rightarrow> policy_error option" where
  "validate_stmt (Stmt negated background coprocess disown redirs c) =
     (if negated \<or> background \<or> coprocess \<or> disown then Some ErrControl
      else if \<not> list_all is_allowed_redirect redirs then Some ErrRedirection
      else (case c of None \<Rightarrow> Some ErrNoCommand | Some cm \<Rightarrow> validate_cmd cm))"
| "validate_cmd (CallExpr assigns ws) =
     (if assigns \<noteq> [] then Some ErrAssignment
      else
        (case literal_args ws of
           None \<Rightarrow> Some ErrExpansion
         | Some args \<Rightarrow>
             if args \<noteq> [] \<and> hd args = ''cd'' then (if 2 < length args then Some ErrCdArgs else None)
             else validate_git_args args))"
| "validate_cmd (BinaryCmd op x y) =
     (case op of
        Pipe \<Rightarrow> validate_pipeline (BinaryCmd op x y)
      | AndStmt \<Rightarrow> (case validate_stmt x of Some err \<Rightarrow> Some err | None \<Rightarrow> validate_stmt y)
      | OrStmt \<Rightarrow> (case validate_stmt x of Some err \<Rightarrow> Some err | None \<Rightarrow> validate_stmt y)
      | PipeAll \<Rightarrow> Some ErrControl
      | OtherBinary \<Rightarrow> Some ErrControl)"
| "validate_cmd (CompoundCmd ss) = Some ErrNotDirect"
| "validate_cmd (OtherCmd ss) = Some ErrNotDirect"

section \<open>The fallback word split\<close>

text \<open>
  simpleWordSplit with the state of its loop: the quote it is in, the current word and the
  words so far, in order.
\<close>

datatype quote_state = Unquoted | InSingle | InDouble

definition flush_word :: "string \<Rightarrow> string list \<Rightarrow> string list" where
  "flush_word current args = (if current \<noteq> [] then args @ [current] else args)"

fun split_words :: "quote_state \<Rightarrow> string \<Rightarrow> string \<Rightarrow> string list \<Rightarrow> string list" where
  "split_words q [] current args = flush_word current args"
| "split_words InSingle (ch # rest) current args =
     (if ch = CHR 0x27 then split_words Unquoted rest current args
      else split_words InSingle rest (current @ [ch]) args)"
| "split_words InDouble (ch # rest) current args =
     (if ch = CHR 0x5C \<and> rest \<noteq> [] then
        (if hd rest \<in> {CHR 0x22, CHR 0x5C, CHR 0x24, CHR 0x60}
         then split_words InDouble (tl rest) (current @ [hd rest]) args
         else split_words InDouble rest (current @ [ch]) args)
      else if ch = CHR 0x22 then split_words Unquoted rest current args
      else split_words InDouble rest (current @ [ch]) args)"
| "split_words Unquoted (ch # rest) current args =
     (if ch = CHR 0x27 then split_words InSingle rest current args
      else if ch = CHR 0x22 then split_words InDouble rest current args
      else if ch = CHR 0x5C \<and> rest \<noteq> [] then
        split_words Unquoted (tl rest) (current @ [hd rest]) args
      else if ch = CHR 0x20 \<or> ch = CHR 0x09 then split_words Unquoted rest [] (flush_word current args)
      else split_words Unquoted rest (current @ [ch]) args)"

definition simple_word_split :: "string \<Rightarrow> string list" where
  "simple_word_split command = split_words Unquoted command [] []"

section \<open>Commands\<close>

fun validate_stmts :: "stmt list \<Rightarrow> policy_error option" where
  "validate_stmts [] = None"
| "validate_stmts (s # ss) =
     (case validate_stmt s of Some err \<Rightarrow> Some err | None \<Rightarrow> validate_stmts ss)"

definition validate_git_command ::
  "(string \<Rightarrow> stmt list option) \<Rightarrow> string \<Rightarrow> policy_error option" where
  "validate_git_command parse command =
     (case parse command of
        None \<Rightarrow>
          let args = simple_word_split command in
          if args = [] then Some ErrNoCommand else validate_git_args args
      | Some stmts \<Rightarrow> if stmts = [] then Some ErrNoCommand else validate_stmts stmts)"

end
