(* ===== verification/Git_Properties.thy ===== *)
theory Git_Properties
  imports Git_Policy
begin

text \<open>
  The properties of the read-only git gate: the argument check and the statement check are
  equivalent to grammars of what they accept, the fallback word split inverts quoting, an
  accepted filter reads no file, the wrapper check is exact on literal calls, and five calls
  that pass although they do what the lists mean to block.
\<close>

section \<open>The git arguments\<close>

text \<open>The global flags that may stand before the subcommand, as a grammar.\<close>

inductive global_args :: "string list \<Rightarrow> bool" where
  global_none: "global_args []"
| global_plain: "(flag, False) \<in> set git_global_flags \<Longrightarrow> global_args gs \<Longrightarrow> global_args (flag # gs)"
| global_inline: "(flag, b) \<in> set git_global_flags \<Longrightarrow> global_args gs \<Longrightarrow>
    global_args ((flag @ CHR ''='' # v) # gs)"
| global_value: "(flag, True) \<in> set git_global_flags \<Longrightarrow> global_args gs \<Longrightarrow> global_args (flag # v # gs)"

text \<open>An option that abbreviates (or is) a blocked one, with or without a value.\<close>

definition blocked_git_option :: "string \<Rightarrow> bool" where
  "blocked_git_option a \<longleftrightarrow>
     is_pipe_flag a \<and>
     (\<exists>b \<in> set git_blocked_flags. \<exists>flag. has_prefix b flag \<and> (a = flag \<or> (\<exists>v. a = flag @ CHR ''='' # v)))"

lemma str_cut_cases:
  obtains "CHR ''='' \<notin> set a" "str_cut a CHR ''='' = (a, [], False)"
  | b v where "a = b @ CHR ''='' # v" "CHR ''='' \<notin> set b" "str_cut a CHR ''='' = (b, v, True)"
proof (cases "CHR ''='' \<in> set a")
  case True
  then obtain b v where "a = b @ CHR ''='' # v" "CHR ''='' \<notin> set b"
    by (meson split_list_first)
  with that(2) str_cut_found show thesis by blast
qed (use that(1) str_cut_not_found in blast)

lemma git_flags_no_eq:
  "(flag, b) \<in> set git_global_flags \<Longrightarrow> CHR ''='' \<notin> set flag \<and> map_of git_global_flags flag = Some b \<and>
     is_pipe_flag flag \<and> is_pipe_flag (flag @ v)"
  by (auto simp: git_global_flags_def is_pipe_flag_def)

lemma git_blocked_no_eq: "b \<in> set git_blocked_flags \<Longrightarrow> CHR ''='' \<notin> set b"
  by (auto simp: git_blocked_flags_def)

lemma skip_globals_complete:
  assumes "global_args gs" "\<not> is_pipe_flag sub"
  shows "skip_globals (gs @ sub # rest) = Inr (sub # rest)"
  using assms(1)
proof induction
  case global_none
  with assms(2) show ?case by simp
next
  case (global_plain flag gs)
  then show ?case using git_flags_no_eq [of flag False] by (simp add: str_cut_not_found)
next
  case (global_inline flag b gs v)
  then show ?case using git_flags_no_eq [of flag b] by (simp add: str_cut_found)
next
  case (global_value flag gs v)
  then show ?case using git_flags_no_eq [of flag True] by (simp add: str_cut_not_found)
qed

lemma skip_globals_sound:
  "skip_globals args = Inr rest \<Longrightarrow> \<exists>gs. args = gs @ rest \<and> global_args gs"
proof (induction args rule: length_induct)
  case (1 xs)
  then have IH: "\<exists>gs. ys = gs @ rest \<and> global_args gs"
    if "length ys < length xs" "skip_globals ys = Inr rest" for ys using that by blast
  show ?case
  proof (cases xs)
    case Nil
    with "1.prems" show ?thesis by (auto intro: global_none)
  next
    case (Cons arg args)
    show ?thesis
    proof (cases "is_pipe_flag arg \<and> map_of git_global_flags (fst (str_cut arg CHR ''='')) \<noteq> None")
      case False
      with "1.prems" Cons have "rest = xs" by (auto split: if_splits prod.splits option.splits)
      then show ?thesis using global_none by auto
    next
      case True
      then obtain b where b: "map_of git_global_flags (fst (str_cut arg CHR ''='')) = Some b" by auto
      note g = map_of_SomeD [OF b]
      show ?thesis
      proof (cases arg rule: str_cut_cases)
        case 1
        show ?thesis
        proof (cases b)
          case False
          with 1 True b "1.prems" Cons have "skip_globals args = Inr rest" by auto
          with IH [of args] Cons obtain gs where "args = gs @ rest" "global_args gs" by auto
          with global_plain [of arg gs] g 1 False Cons show ?thesis
            by (auto intro!: exI [of _ "arg # gs"])
        next
          case True': True
          with "1.prems" True 1 b Cons obtain v args' where args: "args = v # args'" by (cases args) auto
          with "1.prems" True 1 b True' Cons have "skip_globals args' = Inr rest" by auto
          with IH [of args'] Cons args obtain gs where "args' = gs @ rest" "global_args gs" by auto
          with global_value [of arg gs v] g 1 True' args Cons show ?thesis
            by (auto intro!: exI [of _ "arg # v # gs"])
        qed
      next
        case (2 flag v)
        with "1.prems" True b Cons have "skip_globals args = Inr rest" by (auto split: if_splits)
        with IH [of args] Cons obtain gs where "args = gs @ rest" "global_args gs" by auto
        with global_inline [of flag b gs v] g 2 Cons show ?thesis
          by (auto intro!: exI [of _ "(flag @ CHR ''='' # v) # gs"])
      qed
    qed
  qed
qed

lemma blocked_git_option_cut:
  assumes "str_cut a CHR ''='' = (flag, v, f)"
  shows "blocked_git_option a \<longleftrightarrow> is_pipe_flag a \<and> (\<exists>b \<in> set git_blocked_flags. has_prefix b flag)"
proof -
  have flagged: "a = flag \<or> a = flag @ CHR ''='' # v" "CHR ''='' \<notin> set flag"
    using assms by (cases a rule: str_cut_cases; simp)+
  have "p = flag" if "b \<in> set git_blocked_flags" "has_prefix b p" "a = p \<or> (\<exists>w. a = p @ CHR ''='' # w)" for b p
  proof -
    have "CHR ''='' \<notin> set p" using git_blocked_no_eq [OF that(1)] that(2) by (auto simp: has_prefix_iff)
    then have "str_cut a CHR ''='' = (p, [], False) \<or> (\<exists>w. str_cut a CHR ''='' = (p, w, True))"
      using that(3) str_cut_not_found str_cut_found by metis
    with assms show ?thesis by auto
  qed
  with flagged show ?thesis unfolding blocked_git_option_def by metis
qed

lemma check_sub_args_iff:
  "check_sub_args args = None \<longleftrightarrow> (\<forall>a \<in> set (takeWhile (\<lambda>a. a \<noteq> ''--'') args). \<not> blocked_git_option a)"
proof (induction args)
  case (Cons a args)
  obtain flag v f where cut: "str_cut a CHR ''='' = (flag, v, f)" by (metis prod_cases3)
  show ?case using Cons.IH blocked_git_option_cut [OF cut] cut by auto
qed simp

text \<open>
  C7. The argument check accepts exactly the read-only git commands: git, global flags of
  the list (with their values), one of the ten subcommands, and arguments none of which,
  up to a double dash, is or abbreviates a blocked option.
\<close>

theorem git_args_characterised:
  "validate_git_args args = None \<longleftrightarrow>
     (\<exists>globals sub rest. args = ''git'' # globals @ sub # rest \<and> global_args globals \<and>
        sub \<in> set git_subcommands \<and>
        (\<forall>a \<in> set (takeWhile (\<lambda>a. a \<noteq> ''--'') rest). \<not> blocked_git_option a))"
proof
  assume ok: "validate_git_args args = None"
  then obtain xs sub rest where x: "args = ''git'' # xs" "skip_globals xs = Inr (sub # rest)"
    "sub \<in> set git_subcommands" "check_sub_args rest = None"
    by (auto simp: validate_git_args_def split: list.splits if_splits sum.splits)
  obtain gs where "xs = gs @ sub # rest" "global_args gs" using skip_globals_sound [OF x(2)] by blast
  with x check_sub_args_iff show "\<exists>globals sub rest. args = ''git'' # globals @ sub # rest \<and>
      global_args globals \<and> sub \<in> set git_subcommands \<and>
      (\<forall>a \<in> set (takeWhile (\<lambda>a. a \<noteq> ''--'') rest). \<not> blocked_git_option a)" by blast
next
  assume "\<exists>globals sub rest. args = ''git'' # globals @ sub # rest \<and> global_args globals \<and>
        sub \<in> set git_subcommands \<and>
        (\<forall>a \<in> set (takeWhile (\<lambda>a. a \<noteq> ''--'') rest). \<not> blocked_git_option a)"
  then obtain gs sub rest where a: "args = ''git'' # gs @ sub # rest" "global_args gs"
    "sub \<in> set git_subcommands" "check_sub_args rest = None" using check_sub_args_iff by blast
  have "\<not> has_prefix sub ''-''" using a(3) by (auto simp: git_subcommands_def)
  with a skip_globals_complete [OF a(2), of sub rest] show "validate_git_args args = None"
    by (simp add: validate_git_args_def is_pipe_flag_def)
qed

theorem git_args_characterised_witness:
  "validate_git_args [''git'', ''-C'', ''dir'', ''log'', ''--oneline'', ''--'', ''--output=x''] = None \<and>
   (\<exists>globals sub rest.
      [''git'', ''-C'', ''dir'', ''log'', ''--oneline'', ''--'', ''--output=x''] = ''git'' # globals @ sub # rest \<and>
      global_args globals \<and> sub \<in> set git_subcommands)"
proof -
  let ?args = "[''git'', ''-C'', ''dir'', ''log'', ''--oneline'', ''--'', ''--output=x'']"
  have "validate_git_args ?args = None"
    by (simp add: validate_git_args_def git_subcommands_def git_global_flags_def git_blocked_flags_def
        is_pipe_flag_def)
  with git_args_characterised [of ?args] show ?thesis by blast
qed

section \<open>Statements\<close>

text \<open>What a stage of an accepted pipeline looks like.\<close>

definition plain_call :: "stmt \<Rightarrow> string list \<Rightarrow> bool" where
  "plain_call s args \<longleftrightarrow>
     (\<exists>redirs ws. s = Stmt False False False False redirs (Some (CallExpr [] ws)) \<and>
        list_all is_allowed_redirect redirs \<and> literal_args ws = Some args)"

inductive safe_pipeline :: "cmd \<Rightarrow> bool" where
  pipe_two: "plain_call x args \<Longrightarrow> validate_git_args args = None \<Longrightarrow>
    plain_call y filt \<Longrightarrow> validate_pipe_command filt = None \<Longrightarrow> safe_pipeline (BinaryCmd Pipe x y)"
| pipe_more: "safe_pipeline c \<Longrightarrow> plain_call y filt \<Longrightarrow> validate_pipe_command filt = None \<Longrightarrow>
    safe_pipeline (BinaryCmd Pipe (Stmt n bg co d redirs (Some c)) y)"

inductive safe_stmt :: "stmt \<Rightarrow> bool" where
  safe_cd: "plain_call s (''cd'' # dirs) \<Longrightarrow> length dirs \<le> 1 \<Longrightarrow> safe_stmt s"
| safe_git: "plain_call s args \<Longrightarrow> validate_git_args args = None \<Longrightarrow> safe_stmt s"
| safe_and: "list_all is_allowed_redirect redirs \<Longrightarrow> op = AndStmt \<or> op = OrStmt \<Longrightarrow>
    safe_stmt x \<Longrightarrow> safe_stmt y \<Longrightarrow> safe_stmt (Stmt False False False False redirs (Some (BinaryCmd op x y)))"
| safe_pipe: "list_all is_allowed_redirect redirs \<Longrightarrow> safe_pipeline c \<Longrightarrow>
    safe_stmt (Stmt False False False False redirs (Some c))"

inductive_cases safe_stmtE: "safe_stmt (Stmt n bg co d redirs c)"
inductive_cases safe_pipelineE: "safe_pipeline (BinaryCmd op x y)"

lemma call_expr_args_iff: "call_expr_args s = Inr args \<longleftrightarrow> plain_call s args"
  by (cases s) (auto simp: call_expr_args_def plain_call_def split: option.splits cmd.splits if_splits)

lemma pipe_command_nonempty: "validate_pipe_command args = None \<Longrightarrow> args \<noteq> []"
  by (auto simp: validate_pipe_command_def)

lemma validate_stages_iff:
  "validate_stages ss = None \<longleftrightarrow>
     (\<forall>s \<in> set ss. \<exists>args. plain_call s args \<and> validate_pipe_command args = None)"
proof (induction ss)
  case (Cons s ss)
  have "validate_stages (s # ss) = None \<longleftrightarrow>
      (\<exists>args. call_expr_args s = Inr args \<and> validate_pipe_command args = None) \<and> validate_stages ss = None"
    using pipe_command_nonempty by (auto split: sum.splits option.splits)
  with Cons.IH show ?case by (auto simp: call_expr_args_iff)
qed simp

lemma collect_stages_nonempty: "collect_stages c = Inr ss \<Longrightarrow> 2 \<le> length ss"
  by (induction c arbitrary: ss rule: collect_stages.induct)
     (auto split: if_splits sum.splits)

lemma validate_stages_append:
  "validate_stages (xs @ ys) = None \<longleftrightarrow> validate_stages xs = None \<and> validate_stages ys = None"
  by (auto simp: validate_stages_iff)

lemma plain_call_not_binary: "plain_call (Stmt n bg co d rs (Some (BinaryCmd op x y))) args \<Longrightarrow> False"
  by (simp add: plain_call_def)

lemma safe_pipeline_binary: "safe_pipeline c \<Longrightarrow> \<exists>x y. c = BinaryCmd Pipe x y"
  by (induction rule: safe_pipeline.induct) auto

lemma two_stages:
  assumes "\<And>op' x' y'. st_cmd x \<noteq> Some (BinaryCmd op' x' y')"
  shows "validate_pipeline (BinaryCmd op x y) = None \<longleftrightarrow> safe_pipeline (BinaryCmd op x y)"
proof -
  have "collect_stages (BinaryCmd op x y) = (if op \<noteq> Pipe then Inl ErrControl else Inr [x, y])"
    using assms by (cases x rule: stmt.exhaust; cases "st_cmd x"; cases "the (st_cmd x)"; auto)
  then have "validate_pipeline (BinaryCmd op x y) = None \<longleftrightarrow>
      op = Pipe \<and> (\<exists>args. call_expr_args x = Inr args \<and> validate_git_args args = None) \<and>
      validate_stages [y] = None"
    by (auto simp: validate_pipeline_def simp del: validate_stages.simps split: sum.splits option.splits)
  also have "\<dots> \<longleftrightarrow> op = Pipe \<and> (\<exists>args. plain_call x args \<and> validate_git_args args = None) \<and>
      (\<exists>filt. plain_call y filt \<and> validate_pipe_command filt = None)"
    by (simp add: call_expr_args_iff validate_stages_iff del: validate_stages.simps)
  also have "\<dots> \<longleftrightarrow> safe_pipeline (BinaryCmd op x y)"
  proof
    assume "safe_pipeline (BinaryCmd op x y)"
    moreover have "\<not> safe_pipeline c" if "x = Stmt n bg co d rs (Some c)" for n bg co d rs c
      using assms that safe_pipeline_binary by fastforce
    ultimately show "op = Pipe \<and> (\<exists>args. plain_call x args \<and> validate_git_args args = None) \<and>
      (\<exists>filt. plain_call y filt \<and> validate_pipe_command filt = None)"
      by (blast elim: safe_pipelineE)
  qed (auto intro: pipe_two)
  finally show ?thesis .
qed

lemma other_pipeline:
  "validate_pipeline (CallExpr n ws) \<noteq> None \<and> \<not> safe_pipeline (CallExpr n ws)"
  "validate_pipeline (CompoundCmd ss) \<noteq> None \<and> \<not> safe_pipeline (CompoundCmd ss)"
  "validate_pipeline (OtherCmd ss) \<noteq> None \<and> \<not> safe_pipeline (OtherCmd ss)"
  using safe_pipeline_binary by (auto simp: validate_pipeline_def)

lemma validate_pipeline_iff: "validate_pipeline c = None \<longleftrightarrow> safe_pipeline c"
proof (induction c rule: collect_stages.induct)
  case (1 op n bg co d rs op' x' y' y)
  let ?c = "BinaryCmd op' x' y'"
  have "validate_pipeline (BinaryCmd op (Stmt n bg co d rs (Some ?c)) y) = None \<longleftrightarrow>
      op = Pipe \<and> validate_pipeline ?c = None \<and> validate_stages [y] = None"
  proof (cases "collect_stages ?c")
    case (Inl e)
    then show ?thesis by (simp add: validate_pipeline_def)
  next
    case (Inr ss)
    then obtain f ss' where "ss = f # ss'" using collect_stages_nonempty [OF Inr] by (cases ss) auto
    with Inr show ?thesis
      by (auto simp: validate_pipeline_def validate_stages_append simp del: validate_stages.simps
          split: sum.splits option.splits)
  qed
  also have "\<dots> \<longleftrightarrow> op = Pipe \<and> safe_pipeline ?c \<and> validate_stages [y] = None"
    using 1 by (cases "op = Pipe") auto
  also have "\<dots> \<longleftrightarrow> safe_pipeline (BinaryCmd op (Stmt n bg co d rs (Some ?c)) y)"
    by (auto simp: validate_stages_iff intro: pipe_more pipe_two elim!: safe_pipelineE
        dest: plain_call_not_binary simp del: validate_stages.simps)
  finally show ?case .
qed (use other_pipeline in \<open>simp_all add: two_stages\<close>)

lemma plain_call_stmt:
  "plain_call (Stmt n bg co d rs c) args \<longleftrightarrow>
     \<not> n \<and> \<not> bg \<and> \<not> co \<and> \<not> d \<and> list_all is_allowed_redirect rs \<and>
     (\<exists>ws. c = Some (CallExpr [] ws) \<and> literal_args ws = Some args)"
  by (auto simp: plain_call_def)

lemma validate_call_iff:
  "validate_cmd (CallExpr n ws) = None \<longleftrightarrow>
     n = [] \<and> (\<exists>args. literal_args ws = Some args \<and>
       ((\<exists>dirs. args = ''cd'' # dirs \<and> length dirs \<le> 1) \<or> validate_git_args args = None))"
proof (cases "literal_args ws")
  case (Some args)
  have "validate_git_args (''cd'' # dirs) \<noteq> None" for dirs by (simp add: validate_git_args_def)
  with Some show ?thesis by (cases args) auto
qed simp

lemma safe_stmt_iff:
  "safe_stmt (Stmt n bg co d rs c) \<longleftrightarrow>
     \<not> n \<and> \<not> bg \<and> \<not> co \<and> \<not> d \<and> list_all is_allowed_redirect rs \<and>
     (case c of
        Some (CallExpr k ws) \<Rightarrow> validate_cmd (CallExpr k ws) = None
      | Some (BinaryCmd op x y) \<Rightarrow>
          (op = AndStmt \<or> op = OrStmt) \<and> safe_stmt x \<and> safe_stmt y \<or> safe_pipeline (BinaryCmd op x y)
      | _ \<Rightarrow> False)"
  (is "?l \<longleftrightarrow> ?r")
proof
  assume ?l
  then show ?r
  proof (rule safe_stmtE)
    fix cm assume "safe_pipeline cm" "c = Some cm" "\<not> n" "\<not> bg" "\<not> co" "\<not> d" "list_all is_allowed_redirect rs"
    moreover from this obtain x y where "cm = BinaryCmd Pipe x y" using safe_pipeline_binary by blast
    ultimately show ?r by simp
  qed (auto simp: plain_call_stmt validate_call_iff simp del: validate_cmd.simps)
next
  assume r: ?r
  then obtain cm where c: "c = Some cm" by (cases c) auto
  with r have flags: "\<not> n" "\<not> bg" "\<not> co" "\<not> d" "list_all is_allowed_redirect rs" by auto
  show ?l
  proof (cases cm)
    case (CallExpr k ws)
    with r c have "validate_cmd (CallExpr k ws) = None" by simp
    then obtain args where a: "k = []" "literal_args ws = Some args"
      "(\<exists>dirs. args = ''cd'' # dirs \<and> length dirs \<le> 1) \<or> validate_git_args args = None"
      unfolding validate_call_iff by blast
    have "plain_call (Stmt n bg co d rs c) args" using a flags c CallExpr by (simp add: plain_call_stmt)
    with a(3) show ?thesis by (auto intro: safe_cd safe_git)
  qed (use r c flags in \<open>auto intro: safe_and safe_pipe\<close>)
qed

lemma safe_pipeline_op: "safe_pipeline (BinaryCmd op x y) \<Longrightarrow> op = Pipe"
  by (auto elim: safe_pipelineE)

lemma validate_stmt_iff:
  "validate_stmt s = None \<longleftrightarrow> safe_stmt s"
  "validate_cmd c = None \<longleftrightarrow> safe_stmt (Stmt False False False False [] (Some c))"
proof (induction s and c rule: validate_stmt_validate_cmd.induct)
  case (1 n bg co d redirs c)
  then show ?case
    by (cases c) (auto simp: safe_stmt_iff simp del: validate_cmd.simps split: cmd.split)
next
  case (2 assigns ws)
  then show ?case by (simp add: safe_stmt_iff del: validate_cmd.simps)
next
  case (3 op x y)
  then show ?case
    by (cases op) (auto simp: safe_stmt_iff [of _ _ _ _ _ "Some _"] validate_pipeline_iff
        dest: safe_pipeline_op split: option.splits)
qed (simp_all add: safe_stmt_iff)

text \<open>
  C26. When the command parses, the gate accepts it exactly when it has a statement and every
  statement is built from plain literal calls without assignments, expansions, control
  operators or redirections other than those of standard error: a cd with at most one
  argument, an accepted git command, conjunctions and disjunctions of such statements, and
  pipelines of an accepted git command and accepted filters.
\<close>

theorem git_command_characterised:
  assumes "parse command = Some stmts"
  shows "validate_git_command parse command = None \<longleftrightarrow> stmts \<noteq> [] \<and> (\<forall>s \<in> set stmts. safe_stmt s)"
proof -
  have "validate_stmts ss = None \<longleftrightarrow> (\<forall>s \<in> set ss. safe_stmt s)" for ss
    by (induction ss) (simp_all add: validate_stmt_iff(1) [symmetric] split: option.split)
  with assms show ?thesis by (simp add: validate_git_command_def)
qed

text \<open>A parser for one line, for the instance below.\<close>

definition sample_stmt :: stmt where
  "sample_stmt = Stmt False False False False [Redirect (Some ''2'') RdrOut (Some [Lit ''/dev/null'']) []]
     (Some (CallExpr [] [[Lit ''git''], [Lit ''status'']]))"

theorem git_command_characterised_witness:
  "validate_git_command (\<lambda>c. if c = ''git status 2>/dev/null'' then Some [sample_stmt] else None)
     ''git status 2>/dev/null'' = None \<and> safe_stmt sample_stmt"
proof -
  let ?p = "\<lambda>c. if c = ''git status 2>/dev/null'' then Some [sample_stmt] else None"
  have "validate_git_command ?p ''git status 2>/dev/null'' = None"
    by (simp add: validate_git_command_def sample_stmt_def is_allowed_redirect_def literal_word_def
        validate_git_args_def git_subcommands_def git_global_flags_def)
  moreover have "?p ''git status 2>/dev/null'' = Some [sample_stmt]" by simp
  ultimately show ?thesis 
    using git_command_characterised [of ?p "''git status 2>/dev/null''" "[sample_stmt]"] by simp
qed

section \<open>The fallback word split\<close>

text \<open>Quoting for the split: double quotes with the special characters escaped.\<close>

definition escape_char :: "char \<Rightarrow> string" where
  "escape_char c =
     (if c \<in> {CHR 0x22, CHR 0x5C, CHR 0x24, CHR 0x60} then [CHR 0x5C, c] else [c])"

definition double_quote :: "string \<Rightarrow> string" where
  "double_quote w = CHR 0x22 # concat (map escape_char w) @ [CHR 0x22]"

fun quote_line :: "string list \<Rightarrow> string" where
  "quote_line [] = []"
| "quote_line [w] = double_quote w"
| "quote_line (w # ws) = double_quote w @ CHR 0x20 # quote_line ws"

lemma split_quoted:
  "split_words InDouble (concat (map escape_char w) @ CHR 0x22 # r) current args =
   split_words Unquoted r (current @ w) args"
  by (induction w arbitrary: current) (auto simp: escape_char_def)

text \<open>
  The fallback split undoes quoting: a line of words in double quotes with quote,
  backslash, dollar and backtick escaped splits into exactly these words, in order, except
  that empty words are dropped.
\<close>

theorem split_quote_roundtrip:
  "simple_word_split (quote_line ws) = filter (\<lambda>w. w \<noteq> []) ws"
proof -
  have "split_words Unquoted (quote_line ws) [] args = args @ filter (\<lambda>w. w \<noteq> []) ws" for args
    by (induction ws arbitrary: args rule: quote_line.induct)
       (auto simp: double_quote_def flush_word_def split_quoted)
  then show ?thesis by (simp add: simple_word_split_def)
qed

section \<open>Filters\<close>

text \<open>
  The operands of a call as getopt sees them, given the options that take their value from
  the next argument.
\<close>

fun operands :: "string list \<Rightarrow> string list \<Rightarrow> string list" where
  "operands value_options [] = []"
| "operands value_options (arg # rest) =
     (if arg = ''--'' then rest
      else if \<not> is_pipe_flag arg then arg # operands value_options rest
      else if arg \<in> set value_options then operands value_options (tl rest)
      else operands value_options rest)"

lemma cut_value_option:
  assumes "str_cut arg CHR ''='' = (flag, v, inline)" "\<forall>f \<in> set fs. CHR ''='' \<notin> set f"
  shows "flag \<in> set fs \<and> \<not> inline \<longleftrightarrow> arg \<in> set fs"
proof (cases arg rule: str_cut_cases)
  case 1
  with assms show ?thesis by auto
next
  case (2 b w)
  with assms show ?thesis by auto
qed

lemma no_file_operand_args_operands:
  assumes "\<forall>f \<in> set vo. CHR ''='' \<notin> set f" "no_file_operand_args c args vo bl pre = None"
  shows "operands vo args = []"
  using assms(2)
proof (induction args rule: length_induct)
  case (1 xs)
  show ?case
  proof (cases xs)
    case Nil
    then show ?thesis by simp
  next
    case (Cons arg rest)
    show ?thesis
    proof (cases "arg = ''--''")
      case True
      with 1 Cons show ?thesis by (auto split: if_splits)
    next
      case False
      obtain flag v inline where cut: "str_cut arg CHR ''='' = (flag, v, inline)" by (metis prod_cases3)
      from "1.prems" False Cons cut have fl: "is_pipe_flag arg" "\<not> is_blocked_pipe_option flag arg bl pre"
        by (auto split: if_splits)
      note vo = cut_value_option [OF cut assms(1)]
      show ?thesis
      proof (cases "arg \<in> set vo")
        case True
        with "1.prems" False Cons cut fl vo obtain w rest' where
          "rest = w # rest'" "no_file_operand_args c rest' vo bl pre = None"
          by (auto split: list.splits)
        with "1.IH" True False fl Cons show ?thesis by simp
      next
        case False': False
        with "1.prems" False Cons cut fl vo have "no_file_operand_args c rest vo bl pre = None" by auto
        with "1.IH" False' False fl Cons show ?thesis by simp
      qed
    qed
  qed
qed

lemma grep_scan_operands:
  "grep_scan args by n = Inr (by', m) \<Longrightarrow> m = n + length (operands grep_value_options args)"
proof (induction args arbitrary: "by" n rule: length_induct)
  case (1 xs)
  have no_eq: "\<forall>f \<in> set grep_value_options. CHR ''='' \<notin> set f"
    by (auto simp: grep_value_options_def)
  show ?case
  proof (cases xs)
    case Nil
    with "1.prems" show ?thesis by simp
  next
    case (Cons arg rest)
    show ?thesis
    proof (cases "arg = ''--'' \<or> \<not> is_pipe_flag arg")
      case True
      with "1.prems" "1.IH" [rule_format, of rest "by" "Suc n"] Cons show ?thesis
        by (auto split: if_splits)
    next
      case False
      obtain flag v inline where cut: "str_cut arg CHR ''='' = (flag, v, inline)" by (metis prod_cases3)
      note vo = cut_value_option [OF cut no_eq]
      have ok: "\<not> is_blocked_pipe_option flag arg grep_blocked_options [''-f'']"
        using "1.prems" False Cons cut by (auto split: if_splits)
      show ?thesis
      proof (cases "has_prefix arg ''-e'' \<and> arg \<noteq> ''-e'' \<and> \<not> has_prefix arg ''--''")
        case True
        then obtain t where t: "arg = ''-e'' @ t" "t \<noteq> []" by (auto simp: has_prefix_iff)
        then have "arg \<notin> set grep_value_options" by (auto simp: grep_value_options_def)
        moreover have "grep_scan rest True n = Inr (by', m)"
          using "1.prems" False Cons cut ok True by simp
        ultimately show ?thesis using "1.IH" [rule_format, of rest True n] False Cons by simp
      next
        case plain: False
        let ?by = "by \<or> flag = ''-e'' \<or> flag = ''--regexp''"
        show ?thesis
        proof (cases "arg \<in> set grep_value_options")
          case True
          with "1.prems" False Cons cut ok plain vo obtain w rest' where
            "rest = w # rest'" "grep_scan rest' ?by n = Inr (by', m)"
            by (auto simp: Let_def split: list.splits)
          with "1.IH" [rule_format, of rest' ?by n] True False Cons show ?thesis by simp
        next
          case no_value: False
          with "1.prems" False Cons cut ok plain vo have "grep_scan rest ?by n = Inr (by', m)"
            by (auto simp: Let_def)
          with "1.IH" [rule_format, of rest ?by n] no_value False Cons show ?thesis by simp
        qed
      qed
    qed
  qed
qed

lemma tr_positionals_operands: "tr_positionals args n = n + length (operands [] args)"
  by (induction args arbitrary: n) auto

definition filter_value_options :: "string \<Rightarrow> string list" where
  "filter_value_options command =
     (if command \<in> {''grep'', ''egrep'', ''fgrep''} then grep_value_options
      else if command \<in> {''head'', ''tail''} then [''-c'', ''--bytes'', ''-n'', ''--lines'']
      else if command = ''sort'' then
        [''-k'', ''--key'', ''-S'', ''--buffer-size'', ''-t'', ''--field-separator'']
      else if command = ''uniq'' then
        [''-f'', ''--skip-fields'', ''-s'', ''--skip-chars'', ''-w'', ''--check-chars'']
      else if command = ''cut'' then
        [''-b'', ''--bytes'', ''-c'', ''--characters'', ''-d'', ''--delimiter'', ''-f'',
         ''--fields'', ''--output-delimiter'']
      else [])"

lemma other_filter_equations:
  "validate_pipe_command (''head'' # args) =
     no_file_operand_args ''head'' args (filter_value_options ''head'') [] []"
  "validate_pipe_command (''tail'' # args) =
     no_file_operand_args ''tail'' args (filter_value_options ''tail'') [''-f'', ''-F'', ''--follow''] []"
  "validate_pipe_command (''sort'' # args) =
     no_file_operand_args ''sort'' args (filter_value_options ''sort'') [''-o'', ''--output''] [''-o'']"
  "validate_pipe_command (''uniq'' # args) =
     no_file_operand_args ''uniq'' args (filter_value_options ''uniq'') [] []"
  "validate_pipe_command (''wc'' # args) =
     no_file_operand_args ''wc'' args (filter_value_options ''wc'') [] []"
  "validate_pipe_command (''cut'' # args) =
     no_file_operand_args ''cut'' args (filter_value_options ''cut'') [] []"
  by (simp_all add: validate_pipe_command_def pipe_commands_def filter_value_options_def)

lemma other_filters:
  assumes "command \<in> {''head'', ''tail'', ''sort'', ''uniq'', ''wc'', ''cut''}"
  shows "\<exists>bl pre. validate_pipe_command (command # args) =
    no_file_operand_args command args (filter_value_options command) bl pre"
  using assms
  by (elim insertE emptyE) (hypsubst, (rule other_filter_equations exI)+)+

text \<open>
  An accepted filter is one of the ten programs and gets no file operand: tr at most its
  two sets, the greps at most their pattern, and every other filter no operand at all.
\<close>

theorem filter_reads_no_file:
  assumes "validate_pipe_command (command # args) = None"
  shows "command \<in> set pipe_commands \<and>
    length (operands (filter_value_options command) args) \<le>
      (if command = ''tr'' then 2
       else if command \<in> {''grep'', ''egrep'', ''fgrep''} then 1 else 0)"
proof -
  have cmd: "command \<in> set pipe_commands"
    using assms by (auto simp: validate_pipe_command_def split: if_splits)
  show ?thesis
  proof (cases "command \<in> {''grep'', ''egrep'', ''fgrep''}")
    case True
    with assms cmd have "grep_pipe_args command args = None" by (simp add: validate_pipe_command_def)
    then obtain b m where m: "grep_scan args False 0 = Inr (b, m)" "m \<le> 1"
      by (auto simp: grep_pipe_args_def split: sum.splits if_splits)
    have "m = length (operands grep_value_options args)" using grep_scan_operands [OF m(1)] by simp
    with True m(2) cmd show ?thesis by (auto simp: filter_value_options_def)
  next
    case no_grep: False
    show ?thesis
    proof (cases "command = ''tr''")
      case True
      with assms cmd have "tr_positionals args 0 \<le> 2"
        by (simp add: validate_pipe_command_def tr_pipe_args_def split: if_splits)
      with tr_positionals_operands [of args 0] True cmd show ?thesis by (simp add: filter_value_options_def)
    next
      case False
      with no_grep cmd have "command \<in> {''head'', ''tail'', ''sort'', ''uniq'', ''wc'', ''cut''}"
        by (simp add: pipe_commands_def)
      then have "\<exists>bl pre. validate_pipe_command (command # args) =
          no_file_operand_args command args (filter_value_options command) bl pre"
        by (rule other_filters)
      then have "\<exists>bl pre. no_file_operand_args command args (filter_value_options command) bl pre = None"
        using assms by metis
      moreover have "\<forall>f \<in> set (filter_value_options command). CHR ''='' \<notin> set f"
        unfolding list_all_iff [symmetric]
        by (simp add: filter_value_options_def grep_value_options_def)
      ultimately obtain bl pre where
        "no_file_operand_args command args (filter_value_options command) bl pre = None"
        "\<forall>f \<in> set (filter_value_options command). CHR ''='' \<notin> set f" by blast
      from no_file_operand_args_operands [OF this(2,1)] cmd show ?thesis by simp
    qed
  qed
qed

theorem filter_reads_no_file_witness:
  "validate_pipe_command [''head'', ''-n'', ''5''] = None \<and>
   operands (filter_value_options ''head'') [''-n'', ''5''] = []"
proof -
  have "validate_pipe_command [''head'', ''-n'', ''5''] = None"
    by (simp add: validate_pipe_command_def pipe_commands_def is_pipe_flag_def
        is_blocked_pipe_option_def has_pipe_flag_prefix_def)
  with filter_reads_no_file [OF this] show ?thesis by simp
qed

section \<open>Wrapper shells\<close>

lemma has_leading_shell_flag_iff:
  "has_leading_shell_flag args blocked prefix \<longleftrightarrow>
     (\<exists>pre a post. args = pre @ a # post \<and> to_lower a \<in> set blocked \<and> (\<forall>p \<in> set pre. has_prefix p prefix))"
proof (induction args blocked prefix rule: has_leading_shell_flag.induct)
  case (2 arg args blocked prefix)
  show ?case
  proof (cases "to_lower arg \<in> set blocked")
    case True
    then show ?thesis by force
  next
    case False
    let ?P = "\<lambda>xs pre a post. xs = pre @ a # post \<and> to_lower a \<in> set blocked \<and>
        (\<forall>p \<in> set pre. has_prefix p prefix)"
    have "(\<exists>pre a post. ?P (arg # args) pre a post) \<longleftrightarrow>
        has_prefix arg prefix \<and> (\<exists>pre a post. ?P args pre a post)"
    proof
      assume "\<exists>pre a post. ?P (arg # args) pre a post"
      then obtain pre a post where p: "?P (arg # args) pre a post" by blast
      with False obtain pre' where "pre = arg # pre'" by (cases pre) auto
      with p show "has_prefix arg prefix \<and> (\<exists>pre a post. ?P args pre a post)" by auto
    next
      assume "has_prefix arg prefix \<and> (\<exists>pre a post. ?P args pre a post)"
      then obtain pre a post where "has_prefix arg prefix" "?P args pre a post" by blast
      then have "?P (arg # args) (arg # pre) a post" by simp
      then show "\<exists>pre a post. ?P (arg # args) pre a post" by blast
    qed
    with 2 False show ?thesis by simp
  qed
qed simp

text \<open>The shells that are caught, with their flags and the prefix that keeps the scan going.\<close>

definition wrapper_shells :: "(string list \<times> string list \<times> string) list" where
  "wrapper_shells =
     [([''bash'', ''sh'', ''zsh'', ''dash''], [''-c'', ''-lc''], ''-''),
      ([''cmd'', ''cmd.exe''], [''/c''], ''/''),
      ([''powershell'', ''powershell.exe'', ''pwsh'', ''pwsh.exe''], [''-c'', ''-command''], ''-'')]"

definition wrapper_call :: "string list \<Rightarrow> bool" where
  "wrapper_call args \<longleftrightarrow>
     (\<exists>(shells, flags, prefix) \<in> set wrapper_shells. \<exists>shell pre a post.
        args = shell # pre @ a # post \<and> to_lower shell \<in> set shells \<and> to_lower a \<in> set flags \<and>
        (\<forall>p \<in> set pre. has_prefix p prefix))"

lemma wrapper_args_iff: "validate_wrapper_shell_args args \<noteq> None \<longleftrightarrow> wrapper_call args"
proof (cases "length args < 2")
  case True
  then have "\<not> wrapper_call args" by (auto simp: wrapper_call_def)
  with True show ?thesis by (simp add: validate_wrapper_shell_args_def)
next
  case False
  then obtain shell rest where "args = shell # rest" by (cases args) auto
  with False show ?thesis
    by (auto simp: validate_wrapper_shell_args_def wrapper_call_def wrapper_shells_def Let_def
        has_leading_shell_flag_iff)
qed

text \<open>
  The wrapper check passes a command exactly when it parses and no call in it, nested
  ones included, whose words are all literal runs one of the known shells with a command
  flag behind nothing but flags.
\<close>

theorem wrapper_check_exact:
  "validate_no_wrapper_shell_command parse command = None \<longleftrightarrow>
     (\<exists>calls. parse command = Some calls \<and>
        (\<forall>call \<in> set calls. \<forall>args. literal_args call = Some args \<longrightarrow> \<not> wrapper_call args))"
proof -
  have "walk_calls calls = None \<longleftrightarrow>
      (\<forall>call \<in> set calls. \<forall>args. literal_args call = Some args \<longrightarrow> \<not> wrapper_call args)" for calls
    by (induction calls) (auto split: option.splits simp flip: wrapper_args_iff)
  then show ?thesis by (auto simp: validate_no_wrapper_shell_command_def split: option.split)
qed

theorem wrapper_check_exact_witness:
  "validate_no_wrapper_shell_command (\<lambda>c. Some [[[Lit ''git''], [Lit ''status'']]]) ''git status'' = None \<and>
   \<not> wrapper_call [''git'', ''status'']"
proof -
  let ?p = "\<lambda>c. Some [[[Lit ''git''], [Lit ''status'']]]"
  have "validate_no_wrapper_shell_command ?p ''git status'' = None"
    by (simp add: validate_no_wrapper_shell_command_def validate_wrapper_shell_args_def literal_word_def to_lower_def
        to_lower_char_def byte_val_def)
  with wrapper_check_exact [of ?p "''git status''"] show ?thesis by (simp add: literal_word_def)
qed

text \<open>
  The flag lists are matched literally, so calls that getopt reads as blocked ones pass:
  sort with a clustered or abbreviated output option (it writes a file), tail following
  through a cluster, git grep with the short form of the blocked pager option, and a
  shell whose command flag stands in a cluster.
\<close>

theorem policy_bypasses:
  "validate_pipe_command [''sort'', ''-rofile''] = None \<and>
   validate_pipe_command [''sort'', ''--outp=file''] = None \<and>
   validate_pipe_command [''tail'', ''-qf''] = None \<and>
   validate_git_args [''git'', ''grep'', ''-Oless'', ''x''] = None \<and>
   validate_wrapper_shell_args [''bash'', ''-xc'', ''rm''] = None"
  by (simp add: validate_pipe_command_def pipe_commands_def is_pipe_flag_def is_blocked_pipe_option_def
      has_pipe_flag_prefix_def validate_git_args_def git_subcommands_def git_blocked_flags_def
      git_global_flags_def validate_wrapper_shell_args_def to_lower_def to_lower_char_def byte_val_def)

end
