(* ===== verification/Session_Store.thy ===== *)
theory Session_Store
  imports Session_Data "HOL-Library.Product_Lexorder"
begin

text \<open>
  The session service of internal/session/session.go over the tables it works on. The
  queries are those of internal/db/sessions.sql.go (their SQL text), with the triggers and
  check constraints that the migrations give the tables: an update of a session row sets
  its updated_at after the query has returned the row, and inserting or deleting a message
  changes the message count of its session. A query may also fail for outside reasons.
  JSON columns are kept decoded: encoding/json reads back what it wrote.
\<close>

section \<open>Rows\<close>

datatype 'a json_text = EmptyText | JsonOf 'a | BadJson

text \<open>The goal columns of a session row, and the row; nullable columns are options.\<close>

record goal_columns =
  gc_id :: string
  gc_text :: string
  gc_status :: string
  gc_token_budget :: int
  gc_tokens_used :: int
  gc_time_seconds :: int
  gc_created :: int
  gc_updated :: int
  gc_tasks :: "task list json_text"
  gc_max_iterations :: int
  gc_block_cap :: int
  gc_iterations :: int
  gc_no_progress :: int
  gc_last_reason :: string
  gc_verifier_id :: string
  gc_evaluator_met :: "int option"
  gc_evaluator_at :: int

record session_row =
  sr_id :: string
  sr_parent :: "string option"
  sr_title :: string
  sr_message_count :: int
  sr_prompt_tokens :: int
  sr_completion_tokens :: int
  sr_cost :: "64 word"
  sr_updated :: int
  sr_created :: int
  sr_summary :: "string option"
  sr_todos :: "todo list json_text option"
  sr_collaboration :: string
  sr_last_prompt :: int
  sr_last_completion :: int
  sr_cwd :: "string option"
  sr_kind :: string
  sr_handoff_source :: "string option"
  sr_handoff_goal :: string
  sr_handoff_draft :: string
  sr_handoff_files :: "string list json_text"
  sr_permission :: string
  sr_plan_path :: string
  sr_goal :: goal_columns
  sr_archived :: int
  sr_pinned :: int
  sr_inference :: "inference json_text"
  sr_inference_rev :: int

text \<open>A message: \<open>mr_body\<close> stands for the columns that are only copied.\<close>

record message_row =
  mr_rowid :: nat
  mr_id :: string
  mr_session :: string
  mr_role :: string
  mr_body :: string
  mr_created :: int

record tables =
  tb_sessions :: "session_row list"
  tb_messages :: "message_row list"
  tb_files :: "(string \<times> string) list"

datatype broker_event = CreatedEvent | UpdatedEvent | DeletedEvent

text \<open>
  The service: the tables, the default modes, what it published on its broker and the ids
  handed to the delete callback.
\<close>

record session_service =
  ss_tables :: tables
  ss_default_collaboration :: string
  ss_default_permission :: string
  ss_published :: "(broker_event \<times> session) list"
  ss_delete_calls :: "string list"

text \<open>
  What one call of the service draws from outside: the time in seconds, the uuid of a new
  session, the uuids of entry \<open>i\<close> in the \<open>k\<close>-th normalisation (0 and 1 store, 2 and 3 load
  todos and tasks), the ids of copied messages, which of its queries fail, the working
  directory, the plan file the plan package makes for a workspace and a session, the
  hash of the xxh3 package, and the sum of two float64.
\<close>

record env =
  en_now :: int
  en_id :: string
  en_uuid :: "nat \<Rightarrow> nat \<Rightarrow> string"
  en_copy_id :: "nat \<Rightarrow> string"
  en_fail :: "nat \<Rightarrow> bool"
  en_cwd :: "string option"
  en_plan_file :: "string \<Rightarrow> string \<Rightarrow> string option"
  en_xxh3 :: "string \<Rightarrow> 64 word"
  en_fadd :: "64 word \<Rightarrow> 64 word \<Rightarrow> 64 word"

section \<open>Columns\<close>

definition marshal_todos :: "env \<Rightarrow> todo list \<Rightarrow> todo list json_text" where
  "marshal_todos e ts =
     (if ts = [] then EmptyText else JsonOf (normalize_todos (en_xxh3 e) True (en_now e) (en_uuid e 0) ts))"

definition unmarshal_todos :: "env \<Rightarrow> todo list json_text \<Rightarrow> todo list" where
  "unmarshal_todos e c =
     (case c of
        JsonOf ts \<Rightarrow> (if ts = [] then [] else normalize_todos (en_xxh3 e) False (en_now e) (en_uuid e 2) ts)
      | _ \<Rightarrow> [])"

definition normalize_tasks_for_storage :: "env \<Rightarrow> task list \<Rightarrow> task list" where
  "normalize_tasks_for_storage e ts =
     (if ts = [] then [] else normalize_tasks (en_xxh3 e) True (en_now e) (en_uuid e 1) ts)"

definition normalize_tasks_for_load :: "env \<Rightarrow> task list \<Rightarrow> task list" where
  "normalize_tasks_for_load e ts =
     (if ts = [] then [] else normalize_tasks (en_xxh3 e) False (en_now e) (en_uuid e 3) ts)"

definition marshal_goal_tasks :: "env \<Rightarrow> task list \<Rightarrow> task list json_text" where
  "marshal_goal_tasks e ts =
     (if ts = [] then JsonOf [] else JsonOf (normalize_tasks_for_storage e ts))"

definition unmarshal_goal_tasks :: "env \<Rightarrow> task list json_text \<Rightarrow> task list" where
  "unmarshal_goal_tasks e c =
     (case c of JsonOf ts \<Rightarrow> normalize_tasks_for_load e ts | _ \<Rightarrow> [])"

definition marshal_string_slice :: "string list \<Rightarrow> string list json_text" where
  "marshal_string_slice xs = (if xs = [] then JsonOf [] else JsonOf xs)"

definition unmarshal_string_slice :: "string list json_text \<Rightarrow> string list" where
  "unmarshal_string_slice c = (case c of JsonOf xs \<Rightarrow> xs | _ \<Rightarrow> [])"

definition bool_int64 :: "bool \<Rightarrow> int" where
  "bool_int64 b = (if b then 1 else 0)"

definition int64_to_bool :: "int option \<Rightarrow> bool option" where
  "int64_to_bool v = (case v of None \<Rightarrow> None | Some n \<Rightarrow> Some (n = 1))"

definition null_string :: "string \<Rightarrow> string option" where
  "null_string s = (if s \<noteq> [] then Some s else None)"

definition string_of_null :: "string option \<Rightarrow> string" where
  "string_of_null v = (case v of None \<Rightarrow> [] | Some s \<Rightarrow> s)"

lemma null_string_roundtrip [simp]: "string_of_null (null_string s) = s"
  by (simp add: null_string_def string_of_null_def)

lemma bool_roundtrip [simp]: "int64_to_bool (map_option bool_int64 b) = b"
  by (cases b) (auto simp: int64_to_bool_def bool_int64_def)

lemma string_slice_roundtrip [simp]: "unmarshal_string_slice (marshal_string_slice xs) = xs"
  by (simp add: marshal_string_slice_def unmarshal_string_slice_def)

definition empty_inference :: inference where
  "empty_inference = \<lparr>in_model = [], in_provider = [], in_max_output_tokens = None,
     in_temperature = None, in_top_p = None, in_top_k = None, in_frequency_penalty = None,
     in_presence_penalty = None, in_think = None, in_reasoning_effort = None\<rparr>"

definition unmarshal_inference :: "inference json_text \<Rightarrow> inference" where
  "unmarshal_inference c = (case c of JsonOf i \<Rightarrow> i | _ \<Rightarrow> empty_inference)"

definition goal_from_columns :: "env \<Rightarrow> goal_columns \<Rightarrow> goal" where
  "goal_from_columns e c =
     \<lparr>gl_id = gc_id c, gl_text = gc_text c, gl_status = gc_status c,
      gl_token_budget = gc_token_budget c, gl_tokens_used = gc_tokens_used c,
      gl_time_seconds = gc_time_seconds c, gl_max_iterations = gc_max_iterations c,
      gl_block_cap = gc_block_cap c, gl_iterations = gc_iterations c,
      gl_no_progress = gc_no_progress c, gl_last_reason = gc_last_reason c,
      gl_verifier_id = gc_verifier_id c, gl_last_evaluator_met = int64_to_bool (gc_evaluator_met c),
      gl_last_evaluator_at = gc_evaluator_at c, gl_tasks = unmarshal_goal_tasks e (gc_tasks c),
      gl_created = gc_created c, gl_updated = gc_updated c\<rparr>"

definition from_db_item :: "env \<Rightarrow> session_row \<Rightarrow> session" where
  "from_db_item e r =
     \<lparr>se_id = sr_id r, se_parent = string_of_null (sr_parent r), se_kind = normalize_kind (sr_kind r),
      se_title = sr_title r, se_cwd = string_of_null (sr_cwd r),
      se_collaboration = normalize_collaboration_mode (sr_collaboration r),
      se_permission = normalize_permission_mode (sr_permission r), se_plan_path = sr_plan_path r,
      se_handoff_source = string_of_null (sr_handoff_source r),
      se_handoff_goal = sr_handoff_goal r, se_handoff_draft = sr_handoff_draft r,
      se_handoff_files = unmarshal_string_slice (sr_handoff_files r),
      se_goal = goal_from_columns e (sr_goal r),
      se_message_count = sr_message_count r, se_prompt_tokens = sr_prompt_tokens r,
      se_completion_tokens = sr_completion_tokens r, se_last_prompt = sr_last_prompt r,
      se_last_completion = sr_last_completion r, se_summary = string_of_null (sr_summary r),
      se_cost = sr_cost r,
      se_todos = (case sr_todos r of None \<Rightarrow> [] | Some c \<Rightarrow> unmarshal_todos e c),
      se_estimated = False, se_archived = (sr_archived r \<noteq> 0), se_pinned = (sr_pinned r \<noteq> 0),
      se_inference = unmarshal_inference (sr_inference r),
      se_inference_rev = nat (max (sr_inference_rev r) 0),
      se_created = sr_created r, se_updated = sr_updated r\<rparr>"

section \<open>Queries\<close>

text \<open>The check constraints of the sessions table.\<close>

definition float_nan :: "64 word \<Rightarrow> bool" where
  "float_nan w \<longleftrightarrow> unat (take_bit 63 w) > 0x7FF0000000000000"

definition float_nonneg :: "64 word \<Rightarrow> bool" where
  "float_nonneg w \<longleftrightarrow> \<not> float_nan w \<and> (\<not> bit w 63 \<or> take_bit 63 w = 0)"

definition row_ok :: "session_row \<Rightarrow> bool" where
  "row_ok r \<longleftrightarrow>
     0 \<le> sr_message_count r \<and> 0 \<le> sr_prompt_tokens r \<and> 0 \<le> sr_completion_tokens r \<and>
     float_nonneg (sr_cost r) \<and> sr_kind r \<in> {''normal'', ''handoff''} \<and>
     sr_archived r \<in> {0, 1} \<and> sr_pinned r \<in> {0, 1} \<and> 0 \<le> sr_inference_rev r"

definition find_row :: "string \<Rightarrow> tables \<Rightarrow> session_row option" where
  "find_row i tb = find (\<lambda>r. sr_id r = i) (tb_sessions tb)"

definition put_row :: "session_row \<Rightarrow> tables \<Rightarrow> tables" where
  "put_row r tb = tb\<lparr>tb_sessions := map (\<lambda>x. if sr_id x = sr_id r then r else x) (tb_sessions tb)\<rparr>"

definition query_session :: "bool \<Rightarrow> string \<Rightarrow> tables \<Rightarrow> session_error + session_row" where
  "query_session fails i tb =
     (if fails then Inl ErrDriver
      else case find_row i tb of None \<Rightarrow> Inl ErrNoRows | Some r \<Rightarrow> Inr r)"

text \<open>
  An UPDATE ... WHERE id = ? AND g RETURNING: the returned row is the updated one, the
  stored one has its updated_at set by the trigger.
\<close>

definition query_update ::
  "bool \<Rightarrow> int \<Rightarrow> string \<Rightarrow> (session_row \<Rightarrow> bool) \<Rightarrow> (session_row \<Rightarrow> session_row) \<Rightarrow> tables \<Rightarrow>
   tables \<times> (session_error + session_row)" where
  "query_update fails now i g f tb =
     (if fails then (tb, Inl ErrDriver)
      else
        (case find_row i tb of
           None \<Rightarrow> (tb, Inl ErrNoRows)
         | Some r \<Rightarrow>
             if \<not> g r then (tb, Inl ErrNoRows)
             else if \<not> row_ok (f r) then (tb, Inl ErrConstraint)
             else (put_row ((f r)\<lparr>sr_updated := now\<rparr>) tb, Inr (f r))))"

text \<open>CreateSession: the parameters that its callers set, the rest is zero or the column default.\<close>

record create_params =
  cp_id :: string
  cp_parent :: "string option"
  cp_title :: string
  cp_cwd :: "string option"
  cp_collaboration :: string
  cp_permission :: string
  cp_plan_path :: string
  cp_kind :: string
  cp_handoff_source :: "string option"
  cp_handoff_goal :: string
  cp_handoff_draft :: string
  cp_handoff_files :: "string list json_text"

definition created_row :: "int \<Rightarrow> create_params \<Rightarrow> session_row" where
  "created_row now p =
     \<lparr>sr_id = cp_id p, sr_parent = cp_parent p, sr_title = cp_title p, sr_message_count = 0,
      sr_prompt_tokens = 0, sr_completion_tokens = 0, sr_cost = 0, sr_updated = now,
      sr_created = now, sr_summary = None, sr_todos = None,
      sr_collaboration = cp_collaboration p, sr_last_prompt = 0, sr_last_completion = 0,
      sr_cwd = cp_cwd p, sr_kind = cp_kind p, sr_handoff_source = cp_handoff_source p,
      sr_handoff_goal = cp_handoff_goal p, sr_handoff_draft = cp_handoff_draft p,
      sr_handoff_files = cp_handoff_files p, sr_permission = cp_permission p,
      sr_plan_path = cp_plan_path p,
      sr_goal = \<lparr>gc_id = [], gc_text = [], gc_status = [], gc_token_budget = 0,
        gc_tokens_used = 0, gc_time_seconds = 0, gc_created = 0, gc_updated = 0,
        gc_tasks = JsonOf [], gc_max_iterations = 50, gc_block_cap = 8, gc_iterations = 0,
        gc_no_progress = 0, gc_last_reason = [], gc_verifier_id = [], gc_evaluator_met = None,
        gc_evaluator_at = 0\<rparr>,
      sr_archived = 0, sr_pinned = 0, sr_inference = JsonOf empty_inference, sr_inference_rev = 0\<rparr>"

definition query_create ::
  "bool \<Rightarrow> int \<Rightarrow> create_params \<Rightarrow> tables \<Rightarrow> tables \<times> (session_error + session_row)" where
  "query_create fails now p tb =
     (if fails then (tb, Inl ErrDriver)
      else if find_row (cp_id p) tb \<noteq> None \<or> \<not> row_ok (created_row now p) then (tb, Inl ErrConstraint)
      else (tb\<lparr>tb_sessions := tb_sessions tb @ [created_row now p]\<rparr>, Inr (created_row now p)))"

text \<open>ORDER BY ... DESC; rows that tie keep their order in the table.\<close>

definition list_roots :: "tables \<Rightarrow> session_row list" where
  "list_roots tb = sort_key (\<lambda>r. - sr_updated r) (filter (\<lambda>r. sr_parent r = None) (tb_sessions tb))"

definition list_children_rows :: "string option \<Rightarrow> tables \<Rightarrow> session_row list" where
  "list_children_rows parent tb =
     (case parent of
        None \<Rightarrow> []
      | Some p \<Rightarrow> sort_key (\<lambda>r. - sr_created r) (filter (\<lambda>r. sr_parent r = Some p) (tb_sessions tb)))"

section \<open>Creating and reading\<close>

definition publish_session :: "broker_event \<Rightarrow> session \<Rightarrow> session_service \<Rightarrow> session_service" where
  "publish_session k x s = s\<lparr>ss_published := ss_published s @ [(k, x)]\<rparr>"

definition get_session :: "env \<Rightarrow> string \<Rightarrow> session_service \<Rightarrow> session_error + session" where
  "get_session e i s =
     (case query_session (en_fail e 0) i (ss_tables s) of
        Inl err \<Rightarrow> Inl err
      | Inr r \<Rightarrow> Inr (from_db_item e r))"

text \<open>The part the create operations share: insert, publish, return.\<close>

definition insert_session ::
  "env \<Rightarrow> bool \<Rightarrow> create_params \<Rightarrow> session_service \<Rightarrow> session_service \<times> (session_error + session)" where
  "insert_session e fails p s =
     (case query_create fails (en_now e) p (ss_tables s) of
        (tb, Inl err) \<Rightarrow> (s\<lparr>ss_tables := tb\<rparr>, Inl err)
      | (tb, Inr r) \<Rightarrow>
          let x = from_db_item e r
          in (publish_session CreatedEvent x (s\<lparr>ss_tables := tb\<rparr>), Inr x))"

definition create_session ::
  "env \<Rightarrow> string \<Rightarrow> session_service \<Rightarrow> session_service \<times> (session_error + session)" where
  "create_session e title s =
     insert_session e (en_fail e 0)
       \<lparr>cp_id = en_id e, cp_parent = None, cp_title = title, cp_cwd = None,
        cp_collaboration = ss_default_collaboration s, cp_permission = ss_default_permission s,
        cp_plan_path = [], cp_kind = ''normal'', cp_handoff_source = None, cp_handoff_goal = [],
        cp_handoff_draft = [], cp_handoff_files = JsonOf []\<rparr> s"

definition create_task_session ::
  "env \<Rightarrow> string \<Rightarrow> string \<Rightarrow> string \<Rightarrow> session_service \<Rightarrow>
   session_service \<times> (session_error + session)" where
  "create_task_session e tool_call parent title s =
     (case get_session e parent s of
        Inl err \<Rightarrow> (s, Inl err)
      | Inr p \<Rightarrow>
          insert_session e (en_fail e 1)
            \<lparr>cp_id = tool_call, cp_parent = Some parent, cp_title = title,
             cp_cwd = null_string (se_cwd p), cp_collaboration = se_collaboration p,
             cp_permission = se_permission p, cp_plan_path = se_plan_path p, cp_kind = ''normal'',
             cp_handoff_source = None, cp_handoff_goal = [], cp_handoff_draft = [],
             cp_handoff_files = JsonOf []\<rparr> s)"

definition create_title_session ::
  "env \<Rightarrow> string \<Rightarrow> session_service \<Rightarrow> session_service \<times> (session_error + session)" where
  "create_title_session e parent s =
     insert_session e (en_fail e 0)
       \<lparr>cp_id = ''title-'' @ parent, cp_parent = Some parent, cp_title = ''Generate a title'',
        cp_cwd = None, cp_collaboration = ss_default_collaboration s,
        cp_permission = ss_default_permission s, cp_plan_path = [], cp_kind = ''normal'',
        cp_handoff_source = None, cp_handoff_goal = [], cp_handoff_draft = [],
        cp_handoff_files = JsonOf []\<rparr> s"

definition create_handoff_session ::
  "env \<Rightarrow> string \<Rightarrow> string \<Rightarrow> string \<Rightarrow> string \<Rightarrow> string list \<Rightarrow> session_service \<Rightarrow>
   session_service \<times> (session_error + session)" where
  "create_handoff_session e source title hgoal draft_prompt files s =
     insert_session e (en_fail e 0)
       \<lparr>cp_id = en_id e, cp_parent = None, cp_title = title, cp_cwd = None,
        cp_collaboration = ss_default_collaboration s, cp_permission = ss_default_permission s,
        cp_plan_path = [], cp_kind = ''handoff'', cp_handoff_source = null_string source,
        cp_handoff_goal = hgoal, cp_handoff_draft = draft_prompt,
        cp_handoff_files = marshal_string_slice files\<rparr> s"

definition get_last_session :: "env \<Rightarrow> session_service \<Rightarrow> session_error + session" where
  "get_last_session e s =
     (if en_fail e 0 then Inl ErrDriver
      else case list_roots (ss_tables s) of [] \<Rightarrow> Inl ErrNoRows | r # _ \<Rightarrow> Inr (from_db_item e r))"

definition list_sessions :: "env \<Rightarrow> session_service \<Rightarrow> session_error + session list" where
  "list_sessions e s =
     (if en_fail e 0 then Inl ErrDriver else Inr (map (from_db_item e) (list_roots (ss_tables s))))"

definition list_children :: "env \<Rightarrow> string \<Rightarrow> session_service \<Rightarrow> session_error + session list" where
  "list_children e parent s =
     (if en_fail e 0 then Inl ErrDriver
      else Inr (map (from_db_item e) (list_children_rows (null_string parent) (ss_tables s))))"

section \<open>Saving\<close>

definition goal_to_columns :: "env \<Rightarrow> goal \<Rightarrow> goal_columns" where
  "goal_to_columns e g =
     \<lparr>gc_id = gl_id g, gc_text = gl_text g, gc_status = gl_status g,
      gc_token_budget = gl_token_budget g, gc_tokens_used = gl_tokens_used g,
      gc_time_seconds = gl_time_seconds g, gc_created = gl_created g, gc_updated = gl_updated g,
      gc_tasks = marshal_goal_tasks e (gl_tasks g), gc_max_iterations = gl_max_iterations g,
      gc_block_cap = gl_block_cap g, gc_iterations = gl_iterations g,
      gc_no_progress = gl_no_progress g, gc_last_reason = gl_last_reason g,
      gc_verifier_id = gl_verifier_id g,
      gc_evaluator_met = map_option bool_int64 (gl_last_evaluator_met g),
      gc_evaluator_at = gl_last_evaluator_at g\<rparr>"

definition saved_row :: "env \<Rightarrow> session \<Rightarrow> session_row \<Rightarrow> session_row" where
  "saved_row e x r =
     r\<lparr>sr_title := se_title x, sr_cwd := null_string (se_cwd x),
       sr_collaboration := normalize_collaboration_mode (se_collaboration x),
       sr_permission := normalize_permission_mode (se_permission x),
       sr_kind := normalize_kind (se_kind x),
       sr_handoff_source := null_string (se_handoff_source x),
       sr_handoff_goal := se_handoff_goal x, sr_handoff_draft := se_handoff_draft x,
       sr_handoff_files := marshal_string_slice (se_handoff_files x),
       sr_plan_path := se_plan_path x, sr_goal := goal_to_columns e (se_goal x),
       sr_prompt_tokens := se_prompt_tokens x, sr_completion_tokens := se_completion_tokens x,
       sr_last_prompt := se_last_prompt x, sr_last_completion := se_last_completion x,
       sr_summary := null_string (se_summary x), sr_cost := se_cost x,
       sr_todos := (if marshal_todos e (se_todos x) = EmptyText then None
                    else Some (marshal_todos e (se_todos x)))\<rparr>"

definition save_session ::
  "env \<Rightarrow> session \<Rightarrow> session_service \<Rightarrow> session_service \<times> (session_error + session)" where
  "save_session e x s =
     (case query_update (en_fail e 0) (en_now e) (se_id x) (\<lambda>_. True) (saved_row e x) (ss_tables s) of
        (tb, Inl err) \<Rightarrow> (s\<lparr>ss_tables := tb\<rparr>, Inl err)
      | (tb, Inr r) \<Rightarrow>
          let y = (from_db_item e r)\<lparr>se_estimated := se_estimated x\<rparr>
          in (publish_session UpdatedEvent y (s\<lparr>ss_tables := tb\<rparr>), Inr y))"

section \<open>Narrow updates\<close>

text \<open>
  The end the narrow updates share: the query, then the row as a session with the estimate
  flag carried over, published.
\<close>

definition narrow_update ::
  "env \<Rightarrow> nat \<Rightarrow> string \<Rightarrow> (session_row \<Rightarrow> bool) \<Rightarrow> (session_row \<Rightarrow> session_row) \<Rightarrow> bool \<Rightarrow>
   session_service \<Rightarrow> session_service \<times> (session_error + session)" where
  "narrow_update e k i g f estimated s =
     (case query_update (en_fail e k) (en_now e) i g f (ss_tables s) of
        (tb, Inl err) \<Rightarrow> (s\<lparr>ss_tables := tb\<rparr>, Inl err)
      | (tb, Inr r) \<Rightarrow>
          let y = (from_db_item e r)\<lparr>se_estimated := estimated\<rparr>
          in (publish_session UpdatedEvent y (s\<lparr>ss_tables := tb\<rparr>), Inr y))"

definition rename_session ::
  "env \<Rightarrow> string \<Rightarrow> string \<Rightarrow> session_service \<Rightarrow> session_service \<times> (session_error + session)" where
  "rename_session e i title s = narrow_update e 0 i (\<lambda>_. True) (sr_title_update (\<lambda>_. title)) False s"

definition set_archived ::
  "env \<Rightarrow> string \<Rightarrow> bool \<Rightarrow> session_service \<Rightarrow> session_service \<times> (session_error + session)" where
  "set_archived e i b s =
     narrow_update e 0 i (\<lambda>_. True) (sr_archived_update (\<lambda>_. bool_int64 b)) False s"

definition set_pinned ::
  "env \<Rightarrow> string \<Rightarrow> bool \<Rightarrow> session_service \<Rightarrow> session_service \<times> (session_error + session)" where
  "set_pinned e i b s =
     narrow_update e 0 i (\<lambda>_. True) (sr_pinned_update (\<lambda>_. bool_int64 b)) False s"

definition set_default_permission_mode :: "string \<Rightarrow> session_service \<Rightarrow> session_service" where
  "set_default_permission_mode mode s = s\<lparr>ss_default_permission := normalize_permission_mode mode\<rparr>"

text \<open>The query adds to the counters; an error of the Get before it is ignored.\<close>

definition update_title_and_usage ::
  "env \<Rightarrow> string \<Rightarrow> string \<Rightarrow> int \<Rightarrow> int \<Rightarrow> 64 word \<Rightarrow> session_service \<Rightarrow>
   session_service \<times> session_error option" where
  "update_title_and_usage e i title prompt completion cost s =
     (let estimated = (case get_session e i s of Inl _ \<Rightarrow> False | Inr x \<Rightarrow> se_estimated x)
      in case narrow_update e 1 i (\<lambda>_. True)
           (\<lambda>r. r\<lparr>sr_title := title, sr_prompt_tokens := sr_prompt_tokens r + prompt,
                  sr_completion_tokens := sr_completion_tokens r + completion,
                  sr_cost := en_fadd e (sr_cost r) cost, sr_updated := en_now e\<rparr>) estimated s of
           (s, Inl err) \<Rightarrow> (s, Some err)
         | (s, Inr _) \<Rightarrow> (s, None))"

text \<open>
  UpdateInference: the row changes only if its revision is the expected one. The conversion
  of the expected revision to int64 wraps.
\<close>

definition update_inference ::
  "env \<Rightarrow> string \<Rightarrow> nat \<Rightarrow> inference \<Rightarrow> session_service \<Rightarrow>
   session_service \<times> (session_error + session)" where
  "update_inference e i expected overrides s =
     (case narrow_update e 0 i (\<lambda>r. sr_inference_rev r = i64 (int expected))
        (\<lambda>r. r\<lparr>sr_inference := JsonOf overrides, sr_inference_rev := sr_inference_rev r + 1\<rparr>) False s of
        (s', Inl ErrNoRows) \<Rightarrow>
          (case query_session (en_fail e 1) i (ss_tables s') of
             Inr _ \<Rightarrow> (s', Inl ErrInferenceConflict)
           | Inl _ \<Rightarrow> (s', Inl ErrNoRows))
      | (s', res) \<Rightarrow> (s', res))"

definition update_permission_mode ::
  "env \<Rightarrow> string \<Rightarrow> string \<Rightarrow> session_service \<Rightarrow> session_service \<times> (session_error + session)" where
  "update_permission_mode e i mode s =
     (case get_session e i s of
        Inl err \<Rightarrow> (s, Inl err)
      | Inr x \<Rightarrow>
          let t = new_mode_transition x None (Some mode)
          in if \<not> transition_changed t then (s, Inr x)
             else narrow_update e 1 i (\<lambda>_. True)
                    (sr_permission_update (\<lambda>_. ms_permission (mt_current t))) (se_estimated x) s)"

definition update_plan_file_path ::
  "env \<Rightarrow> string \<Rightarrow> string \<Rightarrow> session_service \<Rightarrow> session_service \<times> (session_error + session)" where
  "update_plan_file_path e i path s =
     (case get_session e i s of
        Inl err \<Rightarrow> (s, Inl err)
      | Inr x \<Rightarrow>
          if trim_space path = trim_space (se_plan_path x) then (s, Inr x)
          else narrow_update e 1 i (\<lambda>_. True) (sr_plan_path_update (\<lambda>_. path)) (se_estimated x) s)"

section \<open>Collaboration modes\<close>

definition ensure_plan_file ::
  "env \<Rightarrow> session \<Rightarrow> session_service \<Rightarrow> session_service \<times> (session_error + session)" where
  "ensure_plan_file e x s =
     (case (if trim_space (se_cwd x) = [] then en_cwd e else Some (trim_space (se_cwd x))) of
        None \<Rightarrow> (s, Inl ErrWorkspace)
      | Some root \<Rightarrow>
          (case (if trim_space (se_plan_path x) \<noteq> [] then Some (se_plan_path x)
                 else en_plan_file e root (se_id x)) of
             None \<Rightarrow> (s, Inl ErrPlanFile)
           | Some path \<Rightarrow>
               if path = se_plan_path x then (s, Inr x)
               else save_session (e\<lparr>en_fail := \<lambda>k. en_fail e (2 + k)\<rparr>) (x\<lparr>se_plan_path := path\<rparr>) s))"

text \<open>The decision of UpdateCollaborationMode on the session it read, and the write after it.\<close>

definition collaboration_check :: "string \<Rightarrow> session \<Rightarrow> session_error option" where
  "collaboration_check mode x =
     (if mode = ''plan'' \<and> \<not> is_active_plan_mode x then validate_enter_plan_mode x else None)"

definition write_collaboration_mode ::
  "env \<Rightarrow> string \<Rightarrow> string \<Rightarrow> session \<Rightarrow> session_service \<Rightarrow>
   session_service \<times> (session_error + session)" where
  "write_collaboration_mode e i mode x s =
     (let t = new_mode_transition x (Some mode) None
      in if \<not> transition_changed t then (s, Inr x)
         else
           (case query_update (en_fail e 1) (en_now e) i (\<lambda>_. True)
              (sr_collaboration_update (\<lambda>_. ms_collaboration (mt_current t))) (ss_tables s) of
              (tb, Inl err) \<Rightarrow> (s\<lparr>ss_tables := tb\<rparr>, Inl err)
            | (tb, Inr r) \<Rightarrow>
                let y = (from_db_item e r)\<lparr>se_estimated := se_estimated x\<rparr>;
                    s = s\<lparr>ss_tables := tb\<rparr>
                in case (if se_collaboration y = ''plan'' then ensure_plan_file e y s else (s, Inr y)) of
                     (s, Inl err) \<Rightarrow> (s, Inl err)
                   | (s, Inr z) \<Rightarrow> (publish_session UpdatedEvent z s, Inr z)))"

definition update_collaboration_mode ::
  "env \<Rightarrow> string \<Rightarrow> string \<Rightarrow> session_service \<Rightarrow> session_service \<times> (session_error + session)" where
  "update_collaboration_mode e i mode s =
     (case get_session e i s of
        Inl err \<Rightarrow> (s, Inl err)
      | Inr x \<Rightarrow>
          (case collaboration_check mode x of
             Some err \<Rightarrow> (s, Inl err)
           | None \<Rightarrow> write_collaboration_mode e i mode x s))"

section \<open>Deleting\<close>

text \<open>
  Delete runs in a transaction: the tables change only when every query succeeds. Each
  deleted message takes one from the message count, whose constraint can refuse it.
\<close>

definition delete_session :: "env \<Rightarrow> string \<Rightarrow> session_service \<Rightarrow> session_service \<times> session_error option" where
  "delete_session e i s =
     (if en_fail e 0 then (s, Some ErrDriver)
      else case query_session (en_fail e 1) i (ss_tables s) of
        Inl err \<Rightarrow> (s, Some err)
      | Inr r \<Rightarrow>
          let tb = ss_tables s;
              own = filter (\<lambda>m. mr_session m = i) (tb_messages tb)
          in if en_fail e 2 then (s, Some ErrDriver)
             else if sr_message_count r < int (length own) then (s, Some ErrConstraint)
             else if en_fail e 3 \<or> en_fail e 4 \<or> en_fail e 5 then (s, Some ErrDriver)
             else
               let tb = tb\<lparr>tb_sessions := filter (\<lambda>x. sr_id x \<noteq> i) (tb_sessions tb),
                           tb_messages := filter (\<lambda>m. mr_session m \<noteq> i) (tb_messages tb),
                           tb_files := filter (\<lambda>x. fst x \<noteq> i) (tb_files tb)\<rparr>;
                   s = s\<lparr>ss_tables := tb, ss_delete_calls := ss_delete_calls s @ [i]\<rparr>
               in (publish_session DeletedEvent (from_db_item e r) s, None))"

section \<open>Forking\<close>

text \<open>ORDER BY created_at, rowid.\<close>

definition msg_key :: "message_row \<Rightarrow> int \<times> nat" where
  "msg_key m = (mr_created m, mr_rowid m)"

definition msg_before :: "message_row \<Rightarrow> message_row \<Rightarrow> bool" where
  "msg_before m n \<longleftrightarrow> msg_key m < msg_key n"

definition msg_order :: "message_row list \<Rightarrow> message_row list" where
  "msg_order ms = sort_key msg_key ms"

definition session_messages :: "string \<Rightarrow> tables \<Rightarrow> message_row list" where
  "session_messages i tb = msg_order (filter (\<lambda>m. mr_session m = i) (tb_messages tb))"

text \<open>The first user message after the boundary message, if there is one.\<close>

definition next_boundary :: "string \<Rightarrow> message_row \<Rightarrow> tables \<Rightarrow> message_row option" where
  "next_boundary i b tb =
     find (\<lambda>m. mr_role m = ''user'' \<and> msg_before b m) (session_messages i tb)"

definition next_rowid :: "message_row list \<Rightarrow> nat" where
  "next_rowid ms = foldr (\<lambda>m n. max (Suc (mr_rowid m)) n) ms 1"

text \<open>One INSERT per copied message, with a random id and the next rowid.\<close>

fun copy_messages ::
  "(nat \<Rightarrow> string) \<Rightarrow> string \<Rightarrow> nat \<Rightarrow> message_row list \<Rightarrow> message_row list \<Rightarrow> message_row list option" where
  "copy_messages uid target k [] ms = Some ms"
| "copy_messages uid target k (m # todo) ms =
     (if uid k \<in> mr_id ` set ms then None
      else copy_messages uid target (Suc k) todo
             (ms @ [m\<lparr>mr_rowid := next_rowid ms, mr_id := uid k, mr_session := target\<rparr>]))"

definition fork_title :: "string \<Rightarrow> string" where
  "fork_title title =
     (if trim_space title = [] then ''Forked Session''
      else if \<not> has_prefix (to_lower title) ''fork of '' then ''Fork of '' @ title
      else title)"

text \<open>Which messages of the source are copied; \<open>Inl\<close> when the boundary message is not there.\<close>

definition fork_selection :: "string \<Rightarrow> string \<Rightarrow> tables \<Rightarrow> session_error + message_row list" where
  "fork_selection source message tb =
     (if message = [] then Inr (session_messages source tb)
      else
        (case find (\<lambda>m. mr_id m = message \<and> mr_session m = source) (tb_messages tb) of
           None \<Rightarrow> Inl (ErrForkBoundary message)
         | Some b \<Rightarrow>
             (case next_boundary source b tb of
                None \<Rightarrow> Inr (session_messages source tb)
              | Some n \<Rightarrow> Inr (filter (\<lambda>m. msg_before m n) (session_messages source tb)))))"

definition fork_session ::
  "env \<Rightarrow> string \<Rightarrow> string \<Rightarrow> session_service \<Rightarrow> session_service \<times> (session_error + session)" where
  "fork_session e source message s =
     (case get_session e source s of
        Inl err \<Rightarrow> (s, Inl err)
      | Inr x \<Rightarrow>
          if en_fail e 1 \<or> message \<noteq> [] \<and> en_fail e 2 then (s, Inl ErrDriver)
          else case fork_selection source message (ss_tables s) of
            Inl err \<Rightarrow> (s, Inl err)
          | Inr selected \<Rightarrow>
              (case query_create (en_fail e 3) (en_now e)
                 \<lparr>cp_id = en_id e, cp_parent = None, cp_title = fork_title (se_title x),
                  cp_cwd = null_string (se_cwd x), cp_collaboration = se_collaboration x,
                  cp_permission = se_permission x, cp_plan_path = se_plan_path x,
                  cp_kind = ''normal'', cp_handoff_source = None, cp_handoff_goal = [],
                  cp_handoff_draft = [], cp_handoff_files = JsonOf []\<rparr> (ss_tables s) of
                 (_, Inl err) \<Rightarrow> (s, Inl err)
               | (tb, Inr r) \<Rightarrow>
                   if en_fail e 4 then (s, Inl ErrDriver)
                   else case copy_messages (en_copy_id e) (sr_id r) 0 selected (tb_messages tb) of
                     None \<Rightarrow> (s, Inl ErrConstraint)
                   | Some ms \<Rightarrow>
                       if en_fail e 5 then (s, Inl ErrDriver)
                       else
                         let counted = r\<lparr>sr_message_count := int (length selected), sr_updated := en_now e\<rparr>;
                             s = s\<lparr>ss_tables := (put_row counted tb)\<lparr>tb_messages := ms\<rparr>\<rparr>
                         in case get_session (e\<lparr>en_fail := \<lambda>k. en_fail e (6 + k)\<rparr>) (en_id e) s of
                              Inl err \<Rightarrow> (s, Inl err)
                            | Inr y \<Rightarrow> (publish_session CreatedEvent y s, Inr y)))"

section \<open>Ids of agent tool sessions\<close>

text \<open>strings.Split with the separator of the ids, two dollar signs.\<close>

fun split_dollars :: "string \<Rightarrow> string \<Rightarrow> string list" where
  "split_dollars current [] = [current]"
| "split_dollars current [c] = [current @ [c]]"
| "split_dollars current (c # d # s) =
     (if c = CHR ''$'' \<and> d = CHR ''$'' then current # split_dollars [] s
      else split_dollars (current @ [c]) (d # s))"

definition create_agent_tool_session_id :: "string \<Rightarrow> string \<Rightarrow> string" where
  "create_agent_tool_session_id message tool_call = message @ ''$$'' @ tool_call"

definition parse_agent_tool_session_id :: "string \<Rightarrow> (string \<times> string) option" where
  "parse_agent_tool_session_id i =
     (case split_dollars [] i of [m, t] \<Rightarrow> Some (m, t) | _ \<Rightarrow> None)"

definition is_agent_tool_session :: "string \<Rightarrow> bool" where
  "is_agent_tool_session i \<longleftrightarrow> parse_agent_tool_session_id i \<noteq> None"

end
