(* ===== verification/Session_Properties.thy ===== *)
theory Session_Properties
  imports Session_Store
begin

text \<open>
  The properties of the session service: the normal form of stored tasks and todos, the
  round trip of Save and Get, the compare-and-swap of inference settings, the ids of agent
  tool sessions, and what a fork copies.
\<close>

section \<open>Normalised tasks\<close>

text \<open>What every stored task looks like, whatever was passed in.\<close>

definition task_normal :: "task \<Rightarrow> bool" where
  "task_normal t \<longleftrightarrow>
     tk_id t \<noteq> [] \<and> trim_space (tk_id t) = tk_id t \<and> trim_space (tk_content t) = tk_content t \<and>
     normalize_task_status (tk_status t) = tk_status t \<and> trim_space (tk_blocker t) = tk_blocker t \<and>
     trim_space (tk_evidence t) = tk_evidence t \<and> trim_space (tk_drop_reason t) = tk_drop_reason t \<and>
     (tk_status t \<noteq> ''completed'' \<longrightarrow> tk_completed t = 0)"

text \<open>Uuids as the storing normalisation needs them: new, distinct, without blanks.\<close>

definition fresh_ids :: "(nat \<Rightarrow> string) \<Rightarrow> string list \<Rightarrow> bool" where
  "fresh_ids uid given \<longleftrightarrow>
     inj uid \<and> (\<forall>i. uid i \<noteq> [] \<and> trim_space (uid i) = uid i \<and> uid i \<notin> set given)"

lemma normalize_task_id:
  "tk_id (normalize_task h True now uid i seen t) =
     (let k = trim_space (tk_id t) in if k = [] \<or> k \<in> set seen then uid i else k)"
  by (simp add: normalize_task_def Let_def)

lemma normalize_task_normal:
  assumes "fresh_ids uid given"
  shows "task_normal (normalize_task h True now uid i seen t)"
proof -
  have "uid i \<noteq> []" "trim_space (uid i) = uid i" using assms by (auto simp: fresh_ids_def)
  moreover have "normalize_task_status ''completed'' = ''completed''"
    by (simp add: normalize_task_status_def)
  ultimately show ?thesis by (simp add: task_normal_def normalize_task_def Let_def)
qed

lemma normalize_tasks_from_normal:
  assumes "fresh_ids uid (map (\<lambda>t. trim_space (tk_id t)) ts)" "\<forall>j \<ge> i. uid j \<notin> set seen"
  shows "list_all task_normal (normalize_tasks_from h True now uid i seen ts) \<and>
    distinct (map tk_id (normalize_tasks_from h True now uid i seen ts)) \<and>
    set (map tk_id (normalize_tasks_from h True now uid i seen ts)) \<inter> set seen = {}"
  using assms
proof (induction ts arbitrary: i seen)
  case (Cons t ts)
  let ?c = "normalize_task h True now uid i seen t"
  have fresh: "fresh_ids uid (map (\<lambda>t. trim_space (tk_id t)) ts)"
    and given: "uid j \<noteq> trim_space (tk_id t)" "uid j \<noteq> []" "inj uid" for j
    using Cons.prems(1) by (auto simp: fresh_ids_def)
  have "\<forall>j \<ge> Suc i. uid j \<notin> set (tk_id ?c # seen)"
    using Cons.prems(2) given by (auto simp: normalize_task_id Let_def inj_eq)
  from Cons.IH [OF fresh this] have ih:
    "list_all task_normal (normalize_tasks_from h True now uid (Suc i) (tk_id ?c # seen) ts)"
    "distinct (map tk_id (normalize_tasks_from h True now uid (Suc i) (tk_id ?c # seen) ts))"
    "set (map tk_id (normalize_tasks_from h True now uid (Suc i) (tk_id ?c # seen) ts)) \<inter>
       set (tk_id ?c # seen) = {}" by blast+
  have "tk_id ?c \<notin> set seen" using Cons.prems(2) by (auto simp: normalize_task_id Let_def)
  with ih normalize_task_normal [OF Cons.prems(1)] show ?case by (auto simp: Let_def)
qed simp


lemma length_normalize_tasks_from: "length (normalize_tasks_from h p now uid i seen ts) = length ts"
  by (induction ts arbitrary: i seen) (auto simp: Let_def)

text \<open>An environment for the instances: every query succeeds, uuids are numbered.\<close>

definition ex_uuid :: "nat \<Rightarrow> nat \<Rightarrow> string" where
  "ex_uuid k i = CHR ''u'' # replicate i CHR ''1'' @ [CHR ''-'']"

definition ex_env :: env where
  "ex_env = \<lparr>en_now = 100, en_id = ''new'', en_uuid = ex_uuid, en_copy_id = ex_uuid 0,
     en_fail = (\<lambda>_. False), en_cwd = Some ''/w'', en_plan_file = (\<lambda>root i. Some (root @ ''/'' @ i)),
     en_xxh3 = (\<lambda>_. 7), en_fadd = (\<lambda>a b. a)\<rparr>"

lemma trim_space_plain:
  assumes "\<forall>w \<in> set ws_runes. hd w \<noteq> c" "\<forall>w \<in> set ws_runes. last w \<noteq> d"
  shows "trim_space (c # s @ [d]) = c # s @ [d]"
proof -
  have "\<not> has_prefix (c # s @ [d]) w" "\<not> has_suffix (c # s @ [d]) w" if "w \<in> set ws_runes" for w
  proof -
    from that assms ws_runes_nonempty have w: "hd w \<noteq> c" "last w \<noteq> d" "w \<noteq> []" by auto
    then show "\<not> has_prefix (c # s @ [d]) w" by (cases w) (auto simp: has_prefix_iff)
    from w show "\<not> has_suffix (c # s @ [d]) w"
      by (cases w rule: rev_cases) (auto simp: has_suffix_iff append_eq_append_conv2 Cons_eq_append_conv)
  qed
  then have "find (has_prefix (c # s @ [d])) ws_runes = None" "find (has_suffix (c # s @ [d])) ws_runes = None"
    by (auto simp: find_None_iff)
  then show ?thesis by (simp add: trim_space_def trim_left.simps [of "c # _"] trim_right.simps [of "c # _"])
qed

lemma ex_uuid_trim: "trim_space (ex_uuid k i) = ex_uuid k i"
  unfolding ex_uuid_def by (rule trim_space_plain) (simp_all add: ws_runes_def)

lemma ex_env_fresh:
  assumes "list_all (\<lambda>g. \<not> has_suffix g ''-'') given"
  shows "fresh_ids (en_uuid ex_env k) given"
proof -
  have "inj (ex_uuid k)"
  proof (rule injI)
    fix i j
    assume "ex_uuid k i = ex_uuid k j"
    then have "length (ex_uuid k i) = length (ex_uuid k j)" by (rule arg_cong)
    then show "i = j" by (simp add: ex_uuid_def)
  qed
  moreover have "has_suffix (ex_uuid k i) ''-''" for i
    by (auto simp: ex_uuid_def has_suffix_iff)
  ultimately show ?thesis
    using assms by (auto simp: fresh_ids_def ex_env_def ex_uuid_trim list_all_iff)
      (auto simp: ex_uuid_def)
qed

text \<open>
  C27. Whatever the tasks of a goal are, what is stored has one entry per task, pairwise distinct and
  non-empty ids, a known status, trimmed texts and a completion time only on completed tasks,
  provided the uuids drawn are new.
\<close>

theorem stored_tasks_normal:
  assumes "fresh_ids (en_uuid e 1) (map (\<lambda>t. trim_space (tk_id t)) ts)"
  shows "length (normalize_tasks_for_storage e ts) = length ts \<and>
    distinct (map tk_id (normalize_tasks_for_storage e ts)) \<and>
    list_all task_normal (normalize_tasks_for_storage e ts)"
  using normalize_tasks_from_normal [OF assms, of 0 "[]"]
  by (simp add: normalize_tasks_for_storage_def normalize_tasks_def length_normalize_tasks_from)


definition ex_tasks :: "task list" where
  "ex_tasks =
     [\<lparr>tk_id = ''a'', tk_content = ''x'', tk_status = ''done'', tk_blocker = [], tk_evidence = [],
       tk_drop_reason = [], tk_created = 0, tk_updated = 0, tk_completed = 3\<rparr>,
      \<lparr>tk_id = ''a'', tk_content = ''y'', tk_status = ''completed'', tk_blocker = [], tk_evidence = [],
       tk_drop_reason = [], tk_created = 0, tk_updated = 0, tk_completed = 0\<rparr>]"

lemma trim_one: "\<forall>w \<in> set ws_runes. hd w \<noteq> c \<and> last w \<noteq> c \<Longrightarrow> trim_space [c] = [c]"
proof -
  assume plain: "\<forall>w \<in> set ws_runes. hd w \<noteq> c \<and> last w \<noteq> c"
  have "\<not> has_prefix [c] w" "\<not> has_suffix [c] w" if "w \<in> set ws_runes" for w
    using that plain ws_runes_nonempty [OF that]
    by (auto simp: has_prefix_iff has_suffix_iff Cons_eq_append_conv)
  then have "find (has_prefix [c]) ws_runes = None" "find (has_suffix [c]) ws_runes = None"
    by (auto simp: find_None_iff)
  then show ?thesis by (simp add: trim_space_def trim_left.simps [of "[c]"] trim_right.simps [of "[c]"])
qed

lemma trim_a: "trim_space ''a'' = ''a''"
  by (rule trim_one) (simp add: ws_runes_def)

theorem stored_tasks_normal_witness:
  "distinct (map tk_id (normalize_tasks_for_storage ex_env ex_tasks)) \<and>
   list_all task_normal (normalize_tasks_for_storage ex_env ex_tasks)"
proof -
  have "list_all (\<lambda>g. \<not> has_suffix g ''-'') (map (\<lambda>t. trim_space (tk_id t)) ex_tasks)"
    by (simp add: ex_tasks_def trim_a has_suffix_def)
  from stored_tasks_normal [OF ex_env_fresh, OF this] show ?thesis by blast
qed

section \<open>Normalised todos\<close>








section \<open>Saving and reading back\<close>





lemma find_put_row:
  "find_row i tb = Some r \<Longrightarrow> sr_id r' = i \<Longrightarrow> find_row i (put_row r' tb) = Some r'"
proof -
  have "find (\<lambda>r. sr_id r = i) rs = Some r \<Longrightarrow> sr_id r' = i \<Longrightarrow>
      find (\<lambda>r. sr_id r = i) (map (\<lambda>x. if sr_id x = sr_id r' then r' else x) rs) = Some r'" for rs
    by (induction rs) (auto split: if_splits)
  then show "find_row i tb = Some r \<Longrightarrow> sr_id r' = i \<Longrightarrow> find_row i (put_row r' tb) = Some r'"
    by (simp add: find_row_def put_row_def)
qed

lemma find_row_id: "find_row i tb = Some r \<Longrightarrow> sr_id r = i"
  by (auto simp: find_row_def find_Some_iff)

lemma find_put_row_other: "sr_id r \<noteq> i \<Longrightarrow> find_row i (put_row r tb) = find_row i tb"
proof -
  assume "sr_id r \<noteq> i"
  then have "find (\<lambda>r. sr_id r = i) (map (\<lambda>x. if sr_id x = sr_id r then r else x) rs) =
      find (\<lambda>r. sr_id r = i) rs" for rs
    by (induction rs) auto
  then show ?thesis by (simp add: find_row_def put_row_def)
qed

text \<open>How a successful update leaves the row, and what it returns.\<close>

lemma query_update_Inr:
  "query_update fl now i g f tb = (tb', Inr r) \<Longrightarrow>
   (\<And>r. sr_id (f r) = sr_id r) \<Longrightarrow>
   \<exists>r0. find_row i tb = Some r0 \<and> g r0 \<and> r = f r0 \<and> row_ok r \<and>
     tb' = put_row (r\<lparr>sr_updated := now\<rparr>) tb \<and> find_row i tb' = Some (r\<lparr>sr_updated := now\<rparr>)"
  by (auto simp: query_update_def split: if_splits option.splits
      intro!: find_put_row dest: find_row_id)

lemma query_update_Inl:
  "query_update fl now i g f tb = (tb', Inl err) \<Longrightarrow> tb' = tb"
  by (auto simp: query_update_def split: if_splits option.splits)


section \<open>A service for the instances\<close>

definition ex_row :: session_row where
  "ex_row = created_row 5
     \<lparr>cp_id = ''s'', cp_parent = None, cp_title = ''t'', cp_cwd = Some ''/w'',
      cp_collaboration = ''default'', cp_permission = ''auto'', cp_plan_path = ''p'',
      cp_kind = ''normal'', cp_handoff_source = None, cp_handoff_goal = [], cp_handoff_draft = [],
      cp_handoff_files = JsonOf []\<rparr>"

definition ex_message :: "nat \<Rightarrow> string \<Rightarrow> string \<Rightarrow> message_row" where
  "ex_message n i role = \<lparr>mr_rowid = n, mr_id = i, mr_session = ''s'', mr_role = role, mr_body = i, mr_created = 9\<rparr>"

definition ex_store :: session_service where
  "ex_store =
     \<lparr>ss_tables = \<lparr>tb_sessions = [ex_row],
        tb_messages = [ex_message 1 ''q'' ''user'', ex_message 2 ''a'' ''assistant'',
                       ex_message 3 ''r'' ''user''], tb_files = []\<rparr>,
      ss_default_collaboration = ''default'', ss_default_permission = ''auto'',
      ss_published = [], ss_delete_calls = []\<rparr>"


lemmas store_eval = ex_store_def ex_row_def created_row_def ex_env_def query_session_def
  find_row_def put_row_def query_update_def query_create_def row_ok_def float_nonneg_def
  float_nan_def


section \<open>Inference revisions\<close>

lemma narrow_update_Inr:
  assumes "narrow_update e k i g f est s = (s', Inr y)" "\<And>r. sr_id (f r) = sr_id r"
  obtains r0 where "find_row i (ss_tables s) = Some r0" "g r0" "row_ok (f r0)"
    "ss_tables s' = put_row ((f r0)\<lparr>sr_updated := en_now e\<rparr>) (ss_tables s)"
    "find_row i (ss_tables s') = Some ((f r0)\<lparr>sr_updated := en_now e\<rparr>)"
    "y = (from_db_item e (f r0))\<lparr>se_estimated := est\<rparr>"
proof -
  from assms(1) obtain tb r where "query_update (en_fail e k) (en_now e) i g f (ss_tables s) = (tb, Inr r)"
    "ss_tables s' = tb" "y = (from_db_item e r)\<lparr>se_estimated := est\<rparr>"
    by (auto simp: narrow_update_def publish_session_def Let_def split: prod.splits sum.splits)
  with query_update_Inr [OF this(1) assms(2)] that show thesis by auto
qed

lemma narrow_update_Inl: "narrow_update e k i g f est s = (s', Inl err) \<Longrightarrow> s' = s"
  by (auto simp: narrow_update_def Let_def dest!: query_update_Inl split: prod.splits sum.splits)

text \<open>
  The revision of the inference settings works as a compare-and-swap: an update that
  expected revision n stores its settings under revision n + 1, and a second update that
  expected n as well is refused with the conflict error and changes nothing.
\<close>

theorem inference_compare_and_swap:
  assumes "update_inference e1 i n settings s = (s1, Inr x)" "n < 2 ^ 63"
    "\<not> en_fail e2 0" "\<not> en_fail e2 1"
  shows "se_inference x = settings \<and> se_inference_rev x = n + 1 \<and>
    update_inference e2 i n other s1 = (s1, Inl ErrInferenceConflict)"
proof -
  let ?g = "\<lambda>r. sr_inference_rev r = i64 (int n)"
  let ?f = "\<lambda>o1 r. r\<lparr>sr_inference := JsonOf o1, sr_inference_rev := sr_inference_rev r + 1\<rparr>"
  have n: "i64 (int n) = int n" using assms(2) by (intro i64_id) auto
  have "narrow_update e1 0 i ?g (?f settings) False s = (s1, Inr x)"
    using assms(1)
    by (auto simp: update_inference_def split: prod.splits sum.splits session_error.splits)
  then obtain r0 where r0: "?g r0" "find_row i (ss_tables s1) = Some ((?f settings r0)\<lparr>sr_updated := en_now e1\<rparr>)"
    "x = (from_db_item e1 (?f settings r0))\<lparr>se_estimated := False\<rparr>"
    by (rule narrow_update_Inr) auto
  have "narrow_update e2 0 i ?g (?f other) False s1 = (s1, Inl ErrNoRows)"
    using r0(1,2) assms(3) by (simp add: narrow_update_def query_update_def)
  then have "update_inference e2 i n other s1 = (s1, Inl ErrInferenceConflict)"
    using r0(2) assms(4) by (simp add: update_inference_def query_session_def)
  with r0(1,3) n show ?thesis by (simp add: from_db_item_def unmarshal_inference_def nat_add_distrib)
qed

theorem inference_compare_and_swap_witness:
  "\<exists>s1 x. update_inference ex_env ''s'' 0 empty_inference ex_store = (s1, Inr x) \<and>
     se_inference_rev x = 1 \<and>
     update_inference ex_env ''s'' 0 (empty_inference\<lparr>in_model := ''m''\<rparr>) s1 = (s1, Inl ErrInferenceConflict)"
proof -
  have "i64 0 = 0" by (simp add: i64_def)
  then obtain s1 x where u: "update_inference ex_env ''s'' 0 empty_inference ex_store = (s1, Inr x)"
    by (simp add: update_inference_def narrow_update_def store_eval Let_def)
  have "\<not> en_fail ex_env 0" "\<not> en_fail ex_env 1" by (simp_all add: ex_env_def)
  from inference_compare_and_swap [OF u _ this] u show ?thesis by auto
qed

section \<open>Agent tool session ids\<close>

definition dollar_free :: "string \<Rightarrow> bool" where
  "dollar_free s \<longleftrightarrow> \<not> (\<exists>a b. s = a @ ''$$'' @ b)"

lemma dollar_free_Cons: "dollar_free (c # d # s) \<longleftrightarrow> \<not> (c = CHR ''$'' \<and> d = CHR ''$'') \<and> dollar_free (d # s)"
  by (auto simp: dollar_free_def Cons_eq_append_conv)

lemma dollar_free_short [simp]: "dollar_free []" "dollar_free [c]"
  by (auto simp: dollar_free_def Cons_eq_append_conv)

lemma split_dollars_nonempty [simp]: "split_dollars current s \<noteq> []"
  by (induction current s rule: split_dollars.induct) auto

lemma split_dollars_cases:
  "\<exists>p rest. split_dollars current s = (current @ p) # rest \<and>
     (rest = [] \<longrightarrow> p = s \<and> dollar_free s) \<and>
     (rest \<noteq> [] \<longrightarrow> dollar_free (p @ ''$'') \<and> (\<exists>t. s = p @ ''$$'' @ t \<and> rest = split_dollars [] t))"
proof (induction current s rule: split_dollars.induct)
  case (3 current c d s)
  show ?case
  proof (cases "c = CHR ''$'' \<and> d = CHR ''$''")
    case True
    then show ?thesis by (auto intro!: exI [of _ "[]"])
  next
    case False
    from 3(2) [OF this] obtain p rest where p: "split_dollars (current @ [c]) (d # s) = (current @ [c] @ p) # rest"
      "rest = [] \<longrightarrow> p = d # s \<and> dollar_free (d # s)"
      "rest \<noteq> [] \<longrightarrow> dollar_free (p @ ''$'') \<and> (\<exists>t. d # s = p @ ''$$'' @ t \<and> rest = split_dollars [] t)"
      by auto
    have "dollar_free ((c # p) @ ''$'')" if "rest \<noteq> []"
      using p(3) that False by (cases p) (auto simp: dollar_free_Cons)
    with False p show ?thesis
      by (intro exI [of _ "c # p"] exI [of _ rest]) (auto simp: dollar_free_Cons)
  qed
qed auto

lemma split_dollars_free: "dollar_free s \<Longrightarrow> split_dollars current s = [current @ s]"
  by (induction current s rule: split_dollars.induct) (auto simp: dollar_free_Cons)

lemma split_dollars_sep:
  "dollar_free (m @ ''$'') \<Longrightarrow> split_dollars current (m @ ''$$'' @ t) = (current @ m) # split_dollars [] t"
proof (induction m arbitrary: current)
  case (Cons c m)
  then show ?case by (cases m) (auto simp: dollar_free_Cons)
qed simp

text \<open>
  An agent tool session id parses back to the message id and the tool call id it was
  made from exactly when the message id neither contains two dollar signs in a row nor ends
  with one, and the tool call id does not contain two in a row.
\<close>

theorem agent_tool_id_roundtrip:
  "parse_agent_tool_session_id (create_agent_tool_session_id m t) = Some (m, t) \<longleftrightarrow>
     dollar_free (m @ ''$'') \<and> dollar_free t"
proof
  assume "parse_agent_tool_session_id (create_agent_tool_session_id m t) = Some (m, t)"
  then have sp: "split_dollars [] (m @ ''$$'' @ t) = [m, t]"
    by (auto simp: parse_agent_tool_session_id_def create_agent_tool_session_id_def split: list.splits)
  with split_dollars_cases [of "[]" "m @ ''$$'' @ t"] have m: "dollar_free (m @ ''$'')" "[t] = split_dollars [] t"
    by auto
  with split_dollars_cases [of "[]" t] show "dollar_free (m @ ''$'') \<and> dollar_free t" by auto
next
  assume "dollar_free (m @ ''$'') \<and> dollar_free t"
  then show "parse_agent_tool_session_id (create_agent_tool_session_id m t) = Some (m, t)"
    using split_dollars_sep [of m "[]" t]
    by (simp add: parse_agent_tool_session_id_def create_agent_tool_session_id_def split_dollars_free)
qed

section \<open>Forks\<close>

definition msg_content :: "message_row \<Rightarrow> string \<times> string \<times> int" where
  "msg_content m = (mr_role m, mr_body m, mr_created m)"

lemma next_rowid_gt: "m \<in> set ms \<Longrightarrow> mr_rowid m < next_rowid ms"
  by (induction ms) (auto simp: next_rowid_def)

lemma copy_messages_shape:
  "copy_messages uid target k todo ms = Some ms' \<Longrightarrow>
   \<exists>copies. ms' = ms @ copies \<and> map msg_content copies = map msg_content todo \<and>
     (\<forall>c \<in> set copies. mr_session c = target \<and> (\<forall>m \<in> set ms. mr_rowid m < mr_rowid c)) \<and>
     sorted_wrt (\<lambda>a b. mr_rowid a < mr_rowid b) copies"
proof (induction todo arbitrary: k ms)
  case (Cons m todo)
  let ?c = "m\<lparr>mr_rowid := next_rowid ms, mr_id := uid k, mr_session := target\<rparr>"
  from Cons.prems have "copy_messages uid target (Suc k) todo (ms @ [?c]) = Some ms'"
    by (simp split: if_splits)
  from Cons.IH [OF this] obtain copies where c: "ms' = (ms @ [?c]) @ copies"
    "map msg_content copies = map msg_content todo"
    "\<forall>c \<in> set copies. mr_session c = target \<and> (\<forall>m \<in> set (ms @ [?c]). mr_rowid m < mr_rowid c)"
    "sorted_wrt (\<lambda>a b. mr_rowid a < mr_rowid b) copies" by blast
  have "msg_content ?c = msg_content m" by (simp add: msg_content_def)
  with c show ?case
    by (intro exI [of _ "?c # copies"]) (auto simp: next_rowid_gt)
qed simp

lemma sorted_messages: "sorted (map msg_key (session_messages i tb))"
  by (simp add: session_messages_def msg_order_def)

lemma filter_before_prefix:
  assumes "sorted (map msg_key xs)"
  shows "filter (\<lambda>m. msg_before m n) xs = takeWhile (\<lambda>m. msg_before m n) xs"
  using assms
proof (induction xs)
  case (Cons x xs)
  show ?case
  proof (cases "msg_before x n")
    case True
    with Cons show ?thesis by simp
  next
    case False
    with Cons.prems have "\<forall>y \<in> set xs. \<not> msg_before y n" by (fastforce simp: msg_before_def)
    with False show ?thesis by (simp add: filter_empty_conv)
  qed
qed simp

text \<open>What is selected: everything, or what stands before the first user message after the boundary.\<close>

lemma find_split:
  "find P xs = Some x \<Longrightarrow> \<exists>pre post. xs = pre @ x # post \<and> P x \<and> (\<forall>y \<in> set pre. \<not> P y)"
proof (induction xs)
  case (Cons y ys)
  show ?case
  proof (cases "P y")
    case True
    with Cons.prems have "y # ys = [] @ x # ys \<and> P x" by simp
    then show ?thesis by fastforce
  next
    case False
    with Cons obtain pre post where "ys = pre @ x # post" "P x" "\<forall>y \<in> set pre. \<not> P y" by auto
    with False show ?thesis by (intro exI [of _ "y # pre"] exI [of _ post]) auto
  qed
qed simp

lemma distinct_keys_messages:
  "distinct (map mr_rowid (tb_messages tb)) \<Longrightarrow> distinct (map msg_key (session_messages i tb))"
proof -
  assume d: "distinct (map mr_rowid (tb_messages tb))"
  have "distinct (filter (\<lambda>m. mr_session m = i) (tb_messages tb))"
    using d by (simp add: distinct_map)
  moreover have "inj_on msg_key (set (tb_messages tb))"
    using d by (auto simp: distinct_map inj_on_def msg_key_def)
  ultimately show ?thesis
    by (auto simp: session_messages_def msg_order_def distinct_map inj_on_def)
qed

lemma fork_selection_prefix:
  assumes "fork_selection source message tb = Inr sel" "distinct (map mr_rowid (tb_messages tb))"
  shows "\<exists>rest. session_messages source tb = sel @ rest \<and>
    (rest \<noteq> [] \<longrightarrow> message \<noteq> [] \<and> mr_role (hd rest) = ''user'' \<and>
       (\<exists>b \<in> set sel. mr_id b = message \<and>
          (\<forall>m \<in> set sel. msg_before b m \<longrightarrow> mr_role m \<noteq> ''user'')))"
proof (cases "session_messages source tb = sel")
  case True
  then show ?thesis by simp
next
  case False
  let ?ms = "session_messages source tb"
  from assms(1) False obtain b n where b:
    "find (\<lambda>m. mr_id m = message \<and> mr_session m = source) (tb_messages tb) = Some b"
    "next_boundary source b tb = Some n" "sel = filter (\<lambda>m. msg_before m n) ?ms" "message \<noteq> []"
    by (auto simp: fork_selection_def split: if_splits option.splits)
  from find_split [OF b(2) [unfolded next_boundary_def]] obtain pre post where
    n: "?ms = pre @ n # post" "mr_role n = ''user''" "msg_before b n"
    "\<forall>m \<in> set pre. \<not> (mr_role m = ''user'' \<and> msg_before b m)" by blast
  have "\<forall>m \<in> set pre. msg_before m n"
  proof
    fix m
    assume "m \<in> set pre"
    with sorted_messages [of source tb] distinct_keys_messages [OF assms(2), of source] n(1)
    have "msg_key m \<le> msg_key n" "msg_key m \<noteq> msg_key n" by (auto simp: sorted_append image_iff)
    then show "msg_before m n" by (simp add: msg_before_def)
  qed
  then have sel: "sel = pre"
    using filter_before_prefix [OF sorted_messages, of n source tb] n(1) b(3)
    by (simp add: takeWhile_append2 msg_before_def)
  have bms: "mr_id b = message" "b \<in> set ?ms"
    using find_split [OF b(1)] by (auto simp: session_messages_def msg_order_def)
  have "b \<in> set sel" unfolding b(3) using bms(2) n(3) by simp
  with bms(1) show ?thesis using n b(4) sel by auto
qed

lemma query_create_Inr:
  assumes "query_create fl now p tb = (tb', Inr r)"
  shows "r = created_row now p \<and> tb' = tb\<lparr>tb_sessions := tb_sessions tb @ [r]\<rparr> \<and>
    find_row (cp_id p) tb' = Some r"
proof -
  have app: "find P (xs @ ys) = (case find P xs of None \<Rightarrow> find P ys | Some z \<Rightarrow> Some z)" for P and xs ys :: "'a list"
    by (induction xs) auto
  have new: "r = created_row now p" "tb' = tb\<lparr>tb_sessions := tb_sessions tb @ [r]\<rparr>" "find_row (cp_id p) tb = None"
    using assms by (auto simp: query_create_def split: if_splits)
  have "sr_id r = cp_id p" by (simp add: new created_row_def)
  with new show ?thesis by (simp add: find_row_def) (simp add: app)
qed

lemma get_session_Inr:
  "get_session e i s = Inr x \<Longrightarrow> \<exists>r. find_row i (ss_tables s) = Some r \<and> x = from_db_item e r"
  by (auto simp: get_session_def query_session_def split: sum.splits if_splits option.splits)

lemma fork_session_Inr:
  assumes "fork_session e source message s = (s', Inr y)"
  obtains sel tb r ms where "fork_selection source message (ss_tables s) = Inr sel"
    "find_row (en_id e) tb = Some r" "tb_messages tb = tb_messages (ss_tables s)"
    "copy_messages (en_copy_id e) (en_id e) 0 sel (tb_messages (ss_tables s)) = Some ms"
    "ss_tables s' = (put_row (r\<lparr>sr_message_count := int (length sel), sr_updated := en_now e\<rparr>) tb)\<lparr>tb_messages := ms\<rparr>"
    "\<exists>row e'. find_row (en_id e) (ss_tables s') = Some row \<and> y = from_db_item e' row"
proof -
  let ?p = "\<lambda>x. \<lparr>cp_id = en_id e, cp_parent = None, cp_title = fork_title (se_title x),
    cp_cwd = null_string (se_cwd x), cp_collaboration = se_collaboration x,
    cp_permission = se_permission x, cp_plan_path = se_plan_path x, cp_kind = ''normal'',
    cp_handoff_source = None, cp_handoff_goal = [], cp_handoff_draft = [], cp_handoff_files = JsonOf []\<rparr>"
  obtain x where x: "get_session e source s = Inr x"
    using assms by (cases "get_session e source s") (simp_all add: fork_session_def)
  have ok: "\<not> en_fail e (Suc 0)" "(message \<noteq> [] \<and> en_fail e 2) = False"
    using assms x by (auto simp: fork_session_def)
  obtain sel where sel: "fork_selection source message (ss_tables s) = Inr sel"
    using assms x ok by (cases "fork_selection source message (ss_tables s)") (simp_all add: fork_session_def)
  obtain tb res where "query_create (en_fail e 3) (en_now e) (?p x) (ss_tables s) = (tb, res)"
    by (rule prod.exhaust)
  with assms x ok sel obtain r where
    q: "query_create (en_fail e 3) (en_now e) (?p x) (ss_tables s) = (tb, Inr r)"
    by (cases res) (simp_all add: fork_session_def)
  have ok4: "\<not> en_fail e 4" using assms x ok sel q by (auto simp: fork_session_def)
  obtain ms where ms: "copy_messages (en_copy_id e) (sr_id r) 0 sel (tb_messages tb) = Some ms"
    using assms x ok sel q ok4
    by (cases "copy_messages (en_copy_id e) (sr_id r) 0 sel (tb_messages tb)") (simp_all add: fork_session_def)
  have ok5: "\<not> en_fail e 5" using assms x ok sel q ok4 ms by (auto simp: fork_session_def)
  let ?tb = "(put_row (r\<lparr>sr_message_count := int (length sel), sr_updated := en_now e\<rparr>) tb)\<lparr>tb_messages := ms\<rparr>"
  have "get_session (e\<lparr>en_fail := \<lambda>k. en_fail e (6 + k)\<rparr>) (en_id e) (s\<lparr>ss_tables := ?tb\<rparr>) = Inr y \<and> ss_tables s' = ?tb"
    using assms x ok sel q ok4 ms ok5
    by (cases "get_session (e\<lparr>en_fail := \<lambda>k. en_fail e (6 + k)\<rparr>) (en_id e) (s\<lparr>ss_tables := ?tb\<rparr>)")
      (auto simp: fork_session_def publish_session_def Let_def)
  with sel ms have f: "fork_selection source message (ss_tables s) = Inr sel"
    "copy_messages (en_copy_id e) (sr_id r) 0 sel (tb_messages tb) = Some ms"
    "ss_tables s' = ?tb"
    "get_session (e\<lparr>en_fail := \<lambda>k. en_fail e (6 + k)\<rparr>) (en_id e) (s\<lparr>ss_tables := ss_tables s'\<rparr>) = Inr y"
    by auto
  from query_create_Inr [OF q] have r: "sr_id r = en_id e" "tb_messages tb = tb_messages (ss_tables s)"
    "find_row (en_id e) tb = Some r" by (auto simp: created_row_def)
  show thesis
    by (rule that [OF f(1) r(3,2) f(2) [unfolded r] f(3)]) (use get_session_Inr [OF f(4)] in auto)
qed

lemma session_messages_append:
  assumes "list_all (\<lambda>m. mr_session m \<noteq> i) (tb_messages tb)" "\<forall>c \<in> set copies. mr_session c = i"
    "sorted (map msg_key copies)" "tb_messages tb' = tb_messages tb @ copies"
  shows "session_messages i tb' = copies"
proof -
  have "filter (\<lambda>m. mr_session m = i) (tb_messages tb') = copies"
    using assms by (simp add: list_all_iff filter_empty_conv filter_id_conv)
  then show ?thesis using assms(3) by (simp add: session_messages_def msg_order_def sort_key_id_if_sorted)
qed

lemma sorted_copies:
  assumes "sorted (map msg_key sel)" "map msg_content copies = map msg_content sel"
    "sorted_wrt (\<lambda>a b. mr_rowid a < mr_rowid b) copies"
  shows "sorted (map msg_key copies)"
proof -
  have created: "mr_created (copies ! i) = mr_created (sel ! i)" if "i < length copies" for i
    using arg_cong [OF assms(2), of "\<lambda>xs. xs ! i"] that map_eq_imp_length_eq [OF assms(2)]
    by (simp add: msg_content_def)
  have len: "length copies = length sel" by (rule map_eq_imp_length_eq [OF assms(2)])
  have "msg_key (copies ! i) \<le> msg_key (copies ! j)" if "i \<le> j" "j < length copies" for i j
  proof (cases "i = j")
    case False
    with that have "i < j" "mr_rowid (copies ! i) < mr_rowid (copies ! j)"
      using assms(3) by (auto simp: sorted_wrt_iff_nth_less)
    moreover have "msg_key (sel ! i) \<le> msg_key (sel ! j)"
      using assms(1) that len by (simp add: sorted_iff_nth_mono)
    ultimately show ?thesis using created [of i] created [of j] that
      by (auto simp: msg_key_def less_eq_prod_def)
  qed simp
  then show ?thesis by (simp add: sorted_iff_nth_mono)
qed

text \<open>
  A successful fork makes a session whose messages, in their order, have the roles, texts
  and times of a prefix of the source's messages; the prefix is everything, or ends right
  before the first user message after the boundary message, which it contains. The
  source's messages stay as they were and the new session counts its messages.
\<close>

theorem fork_copies_prefix:
  assumes "fork_session e source message s = (s', Inr y)"
    "distinct (map mr_rowid (tb_messages (ss_tables s)))"
    "\<forall>m \<in> set (tb_messages (ss_tables s)). mr_session m \<noteq> en_id e"
    "source \<noteq> en_id e"
  shows "\<exists>sel rest. session_messages source (ss_tables s) = sel @ rest \<and>
    map msg_content (session_messages (se_id y) (ss_tables s')) = map msg_content sel \<and>
    se_message_count y = int (length sel) \<and>
    session_messages source (ss_tables s') = session_messages source (ss_tables s) \<and>
    (rest \<noteq> [] \<longrightarrow> mr_role (hd rest) = ''user'' \<and>
       (\<exists>b \<in> set sel. mr_id b = message \<and>
          (\<forall>m \<in> set sel. msg_before b m \<longrightarrow> mr_role m \<noteq> ''user'')))"
proof -
  let ?tb = "ss_tables s"
  obtain sel tb r ms where f: "fork_selection source message ?tb = Inr sel"
    "find_row (en_id e) tb = Some r" "tb_messages tb = tb_messages ?tb"
    "copy_messages (en_copy_id e) (en_id e) 0 sel (tb_messages ?tb) = Some ms"
    "ss_tables s' = (put_row (r\<lparr>sr_message_count := int (length sel), sr_updated := en_now e\<rparr>) tb)\<lparr>tb_messages := ms\<rparr>"
    "\<exists>row e'. find_row (en_id e) (ss_tables s') = Some row \<and> y = from_db_item e' row"
    by (rule fork_session_Inr [OF assms(1)])
  let ?r = "r\<lparr>sr_message_count := int (length sel), sr_updated := en_now e\<rparr>"
  have rid: "sr_id r = en_id e" by (rule find_row_id [OF f(2)])
  have "find_row (en_id e) (ss_tables s') = Some ?r"
    using find_put_row [OF f(2), of ?r] rid by (simp add: f(5) find_row_def)
  with f(6) rid have y: "se_id y = en_id e" "se_message_count y = int (length sel)"
    by (auto simp: from_db_item_def)
  obtain rest where rest: "session_messages source ?tb = sel @ rest"
    "rest \<noteq> [] \<longrightarrow> message \<noteq> [] \<and> mr_role (hd rest) = ''user'' \<and>
       (\<exists>b \<in> set sel. mr_id b = message \<and> (\<forall>m \<in> set sel. msg_before b m \<longrightarrow> mr_role m \<noteq> ''user''))"
    using fork_selection_prefix [OF f(1) assms(2)] by blast
  from copy_messages_shape [OF f(4)] obtain copies where c: "ms = tb_messages ?tb @ copies"
    "map msg_content copies = map msg_content sel" "\<forall>c \<in> set copies. mr_session c = en_id e"
    "sorted_wrt (\<lambda>a b. mr_rowid a < mr_rowid b) copies" by blast
  have "sorted (map msg_key sel)" using sorted_messages [of source ?tb] rest(1) by (simp add: sorted_append)
  from sorted_copies [OF this c(2,4)] have "session_messages (en_id e) (ss_tables s') = copies"
    using assms(3) c(1,3) by (intro session_messages_append [of _ ?tb]) (auto simp: list_all_iff f(5))
  moreover have "session_messages source (ss_tables s') = session_messages source ?tb"
    using c(1,3) assms(4) by (auto simp: session_messages_def f(5) filter_empty_conv)
  ultimately show ?thesis using rest y c(2) by auto
qed


lemma ex_session_messages:
  "session_messages ''s'' (ss_tables ex_store) =
     [ex_message 1 ''q'' ''user'', ex_message 2 ''a'' ''assistant'', ex_message 3 ''r'' ''user'']"
  by (simp add: session_messages_def ex_store_def msg_order_def ex_message_def msg_key_def)

lemma ex_fork_selection:
  "fork_selection ''s'' ''q'' (ss_tables ex_store) =
     Inr [ex_message 1 ''q'' ''user'', ex_message 2 ''a'' ''assistant'']"
proof -
  have "find (\<lambda>m. mr_id m = ''q'' \<and> mr_session m = ''s'') (tb_messages (ss_tables ex_store)) =
      Some (ex_message 1 ''q'' ''user'')"
    by (simp add: ex_store_def ex_message_def)
  moreover have "next_boundary ''s'' (ex_message 1 ''q'' ''user'') (ss_tables ex_store) =
      Some (ex_message 3 ''r'' ''user'')"
    by (simp add: next_boundary_def ex_session_messages) (simp add: ex_message_def msg_before_def msg_key_def)
  ultimately show ?thesis
    by (simp add: fork_selection_def ex_session_messages) (simp add: ex_message_def msg_before_def msg_key_def)
qed

lemma ex_fork: "\<exists>s' y. fork_session ex_env ''s'' ''q'' ex_store = (s', Inr y)"
proof -
  let ?x = "from_db_item ex_env ex_row"
  let ?p = "\<lparr>cp_id = en_id ex_env, cp_parent = None, cp_title = fork_title (se_title ?x),
    cp_cwd = null_string (se_cwd ?x), cp_collaboration = se_collaboration ?x,
    cp_permission = se_permission ?x, cp_plan_path = se_plan_path ?x, cp_kind = ''normal'',
    cp_handoff_source = None, cp_handoff_goal = [], cp_handoff_draft = [], cp_handoff_files = JsonOf []\<rparr>"
  have x: "get_session ex_env ''s'' ex_store = Inr ?x"
    by (simp add: get_session_def store_eval)
  have env: "en_fail ex_env = (\<lambda>_. False)" "en_now ex_env = 100" "en_id ex_env = ''new''"
    by (simp_all add: ex_env_def)
  obtain tb r where q: "query_create False (en_now ex_env) ?p (ss_tables ex_store) = (tb, Inr r)"
    "sr_id r = ''new''" "tb_messages tb = tb_messages (ss_tables ex_store)"
    using query_create_def [of False 100 ?p "ss_tables ex_store"] env
    by (simp add: find_row_def ex_store_def ex_row_def created_row_def row_ok_def float_nonneg_def float_nan_def)
  obtain ms where ms: "copy_messages (en_copy_id ex_env) ''new'' 0
      [ex_message 1 ''q'' ''user'', ex_message 2 ''a'' ''assistant''] (tb_messages tb) = Some ms"
    by (simp add: q(3)) (simp add: ex_store_def ex_message_def ex_env_def ex_uuid_def)
  have "find_row (cp_id ?p) tb = Some r" using query_create_Inr [OF q(1)] by blast
  then have "find_row ''new'' tb = Some r" by (simp only: env create_params.select_convs)
  from find_put_row [OF this] q(2) obtain y where
    "get_session (ex_env\<lparr>en_fail := \<lambda>k. False\<rparr>) ''new'' (ex_store\<lparr>ss_tables :=
       put_row (r\<lparr>sr_message_count := 2, sr_updated := 100\<rparr>) tb\<lparr>tb_messages := ms\<rparr>\<rparr>) = Inr y"
    by (simp add: get_session_def query_session_def find_row_def)
  then have "fork_session ex_env ''s'' ''q'' ex_store =
      (publish_session CreatedEvent y (ex_store\<lparr>ss_tables :=
       put_row (r\<lparr>sr_message_count := 2, sr_updated := 100\<rparr>) tb\<lparr>tb_messages := ms\<rparr>\<rparr>), Inr y)"
    using x q ms ex_fork_selection by (simp add: fork_session_def env Let_def del: copy_messages.simps)
  then show ?thesis by blast
qed

theorem fork_copies_prefix_witness:
  "\<exists>s' y. fork_session ex_env ''s'' ''q'' ex_store = (s', Inr y) \<and>
     (\<exists>sel rest. session_messages ''s'' (ss_tables ex_store) = sel @ rest \<and>
        map msg_content (session_messages (se_id y) (ss_tables s')) = map msg_content sel)"
proof -
  obtain s' y where f: "fork_session ex_env ''s'' ''q'' ex_store = (s', Inr y)" using ex_fork by blast
  have "distinct (map mr_rowid (tb_messages (ss_tables ex_store)))"
    "\<forall>m \<in> set (tb_messages (ss_tables ex_store)). mr_session m \<noteq> en_id ex_env"
    "''s'' \<noteq> en_id ex_env"
    by (simp_all add: ex_store_def ex_message_def ex_env_def)
  from fork_copies_prefix [OF f this] f show ?thesis by blast
qed

end
