(* ===== verification/Goal_Runtime.thy ===== *)
theory Goal_Runtime
  imports Session_Store
begin

text \<open>
  The goal runtime of internal/goal (runtime.go, evaluator.go) over the session service: token
  and time accounting of the autonomous goal of a session, its status changes, its tasks
  and the updates queued by subagents, the completion gate, and the prompts.

  Every operation takes \<open>ev\<close>, what its calls of the session service draw from outside
  (\<open>ev 0\<close> for the first Get, \<open>ev 1\<close> for the Save, unless it says otherwise), and \<open>now\<close>, the
  reading of the runtime's clock. The maps of the runtime hold a session's entry or not.
\<close>

section \<open>Data\<close>

record token_usage =
  us_input :: int
  us_output :: int
  us_cache_read :: int
  us_cache_write :: int

record fantasy_usage =
  fu_input :: int
  fu_output :: int
  fu_total :: int
  fu_reasoning :: int
  fu_cache_creation :: int
  fu_cache_read :: int

definition token_usage_from_fantasy :: "fantasy_usage \<Rightarrow> token_usage" where
  "token_usage_from_fantasy u =
     \<lparr>us_input = fu_input u, us_output = fu_output u, us_cache_read = fu_cache_read u,
      us_cache_write = fu_cache_creation u\<rparr>"

record subagent_update =
  su_content :: string
  su_status :: string
  su_evidence :: string
  su_reason :: string
  su_tool_call :: string
  su_timestamp :: int

record turn_snapshot =
  sn_turn :: string
  sn_baseline :: token_usage
  sn_goal :: string
  sn_tasks :: "task list"
  sn_no_progress :: int

record wall_clock =
  wc_goal :: string
  wc_last :: int

record runtime_config =
  rc_max_iterations :: int
  rc_block_cap :: int
  rc_task_gate :: string

record goal_runtime =
  gr_sessions :: session_service
  gr_snapshots :: "string \<rightharpoonup> turn_snapshot"
  gr_clocks :: "string \<rightharpoonup> wall_clock"
  gr_pending :: "string \<rightharpoonup> subagent_update list"
  gr_config :: "runtime_config option"

datatype gate_error =
    GateUnfinished nat string string | GateDropReason nat string | GateEvidence nat string
  | GateDropped nat nat | GateEvaluator string

datatype goal_error =
    GeNoParent | GeNoTaskContent | GeNoNewStatus | GeNoObjective | GeGet session_error
  | GeSave session_error | GeBlocked session_error | GeAlreadyActive | GeNoActiveGoal
  | GeNothingToPause | GeNothingToResume | GeNothingToComplete | GeNothingToDrop | GeNoGoal
  | GeGate gate_error | GeDuplicateTask string | GeNoTask string

definition new_runtime :: "session_service \<Rightarrow> goal_runtime" where
  "new_runtime sessions =
     \<lparr>gr_sessions = sessions, gr_snapshots = Map.empty, gr_clocks = Map.empty,
      gr_pending = Map.empty, gr_config = None\<rparr>"

definition set_config :: "runtime_config \<Rightarrow> goal_runtime \<Rightarrow> goal_runtime" where
  "set_config cfg r = r\<lparr>gr_config := Some cfg\<rparr>"

definition effective_max_iterations :: "goal_runtime \<Rightarrow> int" where
  "effective_max_iterations r =
     (case gr_config r of
        Some c \<Rightarrow> (if rc_max_iterations c > 0 then rc_max_iterations c else 50)
      | None \<Rightarrow> 50)"

definition effective_block_cap :: "goal_runtime \<Rightarrow> int" where
  "effective_block_cap r =
     (case gr_config r of
        Some c \<Rightarrow> (if rc_block_cap c > 0 then rc_block_cap c else 8)
      | None \<Rightarrow> 8)"

definition effective_task_gate :: "goal_runtime \<Rightarrow> string" where
  "effective_task_gate r =
     (case gr_config r of
        Some c \<Rightarrow> (if rc_task_gate c \<noteq> [] then rc_task_gate c else ''strict'')
      | None \<Rightarrow> ''strict'')"

fun count_completed_tasks :: "task list \<Rightarrow> nat" where
  "count_completed_tasks [] = 0"
| "count_completed_tasks (t # ts) =
     (if tk_status t = ''completed'' then 1 else 0) + count_completed_tasks ts"

text \<open>DeleteSession: the queued subagent updates stay.\<close>

definition runtime_delete_session :: "string \<Rightarrow> goal_runtime \<Rightarrow> goal_runtime" where
  "runtime_delete_session sid r =
     r\<lparr>gr_snapshots := (gr_snapshots r)(sid := None), gr_clocks := (gr_clocks r)(sid := None)\<rparr>"

section \<open>The wall clock\<close>

definition start_wall_clock :: "string \<Rightarrow> string \<Rightarrow> int \<Rightarrow> goal_runtime \<Rightarrow> goal_runtime" where
  "start_wall_clock sid gid now r =
     (if gid = [] then r
      else r\<lparr>gr_clocks := (gr_clocks r)(sid \<mapsto> \<lparr>wc_goal = gid, wc_last = now\<rparr>)\<rparr>)"

definition stop_wall_clock :: "string \<Rightarrow> goal_runtime \<Rightarrow> goal_runtime" where
  "stop_wall_clock sid r = r\<lparr>gr_clocks := (gr_clocks r)(sid := None)\<rparr>"

text \<open>The seconds settleWallClockToNow books; a session without a clock has the zero clock.\<close>

definition clock_elapsed :: "wall_clock option \<Rightarrow> goal \<Rightarrow> int \<Rightarrow> int" where
  "clock_elapsed c g now =
     (let wc = (case c of None \<Rightarrow> \<lparr>wc_goal = [], wc_last = 0\<rparr> | Some wc \<Rightarrow> wc)
      in if wc_goal wc = gl_id g \<and> wc_last wc > 0 then
           (if now > wc_last wc then i64 (now - wc_last wc) else 0)
         else if gl_updated g > 0 \<and> now > gl_updated g then i64 (now - gl_updated g)
         else 0)"

definition settle_wall_clock :: "string \<Rightarrow> goal \<Rightarrow> int \<Rightarrow> goal_runtime \<Rightarrow> goal_runtime \<times> goal" where
  "settle_wall_clock sid g now r =
     (if gl_id g = [] \<or> \<not> is_active g then (r, g)
      else
        let elapsed = clock_elapsed (gr_clocks r sid) g now;
            g = (if elapsed > 0 then g\<lparr>gl_time_seconds := i64 (gl_time_seconds g + elapsed)\<rparr> else g)
        in (r\<lparr>gr_clocks := (gr_clocks r)(sid := None)\<rparr>, g))"

section \<open>Session calls\<close>

definition runtime_get :: "env \<Rightarrow> string \<Rightarrow> goal_runtime \<Rightarrow> goal_error + session" where
  "runtime_get e sid r =
     (case get_session e sid (gr_sessions r) of Inl err \<Rightarrow> Inl (GeGet err) | Inr x \<Rightarrow> Inr x)"

text \<open>The end of the operations: the goal is put into the session, saved, and returned as stored.\<close>

definition save_goal ::
  "env \<Rightarrow> session \<Rightarrow> goal \<Rightarrow> goal_runtime \<Rightarrow> goal_runtime \<times> (goal_error + goal)" where
  "save_goal e x g r =
     (case save_session e (x\<lparr>se_goal := g\<rparr>) (gr_sessions r) of
        (st, Inl err) \<Rightarrow> (r\<lparr>gr_sessions := st\<rparr>, Inl (GeSave err))
      | (st, Inr y) \<Rightarrow> (r\<lparr>gr_sessions := st\<rparr>, Inr (se_goal y)))"

section \<open>Subagent updates\<close>

definition apply_subagent_task_update ::
  "string \<Rightarrow> subagent_update \<Rightarrow> goal_runtime \<Rightarrow> goal_runtime \<times> goal_error option" where
  "apply_subagent_task_update parent u r =
     (if parent = [] then (r, Some GeNoParent)
      else if su_content u = [] then (r, Some GeNoTaskContent)
      else if su_status u = [] then (r, Some GeNoNewStatus)
      else
        let queued = (case gr_pending r parent of None \<Rightarrow> [] | Some us \<Rightarrow> us)
        in (r\<lparr>gr_pending := (gr_pending r)(parent \<mapsto> queued @ [u])\<rparr>, None))"

text \<open>The first task whose content or id matches, ignoring case.\<close>

definition task_matches :: "string \<Rightarrow> task \<Rightarrow> bool" where
  "task_matches s t \<longleftrightarrow> equal_fold (tk_content t) s \<or> equal_fold (tk_id t) s"

fun find_task :: "string \<Rightarrow> nat \<Rightarrow> task list \<Rightarrow> nat option" where
  "find_task s i [] = None"
| "find_task s i (t # ts) = (if task_matches s t then Some i else find_task s (Suc i) ts)"

text \<open>One turn of the loop over the queued updates, on the goal, its tasks, and the changed flag.\<close>

definition apply_update ::
  "int \<Rightarrow> subagent_update \<Rightarrow> goal \<times> task list \<times> bool \<Rightarrow> goal \<times> task list \<times> bool" where
  "apply_update now u x =
     (case x of (g, ts, changed) \<Rightarrow>
        (case find_task (su_content u) 0 ts of
           None \<Rightarrow> (g, ts, changed)
         | Some i \<Rightarrow>
             let t = ts ! i in
             if tk_status t = ''completed'' \<and> su_status u = ''completed'' then
               (if tk_evidence t = [] \<and> su_evidence u \<noteq> []
                then (g, ts[i := t\<lparr>tk_evidence := su_evidence u, tk_updated := now\<rparr>], True)
                else (g, ts, changed))
             else
               let t' = t\<lparr>tk_status := su_status u, tk_updated := now\<rparr> in
               if su_status u = ''completed'' then
                 (g\<lparr>gl_no_progress := 0\<rparr>,
                  ts[i := t'\<lparr>tk_completed := now, tk_evidence := su_evidence u\<rparr>], True)
               else if su_status u = ''in_progress'' then (g\<lparr>gl_no_progress := 0\<rparr>, ts[i := t'], True)
               else if su_status u = ''dropped'' \<and> tk_status t \<noteq> ''dropped'' then
                 (g\<lparr>gl_no_progress := i64 (gl_no_progress g + 1)\<rparr>,
                  ts[i := t'\<lparr>tk_drop_reason := su_reason u\<rparr>], True)
               else (g, ts[i := t'], True)))"

definition apply_updates ::
  "int \<Rightarrow> subagent_update list \<Rightarrow> goal \<times> task list \<times> bool \<Rightarrow> goal \<times> task list \<times> bool" where
  "apply_updates now us x = fold (apply_update now) us x"

text \<open>\<open>ev 0\<close> is the Get, \<open>ev 1\<close> the explicit normalisation, \<open>ev 2\<close> the Save.\<close>

definition apply_pending_subagent_updates ::
  "(nat \<Rightarrow> env) \<Rightarrow> int \<Rightarrow> string \<Rightarrow> goal_runtime \<Rightarrow> goal_runtime \<times> goal_error option" where
  "apply_pending_subagent_updates ev now parent r =
     (let pending = (case gr_pending r parent of None \<Rightarrow> [] | Some us \<Rightarrow> us);
          r = r\<lparr>gr_pending := (gr_pending r)(parent := None)\<rparr>
      in if pending = [] then (r, None)
         else case runtime_get (ev 0) parent r of
           Inl err \<Rightarrow> (r, Some err)
         | Inr x \<Rightarrow>
             if \<not> is_active (se_goal x) then (r, None)
             else case apply_updates now pending (se_goal x, gl_tasks (se_goal x), False) of
               (g, ts, changed) \<Rightarrow>
                 if \<not> changed then (r, None)
                 else
                   let g = g\<lparr>gl_tasks := normalize_tasks_for_storage (ev 1) ts, gl_updated := now\<rparr>
                   in case save_goal (ev 2) x g r of
                        (r, Inl err) \<Rightarrow> (r, Some err)
                      | (r, Inr _) \<Rightarrow> (r, None))"

section \<open>Turns\<close>

text \<open>OnTurnStart; the Get after the queued updates draws from \<open>ev 3\<close>.\<close>

definition on_turn_start ::
  "(nat \<Rightarrow> env) \<Rightarrow> int \<Rightarrow> string \<Rightarrow> string \<Rightarrow> token_usage \<Rightarrow> goal_runtime \<Rightarrow>
   goal_runtime \<times> goal_error option" where
  "on_turn_start ev now sid turn_id baseline r =
     (case apply_pending_subagent_updates ev now sid r of
        (r, Some err) \<Rightarrow> (r, Some err)
      | (r, None) \<Rightarrow>
          (case runtime_get (ev 3) sid r of
             Inl err \<Rightarrow> (r, Some err)
           | Inr x \<Rightarrow>
               (r\<lparr>gr_snapshots := (gr_snapshots r)(sid \<mapsto>
                   \<lparr>sn_turn = turn_id, sn_baseline = baseline, sn_goal = gl_id (se_goal x),
                    sn_tasks = gl_tasks (se_goal x), sn_no_progress = gl_no_progress (se_goal x)\<rparr>)\<rparr>,
                None)))"

definition no_snapshot :: turn_snapshot where
  "no_snapshot = \<lparr>sn_turn = [], sn_baseline = \<lparr>us_input = 0, us_output = 0, us_cache_read = 0,
     us_cache_write = 0\<rparr>, sn_goal = [], sn_tasks = [], sn_no_progress = 0\<rparr>"

definition usage_delta :: "token_usage \<Rightarrow> token_usage \<Rightarrow> int" where
  "usage_delta current baseline =
     i64 (i64 (max 0 (i64 (us_input current - us_input baseline)) +
               max 0 (i64 (us_output current - us_output baseline))) +
          max 0 (i64 (us_cache_write current - us_cache_write baseline)))"

definition terminate_goal :: "int \<Rightarrow> string \<Rightarrow> string \<Rightarrow> goal \<Rightarrow> goal" where
  "terminate_goal wall status reason g = g\<lparr>gl_status := status, gl_last_reason := reason, gl_updated := wall\<rparr>"

text \<open>PostTurn between settling the clock and restarting it; \<open>wall\<close> is time.Now of TerminateGoal.\<close>

definition turn_counters :: "turn_snapshot \<Rightarrow> int \<Rightarrow> goal \<Rightarrow> goal" where
  "turn_counters sn now g =
     (let g = g\<lparr>gl_iterations := i64 (gl_iterations g + 1), gl_updated := now\<rparr>
      in if count_completed_tasks (gl_tasks g) > count_completed_tasks (sn_tasks sn)
         then g\<lparr>gl_no_progress := 0\<rparr>
         else if gl_no_progress g = sn_no_progress sn
         then g\<lparr>gl_no_progress := i64 (gl_no_progress g + 1)\<rparr>
         else g)"

definition turn_limits :: "int \<Rightarrow> goal \<Rightarrow> goal \<times> bool" where
  "turn_limits wall g =
     (let (g, exhausted) =
            (if is_budget_exhausted g \<and> gl_status g \<noteq> ''budget-limited''
             then (g\<lparr>gl_status := ''budget-limited''\<rparr>, True) else (g, False));
          g = (if gl_iterations g \<ge> gl_max_iterations g
               then terminate_goal wall ''dropped''
                      (''Reached maximum iterations ('' @ show_int (gl_max_iterations g) @ '')'') g
               else g);
          g = (if gl_no_progress g \<ge> gl_block_cap g
               then terminate_goal wall ''stalled''
                      (''No progress for '' @ show_int (gl_no_progress g) @ '' consecutive turns'') g
               else g)
      in (g, exhausted))"

definition post_turn ::
  "(nat \<Rightarrow> env) \<Rightarrow> int \<Rightarrow> string \<Rightarrow> token_usage \<Rightarrow> goal_runtime \<Rightarrow>
   goal_runtime \<times> (goal_error + goal \<times> bool)" where
  "post_turn ev now sid usage r =
     (let sn = (case gr_snapshots r sid of None \<Rightarrow> no_snapshot | Some sn \<Rightarrow> sn);
          r = r\<lparr>gr_snapshots := (gr_snapshots r)(sid := None)\<rparr>
      in case runtime_get (ev 0) sid r of
           Inl err \<Rightarrow> (r, Inl err)
         | Inr x \<Rightarrow>
             let g = se_goal x in
             if \<not> is_active g then (r, Inr (g, False))
             else if sn_turn sn \<noteq> [] \<and> sn_goal sn \<noteq> [] \<and> sn_goal sn \<noteq> gl_id g then (r, Inr (g, False))
             else
               let g = g\<lparr>gl_tokens_used := i64 (gl_tokens_used g + usage_delta usage (sn_baseline sn))\<rparr>;
                   (r, g) = settle_wall_clock sid g now r;
                   (g, exhausted) = turn_limits (en_now (ev 1)) (turn_counters sn now g);
                   r = (if is_active g then start_wall_clock sid (gl_id g) now r else r)
               in case save_goal (ev 1) x g r of
                    (r, Inl err) \<Rightarrow> (r, Inl err)
                  | (r, Inr _) \<Rightarrow> (r, Inr (g, exhausted)))"

definition post_turn_with_integers ::
  "(nat \<Rightarrow> env) \<Rightarrow> int \<Rightarrow> string \<Rightarrow> int \<Rightarrow> int \<Rightarrow> goal_runtime \<Rightarrow>
   goal_runtime \<times> (goal_error + goal \<times> bool)" where
  "post_turn_with_integers ev now sid prompt completion r =
     post_turn ev now sid
       \<lparr>us_input = prompt, us_output = completion, us_cache_read = 0, us_cache_write = 0\<rparr> r"

section \<open>The completion gate\<close>

text \<open>The loops over the tasks; the strict one also counts the dropped tasks.\<close>

fun lax_scan :: "nat \<Rightarrow> task list \<Rightarrow> gate_error option" where
  "lax_scan i [] = None"
| "lax_scan i (t # ts) =
     (if tk_status t \<noteq> ''completed'' \<and> tk_status t \<noteq> ''dropped''
      then Some (GateUnfinished i (tk_content t) (tk_status t))
      else lax_scan (Suc i) ts)"

fun strict_scan :: "nat \<Rightarrow> nat \<Rightarrow> task list \<Rightarrow> gate_error + nat" where
  "strict_scan i dropped [] = Inr dropped"
| "strict_scan i dropped (t # ts) =
     (if tk_status t \<noteq> ''completed'' \<and> tk_status t \<noteq> ''dropped''
      then Inl (GateUnfinished i (tk_content t) (tk_status t))
      else if tk_status t = ''dropped'' then
        (if trim_space (tk_drop_reason t) = [] then Inl (GateDropReason i (tk_content t))
         else strict_scan (Suc i) (Suc dropped) ts)
      else
        (if trim_space (tk_evidence t) = [] then Inl (GateEvidence i (tk_content t))
         else strict_scan (Suc i) dropped ts))"

definition evaluator_gate :: "goal \<Rightarrow> gate_error option" where
  "evaluator_gate g =
     (if gl_last_evaluator_met g = Some False then Some (GateEvaluator (gl_last_reason g)) else None)"

definition can_complete_goal_with_gate :: "goal \<Rightarrow> string \<Rightarrow> gate_error option" where
  "can_complete_goal_with_gate g gate =
     (if gate = [] \<or> gate = ''off'' then None
      else if gate = ''lax'' then
        (if gl_tasks g = [] then None
         else case lax_scan 0 (gl_tasks g) of Some err \<Rightarrow> Some err | None \<Rightarrow> evaluator_gate g)
      else if gl_tasks g = [] then None
      else
        (case strict_scan 0 0 (gl_tasks g) of
           Inl err \<Rightarrow> Some err
         | Inr dropped \<Rightarrow>
             if dropped > length (gl_tasks g) div 2
             then Some (GateDropped dropped (length (gl_tasks g)))
             else evaluator_gate g))"

definition can_complete_goal :: "goal \<Rightarrow> gate_error option" where
  "can_complete_goal g = can_complete_goal_with_gate g ''strict''"

section \<open>Goal operations\<close>

definition fresh_goal :: "string \<Rightarrow> string \<Rightarrow> int \<Rightarrow> int \<Rightarrow> goal_runtime \<Rightarrow> goal" where
  "fresh_goal gid objective budget now r =
     (let g = no_goal\<lparr>gl_id := gid, gl_text := objective, gl_status := ''active'',
                      gl_max_iterations := effective_max_iterations r,
                      gl_block_cap := effective_block_cap r, gl_created := now, gl_updated := now\<rparr>
      in if budget > 0 then g\<lparr>gl_token_budget := budget\<rparr> else g)"

definition create_goal ::
  "(nat \<Rightarrow> env) \<Rightarrow> int \<Rightarrow> string \<Rightarrow> string \<Rightarrow> int \<Rightarrow> goal_runtime \<Rightarrow> goal_runtime \<times> (goal_error + goal)" where
  "create_goal ev now sid objective budget r =
     (if objective = [] then (r, Inl GeNoObjective)
      else case runtime_get (ev 0) sid r of
        Inl err \<Rightarrow> (r, Inl err)
      | Inr x \<Rightarrow>
          (case validate_goal_work x of
             Some err \<Rightarrow> (r, Inl (GeBlocked err))
           | None \<Rightarrow>
               if is_active (se_goal x) \<or> gl_status (se_goal x) = ''paused'' then (r, Inl GeAlreadyActive)
               else
                 let g = fresh_goal (en_id (ev 1)) objective budget now r
                 in save_goal (ev 1) x g (start_wall_clock sid (gl_id g) now r)))"

definition replace_goal ::
  "(nat \<Rightarrow> env) \<Rightarrow> int \<Rightarrow> string \<Rightarrow> string \<Rightarrow> int \<Rightarrow> goal_runtime \<Rightarrow> goal_runtime \<times> (goal_error + goal)" where
  "replace_goal ev now sid objective budget r =
     (if objective = [] then (r, Inl GeNoObjective)
      else case runtime_get (ev 0) sid r of
        Inl err \<Rightarrow> (r, Inl err)
      | Inr x \<Rightarrow>
          (case validate_goal_work x of
             Some err \<Rightarrow> (r, Inl (GeBlocked err))
           | None \<Rightarrow>
               let old = se_goal x;
                   (r, old) = (if gl_status old \<noteq> [] \<and> is_active old then settle_wall_clock sid old now r
                               else (r, old));
                   (tokens, time) = (if gl_status old \<noteq> [] then (gl_tokens_used old, gl_time_seconds old)
                                     else (0, 0));
                   g = (fresh_goal (en_id (ev 1)) objective budget now r)
                         \<lparr>gl_tokens_used := tokens, gl_time_seconds := time\<rparr>
               in save_goal (ev 1) x g (start_wall_clock sid (gl_id g) now r)))"

definition pause_goal ::
  "(nat \<Rightarrow> env) \<Rightarrow> int \<Rightarrow> string \<Rightarrow> goal_runtime \<Rightarrow> goal_runtime \<times> (goal_error + goal)" where
  "pause_goal ev now sid r =
     (case runtime_get (ev 0) sid r of
        Inl err \<Rightarrow> (r, Inl err)
      | Inr x \<Rightarrow>
          if \<not> is_active (se_goal x) then (r, Inl GeNothingToPause)
          else
            let (r, g) = settle_wall_clock sid (se_goal x) now r
            in save_goal (ev 1) x (g\<lparr>gl_status := ''paused'', gl_updated := now\<rparr>) r)"

definition resume_goal ::
  "(nat \<Rightarrow> env) \<Rightarrow> int \<Rightarrow> string \<Rightarrow> goal_runtime \<Rightarrow> goal_runtime \<times> (goal_error + goal)" where
  "resume_goal ev now sid r =
     (case runtime_get (ev 0) sid r of
        Inl err \<Rightarrow> (r, Inl err)
      | Inr x \<Rightarrow>
          (case validate_goal_work x of
             Some err \<Rightarrow> (r, Inl (GeBlocked err))
           | None \<Rightarrow>
               let g = se_goal x in
               if gl_status g \<noteq> ''paused'' \<and> gl_status g \<noteq> ''budget-limited'' then (r, Inl GeNothingToResume)
               else
                 let g = g\<lparr>gl_status := ''active'', gl_updated := now\<rparr>
                 in save_goal (ev 1) x g (start_wall_clock sid (gl_id g) now r)))"

definition complete_goal ::
  "(nat \<Rightarrow> env) \<Rightarrow> int \<Rightarrow> string \<Rightarrow> goal_runtime \<Rightarrow> goal_runtime \<times> (goal_error + goal)" where
  "complete_goal ev now sid r =
     (case runtime_get (ev 0) sid r of
        Inl err \<Rightarrow> (r, Inl err)
      | Inr x \<Rightarrow>
          let g = se_goal x in
          if \<not> is_active g \<and> gl_status g \<noteq> ''budget-limited'' then (r, Inl GeNothingToComplete)
          else case can_complete_goal_with_gate g (effective_task_gate r) of
            Some err \<Rightarrow> (r, Inl (GeGate err))
          | None \<Rightarrow>
              let (r, g) = settle_wall_clock sid g now r
              in save_goal (ev 1) x (g\<lparr>gl_status := ''complete'', gl_updated := now\<rparr>) r)"

definition drop_goal ::
  "(nat \<Rightarrow> env) \<Rightarrow> int \<Rightarrow> string \<Rightarrow> goal_runtime \<Rightarrow> goal_runtime \<times> (goal_error + goal)" where
  "drop_goal ev now sid r =
     (case runtime_get (ev 0) sid r of
        Inl err \<Rightarrow> (r, Inl err)
      | Inr x \<Rightarrow>
          let g = se_goal x in
          if gl_status g = [] then (r, Inl GeNothingToDrop)
          else
            let (r, g) = (if is_active g then settle_wall_clock sid g now r else (r, g))
            in save_goal (ev 1) x (g\<lparr>gl_status := ''dropped'', gl_updated := now\<rparr>) (stop_wall_clock sid r))"

definition set_budget_goal ::
  "(nat \<Rightarrow> env) \<Rightarrow> int \<Rightarrow> string \<Rightarrow> int \<Rightarrow> goal_runtime \<Rightarrow> goal_runtime \<times> (goal_error + goal)" where
  "set_budget_goal ev now sid budget r =
     (case runtime_get (ev 0) sid r of
        Inl err \<Rightarrow> (r, Inl err)
      | Inr x \<Rightarrow>
          let g = se_goal x in
          if gl_status g = [] then (r, Inl GeNoGoal)
          else
            let was_active = is_active g;
                g = g\<lparr>gl_token_budget := budget\<rparr>;
                g = (if is_budget_exhausted g \<and> is_active g then g\<lparr>gl_status := ''budget-limited''\<rparr>
                     else if \<not> is_budget_exhausted g \<and> gl_status g = ''budget-limited''
                     then g\<lparr>gl_status := ''active''\<rparr>
                     else g);
                g = g\<lparr>gl_updated := now\<rparr>;
                (r, g) = (if was_active \<and> \<not> is_active g then settle_wall_clock sid g now r
                          else if \<not> was_active \<and> is_active g then (start_wall_clock sid (gl_id g) now r, g)
                          else (r, g))
            in save_goal (ev 1) x g r)"

text \<open>The notice is returned exactly when a goal was paused.\<close>

definition pause_active_goal_on_load ::
  "(nat \<Rightarrow> env) \<Rightarrow> int \<Rightarrow> string \<Rightarrow> bool \<Rightarrow> goal_runtime \<Rightarrow>
   goal_runtime \<times> (goal_error + goal \<times> string)" where
  "pause_active_goal_on_load ev now sid preserve r =
     (if preserve then (r, Inr (no_goal, []))
      else case runtime_get (ev 0) sid r of
        Inl err \<Rightarrow> (r, Inl err)
      | Inr x \<Rightarrow>
          if \<not> is_active (se_goal x) then (r, Inr (se_goal x, []))
          else
            let (r, g) = settle_wall_clock sid (se_goal x) now r
            in case save_goal (ev 1) x (g\<lparr>gl_status := ''paused'', gl_updated := now\<rparr>) r of
                 (r, Inl err) \<Rightarrow> (r, Inl err)
               | (r, Inr g) \<Rightarrow> (r, Inr (g, ''Active goal paused. Use /goal resume to continue.'')))"

section \<open>Task commands\<close>

definition add_goal_task ::
  "(nat \<Rightarrow> env) \<Rightarrow> int \<Rightarrow> string \<Rightarrow> string \<Rightarrow> goal_runtime \<Rightarrow> goal_runtime \<times> (goal_error + goal)" where
  "add_goal_task ev now sid content r =
     (let content = trim_space content in
      if content = [] then (r, Inl GeNoTaskContent)
      else case runtime_get (ev 0) sid r of
        Inl err \<Rightarrow> (r, Inl err)
      | Inr x \<Rightarrow>
          let g = se_goal x in
          if \<not> is_active g then (r, Inl GeNoActiveGoal)
          else if list_ex (\<lambda>t. equal_fold (tk_content t) content) (gl_tasks g)
          then (r, Inl (GeDuplicateTask content))
          else
            save_goal (ev 1) x
              (g\<lparr>gl_tasks := gl_tasks g @
                  [\<lparr>tk_id = content, tk_content = content, tk_status = ''pending'', tk_blocker = [],
                    tk_evidence = [], tk_drop_reason = [], tk_created = now, tk_updated = now,
                    tk_completed = 0\<rparr>],
                 gl_updated := now\<rparr>) r)"

definition complete_goal_task ::
  "(nat \<Rightarrow> env) \<Rightarrow> int \<Rightarrow> string \<Rightarrow> string \<Rightarrow> string \<Rightarrow> goal_runtime \<Rightarrow>
   goal_runtime \<times> (goal_error + goal)" where
  "complete_goal_task ev now sid content evidence r =
     (case runtime_get (ev 0) sid r of
        Inl err \<Rightarrow> (r, Inl err)
      | Inr x \<Rightarrow>
          let g = se_goal x in
          if \<not> is_active g then (r, Inl GeNoActiveGoal)
          else case (if content \<noteq> [] then find_task content 0 (gl_tasks g) else None) of
            None \<Rightarrow> (r, Inl (GeNoTask content))
          | Some i \<Rightarrow>
              let t = gl_tasks g ! i;
                  t' = t\<lparr>tk_status := ''completed'', tk_updated := now\<rparr>;
                  (t', g) = (if tk_status t \<noteq> ''completed''
                             then (t'\<lparr>tk_completed := now\<rparr>, g\<lparr>gl_no_progress := 0\<rparr>) else (t', g));
                  evidence = trim_space evidence;
                  t' = (if evidence \<noteq> [] then t'\<lparr>tk_evidence := evidence\<rparr> else t')
              in save_goal (ev 1) x (g\<lparr>gl_tasks := (gl_tasks g)[i := t'], gl_updated := now\<rparr>) r)"

section \<open>The evaluator\<close>

record verdict =
  vd_met :: bool
  vd_impossible :: bool
  vd_progress :: bool
  vd_waiting :: bool
  vd_reason :: string

text \<open>The verdict of NoopEvaluator.\<close>

definition noop_verdict :: verdict where
  "noop_verdict = \<lparr>vd_met = False, vd_impossible = False, vd_progress = False, vd_waiting = False, vd_reason = []\<rparr>"

definition apply_evaluator_verdict :: "int \<Rightarrow> verdict \<Rightarrow> goal \<Rightarrow> goal" where
  "apply_evaluator_verdict wall v g =
     (let g = g\<lparr>gl_last_evaluator_at := wall, gl_last_evaluator_met := Some (vd_met v)\<rparr>
      in if vd_impossible v
         then terminate_goal wall ''dropped'' (''Evaluator deemed goal impossible: '' @ vd_reason v) g
         else if vd_met v then g\<lparr>gl_no_progress := 0, gl_last_reason := []\<rparr>
         else if \<not> vd_progress v \<and> \<not> vd_waiting v then
           (let g = g\<lparr>gl_no_progress := i64 (gl_no_progress g + 1)\<rparr>
            in if gl_last_reason g = [] then g\<lparr>gl_last_reason := vd_reason v\<rparr> else g)
         else g)"

text \<open>\<open>unmarshal\<close> is encoding/json on a verdict; an error is None.\<close>

definition parse_evaluator_verdict :: "(string \<Rightarrow> verdict option) \<Rightarrow> string \<Rightarrow> verdict option" where
  "parse_evaluator_verdict unmarshal raw =
     (if trim_space raw = [] then None else unmarshal (trim_space raw))"

section \<open>Continuation\<close>

definition needs_continuation :: "goal \<Rightarrow> bool" where
  "needs_continuation g \<longleftrightarrow> gl_status g = ''active''"

definition is_steer_prompt :: "string \<Rightarrow> bool" where
  "is_steer_prompt prompt \<longleftrightarrow>
     has_prefix (trim_space prompt) ''Continue work on the active goal.'' \<or>
     has_prefix (trim_space prompt) ''Token budget exhausted for the active goal.''"

definition is_guided_goal_prompt :: "string \<Rightarrow> bool" where
  "is_guided_goal_prompt prompt \<longleftrightarrow> has_prefix (trim_space prompt) ''<guided_goal>''"

definition should_chain_continuation :: "string \<Rightarrow> int \<Rightarrow> bool \<Rightarrow> bool" where
  "should_chain_continuation prompt depth guided =
     (if is_steer_prompt prompt then True else depth = 0 \<and> guided)"

end
