(* ===== verification/Goal_Spec.thy ===== *)
theory Goal_Spec
  imports Goal_Runtime Session_Properties
begin

text \<open>
  The specification of the goal runtime: a labelled step relation on what matters of a
  session (its mode, the status, time and id of its goal, and its wall clock), and the proof
  that every operation of the runtime refines it and leaves all other sessions alone.
\<close>

section \<open>Operations and views\<close>

datatype goal_op =
    OpCreate string int | OpReplace string int | OpPause | OpResume | OpComplete | OpDrop
  | OpSetBudget int | OpLoad bool | OpPostTurn token_usage | OpAddTask string
  | OpDoneTask string string | OpPending | OpTurnStart string token_usage

definition succeeded :: "goal_runtime \<times> (goal_error + 'a) \<Rightarrow> goal_runtime \<times> bool" where
  "succeeded x = (case x of (r, Inl _) \<Rightarrow> (r, False) | (r, Inr _) \<Rightarrow> (r, True))"

definition run_op ::
  "(nat \<Rightarrow> env) \<Rightarrow> int \<Rightarrow> string \<Rightarrow> goal_op \<Rightarrow> goal_runtime \<Rightarrow> goal_runtime \<times> bool" where
  "run_op ev now sid op r =
     (case op of
        OpCreate objective budget \<Rightarrow> succeeded (create_goal ev now sid objective budget r)
      | OpReplace objective budget \<Rightarrow> succeeded (replace_goal ev now sid objective budget r)
      | OpPause \<Rightarrow> succeeded (pause_goal ev now sid r)
      | OpResume \<Rightarrow> succeeded (resume_goal ev now sid r)
      | OpComplete \<Rightarrow> succeeded (complete_goal ev now sid r)
      | OpDrop \<Rightarrow> succeeded (drop_goal ev now sid r)
      | OpSetBudget budget \<Rightarrow> succeeded (set_budget_goal ev now sid budget r)
      | OpLoad preserve \<Rightarrow> succeeded (pause_active_goal_on_load ev now sid preserve r)
      | OpPostTurn usage \<Rightarrow> succeeded (post_turn ev now sid usage r)
      | OpAddTask content \<Rightarrow> succeeded (add_goal_task ev now sid content r)
      | OpDoneTask content evidence \<Rightarrow> succeeded (complete_goal_task ev now sid content evidence r)
      | OpPending \<Rightarrow> (case apply_pending_subagent_updates ev now sid r of (r, err) \<Rightarrow> (r, err = None))
      | OpTurnStart turn_id baseline \<Rightarrow>
          (case on_turn_start ev now sid turn_id baseline r of (r, err) \<Rightarrow> (r, err = None)))"

text \<open>What the specification sees of a session: its mode, the goal's life cycle and its clock.\<close>

record goal_view =
  vw_mode :: string
  vw_id :: string
  vw_status :: string
  vw_seconds :: int
  vw_updated :: int
  vw_clock :: "wall_clock option"

definition view_of :: "session_row \<Rightarrow> wall_clock option \<Rightarrow> goal_view" where
  "view_of row c =
     \<lparr>vw_mode = normalize_collaboration_mode (sr_collaboration row), vw_id = gc_id (sr_goal row),
      vw_status = gc_status (sr_goal row), vw_seconds = gc_time_seconds (sr_goal row),
      vw_updated = gc_updated (sr_goal row), vw_clock = c\<rparr>"

abbreviation rows_of :: "goal_runtime \<Rightarrow> tables" where
  "rows_of r \<equiv> ss_tables (gr_sessions r)"

definition view :: "string \<Rightarrow> goal_runtime \<Rightarrow> goal_view option" where
  "view sid r = map_option (\<lambda>row. view_of row (gr_clocks r sid)) (find_row sid (rows_of r))"

definition view_elapsed :: "int \<Rightarrow> goal_view \<Rightarrow> int" where
  "view_elapsed now v =
     (let wc = (case vw_clock v of None \<Rightarrow> \<lparr>wc_goal = [], wc_last = 0\<rparr> | Some wc \<Rightarrow> wc)
      in if wc_goal wc = vw_id v \<and> wc_last wc > 0 then
           (if now > wc_last wc then i64 (now - wc_last wc) else 0)
         else if vw_updated v > 0 \<and> now > vw_updated v then i64 (now - vw_updated v)
         else 0)"

definition settled :: "int \<Rightarrow> goal_view \<Rightarrow> goal_view" where
  "settled now v =
     (if vw_id v = [] \<or> vw_status v \<noteq> ''active'' then v
      else v\<lparr>vw_seconds := (if view_elapsed now v > 0 then i64 (vw_seconds v + view_elapsed now v)
                            else vw_seconds v),
             vw_clock := None\<rparr>)"

definition started :: "int \<Rightarrow> goal_view \<Rightarrow> goal_view" where
  "started now v =
     (if vw_id v = [] then v else v\<lparr>vw_clock := Some \<lparr>wc_goal = vw_id v, wc_last = now\<rparr>\<rparr>)"

definition marked :: "int \<Rightarrow> string \<Rightarrow> goal_view \<Rightarrow> goal_view" where
  "marked now status v = v\<lparr>vw_status := status, vw_updated := now\<rparr>"

definition free_mode :: "goal_view \<Rightarrow> bool" where
  "free_mode v \<longleftrightarrow> vw_mode v \<noteq> ''plan'' \<and> vw_mode v \<noteq> ''plan_paused''"

section \<open>The specification\<close>

inductive goal_step :: "int \<Rightarrow> goal_op \<Rightarrow> goal_view \<Rightarrow> goal_view \<Rightarrow> bool" for now where
  step_create: "free_mode v \<Longrightarrow> vw_status v \<noteq> ''active'' \<Longrightarrow> vw_status v \<noteq> ''paused'' \<Longrightarrow>
    goal_step now (OpCreate ob b) v (started now (marked now ''active'' (v\<lparr>vw_id := gid, vw_seconds := 0\<rparr>)))"
| step_replace: "free_mode v \<Longrightarrow>
    goal_step now (OpReplace ob b) v
      (started now (marked now ''active'' ((settled now v)\<lparr>vw_id := gid,
         vw_seconds := (if vw_status v = [] then 0 else vw_seconds (settled now v))\<rparr>)))"
| step_pause: "vw_status v = ''active'' \<Longrightarrow> op = OpPause \<or> op = OpLoad False \<Longrightarrow>
    goal_step now op v (marked now ''paused'' (settled now v))"
| step_resume: "free_mode v \<Longrightarrow> vw_status v = ''paused'' \<or> vw_status v = ''budget-limited'' \<Longrightarrow>
    goal_step now OpResume v (started now (marked now ''active'' v))"
| step_complete: "vw_status v = ''active'' \<or> vw_status v = ''budget-limited'' \<Longrightarrow>
    goal_step now OpComplete v (marked now ''complete'' (settled now v))"
| step_drop: "vw_status v \<noteq> [] \<Longrightarrow>
    goal_step now OpDrop v (marked now ''dropped'' ((settled now v)\<lparr>vw_clock := None\<rparr>))"
| step_limit: "vw_status v = ''active'' \<Longrightarrow>
    goal_step now (OpSetBudget b) v (marked now ''budget-limited'' v)"
| step_unlimit: "vw_status v = ''budget-limited'' \<Longrightarrow>
    goal_step now (OpSetBudget b) v (started now (marked now ''active'' v))"
| step_budget: "vw_status v \<noteq> [] \<Longrightarrow>
    goal_step now (OpSetBudget b) v (marked now (vw_status v) v)"
| step_turn: "vw_status v = ''active'' \<Longrightarrow>
    goal_step now (OpPostTurn u) v (started now (marked now ''active'' (settled now v)))"
| step_last_turn: "vw_status v = ''active'' \<Longrightarrow> st \<in> {''budget-limited'', ''dropped'', ''stalled''} \<Longrightarrow>
    goal_step now (OpPostTurn u) v (marked t st (settled now v))"
| step_edit: "vw_status v = ''active'' \<Longrightarrow>
    (\<exists>c. op = OpAddTask c) \<or> (\<exists>c e. op = OpDoneTask c e) \<or> op = OpPending \<or> (\<exists>i b. op = OpTurnStart i b) \<Longrightarrow>
    goal_step now op v (marked now ''active'' v)"

text \<open>Operations that may leave everything as it is without an error.\<close>

fun may_idle :: "goal_op \<Rightarrow> bool" where
  "may_idle (OpLoad _) = True"
| "may_idle (OpPostTurn _) = True"
| "may_idle OpPending = True"
| "may_idle (OpTurnStart _ _) = True"
| "may_idle _ = False"

definition view_step :: "int \<Rightarrow> goal_op \<Rightarrow> goal_view option \<Rightarrow> goal_view option \<Rightarrow> bool" where
  "view_step now op a b \<longleftrightarrow>
     may_idle op \<and> a = b \<or> (\<exists>v v'. a = Some v \<and> b = Some v' \<and> goal_step now op v v')"

section \<open>Reading and saving\<close>

lemma runtime_get_Inr:
  assumes "runtime_get e sid r = Inr x"
  obtains row where "find_row sid (rows_of r) = Some row" "x = from_db_item e row"
    "se_id x = sid" "se_goal x = goal_from_columns e (sr_goal row)"
    "normalize_collaboration_mode (se_collaboration x) = normalize_collaboration_mode (sr_collaboration row)"
proof -
  from assms obtain row where row: "find_row sid (rows_of r) = Some row" "x = from_db_item e row"
    by (auto simp: runtime_get_def get_session_def query_session_def split: sum.splits if_splits option.splits)
  then have "se_id x = sid"
    by (auto simp: from_db_item_def find_row_def find_Some_iff)
  with row that show thesis by (simp add: from_db_item_def)
qed

text \<open>A save that succeeded or not: only the row of the session changes, and how.\<close>

lemma save_goal_cases:
  assumes "save_goal e x g r = (r', res)" "se_id x = sid"
  shows "r' = r\<lparr>gr_sessions := gr_sessions r'\<rparr> \<and>
    (\<forall>i. i \<noteq> sid \<longrightarrow> find_row i (rows_of r') = find_row i (rows_of r)) \<and>
    (case res of
       Inl _ \<Rightarrow> rows_of r' = rows_of r
     | Inr _ \<Rightarrow> (\<exists>row. find_row sid (rows_of r') = Some row \<and> sr_goal row = goal_to_columns e g \<and>
         sr_collaboration row = normalize_collaboration_mode (se_collaboration x)))"
proof (cases res)
  case (Inl err)
  with assms show ?thesis
    by (auto simp: save_goal_def save_session_def query_update_def publish_session_def Let_def
        split: prod.splits sum.splits if_splits option.splits)
next
  case (Inr g')
  from assms Inr obtain y st where y: "save_session e (x\<lparr>se_goal := g\<rparr>) (gr_sessions r) = (st, Inr y)"
    "r' = r\<lparr>gr_sessions := st\<rparr>"
    by (auto simp: save_goal_def split: prod.splits sum.splits)
  from y(1) assms(2) obtain row0 where row0: "find_row sid (rows_of r) = Some row0"
    "ss_tables st = put_row ((saved_row e (x\<lparr>se_goal := g\<rparr>) row0)\<lparr>sr_updated := en_now e\<rparr>) (rows_of r)"
    by (auto simp: save_session_def query_update_def publish_session_def Let_def
        split: prod.splits sum.splits if_splits option.splits)
  then have id: "sr_id row0 = sid" by (auto simp: find_row_def find_Some_iff)
  show ?thesis
    using Inr y(2) row0 id
    by (auto simp: saved_row_def find_put_row find_put_row_other)
qed

section \<open>Views of goals\<close>

definition view_goal :: "string \<Rightarrow> goal \<Rightarrow> wall_clock option \<Rightarrow> goal_view" where
  "view_goal m g c =
     \<lparr>vw_mode = m, vw_id = gl_id g, vw_status = gl_status g, vw_seconds = gl_time_seconds g,
      vw_updated = gl_updated g, vw_clock = c\<rparr>"

abbreviation mode_of :: "session \<Rightarrow> string" where
  "mode_of x \<equiv> normalize_collaboration_mode (se_collaboration x)"

lemma view_goal_simps [simp]:
  "vw_mode (view_goal m g c) = m" "vw_id (view_goal m g c) = gl_id g"
  "vw_status (view_goal m g c) = gl_status g" "vw_seconds (view_goal m g c) = gl_time_seconds g"
  "vw_updated (view_goal m g c) = gl_updated g" "vw_clock (view_goal m g c) = c"
  by (simp_all add: view_goal_def)

lemma view_elapsed_goal: "view_elapsed now (view_goal m g c) = clock_elapsed c g now"
  by (simp add: view_elapsed_def clock_elapsed_def Let_def)

lemma view_goal_updates:
  "(view_goal m g c)\<lparr>vw_id := i\<rparr> = view_goal m (g\<lparr>gl_id := i\<rparr>) c"
  "(view_goal m g c)\<lparr>vw_status := st\<rparr> = view_goal m (g\<lparr>gl_status := st\<rparr>) c"
  "(view_goal m g c)\<lparr>vw_seconds := n\<rparr> = view_goal m (g\<lparr>gl_time_seconds := n\<rparr>) c"
  "(view_goal m g c)\<lparr>vw_updated := n\<rparr> = view_goal m (g\<lparr>gl_updated := n\<rparr>) c"
  "(view_goal m g c)\<lparr>vw_clock := c'\<rparr> = view_goal m g c'"
  by (simp_all add: view_goal_def)

lemma view_goal_eqI:
  "gl_id g = gl_id g' \<Longrightarrow> gl_status g = gl_status g' \<Longrightarrow> gl_time_seconds g = gl_time_seconds g' \<Longrightarrow>
   gl_updated g = gl_updated g' \<Longrightarrow> view_goal m g c = view_goal m g' c"
  by (simp add: view_goal_def)

lemma marked_view: "marked now st (view_goal m g c) = view_goal m (g\<lparr>gl_status := st, gl_updated := now\<rparr>) c"
  by (simp add: marked_def view_goal_updates)

lemma started_view:
  "started now (view_goal m g c) =
     view_goal m g (if gl_id g = [] then c else Some \<lparr>wc_goal = gl_id g, wc_last = now\<rparr>)"
  by (simp add: started_def view_goal_updates)

lemma settled_view:
  "settled now (view_goal m g c) =
     (if gl_id g = [] \<or> gl_status g \<noteq> ''active'' then view_goal m g c
      else view_goal m (g\<lparr>gl_time_seconds := (if clock_elapsed c g now > 0
             then i64 (gl_time_seconds g + clock_elapsed c g now) else gl_time_seconds g)\<rparr>) None)"
  by (simp add: settled_def view_elapsed_goal view_goal_updates)

lemma view_get: "runtime_get e sid r = Inr x \<Longrightarrow> view sid r = Some (view_goal (mode_of x) (se_goal x) (gr_clocks r sid))"
  by (erule runtime_get_Inr) (simp add: view_def view_of_def view_goal_def goal_from_columns_def)

lemma settle_view:
  assumes "settle_wall_clock sid g now r = (r2, g2)"
  shows "view_goal m g2 (gr_clocks r2 sid) = settled now (view_goal m g (gr_clocks r sid))"
    "gr_sessions r2 = gr_sessions r" "gr_config r2 = gr_config r"
    "\<And>i. i \<noteq> sid \<Longrightarrow> gr_clocks r2 i = gr_clocks r i"
    "\<exists>n. g2 = g\<lparr>gl_time_seconds := n\<rparr>"
proof -
  have same: "\<exists>n. g = g\<lparr>gl_time_seconds := n\<rparr>" for g :: goal
    by (rule exI [of _ "gl_time_seconds g"]) simp
  show "view_goal m g2 (gr_clocks r2 sid) = settled now (view_goal m g (gr_clocks r sid))"
    "gr_sessions r2 = gr_sessions r" "gr_config r2 = gr_config r"
    "\<And>i. i \<noteq> sid \<Longrightarrow> gr_clocks r2 i = gr_clocks r i"
    using assms by (auto simp: settle_wall_clock_def settled_view is_active_def Let_def split: if_splits)
  show "\<exists>n. g2 = g\<lparr>gl_time_seconds := n\<rparr>"
    using assms same by (auto simp: settle_wall_clock_def Let_def split: if_splits)
qed

lemma start_view:
  "view_goal m g (gr_clocks (start_wall_clock sid (gl_id g) now r) sid) =
     started now (view_goal m g (gr_clocks r sid))"
  "gr_sessions (start_wall_clock sid gid now r) = gr_sessions r"
  "i \<noteq> sid \<Longrightarrow> gr_clocks (start_wall_clock sid gid now r) i = gr_clocks r i"
  by (auto simp: start_wall_clock_def started_view)

section \<open>Soundness of one operation\<close>

definition op_ok :: "int \<Rightarrow> string \<Rightarrow> goal_op \<Rightarrow> goal_runtime \<Rightarrow> goal_runtime \<Rightarrow> bool \<Rightarrow> bool" where
  "op_ok now sid op r r' ok \<longleftrightarrow>
     (\<forall>i. i \<noteq> sid \<longrightarrow> find_row i (rows_of r') = find_row i (rows_of r) \<and> gr_clocks r' i = gr_clocks r i) \<and>
     (if ok then view_step now op (view sid r) (view sid r')
      else rows_of r' = rows_of r \<or> view_step now op (view sid r) (view sid r'))"

lemma op_ok_fail [simp]: "op_ok now sid op r r False"
  by (simp add: op_ok_def)

lemma op_ok_idle [simp]: "may_idle op \<Longrightarrow> op_ok now sid op r r True"
  by (simp add: op_ok_def view_step_def)

lemma op_save:
  assumes "runtime_get e0 sid r = Inr x" "save_goal e (x\<lparr>se_goal := g0\<rparr>) g r1 = (r', res)"
    "rows_of r1 = rows_of r" "\<And>i. i \<noteq> sid \<Longrightarrow> gr_clocks r1 i = gr_clocks r i"
    "goal_step now op (view_goal (mode_of x) (se_goal x) (gr_clocks r sid))
       (view_goal (mode_of x) g (gr_clocks r1 sid))"
  shows "op_ok now sid op r r' (\<not> isl res)"
proof -
  have "se_id (x\<lparr>se_goal := g0\<rparr>) = sid" using assms(1) by (auto elim: runtime_get_Inr)
  note sv = save_goal_cases [OF assms(2) this]
  from sv have clocks: "gr_clocks r' = gr_clocks r1" by (metis goal_runtime.select_convs(3) goal_runtime.surjective goal_runtime.update_convs(1))
  show ?thesis
  proof (cases res)
    case (Inl err)
    with sv assms(3,4) clocks show ?thesis by (auto simp: op_ok_def)
  next
    case (Inr g')
    with sv have "view sid r' = Some (view_goal (mode_of x) g (gr_clocks r1 sid))"
      by (auto simp: view_def view_of_def view_goal_def goal_to_columns_def clocks)
    with sv Inr assms(3-5) clocks view_get [OF assms(1)] show ?thesis
      by (auto simp: op_ok_def view_step_def)
  qed
qed

lemma succeeded_eq: "succeeded (r', res) = (r', \<not> isl res)"
  by (cases res) (simp_all add: succeeded_def)

text \<open>Settling where the code guards it by the status: only an active goal is settled anyway.\<close>

lemma settle_if_view:
  assumes "(if p \<and> is_active g then settle_wall_clock sid g now r else (r, g)) = (r2, g2)" "is_active g \<longrightarrow> p"
  shows "view_goal m g2 (gr_clocks r2 sid) = settled now (view_goal m g (gr_clocks r sid))"
    "gr_sessions r2 = gr_sessions r" "\<And>i. i \<noteq> sid \<Longrightarrow> gr_clocks r2 i = gr_clocks r i"
    "gl_status g2 = gl_status g"
proof -
  have off: "settled now (view_goal m g c) = view_goal m g c" if "\<not> is_active g" for c
    using that by (simp add: settled_def is_active_def)
  consider (on) "settle_wall_clock sid g now r = (r2, g2)" | (off) "\<not> is_active g" "r2 = r" "g2 = g"
    using assms by (cases "is_active g") auto
  note cases = this
  show "view_goal m g2 (gr_clocks r2 sid) = settled now (view_goal m g (gr_clocks r sid))"
    using cases by cases (simp_all add: settle_view(1) off)
  show "gr_sessions r2 = gr_sessions r" using cases by cases (simp_all add: settle_view(2))
  show "gr_clocks r2 i = gr_clocks r i" if "i \<noteq> sid" for i
    using cases by cases (simp_all add: settle_view(4) that)
  show "gl_status g2 = gl_status g" using cases settle_view(5) by cases fastforce+
qed

lemma pause_ok:
  assumes "pause_goal ev now sid r = (r', res)"
  shows "op_ok now sid OpPause r r' (\<not> isl res)"
proof (cases "runtime_get (ev 0) sid r")
  case (Inl err)
  with assms show ?thesis by (auto simp: pause_goal_def)
next
  case (Inr x)
  show ?thesis
  proof (cases "is_active (se_goal x)")
    case True
    obtain r2 g2 where st: "settle_wall_clock sid (se_goal x) now r = (r2, g2)" by fastforce
    have "goal_step now OpPause (view_goal (mode_of x) (se_goal x) (gr_clocks r sid))
       (view_goal (mode_of x) (g2\<lparr>gl_status := ''paused'', gl_updated := now\<rparr>) (gr_clocks r2 sid))"
      using True unfolding marked_view [symmetric] settle_view(1) [OF st]
      by (intro step_pause) (simp_all add: is_active_def)
    then show ?thesis
      using assms Inr True st settle_view(2,4) [OF st]
      by (intro op_save [of "ev 0" sid r x "ev 1" "se_goal x" _ r2]) (auto simp: pause_goal_def)
  next
    case False
    with assms Inr show ?thesis by (auto simp: pause_goal_def)
  qed
qed

lemma load_ok:
  assumes "pause_active_goal_on_load ev now sid preserve r = (r', res)"
  shows "op_ok now sid (OpLoad preserve) r r' (\<not> isl res)"
proof (cases "preserve \<or> isl (runtime_get (ev 0) sid r)")
  case True
  with assms show ?thesis by (auto simp: pause_active_goal_on_load_def split: if_splits sum.splits)
next
  case no_err: False
  then obtain x where x: "runtime_get (ev 0) sid r = Inr x" "\<not> preserve" by (cases "runtime_get (ev 0) sid r") auto
  show ?thesis
  proof (cases "is_active (se_goal x)")
    case True
    obtain r2 g2 where st: "settle_wall_clock sid (se_goal x) now r = (r2, g2)" by fastforce
    obtain r3 res3 where sv: "save_goal (ev 1) x (g2\<lparr>gl_status := ''paused'', gl_updated := now\<rparr>) r2 = (r3, res3)"
      by fastforce
    have "goal_step now (OpLoad preserve) (view_goal (mode_of x) (se_goal x) (gr_clocks r sid))
       (view_goal (mode_of x) (g2\<lparr>gl_status := ''paused'', gl_updated := now\<rparr>) (gr_clocks r2 sid))"
      using True x(2) unfolding marked_view [symmetric] settle_view(1) [OF st]
      by (intro step_pause) (simp_all add: is_active_def)
    with x(1) sv settle_view(2,4) [OF st] have "op_ok now sid (OpLoad preserve) r r3 (\<not> isl res3)"
      by (intro op_save [of "ev 0" sid r x "ev 1" "se_goal x" _ r2]) auto
    moreover have "r' = r3" "isl res = isl res3"
      using assms x True st sv by (auto simp: pause_active_goal_on_load_def split: sum.splits)
    ultimately show ?thesis by simp
  next
    case False
    with assms x show ?thesis by (auto simp: pause_active_goal_on_load_def)
  qed
qed

lemma free_mode_view: "free_mode (view_goal (mode_of x) g c) \<longleftrightarrow> validate_goal_work x = None"
  by (simp add: validate_goal_work_def is_plan_flow_def free_mode_def)

lemma fresh_goal_fields:
  "gl_id (fresh_goal gid ob b now r) = gid" "gl_status (fresh_goal gid ob b now r) = ''active''"
  "gl_time_seconds (fresh_goal gid ob b now r) = 0" "gl_updated (fresh_goal gid ob b now r) = now"
  by (simp_all add: fresh_goal_def no_goal_def Let_def)

lemma create_ok:
  assumes "create_goal ev now sid ob b r = (r', res)"
  shows "op_ok now sid (OpCreate ob b) r r' (\<not> isl res)"
proof (cases "\<exists>x. ob \<noteq> [] \<and> runtime_get (ev 0) sid r = Inr x \<and> validate_goal_work x = None \<and>
    \<not> is_active (se_goal x) \<and> gl_status (se_goal x) \<noteq> ''paused''")
  case True
  then obtain x where x: "ob \<noteq> []" "runtime_get (ev 0) sid r = Inr x" "validate_goal_work x = None"
    "\<not> is_active (se_goal x)" "gl_status (se_goal x) \<noteq> ''paused''" by blast
  let ?g = "fresh_goal (en_id (ev 1)) ob b now r"
  let ?v = "view_goal (mode_of x) (se_goal x) (gr_clocks r sid)"
  have new: "view_goal (mode_of x) ?g c =
      marked now ''active'' ((view_goal (mode_of x) (se_goal x) c)\<lparr>vw_id := gl_id ?g, vw_seconds := 0\<rparr>)" for c
    by (simp add: view_goal_updates marked_view) (rule view_goal_eqI; simp add: fresh_goal_fields)
  have "goal_step now (OpCreate ob b) ?v
      (view_goal (mode_of x) ?g (gr_clocks (start_wall_clock sid (gl_id ?g) now r) sid))"
    using x unfolding start_view new by (intro step_create) (simp_all add: free_mode_view is_active_def)
  with assms x show ?thesis
    by (intro op_save [of "ev 0" sid r x "ev 1" "se_goal x" ?g "start_wall_clock sid (gl_id ?g) now r"])
      (auto simp: create_goal_def start_view Let_def)
next
  case False
  with assms show ?thesis by (auto simp: create_goal_def split: if_splits sum.splits option.splits)
qed

lemma replace_ok:
  assumes "replace_goal ev now sid ob b r = (r', res)"
  shows "op_ok now sid (OpReplace ob b) r r' (\<not> isl res)"
proof (cases "\<exists>x. ob \<noteq> [] \<and> runtime_get (ev 0) sid r = Inr x \<and> validate_goal_work x = None")
  case True
  then obtain x where x: "ob \<noteq> []" "runtime_get (ev 0) sid r = Inr x" "validate_goal_work x = None" by blast
  let ?old = "se_goal x"
  obtain r2 old2 where st: "(if gl_status ?old \<noteq> [] \<and> is_active ?old then settle_wall_clock sid ?old now r
      else (r, ?old)) = (r2, old2)" by fastforce
  let ?v = "view_goal (mode_of x) ?old (gr_clocks r sid)"
  have old2: "view_goal (mode_of x) old2 (gr_clocks r2 sid) = settled now ?v"
    "gr_sessions r2 = gr_sessions r" "\<And>i. i \<noteq> sid \<Longrightarrow> gr_clocks r2 i = gr_clocks r i"
    "gl_status old2 = gl_status ?old"
    by (rule settle_if_view [OF st]; simp add: is_active_def)+
  let ?tt = "if gl_status old2 \<noteq> [] then (gl_tokens_used old2, gl_time_seconds old2) else (0, 0)"
  let ?g = "(fresh_goal (en_id (ev 1)) ob b now r2)\<lparr>gl_tokens_used := fst ?tt, gl_time_seconds := snd ?tt\<rparr>"
  have new: "view_goal (mode_of x) ?g (gr_clocks r2 sid) =
      marked now ''active'' ((settled now ?v)\<lparr>vw_id := gl_id ?g,
        vw_seconds := (if vw_status ?v = [] then 0 else vw_seconds (settled now ?v))\<rparr>)"
    unfolding old2(1) [symmetric] view_goal_updates marked_view
    by (rule view_goal_eqI) (simp_all add: fresh_goal_fields old2(4))
  have "goal_step now (OpReplace ob b) ?v
      (view_goal (mode_of x) ?g (gr_clocks (start_wall_clock sid (gl_id ?g) now r2) sid))"
    using x(3) unfolding start_view new by (intro step_replace) (simp add: free_mode_view)
  moreover have "save_goal (ev 1) x ?g (start_wall_clock sid (gl_id ?g) now r2) = (r', res)"
    using assms x st by (auto simp: replace_goal_def Let_def split: if_splits)
  ultimately show ?thesis
    using x(2) old2(2,3)
    by (intro op_save [of "ev 0" sid r x "ev 1" "se_goal x" ?g "start_wall_clock sid (gl_id ?g) now r2"])
      (auto simp: start_view)
next
  case False
  with assms show ?thesis by (auto simp: replace_goal_def split: if_splits sum.splits option.splits)
qed

lemma resume_ok:
  assumes "resume_goal ev now sid r = (r', res)"
  shows "op_ok now sid OpResume r r' (\<not> isl res)"
proof (cases "\<exists>x. runtime_get (ev 0) sid r = Inr x \<and> validate_goal_work x = None \<and>
    (gl_status (se_goal x) = ''paused'' \<or> gl_status (se_goal x) = ''budget-limited'')")
  case True
  then obtain x where x: "runtime_get (ev 0) sid r = Inr x" "validate_goal_work x = None"
    "gl_status (se_goal x) = ''paused'' \<or> gl_status (se_goal x) = ''budget-limited''" by blast
  let ?g = "(se_goal x)\<lparr>gl_status := ''active'', gl_updated := now\<rparr>"
  have "goal_step now OpResume (view_goal (mode_of x) (se_goal x) (gr_clocks r sid))
      (view_goal (mode_of x) ?g (gr_clocks (start_wall_clock sid (gl_id ?g) now r) sid))"
    using x unfolding start_view marked_view [symmetric] by (intro step_resume) (simp_all add: free_mode_view)
  with assms x show ?thesis
    by (intro op_save [of "ev 0" sid r x "ev 1" "se_goal x" ?g "start_wall_clock sid (gl_id ?g) now r"])
      (auto simp: resume_goal_def start_view Let_def)
next
  case False
  with assms show ?thesis by (auto simp: resume_goal_def Let_def split: if_splits sum.splits option.splits)
qed

lemma complete_ok:
  assumes "complete_goal ev now sid r = (r', res)"
  shows "op_ok now sid OpComplete r r' (\<not> isl res)"
proof (cases "\<exists>x. runtime_get (ev 0) sid r = Inr x \<and> (is_active (se_goal x) \<or> gl_status (se_goal x) = ''budget-limited'') \<and>
    can_complete_goal_with_gate (se_goal x) (effective_task_gate r) = None")
  case True
  then obtain x where x: "runtime_get (ev 0) sid r = Inr x"
    "is_active (se_goal x) \<or> gl_status (se_goal x) = ''budget-limited''"
    "can_complete_goal_with_gate (se_goal x) (effective_task_gate r) = None" by blast
  obtain r2 g2 where st: "settle_wall_clock sid (se_goal x) now r = (r2, g2)" by fastforce
  have "goal_step now OpComplete (view_goal (mode_of x) (se_goal x) (gr_clocks r sid))
     (view_goal (mode_of x) (g2\<lparr>gl_status := ''complete'', gl_updated := now\<rparr>) (gr_clocks r2 sid))"
    using x(2) unfolding marked_view [symmetric] settle_view(1) [OF st]
    by (intro step_complete) (simp add: is_active_def)
  with assms x st settle_view(2,4) [OF st] show ?thesis
    by (intro op_save [of "ev 0" sid r x "ev 1" "se_goal x" _ r2]) (auto simp: complete_goal_def Let_def)
next
  case False
  with assms show ?thesis by (auto simp: complete_goal_def Let_def split: if_splits sum.splits option.splits)
qed

lemma drop_ok:
  assumes "drop_goal ev now sid r = (r', res)"
  shows "op_ok now sid OpDrop r r' (\<not> isl res)"
proof (cases "\<exists>x. runtime_get (ev 0) sid r = Inr x \<and> gl_status (se_goal x) \<noteq> []")
  case True
  then obtain x where x: "runtime_get (ev 0) sid r = Inr x" "gl_status (se_goal x) \<noteq> []" by blast
  let ?v = "view_goal (mode_of x) (se_goal x) (gr_clocks r sid)"
  obtain r2 g2 where st: "(if True \<and> is_active (se_goal x) then settle_wall_clock sid (se_goal x) now r
      else (r, se_goal x)) = (r2, g2)" by fastforce
  have v2: "view_goal (mode_of x) g2 (gr_clocks r2 sid) = settled now ?v"
    "gr_sessions r2 = gr_sessions r" "\<And>i. i \<noteq> sid \<Longrightarrow> gr_clocks r2 i = gr_clocks r i"
    by (rule settle_if_view [OF st]; simp)+
  let ?g = "g2\<lparr>gl_status := ''dropped'', gl_updated := now\<rparr>"
  have "view_goal (mode_of x) ?g (gr_clocks (stop_wall_clock sid r2) sid) =
      marked now ''dropped'' ((settled now ?v)\<lparr>vw_clock := None\<rparr>)"
    unfolding v2(1) [symmetric] view_goal_updates marked_view by (simp add: stop_wall_clock_def)
  then have "goal_step now OpDrop ?v (view_goal (mode_of x) ?g (gr_clocks (stop_wall_clock sid r2) sid))"
    using x(2) step_drop [of ?v now] by simp
  moreover have "save_goal (ev 1) x ?g (stop_wall_clock sid r2) = (r', res)"
    using assms unfolding drop_goal_def x(1) by (simp only: sum.case Let_def x(2) if_False st [simplified] prod.case)
  moreover have "rows_of (stop_wall_clock sid r2) = rows_of r"
    "\<And>i. i \<noteq> sid \<Longrightarrow> gr_clocks (stop_wall_clock sid r2) i = gr_clocks r i"
    using v2(2,3) by (simp_all add: stop_wall_clock_def)
  ultimately show ?thesis
    using x(1) by (intro op_save [of "ev 0" sid r x "ev 1" "se_goal x" ?g "stop_wall_clock sid r2"]) simp_all
next
  case False
  with assms show ?thesis by (auto simp: drop_goal_def Let_def split: if_splits sum.splits)
qed

lemma save_edit_ok:
  assumes "runtime_get e0 sid r = Inr x" "is_active (se_goal x)" "save_goal e x g r = (r', res)"
    "gl_id g = gl_id (se_goal x)" "gl_status g = ''active''" "gl_time_seconds g = gl_time_seconds (se_goal x)"
    "gl_updated g = now"
    "(\<exists>c. op = OpAddTask c) \<or> (\<exists>c e. op = OpDoneTask c e) \<or> op = OpPending \<or> (\<exists>i b. op = OpTurnStart i b)"
  shows "op_ok now sid op r r' (\<not> isl res)"
proof -
  let ?v = "view_goal (mode_of x) (se_goal x) (gr_clocks r sid)"
  have "view_goal (mode_of x) g (gr_clocks r sid) = marked now ''active'' ?v"
    unfolding marked_view using assms by (intro view_goal_eqI) auto
  with step_edit [of ?v op now] assms have "goal_step now op ?v (view_goal (mode_of x) g (gr_clocks r sid))"
    by (simp add: is_active_def)
  with assms(1,3) show ?thesis by (intro op_save [of e0 sid r x e "se_goal x" g r]) auto
qed

lemma add_task_ok:
  assumes "add_goal_task ev now sid content r = (r', res)"
  shows "op_ok now sid (OpAddTask content) r r' (\<not> isl res)"
proof (cases "\<exists>x. runtime_get (ev 0) sid r = Inr x \<and> is_active (se_goal x)")
  case True
  then obtain x where "runtime_get (ev 0) sid r = Inr x" "is_active (se_goal x)" by blast
  with assms show ?thesis
    by (auto simp: add_goal_task_def Let_def is_active_def split: if_splits
        intro!: save_edit_ok [of "ev 0" sid r x "ev 1"])
next
  case False
  with assms show ?thesis by (auto simp: add_goal_task_def Let_def split: if_splits sum.splits)
qed

lemma done_task_ok:
  assumes "complete_goal_task ev now sid content evidence r = (r', res)"
  shows "op_ok now sid (OpDoneTask content evidence) r r' (\<not> isl res)"
proof (cases "\<exists>x i. runtime_get (ev 0) sid r = Inr x \<and> is_active (se_goal x) \<and>
    content \<noteq> [] \<and> find_task content 0 (gl_tasks (se_goal x)) = Some i")
  case True
  then obtain x i where x: "runtime_get (ev 0) sid r = Inr x" "is_active (se_goal x)"
    "content \<noteq> []" "find_task content 0 (gl_tasks (se_goal x)) = Some i" by blast
  then obtain g where "save_goal (ev 1) x g r = (r', res)" "gl_id g = gl_id (se_goal x)"
    "gl_status g = gl_status (se_goal x)" "gl_time_seconds g = gl_time_seconds (se_goal x)" "gl_updated g = now"
    using assms by (cases "tk_status (gl_tasks (se_goal x) ! i) = ''completed''")
      (auto simp: complete_goal_task_def Let_def)
  with x(1,2) show ?thesis by (intro save_edit_ok [of "ev 0" sid r x "ev 1" g]) (auto simp: is_active_def)
next
  case False
  with assms show ?thesis
    by (auto simp: complete_goal_task_def Let_def split: if_splits sum.splits option.splits)
qed

text \<open>The loop over the queued updates touches nothing of the goal but its stall counter.\<close>

definition goal_core :: "goal \<Rightarrow> (string \<times> string \<times> int \<times> int) \<times> int \<times> int \<times> int" where
  "goal_core g = ((gl_id g, gl_status g, gl_time_seconds g, gl_updated g),
     gl_iterations g, gl_max_iterations g, gl_block_cap g)"

lemma apply_update_core: "goal_core (fst (apply_update now u (g, ts, ch))) = goal_core g"
  by (simp add: apply_update_def goal_core_def Let_def split: option.split)

lemma apply_updates_core:
  "apply_updates now us (g, ts, ch) = (g', ts', ch') \<Longrightarrow> goal_core g' = goal_core g"
proof (induction us arbitrary: g ts ch)
  case Nil
  then show ?case by (simp add: apply_updates_def)
next
  case (Cons u us)
  obtain g1 ts1 ch1 where one: "apply_update now u (g, ts, ch) = (g1, ts1, ch1)"
    by (cases "apply_update now u (g, ts, ch)")
  have "goal_core g1 = goal_core g" using apply_update_core [of now u g ts ch] by (simp only: one fst_conv)
  with Cons.IH [of g1 ts1 ch1] Cons.prems one show ?case by (simp add: apply_updates_def)
qed

lemma clear_pending:
  "rows_of (r\<lparr>gr_pending := p\<rparr>) = rows_of r" "gr_clocks (r\<lparr>gr_pending := p\<rparr>) = gr_clocks r"
  "view sid (r\<lparr>gr_pending := p\<rparr>) = view sid r" "runtime_get e sid (r\<lparr>gr_pending := p\<rparr>) = runtime_get e sid r"
  by (simp_all add: view_def runtime_get_def)

lemma clear_snapshot:
  "rows_of (r\<lparr>gr_snapshots := p\<rparr>) = rows_of r" "gr_clocks (r\<lparr>gr_snapshots := p\<rparr>) = gr_clocks r"
  "view sid (r\<lparr>gr_snapshots := p\<rparr>) = view sid r" "runtime_get e sid (r\<lparr>gr_snapshots := p\<rparr>) = runtime_get e sid r"
  by (simp_all add: view_def runtime_get_def)

lemma op_ok_frame:
  "op_ok now sid op (r\<lparr>gr_pending := p\<rparr>) r' ok = op_ok now sid op r r' ok"
  "op_ok now sid op (r\<lparr>gr_snapshots := q\<rparr>) r' ok = op_ok now sid op r r' ok"
  by (simp_all add: op_ok_def clear_pending clear_snapshot)

lemma pending_ok:
  assumes "apply_pending_subagent_updates ev now sid r = (r', err)"
    "op = OpPending \<or> (\<exists>i b. op = OpTurnStart i b)"
  shows "op_ok now sid op r r' (err = None)"
proof -
  let ?us = "case gr_pending r sid of None \<Rightarrow> [] | Some us \<Rightarrow> us"
  let ?r = "r\<lparr>gr_pending := (gr_pending r)(sid := None)\<rparr>"
  have idle: "may_idle op" using assms(2) by auto
  have "op_ok now sid op ?r r' (err = None)"
  proof (cases "\<exists>x. ?us \<noteq> [] \<and> runtime_get (ev 0) sid ?r = Inr x \<and> is_active (se_goal x)")
    case True
    then obtain x where x: "?us \<noteq> []" "runtime_get (ev 0) sid ?r = Inr x" "is_active (se_goal x)" by blast
    obtain g ts changed where up: "apply_updates now ?us (se_goal x, gl_tasks (se_goal x), False) = (g, ts, changed)"
      by (rule prod_cases3)
    from apply_updates_core [OF up] have g: "gl_id g = gl_id (se_goal x)" "gl_status g = gl_status (se_goal x)"
      "gl_time_seconds g = gl_time_seconds (se_goal x)" by (simp_all add: goal_core_def)
    let ?g = "g\<lparr>gl_tasks := normalize_tasks_for_storage (ev 1) ts, gl_updated := now\<rparr>"
    obtain r2 res where sv: "save_goal (ev 2) x ?g ?r = (r2, res)" by fastforce
    have "op_ok now sid op ?r r2 (\<not> isl res)"
      using x(2,3) sv assms(2)
      by (intro save_edit_ok [of "ev 0" sid ?r x "ev 2" ?g]) (auto simp: g is_active_def)
    moreover have "if changed then r' = r2 \<and> (err = None \<longleftrightarrow> \<not> isl res) else r' = ?r \<and> err = None"
      using assms(1) x up sv
      by (auto simp: apply_pending_subagent_updates_def Let_def split: sum.splits if_splits)
    ultimately show ?thesis using idle by (cases changed) auto
  next
    case False
    with assms(1) idle show ?thesis
      by (auto simp: apply_pending_subagent_updates_def Let_def split: sum.splits if_splits)
  qed
  then show ?thesis by (simp only: op_ok_frame)
qed

lemma turn_start_ok:
  assumes "on_turn_start ev now sid i b r = (r', err)"
  shows "op_ok now sid (OpTurnStart i b) r r' (err = None)"
proof -
  obtain r1 err1 where p: "apply_pending_subagent_updates ev now sid r = (r1, err1)" by fastforce
  have ok: "op_ok now sid (OpTurnStart i b) r r1 (err1 = None)" by (rule pending_ok [OF p]) simp
  show ?thesis
  proof (cases err1)
    case None
    have "rows_of r' = rows_of r1" "gr_clocks r' = gr_clocks r1"
      using assms p None by (auto simp: on_turn_start_def split: sum.splits)
    with ok None show ?thesis by (auto simp: op_ok_def view_def)
  next
    case (Some a)
    with assms p ok show ?thesis by (auto simp: on_turn_start_def)
  qed
qed

lemma set_budget_ok:
  assumes "set_budget_goal ev now sid b r = (r', res)"
  shows "op_ok now sid (OpSetBudget b) r r' (\<not> isl res)"
proof (cases "\<exists>x. runtime_get (ev 0) sid r = Inr x \<and> gl_status (se_goal x) \<noteq> []")
  case False
  with assms show ?thesis by (auto simp: set_budget_goal_def Let_def split: if_splits sum.splits)
next
  case True
  then obtain x where x: "runtime_get (ev 0) sid r = Inr x" "gl_status (se_goal x) \<noteq> []" by blast
  let ?g = "(se_goal x)\<lparr>gl_token_budget := b\<rparr>"
  let ?v = "view_goal (mode_of x) (se_goal x) (gr_clocks r sid)"
  have mk: "view_goal (mode_of x) (?g\<lparr>gl_status := st, gl_updated := now\<rparr>) c = marked now st (view_goal (mode_of x) (se_goal x) c)"
    for st c unfolding marked_view by (rule view_goal_eqI) simp_all
  consider (limit) "is_budget_exhausted ?g" "gl_status (se_goal x) = ''active''"
    | (unlimit) "\<not> is_budget_exhausted ?g" "gl_status (se_goal x) = ''budget-limited''"
    | (plain) "\<not> (is_budget_exhausted ?g \<and> gl_status (se_goal x) = ''active'')"
        "\<not> (\<not> is_budget_exhausted ?g \<and> gl_status (se_goal x) = ''budget-limited'')"
    by blast
  then show ?thesis
  proof cases
    case limit
    let ?g' = "?g\<lparr>gl_status := ''budget-limited'', gl_updated := now\<rparr>"
    have "goal_step now (OpSetBudget b) ?v (view_goal (mode_of x) ?g' (gr_clocks r sid))"
      unfolding mk using limit by (intro step_limit) simp
    with assms x limit show ?thesis
      by (intro op_save [of "ev 0" sid r x "ev 1" "se_goal x" ?g' r])
        (auto simp: set_budget_goal_def Let_def is_active_def settle_wall_clock_def)
  next
    case unlimit
    let ?g' = "?g\<lparr>gl_status := ''active'', gl_updated := now\<rparr>"
    have "goal_step now (OpSetBudget b) ?v
        (view_goal (mode_of x) ?g' (gr_clocks (start_wall_clock sid (gl_id ?g') now r) sid))"
      unfolding start_view mk using unlimit by (intro step_unlimit) simp
    with assms x unlimit show ?thesis
      by (intro op_save [of "ev 0" sid r x "ev 1" "se_goal x" ?g' "start_wall_clock sid (gl_id ?g') now r"])
        (auto simp: set_budget_goal_def Let_def is_active_def start_view)
  next
    case plain
    let ?g' = "?g\<lparr>gl_status := gl_status (se_goal x), gl_updated := now\<rparr>"
    have "goal_step now (OpSetBudget b) ?v (view_goal (mode_of x) ?g' (gr_clocks r sid))"
      unfolding mk using x step_budget [of ?v now b] by simp
    moreover have "save_goal (ev 1) x ?g' r = (r', res)"
    proof -
      have off: "(is_budget_exhausted ?g \<and> is_active ?g) = False"
        "(\<not> is_budget_exhausted ?g \<and> gl_status ?g = ''budget-limited'') = False"
        using plain by (auto simp: is_active_def)
      have act: "is_active (?g\<lparr>gl_updated := now\<rparr>) = is_active (se_goal x)"
        by (simp add: is_active_def)
      have same: "?g' = ?g\<lparr>gl_updated := now\<rparr>" by simp
      show ?thesis
        unfolding same using assms unfolding set_budget_goal_def x(1)
        by (simp only: sum.case Let_def x(2) if_False off act prod.case simp_thms)
    qed
    ultimately show ?thesis
      using x(1) by (intro op_save [of "ev 0" sid r x "ev 1" "se_goal x" ?g' r]) simp_all
  qed
qed

lemma turn_counters_fields:
  "gl_id (turn_counters sn now g) = gl_id g" "gl_status (turn_counters sn now g) = gl_status g"
  "gl_time_seconds (turn_counters sn now g) = gl_time_seconds g" "gl_updated (turn_counters sn now g) = now"
  by (simp_all add: turn_counters_def Let_def)

lemma turn_limits_status:
  "gl_status (fst (turn_limits wall g)) =
     (if gl_no_progress g \<ge> gl_block_cap g then ''stalled''
      else if gl_iterations g \<ge> gl_max_iterations g then ''dropped''
      else if is_budget_exhausted g \<and> gl_status g \<noteq> ''budget-limited'' then ''budget-limited''
      else gl_status g)"
  by (simp add: turn_limits_def terminate_goal_def Let_def)

lemma turn_limits_fields:
  "gl_id (fst (turn_limits wall g)) = gl_id g"
  "gl_time_seconds (fst (turn_limits wall g)) = gl_time_seconds g"
  "gl_iterations (fst (turn_limits wall g)) = gl_iterations g"
  "gl_max_iterations (fst (turn_limits wall g)) = gl_max_iterations g"
  by (simp_all add: turn_limits_def terminate_goal_def Let_def)

lemma turn_limits_within:
  "gl_no_progress g < gl_block_cap g \<Longrightarrow> gl_iterations g < gl_max_iterations g \<Longrightarrow>
   \<not> (is_budget_exhausted g \<and> gl_status g \<noteq> ''budget-limited'') \<Longrightarrow> turn_limits wall g = (g, False)"
  by (auto simp: turn_limits_def Let_def)

lemma turn_limits_cases:
  assumes "turn_limits wall g = (g', exhausted)" "gl_status g = ''active''"
  shows "gl_id g' = gl_id g \<and> gl_time_seconds g' = gl_time_seconds g \<and>
    (g' = g \<or> gl_status g' \<in> {''budget-limited'', ''dropped'', ''stalled''})"
proof -
  have g': "g' = fst (turn_limits wall g)" by (simp only: assms(1) fst_conv)
  show ?thesis
  proof (cases "gl_no_progress g < gl_block_cap g \<and> gl_iterations g < gl_max_iterations g \<and>
      \<not> (is_budget_exhausted g \<and> gl_status g \<noteq> ''budget-limited'')")
    case True
    with turn_limits_within [of g wall] g' show ?thesis by (simp only: fst_conv simp_thms)
  next
    case False
    then have "gl_status g' \<in> {''budget-limited'', ''dropped'', ''stalled''}"
      using assms(2) by (auto simp: g' turn_limits_status)
    with turn_limits_fields [of wall g] g' show ?thesis by (simp only: simp_thms)
  qed
qed

lemma post_turn_ok:
  assumes "post_turn ev now sid u r = (r', res)"
  shows "op_ok now sid (OpPostTurn u) r r' (\<not> isl res)"
proof -
  let ?sn = "case gr_snapshots r sid of None \<Rightarrow> no_snapshot | Some sn \<Rightarrow> sn"
  let ?r = "r\<lparr>gr_snapshots := (gr_snapshots r)(sid := None)\<rparr>"
  have "op_ok now sid (OpPostTurn u) ?r r' (\<not> isl res)"
  proof (cases "\<exists>x. runtime_get (ev 0) sid ?r = Inr x \<and> is_active (se_goal x) \<and>
      \<not> (sn_turn ?sn \<noteq> [] \<and> sn_goal ?sn \<noteq> [] \<and> sn_goal ?sn \<noteq> gl_id (se_goal x))")
    case True
    then obtain x where x: "runtime_get (ev 0) sid ?r = Inr x" "is_active (se_goal x)"
      "\<not> (sn_turn ?sn \<noteq> [] \<and> sn_goal ?sn \<noteq> [] \<and> sn_goal ?sn \<noteq> gl_id (se_goal x))" by blast
    let ?g1 = "(se_goal x)\<lparr>gl_tokens_used := i64 (gl_tokens_used (se_goal x) + usage_delta u (sn_baseline ?sn))\<rparr>"
    obtain r2 g2 where st: "settle_wall_clock sid ?g1 now ?r = (r2, g2)" by fastforce
    obtain g4 ex where lim: "turn_limits (en_now (ev 1)) (turn_counters ?sn now g2) = (g4, ex)" by fastforce
    let ?r3 = "if is_active g4 then start_wall_clock sid (gl_id g4) now r2 else r2"
    obtain res4 where sv: "save_goal (ev 1) x g4 ?r3 = (r', res4)" "isl res4 = isl res"
      using assms x st lim
      by (auto simp: post_turn_def Let_def split: sum.splits prod.splits)
    let ?v = "view_goal (mode_of x) (se_goal x) (gr_clocks ?r sid)"
    have v1: "view_goal (mode_of x) ?g1 c = view_goal (mode_of x) (se_goal x) c" for c
      by (rule view_goal_eqI) simp_all
    have g2: "gl_status g2 = ''active''" using settle_view(5) [OF st] x(2) by (auto simp: is_active_def)
    note settled2 = settle_view(1) [OF st, of "mode_of x", unfolded v1]
    have "goal_step now (OpPostTurn u) ?v (view_goal (mode_of x) g4 (gr_clocks ?r3 sid))"
    proof (cases "g4 = turn_counters ?sn now g2")
      case True
      then have "is_active g4" using g2 by (simp add: is_active_def turn_counters_fields)
      moreover have "view_goal (mode_of x) g4 (gr_clocks r2 sid) = marked now ''active'' (settled now ?v)"
        unfolding settled2 [symmetric] marked_view
        by (rule view_goal_eqI) (simp_all add: True turn_counters_fields g2)
      ultimately show ?thesis
        using step_turn [of ?v now u] x(2) by (simp add: start_view is_active_def)
    next
      case False
      with turn_limits_cases [OF lim] g2 have off: "gl_status g4 \<in> {''budget-limited'', ''dropped'', ''stalled''}"
        "gl_id g4 = gl_id g2" "gl_time_seconds g4 = gl_time_seconds g2" by (auto simp: turn_counters_fields)
      have "view_goal (mode_of x) g4 (gr_clocks r2 sid) =
          marked (gl_updated g4) (gl_status g4) (settled now ?v)"
        unfolding settled2 [symmetric] marked_view by (rule view_goal_eqI) (simp_all add: off)
      with off(1) x(2) step_last_turn [of ?v "gl_status g4" now u "gl_updated g4"] show ?thesis
        by (auto simp: is_active_def)
    qed
    with x sv(1) settle_view(2,4) [OF st] have "op_ok now sid (OpPostTurn u) ?r r' (\<not> isl res4)"
      by (intro op_save [of "ev 0" sid ?r x "ev 1" "se_goal x" g4 ?r3]) (auto simp: start_view)
    with sv(2) show ?thesis by simp
  next
    case False
    with assms show ?thesis by (auto simp: post_turn_def Let_def split: sum.splits if_splits)
  qed
  then show ?thesis by (simp only: op_ok_frame)
qed

lemma run_op_ok:
  assumes "run_op ev now sid op r = (r', ok)"
  shows "op_ok now sid op r r' ok"
proof (cases op)
  case (OpCreate ob b)
  obtain r1 res where "create_goal ev now sid ob b r = (r1, res)" by fastforce
  with create_ok [OF this] assms OpCreate show ?thesis by (auto simp: run_op_def succeeded_eq)
next
  case (OpReplace ob b)
  obtain r1 res where "replace_goal ev now sid ob b r = (r1, res)" by fastforce
  with replace_ok [OF this] assms OpReplace show ?thesis by (auto simp: run_op_def succeeded_eq)
next
  case OpPause
  obtain r1 res where "pause_goal ev now sid r = (r1, res)" by fastforce
  with pause_ok [OF this] assms OpPause show ?thesis by (auto simp: run_op_def succeeded_eq)
next
  case OpResume
  obtain r1 res where "resume_goal ev now sid r = (r1, res)" by fastforce
  with resume_ok [OF this] assms OpResume show ?thesis by (auto simp: run_op_def succeeded_eq)
next
  case OpComplete
  obtain r1 res where "complete_goal ev now sid r = (r1, res)" by fastforce
  with complete_ok [OF this] assms OpComplete show ?thesis by (auto simp: run_op_def succeeded_eq)
next
  case OpDrop
  obtain r1 res where "drop_goal ev now sid r = (r1, res)" by fastforce
  with drop_ok [OF this] assms OpDrop show ?thesis by (auto simp: run_op_def succeeded_eq)
next
  case (OpSetBudget b)
  obtain r1 res where "set_budget_goal ev now sid b r = (r1, res)" by fastforce
  with set_budget_ok [OF this] assms OpSetBudget show ?thesis by (auto simp: run_op_def succeeded_eq)
next
  case (OpLoad p)
  obtain r1 res where "pause_active_goal_on_load ev now sid p r = (r1, res)" by fastforce
  with load_ok [OF this] assms OpLoad show ?thesis by (auto simp: run_op_def succeeded_eq)
next
  case (OpPostTurn u)
  obtain r1 res where "post_turn ev now sid u r = (r1, res)" by fastforce
  with post_turn_ok [OF this] assms OpPostTurn show ?thesis by (auto simp: run_op_def succeeded_eq)
next
  case (OpAddTask c)
  obtain r1 res where "add_goal_task ev now sid c r = (r1, res)" by fastforce
  with add_task_ok [OF this] assms OpAddTask show ?thesis by (auto simp: run_op_def succeeded_eq)
next
  case (OpDoneTask c e)
  obtain r1 res where "complete_goal_task ev now sid c e r = (r1, res)" by fastforce
  with done_task_ok [OF this] assms OpDoneTask show ?thesis by (auto simp: run_op_def succeeded_eq)
next
  case OpPending
  obtain r1 err where "apply_pending_subagent_updates ev now sid r = (r1, err)" by fastforce
  with pending_ok [OF this, of OpPending] assms OpPending show ?thesis by (auto simp: run_op_def)
next
  case (OpTurnStart i b)
  obtain r1 err where "on_turn_start ev now sid i b r = (r1, err)" by fastforce
  with turn_start_ok [OF this] assms OpTurnStart show ?thesis by (auto simp: run_op_def)
qed

end
