(* ===== verification/Goal_Calls.thy ===== *)
theory Goal_Calls
  imports Goal_Spec
begin

text \<open>
  Calls of the goal runtime that succeed: what they find and leave in the tables when no query
  fails, and a runtime with one active goal for the instances.
\<close>

section \<open>Calls that succeed\<close>

text \<open>A stored session, and an environment where nothing fails.\<close>

definition live :: "string \<Rightarrow> session_row \<Rightarrow> goal_runtime \<Rightarrow> bool" where
  "live sid row r \<longleftrightarrow> find_row sid (rows_of r) = Some row \<and> row_ok row"

definition calm :: "env \<Rightarrow> bool" where
  "calm e \<longleftrightarrow> (\<forall>k. \<not> en_fail e k)"

lemma live_get: "live sid row r \<Longrightarrow> calm e \<Longrightarrow> runtime_get e sid r = Inr (from_db_item e row)"
  by (simp add: live_def calm_def runtime_get_def get_session_def query_session_def)

lemma live_id: "live sid row r \<Longrightarrow> sr_id row = sid"
  by (auto simp: live_def find_row_def find_Some_iff)

lemma from_db_item_fields:
  "se_id (from_db_item e row) = sr_id row" "se_goal (from_db_item e row) = goal_from_columns e (sr_goal row)"
  "normalize_collaboration_mode (se_collaboration (from_db_item e row)) =
     normalize_collaboration_mode (sr_collaboration row)"
  by (simp_all add: from_db_item_def)

lemma row_ok_saved: "row_ok row \<Longrightarrow> row_ok ((saved_row e ((from_db_item e0 row)\<lparr>se_goal := g\<rparr>) row)\<lparr>sr_updated := n\<rparr>)"
  by (simp add: row_ok_def saved_row_def from_db_item_def normalize_kind_def)

lemma live_save:
  assumes "live sid row r" "calm e" "x = from_db_item e0 row"
  obtains r' y row' where "save_goal e x g r = (r', Inr y)" "live sid row' r'"
    "sr_goal row' = goal_to_columns e g" "r' = r\<lparr>gr_sessions := gr_sessions r'\<rparr>"
    "row' = (saved_row e (x\<lparr>se_goal := g\<rparr>) row)\<lparr>sr_updated := en_now e\<rparr>"
    "normalize_collaboration_mode (sr_collaboration row') = normalize_collaboration_mode (sr_collaboration row)"
proof -
  let ?new = "saved_row e (x\<lparr>se_goal := g\<rparr>) row"
  have row: "find_row sid (rows_of r) = Some row" "row_ok row" "sr_id row = sid"
    using assms(1) live_id [OF assms(1)] by (simp_all add: live_def)
  have ok: "row_ok (?new\<lparr>sr_updated := en_now e\<rparr>)" using row_ok_saved [OF row(2)] assms(3) by simp
  then have ok': "row_ok ?new" by (simp add: row_ok_def)
  have x: "se_id x = sid" using assms(3) row(3) by (simp add: from_db_item_fields)
  have q: "query_update (en_fail e 0) (en_now e) sid (\<lambda>_. True) (saved_row e (x\<lparr>se_goal := g\<rparr>)) (rows_of r) =
      (put_row (?new\<lparr>sr_updated := en_now e\<rparr>) (rows_of r), Inr ?new)"
    using assms(2) row ok' by (simp add: query_update_def calm_def)
  have id: "sr_id ?new = sid" using row(3) by (simp add: saved_row_def)
  obtain r' y where sv: "save_goal e x g r = (r', Inr y)"
    "rows_of r' = put_row (?new\<lparr>sr_updated := en_now e\<rparr>) (rows_of r)" "r' = r\<lparr>gr_sessions := gr_sessions r'\<rparr>"
    by (simp add: save_goal_def save_session_def x q Let_def publish_session_def)
  have "find_row sid (rows_of r') = Some (?new\<lparr>sr_updated := en_now e\<rparr>)"
    unfolding sv(2) using row id by (simp add: find_put_row)
  with ok sv show thesis
    by (intro that [of r' y "?new\<lparr>sr_updated := en_now e\<rparr>"])
      (simp_all add: live_def saved_row_def assms(3) from_db_item_def)
qed

section \<open>An example\<close>

definition ex_goal :: goal where
  "ex_goal = no_goal\<lparr>gl_id := ''g'', gl_text := ''do it'', gl_status := ''active'', gl_max_iterations := 50,
     gl_block_cap := 8, gl_created := 100, gl_updated := 100\<rparr>"

definition ex_goal_row :: "goal \<Rightarrow> session_row" where
  "ex_goal_row g = ex_row\<lparr>sr_goal := goal_to_columns ex_env g\<rparr>"

definition ex_runtime :: "goal \<Rightarrow> goal_runtime" where
  "ex_runtime g = (new_runtime (ex_store\<lparr>ss_tables := (ss_tables ex_store)\<lparr>tb_sessions := [ex_goal_row g]\<rparr>\<rparr>))
     \<lparr>gr_clocks := [''s'' \<mapsto> \<lparr>wc_goal = gl_id g, wc_last = 100\<rparr>]\<rparr>"

lemma ex_calm: "calm ex_env"
  by (simp add: calm_def ex_env_def)

lemma ex_live: "live ''s'' (ex_goal_row g) (ex_runtime g)"
  by (simp add: live_def ex_runtime_def new_runtime_def ex_goal_row_def find_row_def ex_row_def created_row_def
      row_ok_def float_nonneg_def float_nan_def)


text \<open>The goal the example holds as the code reads it back.\<close>

definition ex_read :: "goal \<Rightarrow> session" where
  "ex_read g = from_db_item ex_env (ex_goal_row g)"

lemma ex_get: "runtime_get ex_env ''s'' (ex_runtime g) = Inr (ex_read g)"
  unfolding ex_read_def by (rule live_get [OF ex_live ex_calm])

lemma ex_read_fields:
  "gl_status (se_goal (ex_read g)) = gl_status g" "gl_id (se_goal (ex_read g)) = gl_id g"
  "gl_token_budget (se_goal (ex_read g)) = gl_token_budget g" "gl_tokens_used (se_goal (ex_read g)) = gl_tokens_used g"
  "gl_time_seconds (se_goal (ex_read g)) = gl_time_seconds g" "gl_updated (se_goal (ex_read g)) = gl_updated g"
  by (simp_all add: ex_read_def from_db_item_fields ex_goal_row_def goal_from_columns_def goal_to_columns_def)

lemma ex_save:
  assumes "rows_of r1 = rows_of (ex_runtime g0)"
  shows "\<exists>r' y. save_goal ex_env (ex_read g0) g r1 = (r', Inr y)"
proof -
  have "live ''s'' (ex_goal_row g0) r1" using ex_live assms by (simp add: live_def)
  from live_save [OF this ex_calm ex_read_def] show ?thesis by metis
qed

lemma ex_pause: "\<exists>r'. run_op (\<lambda>_. ex_env) 160 ''s'' OpPause (ex_runtime ex_goal) = (r', True)"
proof -
  have act: "is_active (se_goal (ex_read ex_goal))" by (simp add: is_active_def ex_read_fields ex_goal_def)
  obtain r2 g2 where st: "settle_wall_clock ''s'' (se_goal (ex_read ex_goal)) 160 (ex_runtime ex_goal) = (r2, g2)"
    by fastforce
  obtain r' y where "save_goal ex_env (ex_read ex_goal) (g2\<lparr>gl_status := ''paused'', gl_updated := 160\<rparr>) r2 = (r', Inr y)"
    using ex_save [of r2 ex_goal] settle_view(2) [OF st] by metis
  then show ?thesis by (simp add: run_op_def pause_goal_def ex_get act st succeeded_def)
qed

lemma ex_view: "view ''s'' (ex_runtime g) = Some (view_goal ''default'' g (Some \<lparr>wc_goal = gl_id g, wc_last = 100\<rparr>))"
  by (simp add: view_def ex_runtime_def new_runtime_def find_row_def ex_goal_row_def ex_row_def created_row_def
      view_of_def view_goal_def goal_to_columns_def normalize_collaboration_mode_def)

end
