(* ===== verification/Goal_Prompts.thy ===== *)
theory Goal_Prompts
  imports Goal_Runtime
begin

text \<open>
  The prompts of internal/goal/runtime.go: the task reminder, the continuation prompt with
  its cap on rendered tasks, and the budget prompt, as the bytes the code writes.
\<close>

abbreviation nl :: string where "nl \<equiv> [CHR 0x0A]"
abbreviation dq :: string where "dq \<equiv> [CHR 0x22]"

section \<open>Task reminder\<close>

definition reminder_line :: "task \<Rightarrow> string" where
  "reminder_line t =
     (if tk_status t = ''in_progress'' \<or> tk_status t = ''pending''
      then ''  - ['' @ tk_status t @ ''] '' @ tk_content t @ nl else [])"

definition build_task_reminder :: "goal \<Rightarrow> string" where
  "build_task_reminder g =
     (if \<not> has_actionable_tasks (gl_tasks g) then []
      else ''[Task reminder] Actionable goal tasks remain. Finish them with real evidence, or update their status truthfully before considering the goal complete.'' @ nl @
        concat (map reminder_line (gl_tasks g)))"

section \<open>Continuation prompt\<close>

definition actionable_status :: "string \<Rightarrow> bool" where
  "actionable_status s \<longleftrightarrow> s = ''in_progress'' \<or> s = ''pending'' \<or> s = ''blocked''"

text \<open>
  The tasks that are rendered under a cap, and how many are left out; no cap when it is not
  positive.
\<close>

definition rendered_tasks :: "int \<Rightarrow> task list \<Rightarrow> task list \<times> nat" where
  "rendered_tasks max_tasks ts =
     (if max_tasks > 0 \<and> int (length ts) > max_tasks then
        (let actionable = filter (\<lambda>t. actionable_status (tk_status t)) ts;
             closed = filter (\<lambda>t. \<not> actionable_status (tk_status t)) ts;
             remaining = max_tasks - int (length actionable);
             remaining = (if remaining < 0 then 0 else remaining);
             remaining = (if remaining > int (length closed) then int (length closed) else remaining);
             rendered = actionable @ take (nat remaining) closed
         in (rendered, length ts - length rendered))
      else (ts, 0))"

definition task_line :: "nat \<Rightarrow> task \<Rightarrow> string" where
  "task_line i t =
     (if tk_status t = ''in_progress'' then show_nat (i + 1) @ ''. [ACTIVE] '' @ tk_content t @ nl
      else if tk_status t = ''pending'' then show_nat (i + 1) @ ''. [pending] '' @ tk_content t @ nl
      else if tk_status t = ''completed''
      then show_nat (i + 1) @ ''. [completed] '' @ tk_content t @ '' (evidence: '' @ tk_evidence t @ '')'' @ nl
      else if tk_status t = ''blocked''
      then show_nat (i + 1) @ ''. [blocked] '' @ tk_content t @ '' (blocker: '' @ tk_blocker t @ '')'' @ nl
      else if tk_status t = ''dropped''
      then show_nat (i + 1) @ ''. [dropped] '' @ tk_content t @ '' (reason: '' @ tk_drop_reason t @ '')'' @ nl
      else [])"

fun task_lines :: "nat \<Rightarrow> task list \<Rightarrow> string" where
  "task_lines i [] = []"
| "task_lines i (t # ts) = task_line i t @ task_lines (Suc i) ts"

definition task_section :: "int \<Rightarrow> task list \<Rightarrow> string" where
  "task_section max_tasks ts =
     (if ts = [] then []
      else
        (case rendered_tasks max_tasks ts of
           (rendered, truncated) \<Rightarrow>
             nl @ ''Tasks:'' @ nl @ task_lines 0 rendered @
             (if truncated > 0
              then ''... ('' @ show_nat truncated @ '' additional completed/dropped tasks omitted)'' @ nl
              else []) @
             (case find (\<lambda>t. tk_status t = ''in_progress'') rendered of
                None \<Rightarrow> []
              | Some t \<Rightarrow> nl @ ''Current active task: '' @ tk_content t @ nl)))"

definition work_instructions :: string where
  "work_instructions =
     nl @
     ''Work instructions:'' @ nl @
     ''- Use the `todo` tool with op `start` to focus on one task at a time.'' @ nl @
     ''- Use the `todo` tool with op `done` and `evidence` when a task is truly complete.'' @ nl @
     ''- Use the `todo` tool with op `drop` and a `reason` only if a task is infeasible.'' @ nl @
     ''- Never call goal({op:'' @ dq @ ''complete'' @ dq @ ''}) until every task is done or dropped with a reason.'' @ nl @
     nl @
     ''Completion audit protocol:'' @ nl @
     ''1. Restate the objective as concrete deliverables.'' @ nl @
     ''2. Map each deliverable to evidence.'' @ nl @
     ''3. Inspect actual current state (read files, run commands, check tests).'' @ nl @
     ''4. Match verification scope to claim scope.'' @ nl @
     ''5. Treat uncertainty as not-yet-achieved.'' @ nl @
     ''6. Budget exhaustion is not completion.'' @ nl @
     nl @
     ''If work is not done, keep working. Never call goal({op:'' @ dq @ ''complete'' @ dq @ ''}) just because the budget is low or a turn is ending.'' @ nl"

definition build_continuation_prompt_with_task_limit :: "goal \<Rightarrow> int \<Rightarrow> string" where
  "build_continuation_prompt_with_task_limit g max_tasks =
     ''Continue work on the active goal.'' @ nl @ nl @
     ''Objective: '' @ gl_text g @ nl @
     (if has_budget g
      then ''Token budget: '' @ show_int (gl_tokens_used g) @ '' used / '' @
        show_int (gl_token_budget g) @ '' total ('' @ show_int (remaining_tokens g) @ '' remaining)'' @ nl
      else []) @
     (if gl_time_seconds g > 0 then ''Active time: '' @ show_int (gl_time_seconds g) @ ''s'' @ nl else []) @
     ''Iterations: '' @ show_int (gl_iterations g) @ '' / '' @ show_int (gl_max_iterations g) @ nl @
     ''No-progress streak: '' @ show_int (gl_no_progress g) @ '' / '' @ show_int (gl_block_cap g) @ nl @
     task_section max_tasks (gl_tasks g) @
     work_instructions"

definition build_continuation_prompt :: "goal \<Rightarrow> string" where
  "build_continuation_prompt g = build_continuation_prompt_with_task_limit g 0"

section \<open>Budget prompt\<close>

definition build_budget_limit_prompt :: "goal \<Rightarrow> string" where
  "build_budget_limit_prompt g =
     ''Token budget exhausted for the active goal.'' @ nl @ nl @
     ''Objective: '' @ gl_text g @ nl @
     ''Tokens used: '' @ show_int (gl_tokens_used g) @ '' / '' @ show_int (gl_token_budget g) @ nl @ nl @
     ''Stop new substantive work. Summarize progress:'' @ nl @
     ''- What has been completed.'' @ nl @
     ''- What remains.'' @ nl @
     ''- Any blockers.'' @ nl @ nl @
     ''Do NOT call goal({op:'' @ dq @ ''complete'' @ dq @ ''}) unless the objective is genuinely met.'' @ nl"

end
