(* ===== verification/Goal_Properties.thy ===== *)
theory Goal_Properties
  imports Goal_Calls Goal_Prompts
begin

text \<open>
  What holds of the goal runtime as a whole: it refines its specification, conserves the active
  time of a goal, never leaves a finished status, and keeps plan mode and goals apart.
\<close>

section \<open>Refinement\<close>

text \<open>
  C5. Every operation of the goal runtime that returns without an error moves its session by
  one step of the specification, or leaves it as it was where that is allowed; and no
  operation, failing or not, changes what the specification sees of another session.
\<close>

theorem goal_ops_refine:
  assumes "run_op ev now sid op r = (r', ok)"
  shows "(ok \<longrightarrow> view_step now op (view sid r) (view sid r')) \<and>
    (\<forall>other. other \<noteq> sid \<longrightarrow> view other r' = view other r)"
  using run_op_ok [OF assms] by (auto simp: op_ok_def view_def)

theorem goal_ops_refine_witness:
  "\<exists>r'. run_op (\<lambda>_. ex_env) 160 ''s'' OpPause (ex_runtime ex_goal) = (r', True) \<and>
     view_step 160 OpPause (view ''s'' (ex_runtime ex_goal)) (view ''s'' r')"
proof -
  obtain r' where r': "run_op (\<lambda>_. ex_env) 160 ''s'' OpPause (ex_runtime ex_goal) = (r', True)"
    using ex_pause by blast
  with goal_ops_refine [OF r'] show ?thesis by blast
qed

section \<open>Time\<close>

text \<open>The seconds booked on a goal and, while it is active, those its clock is still to book.\<close>

definition accounted :: "int \<Rightarrow> goal_view \<Rightarrow> int" where
  "accounted now v = vw_seconds v + (if vw_status v = ''active'' then view_elapsed now v else 0)"

definition clock_ok :: "int \<Rightarrow> goal_view \<Rightarrow> bool" where
  "clock_ok now v \<longleftrightarrow>
     (\<forall>wc. vw_clock v = Some wc \<longrightarrow> wc_goal wc \<noteq> []) \<and>
     (vw_status v = ''active'' \<longrightarrow>
        (\<exists>wc. vw_clock v = Some wc \<and> wc_goal wc = vw_id v \<and> 0 < wc_last wc \<and> wc_last wc \<le> now))"

definition times_ok :: "int \<Rightarrow> goal_view \<Rightarrow> bool" where
  "times_ok now v \<longleftrightarrow> 0 < now \<and> 0 \<le> vw_seconds v \<and> vw_seconds v + now < 2 ^ 63"

lemma view_elapsed_clock:
  "vw_clock v = Some wc \<Longrightarrow> wc_goal wc = vw_id v \<Longrightarrow> 0 < wc_last wc \<Longrightarrow> wc_last wc \<le> now \<Longrightarrow>
   now < 2 ^ 63 \<Longrightarrow> view_elapsed now v = now - wc_last wc"
  by (simp add: view_elapsed_def i64_id)

lemma settled_accounted:
  assumes "clock_ok now v" "times_ok now v"
  shows "vw_seconds (settled now v) = accounted now v"
proof (cases "vw_status v = ''active''")
  case True
  with assms(1) obtain wc where wc: "vw_clock v = Some wc" "wc_goal wc = vw_id v" "0 < wc_last wc"
    "wc_last wc \<le> now" "wc_goal wc \<noteq> []" by (auto simp: clock_ok_def)
  have "view_elapsed now v = now - wc_last wc"
    using assms(2) by (intro view_elapsed_clock wc) (auto simp: times_ok_def)
  with True wc assms(2) show ?thesis by (simp add: settled_def accounted_def times_ok_def i64_id)
next
  case False
  then show ?thesis by (simp add: settled_def accounted_def)
qed

lemma settled_fields [simp]:
  "vw_id (settled now v) = vw_id v" "vw_status (settled now v) = vw_status v"
  "vw_mode (settled now v) = vw_mode v"
  by (simp_all add: settled_def)

lemma settled_clock: "clock_ok now v \<Longrightarrow> vw_clock (settled now v) = Some wc \<Longrightarrow> wc_goal wc \<noteq> [] \<and> vw_status v \<noteq> ''active''"
  by (auto simp: settled_def clock_ok_def split: if_splits)

lemma marked_fields [simp]:
  "vw_id (marked now st v) = vw_id v" "vw_status (marked now st v) = st" "vw_mode (marked now st v) = vw_mode v"
  "vw_seconds (marked now st v) = vw_seconds v" "vw_clock (marked now st v) = vw_clock v"
  "vw_updated (marked now st v) = now"
  by (simp_all add: marked_def)

lemma started_fields [simp]:
  "vw_id (started now v) = vw_id v" "vw_status (started now v) = vw_status v" "vw_mode (started now v) = vw_mode v"
  "vw_seconds (started now v) = vw_seconds v" "vw_updated (started now v) = vw_updated v"
  "vw_clock (started now v) = (if vw_id v = [] then vw_clock v else Some \<lparr>wc_goal = vw_id v, wc_last = now\<rparr>)"
  by (simp_all add: started_def)

text \<open>A goal marked now and started now has booked everything.\<close>

lemma started_accounted:
  assumes "vw_updated v = now" "0 < now" "vw_id v = [] \<longrightarrow> (\<forall>wc. vw_clock v = Some wc \<longrightarrow> wc_goal wc \<noteq> [])"
  shows "accounted now (started now v) = vw_seconds v"
  using assms by (auto simp: accounted_def view_elapsed_def Let_def split: option.split)


lemma step_time:
  assumes "goal_step now op v v'" "clock_ok now v" "times_ok now v"
    "\<And>ob b. op \<noteq> OpCreate ob b" "\<And>b. op \<noteq> OpSetBudget b" "vw_status v \<noteq> []"
  shows "accounted now v' = accounted now v"
proof -
  have pos: "0 < now" using assms(3) by (simp add: times_ok_def)
  note booked = settled_accounted [OF assms(2,3)]
  have clk: "wc_goal wc \<noteq> []" if "vw_clock (settled now v) = Some wc" for wc
    using settled_clock [OF assms(2) that] by blast
  have raw: "wc_goal wc \<noteq> []" if "vw_clock v = Some wc" for wc
    using assms(2) that by (simp add: clock_ok_def)
  from assms(1) show ?thesis
  proof cases
    case (step_replace ob b gid)
    show ?thesis unfolding step_replace(2)
      by (subst started_accounted) (use pos clk booked assms(6) in auto)
  next
    case step_resume
    have "accounted now v' = vw_seconds v"
      unfolding step_resume(2) by (subst started_accounted) (use pos raw in auto)
    with step_resume show ?thesis by (auto simp: accounted_def)
  next
    case (step_turn u)
    show ?thesis unfolding step_turn(2)
      by (subst started_accounted) (use pos clk booked in auto)
  next
    case step_edit
    from step_edit assms(2) obtain wc where wc: "vw_clock v = Some wc" "wc_goal wc = vw_id v"
      "0 < wc_last wc" "wc_last wc \<le> now" by (auto simp: clock_ok_def)
    have now: "now < 2 ^ 63" using assms(3) by (simp add: times_ok_def)
    have "view_elapsed now v' = now - wc_last wc"
      by (rule view_elapsed_clock) (use wc now step_edit(1) in simp_all)
    moreover have "view_elapsed now v = now - wc_last wc"
      by (rule view_elapsed_clock) (use wc now in simp_all)
    ultimately show ?thesis using step_edit by (simp add: accounted_def)
  qed (use assms(4,5) booked in \<open>auto simp: accounted_def\<close>)
qed

lemma run_op_step:
  assumes "run_op ev now sid op r = (r', True)" "view sid r = Some v"
  obtains v' where "view sid r' = Some v'" "v' = v \<or> goal_step now op v v'"
proof -
  from run_op_ok [OF assms(1)] have "view_step now op (view sid r) (view sid r')" by (simp add: op_ok_def)
  then show thesis
  proof (unfold view_step_def, elim disjE conjE exE)
    assume "view sid r = view sid r'"
    then show thesis by (intro that [of v]) (simp_all add: assms(2))
  next
    fix w v'
    assume "view sid r = Some w" "view sid r' = Some v'" "goal_step now op w v'"
    then show thesis using assms(2) by (intro that [of v']) simp_all
  qed
qed

text \<open>
  C29. No operation except the creation of a goal and a change of its budget gains or loses
  active time: when the clock of an active goal is running, a call that succeeds at time
  \<open>now\<close> leaves booked seconds plus the seconds still on the clock as they were.
\<close>

theorem active_time_conserved:
  assumes "run_op ev now sid op r = (r', True)" "view sid r = Some v" "clock_ok now v" "times_ok now v"
    "\<And>ob b. op \<noteq> OpCreate ob b" "\<And>b. op \<noteq> OpSetBudget b" "vw_status v \<noteq> []"
  shows "\<exists>v'. view sid r' = Some v' \<and> accounted now v' = accounted now v"
proof -
  obtain v' where "view sid r' = Some v'" "v' = v \<or> goal_step now op v v'" by (rule run_op_step [OF assms(1,2)])
  with step_time [OF _ assms(3-7)] show ?thesis by blast
qed

theorem active_time_conserved_witness:
  "\<exists>r' v'. run_op (\<lambda>_. ex_env) 160 ''s'' OpPause (ex_runtime ex_goal) = (r', True) \<and>
     view ''s'' r' = Some v' \<and> accounted 160 v' = 60"
proof -
  let ?v = "view_goal ''default'' ex_goal (Some \<lparr>wc_goal = ''g'', wc_last = 100\<rparr>)"
  obtain r' where r': "run_op (\<lambda>_. ex_env) 160 ''s'' OpPause (ex_runtime ex_goal) = (r', True)"
    using ex_pause by blast
  have v: "view ''s'' (ex_runtime ex_goal) = Some ?v" using ex_view [of ex_goal] by (simp add: ex_goal_def)
  have ok: "clock_ok 160 ?v" "times_ok 160 ?v" "vw_status ?v \<noteq> []"
    by (simp_all add: clock_ok_def times_ok_def ex_goal_def no_goal_def)
  have "accounted 160 ?v = 60" by (simp add: accounted_def view_elapsed_def ex_goal_def no_goal_def i64_id)
  with active_time_conserved [OF r' v ok(1,2) _ _ ok(3)] r' show ?thesis by auto
qed

text \<open>
  Changing the budget never books time: when the new budget stops an active goal, its
  seconds stay as they were and its clock is left behind, so that the time since the clock was
  started is not accounted for any more.
\<close>

theorem set_budget_books_no_time:
  assumes "run_op ev now sid (OpSetBudget b) r = (r', True)" "view sid r = Some v"
  shows "\<exists>v'. view sid r' = Some v' \<and> vw_seconds v' = vw_seconds v \<and>
    (vw_status v = ''active'' \<and> vw_status v' \<noteq> ''active'' \<longrightarrow>
       vw_status v' = ''budget-limited'' \<and> vw_clock v' = vw_clock v \<and> accounted now v' = vw_seconds v)"
proof -
  obtain v' where v': "view sid r' = Some v'" "v' = v \<or> goal_step now (OpSetBudget b) v v'"
    by (rule run_op_step [OF assms])
  from v'(2) have "vw_seconds v' = vw_seconds v \<and> (vw_status v = ''active'' \<and> vw_status v' \<noteq> ''active'' \<longrightarrow>
       vw_status v' = ''budget-limited'' \<and> vw_clock v' = vw_clock v \<and> accounted now v' = vw_seconds v)"
    by (elim disjE goal_step.cases) (auto simp: accounted_def)
  with v'(1) show ?thesis by blast
qed

definition ex_spent :: goal where
  "ex_spent = ex_goal\<lparr>gl_tokens_used := 10\<rparr>"

theorem set_budget_books_no_time_witness:
  "\<exists>r' v'. run_op (\<lambda>_. ex_env) 160 ''s'' (OpSetBudget 5) (ex_runtime ex_spent) = (r', True) \<and>
     map_option (accounted 160) (view ''s'' (ex_runtime ex_spent)) = Some 60 \<and>
     view ''s'' r' = Some v' \<and> vw_seconds v' = 0"
proof -
  have g: "is_active (se_goal (ex_read ex_spent))" "gl_status (se_goal (ex_read ex_spent)) \<noteq> []"
    by (simp_all add: is_active_def ex_read_fields ex_spent_def ex_goal_def)
  let ?x = "ex_read ex_spent"
  let ?g1 = "(se_goal ?x)\<lparr>gl_token_budget := 5, gl_status := ''budget-limited'', gl_updated := 160\<rparr>"
  have b: "is_budget_exhausted ((se_goal ?x)\<lparr>gl_token_budget := 5\<rparr>)"
    by (simp add: is_budget_exhausted_def has_budget_def remaining_tokens_def ex_read_fields ex_spent_def ex_goal_def i64_id)
  obtain r' y where "save_goal ex_env ?x ?g1 (ex_runtime ex_spent) = (r', Inr y)"
    using ex_save [of "ex_runtime ex_spent"] by metis
  then have r': "run_op (\<lambda>_. ex_env) 160 ''s'' (OpSetBudget 5) (ex_runtime ex_spent) = (r', True)"
    using b g by (simp add: run_op_def set_budget_goal_def ex_get Let_def settle_wall_clock_def is_active_def succeeded_def)
  have "map_option (accounted 160) (view ''s'' (ex_runtime ex_spent)) = Some 60"
    by (simp add: ex_view accounted_def view_elapsed_def ex_spent_def ex_goal_def no_goal_def i64_id)
  with set_budget_books_no_time [OF r' ex_view] r' show ?thesis
    by (auto simp: ex_spent_def ex_goal_def no_goal_def)
qed

section \<open>Statuses and modes\<close>

text \<open>
  A complete, dropped or stalled goal stays as it is until a new goal takes its place,
  except that it can be dropped; and an operation that succeeds on a session in plan mode or in
  paused plan mode never starts a new goal or resumes a paused one.
\<close>

theorem terminal_goal_stays:
  assumes "run_op ev now sid op r = (r', True)" "view sid r = Some v"
  shows "\<exists>v'. view sid r' = Some v' \<and>
    (vw_status v \<in> {''complete'', ''dropped'', ''stalled''} \<and>
       (\<forall>ob b. op \<noteq> OpCreate ob b \<and> op \<noteq> OpReplace ob b) \<longrightarrow>
     vw_status v' = vw_status v \<or> vw_status v' = ''dropped'') \<and>
    (vw_mode v \<in> {''plan'', ''plan_paused''} \<longrightarrow>
     vw_id v' = vw_id v \<and> (vw_status v' = ''active'' \<longrightarrow> vw_status v \<in> {''active'', ''budget-limited''}))"
proof -
  obtain v' where v': "view sid r' = Some v'" "v' = v \<or> goal_step now op v v'"
    by (rule run_op_step [OF assms])
  from v'(2) have "(vw_status v \<in> {''complete'', ''dropped'', ''stalled''} \<and>
       (\<forall>ob b. op \<noteq> OpCreate ob b \<and> op \<noteq> OpReplace ob b) \<longrightarrow>
     vw_status v' = vw_status v \<or> vw_status v' = ''dropped'') \<and>
    (vw_mode v \<in> {''plan'', ''plan_paused''} \<longrightarrow>
     vw_id v' = vw_id v \<and> (vw_status v' = ''active'' \<longrightarrow> vw_status v \<in> {''active'', ''budget-limited''}))"
    by (elim disjE goal_step.cases) (auto simp: free_mode_def)
  with v'(1) show ?thesis by blast
qed

theorem terminal_goal_stays_witness:
  "\<exists>r' v'. run_op (\<lambda>_. ex_env) 160 ''s'' OpPause (ex_runtime ex_goal) = (r', True) \<and>
     view ''s'' r' = Some v'"
proof -
  obtain r' where r': "run_op (\<lambda>_. ex_env) 160 ''s'' OpPause (ex_runtime ex_goal) = (r', True)"
    using ex_pause by blast
  with terminal_goal_stays [OF r' ex_view] show ?thesis by blast
qed

end
