(* ===== verification/Plan_Exclusion.thy ===== *)
theory Plan_Exclusion
  imports Goal_Properties
begin

text \<open>
  Plan mode and goals: the guards of the goal runtime and of the session service keep them apart
  in every sequence of complete calls, and fail to when the calls of two of them interleave.
\<close>

section \<open>The invariant\<close>

definition goal_free_plan :: "session_row \<Rightarrow> bool" where
  "goal_free_plan row \<longleftrightarrow>
     (normalize_collaboration_mode (sr_collaboration row) = ''plan'' \<longrightarrow>
        gc_status (sr_goal row) \<notin> {''active'', ''paused'', ''budget-limited''})"

definition plan_exclusive :: "tables \<Rightarrow> bool" where
  "plan_exclusive tb \<longleftrightarrow> (\<forall>i row. find_row i tb = Some row \<longrightarrow> goal_free_plan row)"

lemma plan_exclusive_other:
  assumes "plan_exclusive tb" "\<And>i. i \<noteq> sid \<Longrightarrow> find_row i tb' = find_row i tb"
    "\<And>row. find_row sid tb' = Some row \<Longrightarrow> goal_free_plan row"
  shows "plan_exclusive tb'"
  unfolding plan_exclusive_def
proof (intro allI impI)
  fix i row
  assume "find_row i tb' = Some row"
  with assms show "goal_free_plan row" by (cases "i = sid") (auto simp: plan_exclusive_def)
qed

lemma step_plan:
  "goal_step now op v v' \<Longrightarrow> vw_mode v = ''plan'' \<longrightarrow> vw_status v \<notin> {''active'', ''paused'', ''budget-limited''} \<Longrightarrow>
   vw_mode v' = vw_mode v \<and> (vw_mode v' = ''plan'' \<longrightarrow> vw_status v' \<notin> {''active'', ''paused'', ''budget-limited''})"
  by (induction rule: goal_step.cases) (auto simp: free_mode_def)

lemma goal_free_plan_view:
  "view_of row c = v \<Longrightarrow> goal_free_plan row \<longleftrightarrow>
     (vw_mode v = ''plan'' \<longrightarrow> vw_status v \<notin> {''active'', ''paused'', ''budget-limited''})"
  by (auto simp: goal_free_plan_def view_of_def)

lemma run_op_plan_exclusive:
  assumes "run_op ev now sid op r = (r', ok)" "plan_exclusive (rows_of r)"
  shows "plan_exclusive (rows_of r')"
proof (rule plan_exclusive_other [OF assms(2), of sid])
  have ok: "op_ok now sid op r r' ok" by (rule run_op_ok [OF assms(1)])
  show "find_row i (rows_of r') = find_row i (rows_of r)" if "i \<noteq> sid" for i
    using ok that by (simp add: op_ok_def)
  show "goal_free_plan row" if row: "find_row sid (rows_of r') = Some row" for row
  proof (cases "rows_of r' = rows_of r")
    case True
    with row assms(2) show ?thesis by (simp add: plan_exclusive_def)
  next
    case False
    with ok have st: "view_step now op (view sid r) (view sid r')" by (auto simp: op_ok_def split: if_splits)
    have v': "view sid r' = Some (view_of row (gr_clocks r' sid))" by (simp add: view_def row)
    with st obtain row0 where row0: "find_row sid (rows_of r) = Some row0"
      by (auto simp: view_step_def view_def)
    then have v: "view sid r = Some (view_of row0 (gr_clocks r sid))" by (simp add: view_def)
    have "goal_free_plan row0" using row0 assms(2) by (simp add: plan_exclusive_def)
    note free = this [unfolded goal_free_plan_view [OF refl, of row0 "gr_clocks r sid"]]
    from st have "view_of row0 (gr_clocks r sid) = view_of row (gr_clocks r' sid) \<or>
        goal_step now op (view_of row0 (gr_clocks r sid)) (view_of row (gr_clocks r' sid))"
      by (auto simp: view_step_def v v')
    with free step_plan [OF _ free] show ?thesis
      by (auto simp: goal_free_plan_view [OF refl, of row "gr_clocks r' sid"])
  qed
qed

lemma update_rows:
  assumes "query_update fails now i g f tb = (tb', res)" "\<And>row. sr_id (f row) = sr_id row"
  shows "(\<forall>j. j \<noteq> i \<longrightarrow> find_row j tb' = find_row j tb) \<and>
    (tb' = tb \<and> isl res \<or> (\<exists>row. find_row i tb = Some row \<and> res = Inr (f row) \<and>
       find_row i tb' = Some ((f row)\<lparr>sr_updated := now\<rparr>)))"
proof (cases "\<exists>row. \<not> fails \<and> find_row i tb = Some row \<and> g row \<and> row_ok (f row)")
  case True
  then obtain row where row: "\<not> fails" "find_row i tb = Some row" "g row" "row_ok (f row)" by blast
  then have id: "sr_id row = i" by (auto simp: find_row_def find_Some_iff)
  from row assms(1) have "tb' = put_row ((f row)\<lparr>sr_updated := now\<rparr>) tb" "res = Inr (f row)"
    by (simp_all add: query_update_def)
  with row id assms(2) show ?thesis by (auto simp: find_put_row find_put_row_other)
next
  case False
  with assms(1) show ?thesis by (auto simp: query_update_def split: if_splits option.splits)
qed


lemma transition_plan:
  assumes "normalize_collaboration_mode (ms_collaboration (mt_current (new_mode_transition x (Some mode) None))) = ''plan''"
  shows "mode = ''plan''"
  using assms by (auto simp: new_mode_transition_def with_collaboration_mode_def normalize_mode_state_def
        normalize_collaboration_mode_def Let_def split: if_splits)

lemma checked_goal_free:
  assumes "get_session e i s = Inr x" "collaboration_check ''plan'' x = None"
    "find_row i (ss_tables s) = Some row" "goal_free_plan row"
  shows "goal_free_plan (row\<lparr>sr_collaboration := ''plan''\<rparr>)"
proof -
  from assms(1,3) have x: "x = from_db_item e row"
    by (auto simp: get_session_def query_session_def split: sum.splits if_splits option.splits)
  have st: "gl_status (se_goal x) = gc_status (sr_goal row)"
    "is_active_plan_mode x \<longleftrightarrow> normalize_collaboration_mode (sr_collaboration row) = ''plan''"
    by (simp_all add: x from_db_item_def goal_from_columns_def is_active_plan_mode_def)
  show ?thesis
    using assms(2,4) st by (auto simp: goal_free_plan_def collaboration_check_def validate_enter_plan_mode_def
        occupies_session_def split: if_splits)
qed

lemma ensure_rows:
  assumes "ensure_plan_file e y s = (s', res)" "se_id y = i"
  shows "(\<forall>j. j \<noteq> i \<longrightarrow> find_row j (ss_tables s') = find_row j (ss_tables s)) \<and>
    (ss_tables s' = ss_tables s \<or>
     (\<exists>row. find_row i (ss_tables s') = Some row \<and> gc_status (sr_goal row) = gl_status (se_goal y)))"
proof -
  from assms(1) consider "ss_tables s' = ss_tables s"
    | e' path where "save_session e' (y\<lparr>se_plan_path := path\<rparr>) s = (s', res)"
    by (auto simp: ensure_plan_file_def split: option.splits if_splits)
  then show ?thesis
  proof cases
    case (2 e' path)
    let ?z = "y\<lparr>se_plan_path := path\<rparr>"
    obtain tb q where q: "query_update (en_fail e' 0) (en_now e') (se_id ?z) (\<lambda>_. True) (saved_row e' ?z) (ss_tables s) = (tb, q)"
      by fastforce
    have tb: "ss_tables s' = tb"
      using 2 q by (auto simp: save_session_def publish_session_def Let_def split: prod.splits sum.splits)
    have id: "se_id ?z = i" using assms(2) by simp
    have "sr_id (saved_row e' ?z row) = sr_id row" "gc_status (sr_goal (saved_row e' ?z row)) = gl_status (se_goal y)" for row
      by (simp_all add: saved_row_def goal_to_columns_def)
    with update_rows [OF q [unfolded id]] tb show ?thesis by auto
  qed simp
qed

lemma write_mode_plan_exclusive:
  assumes "plan_exclusive (ss_tables s)" "get_session e i s = Inr x" "collaboration_check mode x = None"
    "write_collaboration_mode e i mode x s = (s', res)"
  shows "plan_exclusive (ss_tables s')"
proof -
  let ?m = "ms_collaboration (mt_current (new_mode_transition x (Some mode) None))"
  obtain tb q where q: "query_update (en_fail e 1) (en_now e) i (\<lambda>_. True) (sr_collaboration_update (\<lambda>_. ?m)) (ss_tables s) = (tb, q)"
    by fastforce
  have rows: "(\<forall>j. j \<noteq> i \<longrightarrow> find_row j tb = find_row j (ss_tables s)) \<and>
    (tb = ss_tables s \<and> isl q \<or> (\<exists>row. find_row i (ss_tables s) = Some row \<and> q = Inr (row\<lparr>sr_collaboration := ?m\<rparr>) \<and>
       find_row i tb = Some (row\<lparr>sr_collaboration := ?m, sr_updated := en_now e\<rparr>)))"
    using update_rows [OF q] by simp
  show ?thesis
  proof (cases "ss_tables s' = ss_tables s")
    case False
    then have changed: "transition_changed (new_mode_transition x (Some mode) None)"
      using assms(4) by (auto simp: write_collaboration_mode_def Let_def split: if_splits)
    have "\<not> isl q"
      using assms(4) changed q rows False
      by (auto simp: write_collaboration_mode_def Let_def isl_def split: if_splits sum.splits)
    with rows obtain row where row: "find_row i (ss_tables s) = Some row" "q = Inr (row\<lparr>sr_collaboration := ?m\<rparr>)"
       "find_row i tb = Some (row\<lparr>sr_collaboration := ?m, sr_updated := en_now e\<rparr>)" by blast
    have free: "goal_free_plan row" using assms(1) row(1) by (simp add: plan_exclusive_def)
    have new: "goal_free_plan (row\<lparr>sr_collaboration := ?m\<rparr>)"
    proof (cases "normalize_collaboration_mode ?m = ''plan''")
      case True
      then have "mode = ''plan''" by (rule transition_plan)
      with assms(3) have chk: "collaboration_check ''plan'' x = None" by simp
      from checked_goal_free [OF assms(2) chk row(1) free] True show ?thesis by (simp add: goal_free_plan_def normalize_collaboration_mode_def)
    qed (simp add: goal_free_plan_def)
    let ?y = "(from_db_item e (row\<lparr>sr_collaboration := ?m\<rparr>))\<lparr>se_estimated := se_estimated x\<rparr>"
    have y: "se_id ?y = i" "gl_status (se_goal ?y) = gc_status (sr_goal row)"
      "se_collaboration ?y = normalize_collaboration_mode ?m"
      using row(1) by (auto simp: from_db_item_def goal_from_columns_def find_row_def find_Some_iff)
    obtain s2 res2 where en: "(if se_collaboration ?y = ''plan'' then ensure_plan_file e ?y (s\<lparr>ss_tables := tb\<rparr>)
        else (s\<lparr>ss_tables := tb\<rparr>, Inr ?y)) = (s2, res2)" by fastforce
    have s': "ss_tables s' = ss_tables s2"
      using assms(4) changed q row(2) en
      by (auto simp: write_collaboration_mode_def Let_def publish_session_def split: sum.splits)
    have "(\<forall>j. j \<noteq> i \<longrightarrow> find_row j (ss_tables s2) = find_row j tb) \<and>
        (ss_tables s2 = tb \<or> se_collaboration ?y = ''plan'' \<and>
          (\<exists>row2. find_row i (ss_tables s2) = Some row2 \<and> gc_status (sr_goal row2) = gl_status (se_goal ?y)))"
    proof (cases "se_collaboration ?y = ''plan''")
      case True
      with en ensure_rows [OF _ y(1), of e "s\<lparr>ss_tables := tb\<rparr>" s2 res2] show ?thesis by auto
    next
      case False
      with en show ?thesis by auto
    qed
    then have rest: "\<forall>j. j \<noteq> i \<longrightarrow> find_row j (ss_tables s2) = find_row j (ss_tables s)"
      and own: "ss_tables s2 = tb \<or> se_collaboration ?y = ''plan'' \<and>
          (\<exists>row2. find_row i (ss_tables s2) = Some row2 \<and> gc_status (sr_goal row2) = gl_status (se_goal ?y))"
      using rows by simp_all
    show ?thesis unfolding s'
    proof (rule plan_exclusive_other [OF assms(1), of i])
      show "goal_free_plan row2" if row2: "find_row i (ss_tables s2) = Some row2" for row2
        using own
      proof
        assume "ss_tables s2 = tb"
        with row2 row(3) have "row2 = row\<lparr>sr_collaboration := ?m, sr_updated := en_now e\<rparr>" by simp
        with new show ?thesis by (simp add: goal_free_plan_def)
      next
        assume "se_collaboration ?y = ''plan'' \<and>
          (\<exists>row2. find_row i (ss_tables s2) = Some row2 \<and> gc_status (sr_goal row2) = gl_status (se_goal ?y))"
        with row2 y have "gc_status (sr_goal row2) = gc_status (sr_goal row)" "normalize_collaboration_mode ?m = ''plan''"
          by simp_all
        with new show ?thesis by (simp add: goal_free_plan_def)
      qed
    qed (use rest in simp)
  qed (use assms(1) in simp)
qed

text \<open>
  C30. Plan mode and a goal that is active, paused or out of budget exclude each other: no
  operation of the goal runtime and no change of the collaboration mode, complete or failing at
  any of its calls, leaves a session with both when no session had both before.
\<close>

theorem plan_excludes_goal:
  assumes "plan_exclusive (rows_of r)"
  shows "plan_exclusive (rows_of (fst (run_op ev now sid op r))) \<and>
    plan_exclusive (ss_tables (fst (update_collaboration_mode e i mode (gr_sessions r))))"
proof
  show "plan_exclusive (rows_of (fst (run_op ev now sid op r)))"
    using run_op_plan_exclusive [OF prod.collapse [symmetric] assms] by blast
  show "plan_exclusive (ss_tables (fst (update_collaboration_mode e i mode (gr_sessions r))))"
    using write_mode_plan_exclusive [OF assms _ _ prod.collapse [symmetric], of e i _ mode] assms
    by (auto simp: update_collaboration_mode_def split: sum.splits option.splits)
qed

theorem plan_excludes_goal_witness:
  "plan_exclusive (rows_of (ex_runtime ex_goal)) \<and>
   plan_exclusive (rows_of (fst (run_op (\<lambda>_. ex_env) 160 ''s'' OpPause (ex_runtime ex_goal)))) \<and>
   plan_exclusive (ss_tables (fst (update_collaboration_mode ex_env ''s'' ''plan'' (gr_sessions (ex_runtime ex_goal)))))"
proof -
  have "plan_exclusive (rows_of (ex_runtime ex_goal))"
    by (auto simp: plan_exclusive_def ex_runtime_def new_runtime_def find_row_def ex_goal_row_def ex_row_def
        created_row_def goal_free_plan_def normalize_collaboration_mode_def split: if_splits)
  with plan_excludes_goal [OF this] show ?thesis by blast
qed

text \<open>
  The calls of the session service that a change to plan mode makes are not one
  transaction: when a goal is created between the read that checks the session and the write of
  the mode, both succeed and leave an active goal in plan mode.
\<close>

theorem plan_mode_race:
  "\<exists>x r1 g s2 y. get_session ex_env ''s'' (gr_sessions (ex_runtime no_goal)) = Inr x \<and>
     collaboration_check ''plan'' x = None \<and>
     create_goal (\<lambda>_. ex_env) 160 ''s'' ''ship it'' 0 (ex_runtime no_goal) = (r1, Inr g) \<and>
     write_collaboration_mode ex_env ''s'' ''plan'' x (gr_sessions r1) = (s2, Inr y) \<and>
     is_active_plan_mode y \<and> is_active (se_goal y)"
proof -
  let ?x = "ex_read no_goal"
  have x: "get_session ex_env ''s'' (gr_sessions (ex_runtime no_goal)) = Inr ?x"
    using ex_get [of no_goal] by (auto simp: runtime_get_def split: sum.splits)
  have st: "gl_status (se_goal ?x) = []" by (simp add: ex_read_fields no_goal_def)
  have mode: "se_collaboration ?x = ''default''"
    by (simp add: ex_read_def from_db_item_def ex_goal_row_def ex_row_def created_row_def normalize_collaboration_mode_def)
  have chk: "collaboration_check ''plan'' ?x = None"
    using st by (simp add: collaboration_check_def validate_enter_plan_mode_def occupies_session_def)
  let ?g = "fresh_goal (en_id ex_env) ''ship it'' 0 160 (ex_runtime no_goal)"
  let ?r0 = "start_wall_clock ''s'' (gl_id ?g) 160 (ex_runtime no_goal)"
  have "live ''s'' (ex_goal_row no_goal) ?r0" using ex_live [of no_goal] by (simp add: live_def start_view)
  then obtain r1 g row where sv: "save_goal ex_env ?x ?g ?r0 = (r1, Inr g)" "live ''s'' row r1"
      "sr_goal row = goal_to_columns ex_env ?g"
      "row = (saved_row ex_env (?x\<lparr>se_goal := ?g\<rparr>) (ex_goal_row no_goal))\<lparr>sr_updated := en_now ex_env\<rparr>"
    by (rule live_save [OF _ ex_calm ex_read_def])
  have cr: "create_goal (\<lambda>_. ex_env) 160 ''s'' ''ship it'' 0 (ex_runtime no_goal) = (r1, Inr g)"
    using sv(1) st mode by (simp add: create_goal_def ex_get validate_goal_work_def is_plan_flow_def is_active_def
        normalize_collaboration_mode_def)
  have row: "find_row ''s'' (rows_of r1) = Some row" "row_ok (row\<lparr>sr_collaboration := ''plan''\<rparr>)" "sr_id row = ''s''"
    using sv(2) live_id [OF sv(2)] by (simp_all add: live_def row_ok_def)
  have path: "sr_plan_path row = ''p''"
    by (simp add: sv(4) saved_row_def ex_read_def from_db_item_def ex_goal_row_def ex_row_def created_row_def)
  have trim: "trim_space ''p'' \<noteq> []" by code_simp
  let ?t = "new_mode_transition ?x (Some ''plan'') None"
  have t: "transition_changed ?t" "ms_collaboration (mt_current ?t) = ''plan''"
    by (simp_all add: new_mode_transition_def with_collaboration_mode_def normalize_mode_state_def
        mode_state_from_session_def transition_changed_def mode normalize_collaboration_mode_def)
  let ?row = "row\<lparr>sr_collaboration := ''plan''\<rparr>"
  obtain tb where q: "query_update False (en_now ex_env) ''s'' (\<lambda>_. True) (sr_collaboration_update (\<lambda>_. ''plan'')) (rows_of r1) =
      (tb, Inr ?row)"
    using row by (simp add: query_update_def)
  let ?y = "(from_db_item ex_env ?row)\<lparr>se_estimated := se_estimated ?x\<rparr>"
  have y: "se_collaboration ?y = ''plan''" "se_plan_path ?y = ''p''"
    by (simp_all add: from_db_item_def path normalize_collaboration_mode_def)
  have "ensure_plan_file ex_env ?y s = (s, Inr ?y)" for s
    using y(2) trim by (simp add: ensure_plan_file_def ex_env_def)
  then have wr: "write_collaboration_mode ex_env ''s'' ''plan'' ?x (gr_sessions r1) =
      (publish_session UpdatedEvent ?y ((gr_sessions r1)\<lparr>ss_tables := tb\<rparr>), Inr ?y)"
    using t q y(1) ex_calm by (simp add: write_collaboration_mode_def Let_def calm_def)
  have "is_active_plan_mode ?y" "is_active (se_goal ?y)"
    by (simp_all add: is_active_plan_mode_def y(1) normalize_collaboration_mode_def is_active_def
        from_db_item_def goal_from_columns_def sv(3) goal_to_columns_def fresh_goal_def)
  with x chk cr wr show ?thesis by blast
qed

end
