(* ===== verification/Goal_Turns.thy ===== *)
theory Goal_Turns
  imports Goal_Calls
begin

text \<open>
  The turns of an autonomous session: what a turn may leave, why the session ends, when its goal
  may be completed, and the reports of subagents that arrive between the turns.
\<close>

section \<open>Turns that succeed\<close>



lemma live_post_turn:
  assumes "live sid row r" "\<And>k. calm (ev k)" "gr_snapshots r sid = Some sn" "sn_goal sn = gc_id (sr_goal row)"
  obtains r' g ex row' where "post_turn ev now sid u r = (r', Inr (g, ex))" "live sid row' r'"
    "gc_status (sr_goal row) \<noteq> ''active'' \<longrightarrow> row' = row"
    "gc_status (sr_goal row) = ''active'' \<and> gc_status (sr_goal row') = ''active'' \<longrightarrow>
       gc_max_iterations (sr_goal row') = gc_max_iterations (sr_goal row) \<and>
       gc_iterations (sr_goal row') = i64 (gc_iterations (sr_goal row) + 1) \<and>
       gc_iterations (sr_goal row') < gc_max_iterations (sr_goal row)"
proof -
  let ?r = "r\<lparr>gr_snapshots := (gr_snapshots r)(sid := None)\<rparr>"
  let ?x = "from_db_item (ev 0) row"
  have lv: "live sid row ?r" using assms(1) by (simp add: live_def)
  have get: "runtime_get (ev 0) sid ?r = Inr ?x" by (rule live_get [OF lv assms(2)])
  have g: "gl_status (se_goal ?x) = gc_status (sr_goal row)" "gl_id (se_goal ?x) = gc_id (sr_goal row)"
    "gl_iterations (se_goal ?x) = gc_iterations (sr_goal row)"
    "gl_max_iterations (se_goal ?x) = gc_max_iterations (sr_goal row)"
    by (simp_all add: from_db_item_fields goal_from_columns_def)
  show thesis
  proof (cases "is_active (se_goal ?x)")
    case False
    then have "post_turn ev now sid u r = (?r, Inr (se_goal ?x, False))"
      using get assms(3) by (simp add: post_turn_def Let_def)
    with lv False g(1) show ?thesis by (intro that [of ?r "se_goal ?x" False row]) (simp_all add: is_active_def)
  next
    case True
    let ?g1 = "(se_goal ?x)\<lparr>gl_tokens_used := i64 (gl_tokens_used (se_goal ?x) + usage_delta u (sn_baseline sn))\<rparr>"
    obtain r2 g2 where st: "settle_wall_clock sid ?g1 now ?r = (r2, g2)" by fastforce
    obtain g4 ex where lim: "turn_limits (en_now (ev 1)) (turn_counters sn now g2) = (g4, ex)" by fastforce
    let ?r3 = "if is_active g4 then start_wall_clock sid (gl_id g4) now r2 else r2"
    have "live sid row ?r3" using lv settle_view(2) [OF st] by (simp add: live_def start_view)
    then obtain r' y row' where sv: "save_goal (ev 1) ?x g4 ?r3 = (r', Inr y)" "live sid row' r'"
      "sr_goal row' = goal_to_columns (ev 1) g4"
      by (rule live_save [OF _ assms(2) refl])
    have pt: "post_turn ev now sid u r = (r', Inr (g4, ex))"
      using get True assms(3,4) st lim sv(1) g(2) by (simp add: post_turn_def Let_def)
    have g2: "gl_iterations g2 = gc_iterations (sr_goal row)" "gl_max_iterations g2 = gc_max_iterations (sr_goal row)"
      using settle_view(5) [OF st] g by auto
    have c: "gl_iterations (turn_counters sn now g2) = i64 (gl_iterations g2 + 1)"
      "gl_max_iterations (turn_counters sn now g2) = gl_max_iterations g2"
      by (simp_all add: turn_counters_def Let_def)
    have g4: "g4 = fst (turn_limits (en_now (ev 1)) (turn_counters sn now g2))" by (simp only: lim fst_conv)
    have "gl_status g4 = ''active'' \<Longrightarrow> gl_iterations (turn_counters sn now g2) < gl_max_iterations (turn_counters sn now g2)"
      unfolding g4 turn_limits_status by (auto split: if_splits)
    with pt sv(2) g2 c True show ?thesis
      by (intro that [of r' g4 ex row']) (simp_all add: sv(3) goal_to_columns_def g4 turn_limits_fields is_active_def g)
  qed
qed

section \<open>Limits\<close>

text \<open>
  C31. After a turn of its own goal an active session is within all its limits: fewer iterations
  than the maximum, a stall streak below the cap, budget left. The report that the budget is
  exhausted comes exactly when it is, and no other status than the three of the limits can
  come out of a turn.
\<close>

theorem post_turn_within_limits:
  assumes "post_turn ev now sid u r = (r', Inr (g, exhausted))" "view sid r = Some v"
    "vw_status v = ''active''" "gr_snapshots r sid = Some sn" "sn_goal sn = vw_id v"
  shows "(gl_status g = ''active'' \<longrightarrow>
      gl_iterations g < gl_max_iterations g \<and> gl_no_progress g < gl_block_cap g \<and> \<not> is_budget_exhausted g) \<and>
    (exhausted \<longleftrightarrow> is_budget_exhausted g) \<and>
    gl_status g \<in> {''active'', ''budget-limited'', ''dropped'', ''stalled''}"
proof -
  let ?r = "r\<lparr>gr_snapshots := (gr_snapshots r)(sid := None)\<rparr>"
  from assms(1) obtain x where x: "runtime_get (ev 0) sid ?r = Inr x"
    by (auto simp: post_turn_def Let_def split: sum.splits)
  then obtain row where row: "find_row sid (rows_of r) = Some row" "se_goal x = goal_from_columns (ev 0) (sr_goal row)"
    by (rule runtime_get_Inr) simp_all
  with assms(2) have v: "v = view_of row (gr_clocks r sid)" by (simp add: view_def)
  have act: "is_active (se_goal x)" "gl_id (se_goal x) = sn_goal sn"
    using assms(3,5) by (simp_all add: v view_of_def row(2) goal_from_columns_def is_active_def)
  let ?g1 = "(se_goal x)\<lparr>gl_tokens_used := i64 (gl_tokens_used (se_goal x) + usage_delta u (sn_baseline sn))\<rparr>"
  obtain r2 g2 where st: "settle_wall_clock sid ?g1 now ?r = (r2, g2)" by fastforce
  let ?c = "turn_counters sn now g2"
  have g: "turn_limits (en_now (ev 1)) ?c = (g, exhausted)"
    using assms(1,4) x act st by (auto simp: post_turn_def Let_def split: prod.splits sum.splits)
  have "gl_status g2 = ''active''" using settle_view(5) [OF st] act(1) by (auto simp: is_active_def)
  then have c: "gl_status ?c = ''active''" by (simp add: turn_counters_fields)
  have ex: "exhausted \<longleftrightarrow> is_budget_exhausted ?c"
    using g c by (auto simp: turn_limits_def Let_def split: if_splits)
  have b: "is_budget_exhausted (fst (turn_limits w h)) = is_budget_exhausted h" for w h
    by (simp add: turn_limits_def terminate_goal_def Let_def is_budget_exhausted_def has_budget_def remaining_tokens_def)
  have f: "gl_no_progress (fst (turn_limits w h)) = gl_no_progress h"
    "gl_block_cap (fst (turn_limits w h)) = gl_block_cap h" for w h
    by (simp_all add: turn_limits_def terminate_goal_def Let_def)
  have g': "g = fst (turn_limits (en_now (ev 1)) ?c)" by (simp only: g fst_conv)
  have b': "is_budget_exhausted g = is_budget_exhausted ?c" unfolding g' by (rule b)
  show ?thesis unfolding ex b' unfolding g' turn_limits_status turn_limits_fields f using c by auto
qed





theorem post_turn_within_limits_witness:
  "\<exists>r' g exhausted. post_turn (\<lambda>_. ex_env) 160 ''s'' (sn_baseline no_snapshot)
       ((ex_runtime ex_goal)\<lparr>gr_snapshots := [''s'' \<mapsto> no_snapshot\<lparr>sn_goal := ''g''\<rparr>]\<rparr>) = (r', Inr (g, exhausted)) \<and>
     exhausted = is_budget_exhausted g"
proof -
  let ?r = "(ex_runtime ex_goal)\<lparr>gr_snapshots := [''s'' \<mapsto> no_snapshot\<lparr>sn_goal := ''g''\<rparr>]\<rparr>"
  have lv: "live ''s'' (ex_goal_row ex_goal) ?r" using ex_live [of ex_goal] by (simp add: live_def)
  have sn: "gr_snapshots ?r ''s'' = Some (no_snapshot\<lparr>sn_goal := ''g''\<rparr>)" by simp
  have id: "sn_goal (no_snapshot\<lparr>sn_goal := ''g''\<rparr>) = gc_id (sr_goal (ex_goal_row ex_goal))"
    by (simp add: ex_goal_row_def goal_to_columns_def ex_goal_def)
  obtain r' g ex where pt: "post_turn (\<lambda>_. ex_env) 160 ''s'' (sn_baseline no_snapshot) ?r = (r', Inr (g, ex))"
    by (rule live_post_turn [where ev = "\<lambda>_. ex_env" and now = 160 and u = "sn_baseline no_snapshot", OF lv ex_calm sn id])
  have v: "view ''s'' ?r = Some (view_goal ''default'' ex_goal (Some \<lparr>wc_goal = gl_id ex_goal, wc_last = 100\<rparr>))"
    using ex_view [of ex_goal] by (simp add: view_def)
  from post_turn_within_limits [OF pt v _ sn] pt show ?thesis by (auto simp: ex_goal_def)
qed

section \<open>The completion gate\<close>

definition task_closed :: "task \<Rightarrow> bool" where
  "task_closed t \<longleftrightarrow>
     (if tk_status t = ''completed'' then trim_space (tk_evidence t) \<noteq> []
      else tk_status t = ''dropped'' \<and> trim_space (tk_drop_reason t) \<noteq> [])"

definition count_dropped :: "task list \<Rightarrow> nat" where
  "count_dropped ts = length (filter (\<lambda>t. tk_status t = ''dropped'') ts)"

lemma strict_scan_closed: "list_all task_closed ts \<Longrightarrow> strict_scan i n ts = Inr (n + count_dropped ts)"
proof (induction ts arbitrary: i n)
  case (Cons t ts)
  then show ?case by (cases "tk_status t = ''completed''") (simp_all add: task_closed_def count_dropped_def)
qed (simp add: count_dropped_def)

lemma strict_scan_open: "\<not> list_all task_closed ts \<Longrightarrow> \<exists>err. strict_scan i n ts = Inl err"
proof (induction ts arbitrary: i n)
  case (Cons t ts)
  then show ?case by (cases "tk_status t = ''completed''") (auto simp: task_closed_def)
qed simp

text \<open>
  The strict gate, which is the default, lets a goal be completed exactly when it has no
  tasks, or every task is completed with evidence or dropped with a reason, at most half of
  them (rounded down) are dropped, and the last verdict of the evaluator, if there is one, says
  that the goal is met. Without tasks not even a negative verdict holds it back.
\<close>

theorem strict_gate_characterised:
  "can_complete_goal g = None \<longleftrightarrow>
     (if gl_tasks g = [] then True
      else list_all task_closed (gl_tasks g) \<and> 2 * count_dropped (gl_tasks g) \<le> length (gl_tasks g) \<and>
        gl_last_evaluator_met g \<in> {None, Some True})"
proof (cases "list_all task_closed (gl_tasks g)")
  case True
  have met: "gl_last_evaluator_met g \<in> {None, Some True} \<longleftrightarrow> evaluator_gate g = None"
    by (cases "gl_last_evaluator_met g") (auto simp: evaluator_gate_def)
  have "2 * n \<le> m \<longleftrightarrow> \<not> n > m div 2" for n m :: nat by linarith
  with True met show ?thesis
    by (simp add: can_complete_goal_def can_complete_goal_with_gate_def strict_scan_closed)
next
  case False
  then obtain err where "strict_scan 0 0 (gl_tasks g) = Inl err" using strict_scan_open by blast
  with False show ?thesis by (auto simp: can_complete_goal_def can_complete_goal_with_gate_def)
qed

section \<open>Reports of subagents\<close>

lemma find_task_Some: "find_task s k ts = Some i \<Longrightarrow> k \<le> i \<and> i - k < length ts"
  by (induction ts arbitrary: k) (auto split: if_splits, fastforce+)

lemma find_task_update:
  "find_task s k (ts[i := t]) = find_task s k ts"
  if "i < length ts" "task_matches s t = task_matches s (ts ! i)"
  using that by (induction ts arbitrary: k i) (auto simp: nth_Cons' split: nat.splits)

text \<open>
  A report that is delivered twice at the same time counts once: applying it again
  changes neither the goal nor its tasks, whatever the report and the tasks are.
\<close>

theorem apply_update_idempotent:
  "apply_update now u (apply_update now u x) = apply_update now u x"
proof -
  obtain g ts ch where x: "x = (g, ts, ch)" by (cases x)
  show ?thesis
  proof (cases "find_task (su_content u) 0 ts")
    case None
    then show ?thesis by (simp add: x apply_update_def)
  next
    case (Some i)
    then have i: "i < length ts" using find_task_Some by fastforce
    have again: "find_task (su_content u) 0 (ts[i := t]) = Some i"
      if "tk_content t = tk_content (ts ! i)" "tk_id t = tk_id (ts ! i)" for t
      using find_task_update [OF i, of "su_content u" t 0] that Some by (simp add: task_matches_def)
    have swap: "t\<lparr>tk_drop_reason := a, tk_status := b, tk_updated := c\<rparr> =
        t\<lparr>tk_status := b, tk_updated := c, tk_drop_reason := a\<rparr>" for t :: task and a b c by (cases t) simp
    show ?thesis using Some i by (simp add: x apply_update_def Let_def again swap)
  qed
qed

end
