(* ===== verification/Go_Path.thy ===== *)
theory Go_Path
  imports Prelude
begin

text \<open>
  The functions of Go's path and path/filepath that the modelled code calls, on a Unix system:
  Base, Clean, Rel, and the containment test of internal/fsext built on it.
\<close>

text \<open>path.Base.\<close>

definition path_base :: "string \<Rightarrow> string" where
  "path_base p =
     (if p = [] then ''.''
      else
        let p = rev (dropWhile (\<lambda>c. c = CHR ''/'') (rev p));
            b = rev (takeWhile (\<lambda>c. c \<noteq> CHR ''/'') (rev p))
        in if b = [] then ''/'' else b)"

text \<open>The elements of a path that Clean keeps, most recent first: \<open>rooted\<close> drops a leading dot-dot.\<close>

fun clean_elements :: "bool \<Rightarrow> string list \<Rightarrow> string list \<Rightarrow> string list" where
  "clean_elements rooted stack [] = rev stack"
| "clean_elements rooted stack (p # ps) =
     (if p = [] \<or> p = ''.'' then clean_elements rooted stack ps
      else if p = ''..'' then
        (if stack \<noteq> [] \<and> hd stack \<noteq> ''..'' then clean_elements rooted (tl stack) ps
         else if rooted then clean_elements rooted stack ps
         else clean_elements rooted (''..'' # stack) ps)
      else clean_elements rooted (p # stack) ps)"

text \<open>filepath.Clean.\<close>

definition path_clean :: "string \<Rightarrow> string" where
  "path_clean p =
     (let rooted = has_prefix p ''/'';
          es = clean_elements rooted [] (str_split CHR ''/'' p)
      in if rooted then CHR ''/'' # str_join ''/'' es
         else if es = [] then ''.'' else str_join ''/'' es)"

text \<open>filepath.Rel: the elements that differ, the error when it would have to leave a dot-dot.\<close>

definition path_elements :: "string \<Rightarrow> string list" where
  "path_elements s = (if s = [] then [] else if s = ''/'' then [[]] else str_split CHR ''/'' s)"

fun strip_common :: "string list \<Rightarrow> string list \<Rightarrow> string list \<times> string list" where
  "strip_common (b # bs) (t # ts) = (if b = t then strip_common bs ts else (b # bs, t # ts))"
| "strip_common bs ts = (bs, ts)"

definition path_rel :: "string \<Rightarrow> string \<Rightarrow> string option" where
  "path_rel basepath targpath =
     (let base = path_clean basepath; targ = path_clean targpath in
      if targ = base then Some ''.''
      else
        let base = (if base = ''.'' then [] else base) in
        if has_prefix base ''/'' \<noteq> has_prefix targ ''/'' then None
        else
          case strip_common (path_elements base) (path_elements targ) of
            (bs, ts) \<Rightarrow>
              if bs \<noteq> [] \<and> ts \<noteq> [] \<and> hd bs = ''..'' then None
              else if bs \<noteq> []
              then Some (str_join ''/'' (map (\<lambda>b. ''..'') bs) @ (if ts = [] then [] else CHR ''/'' # str_join ''/'' ts))
              else Some (str_join ''/'' ts))"

text \<open>fsext.HasPrefix.\<close>

definition path_within :: "string \<Rightarrow> string \<Rightarrow> bool" where
  "path_within path prefix =
     (case path_rel prefix path of None \<Rightarrow> False | Some rel \<Rightarrow> \<not> has_prefix rel ''..'')"

end
