(* ===== verification/Exec_Policy.thy ===== *)
theory Exec_Policy
  imports Shell_Syntax Go_Path
begin

text \<open>
  internal/autopermission/exec_policy.go and command_canonicalization.go, with the shell helpers
  of service.go they use: which bash commands run without approval, which need one and which are
  forbidden, and the fingerprint under which an approval is remembered. Paths are those of a
  Unix system, where filepath.ToSlash is the identity. Go's typed strings for policies stay
  strings; the requirement is a datatype, \<open>ReqNone\<close> for its empty string.
\<close>

section \<open>Policies\<close>

datatype requirement = ReqNone | ReqAllow | ReqApproval | ReqForbidden

record granular_config =
  gc_sandbox :: bool
  gc_rules :: bool
  gc_skill :: bool
  gc_request :: bool
  gc_mcp :: bool

record policy_config =
  pc_policy :: string
  pc_granular :: granular_config

record exec_decision =
  xd_requirement :: requirement
  xd_reason :: string
  xd_fingerprint :: string

record exec_rule =
  xr_decision :: string
  xr_exact :: "string list"
  xr_prefix :: "string list"
  xr_reason :: string

datatype approval_domain = DomainSandbox | DomainRules

definition decision :: "requirement \<Rightarrow> string \<Rightarrow> exec_decision" where
  "decision req reason = \<lparr>xd_requirement = req, xd_reason = reason, xd_fingerprint = []\<rparr>"

definition default_exec_rules :: "exec_rule list" where
  "default_exec_rules =
     [\<lparr>xr_decision = ''forbid'', xr_exact = [''shutdown'', ''reboot'', ''halt'', ''poweroff''],
       xr_prefix = [], xr_reason = ''system power commands are forbidden''\<rparr>,
      \<lparr>xr_decision = ''forbid'', xr_exact = [''mkfs'', ''dd'', ''fdisk'', ''diskpart'', ''format''],
       xr_prefix = [], xr_reason = ''disk formatting commands are forbidden''\<rparr>,
      \<lparr>xr_decision = ''forbid'',
       xr_exact = [''zmodload'', ''emulate'', ''sysopen'', ''sysread'', ''syswrite'', ''sysseek'', ''zpty'',
         ''ztcp'', ''zsocket'', ''zf_rm'', ''zf_mv'', ''zf_ln'', ''zf_chmod'', ''zf_chown'', ''zf_mkdir'',
         ''zf_rmdir'', ''zf_chgrp''],
       xr_prefix = [], xr_reason = ''dangerous shell builtins are forbidden''\<rparr>,
      \<lparr>xr_decision = ''prompt'',
       xr_exact = [''aws'', ''az'', ''curl'', ''gcloud'', ''gh'', ''kubectl'', ''remove-item'', ''scp'', ''ssh'',
         ''sudo'', ''wget''],
       xr_prefix = [],
       xr_reason = ''network, privilege, cloud, cluster, or destructive commands require approval''\<rparr>,
      \<lparr>xr_decision = ''prompt'', xr_exact = [],
       xr_prefix = [''rm -'', ''git push'', ''git reset --hard'', ''terraform apply'', ''terraform destroy'',
         ''docker push'', ''npm publish''],
       xr_reason = ''dangerous mutating commands require approval''\<rparr>]"

definition default_policy_config :: policy_config where
  "default_policy_config =
     \<lparr>pc_policy = ''untrusted'',
      pc_granular = \<lparr>gc_sandbox = True, gc_rules = True, gc_skill = True, gc_request = True, gc_mcp = True\<rparr>\<rparr>"

definition parse_approval_policy :: "string \<Rightarrow> string option" where
  "parse_approval_policy v =
     (let p = to_lower (trim_space v)
      in if p \<in> {''untrusted'', ''on-failure'', ''on-request'', ''granular'', ''never''} then Some p else None)"

definition normalize_policy_config :: "policy_config \<Rightarrow> policy_config" where
  "normalize_policy_config cfg = (if pc_policy cfg = [] then default_policy_config else cfg)"

definition append_exec_rules :: "exec_rule list \<Rightarrow> exec_rule list \<Rightarrow> exec_rule list" where
  "append_exec_rules defaults overrides = (if overrides = [] then defaults else overrides @ defaults)"

definition first_non_empty :: "string list \<Rightarrow> string" where
  "first_non_empty vs =
     (case find (\<lambda>v. trim_space v \<noteq> []) vs of None \<Rightarrow> [] | Some v \<Rightarrow> trim_space v)"

definition policy_allows_prompt :: "policy_config \<Rightarrow> approval_domain \<Rightarrow> bool" where
  "policy_allows_prompt cfg domain =
     (if pc_policy cfg = ''never'' then False
      else if pc_policy cfg = ''granular'' then
        (case domain of
           DomainRules \<Rightarrow> gc_rules (pc_granular cfg)
         | DomainSandbox \<Rightarrow> gc_sandbox (pc_granular cfg))
      else True)"

definition policy_decision :: "policy_config \<Rightarrow> approval_domain \<Rightarrow> string \<Rightarrow> exec_decision" where
  "policy_decision cfg domain reason =
     (if \<not> policy_allows_prompt cfg domain
      then decision ReqForbidden (first_non_empty [reason, ''approval is forbidden by policy''])
      else decision ReqApproval reason)"

definition aggregate_decision :: "exec_decision \<Rightarrow> exec_decision \<Rightarrow> exec_decision" where
  "aggregate_decision current next_one =
     (if xd_requirement next_one = ReqForbidden \<or> xd_requirement current = ReqForbidden then
        (if xd_requirement next_one = ReqForbidden then next_one else current)
      else if xd_requirement next_one = ReqApproval \<or> xd_requirement current = ReqApproval then
        (if xd_requirement next_one = ReqApproval then next_one else current)
      else if trim_space (xd_reason current) = [] then next_one
      else current)"

section \<open>Arguments\<close>

text \<open>A shellCallArg: its value when it is literal.\<close>

type_synonym shell_arg = "string option"

definition shell_call_args :: "shell_word list \<Rightarrow> shell_arg list" where
  "shell_call_args ws = map (\<lambda>w. map_option (\<lambda>a. to_lower (trim_space a)) (literal_word (Some w))) ws"

definition normalize_command_name :: "string \<Rightarrow> string" where
  "normalize_command_name raw =
     (if trim_space raw = [] then [] else to_lower (path_base (trim_space raw)))"

definition normalize_command_line :: "shell_arg list \<Rightarrow> string" where
  "normalize_command_line args =
     (if list_all (\<lambda>a. a \<noteq> None) args
      then str_join '' '' (map (\<lambda>a. to_lower (trim_space (the a))) args)
      else [])"

text \<open>shellArgsToStrings; nil and the empty slice are both empty to its callers.\<close>

definition shell_args_to_strings :: "shell_arg list \<Rightarrow> string list" where
  "shell_args_to_strings args =
     (if list_all (\<lambda>a. a \<noteq> None) args then map (\<lambda>a. to_lower (trim_space (the a))) args else [])"

text \<open>firstShellSubcommand; the flags with value True take a value.\<close>

fun first_shell_subcommand :: "shell_arg list \<Rightarrow> (string \<times> bool) list \<Rightarrow> string option" where
  "first_shell_subcommand [] flags = None"
| "first_shell_subcommand (None # rest) flags = None"
| "first_shell_subcommand (Some v # rest) flags =
     (let arg = trim_space v in
      if arg = [] then first_shell_subcommand rest flags
      else if arg = ''--'' then
        (case rest of Some w # _ \<Rightarrow> Some (to_lower (trim_space w)) | _ \<Rightarrow> None)
      else if \<not> has_prefix arg ''-'' then Some (to_lower arg)
      else
        (case str_cut arg CHR ''='' of
           (flag, _, inline) \<Rightarrow>
             if map_of flags flag = Some True \<and> \<not> inline then
               (case rest of [] \<Rightarrow> None | _ # rest' \<Rightarrow> first_shell_subcommand rest' flags)
             else first_shell_subcommand rest flags))"

definition contains_literal_arg :: "shell_arg list \<Rightarrow> string \<Rightarrow> bool" where
  "contains_literal_arg args target =
     list_ex (\<lambda>a. a \<noteq> None \<and> trim_space (the a) = to_lower (trim_space target)) args"

section \<open>Redirections\<close>

definition is_null_redirect :: "redirect \<Rightarrow> bool" where
  "is_null_redirect r =
     (if rd_op r \<noteq> RdrOut then False
      else if rd_n r \<noteq> None \<and> rd_n r \<noteq> Some ''2'' then False
      else case literal_word (rd_word r) of
        None \<Rightarrow> False
      | Some target \<Rightarrow> to_lower (trim_space target) \<in> {''/dev/null'', ''nul'', ''$null''})"

definition has_unsafe_redirection :: "redirect list \<Rightarrow> bool" where
  "has_unsafe_redirection rs = list_ex (\<lambda>r. \<not> is_null_redirect r) rs"

section \<open>Canonical commands\<close>

definition canonical_operator :: "binary_op \<Rightarrow> string" where
  "canonical_operator op =
     (case op of Pipe \<Rightarrow> ''|'' | AndStmt \<Rightarrow> ''&&'' | OrStmt \<Rightarrow> ''||'' | _ \<Rightarrow> [])"

definition canonical_redirects :: "redirect list \<Rightarrow> string" where
  "canonical_redirects rs =
     (if rs = [] then []
      else if has_unsafe_redirection rs then []
      else str_join '' '' (map (\<lambda>r. ''2>/dev/null'') rs))"

text \<open>The canonical form of the words of a call; empty when one is not literal.\<close>

definition canonical_call :: "shell_word list \<Rightarrow> string" where
  "canonical_call ws =
     (let args = shell_call_args ws
      in if args = [] \<or> \<not> list_all (\<lambda>a. a \<noteq> None) args then []
         else str_join '' '' (map (\<lambda>a. str_join '' '' (str_fields (to_lower (trim_space (the a))))) args))"

fun canonical_stmt :: "stmt \<Rightarrow> string"
  and canonical_cmd :: "cmd \<Rightarrow> string" where
  "canonical_stmt (Stmt negated background coprocess disown redirs c) =
     (if negated \<or> background \<or> coprocess \<or> disown then []
      else
        let command = (case c of None \<Rightarrow> [] | Some cm \<Rightarrow> canonical_cmd cm);
            rs = canonical_redirects redirs
        in if command = [] then [] else if rs = [] then command else command @ '' '' @ rs)"
| "canonical_cmd (CallExpr assigns ws) = canonical_call ws"
| "canonical_cmd (BinaryCmd op x y) =
     (let operator = canonical_operator op; left = canonical_stmt x; right = canonical_stmt y
      in if operator = [] then []
         else if left = [] \<or> right = [] then []
         else left @ '' '' @ operator @ '' '' @ right)"
| "canonical_cmd (CompoundCmd ss) = []"
| "canonical_cmd (OtherCmd ss) = []"

definition canonical_file :: "stmt list \<Rightarrow> string" where
  "canonical_file ss =
     (if list_ex (\<lambda>s. canonical_stmt s = []) ss then [] else str_join '';'' (map canonical_stmt ss))"

text \<open>\<open>parse\<close> is the shell parser: an error message or the statements of the file.\<close>

definition canonicalize_bash_command ::
  "(string \<Rightarrow> string + stmt list) \<Rightarrow> string \<Rightarrow> string + string \<times> stmt list" where
  "canonicalize_bash_command parse command =
     (case parse (trim_space command) of
        Inl err \<Rightarrow> Inl err
      | Inr ss \<Rightarrow> Inr (canonical_file ss, ss))"

section \<open>Rules\<close>

definition rule_requirement :: "string \<Rightarrow> requirement" where
  "rule_requirement d =
     (if d = ''allow'' then ReqAllow else if d = ''forbid'' then ReqForbidden else ReqApproval)"

definition rule_matches :: "string \<Rightarrow> string \<Rightarrow> exec_rule \<Rightarrow> bool" where
  "rule_matches cmd line rule \<longleftrightarrow>
     list_ex (\<lambda>e. let exact = to_lower (trim_space e)
                  in cmd = normalize_command_name exact \<or> line = exact) (xr_exact rule) \<or>
     list_ex (\<lambda>p. let prefix = to_lower (trim_space p)
                  in line = prefix \<or> has_prefix line (prefix @ '' '')) (xr_prefix rule)"

fun match_rules :: "string \<Rightarrow> string \<Rightarrow> exec_rule list \<Rightarrow> exec_decision option" where
  "match_rules cmd line [] = None"
| "match_rules cmd line (rule # rules) =
     (if rule_matches cmd line rule
      then Some (decision (rule_requirement (xr_decision rule))
             (first_non_empty [xr_reason rule, ''matched '' @ xr_decision rule @ '' rule'']))
      else match_rules cmd line rules)"

definition rule_outcome :: "policy_config \<Rightarrow> exec_decision \<Rightarrow> exec_decision" where
  "rule_outcome cfg d =
     (if xd_requirement d = ReqApproval then policy_decision cfg DomainRules (xd_reason d) else d)"

section \<open>Dangerous commands\<close>

definition high_risk_commands :: "string list" where
  "high_risk_commands =
     [''aws'', ''az'', ''curl'', ''gcloud'', ''gh'', ''kubectl'', ''remove-item'', ''scp'', ''ssh'', ''sudo'',
      ''wget'', ''del'']"

definition pipeline_targets :: "string list" where
  "pipeline_targets = [''sh'', ''bash'']"

definition git_value_flags :: "(string \<times> bool) list" where
  "git_value_flags =
     [(''-C'', True), (''-c'', True), (''--git-dir'', True), (''--work-tree'', True), (''--namespace'', True),
      (''--exec-path'', True), (''--no-pager'', False), (''--no-optional-locks'', False)]"

definition terraform_value_flags :: "(string \<times> bool) list" where
  "terraform_value_flags = [(''-chdir'', True)]"

definition docker_value_flags :: "(string \<times> bool) list" where
  "docker_value_flags =
     [(''-c'', True), (''-h'', True), (''-l'', True), (''--config'', True), (''--context'', True),
      (''--host'', True), (''--log-level'', True)]"

definition npm_value_flags :: "(string \<times> bool) list" where
  "npm_value_flags =
     [(''-c'', True), (''--cache'', True), (''--loglevel'', True), (''--prefix'', True),
      (''--userconfig'', True), (''-w'', True), (''--workspace'', True)]"

definition forbidden_commands :: "string list" where
  "forbidden_commands =
     [''dd'', ''diskpart'', ''emulate'', ''fdisk'', ''format'', ''halt'', ''mkfs'', ''poweroff'', ''reboot'',
      ''shutdown'', ''sysopen'', ''sysread'', ''sysseek'', ''syswrite'', ''zf_chgrp'', ''zf_chmod'',
      ''zf_chown'', ''zf_ln'', ''zf_mkdir'', ''zf_mv'', ''zf_rm'', ''zf_rmdir'', ''zmodload'', ''zpty'',
      ''zsocket'', ''ztcp'']"

definition dangerous_heuristic ::
  "string \<Rightarrow> shell_arg list \<Rightarrow> policy_config \<Rightarrow> exec_decision option" where
  "dangerous_heuristic cmd args cfg =
     (if cmd \<in> set high_risk_commands then
        Some (policy_decision cfg DomainSandbox (''command '' @ go_quote cmd @ '' requires approval''))
      else if cmd \<in> set forbidden_commands then
        Some (decision ReqForbidden (''command '' @ go_quote cmd @ '' is forbidden''))
      else if cmd = ''rm'' then
        (if list_ex (\<lambda>a. a \<noteq> None \<and> has_prefix (the a) ''-'') (tl args)
         then Some (policy_decision cfg DomainSandbox ''dangerous mutating commands require approval'')
         else None)
      else if cmd = ''git'' then
        (case first_shell_subcommand (tl args) git_value_flags of
           None \<Rightarrow> Some (policy_decision cfg DomainSandbox ''dynamic git command requires approval'')
         | Some sub \<Rightarrow>
             if sub = ''push'' \<or> sub = ''reset'' \<and> contains_literal_arg (tl args) ''--hard''
             then Some (policy_decision cfg DomainSandbox ''dangerous git command requires approval'')
             else None)
      else if cmd = ''terraform'' then
        (if first_shell_subcommand (tl args) terraform_value_flags \<in> {Some ''apply'', Some ''destroy''}
         then Some (policy_decision cfg DomainSandbox ''terraform apply/destroy requires approval'')
         else None)
      else if cmd = ''docker'' then
        (if first_shell_subcommand (tl args) docker_value_flags = Some ''push''
         then Some (policy_decision cfg DomainSandbox ''docker push requires approval'') else None)
      else if cmd = ''npm'' then
        (if first_shell_subcommand (tl args) npm_value_flags = Some ''publish''
         then Some (policy_decision cfg DomainSandbox ''npm publish requires approval'') else None)
      else None)"

section \<open>Read-only commands\<close>

definition safe_base64 :: "shell_arg list \<Rightarrow> bool" where
  "safe_base64 args =
     list_all (\<lambda>a. case a of None \<Rightarrow> False | Some w \<Rightarrow>
       let v = trim_space w in
       \<not> (v = ''-o'' \<or> v = ''--output'' \<or> has_prefix v ''--output='' \<or> has_prefix v ''-o'' \<and> v \<noteq> ''-o''))
       (tl args)"

definition safe_ripgrep :: "shell_arg list \<Rightarrow> bool" where
  "safe_ripgrep args =
     list_all (\<lambda>a. case a of None \<Rightarrow> False | Some w \<Rightarrow>
       let v = trim_space w in
       \<not> (v = ''--pre'' \<or> has_prefix v ''--pre='' \<or> v = ''--hostname-bin'' \<or> has_prefix v ''--hostname-bin='') \<and>
       \<not> (v = ''--search-zip'' \<or> v = ''-z''))
       (tl args)"

definition safe_find :: "string list \<Rightarrow> bool" where
  "safe_find args =
     list_all (\<lambda>a. \<not> (a \<in> {''-delete'', ''-exec'', ''-execdir'', ''-ok'', ''-okdir''}) \<and>
       \<not> (a \<in> {''-fprint'', ''-fprintf'', ''-fls''}) \<and>
       \<not> (has_prefix a ''-exec'' \<or> has_prefix a ''-ok'' \<or> has_prefix a ''-fprint'' \<or> has_prefix a ''-fls''))
       (tl args)"

definition unsafe_git_global :: "string \<Rightarrow> bool" where
  "unsafe_git_global a \<longleftrightarrow>
     a = ''-C'' \<or> has_prefix a ''-C'' \<and> 2 < length a \<or> a = ''-c'' \<or> has_prefix a ''-c'' \<and> 2 < length a \<or>
     a = ''-p'' \<or> a = ''--paginate'' \<or> a = ''--config-env'' \<or> has_prefix a ''--config-env='' \<or>
     a = ''--exec-path'' \<or> has_prefix a ''--exec-path='' \<or> a = ''--git-dir'' \<or> has_prefix a ''--git-dir='' \<or>
     a = ''--namespace'' \<or> has_prefix a ''--namespace='' \<or> a = ''--super-prefix'' \<or>
     has_prefix a ''--super-prefix='' \<or> a = ''--work-tree'' \<or> has_prefix a ''--work-tree=''"

definition git_global_with_value :: "string \<Rightarrow> bool" where
  "git_global_with_value a \<longleftrightarrow> a = ''--no-pager'' \<or> a = ''--no-optional-locks''"

text \<open>The loop over the global options: the subcommand and what follows it.\<close>

fun git_subcommand_at :: "string list \<Rightarrow> (string \<times> string list) option" where
  "git_subcommand_at [] = None"
| "git_subcommand_at (a # rest) =
     (if unsafe_git_global a then None
      else if git_global_with_value a then (case rest of [] \<Rightarrow> None | _ # rest' \<Rightarrow> git_subcommand_at rest')
      else if has_prefix a ''-'' then git_subcommand_at rest
      else Some (a, rest))"

definition git_unsafe_option :: "string list \<Rightarrow> bool" where
  "git_unsafe_option args =
     list_ex (\<lambda>a. a = ''--output'' \<or> has_prefix a ''--output='' \<or> a = ''--ext-diff'' \<or> a = ''--textconv'' \<or>
       a = ''--exec'' \<or> has_prefix a ''--exec='') args"

definition git_branch_read_only :: "string list \<Rightarrow> bool" where
  "git_branch_read_only args =
     list_all (\<lambda>a. a \<in> {''--list'', ''-l'', ''--show-current'', ''-a'', ''--all'', ''-r'', ''--remotes'', ''-v'',
       ''-vv'', ''--verbose''} \<or> has_prefix a ''--format='') args"

definition safe_git :: "shell_arg list \<Rightarrow> bool" where
  "safe_git args =
     (let fields = shell_args_to_strings args in
      if length fields < 2 \<or> hd fields \<noteq> ''git'' then False
      else case git_subcommand_at (tl fields) of
        None \<Rightarrow> False
      | Some (sub, rest) \<Rightarrow>
          if git_unsafe_option rest then False
          else if sub \<in> {''blame'', ''describe'', ''diff'', ''grep'', ''log'', ''ls-files'', ''merge-base'',
            ''rev-parse'', ''show'', ''status'', ''shortlog'', ''ls-remote''} then True
          else if sub = ''stash'' then rest \<noteq> [] \<and> hd rest = ''list''
          else if sub = ''config'' then rest \<noteq> [] \<and> (hd rest = ''--get'' \<or> hd rest = ''--list'')
          else if sub = ''remote''
          then rest \<noteq> [] \<and> (hd rest = ''-v'' \<or> hd rest = ''get-url'' \<and> length rest \<le> 3)
          else if sub = ''tag'' then rest = [] \<or> ''--list'' \<in> set rest
          else if sub = ''branch'' then git_branch_read_only rest
          else False)"

definition valid_sed_print :: "string \<Rightarrow> bool" where
  "valid_sed_print v =
     (if \<not> has_suffix v ''p'' then False
      else
        let core = butlast v; parts = str_split CHR '','' core
        in core \<noteq> [] \<and> length parts \<le> 2 \<and>
           list_all (\<lambda>p. p \<noteq> [] \<and> list_all (\<lambda>c. c \<in> set ''0123456789'') p) parts)"

definition safe_sed :: "shell_arg list \<Rightarrow> bool" where
  "safe_sed args =
     (let fields = shell_args_to_strings args
      in length fields \<le> 4 \<and> 3 \<le> length fields \<and> fields ! 1 = ''-n'' \<and> valid_sed_print (fields ! 2))"

definition plain_read_only :: "string list" where
  "plain_read_only =
     [''cat'', ''cd'', ''cut'', ''echo'', ''expr'', ''false'', ''grep'', ''head'', ''id'', ''ls'', ''nl'', ''paste'',
      ''pwd'', ''rev'', ''seq'', ''stat'', ''tail'', ''tr'', ''true'', ''uname'', ''uniq'', ''wc'', ''which'',
      ''whoami'', ''dir'', ''tree'', ''type'', ''where'', ''get-location'', ''get-childitem'', ''get-content'',
      ''select-string'', ''get-item'', ''get-command'', ''select-object'', ''sort-object'', ''measure-object'',
      ''format-table'', ''out-string'']"

definition safe_read_only :: "string \<Rightarrow> shell_arg list \<Rightarrow> bool" where
  "safe_read_only cmd args =
     (if cmd \<in> set plain_read_only then True
      else if cmd = ''base64'' then safe_base64 args
      else if cmd = ''find'' then safe_find (shell_args_to_strings args)
      else if cmd = ''rg'' then safe_ripgrep args
      else if cmd = ''git'' then safe_git args
      else if cmd = ''sed'' then safe_sed args
      else False)"

section \<open>Evaluation\<close>

definition evaluate_call ::
  "policy_config \<Rightarrow> exec_rule list \<Rightarrow> shell_word list \<Rightarrow> shell_word list \<Rightarrow> exec_decision" where
  "evaluate_call cfg rules assigns ws =
     (if ws = [] then policy_decision cfg DomainSandbox ''shell assignments require approval''
      else if assigns \<noteq> [] then policy_decision cfg DomainSandbox ''shell assignments require approval''
      else
        case shell_call_args ws of
          Some name # rest \<Rightarrow>
            if \<not> list_all (\<lambda>a. a \<noteq> None) rest
            then policy_decision cfg DomainSandbox ''shell expansions or substitutions require approval''
            else
              let args = Some name # rest;
                  cmd = normalize_command_name name;
                  line = normalize_command_line args
              in case match_rules cmd line rules of
                   Some d \<Rightarrow> rule_outcome cfg d
                 | None \<Rightarrow>
                     (case dangerous_heuristic cmd args cfg of
                        Some d \<Rightarrow> d
                      | None \<Rightarrow>
                          if safe_read_only cmd args then decision ReqAllow ''known read-only command''
                          else policy_decision cfg DomainSandbox
                                 (''untrusted command '' @ go_quote cmd @ '' requires approval''))
        | _ \<Rightarrow> policy_decision cfg DomainSandbox ''dynamic command names require approval'')"

text \<open>pipelineExecPolicyTargetRequiresApproval: some call below the statement is a shell.\<close>

definition is_shell_call :: "cmd \<Rightarrow> bool" where
  "is_shell_call c =
     (case c of
        CallExpr assigns ws \<Rightarrow>
          (case shell_call_args ws of
             Some name # _ \<Rightarrow> normalize_command_name name \<in> set pipeline_targets
           | _ \<Rightarrow> False)
      | _ \<Rightarrow> False)"

definition invokes_shell :: "stmt \<Rightarrow> bool" where
  "invokes_shell s = list_ex is_shell_call (walk_stmt s)"

fun evaluate_stmt :: "policy_config \<Rightarrow> exec_rule list \<Rightarrow> stmt \<Rightarrow> exec_decision"
  and evaluate_cmd :: "policy_config \<Rightarrow> exec_rule list \<Rightarrow> cmd \<Rightarrow> exec_decision" where
  "evaluate_stmt cfg rules (Stmt negated background coprocess disown redirs c) =
     (if negated \<or> background \<or> coprocess \<or> disown
      then policy_decision cfg DomainSandbox ''shell control operators require approval''
      else if has_unsafe_redirection redirs
      then policy_decision cfg DomainSandbox ''shell redirection requires approval''
      else case c of
        None \<Rightarrow> policy_decision cfg DomainSandbox ''unknown shell command form requires approval''
      | Some cm \<Rightarrow> evaluate_cmd cfg rules cm)"
| "evaluate_cmd cfg rules (CallExpr assigns ws) = evaluate_call cfg rules assigns ws"
| "evaluate_cmd cfg rules (BinaryCmd op x y) =
     (if op \<notin> {Pipe, AndStmt, OrStmt}
      then policy_decision cfg DomainSandbox ''shell control operator requires approval''
      else if op = Pipe \<and> invokes_shell y
      then policy_decision cfg DomainSandbox ''piping into a shell interpreter requires approval''
      else aggregate_decision (evaluate_stmt cfg rules x) (evaluate_stmt cfg rules y))"
| "evaluate_cmd cfg rules (CompoundCmd ss) =
     policy_decision cfg DomainSandbox ''compound shell commands require approval''"
| "evaluate_cmd cfg rules (OtherCmd ss) =
     policy_decision cfg DomainSandbox ''unknown shell command form requires approval''"

text \<open>The loop over the statements, which stops at the first forbidden one.\<close>

fun evaluate_stmts :: "policy_config \<Rightarrow> exec_rule list \<Rightarrow> exec_decision \<Rightarrow> stmt list \<Rightarrow> exec_decision" where
  "evaluate_stmts cfg rules d [] = d"
| "evaluate_stmts cfg rules d (s # ss) =
     (let d = aggregate_decision d (evaluate_stmt cfg rules s)
      in if xd_requirement d = ReqForbidden then d else evaluate_stmts cfg rules d ss)"

end
