(* ===== verification/Permission_Service.thy ===== *)
theory Permission_Service
  imports Prelude
begin

text \<open>
  internal/permission: requests, errors and the permission service that asks the user
  (permission.go), and the bridge on which a worker agent asks its leader (escalation.go,
  escalation_helper.go).

  A Go channel of capacity one is its content, an option. An operation that would block
  where the code blocks (on a mutex that is held, on a full or an empty channel) is \<open>None\<close>; a
  call that waits is split at its select into what it does before and after. A request's
  parameters, an \<^verbatim>\<open>any\<close> in Go, are the sum of the types the repository switches on.
\<close>

section \<open>Requests and errors\<close>

datatype tool_params =
    BashParams (bp_command: string) (bp_background: bool)
  | EditParams (ed_path: string)
  | WriteParams (wr_path: string)
  | ReadParams (rp_path: string)
  | DownloadParams (dl_url: string)
  | FetchParams (fe_url: string)
  | MapParams "string \<rightharpoonup> string option"
  | OtherParams

datatype review_trigger =
    ClassifierBlock | ClassifierUnavailable | ClassifierFailed | ClassifierSuspended

record auto_review =
  ar_trigger :: review_trigger
  ar_reason :: string

record create_request =
  cr_session :: string
  cr_authority :: string
  cr_tool_call :: string
  cr_tool :: string
  cr_description :: string
  cr_action :: string
  cr_params :: tool_params
  cr_path :: string

record permission_request =
  pr_id :: string
  pr_session :: string
  pr_authority :: string
  pr_tool_call :: string
  pr_tool :: string
  pr_description :: string
  pr_action :: string
  pr_params :: tool_params
  pr_path :: string
  pr_review :: "auto_review option"

datatype error_kind = UserDenied | PolicyDenied

record permission_error =
  pe_kind :: error_kind
  pe_message :: string
  pe_details :: string

definition error_text :: "permission_error option \<Rightarrow> string" where
  "error_text e =
     (case e of
        None \<Rightarrow> ''permission error''
      | Some e \<Rightarrow>
          if trim_space (pe_message e) \<noteq> [] then pe_message e
          else if pe_kind e = PolicyDenied then ''permission blocked by safety policy''
          else ''user denied permission'')"

definition error_is :: "permission_error \<Rightarrow> permission_error \<Rightarrow> bool" where
  "error_is e target = (pe_kind e = pe_kind target)"

definition error_blocked :: permission_error where
  "error_blocked =
     \<lparr>pe_kind = PolicyDenied, pe_message = ''permission blocked by safety policy'', pe_details = []\<rparr>"

definition new_blocked_error :: "string \<Rightarrow> string \<Rightarrow> permission_error" where
  "new_blocked_error message details =
     (let message = (if trim_space message = [] then error_text (Some error_blocked) else message)
      in \<lparr>pe_kind = PolicyDenied, pe_message = trim_space message, pe_details = trim_space details\<rparr>)"

section \<open>The service\<close>

record permission_key =
  pk_session :: string
  pk_tool :: string
  pk_action :: string
  pk_path :: string

record notification =
  nt_tool_call :: string
  nt_granted :: bool
  nt_denied :: bool

text \<open>
  \<open>ps_pending\<close> maps the id of a pending request to the content of its response channel;
  \<open>ps_locked\<close> says that requestMu is held; the two brokers are the logs of what was published.
\<close>

record permission_service =
  ps_working_dir :: string
  ps_persistent :: "permission_key set"
  ps_pending :: "string \<rightharpoonup> bool option"
  ps_auto_approve :: "string set"
  ps_skip :: bool
  ps_allowed_tools :: "string list"
  ps_locked :: bool
  ps_active :: "permission_request option"
  ps_skill_name :: string
  ps_skill_allowed :: "string list"
  ps_notifications :: "notification list"
  ps_published :: "permission_request list"

definition new_permission_service :: "string \<Rightarrow> bool \<Rightarrow> string list \<Rightarrow> permission_service" where
  "new_permission_service dir skip allowed =
     \<lparr>ps_working_dir = dir, ps_persistent = {}, ps_pending = Map.empty, ps_auto_approve = {},
      ps_skip = skip, ps_allowed_tools = allowed, ps_locked = False, ps_active = None,
      ps_skill_name = [], ps_skill_allowed = [], ps_notifications = [], ps_published = []\<rparr>"

definition key_of :: "permission_request \<Rightarrow> permission_key" where
  "key_of p =
     \<lparr>pk_session = pr_session p, pk_tool = pr_tool p, pk_action = pr_action p, pk_path = pr_path p\<rparr>"

definition notify :: "permission_request \<Rightarrow> bool \<Rightarrow> bool \<Rightarrow> permission_service \<Rightarrow> permission_service" where
  "notify p granted denied s =
     s\<lparr>ps_notifications := ps_notifications s @
        [\<lparr>nt_tool_call = pr_tool_call p, nt_granted = granted, nt_denied = denied\<rparr>]\<rparr>"

text \<open>The send on the response channel of a request, if it is pending: blocks when it is full.\<close>

definition respond :: "string \<Rightarrow> bool \<Rightarrow> permission_service \<Rightarrow> permission_service option" where
  "respond i granted s =
     (case ps_pending s i of
        None \<Rightarrow> Some s
      | Some None \<Rightarrow> Some (s\<lparr>ps_pending := (ps_pending s)(i \<mapsto> Some granted)\<rparr>)
      | Some (Some _) \<Rightarrow> None)"

definition clear_active :: "string \<Rightarrow> permission_service \<Rightarrow> permission_service" where
  "clear_active i s =
     (case ps_active s of
        Some a \<Rightarrow> (if pr_id a = i then s\<lparr>ps_active := None\<rparr> else s)
      | None \<Rightarrow> s)"

definition grant_persistent :: "permission_request \<Rightarrow> permission_service \<Rightarrow> permission_service option" where
  "grant_persistent p s =
     (case respond (pr_id p) True (notify p True False s) of
        None \<Rightarrow> None
      | Some s \<Rightarrow> Some (clear_active (pr_id p) (s\<lparr>ps_persistent := insert (key_of p) (ps_persistent s)\<rparr>)))"

definition grant :: "permission_request \<Rightarrow> permission_service \<Rightarrow> permission_service option" where
  "grant p s =
     (case respond (pr_id p) True (notify p True False s) of
        None \<Rightarrow> None
      | Some s \<Rightarrow> Some (clear_active (pr_id p) s))"

definition deny :: "permission_request \<Rightarrow> permission_service \<Rightarrow> permission_service option" where
  "deny p s =
     (case respond (pr_id p) False (notify p False True s) of
        None \<Rightarrow> None
      | Some s \<Rightarrow> Some (clear_active (pr_id p) s))"

definition has_persistent :: "permission_request \<Rightarrow> permission_service \<Rightarrow> bool" where
  "has_persistent p s = (key_of p \<in> ps_persistent s)"

definition clear_persistent :: "string \<Rightarrow> permission_service \<Rightarrow> permission_service" where
  "clear_persistent sid s = s\<lparr>ps_persistent := {k \<in> ps_persistent s. pk_session k \<noteq> sid}\<rparr>"

text \<open>Prompt before its select; the lock is taken by the caller that gets it first.\<close>

definition prompt_open :: "permission_request \<Rightarrow> permission_service \<Rightarrow> permission_service option" where
  "prompt_open p s =
     (if ps_locked s then None
      else
        let s = notify p False False (s\<lparr>ps_locked := True\<rparr>)
        in Some (s\<lparr>ps_active := Some p, ps_pending := (ps_pending s)(pr_id p \<mapsto> None),
                   ps_published := ps_published s @ [p]\<rparr>))"

text \<open>The deferred deletion and unlock, and the two cases of the select before them.\<close>

definition prompt_close :: "permission_request \<Rightarrow> permission_service \<Rightarrow> permission_service" where
  "prompt_close p s = s\<lparr>ps_pending := (ps_pending s)(pr_id p := None), ps_locked := False\<rparr>"

definition prompt_receive ::
  "permission_request \<Rightarrow> permission_service \<Rightarrow> (permission_service \<times> bool) option" where
  "prompt_receive p s =
     (case ps_pending s (pr_id p) of
        Some (Some granted) \<Rightarrow> Some (prompt_close p s, granted)
      | _ \<Rightarrow> None)"

definition prompt_cancel :: "permission_request \<Rightarrow> permission_service \<Rightarrow> permission_service" where
  "prompt_cancel p s = prompt_close p s"

datatype decision_kind = DecideAllow | DecideAsk | DecideDeny

text \<open>buildPermissionRequest: \<open>is_dir\<close> is what os.Stat says of the path (None when it fails),
  \<open>parent\<close> is filepath.Dir of it, and \<open>i\<close> the new id.\<close>

definition build_request ::
  "bool option \<Rightarrow> (string \<Rightarrow> string) \<Rightarrow> string \<Rightarrow> create_request \<Rightarrow> permission_service \<Rightarrow> permission_request" where
  "build_request is_dir parent i c s =
     (let dir = (if is_dir = Some False then parent (cr_path c) else cr_path c);
          dir = (if dir = ''.'' then ps_working_dir s else dir);
          authority = (if cr_authority c = [] then cr_session c else cr_authority c)
      in \<lparr>pr_id = i, pr_session = cr_session c, pr_authority = authority, pr_tool_call = cr_tool_call c,
          pr_tool = cr_tool c, pr_description = cr_description c, pr_action = cr_action c,
          pr_params = cr_params c, pr_path = dir, pr_review = None\<rparr>)"

definition evaluate_request :: "permission_request \<Rightarrow> permission_service \<Rightarrow> decision_kind" where
  "evaluate_request p s =
     (if ps_skip s then DecideAllow
      else if pr_session p \<in> ps_auto_approve s then DecideAllow
      else DecideAsk)"

definition set_session_auto_approve :: "string \<Rightarrow> bool \<Rightarrow> permission_service \<Rightarrow> permission_service" where
  "set_session_auto_approve sid enabled s =
     s\<lparr>ps_auto_approve := (if enabled then insert sid (ps_auto_approve s) else ps_auto_approve s - {sid})\<rparr>"

definition auto_approve_session :: "string \<Rightarrow> permission_service \<Rightarrow> permission_service" where
  "auto_approve_session sid s = set_session_auto_approve sid True s"

definition is_session_auto_approve :: "string \<Rightarrow> permission_service \<Rightarrow> bool" where
  "is_session_auto_approve sid s = (sid \<in> ps_auto_approve s)"

definition set_skip_requests :: "bool \<Rightarrow> permission_service \<Rightarrow> permission_service" where
  "set_skip_requests skip s = s\<lparr>ps_skip := skip\<rparr>"

definition set_skill_context :: "string \<Rightarrow> string list \<Rightarrow> permission_service \<Rightarrow> permission_service" where
  "set_skill_context name allowed s = s\<lparr>ps_skill_name := name, ps_skill_allowed := allowed\<rparr>"

definition clear_skill_context :: "permission_service \<Rightarrow> permission_service" where
  "clear_skill_context s = s\<lparr>ps_skill_name := [], ps_skill_allowed := []\<rparr>"

section \<open>Skill patterns\<close>

definition matches_tool_pattern :: "string \<Rightarrow> string \<Rightarrow> string \<Rightarrow> bool" where
  "matches_tool_pattern pattern tool action =
     (if pattern = tool then True
      else
        case str_cut pattern CHR ''('' of
          (pattern_tool, rest, found) \<Rightarrow>
            if \<not> found \<or> pattern_tool = [] then False
            else if pattern_tool \<noteq> tool then False
            else if \<not> has_suffix pattern '')'' then False
            else
              let action_pattern = butlast rest in
              if has_suffix action_pattern '':*''
              then has_prefix action (take (length action_pattern - 2) action_pattern)
              else action_pattern = action)"

definition is_tool_allowed_by_skill :: "string \<Rightarrow> string \<Rightarrow> permission_service \<Rightarrow> bool" where
  "is_tool_allowed_by_skill tool action s =
     (if ps_skill_name s = [] \<or> ps_skill_allowed s = [] then True
      else list_ex (\<lambda>pattern. matches_tool_pattern pattern tool action) (ps_skill_allowed s))"

definition matches_persistent :: "permission_request \<Rightarrow> permission_request \<Rightarrow> bool" where
  "matches_persistent g r \<longleftrightarrow>
     pr_tool g = pr_tool r \<and> pr_action g = pr_action r \<and> pr_session g = pr_session r \<and> pr_path g = pr_path r"

section \<open>Escalation\<close>

text \<open>Tool inputs are maps that the bridge only copies; \<open>'i\<close> is their type.\<close>

record 'i escalation_request =
  es_id :: string
  es_worker :: string
  es_worker_name :: string
  es_color :: string
  es_tool :: string
  es_input :: 'i
  es_description :: string
  es_parent :: string
  es_child :: string
  es_task :: string
  es_profile :: string
  es_created :: int

record 'i escalation_response =
  er_id :: string
  er_approved :: bool
  er_reason :: string
  er_input :: "'i option"

text \<open>
  The bridge: the ids in its map of requests, its queue and its counter. The channels outlive
  their entry in the map, because the waiting worker still holds its own.
\<close>

record 'i bridge =
  br_requests :: "string set"
  br_channels :: "string \<rightharpoonup> 'i escalation_response option"
  br_queue :: "'i escalation_request list"
  br_gen :: int

definition new_bridge :: "'i bridge" where
  "new_bridge = \<lparr>br_requests = {}, br_channels = Map.empty, br_queue = [], br_gen = 0\<rparr>"

definition escalation_id :: "int \<Rightarrow> int \<Rightarrow> string" where
  "escalation_id millis gen = ''escal-'' @ show_int millis @ ''-'' @ show_int gen"

text \<open>RequestEscalation under its lock: the two readings of the clock are \<open>t1\<close> and \<open>t2\<close>.\<close>

definition escalation_submit ::
  "int \<Rightarrow> int \<Rightarrow> 'i escalation_request \<Rightarrow> 'i bridge \<Rightarrow> 'i bridge \<times> string" where
  "escalation_submit t1 t2 req b =
     (let gen = br_gen b + 1;
          i = escalation_id t1 gen
      in (b\<lparr>br_gen := gen, br_requests := insert i (br_requests b),
            br_channels := (br_channels b)(i \<mapsto> None),
            br_queue := br_queue b @ [req\<lparr>es_id := i, es_created := t2\<rparr>]\<rparr>, i))"

text \<open>The loop that removes the first entry with an id from the queue.\<close>

fun remove_pending :: "string \<Rightarrow> 'i escalation_request list \<Rightarrow> 'i escalation_request list" where
  "remove_pending i [] = []"
| "remove_pending i (r # rs) = (if es_id r = i then rs else r # remove_pending i rs)"

text \<open>The two cases of its select.\<close>

definition escalation_receive :: "string \<Rightarrow> 'i bridge \<Rightarrow> ('i bridge \<times> 'i escalation_response) option" where
  "escalation_receive i b =
     (case br_channels b i of
        Some (Some resp) \<Rightarrow> Some (b\<lparr>br_channels := (br_channels b)(i := None)\<rparr>, resp)
      | _ \<Rightarrow> None)"

definition escalation_cancel :: "string \<Rightarrow> 'i bridge \<Rightarrow> 'i bridge" where
  "escalation_cancel i b =
     b\<lparr>br_requests := br_requests b - {i}, br_channels := (br_channels b)(i := None),
       br_queue := remove_pending i (br_queue b)\<rparr>"

text \<open>RespondToEscalation: blocked (None), or the bridge and whether the request was found.\<close>

definition respond_to_escalation ::
  "'i escalation_response \<Rightarrow> 'i bridge \<Rightarrow> ('i bridge \<times> bool) option" where
  "respond_to_escalation resp b =
     (if er_id resp \<notin> br_requests b then Some (b, False)
      else
        case br_channels b (er_id resp) of
          Some (Some _) \<Rightarrow> None
        | _ \<Rightarrow> Some (b\<lparr>br_channels := (br_channels b)(er_id resp \<mapsto> Some resp),
                        br_requests := br_requests b - {er_id resp},
                        br_queue := remove_pending (er_id resp) (br_queue b)\<rparr>, True))"

definition get_pending_escalations :: "'i bridge \<Rightarrow> 'i escalation_request list" where
  "get_pending_escalations b = br_queue b"

definition has_pending_escalations :: "'i bridge \<Rightarrow> bool" where
  "has_pending_escalations b \<longleftrightarrow> 0 < length (br_queue b)"

section \<open>Workers\<close>

record worker_identity =
  wk_agent :: string
  wk_name :: string
  wk_type :: string
  wk_color :: string
  wk_parent :: string
  wk_child :: string
  wk_task :: string
  wk_profile :: string

definition no_identity :: worker_identity where
  "no_identity = \<lparr>wk_agent = [], wk_name = [], wk_type = [], wk_color = [], wk_parent = [], wk_child = [],
     wk_task = [], wk_profile = []\<rparr>"

text \<open>
  EscalateToLeader up to its wait: None when there is no bridge or no worker, an error when the
  input does not go through JSON (\<open>encode\<close>, on a non-nil input), else the submitted request.
\<close>

definition escalate_to_leader ::
  "('x \<Rightarrow> 'i option) \<Rightarrow> 'i \<Rightarrow> int \<Rightarrow> int \<Rightarrow> worker_identity \<Rightarrow> string \<Rightarrow> 'x option \<Rightarrow> string \<Rightarrow>
   'i bridge option \<Rightarrow> 'i bridge option \<times> (unit + string option)" where
  "escalate_to_leader encode empty_input t1 t2 w tool input description bridge =
     (case bridge of
        None \<Rightarrow> (bridge, Inr None)
      | Some b \<Rightarrow>
          if wk_agent w = [] then (bridge, Inr None)
          else
            case (case input of None \<Rightarrow> Some empty_input | Some x \<Rightarrow> encode x) of
              None \<Rightarrow> (bridge, Inl ())
            | Some im \<Rightarrow>
                (case escalation_submit t1 t2
                   \<lparr>es_id = [], es_worker = wk_agent w, es_worker_name = wk_name w, es_color = wk_color w,
                    es_tool = tool, es_input = im, es_description = description, es_parent = wk_parent w,
                    es_child = wk_child w, es_task = wk_task w, es_profile = wk_profile w,
                    es_created = 0\<rparr> b of
                   (b, i) \<Rightarrow> (Some b, Inr (Some i))))"

definition should_escalate :: "worker_identity \<Rightarrow> string \<Rightarrow> bool" where
  "should_escalate w d = (if d \<noteq> ''ask'' then False else wk_agent w \<noteq> [])"

definition format_worker_badge :: "worker_identity \<Rightarrow> string" where
  "format_worker_badge w =
     (if wk_name w = [] \<and> wk_agent w = [] then ''unknown worker''
      else if wk_name w = [] then wk_agent w
      else if wk_color w \<noteq> [] then ''['' @ wk_color w @ ''] '' @ wk_name w
      else wk_name w)"

definition worker_badge :: "worker_identity \<Rightarrow> string" where
  "worker_badge w = (if wk_agent w = [] then [] else format_worker_badge w)"

end
