(* ===== verification/Approval_State.thy ===== *)
theory Approval_State
  imports Exec_Policy Permission_Service
begin

text \<open>
  What the auto-approval service remembers per session: the cache of approved commands
  (approval_cache.go), the queue of recent denials (denial_queue.go) and the counters that
  suspend auto approval (service.go).
\<close>

section \<open>The approval cache\<close>

record cache_key =
  ck_session :: string
  ck_tool :: string
  ck_action :: string
  ck_dir :: string
  ck_policy :: string
  ck_capability :: string
  ck_fingerprint :: string

text \<open>
  \<open>ac_order\<close> is the linked list, front first: each element has an identity, its address, and a
  key. \<open>ac_entries\<close> maps a key to the element that holds it. The receiver is never nil.
\<close>

record approval_cache =
  ac_max :: int
  ac_entries :: "(cache_key \<times> nat) list"
  ac_order :: "(nat \<times> cache_key) list"
  ac_next :: nat

definition new_approval_cache :: "int \<Rightarrow> approval_cache" where
  "new_approval_cache n =
     \<lparr>ac_max = (if n \<le> 0 then 512 else n), ac_entries = [], ac_order = [], ac_next = 0\<rparr>"

definition move_to_front :: "nat \<Rightarrow> approval_cache \<Rightarrow> approval_cache" where
  "move_to_front e c =
     (case find (\<lambda>x. fst x = e) (ac_order c) of
        None \<Rightarrow> c
      | Some x \<Rightarrow> c\<lparr>ac_order := x # filter (\<lambda>y. fst y \<noteq> e) (ac_order c)\<rparr>)"

fun approved_loop :: "cache_key list \<Rightarrow> approval_cache \<Rightarrow> approval_cache \<times> bool" where
  "approved_loop [] c = (c, True)"
| "approved_loop (k # ks) c =
     (case map_of (ac_entries c) k of
        None \<Rightarrow> (c, False)
      | Some e \<Rightarrow> approved_loop ks (move_to_front e c))"

definition cache_approved :: "cache_key list \<Rightarrow> approval_cache \<Rightarrow> approval_cache \<times> bool" where
  "cache_approved ks c = (if ks = [] then (c, False) else approved_loop ks c)"

function cache_evict :: "approval_cache \<Rightarrow> approval_cache" where
  "cache_evict c =
     (if int (length (ac_entries c)) > ac_max c \<and> ac_order c \<noteq> []
      then cache_evict (c\<lparr>ac_entries := AList.delete (snd (last (ac_order c))) (ac_entries c),
                          ac_order := butlast (ac_order c)\<rparr>)
      else c)"
  by pat_completeness auto
termination by (relation "measure (\<lambda>c. length (ac_order c))") auto

declare cache_evict.simps [simp del]

definition cache_approve_one :: "cache_key \<Rightarrow> approval_cache \<Rightarrow> approval_cache" where
  "cache_approve_one k c =
     (if ck_fingerprint k = [] then c
      else case map_of (ac_entries c) k of
        Some e \<Rightarrow> move_to_front e c
      | None \<Rightarrow>
          let e = ac_next c
          in cache_evict (c\<lparr>ac_order := (e, k) # ac_order c, ac_entries := AList.update k e (ac_entries c),
                            ac_next := e + 1\<rparr>))"

definition cache_approve :: "cache_key list \<Rightarrow> approval_cache \<Rightarrow> approval_cache" where
  "cache_approve ks c = fold cache_approve_one ks c"

text \<open>clearSession, from the back of the list to its front.\<close>

definition cache_clear_one :: "string \<Rightarrow> nat \<times> cache_key \<Rightarrow> approval_cache \<Rightarrow> approval_cache" where
  "cache_clear_one sid x c =
     (if ck_session (snd x) = sid
      then c\<lparr>ac_entries := AList.delete (snd x) (ac_entries c),
             ac_order := filter (\<lambda>y. fst y \<noteq> fst x) (ac_order c)\<rparr>
      else c)"

definition cache_clear_session :: "string \<Rightarrow> approval_cache \<Rightarrow> approval_cache" where
  "cache_clear_session sid c =
     (if sid = [] then c else fold (cache_clear_one sid) (rev (ac_order c)) c)"

section \<open>The denial queue\<close>

record denial_entry =
  de_id :: string
  de_request :: permission_request
  de_reason :: string
  de_time :: int
  de_retryable :: bool

record denial_queue =
  dq_entries :: "denial_entry list"
  dq_max :: int

definition new_denial_queue :: "int \<Rightarrow> denial_queue" where
  "new_denial_queue n = \<lparr>dq_entries = [], dq_max = (if n \<le> 0 then 10 else n)\<rparr>"

fun remove_first :: "('a \<Rightarrow> bool) \<Rightarrow> 'a list \<Rightarrow> 'a list" where
  "remove_first P [] = []"
| "remove_first P (x # xs) = (if P x then xs else x # remove_first P xs)"

definition denial_push ::
  "string \<Rightarrow> int \<Rightarrow> permission_request \<Rightarrow> string \<Rightarrow> bool \<Rightarrow> denial_queue \<Rightarrow> denial_queue \<times> denial_entry" where
  "denial_push i now req reason retryable q =
     (let entry = \<lparr>de_id = i, de_request = req, de_reason = reason, de_time = now, de_retryable = retryable\<rparr>;
          es = entry # remove_first (\<lambda>e. pr_tool_call (de_request e) = pr_tool_call req) (dq_entries q)
      in (q\<lparr>dq_entries := (if int (length es) > dq_max q then take (nat (dq_max q)) es else es)\<rparr>, entry))"

definition denial_take :: "string \<Rightarrow> denial_queue \<Rightarrow> denial_queue \<times> denial_entry option" where
  "denial_take i q =
     (case find (\<lambda>e. de_id e = i) (dq_entries q) of
        None \<Rightarrow> (q, None)
      | Some e \<Rightarrow> (q\<lparr>dq_entries := remove_first (\<lambda>e. de_id e = i) (dq_entries q)\<rparr>, Some e))"

definition denial_get :: "string \<Rightarrow> denial_queue \<Rightarrow> denial_entry option" where
  "denial_get i q = find (\<lambda>e. de_id e = i) (dq_entries q)"

definition denial_entries :: "denial_queue \<Rightarrow> denial_entry list" where
  "denial_entries q = dq_entries q"

definition denial_size :: "denial_queue \<Rightarrow> nat" where
  "denial_size q = length (dq_entries q)"

definition denial_is_empty :: "denial_queue \<Rightarrow> bool" where
  "denial_is_empty q = (length (dq_entries q) = 0)"

definition denial_clear :: "denial_queue \<Rightarrow> denial_queue" where
  "denial_clear q = q\<lparr>dq_entries := []\<rparr>"

text \<open>ActionSummary; only generic parameter maps are looked into.\<close>

definition map_string :: "tool_params \<Rightarrow> string \<Rightarrow> string option" where
  "map_string ps k = (case ps of MapParams m \<Rightarrow> (case m k of Some (Some s) \<Rightarrow> Some s | _ \<Rightarrow> None) | _ \<Rightarrow> None)"

definition action_summary :: "denial_entry option \<Rightarrow> string" where
  "action_summary entry =
     (case entry of
        None \<Rightarrow> ''unknown action''
      | Some e \<Rightarrow>
          let req = de_request e in
          if pr_tool req = ''bash'' then
            (case map_string (pr_params req) ''command'' of Some c \<Rightarrow> c | None \<Rightarrow> ''bash command'')
          else if pr_tool req = ''edit'' then
            (case map_string (pr_params req) ''file_path'' of Some p \<Rightarrow> ''edit '' @ p | None \<Rightarrow> ''file edit'')
          else if pr_tool req = ''write'' then
            (case map_string (pr_params req) ''file_path'' of Some p \<Rightarrow> ''write '' @ p | None \<Rightarrow> ''file write'')
          else pr_tool req @ '' '' @ pr_action req)"

section \<open>Classifier state\<close>

record classifier_state =
  cs_last_mode :: string
  cs_consecutive :: nat
  cs_total :: nat
  cs_suspended :: bool
  cs_queue :: "denial_queue option"

definition no_classifier_state :: classifier_state where
  "no_classifier_state =
     \<lparr>cs_last_mode = [], cs_consecutive = 0, cs_total = 0, cs_suspended = False, cs_queue = None\<rparr>"

type_synonym classifier_states = "string \<rightharpoonup> classifier_state"

definition state_of :: "string \<Rightarrow> classifier_states \<Rightarrow> classifier_state" where
  "state_of sid m = (case m sid of None \<Rightarrow> no_classifier_state | Some st \<Rightarrow> st)"

definition should_suspend :: "string \<Rightarrow> string \<Rightarrow> classifier_states \<Rightarrow> classifier_states \<times> bool" where
  "should_suspend sid mode m =
     (if mode \<noteq> ''auto'' then (m(sid := None), False)
      else if cs_last_mode (state_of sid m) \<noteq> ''auto'' then
        (m(sid \<mapsto> no_classifier_state\<lparr>cs_last_mode := mode, cs_queue := Some (new_denial_queue 10)\<rparr>), False)
      else (m, cs_suspended (state_of sid m)))"

definition reset_blocks :: "string \<Rightarrow> classifier_states \<Rightarrow> classifier_states" where
  "reset_blocks sid m =
     (let st = (state_of sid m)\<lparr>cs_last_mode := ''auto'', cs_consecutive := 0\<rparr>;
          st = (if cs_total st < 20 then st\<lparr>cs_suspended := False\<rparr> else st)
      in m(sid \<mapsto> st))"

definition record_block :: "string \<Rightarrow> classifier_states \<Rightarrow> classifier_states" where
  "record_block sid m =
     (let st = state_of sid m;
          st = st\<lparr>cs_last_mode := ''auto'', cs_consecutive := cs_consecutive st + 1, cs_total := cs_total st + 1\<rparr>;
          st = (if 3 \<le> cs_consecutive st \<or> 20 \<le> cs_total st then st\<lparr>cs_suspended := True\<rparr> else st)
      in m(sid \<mapsto> st))"

definition push_denial ::
  "string \<Rightarrow> int \<Rightarrow> string \<Rightarrow> permission_request \<Rightarrow> string \<Rightarrow> bool \<Rightarrow> classifier_states \<Rightarrow> classifier_states" where
  "push_denial i now sid req reason retryable m =
     (let st = state_of sid m;
          q = (case cs_queue st of None \<Rightarrow> new_denial_queue 10 | Some q \<Rightarrow> q)
      in m(sid \<mapsto> st\<lparr>cs_queue := Some (fst (denial_push i now req reason retryable q))\<rparr>))"

definition get_denial_queue :: "string \<Rightarrow> classifier_states \<Rightarrow> denial_queue option" where
  "get_denial_queue sid m = cs_queue (state_of sid m)"

text \<open>Take through the editor that GetDenialQueueEditor returns.\<close>

definition take_denial :: "string \<Rightarrow> string \<Rightarrow> classifier_states \<Rightarrow> classifier_states \<times> denial_entry option" where
  "take_denial sid i m =
     (case cs_queue (state_of sid m) of
        None \<Rightarrow> (m, None)
      | Some q \<Rightarrow>
          (case denial_take i q of
             (q, e) \<Rightarrow> (m(sid \<mapsto> (state_of sid m)\<lparr>cs_queue := Some q\<rparr>), e)))"

end
