(* ===== verification/Approval_Cache.thy ===== *)
theory Approval_Cache
  imports Approval_State
begin

text \<open>
  approval_cache.go against its specification: the map and the linked list with their eviction
  refine a least-recently-used list of bounded length.
\<close>

section \<open>The approval cache is an LRU list\<close>

definition cache_view :: "approval_cache \<Rightarrow> cache_key list" where
  "cache_view c = map snd (ac_order c)"

definition cache_wf :: "approval_cache \<Rightarrow> bool" where
  "cache_wf c \<longleftrightarrow>
     distinct (map fst (ac_entries c)) \<and> set (ac_entries c) = prod.swap ` set (ac_order c) \<and>
     distinct (map fst (ac_order c)) \<and> distinct (map snd (ac_order c)) \<and>
     (\<forall>x \<in> set (ac_order c). fst x < ac_next c)"

definition cache_inv :: "approval_cache \<Rightarrow> bool" where
  "cache_inv c \<longleftrightarrow> cache_wf c \<and> 0 < ac_max c \<and> int (length (ac_order c)) \<le> ac_max c"

text \<open>The specification: a list of keys, most recent first.\<close>

definition lru_touch :: "cache_key \<Rightarrow> cache_key list \<Rightarrow> cache_key list" where
  "lru_touch k ks = k # filter (\<lambda>j. j \<noteq> k) ks"

fun lru_lookup :: "cache_key list \<Rightarrow> cache_key list \<Rightarrow> cache_key list \<times> bool" where
  "lru_lookup [] ks = (ks, True)"
| "lru_lookup (q # qs) ks = (if q \<in> set ks then lru_lookup qs (lru_touch q ks) else (ks, False))"

definition lru_insert :: "nat \<Rightarrow> cache_key \<Rightarrow> cache_key list \<Rightarrow> cache_key list" where
  "lru_insert n k ks = (if ck_fingerprint k = [] then ks else take n (lru_touch k ks))"

datatype cache_op = AskCached "cache_key list" | Approve "cache_key list" | ClearCached string

fun lru_step :: "nat \<Rightarrow> cache_op \<Rightarrow> cache_key list \<Rightarrow> cache_key list \<times> bool" where
  "lru_step n (AskCached qs) ks = (if qs = [] then (ks, False) else lru_lookup qs ks)"
| "lru_step n (Approve qs) ks = (fold (lru_insert n) qs ks, True)"
| "lru_step n (ClearCached sid) ks = (if sid = [] then ks else filter (\<lambda>k. ck_session k \<noteq> sid) ks, True)"

fun cache_step :: "cache_op \<Rightarrow> approval_cache \<Rightarrow> approval_cache \<times> bool" where
  "cache_step (AskCached qs) c = cache_approved qs c"
| "cache_step (Approve qs) c = (cache_approve qs c, True)"
| "cache_step (ClearCached sid) c = (cache_clear_session sid c, True)"

lemma cache_view_fields [simp]:
  "cache_view (c\<lparr>ac_entries := es\<rparr>) = cache_view c" "cache_view (c\<lparr>ac_next := n\<rparr>) = cache_view c"
  "cache_view (c\<lparr>ac_order := xs\<rparr>) = map snd xs"
  by (simp_all add: cache_view_def)

lemma in_swap: "(k, e) \<in> prod.swap ` A \<longleftrightarrow> (e, k) \<in> A"
  by (force simp: image_iff)

lemma in_snd: "k \<in> snd ` A \<longleftrightarrow> (\<exists>e. (e, k) \<in> A)"
  by force

lemma cache_wfD:
  assumes "cache_wf c"
  shows "distinct (map fst (ac_entries c))" "set (ac_entries c) = prod.swap ` set (ac_order c)"
    "distinct (map fst (ac_order c))" "distinct (map snd (ac_order c))" "\<forall>x \<in> set (ac_order c). fst x < ac_next c"
  using assms by (simp_all add: cache_wf_def)

lemma cache_lookup:
  assumes "cache_wf c"
  shows "map_of (ac_entries c) k = Some e \<longleftrightarrow> (e, k) \<in> set (ac_order c)"
  using cache_wfD(1,2) [OF assms] by (simp add: map_of_eq_Some_iff in_swap)

lemma cache_lookup_None:
  assumes "cache_wf c"
  shows "map_of (ac_entries c) k = None \<longleftrightarrow> k \<notin> set (cache_view c)"
proof -
  have "map_of (ac_entries c) k = None \<longleftrightarrow> (\<forall>e. (e, k) \<notin> set (ac_order c))"
    using cache_lookup [OF assms, of k] by (metis not_None_eq)
  then show ?thesis by (simp add: cache_view_def in_snd)
qed

lemma cache_length: "cache_wf c \<Longrightarrow> length (ac_entries c) = length (ac_order c)"
proof -
  assume wf: "cache_wf c"
  note inv = cache_wfD [OF wf]
  have "length (ac_entries c) = card (set (map fst (ac_entries c)))"
    using inv(1) distinct_card [of "map fst (ac_entries c)"] by simp
  also have "set (map fst (ac_entries c)) = set (map snd (ac_order c))"
    using inv(2) by (simp add: image_image)
  also have "card \<dots> = length (ac_order c)"
    using inv(4) distinct_card [of "map snd (ac_order c)"] by simp
  finally show ?thesis .
qed

lemma filter_fst_id: "e \<notin> fst ` set xs \<Longrightarrow> filter (\<lambda>y. fst y \<noteq> e) xs = xs"
  by (rule filter_True) force

lemma order_unique:
  assumes "distinct (map fst xs)" "distinct (map snd xs)" "(e, k) \<in> set xs"
  shows "filter (\<lambda>y. fst y \<noteq> e) xs = filter (\<lambda>y. snd y \<noteq> k) xs" "find (\<lambda>y. fst y = e) xs = Some (e, k)"
    "set (filter (\<lambda>y. fst y \<noteq> e) xs) = set xs - {(e, k)}"
    "Suc (length (filter (\<lambda>y. fst y \<noteq> e) xs)) = length xs"
proof -
  have iff: "fst y = e \<longleftrightarrow> y = (e, k)" "snd y = k \<longleftrightarrow> y = (e, k)" if "y \<in> set xs" for y
    using assms that by (metis distinct_map inj_onD fst_conv snd_conv)+
  then show "filter (\<lambda>y. fst y \<noteq> e) xs = filter (\<lambda>y. snd y \<noteq> k) xs" by (intro filter_cong) auto
  show "set (filter (\<lambda>y. fst y \<noteq> e) xs) = set xs - {(e, k)}" using iff by auto
  show "find (\<lambda>y. fst y = e) xs = Some (e, k)" using assms(1,3)
    by (induction xs) (auto simp: image_iff rev_image_eqI)
  show "Suc (length (filter (\<lambda>y. fst y \<noteq> e) xs)) = length xs" using assms(1,3)
    by (induction xs) (auto simp: rev_image_eqI filter_fst_id)
qed

lemma filter_map_snd: "map snd (filter (\<lambda>y. snd y \<noteq> k) xs) = filter (\<lambda>j. j \<noteq> k) (map snd xs)"
  by (induction xs) auto

lemma move_to_front:
  assumes wf: "cache_wf c" and e: "map_of (ac_entries c) k = Some e"
  shows "cache_wf (move_to_front e c)" "cache_view (move_to_front e c) = lru_touch k (cache_view c)"
    "ac_max (move_to_front e c) = ac_max c" "length (ac_order (move_to_front e c)) = length (ac_order c)"
proof -
  have m: "(e, k) \<in> set (ac_order c)" using cache_lookup [OF wf] e by simp
  note inv = cache_wfD [OF wf]
  note u = order_unique [OF inv(3,4) m]
  let ?xs = "(e, k) # filter (\<lambda>y. fst y \<noteq> e) (ac_order c)"
  have mv: "move_to_front e c = c\<lparr>ac_order := ?xs\<rparr>" by (simp add: move_to_front_def u(2))
  have s: "set ?xs = set (ac_order c)" using m u(3) by auto
  have "distinct (map fst ?xs)" using inv(3) by (auto simp: distinct_map_filter)
  moreover have "distinct (map snd ?xs)" unfolding u(1) using inv(4) by (auto simp: distinct_map_filter)
  moreover have "ac_order (move_to_front e c) = ?xs" "ac_entries (move_to_front e c) = ac_entries c"
    "ac_next (move_to_front e c) = ac_next c" by (simp_all add: mv)
  ultimately show "cache_wf (move_to_front e c)"
    using inv(1,2,5) s by (simp only: cache_wf_def simp_thms)
  show "cache_view (move_to_front e c) = lru_touch k (cache_view c)"
    unfolding mv by (simp add: lru_touch_def u(1) filter_map_snd cache_view_def)
  show "ac_max (move_to_front e c) = ac_max c" "length (ac_order (move_to_front e c)) = length (ac_order c)"
    using u(4) by (simp_all add: mv)
qed

lemma approved_loop_refines:
  "cache_inv c \<Longrightarrow>
   cache_inv (fst (approved_loop qs c)) \<and> ac_max (fst (approved_loop qs c)) = ac_max c \<and>
   (cache_view (fst (approved_loop qs c)), snd (approved_loop qs c)) = lru_lookup qs (cache_view c)"
proof (induction qs arbitrary: c)
  case (Cons q qs)
  then have wf: "cache_wf c" by (simp add: cache_inv_def)
  show ?case
  proof (cases "map_of (ac_entries c) q")
    case None
    with cache_lookup_None [OF wf, of q] Cons.prems show ?thesis by simp
  next
    case (Some e)
    then have "q \<in> set (cache_view c)" using cache_lookup_None [OF wf, of q] by auto
    with Some move_to_front [OF wf Some] Cons.IH [of "move_to_front e c"] Cons.prems
    show ?thesis by (simp add: cache_inv_def)
  qed
qed simp

lemma update_new: "k \<notin> fst ` set xs \<Longrightarrow> AList.update k v xs = xs @ [(k, v)]"
  by (induction xs) auto

lemma cache_insert:
  assumes wf: "cache_wf c" and new: "map_of (ac_entries c) k = None"
  shows "cache_wf (c\<lparr>ac_order := (ac_next c, k) # ac_order c, ac_entries := AList.update k (ac_next c) (ac_entries c),
    ac_next := Suc (ac_next c)\<rparr>)" (is "cache_wf ?c")
proof -
  note inv = cache_wfD [OF wf]
  have k: "k \<notin> fst ` set (ac_entries c)" using new by (simp add: map_of_eq_None_iff)
  then have es: "ac_entries ?c = ac_entries c @ [(k, ac_next c)]" by (simp add: update_new)
  have "k \<notin> snd ` set (ac_order c)" using cache_lookup_None [OF wf, of k] new by (simp add: cache_view_def)
  then have "distinct (map snd (ac_order ?c))" using inv(4) by simp
  moreover have "ac_next c \<notin> fst ` set (ac_order c)" using inv(5) by auto
  then have "distinct (map fst (ac_order ?c))" using inv(3) by simp
  moreover have "distinct (map fst (ac_entries ?c))" unfolding es using inv(1) k by auto
  moreover have "set (ac_entries ?c) = prod.swap ` set (ac_order ?c)" unfolding es using inv(2) by simp
  moreover have "\<forall>x \<in> set (ac_order ?c). fst x < ac_next ?c" using inv(5) by auto
  ultimately show ?thesis by (simp only: cache_wf_def simp_thms)
qed

lemma cache_remove:
  assumes wf: "cache_wf c" and x: "(e, k) \<in> set (ac_order c)"
  shows "cache_wf (c\<lparr>ac_entries := AList.delete k (ac_entries c),
    ac_order := filter (\<lambda>y. fst y \<noteq> e) (ac_order c)\<rparr>)" (is "cache_wf ?c")
proof -
  note inv = cache_wfD [OF wf]
  note u = order_unique [OF inv(3,4) x]
  have "set (ac_entries ?c) = {y \<in> set (ac_entries c). fst y \<noteq> k}" by (auto simp: AList.delete_eq)
  also have "\<dots> = prod.swap ` {y \<in> set (ac_order c). snd y \<noteq> k}" using inv(2) by auto
  also have "{y \<in> set (ac_order c). snd y \<noteq> k} = set (ac_order ?c)" using u(1) by simp
  finally have "set (ac_entries ?c) = prod.swap ` set (ac_order ?c)" .
  moreover have "distinct (map fst (ac_entries ?c))" using inv(1) by (simp add: distinct_delete)
  moreover have "distinct (map fst (ac_order ?c))" "distinct (map snd (ac_order ?c))"
    using inv(3,4) by (simp_all add: distinct_map_filter)
  moreover have "\<forall>x \<in> set (ac_order ?c). fst x < ac_next ?c" using inv(5) by simp
  ultimately show ?thesis by (simp only: cache_wf_def simp_thms)
qed

lemma butlast_filter:
  assumes "distinct (map fst xs)" "xs \<noteq> []"
  shows "butlast xs = filter (\<lambda>y. fst y \<noteq> fst (last xs)) xs"
  using assms
proof (induction xs rule: rev_induct)
  case (snoc x xs)
  then show ?case by (auto simp: filter_fst_id)
qed simp

lemma cache_evict_small: "int (length (ac_entries c)) \<le> ac_max c \<Longrightarrow> cache_evict c = c"
  by (simp add: cache_evict.simps)

lemma cache_evict_one:
  assumes wf: "cache_wf c" and len: "int (length (ac_order c)) = ac_max c + 1" and pos: "0 < ac_max c"
  shows "cache_inv (cache_evict c)" "ac_max (cache_evict c) = ac_max c"
    "cache_view (cache_evict c) = butlast (cache_view c)"
proof -
  let ?x = "last (ac_order c)"
  let ?c = "c\<lparr>ac_entries := AList.delete (snd ?x) (ac_entries c), ac_order := butlast (ac_order c)\<rparr>"
  note inv = cache_wfD [OF wf]
  have ne: "ac_order c \<noteq> []" using len pos by auto
  have wf': "cache_wf ?c"
    using cache_remove [OF wf, of "fst ?x" "snd ?x"] ne butlast_filter [OF inv(3) ne] by simp
  have "cache_evict c = cache_evict ?c"
    using cache_length [OF wf] len ne by (subst cache_evict.simps) simp
  also have "\<dots> = ?c"
  proof (rule cache_evict_small)
    have "length (ac_entries ?c) = length (ac_order c) - 1" using cache_length [OF wf'] by simp
    moreover have "int (length (ac_order c) - 1) = int (length (ac_order c)) - 1"
      using ne by (simp add: of_nat_diff Suc_leI)
    ultimately show "int (length (ac_entries ?c)) \<le> ac_max ?c" using len by simp
  qed
  finally have c: "cache_evict c = ?c" .
  show "cache_inv (cache_evict c)" using wf' len pos unfolding c cache_inv_def by simp
  show "ac_max (cache_evict c) = ac_max c" "cache_view (cache_evict c) = butlast (cache_view c)"
    unfolding c by (simp_all add: cache_view_def map_butlast)
qed

lemma approve_one_refines:
  assumes inv: "cache_inv c"
  shows "cache_inv (cache_approve_one k c) \<and> ac_max (cache_approve_one k c) = ac_max c \<and>
    cache_view (cache_approve_one k c) = lru_insert (nat (ac_max c)) k (cache_view c)"
proof (cases "ck_fingerprint k = []")
  case fp: False
  have wf: "cache_wf c" and pos: "0 < ac_max c" and le: "int (length (ac_order c)) \<le> ac_max c"
    using inv by (simp_all add: cache_inv_def)
  show ?thesis
  proof (cases "map_of (ac_entries c) k")
    case (Some e)
    note mv = move_to_front [OF wf Some]
    have "length (lru_touch k (cache_view c)) = length (ac_order c)"
      using mv(2,4) by (metis cache_view_def length_map)
    with fp Some mv le pos show ?thesis
      by (simp add: cache_approve_one_def lru_insert_def cache_inv_def)
  next
    case None
    let ?c = "c\<lparr>ac_order := (ac_next c, k) # ac_order c,
      ac_entries := AList.update k (ac_next c) (ac_entries c), ac_next := Suc (ac_next c)\<rparr>"
    have new: "k \<notin> set (cache_view c)" using cache_lookup_None [OF wf, of k] None by simp
    have touch: "lru_touch k (cache_view c) = k # cache_view c"
      using new by (auto simp: lru_touch_def filter_id_conv)
    note wf' = cache_insert [OF wf None]
    have c1: "cache_approve_one k c = cache_evict ?c" using fp None by (simp add: cache_approve_one_def Let_def)
    have len: "length (cache_view c) = length (ac_order c)" by (simp add: cache_view_def)
    show ?thesis
    proof (cases "int (length (ac_order c)) = ac_max c")
      case True
      then have "nat (ac_max c) = length (ac_order c)" by simp
      with True cache_evict_one [OF wf'] pos len fp touch show ?thesis
        unfolding c1 by (simp add: lru_insert_def cache_view_def butlast_conv_take)
    next
      case False
      then have "cache_evict ?c = ?c" using le cache_length [OF wf'] by (intro cache_evict_small) simp
      with False wf' le pos len fp touch show ?thesis
        unfolding c1 by (simp add: lru_insert_def cache_inv_def cache_view_def)
    qed
  qed
qed (use inv in \<open>simp add: cache_approve_one_def lru_insert_def\<close>)

lemma approve_refines:
  "cache_inv c \<Longrightarrow>
   cache_inv (cache_approve ks c) \<and> ac_max (cache_approve ks c) = ac_max c \<and>
   cache_view (cache_approve ks c) = fold (lru_insert (nat (ac_max c))) ks (cache_view c)"
  unfolding cache_approve_def
proof (induction ks arbitrary: c)
  case (Cons k ks)
  from approve_one_refines [OF Cons.prems, of k] Cons.IH [of "cache_approve_one k c"] show ?case by simp
qed simp


lemma clear_refines:
  assumes "cache_wf c" "distinct (map fst xs)" "set xs \<subseteq> set (ac_order c)"
  shows "cache_wf (fold (cache_clear_one sid) xs c) \<and> ac_max (fold (cache_clear_one sid) xs c) = ac_max c \<and>
    ac_order (fold (cache_clear_one sid) xs c) =
      filter (\<lambda>x. \<not> (ck_session (snd x) = sid \<and> fst x \<in> fst ` set xs)) (ac_order c)"
  using assms
proof (induction xs arbitrary: c)
  case (Cons x xs)
  let ?c = "cache_clear_one sid x c"
  have same: "y = x" if "y \<in> set (ac_order c)" "fst y = fst x" for y
    using that Cons.prems(3) cache_wfD(3) [OF Cons.prems(1)]
    by (metis distinct_map inj_onD list.set_intros(1) subsetD)
  have wf: "cache_wf ?c" "ac_max ?c = ac_max c"
    using cache_remove [OF Cons.prems(1), of "fst x" "snd x"] Cons.prems by (simp_all add: cache_clear_one_def)
  have order: "ac_order ?c = filter (\<lambda>y. \<not> (ck_session (snd y) = sid \<and> fst y = fst x)) (ac_order c)"
  proof (cases "ck_session (snd x) = sid")
    case True
    then show ?thesis using same by (auto simp: cache_clear_one_def intro!: filter_cong)
  next
    case False
    then have "ck_session (snd y) \<noteq> sid \<or> fst y \<noteq> fst x" if "y \<in> set (ac_order c)" for y using same [OF that] by blast
    with False show ?thesis by (simp add: cache_clear_one_def)
  qed
  have "set xs \<subseteq> set (ac_order ?c)" unfolding order using Cons.prems(2,3) by (auto simp: rev_image_eqI)
  from Cons.IH [OF wf(1) _ this] Cons.prems(2) wf(2) order show ?case by (auto intro!: filter_cong)
qed simp

lemma filter_session: "map snd (filter (\<lambda>x. ck_session (snd x) \<noteq> sid) xs) = filter (\<lambda>k. ck_session k \<noteq> sid) (map snd xs)"
  by (induction xs) auto

lemma clear_session_refines:
  assumes inv: "cache_inv c"
  shows "cache_inv (cache_clear_session sid c) \<and> ac_max (cache_clear_session sid c) = ac_max c \<and>
    cache_view (cache_clear_session sid c) = fst (lru_step n (ClearCached sid) (cache_view c))"
proof (cases "sid = []")
  case False
  let ?c = "fold (cache_clear_one sid) (rev (ac_order c)) c"
  have wf: "cache_wf c" using inv by (simp add: cache_inv_def)
  have "distinct (map fst (rev (ac_order c)))" using cache_wfD(3) [OF wf] by (simp add: rev_map [symmetric])
  note cl = clear_refines [OF wf this, of sid]
  have order: "ac_order ?c = filter (\<lambda>x. ck_session (snd x) \<noteq> sid) (ac_order c)"
    using cl by (auto intro!: filter_cong)
  have "length (ac_order ?c) \<le> length (ac_order c)" unfolding order by simp
  then have "int (length (ac_order ?c)) \<le> ac_max c" using inv unfolding cache_inv_def by linarith
  moreover have "cache_wf ?c" "ac_max ?c = ac_max c" using cl by simp_all
  ultimately show ?thesis using False order inv
    by (simp add: cache_clear_session_def cache_inv_def cache_view_def filter_session)
qed (use inv in \<open>simp add: cache_clear_session_def\<close>)

lemma cache_step_refines:
  assumes inv: "cache_inv c"
  shows "cache_inv (fst (cache_step x c))" "ac_max (fst (cache_step x c)) = ac_max c"
    "(cache_view (fst (cache_step x c)), snd (cache_step x c)) = lru_step (nat (ac_max c)) x (cache_view c)"
  using approved_loop_refines [OF inv] approve_refines [OF inv] clear_session_refines [OF inv] inv
  by (cases x; simp add: cache_approved_def)+

fun cache_run :: "cache_op list \<Rightarrow> approval_cache \<Rightarrow> approval_cache \<times> bool list" where
  "cache_run [] c = (c, [])"
| "cache_run (x # xs) c =
     (case cache_step x c of (c, b) \<Rightarrow> (case cache_run xs c of (c, bs) \<Rightarrow> (c, b # bs)))"

fun lru_run :: "nat \<Rightarrow> cache_op list \<Rightarrow> cache_key list \<Rightarrow> cache_key list \<times> bool list" where
  "lru_run n [] ks = (ks, [])"
| "lru_run n (x # xs) ks =
     (case lru_step n x ks of (ks, b) \<Rightarrow> (case lru_run n xs ks of (ks, bs) \<Rightarrow> (ks, b # bs)))"

lemma cache_run_refines:
  assumes "cache_inv c"
  shows "cache_inv (fst (cache_run xs c)) \<and> ac_max (fst (cache_run xs c)) = ac_max c \<and>
    (cache_view (fst (cache_run xs c)), snd (cache_run xs c)) = lru_run (nat (ac_max c)) xs (cache_view c)"
  using assms
proof (induction xs arbitrary: c)
  case (Cons x xs)
  obtain c1 b where s: "cache_step x c = (c1, b)" by fastforce
  obtain c2 bs where r: "cache_run xs c1 = (c2, bs)" by fastforce
  from cache_step_refines [OF Cons.prems, of x] s
  have 1: "cache_inv c1" "ac_max c1 = ac_max c" "lru_step (nat (ac_max c)) x (cache_view c) = (cache_view c1, b)" by auto
  from Cons.IH [OF 1(1)] r 1(2)
  have "cache_inv c2" "ac_max c2 = ac_max c" "lru_run (nat (ac_max c)) xs (cache_view c1) = (cache_view c2, bs)" by auto
  with s r 1(3) show ?case by simp
qed simp

definition cache_capacity :: "int \<Rightarrow> nat" where
  "cache_capacity n = (if n \<le> 0 then 512 else nat n)"

text \<open>
  C33. The approval cache is a least-recently-used list of at most its capacity: whatever sequence
  of lookups, approvals and session clearings it has gone through, its keys in order, and every
  answer it gave, are those of the list that moves a key to its front when it is asked for or
  approved, drops the last key when it is full and the keys of a session when it is cleared.
\<close>

theorem approval_cache_is_lru:
  "(cache_view (fst (cache_run xs (new_approval_cache cap))), snd (cache_run xs (new_approval_cache cap))) =
      lru_run (cache_capacity cap) xs [] \<and>
    length (cache_view (fst (cache_run xs (new_approval_cache cap)))) \<le> cache_capacity cap"
proof -
  let ?c = "new_approval_cache cap"
  have inv: "cache_inv ?c" and v: "cache_view ?c = []" and m: "nat (ac_max ?c) = cache_capacity cap"
    by (auto simp: cache_inv_def cache_wf_def new_approval_cache_def cache_view_def cache_capacity_def)
  note r = cache_run_refines [OF inv, of xs]
  then have "int (length (cache_view (fst (cache_run xs ?c)))) \<le> ac_max ?c"
    by (simp add: cache_inv_def cache_view_def)
  with r v m show ?thesis by simp
qed

end
