(* ===== verification/Auto_Permission.thy ===== *)
theory Auto_Permission
  imports Approval_State
begin

text \<open>
  internal/autopermission: the policy engine (policy_engine.go), the checks of paths and commands
  and the service that decides a permission request before it asks anybody (service.go), with
  the preapproved hosts of internal/agent/tools/preapproved.go.

  What a request draws from outside is the record \<open>rq\<close>: the shell parser, url.Parse, what
  os.Stat says of the path, the mode stored for a session, the hook of the plugins, the
  classifier, the identity of a worker, and what the user does while a prompt is open.
\<close>

section \<open>Preapproved hosts\<close>

text \<open>Hosts with the path prefixes they are limited to; nil, which is no limit, is empty.\<close>

definition preapproved_hosts :: "(string \<times> string list) list" where
  "preapproved_hosts =
     [(''platform.claude.com'', []), (''code.claude.com'', []), (''modelcontextprotocol.io'', []),
      (''agentskills.io'', []), (''github.com'', [''/anthropics'']), (''docs.python.org'', []),
      (''en.cppreference.com'', []), (''docs.oracle.com'', []), (''learn.microsoft.com'', []),
      (''developer.mozilla.org'', []), (''go.dev'', []), (''pkg.go.dev'', []), (''www.php.net'', []),
      (''docs.swift.org'', []), (''kotlinlang.org'', []), (''ruby-doc.org'', []),
      (''doc.rust-lang.org'', []), (''www.typescriptlang.org'', []), (''react.dev'', []),
      (''angular.io'', []), (''vuejs.org'', []), (''nextjs.org'', []), (''expressjs.com'', []),
      (''nodejs.org'', []), (''bun.sh'', []), (''jquery.com'', []), (''getbootstrap.com'', []),
      (''tailwindcss.com'', []), (''d3js.org'', []), (''threejs.org'', []), (''redux.js.org'', []),
      (''webpack.js.org'', []), (''jestjs.io'', []), (''reactrouter.com'', []),
      (''docs.djangoproject.com'', []), (''flask.palletsprojects.com'', []),
      (''fastapi.tiangolo.com'', []), (''pandas.pydata.org'', []), (''numpy.org'', []),
      (''www.tensorflow.org'', []), (''pytorch.org'', []), (''scikit-learn.org'', []),
      (''matplotlib.org'', []), (''requests.readthedocs.io'', []), (''jupyter.org'', []),
      (''laravel.com'', []), (''symfony.com'', []), (''wordpress.org'', []), (''docs.spring.io'', []),
      (''hibernate.org'', []), (''tomcat.apache.org'', []), (''gradle.org'', []),
      (''maven.apache.org'', []), (''asp.net'', []), (''dotnet.microsoft.com'', []),
      (''nuget.org'', []), (''blazor.net'', []), (''reactnative.dev'', []), (''docs.flutter.dev'', []),
      (''developer.apple.com'', []), (''developer.android.com'', []), (''keras.io'', []),
      (''spark.apache.org'', []), (''huggingface.co'', []), (''www.kaggle.com'', []),
      (''www.mongodb.com'', []), (''redis.io'', []), (''www.postgresql.org'', []),
      (''dev.mysql.com'', []), (''www.sqlite.org'', []), (''graphql.org'', []), (''prisma.io'', []),
      (''docs.aws.amazon.com'', []), (''cloud.google.com'', []), (''kubernetes.io'', []),
      (''www.docker.com'', []), (''www.terraform.io'', []), (''www.ansible.com'', []),
      (''vercel.com'', [''/docs'']), (''docs.netlify.com'', []), (''devcenter.heroku.com'', []),
      (''cypress.io'', []), (''selenium.dev'', []), (''docs.unity.com'', []),
      (''docs.unrealengine.com'', []), (''git-scm.com'', []), (''nginx.org'', []),
      (''httpd.apache.org'', [])]"

definition is_preapproved_host :: "string \<Rightarrow> string \<Rightarrow> bool" where
  "is_preapproved_host host path =
     (case map_of preapproved_hosts host of
        None \<Rightarrow> False
      | Some prefixes \<Rightarrow>
          prefixes = [] \<or> list_ex (\<lambda>p. path = p \<or> has_prefix path (p @ ''/'')) prefixes)"

definition extract_url :: "tool_params \<Rightarrow> string" where
  "extract_url ps =
     (case ps of
        ReadParams p \<Rightarrow> p
      | DownloadParams u \<Rightarrow> u
      | FetchParams u \<Rightarrow> u
      | MapParams m \<Rightarrow>
          (case find (\<lambda>k. case m k of Some (Some _) \<Rightarrow> True | _ \<Rightarrow> False) [''url'', ''URL'', ''path'', ''Path''] of
             None \<Rightarrow> []
           | Some k \<Rightarrow> the (the (m k)))
      | _ \<Rightarrow> [])"

text \<open>\<open>parse_url\<close> is url.Parse: the host name and the path.\<close>

definition is_preapproved_url :: "(string \<Rightarrow> (string \<times> string) option) \<Rightarrow> string \<Rightarrow> bool" where
  "is_preapproved_url parse_url u =
     (if u = [] then False
      else case parse_url u of None \<Rightarrow> False | Some (host, path) \<Rightarrow> is_preapproved_host host path)"

section \<open>The environment\<close>

record classification =
  cl_allow :: bool
  cl_reason :: string
  cl_confidence :: string
  cl_soft_deny :: bool

datatype user_answer = AnswerGrant | AnswerPersist | AnswerDeny | AnswerCancel

record request_env =
  rq_parse :: "string \<Rightarrow> string + stmt list"
  rq_url :: "string \<Rightarrow> (string \<times> string) option"
  rq_is_dir :: "string \<Rightarrow> bool option"
  rq_parent :: "string \<Rightarrow> string"
  rq_id :: string
  rq_denial_id :: string
  rq_now :: int
  rq_mode :: "string \<Rightarrow> string option"
  rq_plugin :: "permission_request \<Rightarrow> decision_kind"
  rq_classifier :: "(permission_request \<Rightarrow> string + classification) option"
  rq_identity :: worker_identity
  rq_answer :: "permission_request \<Rightarrow> user_answer"

section \<open>Bash requests\<close>

definition evaluate_bash_rules ::
  "(string \<Rightarrow> string + stmt list) \<Rightarrow> permission_request \<Rightarrow> policy_config \<Rightarrow> exec_rule list \<Rightarrow> exec_decision" where
  "evaluate_bash_rules parse req cfg rules =
     (if pr_tool req \<noteq> ''bash'' \<or> pr_action req \<noteq> ''execute''
      then decision ReqApproval ''request is not a bash execute request''
      else case pr_params req of
        BashParams command background \<Rightarrow>
          if background then policy_decision cfg DomainSandbox ''background execution requires approval''
          else if trim_space command = [] then decision ReqForbidden ''empty bash command is forbidden''
          else
            (case canonicalize_bash_command parse (trim_space command) of
               Inl err \<Rightarrow> policy_decision cfg DomainSandbox (''shell command could not be parsed: '' @ err)
             | Inr (fingerprint, ss) \<Rightarrow>
                 if ss = [] then decision ReqForbidden ''empty bash command is forbidden''
                 else
                   let d = evaluate_stmts cfg rules (decision ReqAllow []) ss in
                   if xd_requirement d = ReqForbidden then d
                   else
                     let d = (if trim_space (xd_reason d) = []
                              then d\<lparr>xd_reason := ''all shell statements are trusted read-only commands''\<rparr>
                              else d)
                     in d\<lparr>xd_fingerprint := fingerprint\<rparr>)
      | _ \<Rightarrow> decision ReqApproval ''bash permission parameters are unavailable'')"

definition evaluate_bash ::
  "(string \<Rightarrow> string + stmt list) \<Rightarrow> permission_request \<Rightarrow> policy_config \<Rightarrow> exec_rule list \<Rightarrow> exec_decision" where
  "evaluate_bash parse req cfg rules =
     evaluate_bash_rules parse req (normalize_policy_config cfg) (append_exec_rules default_exec_rules rules)"

definition high_risk_call :: "shell_word list \<Rightarrow> bool" where
  "high_risk_call ws =
     (case shell_call_args ws of
        Some name # rest \<Rightarrow>
          let cmd = normalize_command_name name in
          if cmd \<in> set high_risk_commands then True
          else if cmd = ''rm'' then list_ex (\<lambda>a. a \<noteq> None \<and> has_prefix (the a) ''-'') rest
          else if cmd = ''git'' then
            (case first_shell_subcommand rest git_value_flags of
               None \<Rightarrow> False
             | Some sub \<Rightarrow> sub = ''push'' \<or> sub = ''reset'' \<and> contains_literal_arg rest ''--hard'')
          else if cmd = ''terraform''
          then first_shell_subcommand rest terraform_value_flags \<in> {Some ''apply'', Some ''destroy''}
          else if cmd = ''docker'' then first_shell_subcommand rest docker_value_flags = Some ''push''
          else if cmd = ''npm'' then first_shell_subcommand rest npm_value_flags = Some ''publish''
          else False
      | _ \<Rightarrow> False)"

definition high_risk_node :: "cmd \<Rightarrow> bool" where
  "high_risk_node c =
     (case c of
        CallExpr assigns ws \<Rightarrow> high_risk_call ws
      | BinaryCmd op x y \<Rightarrow> (op = Pipe \<or> op = PipeAll) \<and> invokes_shell y
      | _ \<Rightarrow> False)"

definition high_risk_text :: "string \<Rightarrow> bool" where
  "high_risk_text command =
     list_ex (str_contains command)
       [''aws '', ''az '', ''curl '', ''gcloud '', ''gh '', ''git push'', ''git reset --hard'', ''kubectl '',
        ''remove-item'', ''rm -'', ''scp '', ''ssh '', ''sudo '', ''wget '', ''del '', ''terraform apply'',
        ''terraform destroy'', ''npm publish'', ''docker push'', ''| sh'', ''| bash'']"

definition high_risk_bash :: "(string \<Rightarrow> string + stmt list) \<Rightarrow> permission_request \<Rightarrow> bool" where
  "high_risk_bash parse req =
     (case pr_params req of
        BashParams command background \<Rightarrow>
          if trim_space command = [] then False
          else
            (case parse (trim_space command) of
               Inl err \<Rightarrow> high_risk_text (to_lower (trim_space command))
             | Inr ss \<Rightarrow> list_ex high_risk_node (concat (map walk_stmt ss)))
      | _ \<Rightarrow> False)"

section \<open>Paths\<close>

definition shell_startup_file :: "string \<Rightarrow> bool" where
  "shell_startup_file name \<longleftrightarrow>
     name \<in> {''.bashrc'', ''.bash_profile'', ''.bash_login'', ''.profile'', ''.zshrc'', ''.zprofile'',
       ''.zlogin'', ''.zshenv'', ''.config.fish'', ''config.fish'', ''profile.ps1'',
       ''microsoft.powershell_profile.ps1''}"

definition sensitive_path :: "string \<Rightarrow> string \<Rightarrow> bool" where
  "sensitive_path path dir =
     (case path_rel dir path of
        None \<Rightarrow> True
      | Some rel \<Rightarrow>
          let rel = path_clean rel in
          if rel = ''.'' \<or> has_prefix rel ''../'' then True
          else
            let lower = to_lower rel; base = to_lower (path_base path) in
            lower = ''.cursorrules'' \<or> lower = ''.github/copilot-instructions.md'' \<or>
            has_prefix lower ''.cursor/rules/'' \<or> has_prefix lower ''.git/'' \<or> has_prefix lower ''.crush/'' \<or>
            has_prefix lower ''.claude/'' \<or> has_prefix lower ''.vscode/'' \<or> has_prefix lower ''.idea/'' \<or>
            has_prefix base ''.env'' \<or> shell_startup_file base \<or>
            base \<in> {''agents.md'', ''agents.local.md'', ''claude.md'', ''claude.local.md'', ''gemini.md'',
              ''gemini.local.md'', ''crush.md'', ''crush.local.md'', ''crush.json'', ''.crush.json''})"

definition request_file_path :: "permission_request \<Rightarrow> string option" where
  "request_file_path req =
     (case pr_params req of EditParams p \<Rightarrow> Some p | WriteParams p \<Rightarrow> Some p | _ \<Rightarrow> None)"

definition safe_workspace_write :: "permission_request \<Rightarrow> string \<Rightarrow> bool" where
  "safe_workspace_write req dir =
     (if dir = [] then False
      else if pr_tool req \<noteq> ''edit'' \<and> pr_tool req \<noteq> ''write'' then False
      else if \<not> path_within (pr_path req) dir then False
      else case request_file_path req of
        None \<Rightarrow> False
      | Some p \<Rightarrow> p \<noteq> [] \<and> path_within p dir \<and> \<not> sensitive_path p dir)"

definition always_manual :: "request_env \<Rightarrow> permission_request \<Rightarrow> string \<Rightarrow> bool" where
  "always_manual e req dir =
     (if pr_tool req = ''download'' then
        (let u = extract_url (pr_params req) in \<not> (u \<noteq> [] \<and> is_preapproved_url (rq_url e) u))
      else if pr_tool req = ''bash'' then high_risk_bash (rq_parse e) req
      else if pr_tool req = ''edit'' \<or> pr_tool req = ''write'' then
        (case request_file_path req of None \<Rightarrow> False | Some p \<Rightarrow> sensitive_path p dir)
      else False)"

definition ignores_explicit_allow :: "request_env \<Rightarrow> permission_request \<Rightarrow> string \<Rightarrow> bool" where
  "ignores_explicit_allow e req dir \<longleftrightarrow> always_manual e req dir \<or> pr_tool req \<in> {''bash'', ''agent''}"

definition allowlisted_request :: "permission_request \<Rightarrow> bool" where
  "allowlisted_request req =
     (if pr_tool req = ''read'' then pr_action req \<in> {''read'', ''read_url''}
      else if pr_tool req \<in> {''grep'', ''glob''} then pr_action req = ''search''
      else if pr_tool req = ''agentic_fetch'' then pr_action req = ''agentic_fetch''
      else if pr_tool req \<in> {''lsp_diagnostics'', ''lsp_references'', ''lsp_declaration'', ''lsp_definition'',
        ''lsp_implementation'', ''lsp_type_definition'', ''lsp_hover'', ''lsp_document_symbols'',
        ''lsp_workspace_symbols''}
      then pr_action req \<in> {''inspect'', ''search''}
      else False)"

section \<open>The policy engine\<close>

record capability =
  ca_kind :: string
  ca_name :: string
  ca_available :: bool

definition capability_id :: "capability \<Rightarrow> string" where
  "capability_id c =
     (let kind = trim_space (ca_kind c); name = trim_space (ca_name c)
      in (if kind = [] then ''none'' else kind) @ '':'' @ (if name = [] then ''default'' else name))"

record policy_context =
  px_session :: string
  px_dir :: string
  px_mode :: string
  px_approval :: policy_config
  px_write_mode :: string
  px_capabilities :: "capability list"

record policy_verdict =
  pv_requirement :: requirement
  pv_reason :: string
  pv_cacheable :: bool
  pv_keys :: "cache_key list"
  pv_source :: string

definition no_verdict :: policy_verdict where
  "no_verdict = \<lparr>pv_requirement = ReqNone, pv_reason = [], pv_cacheable = False, pv_keys = [], pv_source = []\<rparr>"

definition verdict :: "requirement \<Rightarrow> string \<Rightarrow> string \<Rightarrow> policy_verdict" where
  "verdict req reason source = no_verdict\<lparr>pv_requirement := req, pv_reason := reason, pv_source := source\<rparr>"

type_synonym policy_evaluator = "permission_request \<Rightarrow> policy_context \<Rightarrow> policy_verdict"

definition preapproved_evaluator :: "request_env \<Rightarrow> policy_evaluator" where
  "preapproved_evaluator e req px =
     (if pr_tool req \<notin> {''download'', ''read'', ''agentic_fetch''} then no_verdict
      else
        let u = extract_url (pr_params req) in
        if u = [] then no_verdict
        else if is_preapproved_url (rq_url e) u
        then verdict ReqAllow ''preapproved host allowed this network request'' ''preapproved_host''
        else no_verdict)"

definition write_requirement :: "policy_context \<Rightarrow> requirement" where
  "write_requirement px =
     (let mode = to_lower (trim_space (px_write_mode px)) in
      if mode \<noteq> [] then
        (if mode \<in> {''forbid'', ''forbidden'', ''deny''} then ReqForbidden
         else if mode \<in> {''ask'', ''prompt''} then ReqApproval
         else ReqAllow)
      else if pc_policy (px_approval px) = ''never'' then ReqForbidden
      else ReqAllow)"

definition workspace_write_evaluator :: policy_evaluator where
  "workspace_write_evaluator req px =
     (if \<not> safe_workspace_write req (px_dir px) then no_verdict
      else case write_requirement px of
        ReqAllow \<Rightarrow> verdict ReqAllow ''workspace write policy allowed this action'' ''workspace_write''
      | ReqForbidden \<Rightarrow>
          verdict ReqForbidden ''Workspace write approval is disabled by Auto Mode policy.'' ''workspace_write''
      | _ \<Rightarrow> verdict ReqApproval ''Auto Mode workspace write policy requires manual approval.'' ''workspace_write'')"

definition read_only_evaluator :: policy_evaluator where
  "read_only_evaluator req px =
     (if \<not> allowlisted_request req then no_verdict
      else verdict ReqAllow ''read-only tool allowlist allowed this action'' ''read_only_tool'')"

definition policy_cache_key :: "permission_request \<Rightarrow> policy_context \<Rightarrow> string \<Rightarrow> cache_key" where
  "policy_cache_key req px fingerprint =
     \<lparr>ck_session = trim_space (px_session px), ck_tool = trim_space (pr_tool req),
      ck_action = trim_space (pr_action req), ck_dir = trim_space (px_dir px),
      ck_policy = pc_policy (px_approval px),
      ck_capability = (case px_capabilities px of [] \<Rightarrow> ''none:default'' | c # _ \<Rightarrow> capability_id c),
      ck_fingerprint = trim_space fingerprint\<rparr>"

definition bash_evaluator :: "request_env \<Rightarrow> exec_rule list \<Rightarrow> policy_evaluator" where
  "bash_evaluator e rules req px =
     (if pr_tool req \<noteq> ''bash'' \<or> pr_action req \<noteq> ''execute'' then no_verdict
      else
        let d = evaluate_bash (rq_parse e) req (px_approval px) rules;
            v = verdict (xd_requirement d) (xd_reason d) ''bash_exec''
        in if xd_requirement d = ReqApproval \<and> xd_fingerprint d \<noteq> []
           then v\<lparr>pv_cacheable := \<not> always_manual e req (px_dir px),
                  pv_keys := [policy_cache_key req px (xd_fingerprint d)]\<rparr>
           else v)"

definition default_engine :: "request_env \<Rightarrow> exec_rule list \<Rightarrow> policy_evaluator list" where
  "default_engine e rules =
     [preapproved_evaluator e, workspace_write_evaluator, read_only_evaluator, bash_evaluator e rules]"

definition requirement_priority :: "requirement \<Rightarrow> nat" where
  "requirement_priority r =
     (case r of ReqForbidden \<Rightarrow> 3 | ReqApproval \<Rightarrow> 2 | ReqAllow \<Rightarrow> 1 | ReqNone \<Rightarrow> 0)"

definition normalize_verdict :: "policy_verdict \<Rightarrow> policy_verdict" where
  "normalize_verdict v =
     (let v = (if trim_space (pv_source v) = [] then v\<lparr>pv_source := ''policy''\<rparr> else v)
      in if trim_space (pv_reason v) = [] then
           v\<lparr>pv_reason := (case pv_requirement v of
               ReqAllow \<Rightarrow> ''policy allowed this request''
             | ReqForbidden \<Rightarrow> ''policy blocked this request''
             | _ \<Rightarrow> ''policy requires approval'')\<rparr>
         else v)"

definition unhandled :: policy_verdict where
  "unhandled = verdict ReqApproval ''no policy evaluator handled this request'' ''none''"

text \<open>The loop of Evaluate: the decision so far, and whether an evaluator has made it.\<close>

fun evaluate_policies ::
  "policy_evaluator list \<Rightarrow> permission_request \<Rightarrow> policy_context \<Rightarrow> policy_verdict \<Rightarrow> bool \<Rightarrow> policy_verdict" where
  "evaluate_policies [] req px d handled = d"
| "evaluate_policies (f # fs) req px d handled =
     (let v = f req px in
      if pv_requirement v = ReqNone then evaluate_policies fs req px d handled
      else
        let v = normalize_verdict v in
        if pv_requirement v = ReqForbidden then v
        else if \<not> handled \<or> requirement_priority (pv_requirement v) > requirement_priority (pv_requirement d)
        then evaluate_policies fs req px v True
        else evaluate_policies fs req px d handled)"

definition engine_evaluate ::
  "policy_evaluator list \<Rightarrow> permission_request \<Rightarrow> policy_context \<Rightarrow> policy_verdict" where
  "engine_evaluate fs req px = (if fs = [] then unhandled else evaluate_policies fs req px unhandled False)"

section \<open>The service\<close>

record auto_mode =
  am_policy :: string
  am_granular :: "granular_config option"
  am_rules :: "exec_rule list"
  am_guardian :: "bool option"
  am_write_mode :: string

record auto_service =
  au_base :: permission_service
  au_dir :: string
  au_fail_closed :: bool
  au_allowed :: "string list"
  au_mode :: "auto_mode option"
  au_policy :: policy_config
  au_rules :: "exec_rule list"
  au_cache :: approval_cache
  au_states :: classifier_states

definition policy_from_config :: "auto_mode option \<Rightarrow> policy_config \<times> exec_rule list" where
  "policy_from_config cfg =
     (case cfg of
        None \<Rightarrow> (default_policy_config, [])
      | Some c \<Rightarrow>
          let p = default_policy_config;
              p = (case parse_approval_policy (am_policy c) of None \<Rightarrow> p | Some v \<Rightarrow> p\<lparr>pc_policy := v\<rparr>);
              p = (case am_granular c of None \<Rightarrow> p | Some g \<Rightarrow> p\<lparr>pc_granular := g\<rparr>)
          in (p, map (\<lambda>r. r\<lparr>xr_decision := to_lower (trim_space (xr_decision r))\<rparr>) (am_rules c)))"

definition new_auto_service ::
  "permission_service \<Rightarrow> string \<Rightarrow> bool \<Rightarrow> string list \<Rightarrow> auto_mode option \<Rightarrow> auto_service" where
  "new_auto_service base dir fail_closed allowed cfg =
     \<lparr>au_base = base, au_dir = dir, au_fail_closed = fail_closed, au_allowed = allowed, au_mode = cfg,
      au_policy = fst (policy_from_config cfg), au_rules = snd (policy_from_config cfg),
      au_cache = new_approval_cache 512, au_states = Map.empty\<rparr>"

definition clear_auto_persistent :: "string \<Rightarrow> auto_service \<Rightarrow> auto_service" where
  "clear_auto_persistent sid a =
     a\<lparr>au_base := clear_persistent sid (au_base a), au_cache := cache_clear_session sid (au_cache a)\<rparr>"

definition use_guardian :: "auto_service \<Rightarrow> bool" where
  "use_guardian a =
     (case au_mode a of None \<Rightarrow> True | Some c \<Rightarrow> (case am_guardian c of None \<Rightarrow> True | Some b \<Rightarrow> b))"

definition workspace_write_mode :: "auto_service \<Rightarrow> string" where
  "workspace_write_mode a = (case au_mode a of None \<Rightarrow> [] | Some c \<Rightarrow> am_write_mode c)"

definition effective_session :: "permission_request \<Rightarrow> string" where
  "effective_session p =
     (if trim_space (pr_authority p) \<noteq> [] then trim_space (pr_authority p) else trim_space (pr_session p))"

definition session_permission_mode :: "request_env \<Rightarrow> string \<Rightarrow> string option" where
  "session_permission_mode e sid = (if sid = [] then Some ''default'' else rq_mode e sid)"

text \<open>How a request ends: it still waits for the prompt lock, fails, or is answered.\<close>

datatype request_error = ErrPermission permission_error | ErrCanceled

datatype outcome = Waits | Failed request_error | Answered bool

text \<open>
  Prompt of the base service with what the user does meanwhile. The request is published with
  the auto review it carries.
\<close>

definition base_prompt :: "request_env \<Rightarrow> permission_request \<Rightarrow> permission_service \<Rightarrow> permission_service \<times> outcome" where
  "base_prompt e p s =
     (case prompt_open p s of
        None \<Rightarrow> (s, Waits)
      | Some s \<Rightarrow>
          let answered = (case rq_answer e p of
                AnswerGrant \<Rightarrow> grant p s
              | AnswerPersist \<Rightarrow> grant_persistent p s
              | AnswerDeny \<Rightarrow> deny p s
              | AnswerCancel \<Rightarrow> None)
          in case answered of
               None \<Rightarrow> (prompt_cancel p s, Failed ErrCanceled)
             | Some s \<Rightarrow>
                 (case prompt_receive p s of
                    None \<Rightarrow> (s, Waits)
                  | Some (s, granted) \<Rightarrow> (s, Answered granted)))"

definition prompt_with_escalation ::
  "request_env \<Rightarrow> permission_request \<Rightarrow> auto_service \<Rightarrow> auto_service \<times> outcome" where
  "prompt_with_escalation e p a =
     (let w = rq_identity e;
          p = (if wk_agent w \<noteq> [] \<and> trim_space (pr_authority p) = []
               then p\<lparr>pr_authority := trim_space (wk_parent w)\<rparr> else p)
      in if wk_agent w \<noteq> [] \<and>
            (trim_space (pr_authority p) = [] \<or> trim_space (pr_authority p) = trim_space (pr_session p))
         then (a, Failed (ErrPermission (new_blocked_error ''Subagent permission approval is unavailable.''
                 ''Auto Mode could not route this subagent permission request to the parent session.'')))
         else
           case base_prompt e p (au_base a) of (s, out) \<Rightarrow> (a\<lparr>au_base := s\<rparr>, out))"

definition with_auto_review :: "review_trigger \<Rightarrow> string \<Rightarrow> permission_request \<Rightarrow> permission_request" where
  "with_auto_review t reason p = p\<lparr>pr_review := Some \<lparr>ar_trigger = t, ar_reason = reason\<rparr>\<rparr>"

definition reset_classifier :: "string \<Rightarrow> auto_service \<Rightarrow> auto_service" where
  "reset_classifier sid a = a\<lparr>au_states := reset_blocks sid (au_states a)\<rparr>"

definition classifier_unavailable ::
  "request_env \<Rightarrow> permission_request \<Rightarrow> string \<Rightarrow> auto_service \<Rightarrow> auto_service \<times> outcome" where
  "classifier_unavailable e p message a =
     (if au_fail_closed a
      then (a, Failed (ErrPermission (new_blocked_error message
              ''Set permissions.fail_closed_on_classifier_error=false to fall back to manual confirmation.'')))
      else prompt_with_escalation e (with_auto_review ClassifierUnavailable message p) a)"

definition classifier_failure ::
  "request_env \<Rightarrow> permission_request \<Rightarrow> string \<Rightarrow> auto_service \<Rightarrow> auto_service \<times> outcome" where
  "classifier_failure e p err a =
     (let reason = ''Auto Mode permission classification failed: '' @ err in
      if au_fail_closed a
      then (a, Failed (ErrPermission (new_blocked_error ''Auto Mode permission classification failed.'' reason)))
      else prompt_with_escalation e (with_auto_review ClassifierFailed reason p) a)"

definition guardian_review ::
  "request_env \<Rightarrow> string \<Rightarrow> permission_request \<Rightarrow> string \<Rightarrow> auto_service \<Rightarrow> auto_service \<times> outcome" where
  "guardian_review e sid p reason a =
     (if \<not> use_guardian a
      then prompt_with_escalation e (with_auto_review ClassifierBlock reason p) a
      else case rq_classifier e of
        None \<Rightarrow> classifier_unavailable e p ''Auto Mode guardian review is unavailable.'' a
      | Some classify \<Rightarrow>
          (case classify (with_auto_review ClassifierBlock reason p) of
             Inl err \<Rightarrow> classifier_failure e p err a
           | Inr c \<Rightarrow>
               if cl_allow c then (reset_classifier sid a, Answered True)
               else
                 let retryable = (if \<not> cl_soft_deny c \<and> cl_confidence c = [] then True else cl_soft_deny c);
                     st = push_denial (rq_denial_id e) (rq_now e) sid p (cl_reason c) retryable
                            (record_block sid (au_states a))
                 in prompt_with_escalation e (with_auto_review ClassifierBlock (cl_reason c) p)
                      (a\<lparr>au_states := st\<rparr>)))"

definition policy_reason_with_source :: "policy_verdict \<Rightarrow> string" where
  "policy_reason_with_source v =
     (if pv_source v = [] then pv_reason v else pv_source v @ '': '' @ pv_reason v)"

definition remember_approval :: "policy_verdict \<Rightarrow> auto_service \<Rightarrow> auto_service" where
  "remember_approval v a =
     (if pv_cacheable v then a\<lparr>au_cache := cache_approve (pv_keys v) (au_cache a)\<rparr> else a)"

definition policy_approval ::
  "request_env \<Rightarrow> string \<Rightarrow> permission_request \<Rightarrow> policy_verdict \<Rightarrow> auto_service \<Rightarrow> auto_service \<times> outcome" where
  "policy_approval e sid p v a =
     (if use_guardian a then
        (case guardian_review e sid p
           (first_non_empty [policy_reason_with_source v, ''Auto Mode policy requires approval.'']) a of
           (a, Answered True) \<Rightarrow> (remember_approval v a, Answered True)
         | (a, out) \<Rightarrow> (a, out))
      else
        (case prompt_with_escalation e (with_auto_review ClassifierBlock (policy_reason_with_source v) p) a of
           (a, Answered True) \<Rightarrow> (reset_classifier sid (remember_approval v a), Answered True)
         | (a, out) \<Rightarrow> (a, out)))"

definition policy_context_of :: "string \<Rightarrow> auto_service \<Rightarrow> policy_context" where
  "policy_context_of sid a =
     \<lparr>px_session = sid, px_dir = au_dir a, px_mode = ''auto'', px_approval = au_policy a,
      px_write_mode = workspace_write_mode a,
      px_capabilities = [\<lparr>ca_kind = ''none'', ca_name = ''direct'', ca_available = True\<rparr>]\<rparr>"

definition handle_auto_mode ::
  "request_env \<Rightarrow> string \<Rightarrow> permission_request \<Rightarrow> auto_service \<Rightarrow> auto_service \<times> outcome" where
  "handle_auto_mode e sid p a =
     (let v = engine_evaluate (default_engine e (au_rules a)) p (policy_context_of sid a);
          (cache, hit) = (if pv_cacheable v then cache_approved (pv_keys v) (au_cache a) else (au_cache a, False));
          a = a\<lparr>au_cache := cache\<rparr>
      in if hit then (reset_classifier sid a, Answered True)
         else case pv_requirement v of
           ReqAllow \<Rightarrow> (reset_classifier sid a, Answered True)
         | ReqForbidden \<Rightarrow>
             (a, Failed (ErrPermission (new_blocked_error ''Auto Mode policy blocked this action.''
               (first_non_empty [pv_reason v,
                 ''The request cannot be approved under the current Auto Mode policy.'']))))
         | ReqApproval \<Rightarrow> policy_approval e sid p v a
         | ReqNone \<Rightarrow> guardian_review e sid p ''Auto Mode policy requires guardian review for this action.'' a)"

definition explicitly_allowed :: "create_request \<Rightarrow> auto_service \<Rightarrow> bool" where
  "explicitly_allowed c a \<longleftrightarrow>
     cr_tool c @ '':'' @ cr_action c \<in> set (au_allowed a) \<or> cr_tool c \<in> set (au_allowed a)"

definition allow_in_mode :: "string \<Rightarrow> string \<Rightarrow> auto_service \<Rightarrow> auto_service \<times> outcome" where
  "allow_in_mode sid mode a = ((if mode = ''auto'' then reset_classifier sid a else a), Answered True)"

definition request :: "request_env \<Rightarrow> create_request \<Rightarrow> auto_service \<Rightarrow> auto_service \<times> outcome" where
  "request e c a =
     (let p = build_request (rq_is_dir e (cr_path c)) (rq_parent e) (rq_id e) c (au_base a) in
      case evaluate_request p (au_base a) of
        DecideAllow \<Rightarrow> (a, Answered True)
      | DecideDeny \<Rightarrow> (a, Failed (ErrPermission error_blocked))
      | DecideAsk \<Rightarrow>
          let sid = effective_session p in
          (case session_permission_mode e sid of
             None \<Rightarrow> prompt_with_escalation e p a
           | Some mode \<Rightarrow>
               if mode = ''yolo'' then (a, Answered True)
               else if has_persistent p (au_base a) then allow_in_mode sid mode a
               else if explicitly_allowed c a \<and> \<not> (mode = ''auto'' \<and> ignores_explicit_allow e p (au_dir a))
               then allow_in_mode sid mode a
               else case rq_plugin e p of
                 DecideAllow \<Rightarrow> (a, Answered True)
               | DecideDeny \<Rightarrow> (a, Failed (ErrPermission error_blocked))
               | DecideAsk \<Rightarrow>
                   if mode = ''auto'' \<and> allowlisted_request p then (reset_classifier sid a, Answered True)
                   else if mode \<noteq> ''auto'' then prompt_with_escalation e p a
                   else
                     let (m, suspended) = should_suspend sid mode (au_states a);
                         a = a\<lparr>au_states := m\<rparr>
                     in if suspended
                        then prompt_with_escalation e (with_auto_review ClassifierSuspended
                               ''Auto approval is paused after repeated classifier blocks.'' p) a
                        else handle_auto_mode e sid p a))"

end
