(* ===== verification/Exec_Names.thy ===== *)
theory Exec_Names
  imports Exec_Policy
begin

text \<open>
  Names of lower-case letters, digits and dashes are what the normalisations of exec_policy.go
  leave alone; so the default rules compare commands with the very words they list.
\<close>

section \<open>Plain names\<close>

definition name_char :: "char \<Rightarrow> bool" where
  "name_char c \<longleftrightarrow> c \<in> set ''abcdefghijklmnopqrstuvwxyz0123456789-_''"

lemma ws_runes_ends: "w \<in> set ws_runes \<Longrightarrow> \<not> name_char (hd w) \<and> \<not> name_char (last w)"
proof -
  have "list_all (\<lambda>w. \<not> name_char (hd w) \<and> \<not> name_char (last w)) ws_runes" by code_simp
  then show "w \<in> set ws_runes \<Longrightarrow> \<not> name_char (hd w) \<and> \<not> name_char (last w)" by (simp add: list_all_iff)
qed

lemma trim_space_name:
  assumes "s \<noteq> []" "name_char (hd s)" "name_char (last s)"
  shows "trim_space s = s"
proof -
  have "\<not> has_prefix s w" "\<not> has_suffix s w" if w: "w \<in> set ws_runes" for w
  proof -
    note ends = ws_runes_ends [OF w] ws_runes_nonempty [OF w]
    show "\<not> has_prefix s w" using assms ends by (auto simp: has_prefix_iff hd_append)
    show "\<not> has_suffix s w" using assms ends by (auto simp: has_suffix_iff)
  qed
  then have "find (has_prefix s) ws_runes = None" "find (has_suffix s) ws_runes = None"
    by (auto simp: find_None_iff)
  then show ?thesis by (simp add: trim_space_def trim_left.simps [of s] trim_right.simps [of s])
qed

lemma to_lower_name_char: "name_char c \<or> c = CHR '' '' \<Longrightarrow> to_lower_char c = c"
proof -
  have "list_all (\<lambda>c. to_lower_char c = c) (CHR '' '' # ''abcdefghijklmnopqrstuvwxyz0123456789-_'')" by code_simp
  then show "name_char c \<or> c = CHR '' '' \<Longrightarrow> to_lower_char c = c"
    unfolding list_all_iff name_char_def by (metis list.set_intros)
qed

lemma to_lower_name: "list_all (\<lambda>c. name_char c \<or> c = CHR '' '') s \<Longrightarrow> to_lower s = s"
  by (induction s) (simp_all add: to_lower_def to_lower_name_char)

lemma takeWhile_id: "list_all P xs \<Longrightarrow> takeWhile P xs = xs"
  by (induction xs) auto

lemma path_base_name:
  assumes "s \<noteq> []" "list_all name_char s"
  shows "path_base s = s"
proof -
  have "\<not> name_char CHR ''/''" by code_simp
  with assms(2) have sl: "list_all (\<lambda>c. c \<noteq> CHR ''/'') s" by (auto simp: list_all_iff)
  have "rev s \<noteq> []" "hd (rev s) \<noteq> CHR ''/''" using assms(1) sl by (simp_all add: hd_rev list_all_iff)
  then have "dropWhile (\<lambda>c. c = CHR ''/'') (rev s) = rev s" by (simp add: dropWhile_eq_self_iff)
  moreover have tw: "takeWhile (\<lambda>c. c \<noteq> CHR ''/'') (rev s) = rev s" using sl by (intro takeWhile_id) (simp add: list_all_iff)
  ultimately show ?thesis using assms(1) by (simp only: path_base_def Let_def rev_rev_ident tw if_False rev_is_Nil_conv)
qed

definition plain_name :: "string \<Rightarrow> bool" where
  "plain_name s \<longleftrightarrow> s \<noteq> [] \<and> list_all name_char s"

definition plain_line :: "string \<Rightarrow> bool" where
  "plain_line s \<longleftrightarrow> s \<noteq> [] \<and> name_char (hd s) \<and> name_char (last s) \<and> list_all (\<lambda>c. name_char c \<or> c = CHR '' '') s"

lemma plain_name_line: "plain_name s \<Longrightarrow> plain_line s"
  by (cases s) (auto simp: plain_name_def plain_line_def list_all_iff)

lemma plain_line_simps [simp]: "plain_line s \<Longrightarrow> trim_space s = s" "plain_line s \<Longrightarrow> to_lower s = s"
  by (simp_all add: plain_line_def trim_space_name to_lower_name)

lemma plain_name_simps [simp]:
  "plain_name s \<Longrightarrow> trim_space s = s" "plain_name s \<Longrightarrow> to_lower s = s" "plain_name s \<Longrightarrow> path_base s = s"
  "plain_name s \<Longrightarrow> normalize_command_name s = s"
proof -
  assume s: "plain_name s"
  then have l: "plain_line s" by (rule plain_name_line)
  from l show t: "trim_space s = s" "to_lower s = s" by simp_all
  from s show b: "path_base s = s" by (simp add: plain_name_def path_base_name)
  from s t b show "normalize_command_name s = s" by (simp add: normalize_command_name_def plain_name_def)
qed

definition plain_rule :: "exec_rule \<Rightarrow> bool" where
  "plain_rule r \<longleftrightarrow> list_all plain_name (xr_exact r) \<and> list_all plain_line (xr_prefix r)"

lemma rule_matches_plain:
  assumes "plain_rule r"
  shows "rule_matches cmd line r \<longleftrightarrow> cmd \<in> set (xr_exact r) \<or> line \<in> set (xr_exact r) \<or>
    list_ex (\<lambda>p. line = p \<or> has_prefix line (p @ '' '')) (xr_prefix r)"
  using assms by (auto simp: rule_matches_def plain_rule_def list_all_iff list_ex_iff Let_def plain_name_simps(4))

lemma default_rules_plain: "list_all plain_rule default_exec_rules"
  by code_simp

lemma match_rules_default:
  "match_rules cmd line default_exec_rules =
     (case find (\<lambda>r. cmd \<in> set (xr_exact r) \<or> line \<in> set (xr_exact r) \<or>
        list_ex (\<lambda>p. line = p \<or> has_prefix line (p @ '' '')) (xr_prefix r)) default_exec_rules of
        None \<Rightarrow> None
      | Some r \<Rightarrow> Some (decision (rule_requirement (xr_decision r))
          (first_non_empty [xr_reason r, ''matched '' @ xr_decision r @ '' rule''])))"
proof -
  have "match_rules cmd line rs =
     (case find (\<lambda>r. cmd \<in> set (xr_exact r) \<or> line \<in> set (xr_exact r) \<or>
        list_ex (\<lambda>p. line = p \<or> has_prefix line (p @ '' '')) (xr_prefix r)) rs of
        None \<Rightarrow> None
      | Some r \<Rightarrow> Some (decision (rule_requirement (xr_decision r))
          (first_non_empty [xr_reason r, ''matched '' @ xr_decision r @ '' rule''])))"
    if "list_all plain_rule rs" for rs
    using that by (induction rs) (auto simp: rule_matches_plain)
  from this [OF default_rules_plain] show ?thesis .
qed

end
