(* ===== verification/Exec_Properties.thy ===== *)
theory Exec_Properties
  imports Auto_Permission Exec_Names
begin

text \<open>
  Which bash commands the exec policy lets run without approval (characterised by the inductive
  relation \<open>trusted\<close>), how a policy that never asks relates to one that does, what the
  fingerprint of an approved command leaves out, and a hole in the git option scan.
\<close>

section \<open>What runs without approval\<close>

text \<open>A call that runs without approval: literal words, trusted by a rule or as read-only.\<close>

definition trusted_args :: "exec_rule list \<Rightarrow> string list \<Rightarrow> bool" where
  "trusted_args rules args \<longleftrightarrow>
     (let cmd = normalize_command_name (hd args); words = map Some args in
      case match_rules cmd (normalize_command_line words) rules of
        Some d \<Rightarrow> xd_requirement d = ReqAllow
      | None \<Rightarrow> dangerous_heuristic cmd words default_policy_config = None \<and> safe_read_only cmd words)"

inductive trusted :: "exec_rule list \<Rightarrow> stmt \<Rightarrow> bool" for rules where
  trusted_call: "list_all is_null_redirect rs \<Longrightarrow> shell_call_args ws = map Some args \<Longrightarrow> args \<noteq> [] \<Longrightarrow>
    trusted_args rules args \<Longrightarrow> trusted rules (Stmt False False False False rs (Some (CallExpr [] ws)))"
| trusted_binary: "list_all is_null_redirect rs \<Longrightarrow> op = Pipe \<or> op = AndStmt \<or> op = OrStmt \<Longrightarrow>
    trusted rules x \<Longrightarrow> trusted rules y \<Longrightarrow> op = Pipe \<longrightarrow> \<not> invokes_shell y \<Longrightarrow>
    trusted rules (Stmt False False False False rs (Some (BinaryCmd op x y)))"

inductive_simps trusted_stmt_iff: "trusted rules (Stmt n b c d rs cm)"

lemma decision_simps [simp]: "xd_requirement (decision r s) = r" "xd_reason (decision r s) = s"
  by (simp_all add: decision_def)

lemma policy_decision_not_allow [simp]:
  "xd_requirement (policy_decision cfg dm s) \<noteq> ReqAllow" "xd_requirement (policy_decision cfg dm s) \<noteq> ReqNone"
  "(ReqAllow = xd_requirement (policy_decision cfg dm s)) = False"
  by (auto simp: policy_decision_def)

lemma aggregate_allow:
  "xd_requirement (aggregate_decision d e) = ReqAllow \<longleftrightarrow> xd_requirement d = ReqAllow \<and> xd_requirement e = ReqAllow"
  if "xd_requirement d \<noteq> ReqNone" "xd_requirement e \<noteq> ReqNone"
  using that by (cases "xd_requirement d"; cases "xd_requirement e") (auto simp: aggregate_decision_def)

lemma aggregate_requirement:
  "xd_requirement (aggregate_decision d e) =
     (if requirement_priority (xd_requirement d) \<ge> requirement_priority (xd_requirement e)
      then xd_requirement d else xd_requirement e)"
  if "xd_requirement d \<noteq> ReqNone" "xd_requirement e \<noteq> ReqNone"
  using that
  by (cases "xd_requirement d"; cases "xd_requirement e") (auto simp: aggregate_decision_def requirement_priority_def)

lemma rule_requirement_not_none [simp]: "rule_requirement d \<noteq> ReqNone"
  by (simp add: rule_requirement_def)

lemma match_rules_not_none: "match_rules cmd line rules = Some d \<Longrightarrow> xd_requirement d \<noteq> ReqNone"
  by (induction rules) (auto split: if_splits)

lemma rule_outcome_allow [simp]: "xd_requirement (rule_outcome cfg d) = ReqAllow \<longleftrightarrow> xd_requirement d = ReqAllow"
  by (auto simp: rule_outcome_def)

lemma dangerous_not_allow: "dangerous_heuristic cmd args cfg = Some d \<Longrightarrow> xd_requirement d \<notin> {ReqAllow, ReqNone}"
  by (auto simp: dangerous_heuristic_def split: if_splits option.splits)

lemma dangerous_none: "dangerous_heuristic cmd args cfg = None \<longleftrightarrow> dangerous_heuristic cmd args cfg' = None"
  by (simp add: dangerous_heuristic_def split: option.split)

lemma evaluate_call_not_none: "xd_requirement (evaluate_call cfg rules assigns ws) \<noteq> ReqNone"
  using match_rules_not_none dangerous_not_allow
  by (auto simp: evaluate_call_def Let_def rule_outcome_def split: list.split option.split)

lemma evaluate_not_none:
  "xd_requirement (evaluate_stmt cfg rules s) \<noteq> ReqNone"
  "xd_requirement (evaluate_cmd cfg rules c) \<noteq> ReqNone"
  by (induction s and c rule: evaluate_stmt_evaluate_cmd.induct)
    (auto simp: evaluate_call_not_none aggregate_decision_def split: option.split)

lemma all_literal: "list_all (\<lambda>a. a \<noteq> None) xs \<longleftrightarrow> (\<exists>ys. xs = map Some ys)"
proof (induction xs)
  case (Cons x xs)
  show ?case
  proof
    assume "list_all (\<lambda>a. a \<noteq> None) (x # xs)"
    with Cons obtain ys y where "xs = map Some ys" "x = Some y" by auto
    then show "\<exists>ys. x # xs = map Some ys" by (intro exI [of _ "y # ys"]) simp
  next
    assume "\<exists>ys. x # xs = map Some ys"
    then show "list_all (\<lambda>a. a \<noteq> None) (x # xs)" by (auto simp: list_all_iff)
  qed
qed simp

lemma evaluate_call_literal:
  assumes "shell_call_args ws = Some a # map Some as"
  shows "evaluate_call cfg rules [] ws =
    (case match_rules (normalize_command_name a) (normalize_command_line (Some a # map Some as)) rules of
       Some d \<Rightarrow> rule_outcome cfg d
     | None \<Rightarrow>
         (case dangerous_heuristic (normalize_command_name a) (Some a # map Some as) cfg of
            Some d \<Rightarrow> d
          | None \<Rightarrow>
              if safe_read_only (normalize_command_name a) (Some a # map Some as)
              then decision ReqAllow ''known read-only command''
              else policy_decision cfg DomainSandbox
                     (''untrusted command '' @ go_quote (normalize_command_name a) @ '' requires approval'')))"
proof -
  have "ws \<noteq> []" using assms by (auto simp: shell_call_args_def)
  moreover have "list_all (\<lambda>x. x \<noteq> None) (map Some as)" by (simp add: list_all_iff)
  ultimately show ?thesis using assms by (simp add: evaluate_call_def Let_def)
qed

lemma evaluate_literal_allow:
  assumes "shell_call_args ws = Some a # map Some as"
  shows "xd_requirement (evaluate_call cfg rules [] ws) = ReqAllow \<longleftrightarrow> trusted_args rules (a # as)"
proof -
  let ?cmd = "normalize_command_name a" and ?words = "Some a # map Some as"
  have t: "trusted_args rules (a # as) \<longleftrightarrow>
     (case match_rules ?cmd (normalize_command_line ?words) rules of
        Some d \<Rightarrow> xd_requirement d = ReqAllow
      | None \<Rightarrow> dangerous_heuristic ?cmd ?words cfg = None \<and> safe_read_only ?cmd ?words)"
    using dangerous_none [of ?cmd ?words cfg default_policy_config]
    by (simp only: trusted_args_def Let_def list.sel(1) list.map)
  show ?thesis unfolding t evaluate_call_literal [OF assms]
    using dangerous_not_allow [of ?cmd ?words cfg] by (auto split: option.split)
qed

lemma evaluate_call_allow:
  "xd_requirement (evaluate_call cfg rules assigns ws) = ReqAllow \<longleftrightarrow>
     assigns = [] \<and> (\<exists>args. shell_call_args ws = map Some args \<and> args \<noteq> [] \<and> trusted_args rules args)"
proof (cases "assigns = [] \<and> (\<exists>a as. shell_call_args ws = map Some (a # as))")
  case True
  then obtain a as where args: "assigns = []" "shell_call_args ws = map Some (a # as)" by blast
  have "args = a # as" if "shell_call_args ws = map Some args" for args
    using that args(2) by (metis inj_map_eq_map inj_Some)
  then have "(\<exists>args. shell_call_args ws = map Some args \<and> args \<noteq> [] \<and> trusted_args rules args) \<longleftrightarrow>
      trusted_args rules (a # as)" using args(2) by blast
  with args evaluate_literal_allow [of ws a as cfg rules] show ?thesis by simp
next
  case False
  have "xd_requirement (evaluate_call cfg rules assigns ws) \<noteq> ReqAllow"
  proof (cases "ws = [] \<or> assigns \<noteq> []")
    case no: False
    then have ne: "shell_call_args ws \<noteq> []" by (simp add: shell_call_args_def)
    have "\<not> list_all (\<lambda>a. a \<noteq> None) (shell_call_args ws)"
    proof
      assume "list_all (\<lambda>a. a \<noteq> None) (shell_call_args ws)"
      then obtain ys where "shell_call_args ws = map Some ys" unfolding all_literal by blast
      with ne False no show False by (cases ys) auto
    qed
    with no show ?thesis by (auto simp: evaluate_call_def Let_def split: list.split option.split)
  qed (auto simp: evaluate_call_def)
  with False show ?thesis by (auto simp: neq_Nil_conv)
qed

lemma null_redirects: "list_all is_null_redirect rs \<longleftrightarrow> \<not> has_unsafe_redirection rs"
  by (auto simp: has_unsafe_redirection_def list_all_iff list_ex_iff)

lemma evaluate_allow:
  "xd_requirement (evaluate_stmt cfg rules s) = ReqAllow \<longleftrightarrow> trusted rules s"
  "xd_requirement (evaluate_cmd cfg rules c) = ReqAllow \<longleftrightarrow> trusted rules (Stmt False False False False [] (Some c))"
proof (induction s and c rule: evaluate_stmt_evaluate_cmd.induct)
  case (1 cfg rules n b c d rs cm)
  then show ?case
    by (cases cm) (auto simp: trusted_stmt_iff null_redirects simp del: evaluate_cmd.simps)
next
  case (2 cfg rules assigns ws)
  then show ?case by (auto simp: trusted_stmt_iff evaluate_call_allow)
next
  case (3 cfg rules op x y)
  have agg: "xd_requirement (aggregate_decision (evaluate_stmt cfg rules x) (evaluate_stmt cfg rules y)) = ReqAllow \<longleftrightarrow>
      xd_requirement (evaluate_stmt cfg rules x) = ReqAllow \<and> xd_requirement (evaluate_stmt cfg rules y) = ReqAllow"
    by (rule aggregate_allow) (rule evaluate_not_none)+
  from 3 show ?case by (cases op; cases "invokes_shell y") (simp_all add: trusted_stmt_iff agg)
qed (simp_all add: trusted_stmt_iff)

lemma evaluate_stmts_allow:
  "xd_requirement d = ReqAllow \<or> xd_requirement d = ReqApproval \<Longrightarrow>
   xd_requirement (evaluate_stmts cfg rules d ss) = ReqAllow \<longleftrightarrow>
     xd_requirement d = ReqAllow \<and> list_all (trusted rules) ss"
proof (induction ss arbitrary: d)
  case (Cons s ss)
  let ?d = "aggregate_decision d (evaluate_stmt cfg rules s)"
  have n: "xd_requirement (evaluate_stmt cfg rules s) \<noteq> ReqNone" "xd_requirement d \<noteq> ReqNone"
    using Cons.prems evaluate_not_none(1) by auto
  have "xd_requirement ?d \<noteq> ReqNone" using n by (auto simp: aggregate_decision_def)
  then consider "xd_requirement ?d = ReqForbidden" | "xd_requirement ?d = ReqAllow \<or> xd_requirement ?d = ReqApproval"
    by (cases "xd_requirement ?d") auto
  then show ?case
  proof cases
    case 1
    with aggregate_allow [OF n(2,1)] evaluate_allow(1) show ?thesis by auto
  next
    case 2
    with Cons.IH [OF 2] aggregate_allow [OF n(2,1)] evaluate_allow(1) [of cfg rules s]
    show ?thesis by (auto simp: Let_def)
  qed
qed simp

lemma bash_allow_iff:
  assumes "pr_tool req = ''bash''" "pr_action req = ''execute''" "pr_params req = BashParams command background"
  shows "xd_requirement (evaluate_bash parse req cfg rules) = ReqAllow \<longleftrightarrow>
    \<not> background \<and> trim_space command \<noteq> [] \<and>
    (\<exists>ss. parse (trim_space command) = Inr ss \<and> ss \<noteq> [] \<and>
       list_all (trusted (append_exec_rules default_exec_rules rules)) ss)"
proof -
  let ?cfg = "normalize_policy_config cfg" and ?rules = "append_exec_rules default_exec_rules rules"
  have st: "xd_requirement (evaluate_stmts ?cfg ?rules (decision ReqAllow []) ss) = ReqAllow \<longleftrightarrow>
      list_all (trusted ?rules) ss" for ss
    using evaluate_stmts_allow [of "decision ReqAllow []"] by simp
  show ?thesis
  proof (cases "\<not> background \<and> trim_space command \<noteq> []")
    case True
    show ?thesis
    proof (cases "parse (trim_space command)")
      case (Inl err)
      with True assms show ?thesis
        by (simp add: evaluate_bash_def evaluate_bash_rules_def canonicalize_bash_command_def trim_space_idem)
    next
      case (Inr ss)
      with True assms st [of ss] show ?thesis
        by (auto simp: evaluate_bash_def evaluate_bash_rules_def canonicalize_bash_command_def trim_space_idem Let_def)
    qed
  qed (use assms in \<open>auto simp: evaluate_bash_def evaluate_bash_rules_def\<close>)
qed

text \<open>
  C6. A bash command is allowed without approval exactly when it runs in the foreground, parses
  to at least one statement, and every statement is a call, or calls joined by pipes, and-lists
  and or-lists, with literal words only, no assignments, no redirections but of errors to the
  null device, nothing piped into a shell, and every call trusted by the first rule that matches
  it, or matched by none, not dangerous and on the read-only list. No approval policy widens it.
\<close>

theorem exec_allow_characterised:
  assumes "pr_tool req = ''bash''" "pr_action req = ''execute''" "pr_params req = BashParams command background"
  shows "xd_requirement (evaluate_bash parse req cfg rules) = ReqAllow \<longleftrightarrow>
    \<not> background \<and> trim_space command \<noteq> [] \<and>
    (\<exists>ss. parse (trim_space command) = Inr ss \<and> ss \<noteq> [] \<and>
       list_all (trusted (append_exec_rules default_exec_rules rules)) ss)"
  using assms by (rule bash_allow_iff)

text \<open>Commands of literal words, and a parser that knows them.\<close>

definition plain_stmt :: "string list \<Rightarrow> redirect list \<Rightarrow> stmt" where
  "plain_stmt ws rs = Stmt False False False False rs (Some (CallExpr [] (map (\<lambda>w. [Lit w]) ws)))"

definition ex_parse :: "string \<Rightarrow> string + stmt list" where
  "ex_parse s =
     (if s = ''ls'' then Inr [plain_stmt [''ls''] []]
      else if s = ''make'' then Inr [plain_stmt [''make''] []]
      else if s = ''make > /etc/profile''
      then Inr [plain_stmt [''make''] [Redirect None RdrOut (Some [Lit ''/etc/profile'']) []]]
      else Inl ''unknown'')"

definition bash_request :: "string \<Rightarrow> permission_request" where
  "bash_request command =
     \<lparr>pr_id = ''i'', pr_session = ''s'', pr_authority = ''s'', pr_tool_call = ''c'', pr_tool = ''bash'',
      pr_description = [], pr_action = ''execute'', pr_params = BashParams command False, pr_path = ''/w'',
      pr_review = None\<rparr>"

lemma shell_call_args_plain:
  "list_all plain_name ws \<Longrightarrow> shell_call_args (map (\<lambda>w. [Lit w]) ws) = map Some ws"
  by (induction ws) (auto simp: shell_call_args_def literal_word_def)

lemma ls_trusted: "trusted default_exec_rules (plain_stmt [''ls''] [])"
proof -
  have "match_rules ''ls'' ''ls'' default_exec_rules = None" unfolding match_rules_default by code_simp
  moreover have "normalize_command_name ''ls'' = ''ls''" "normalize_command_line [Some ''ls''] = ''ls''"
    "dangerous_heuristic ''ls'' [Some ''ls''] default_policy_config = None" "safe_read_only ''ls'' [Some ''ls'']"
    by code_simp+
  ultimately have "trusted_args default_exec_rules [''ls'']" by (simp add: trusted_args_def)
  moreover have "plain_name ''ls''" by code_simp
  then have "shell_call_args (map (\<lambda>w. [Lit w]) [''ls'']) = map Some [''ls'']"
    by (intro shell_call_args_plain) simp
  ultimately show ?thesis unfolding plain_stmt_def by (intro trusted_call [of _ _ "[''ls'']"]) simp_all
qed

theorem exec_allow_characterised_witness:
  "xd_requirement (evaluate_bash ex_parse (bash_request ''ls'') default_policy_config []) = ReqAllow"
proof -
  have t: "trim_space ''ls'' = ''ls''" by code_simp
  have "pr_tool (bash_request ''ls'') = ''bash''" "pr_action (bash_request ''ls'') = ''execute''"
    "pr_params (bash_request ''ls'') = BashParams ''ls'' False" by (simp_all add: bash_request_def)
  from exec_allow_characterised [OF this, of ex_parse default_policy_config "[]"] ls_trusted
  show ?thesis by (simp add: t ex_parse_def append_exec_rules_def)
qed

section \<open>Policies that never ask\<close>

fun harden :: "requirement \<Rightarrow> requirement" where
  "harden ReqApproval = ReqForbidden"
| "harden r = r"

definition hardens :: "exec_decision \<Rightarrow> exec_decision \<Rightarrow> bool" where
  "hardens d d' \<longleftrightarrow> xd_requirement d = harden (xd_requirement d')"

lemma hardens_policy:
  "\<not> policy_allows_prompt cfg dm \<Longrightarrow> policy_allows_prompt cfg' dm \<Longrightarrow>
   hardens (policy_decision cfg dm s) (policy_decision cfg' dm s)"
  by (simp add: hardens_def policy_decision_def)

lemma hardens_same: "xd_requirement d \<noteq> ReqApproval \<Longrightarrow> hardens d d"
  by (cases "xd_requirement d") (auto simp: hardens_def)

lemma hardens_aggregate:
  assumes "hardens d d'" "hardens e e'" "xd_requirement d' \<noteq> ReqNone" "xd_requirement e' \<noteq> ReqNone"
  shows "hardens (aggregate_decision d e) (aggregate_decision d' e')"
  using assms
  by (cases "xd_requirement d'"; cases "xd_requirement e'") (auto simp: hardens_def aggregate_decision_def)

definition stricter :: "policy_config \<Rightarrow> policy_config \<Rightarrow> bool" where
  "stricter cfg cfg' \<longleftrightarrow> (\<forall>dm. \<not> policy_allows_prompt cfg dm \<and> policy_allows_prompt cfg' dm)"

lemma hardens_policy_decision:
  "stricter cfg cfg' \<Longrightarrow> hardens (policy_decision cfg dm s) (policy_decision cfg' dm s)"
  by (simp add: hardens_policy stricter_def)

lemma hardens_rule: "stricter cfg cfg' \<Longrightarrow> hardens (rule_outcome cfg d) (rule_outcome cfg' d)"
  by (auto simp: rule_outcome_def hardens_policy_decision hardens_same)

lemma hardens_dangerous:
  "stricter cfg cfg' \<Longrightarrow> dangerous_heuristic cmd args cfg = Some d \<Longrightarrow>
   dangerous_heuristic cmd args cfg' = Some d' \<Longrightarrow> hardens d d'"
  using hardens_policy_decision [of cfg cfg'] hardens_same
  by (auto simp: dangerous_heuristic_def split: if_splits option.splits)

lemma dangerous_None_Some:
  "dangerous_heuristic cmd args cfg = None \<Longrightarrow> dangerous_heuristic cmd args cfg' = Some d \<Longrightarrow> False"
  using dangerous_none [of cmd args cfg cfg'] by simp

lemma hardens_call:
  "stricter cfg cfg' \<Longrightarrow> hardens (evaluate_call cfg rules as ws) (evaluate_call cfg' rules as ws)"
  using hardens_policy_decision [of cfg cfg'] hardens_same hardens_rule [of cfg cfg'] hardens_dangerous [of cfg cfg']
  by (auto simp: evaluate_call_def Let_def split: list.split option.split dest: dangerous_None_Some)

lemma hardens_evaluate:
  "stricter cfg cfg' \<Longrightarrow> hardens (evaluate_stmt cfg rules s) (evaluate_stmt cfg' rules s)"
  "stricter cfg cfg' \<Longrightarrow> hardens (evaluate_cmd cfg rules c) (evaluate_cmd cfg' rules c)"
proof (induction cfg' rules s and cfg' rules c rule: evaluate_stmt_evaluate_cmd.induct)
  case (1 cfg' rules n b c d rs cm)
  then show ?case by (auto simp: hardens_policy_decision split: option.split simp del: evaluate_cmd.simps)
next
  case (2 cfg' rules assigns ws)
  then show ?case by (simp add: hardens_call)
next
  case (3 cfg' rules op x y)
  then show ?case by (auto simp: hardens_policy_decision intro!: hardens_aggregate evaluate_not_none)
qed (simp_all add: hardens_policy_decision)

lemma approval_stays:
  "xd_requirement d = ReqApproval \<Longrightarrow> xd_requirement (evaluate_stmts cfg rules d ss) \<in> {ReqApproval, ReqForbidden}"
proof (induction ss arbitrary: d)
  case (Cons s ss)
  let ?d = "aggregate_decision d (evaluate_stmt cfg rules s)"
  have "xd_requirement ?d \<in> {ReqApproval, ReqForbidden}"
    using Cons.prems by (auto simp: aggregate_decision_def)
  with Cons.IH [of ?d] show ?case by (auto simp: Let_def)
qed simp

lemma hardens_stmts:
  assumes "stricter cfg cfg'"
  shows "hardens d d' \<Longrightarrow> xd_requirement d' = ReqAllow \<Longrightarrow>
    hardens (evaluate_stmts cfg rules d ss) (evaluate_stmts cfg' rules d' ss)"
proof (induction ss arbitrary: d d')
  case (Cons s ss)
  let ?d = "aggregate_decision d (evaluate_stmt cfg rules s)" and ?d' = "aggregate_decision d' (evaluate_stmt cfg' rules s)"
  have h: "hardens ?d ?d'"
    using Cons.prems evaluate_not_none(1) hardens_evaluate(1) [OF assms] by (intro hardens_aggregate) auto
  have "xd_requirement ?d' \<noteq> ReqNone" using Cons.prems evaluate_not_none(1) by (auto simp: aggregate_decision_def)
  then consider "xd_requirement ?d' = ReqAllow" | "xd_requirement ?d' = ReqForbidden" | "xd_requirement ?d' = ReqApproval"
    by (cases "xd_requirement ?d'") auto
  then show ?case
  proof cases
    case 1
    with h Cons.IH [OF h 1] show ?thesis by (simp add: Let_def hardens_def)
  next
    case 2
    with h show ?thesis by (simp add: Let_def hardens_def)
  next
    case 3
    with h approval_stays [OF 3, of cfg' rules ss] show ?thesis by (auto simp: Let_def hardens_def)
  qed
qed simp

lemma evaluate_stmts_not_none:
  "xd_requirement d \<noteq> ReqNone \<Longrightarrow> xd_requirement (evaluate_stmts cfg rules d ss) \<noteq> ReqNone"
proof (induction ss arbitrary: d)
  case (Cons s ss)
  have "xd_requirement (aggregate_decision d (evaluate_stmt cfg rules s)) \<noteq> ReqNone"
    using Cons.prems evaluate_not_none(1) by (auto simp: aggregate_decision_def)
  with Cons.IH show ?case by (simp add: Let_def)
qed simp

lemma evaluate_bash_not_none: "xd_requirement (evaluate_bash parse req cfg rules) \<noteq> ReqNone"
  using evaluate_stmts_not_none [of "decision ReqAllow []"]
  by (auto simp: evaluate_bash_def evaluate_bash_rules_def Let_def split: tool_params.split sum.split)

text \<open>
  A policy that never asks is the one that asks, with a denial in place of every question:
  under \<open>never\<close>, and under a granular policy with both questions switched off, a bash request is
  allowed exactly when it is allowed under any policy that asks, and forbidden otherwise.
\<close>

theorem never_policy_denies_what_others_ask:
  assumes "pr_tool req = ''bash''" "pr_action req = ''execute''" "pr_params req = BashParams command background"
    "stricter (normalize_policy_config cfg) (normalize_policy_config cfg')"
  shows "xd_requirement (evaluate_bash parse req cfg rules) =
    (if xd_requirement (evaluate_bash parse req cfg' rules) = ReqAllow then ReqAllow else ReqForbidden)"
proof -
  let ?c = "normalize_policy_config cfg" and ?c' = "normalize_policy_config cfg'"
    and ?rules = "append_exec_rules default_exec_rules rules"
  have st: "hardens (evaluate_stmts ?c ?rules (decision ReqAllow []) ss) (evaluate_stmts ?c' ?rules (decision ReqAllow []) ss)" for ss
    by (rule hardens_stmts [OF assms(4)]) (simp_all add: hardens_same)
  have "hardens (evaluate_bash parse req cfg rules) (evaluate_bash parse req cfg' rules)"
  proof (cases "\<not> background \<and> trim_space command \<noteq> []")
    case True
    show ?thesis
    proof (cases "parse (trim_space command)")
      case (Inl err)
      with True assms show ?thesis
        by (simp add: evaluate_bash_def evaluate_bash_rules_def canonicalize_bash_command_def trim_space_idem
            hardens_policy_decision)
    next
      case (Inr ss)
      with True assms st [of ss] show ?thesis
        by (auto simp: evaluate_bash_def evaluate_bash_rules_def canonicalize_bash_command_def trim_space_idem
            Let_def hardens_def)
    qed
  qed (use assms in \<open>auto simp: evaluate_bash_def evaluate_bash_rules_def hardens_policy_decision hardens_same\<close>)
  moreover have "xd_requirement (evaluate_bash parse req cfg' rules) \<noteq> ReqNone" by (rule evaluate_bash_not_none)
  ultimately show ?thesis by (cases "xd_requirement (evaluate_bash parse req cfg' rules)") (auto simp: hardens_def)
qed

definition never_policy :: policy_config where
  "never_policy = default_policy_config\<lparr>pc_policy := ''never''\<rparr>"

lemma make_not_trusted: "\<not> trusted default_exec_rules (plain_stmt [''make''] rs)"
proof -
  have m: "match_rules ''make'' ''make'' default_exec_rules = None" unfolding match_rules_default by code_simp
  have n: "normalize_command_name ''make'' = ''make''" "normalize_command_line [Some ''make''] = ''make''"
    "\<not> safe_read_only ''make'' [Some ''make'']"
    by code_simp+
  have args: "shell_call_args [[Lit ''make'']] = [Some ''make'']" by code_simp
  have "as = [''make'']" if "[Some ''make''] = map Some as" for as using that by (cases as) auto
  then show ?thesis
    by (auto simp: plain_stmt_def trusted_stmt_iff args trusted_args_def m n)
qed

theorem never_policy_denies_what_others_ask_witness:
  "xd_requirement (evaluate_bash ex_parse (bash_request ''make'') never_policy []) = ReqForbidden"
proof -
  have t: "trim_space ''make'' = ''make''" by code_simp
  have r: "pr_tool (bash_request ''make'') = ''bash''" "pr_action (bash_request ''make'') = ''execute''"
    "pr_params (bash_request ''make'') = BashParams ''make'' False" by (simp_all add: bash_request_def)
  have "xd_requirement (evaluate_bash ex_parse (bash_request ''make'') default_policy_config []) \<noteq> ReqAllow"
    using bash_allow_iff [OF r, of ex_parse default_policy_config "[]"] make_not_trusted [of "[]"]
    by (simp add: t ex_parse_def append_exec_rules_def)
  moreover have "stricter (normalize_policy_config never_policy) (normalize_policy_config default_policy_config)"
    by (auto simp: stricter_def normalize_policy_config_def never_policy_def default_policy_config_def
        policy_allows_prompt_def)
  ultimately show ?thesis using never_policy_denies_what_others_ask [OF r, of never_policy default_policy_config ex_parse "[]"]
    by simp
qed

section \<open>A hole in the git scan\<close>

definition git_word :: "string \<Rightarrow> bool" where
  "git_word w \<longleftrightarrow> plain_name w \<and> \<not> has_prefix w ''-''"

lemma no_pager_line:
  "match_rules ''git'' (''git --no-pager '' @ rest) default_exec_rules = None"
  unfolding match_rules_default
  by (simp add: default_exec_rules_def has_prefix_iff)


lemma plain_args:
  "list_all plain_name xs \<Longrightarrow> map (\<lambda>a. to_lower (trim_space (the a))) (map Some xs) = xs"
  by (induction xs) auto

lemma plain_lines:
  assumes "list_all plain_name xs"
  shows "normalize_command_line (map Some xs) = str_join '' '' xs" "shell_args_to_strings (map Some xs) = xs"
proof -
  have "list_all (\<lambda>a. a \<noteq> None) (map Some xs)" by (simp add: list_all_iff)
  then show "normalize_command_line (map Some xs) = str_join '' '' xs" "shell_args_to_strings (map Some xs) = xs"
    unfolding normalize_command_line_def shell_args_to_strings_def plain_args [OF assms] by simp_all
qed

lemma git_words: "plain_name ''git''" "plain_name ''--no-pager''" "plain_name ''diff''"
  "normalize_command_name ''git'' = ''git''"
  by code_simp+

lemma no_pager_not_dangerous:
  assumes "git_word w" "w \<noteq> ''push''" "w \<noteq> ''reset''"
  shows "dangerous_heuristic ''git'' (Some ''git'' # Some ''--no-pager'' # Some w # rest) cfg = None"
proof -
  have "w \<noteq> []" "w \<noteq> ''--''" "trim_space w = w" "to_lower w = w" "\<not> has_prefix w ''-''"
    using assms(1) by (auto simp: git_word_def plain_name_def has_prefix_iff)
  then have "first_shell_subcommand (Some w # rest) git_value_flags = Some w" by (simp add: Let_def)
  moreover have "trim_space ''--no-pager'' = ''--no-pager''" "str_cut ''--no-pager'' CHR ''='' = (''--no-pager'', [], False)"
    "map_of git_value_flags ''--no-pager'' = Some False" "has_prefix ''--no-pager'' ''-''"
    by code_simp+
  ultimately have "first_shell_subcommand (Some ''--no-pager'' # Some w # rest) git_value_flags = Some w"
    by (simp only: first_shell_subcommand.simps Let_def) simp
  moreover have "''git'' \<notin> set high_risk_commands" "''git'' \<notin> set forbidden_commands" by code_simp+
  ultimately show ?thesis using assms(2,3) by (simp add: dangerous_heuristic_def)
qed

lemma no_pager_safe:
  assumes "git_word w" "list_all plain_name xs" "\<not> git_unsafe_option xs"
  shows "safe_git (map Some ([''git'', ''--no-pager'', w, ''diff''] @ xs))"
proof -
  let ?fields = "[''git'', ''--no-pager'', w, ''diff''] @ xs"
  have "list_all plain_name ?fields" using assms(1,2) git_words by (simp add: git_word_def)
  then have f: "shell_args_to_strings (map Some ?fields) = ?fields" by (rule plain_lines(2))
  have "\<not> unsafe_git_global ''--no-pager''" "git_global_with_value ''--no-pager''" "\<not> unsafe_git_global ''diff''"
    "\<not> git_global_with_value ''diff''" "\<not> has_prefix ''diff'' ''-''"
    by code_simp+
  then have "git_subcommand_at (tl ?fields) = Some (''diff'', xs)" by simp
  with f assms(3) show ?thesis by (simp add: safe_git_def Let_def)
qed

lemma no_pager_trusted:
  assumes "git_word w" "w \<noteq> ''push''" "w \<noteq> ''reset''" "list_all plain_name xs" "\<not> git_unsafe_option xs"
  shows "trusted default_exec_rules (plain_stmt ([''git'', ''--no-pager'', w, ''diff''] @ xs) [])"
proof -
  let ?args = "[''git'', ''--no-pager'', w, ''diff''] @ xs"
  have plain: "list_all plain_name ?args" using assms(1,4) git_words by (simp add: git_word_def)
  have "normalize_command_line (map Some ?args) = ''git --no-pager '' @ str_join '' '' ([w, ''diff''] @ xs)"
    unfolding plain_lines(1) [OF plain] by simp
  then have "match_rules ''git'' (normalize_command_line (map Some ?args)) default_exec_rules = None"
    by (simp only: no_pager_line)
  moreover have "dangerous_heuristic ''git'' (map Some ?args) default_policy_config = None"
    using no_pager_not_dangerous [OF assms(1-3), of "map Some (''diff'' # xs)"] by simp
  moreover have "safe_read_only ''git'' (map Some ?args)"
  proof -
    have "''git'' \<notin> set plain_read_only" by code_simp
    then show ?thesis using no_pager_safe [OF assms(1,4,5)] by (simp add: safe_read_only_def)
  qed
  ultimately have "trusted_args default_exec_rules ?args"
    using git_words(4) by (simp add: trusted_args_def Let_def)
  with shell_call_args_plain [OF plain] show ?thesis
    unfolding plain_stmt_def by (intro trusted_call [of _ _ ?args]) simp_all
qed

text \<open>
  The git option scan takes \<open>--no-pager\<close> for an option with a value and skips the word after
  it. So \<open>git --no-pager\<close> with any subcommand but push and reset, followed by the word diff and any
  further plain words, runs without approval under every policy: checkout, clean or rm included.
\<close>

theorem git_no_pager_hides_subcommand:
  assumes "git_word w" "w \<noteq> ''push''" "w \<noteq> ''reset''" "list_all plain_name xs" "\<not> git_unsafe_option xs"
    "trim_space command \<noteq> []"
    "parse (trim_space command) = Inr [plain_stmt ([''git'', ''--no-pager'', w, ''diff''] @ xs) []]"
  shows "xd_requirement (evaluate_bash parse (bash_request command) cfg []) = ReqAllow"
proof -
  have r: "pr_tool (bash_request command) = ''bash''" "pr_action (bash_request command) = ''execute''"
    "pr_params (bash_request command) = BashParams command False" by (simp_all add: bash_request_def)
  show ?thesis using bash_allow_iff [OF r, of parse cfg "[]"] no_pager_trusted [OF assms(1-5)] assms(6,7)
    by (simp add: append_exec_rules_def)
qed

theorem git_no_pager_hides_subcommand_witness:
  "xd_requirement (evaluate_bash (\<lambda>s. Inr [plain_stmt [''git'', ''--no-pager'', ''clean'', ''diff'', ''-fd''] []])
     (bash_request ''git --no-pager clean diff -fd'') never_policy []) = ReqAllow"
proof -
  have "git_word ''clean''" "trim_space ''git --no-pager clean diff -fd'' \<noteq> []" "list_all plain_name [''-fd'']"
    "\<not> git_unsafe_option [''-fd'']" by code_simp+
  then show ?thesis
    using git_no_pager_hides_subcommand [of "''clean''" "[''-fd'']" "''git --no-pager clean diff -fd''"] by simp
qed


end
