(* ===== verification/Permission_Properties.thy ===== *)
theory Permission_Properties
  imports Permission_Service
begin

text \<open>
  The permission service as a machine of its operations, and what a prompt gives back; the
  escalation bridge as a step relation with its invariant.
\<close>

section \<open>Prompts\<close>

text \<open>What the other goroutines do to the service while a prompt waits.\<close>

datatype service_op =
    OpGrant permission_request | OpGrantPersistent permission_request | OpDeny permission_request
  | OpClear string | OpAutoApprove string bool | OpSkip bool | OpSkill string "string list"
  | OpPrompt permission_request

fun service_step :: "service_op \<Rightarrow> permission_service \<Rightarrow> permission_service option" where
  "service_step (OpGrant p) s = grant p s"
| "service_step (OpGrantPersistent p) s = grant_persistent p s"
| "service_step (OpDeny p) s = deny p s"
| "service_step (OpClear sid) s = Some (clear_persistent sid s)"
| "service_step (OpAutoApprove sid on) s = Some (set_session_auto_approve sid on s)"
| "service_step (OpSkip on) s = Some (set_skip_requests on s)"
| "service_step (OpSkill n ts) s = Some (set_skill_context n ts s)"
| "service_step (OpPrompt p) s = prompt_open p s"

fun service_run :: "service_op list \<Rightarrow> permission_service \<Rightarrow> permission_service option" where
  "service_run [] s = Some s"
| "service_run (x # xs) s = (case service_step x s of None \<Rightarrow> None | Some s \<Rightarrow> service_run xs s)"

text \<open>The answers among the operations to the request with an id.\<close>

fun answer_to :: "string \<Rightarrow> service_op \<Rightarrow> bool option" where
  "answer_to i (OpGrant p) = (if pr_id p = i then Some True else None)"
| "answer_to i (OpGrantPersistent p) = (if pr_id p = i then Some True else None)"
| "answer_to i (OpDeny p) = (if pr_id p = i then Some False else None)"
| "answer_to i _ = None"

definition answers :: "string \<Rightarrow> service_op list \<Rightarrow> bool list" where
  "answers i ops = List.map_filter (answer_to i) ops"

lemma respond_other: "respond i g s = Some s' \<Longrightarrow> j \<noteq> i \<Longrightarrow> ps_pending s' j = ps_pending s j"
  by (auto simp: respond_def split: option.splits)

lemma respond_locked: "respond i g s = Some s' \<Longrightarrow> ps_locked s' = ps_locked s"
  by (auto simp: respond_def split: option.splits)

lemma respond_own: "respond i g s = Some s' \<Longrightarrow> ps_pending s i = Some c \<Longrightarrow> c = None \<and> ps_pending s' i = Some (Some g)"
  by (auto simp: respond_def split: option.splits)

lemma notify_fields [simp]:
  "ps_pending (notify p g d s) = ps_pending s" "ps_locked (notify p g d s) = ps_locked s"
  "ps_active (notify p g d s) = ps_active s" "ps_persistent (notify p g d s) = ps_persistent s"
  by (simp_all add: notify_def)

lemma clear_active_fields [simp]:
  "ps_pending (clear_active i s) = ps_pending s" "ps_locked (clear_active i s) = ps_locked s"
  "ps_persistent (clear_active i s) = ps_persistent s"
  by (simp_all add: clear_active_def split: option.split)

lemma service_step_waiting:
  assumes "service_step x s = Some s'" "ps_locked s" "ps_pending s i = Some c"
  shows "ps_locked s' \<and>
    (case answer_to i x of None \<Rightarrow> ps_pending s' i = Some c
     | Some g \<Rightarrow> c = None \<and> ps_pending s' i = Some (Some g))"
proof -
  have 1: "ps_locked s1 \<and> (if j = i then c = None \<and> ps_pending s1 i = Some (Some g) else ps_pending s1 i = Some c)"
    if "respond j g (notify p h d s) = Some s1" for j g p h d s1
    using that assms(2,3) respond_other [OF that, of i] respond_locked [OF that] respond_own [OF that]
    by auto
  show ?thesis
    using assms by (cases x)
      (auto simp: grant_def grant_persistent_def deny_def clear_persistent_def set_session_auto_approve_def
        set_skip_requests_def set_skill_context_def prompt_open_def dest!: 1 split: option.splits)
qed

lemma service_run_waiting:
  assumes "service_run ops s = Some s'" "ps_locked s" "ps_pending s i = Some c"
  shows "ps_locked s' \<and> ((answers i ops = [] \<and> ps_pending s' i = Some c) \<or>
    (\<exists>g. answers i ops = [g] \<and> c = None \<and> ps_pending s' i = Some (Some g)))"
  using assms
proof (induction ops arbitrary: s c)
  case Nil
  then show ?case by (simp add: answers_def map_filter_simps)
next
  case (Cons x xs)
  then obtain s1 where s1: "service_step x s = Some s1" "service_run xs s1 = Some s'"
    by (auto split: option.splits)
  note st = service_step_waiting [OF s1(1) Cons.prems(2,3)]
  show ?case
  proof (cases "answer_to i x")
    case None
    with st Cons.IH [OF s1(2)] show ?thesis by (auto simp: answers_def map_filter_simps)
  next
    case (Some g)
    with st have "ps_locked s1" "ps_pending s1 i = Some (Some g)" "c = None" by auto
    with Cons.IH [OF s1(2) this(1,2)] Some show ?thesis by (auto simp: answers_def map_filter_simps)
  qed
qed

text \<open>
  C34. A prompt gives back what the user said about this very request: whatever happens to
  the service while it waits, the answer is that of the one grant or denial with its id, no
  second prompt can open before it ends, and without an answer it cannot return.
\<close>

theorem prompt_answered:
  assumes "prompt_open p s = Some s1" "service_run ops s1 = Some s2"
  shows "prompt_receive p s2 =
      (case answers (pr_id p) ops of [granted] \<Rightarrow> Some (prompt_close p s2, granted) | _ \<Rightarrow> None) \<and>
    (\<forall>q. prompt_open q s2 = None)"
proof -
  have "ps_locked s1" "ps_pending s1 (pr_id p) = Some None"
    using assms(1) by (auto simp: prompt_open_def Let_def notify_def split: if_splits)
  from service_run_waiting [OF assms(2) this] show ?thesis
    by (auto simp: prompt_receive_def prompt_open_def)
qed

definition ex_request :: permission_request where
  "ex_request =
     \<lparr>pr_id = ''i'', pr_session = ''s'', pr_authority = ''s'', pr_tool_call = ''c'', pr_tool = ''bash'',
      pr_description = [], pr_action = ''execute'', pr_params = BashParams ''make'' False, pr_path = ''/w'',
      pr_review = None\<rparr>"

theorem prompt_answered_witness:
  "\<exists>s1 s2. prompt_open ex_request (new_permission_service ''/w'' False []) = Some s1 \<and>
     service_run [OpSkip True, OpDeny ex_request] s1 = Some s2 \<and>
     prompt_receive ex_request s2 = Some (prompt_close ex_request s2, False)"
proof -
  obtain s1 where s1: "prompt_open ex_request (new_permission_service ''/w'' False []) = Some s1"
    by (simp add: prompt_open_def new_permission_service_def Let_def)
  then have "ps_pending (set_skip_requests True s1) (pr_id ex_request) = Some None"
    by (auto simp: prompt_open_def new_permission_service_def Let_def set_skip_requests_def)
  then obtain s2 where s2: "service_run [OpSkip True, OpDeny ex_request] s1 = Some s2"
    by (simp add: deny_def respond_def)
  have "answers (pr_id ex_request) [OpSkip True, OpDeny ex_request] = [False]"
    by (simp add: answers_def map_filter_simps)
  with prompt_answered [OF s1 s2] s1 s2 show ?thesis by auto
qed


section \<open>Escalation\<close>

lemma show_nat_digits: "c \<in> set (show_nat n) \<Longrightarrow> c \<in> set ''0123456789''"
proof (induction n rule: show_nat.induct)
  case (1 n)
  have "list_all (\<lambda>k. char_of (48 + k) \<in> set ''0123456789'') [0..<10::nat]" by code_simp
  then have digit: "char_of (48 + k) \<in> set ''0123456789''" if "k < 10" for k :: nat
    using that by (auto simp only: list_all_iff set_upt atLeastLessThan_iff)
  show ?case
  proof (cases "n < 10")
    case True
    with 1(2) digit [of n] show ?thesis by (simp add: show_nat.simps [of n])
  next
    case False
    with 1 digit [of "n mod 10"] show ?thesis by (auto simp: show_nat.simps [of n])
  qed
qed

definition digits_val :: "string \<Rightarrow> nat" where
  "digits_val s = fold (\<lambda>c n. 10 * n + (of_char c - 48)) s 0"

lemma digits_val_show: "digits_val (show_nat n) = n"
proof (induction n rule: show_nat.induct)
  case (1 n)
  have d: "of_char (char_of (48 + k) :: char) - 48 = k" if "k < 10" for k :: nat
    using that by simp
  show ?case
  proof (cases "n < 10")
    case True
    then show ?thesis by (simp add: show_nat.simps [of n] digits_val_def d)
  next
    case False
    with 1 have ih: "digits_val (show_nat (n div 10)) = n div 10" by simp
    have "digits_val (show_nat n) = 10 * digits_val (show_nat (n div 10)) + n mod 10"
      using False d [of "n mod 10"] by (simp add: show_nat.simps [of n] digits_val_def)
    then show ?thesis by (simp add: ih)
  qed
qed

lemma escalation_id_gen:
  assumes "escalation_id t g = escalation_id t' g'" "0 \<le> g" "0 \<le> g'"
  shows "g = g'"
proof -
  have tail: "takeWhile (\<lambda>c. c \<noteq> CHR ''-'') (rev (escalation_id t g)) = rev (show_nat (nat g))" if "0 \<le> g" for t g
  proof -
    have "takeWhile (\<lambda>c. c \<noteq> CHR ''-'') (rev (show_nat (nat g)) @ CHR ''-'' # ys) = rev (show_nat (nat g))" for ys
      by (subst takeWhile_append2) (auto dest: show_nat_digits)
    then show ?thesis using that by (simp add: escalation_id_def show_int_def)
  qed
  from assms tail [of g t] tail [of g' t'] have "show_nat (nat g) = show_nat (nat g')" by simp
  then have "nat g = nat g'" using digits_val_show by metis
  with assms(2,3) show ?thesis by simp
qed

datatype 'i bridge_op =
    BSubmit int int "'i escalation_request" | BRespond "'i escalation_response" | BReceive string | BCancel string

fun bridge_step :: "'i bridge_op \<Rightarrow> 'i bridge \<Rightarrow> 'i bridge option" where
  "bridge_step (BSubmit t1 t2 r) b = Some (fst (escalation_submit t1 t2 r b))"
| "bridge_step (BRespond r) b = map_option fst (respond_to_escalation r b)"
| "bridge_step (BReceive i) b = map_option fst (escalation_receive i b)"
| "bridge_step (BCancel i) b = Some (escalation_cancel i b)"

inductive bridge_reach :: "'i bridge \<Rightarrow> bool" where
  reach_new: "bridge_reach new_bridge"
| reach_step: "bridge_reach b \<Longrightarrow> bridge_step x b = Some b' \<Longrightarrow> bridge_reach b'"

definition bridge_inv :: "'i bridge \<Rightarrow> bool" where
  "bridge_inv b \<longleftrightarrow>
     0 \<le> br_gen b \<and> distinct (map es_id (br_queue b)) \<and> set (map es_id (br_queue b)) = br_requests b \<and>
     (\<forall>i \<in> br_requests b. br_channels b i = Some None) \<and>
     (\<forall>i \<in> dom (br_channels b). \<exists>t g. i = escalation_id t g \<and> 0 \<le> g \<and> g \<le> br_gen b)"

lemma remove_pending_ids:
  "distinct (map es_id rs) \<Longrightarrow>
   distinct (map es_id (remove_pending i rs)) \<and> set (map es_id (remove_pending i rs)) = set (map es_id rs) - {i}"
  by (induction rs) (auto simp: rev_image_eqI)

lemma fresh_id:
  assumes "bridge_inv b"
  shows "br_channels b (escalation_id t (br_gen b + 1)) = None" "escalation_id t (br_gen b + 1) \<notin> br_requests b"
proof -
  show none: "br_channels b (escalation_id t (br_gen b + 1)) = None"
  proof (rule ccontr)
    assume "br_channels b (escalation_id t (br_gen b + 1)) \<noteq> None"
    with assms obtain t' g where "escalation_id t (br_gen b + 1) = escalation_id t' g" "0 \<le> g" "g \<le> br_gen b"
      unfolding bridge_inv_def by blast
    moreover have "0 \<le> br_gen b" using assms by (simp add: bridge_inv_def)
    ultimately show False using escalation_id_gen by fastforce
  qed
  with assms show "escalation_id t (br_gen b + 1) \<notin> br_requests b" by (auto simp: bridge_inv_def)
qed

lemma bridge_inv_remove:
  assumes "bridge_inv b" "\<And>j. j \<noteq> i \<Longrightarrow> m j = br_channels b j" "i \<in> dom m \<Longrightarrow> i \<in> dom (br_channels b)"
  shows "bridge_inv (b\<lparr>br_channels := m, br_requests := br_requests b - {i},
    br_queue := remove_pending i (br_queue b)\<rparr>)" (is "bridge_inv ?b")
proof -
  have inv: "0 \<le> br_gen b" "distinct (map es_id (br_queue b))" "set (map es_id (br_queue b)) = br_requests b"
    "\<forall>j \<in> br_requests b. br_channels b j = Some None"
    "\<forall>j \<in> dom (br_channels b). \<exists>t g. j = escalation_id t g \<and> 0 \<le> g \<and> g \<le> br_gen b"
    using assms(1) by (simp_all add: bridge_inv_def)
  note rm = remove_pending_ids [OF inv(2), of i]
  have "0 \<le> br_gen ?b" "distinct (map es_id (br_queue ?b))" "set (map es_id (br_queue ?b)) = br_requests ?b"
    using inv(1,3) rm by simp_all
  moreover have "\<forall>j \<in> br_requests ?b. br_channels ?b j = Some None" using inv(4) assms(2) by simp
  moreover have "dom m \<subseteq> dom (br_channels b)"
  proof
    fix j
    assume "j \<in> dom m"
    with assms(2) [of j] assms(3) show "j \<in> dom (br_channels b)" by (cases "j = i") (simp_all add: dom_def)
  qed
  then have "\<forall>j \<in> dom (br_channels ?b). \<exists>t g. j = escalation_id t g \<and> 0 \<le> g \<and> g \<le> br_gen ?b"
    using inv(5) by (simp add: subset_iff)
  ultimately show ?thesis by (simp only: bridge_inv_def simp_thms)
qed

lemma bridge_inv_step: "bridge_inv b \<Longrightarrow> bridge_step x b = Some b' \<Longrightarrow> bridge_inv b'"
proof (induction x b rule: bridge_step.induct)
  case (1 t1 t2 r b)
  note fresh = fresh_id [OF 1(1), of t1]
  let ?i = "escalation_id t1 (br_gen b + 1)"
  have b': "b' = b\<lparr>br_gen := br_gen b + 1, br_requests := insert ?i (br_requests b),
     br_channels := (br_channels b)(?i \<mapsto> None), br_queue := br_queue b @ [r\<lparr>es_id := ?i, es_created := t2\<rparr>]\<rparr>"
    using 1(2) by (simp add: escalation_submit_def Let_def)
  have old: "\<exists>t g. i = escalation_id t g \<and> 0 \<le> g \<and> g \<le> br_gen b + 1" if i: "i \<in> dom (br_channels b)" for i
  proof -
    from 1(1) have "\<forall>i \<in> dom (br_channels b). \<exists>t g. i = escalation_id t g \<and> 0 \<le> g \<and> g \<le> br_gen b"
      by (simp add: bridge_inv_def)
    with i obtain t g where "i = escalation_id t g" "0 \<le> g" "g \<le> br_gen b" by blast
    then show ?thesis by (intro exI [of _ t] exI [of _ g]) simp
  qed
  have new: "\<exists>t g. ?i = escalation_id t g \<and> 0 \<le> g \<and> g \<le> br_gen b + 1"
    using 1(1) by (intro exI [of _ t1] exI [of _ "br_gen b + 1"]) (simp add: bridge_inv_def)
  have inv: "0 \<le> br_gen b" "distinct (map es_id (br_queue b))" "set (map es_id (br_queue b)) = br_requests b"
    "\<forall>i \<in> br_requests b. br_channels b i = Some None" using 1(1) by (simp_all add: bridge_inv_def)
  have "0 \<le> br_gen b'" "set (map es_id (br_queue b')) = br_requests b'" using inv by (simp_all add: b')
  moreover have "distinct (map es_id (br_queue b'))" using inv(2,3) fresh(2) by (auto simp: b')
  moreover have "\<forall>i \<in> br_requests b'. br_channels b' i = Some None" using inv(4) by (simp add: b')
  moreover have "\<forall>i \<in> dom (br_channels b'). \<exists>t g. i = escalation_id t g \<and> 0 \<le> g \<and> g \<le> br_gen b'"
  proof
    fix i
    assume "i \<in> dom (br_channels b')"
    then have "i = ?i \<or> i \<in> dom (br_channels b)" by (auto simp: b' split: if_splits)
    with old new have "\<exists>t g. i = escalation_id t g \<and> 0 \<le> g \<and> g \<le> br_gen b + 1" by blast
    then show "\<exists>t g. i = escalation_id t g \<and> 0 \<le> g \<and> g \<le> br_gen b'" by (simp add: b')
  qed
  ultimately show ?case by (simp only: bridge_inv_def simp_thms)
next
  case (2 r b)
  show ?case
  proof (cases "er_id r \<in> br_requests b")
    case True
    with 2(1) have "br_channels b (er_id r) = Some None" by (simp add: bridge_inv_def)
    moreover from this 2(2) True have "b' = b\<lparr>br_channels := (br_channels b)(er_id r \<mapsto> Some r),
        br_requests := br_requests b - {er_id r}, br_queue := remove_pending (er_id r) (br_queue b)\<rparr>"
      by (simp add: respond_to_escalation_def)
    ultimately show ?thesis using bridge_inv_remove [OF 2(1), of "er_id r" "(br_channels b)(er_id r \<mapsto> Some r)"] by auto
  next
    case False
    with 2 show ?thesis by (auto simp: respond_to_escalation_def)
  qed
next
  case (3 i b)
  then obtain resp where resp: "br_channels b i = Some (Some resp)" "b' = b\<lparr>br_channels := (br_channels b)(i := None)\<rparr>"
    by (auto simp: escalation_receive_def split: option.splits)
  then have "i \<notin> br_requests b" using 3(1) by (auto simp: bridge_inv_def)
  moreover have "((br_channels b)(i := None)) j = Some None" if "j \<in> br_requests b" "i \<notin> br_requests b" for j
    using 3(1) that by (auto simp: bridge_inv_def)
  moreover have "dom ((br_channels b)(i := None)) \<subseteq> dom (br_channels b)" by auto
  ultimately show ?case using 3(1) unfolding resp(2) bridge_inv_def
    by (intro conjI) (simp, simp, simp, simp, simp add: subset_iff)
next
  case (4 i b)
  then have b': "b' = b\<lparr>br_channels := (br_channels b)(i := None), br_requests := br_requests b - {i},
      br_queue := remove_pending i (br_queue b)\<rparr>" by (cases b) (simp add: escalation_cancel_def)
  show ?case unfolding b' by (rule bridge_inv_remove [OF 4(1)]) simp_all
qed

lemma bridge_reach_inv: "bridge_reach b \<Longrightarrow> bridge_inv b"
proof (induction rule: bridge_reach.induct)
  case reach_new
  show ?case by (simp add: bridge_inv_def new_bridge_def)
next
  case (reach_step b x b')
  then show ?case by (blast intro: bridge_inv_step)
qed

text \<open>
  C35. In every state the escalation bridge can reach, a leader's response never blocks, finds
  exactly the requests the queue shows, and takes its request off the queue, so that a second
  response to it is refused; the response is what the waiting worker then receives; and a
  new request gets an id that no request and no response waiting to be read has.
\<close>

theorem escalation_answered_once:
  assumes "bridge_reach b"
  shows "\<exists>b'. respond_to_escalation resp b = Some (b', er_id resp \<in> es_id ` set (get_pending_escalations b)) \<and>
    er_id resp \<notin> es_id ` set (get_pending_escalations b') \<and>
    respond_to_escalation resp b' = Some (b', False) \<and>
    (er_id resp \<in> es_id ` set (get_pending_escalations b) \<longrightarrow>
       map_option snd (escalation_receive (er_id resp) b') = Some resp) \<and>
    snd (escalation_submit t1 t2 req b) \<notin> br_requests b \<union> dom (br_channels b)"
proof -
  have inv: "bridge_inv b" by (rule bridge_reach_inv [OF assms])
  then have q: "distinct (map es_id (br_queue b))" "es_id ` set (br_queue b) = br_requests b"
    "\<forall>i \<in> br_requests b. br_channels b i = Some None" by (auto simp: bridge_inv_def)
  have rm: "er_id resp \<notin> es_id ` set (remove_pending (er_id resp) (br_queue b))"
    using remove_pending_ids [OF q(1), of "er_id resp"] by auto
  have new: "snd (escalation_submit t1 t2 req b) \<notin> br_requests b \<union> dom (br_channels b)"
    using fresh_id [OF inv, of t1] by (auto simp: escalation_submit_def Let_def)
  show ?thesis
  proof (cases "er_id resp \<in> br_requests b")
    case True
    with q new rm show ?thesis
      by (auto simp: respond_to_escalation_def get_pending_escalations_def escalation_receive_def)
  next
    case False
    with q new show ?thesis
      by (auto simp: respond_to_escalation_def get_pending_escalations_def)
  qed
qed

theorem escalation_answered_once_witness:
  "\<exists>b'. respond_to_escalation \<lparr>er_id = ''x'', er_approved = True, er_reason = [], er_input = None\<rparr>
     (new_bridge :: string bridge) = Some (b', False)"
  using escalation_answered_once [of "new_bridge :: string bridge"
      "\<lparr>er_id = ''x'', er_approved = True, er_reason = [], er_input = None\<rparr>", OF reach_new]
  by (auto simp: get_pending_escalations_def new_bridge_def)

end
