(* ===== verification/Approval_Properties.thy ===== *)
theory Approval_Properties
  imports Approval_Cache Auto_Permission Exec_Properties Permission_Properties
begin

text \<open>
  The auto-approval service: what a request leaves alone, how an approval is remembered and what
  it then covers, the classifier counters over runs of requests, and what is granted without
  the user.
\<close>

section \<open>What a request leaves alone\<close>

lemma trim_nonempty: "canonical_call ws \<noteq> [] \<Longrightarrow> ws \<noteq> []"
  by (auto simp: canonical_call_def shell_call_args_def)


text \<open>Everything but the base service, the cache and the counters is fixed.\<close>

definition same_setting :: "auto_service \<Rightarrow> auto_service \<Rightarrow> bool" where
  "same_setting a b \<longleftrightarrow>
     au_dir a = au_dir b \<and> au_fail_closed a = au_fail_closed b \<and> au_allowed a = au_allowed b \<and>
     au_mode a = au_mode b \<and> au_policy a = au_policy b \<and> au_rules a = au_rules b"

lemma prompt_with_escalation_fields:
  "prompt_with_escalation e p a = (a', out) \<Longrightarrow>
   au_cache a' = au_cache a \<and> au_states a' = au_states a \<and> same_setting a' a"
  by (auto simp: prompt_with_escalation_def same_setting_def Let_def split: if_splits prod.splits)

lemma reset_classifier_fields [simp]:
  "au_cache (reset_classifier sid a) = au_cache a" "au_base (reset_classifier sid a) = au_base a"
  "same_setting (reset_classifier sid a) b = same_setting a b"
  "au_states (reset_classifier sid a) = reset_blocks sid (au_states a)"
  by (simp_all add: reset_classifier_def same_setting_def)

lemma same_setting_refl [simp]: "same_setting a a" "same_setting (a\<lparr>au_states := m\<rparr>) b = same_setting a b"
  "same_setting (a\<lparr>au_cache := ca\<rparr>) b = same_setting a b"
  "same_setting b (a\<lparr>au_states := m\<rparr>) = same_setting b a" "same_setting b (a\<lparr>au_cache := ca\<rparr>) = same_setting b a"
  by (simp_all add: same_setting_def)

lemma guardian_review_fields:
  "guardian_review e sid p reason a = (a', out) \<Longrightarrow> au_cache a' = au_cache a \<and> same_setting a' a"
  by (auto simp: guardian_review_def classifier_unavailable_def classifier_failure_def Let_def
      split: if_splits option.splits sum.splits dest!: prompt_with_escalation_fields)

lemma policy_approval_cached:
  assumes "policy_approval e sid p v a = (a', Answered True)"
  shows "au_cache a' = au_cache (remember_approval v a)" "same_setting a' a"
  using assms
  by (auto simp: policy_approval_def remember_approval_def split: if_splits prod.splits outcome.splits bool.splits
      dest!: prompt_with_escalation_fields guardian_review_fields)


section \<open>Bash requests and the engine\<close>

definition bash_call :: "string \<Rightarrow> permission_request \<Rightarrow> bool" where
  "bash_call command p \<longleftrightarrow> pr_tool p = ''bash'' \<and> pr_action p = ''execute'' \<and> pr_params p = BashParams command False"

lemma normalize_verdict_fields [simp]:
  "pv_requirement (normalize_verdict v) = pv_requirement v" "pv_cacheable (normalize_verdict v) = pv_cacheable v"
  "pv_keys (normalize_verdict v) = pv_keys v"
  by (simp_all add: normalize_verdict_def Let_def)

lemma bash_no_verdict:
  assumes "bash_call command p"
  shows "preapproved_evaluator e p px = no_verdict" "workspace_write_evaluator p px = no_verdict"
    "read_only_evaluator p px = no_verdict"
  using assms by (simp_all add: bash_call_def preapproved_evaluator_def workspace_write_evaluator_def
      safe_workspace_write_def read_only_evaluator_def allowlisted_request_def)

lemma verdict_simps [simp]:
  "pv_requirement (verdict r s t) = r" "pv_cacheable (verdict r s t) = False" "pv_keys (verdict r s t) = []"
  "pv_requirement no_verdict = ReqNone"
  by (simp_all add: verdict_def no_verdict_def)

lemma engine_bash:
  assumes "bash_call command p"
    "pv_requirement (bash_evaluator e rules p px) \<noteq> ReqNone"
  shows "engine_evaluate (default_engine e rules) p px = normalize_verdict (bash_evaluator e rules p px)"
  using assms bash_no_verdict [OF assms(1)]
  by (auto simp: engine_evaluate_def default_engine_def Let_def)

lemma always_manual_bash: "bash_call command p \<Longrightarrow> always_manual e p dir = high_risk_bash (rq_parse e) p"
  by (simp add: bash_call_def always_manual_def)

lemma bash_verdict:
  assumes bash: "bash_call command p"
    and d: "evaluate_bash (rq_parse e) p (px_approval px) rules = d" "xd_requirement d = ReqApproval" "xd_fingerprint d \<noteq> []"
    and risk: "\<not> high_risk_bash (rq_parse e) p"
  defines "v \<equiv> engine_evaluate (default_engine e rules) p px"
  shows "pv_requirement v = ReqApproval" "pv_cacheable v" "pv_keys v = [policy_cache_key p px (xd_fingerprint d)]"
proof -
  let ?b = "bash_evaluator e rules p px"
  have b: "pv_requirement ?b = ReqApproval" "pv_cacheable ?b" "pv_keys ?b = [policy_cache_key p px (xd_fingerprint d)]"
    using bash d risk always_manual_bash [OF bash, of e]
    by (auto simp: bash_evaluator_def bash_call_def Let_def)
  from engine_bash [OF bash, of e rules px] b have "v = normalize_verdict ?b" by (simp add: v_def)
  with b show "pv_requirement v = ReqApproval" "pv_cacheable v" "pv_keys v = [policy_cache_key p px (xd_fingerprint d)]"
    by simp_all
qed


lemma evaluate_bash_approval:
  assumes "bash_call command p" "trim_space command \<noteq> []" "parse (trim_space command) = Inr ss" "ss \<noteq> []"
    "xd_requirement (evaluate_stmts (normalize_policy_config cfg) (append_exec_rules default_exec_rules rules)
       (decision ReqAllow []) ss) = ReqApproval"
  shows "xd_requirement (evaluate_bash parse p cfg rules) = ReqApproval"
    "xd_fingerprint (evaluate_bash parse p cfg rules) = canonical_file ss"
  using assms
  by (simp_all add: evaluate_bash_def evaluate_bash_rules_def bash_call_def canonicalize_bash_command_def
      trim_space_idem Let_def)

lemma policy_context_same: "same_setting a b \<Longrightarrow> policy_context_of sid a = policy_context_of sid b"
  by (simp add: policy_context_of_def same_setting_def workspace_write_mode_def)

lemma remember_approval_fields:
  "pv_cacheable v \<Longrightarrow> au_cache (remember_approval v a) = cache_approve (pv_keys v) (au_cache a)"
  by (simp add: remember_approval_def)

lemma approved_single:
  assumes "cache_inv c"
  shows "snd (cache_approved [k] c) \<longleftrightarrow> k \<in> set (cache_view c)" "cache_inv (fst (cache_approved [k] c))"
    "set (cache_view (fst (cache_approved [k] c))) = set (cache_view c)"
  using approved_loop_refines [OF assms, of "[k]"]
  by (auto simp: cache_approved_def lru_touch_def split: if_splits)

lemma approve_single:
  assumes "cache_inv c" "ck_fingerprint k \<noteq> []"
  shows "k \<in> set (cache_view (cache_approve [k] c))" "cache_inv (cache_approve [k] c)"
proof -
  have "0 < nat (ac_max c)" using assms(1) by (simp add: cache_inv_def)
  then obtain n where "nat (ac_max c) = Suc n" by (cases "nat (ac_max c)") auto
  with approve_refines [OF assms(1), of "[k]"] assms(2)
  show "k \<in> set (cache_view (cache_approve [k] c))" "cache_inv (cache_approve [k] c)"
    by (simp_all add: lru_insert_def lru_touch_def)
qed

text \<open>What a verdict that asks for approval and may be remembered does.\<close>

lemma auto_mode_remembers:
  assumes v: "engine_evaluate (default_engine e (au_rules a)) p (policy_context_of sid a) = v"
      "pv_requirement v = ReqApproval" "pv_cacheable v" "pv_keys v = [k]" "ck_fingerprint k \<noteq> []"
    and inv: "cache_inv (au_cache a)"
    and run: "handle_auto_mode e sid p a = (a1, Answered True)"
  shows "k \<in> set (cache_view (au_cache a1))" "cache_inv (au_cache a1)" "same_setting a1 a"
proof -
  let ?ca = "fst (cache_approved [k] (au_cache a))" and ?hit = "snd (cache_approved [k] (au_cache a))"
  note single = approved_single [OF inv, of k]
  have "k \<in> set (cache_view (au_cache a1)) \<and> cache_inv (au_cache a1) \<and> same_setting a1 a"
  proof (cases ?hit)
    case True
    with run v single show ?thesis by (auto simp: handle_auto_mode_def Let_def split: prod.splits)
  next
    case False
    have "policy_approval e sid p v (a\<lparr>au_cache := ?ca\<rparr>) = (a1, Answered True)"
      using run v False by (auto simp: handle_auto_mode_def Let_def split: prod.splits)
    from policy_approval_cached [OF this] show ?thesis
      using approve_single [OF single(2) v(5)] by (simp add: remember_approval_fields v)
  qed
  then show "k \<in> set (cache_view (au_cache a1))" "cache_inv (au_cache a1)" "same_setting a1 a" by simp_all
qed

lemma auto_mode_hits:
  assumes v: "engine_evaluate (default_engine e (au_rules a)) p (policy_context_of sid a) = v"
      "pv_cacheable v" "pv_keys v = [k]"
    and k: "k \<in> set (cache_view (au_cache a))" and inv: "cache_inv (au_cache a)"
  shows "snd (handle_auto_mode e sid p a) = Answered True" "au_base (fst (handle_auto_mode e sid p a)) = au_base a"
  using v k approved_single(1) [OF inv, of k]
  by (auto simp: handle_auto_mode_def Let_def split: prod.splits)

definition plain_call :: "shell_word list \<Rightarrow> stmt" where
  "plain_call ws = Stmt False False False False [] (Some (CallExpr [] ws))"

text \<open>
  Once a bash command of a single call has been approved in auto mode, the same words run
  with any environment assignments and any redirections, to any file, without a question: the
  approval is remembered under a fingerprint that leaves both out.
\<close>

theorem approval_covers_redirections:
  fixes a :: auto_service
  defines "judge \<equiv> \<lambda>s. xd_requirement (evaluate_stmts (normalize_policy_config (au_policy a))
    (append_exec_rules default_exec_rules (au_rules a)) (decision ReqAllow []) [s])"
  assumes first: "bash_call command p" "trim_space command \<noteq> []"
      "rq_parse e (trim_space command) = Inr [plain_call ws]" "judge (plain_call ws) = ReqApproval"
      "\<not> high_risk_bash (rq_parse e) p"
    and second: "bash_call command' p'" "trim_space command' \<noteq> []"
      "rq_parse e' (trim_space command') = Inr [Stmt False False False False rs (Some (CallExpr assigns ws))]"
      "judge (Stmt False False False False rs (Some (CallExpr assigns ws))) = ReqApproval"
      "\<not> high_risk_bash (rq_parse e') p'" "has_unsafe_redirection rs"
    and words: "trim_space (canonical_call ws) \<noteq> []"
    and inv: "cache_inv (au_cache a)"
    and run: "handle_auto_mode e sid p a = (a1, Answered True)"
  shows "snd (handle_auto_mode e' sid p' a1) = Answered True \<and>
    au_base (fst (handle_auto_mode e' sid p' a1)) = au_base a1"
proof -
  let ?ss = "[plain_call ws]" and ?ss' = "[Stmt False False False False rs (Some (CallExpr assigns ws))]"
  let ?px = "policy_context_of sid a" and ?fp = "canonical_call ws"
  let ?k = "policy_cache_key p ?px ?fp"
  have "trim_space [] = []" by code_simp
  then have ne: "?fp \<noteq> []" using words by metis
  have fp: "canonical_file ?ss = ?fp" "canonical_file ?ss' = ?fp"
    using second(6) ne by (simp_all add: plain_call_def canonical_file_def canonical_redirects_def)
  have ap: "px_approval ?px = au_policy a" by (simp add: policy_context_of_def)
  have d: "xd_requirement (evaluate_bash (rq_parse e) p (au_policy a) (au_rules a)) = ReqApproval"
    "xd_fingerprint (evaluate_bash (rq_parse e) p (au_policy a) (au_rules a)) = ?fp"
    using evaluate_bash_approval [of command p "rq_parse e", OF first(1-3)] first(4) by (simp_all add: judge_def fp)
  have d': "xd_requirement (evaluate_bash (rq_parse e') p' (au_policy a) (au_rules a)) = ReqApproval"
    "xd_fingerprint (evaluate_bash (rq_parse e') p' (au_policy a) (au_rules a)) = ?fp"
    using evaluate_bash_approval [of command' p' "rq_parse e'", OF second(1-3)] second(4) by (simp_all add: judge_def fp)
  have k': "policy_cache_key p' ?px ?fp = ?k"
    using first(1) second(1) by (simp add: policy_cache_key_def bash_call_def)
  have kf: "ck_fingerprint ?k \<noteq> []" using words by (simp add: policy_cache_key_def)
  note v = bash_verdict [OF first(1) refl _ _ first(5), of ?px "au_rules a", unfolded ap, OF d(1), unfolded d(2), OF ne]
  note v' = bash_verdict [OF second(1) refl _ _ second(5), of ?px "au_rules a", unfolded ap, OF d'(1), unfolded d'(2) k', OF ne]
  note a1 = auto_mode_remembers [OF refl v kf inv run]
  have px: "policy_context_of sid a1 = ?px" "au_rules a1 = au_rules a"
    using a1(3) by (simp_all add: policy_context_same) (simp add: same_setting_def)
  show ?thesis
    using auto_mode_hits [where a = a1 and e = e' and p = p' and sid = sid, unfolded px, OF refl v'(2,3) a1(1,2)] by simp
qed


definition ex_env :: "user_answer \<Rightarrow> request_env" where
  "ex_env answer =
     \<lparr>rq_parse = ex_parse, rq_url = (\<lambda>u. None), rq_is_dir = (\<lambda>p. None), rq_parent = (\<lambda>p. p), rq_id = ''i'',
      rq_denial_id = ''d'', rq_now = 0, rq_mode = (\<lambda>sid. Some ''auto''), rq_plugin = (\<lambda>p. DecideAsk),
      rq_classifier = None, rq_identity = no_identity, rq_answer = (\<lambda>p. answer)\<rparr>"

definition ex_service :: auto_service where
  "ex_service = new_auto_service (new_permission_service ''/w'' False []) ''/w'' False []
     (Some \<lparr>am_policy = [], am_granular = None, am_rules = [], am_guardian = Some False, am_write_mode = []\<rparr>)"

lemma ex_service_fields:
  "au_policy ex_service = default_policy_config" "au_rules ex_service = []" "\<not> use_guardian ex_service"
  "au_cache ex_service = new_approval_cache 512" "au_base ex_service = new_permission_service ''/w'' False []"
proof -
  have "parse_approval_policy [] = None" by code_simp
  then show "au_policy ex_service = default_policy_config" by (simp add: ex_service_def new_auto_service_def policy_from_config_def)
  show "au_rules ex_service = []" "\<not> use_guardian ex_service"
    "au_cache ex_service = new_approval_cache 512" "au_base ex_service = new_permission_service ''/w'' False []"
    by (simp_all add: ex_service_def new_auto_service_def policy_from_config_def use_guardian_def Let_def)
qed

lemma new_cache_inv: "cache_inv (new_approval_cache n)"
  by (auto simp: cache_inv_def cache_wf_def new_approval_cache_def)

lemma ex_prompt_granted:
  "ps_locked (au_base a) = False \<Longrightarrow> \<exists>a1. prompt_with_escalation (ex_env AnswerGrant) p a = (a1, Answered True)"
  by (simp add: prompt_with_escalation_def ex_env_def no_identity_def base_prompt_def prompt_open_def prompt_receive_def
      grant_def respond_def Let_def)

lemma use_guardian_cache [simp]: "use_guardian (a\<lparr>au_cache := ca\<rparr>) = use_guardian a"
  by (simp add: use_guardian_def)

lemma auto_mode_prompts:
  assumes "engine_evaluate (default_engine e (au_rules a)) p (policy_context_of sid a) = v"
    "pv_requirement v = ReqApproval" "pv_cacheable v" "pv_keys v = [k]" "\<not> snd (cache_approved [k] (au_cache a))"
    "\<not> use_guardian a" "\<And>q b. au_base b = au_base a \<Longrightarrow> \<exists>b'. prompt_with_escalation e q b = (b', Answered True)"
  shows "snd (handle_auto_mode e sid p a) = Answered True"
proof -
  let ?b = "a\<lparr>au_cache := fst (cache_approved [k] (au_cache a))\<rparr>"
  obtain b' where "prompt_with_escalation e (with_auto_review ClassifierBlock (policy_reason_with_source v) p) ?b
      = (b', Answered True)" using assms(7) [of ?b] by auto
  with assms(1-6) show ?thesis by (auto simp: handle_auto_mode_def policy_approval_def Let_def split: prod.split)
qed

lemma make_needs_approval:
  "xd_requirement (evaluate_stmts default_policy_config default_exec_rules (decision ReqAllow []) [plain_call [[Lit ''make'']]])
     = ReqApproval"
  "xd_requirement (evaluate_stmts default_policy_config default_exec_rules (decision ReqAllow [])
     [Stmt False False False False [Redirect None RdrOut (Some [Lit ''/etc/profile'']) []]
       (Some (CallExpr [] [[Lit ''make'']]))]) = ReqApproval"
proof -
  have m: "match_rules ''make'' ''make'' default_exec_rules = None" unfolding match_rules_default by code_simp
  have n: "normalize_command_name ''make'' = ''make''" "normalize_command_line [Some ''make''] = ''make''"
    "\<not> safe_read_only ''make'' [Some ''make'']" "shell_call_args [[Lit ''make'']] = [Some ''make'']"
    "dangerous_heuristic ''make'' [Some ''make''] default_policy_config = None"
    by code_simp+
  have p: "policy_decision default_policy_config dm s = decision ReqApproval s" for dm s
    by (auto simp: policy_decision_def policy_allows_prompt_def default_policy_config_def split: approval_domain.split)
  have u: "has_unsafe_redirection [Redirect None RdrOut (Some [Lit ''/etc/profile'']) []]"
    by code_simp+
  show "xd_requirement (evaluate_stmts default_policy_config default_exec_rules (decision ReqAllow [])
      [plain_call [[Lit ''make'']]]) = ReqApproval"
    using evaluate_call_literal [of "[[Lit ''make'']]" "''make''" "[]" default_policy_config default_exec_rules] m n p
    by (simp add: plain_call_def has_unsafe_redirection_def aggregate_decision_def Let_def)
  show "xd_requirement (evaluate_stmts default_policy_config default_exec_rules (decision ReqAllow [])
     [Stmt False False False False [Redirect None RdrOut (Some [Lit ''/etc/profile'']) []]
       (Some (CallExpr [] [[Lit ''make'']]))]) = ReqApproval"
    using p u by (simp add: aggregate_decision_def Let_def)
qed


theorem approval_covers_redirections_witness:
  "\<exists>a1. handle_auto_mode (ex_env AnswerGrant) ''s'' (bash_request ''make'') ex_service = (a1, Answered True) \<and>
     snd (handle_auto_mode (ex_env AnswerDeny) ''s'' (bash_request ''make > /etc/profile'') a1) = Answered True"
proof -
  let ?p = "bash_request ''make''" and ?p' = "bash_request ''make > /etc/profile''"
  let ?e = "ex_env AnswerGrant" and ?e' = "ex_env AnswerDeny"
  let ?rs = "[Redirect None RdrOut (Some [Lit ''/etc/profile'']) []]" and ?ws = "[[Lit ''make'']]"
  have t: "trim_space ''make'' = ''make''" "trim_space ''make > /etc/profile'' = ''make > /etc/profile''"
    "trim_space (canonical_call ?ws) \<noteq> []" "has_unsafe_redirection ?rs" by code_simp+
  have parse: "rq_parse (ex_env x) ''make'' = Inr [plain_call ?ws]"
    "rq_parse (ex_env x) ''make > /etc/profile'' = Inr [Stmt False False False False ?rs (Some (CallExpr [] ?ws))]" for x
    by (simp_all add: ex_env_def ex_parse_def plain_stmt_def plain_call_def)
  have bash: "bash_call c (bash_request c)" for c by (simp add: bash_call_def bash_request_def)
  have judge: "xd_requirement (evaluate_stmts (normalize_policy_config (au_policy ex_service))
      (append_exec_rules default_exec_rules (au_rules ex_service)) (decision ReqAllow []) [s]) =
    xd_requirement (evaluate_stmts default_policy_config default_exec_rules (decision ReqAllow []) [s])" for s
    by (simp add: ex_service_fields normalize_policy_config_def append_exec_rules_def)
  have "\<not> high_risk_call ?ws" by code_simp
  then have risk: "\<not> high_risk_bash (rq_parse (ex_env x)) ?p" "\<not> high_risk_bash (rq_parse (ex_env x)) ?p'" for x
    using parse t by (simp_all add: high_risk_bash_def bash_request_def plain_call_def high_risk_node_def)
  have inv: "cache_inv (au_cache ex_service)" unfolding ex_service_fields by (rule new_cache_inv)
  obtain a1 where run: "handle_auto_mode ?e ''s'' ?p ex_service = (a1, Answered True)"
  proof -
    let ?px = "policy_context_of ''s'' ex_service"
    have "px_approval ?px = au_policy ex_service" by (simp add: policy_context_of_def)
    with evaluate_bash_approval [of "''make''" ?p "rq_parse ?e" "[plain_call ?ws]" "au_policy ex_service" "au_rules ex_service"]
      bash t(1) parse(1) judge make_needs_approval(1)
    have d: "xd_requirement (evaluate_bash (rq_parse ?e) ?p (px_approval ?px) (au_rules ex_service)) = ReqApproval"
      "xd_fingerprint (evaluate_bash (rq_parse ?e) ?p (px_approval ?px) (au_rules ex_service)) = canonical_file [plain_call ?ws]"
      by simp_all
    have ne: "canonical_file [plain_call ?ws] \<noteq> []" by code_simp
    obtain k where v: "pv_requirement (engine_evaluate (default_engine ?e (au_rules ex_service)) ?p ?px) = ReqApproval"
      "pv_cacheable (engine_evaluate (default_engine ?e (au_rules ex_service)) ?p ?px)"
      "pv_keys (engine_evaluate (default_engine ?e (au_rules ex_service)) ?p ?px) = [k]"
      using bash_verdict [OF bash refl d(1) _ risk(1)] ne d(2) by metis
    have "\<not> snd (cache_approved [k] (au_cache ex_service))"
      using approved_single(1) [OF inv, of k] by (simp add: ex_service_fields cache_view_def new_approval_cache_def)
    then have "snd (handle_auto_mode ?e ''s'' ?p ex_service) = Answered True"
      by (rule auto_mode_prompts [OF refl v]) (simp_all add: ex_service_fields ex_prompt_granted new_permission_service_def)
    with that show ?thesis by (metis prod.collapse)
  qed
  have "snd (handle_auto_mode ?e' ''s'' ?p' a1) = Answered True"
    using approval_covers_redirections [where e = ?e and e' = ?e' and p = ?p and p' = ?p' and rs = ?rs and ws = ?ws
        and assigns = "[]" and a = ex_service and sid = "''s''",
        OF bash _ _ judge [THEN trans, OF make_needs_approval(1)] risk(1)
          bash _ _ judge [THEN trans, OF make_needs_approval(2)] risk(2) t(4,3) inv run]
    by (simp add: parse t(1,2))
  with run show ?thesis by blast
qed

section \<open>Predicates on the classifier states that requests keep\<close>

text \<open>The operations of the classifier state that a request performs, as an interface.\<close>

locale states_kept =
  fixes P :: "classifier_states \<Rightarrow> bool"
  assumes kept_reset: "P m \<Longrightarrow> P (reset_blocks sid m)"
    and kept_record: "P m \<Longrightarrow> P (record_block sid m)"
    and kept_push: "P m \<Longrightarrow> P (push_denial i now sid req reason retryable m)"
    and kept_suspend: "P m \<Longrightarrow> P (fst (should_suspend sid ''auto'' m))"
begin

lemma kept_prompt: "P (au_states a) \<Longrightarrow> P (au_states (fst (prompt_with_escalation e p a)))"
  using prompt_with_escalation_fields [of e p a] by (metis prod.collapse)

lemma kept_prompt_pair: "prompt_with_escalation e p a = (a', out) \<Longrightarrow> P (au_states a) \<Longrightarrow> P (au_states a')"
  using kept_prompt [of a e p] by simp

lemma kept_guardian: "P (au_states a) \<Longrightarrow> P (au_states (fst (guardian_review e sid p reason a)))"
  by (auto simp: guardian_review_def classifier_unavailable_def classifier_failure_def Let_def
      intro!: kept_prompt kept_reset kept_record kept_push split: option.split sum.split)

lemma kept_guardian_pair: "guardian_review e sid p reason a = (a', out) \<Longrightarrow> P (au_states a) \<Longrightarrow> P (au_states a')"
  using kept_guardian [of a e sid p reason] by simp

lemma remember_states [simp]: "au_states (remember_approval v a) = au_states a"
  by (simp add: remember_approval_def)

lemma kept_approval: "P (au_states a) \<Longrightarrow> P (au_states (fst (policy_approval e sid p v a)))"
  by (auto simp: policy_approval_def split: prod.split outcome.split bool.split
      intro: kept_reset dest: kept_prompt_pair kept_guardian_pair)

lemma kept_auto_mode:
  assumes "P (au_states a)"
  shows "P (au_states (fst (handle_auto_mode e sid p a)))"
proof -
  have "P (au_states (a\<lparr>au_cache := ca\<rparr>))" for ca using assms by simp
  then show ?thesis
    by (auto simp: handle_auto_mode_def Let_def
        intro: kept_reset kept_approval kept_guardian split: prod.split requirement.split)
qed

lemma kept_suspend_pair: "should_suspend sid ''auto'' m = (m', b) \<Longrightarrow> P m \<Longrightarrow> P m'"
  using kept_suspend [of m sid] by simp

lemma kept_request:
  assumes "P (au_states a)"
  shows "P (au_states (fst (request e c a)))"
proof -
  have allow: "P (au_states (fst (allow_in_mode sid mode a)))" for sid mode
    using assms by (simp add: allow_in_mode_def kept_reset)
  show ?thesis using assms
    by (auto simp: request_def Let_def split: decision_kind.split option.split prod.split
        intro!: allow kept_reset kept_prompt kept_auto_mode dest: kept_suspend_pair)
qed

end

text \<open>A run of requests in their environments, and of denials taken back by the user.\<close>

datatype auto_op = Ask request_env create_request | TakeDenial string string | ForgetSession string

fun auto_step :: "auto_op \<Rightarrow> auto_service \<Rightarrow> auto_service" where
  "auto_step (Ask e c) a = fst (request e c a)"
| "auto_step (TakeDenial sid i) a = a\<lparr>au_states := fst (take_denial sid i (au_states a))\<rparr>"
| "auto_step (ForgetSession sid) a = clear_auto_persistent sid a"

lemma state_of_upd [simp]: "state_of s (m(t \<mapsto> st)) = (if s = t then st else state_of s m)"
  by (simp add: state_of_def)

definition blocked_out :: "string \<Rightarrow> classifier_states \<Rightarrow> bool" where
  "blocked_out sid m \<longleftrightarrow>
     cs_last_mode (state_of sid m) = ''auto'' \<and> 20 \<le> cs_total (state_of sid m) \<and> cs_suspended (state_of sid m)"

interpretation blocked: states_kept "blocked_out sid"
  by unfold_locales
    (auto simp: blocked_out_def reset_blocks_def record_block_def push_denial_def should_suspend_def Let_def)

definition queue_ok :: "denial_queue \<Rightarrow> bool" where
  "queue_ok q \<longleftrightarrow> dq_max q = 10 \<and> length (dq_entries q) \<le> 10 \<and>
     distinct (map (\<lambda>d. pr_tool_call (de_request d)) (dq_entries q))"

definition counters_ok :: "classifier_states \<Rightarrow> bool" where
  "counters_ok m \<longleftrightarrow> (\<forall>sid.
     (cs_suspended (state_of sid m) \<longleftrightarrow> 3 \<le> cs_consecutive (state_of sid m) \<or> 20 \<le> cs_total (state_of sid m)) \<and>
     cs_consecutive (state_of sid m) \<le> cs_total (state_of sid m) \<and>
     (\<forall>q. cs_queue (state_of sid m) = Some q \<longrightarrow> queue_ok q))"

lemma remove_first_set: "set (remove_first Q xs) \<subseteq> set xs"
  by (induction xs) auto

lemma remove_first_distinct: "distinct (map f xs) \<Longrightarrow> distinct (map f (remove_first Q xs))"
  using remove_first_set by (induction xs) (auto, fastforce)

lemma remove_first_gone:
  "distinct (map f xs) \<Longrightarrow> k \<notin> f ` set (remove_first (\<lambda>x. f x = k) xs)"
  by (induction xs) (auto simp: rev_image_eqI)


lemma queue_ok_push: "queue_ok q \<Longrightarrow> queue_ok (fst (denial_push i now req reason retryable q))"
proof -
  let ?f = "\<lambda>d. pr_tool_call (de_request d)"
  let ?es = "\<lparr>de_id = i, de_request = req, de_reason = reason, de_time = now, de_retryable = retryable\<rparr> #
    remove_first (\<lambda>d. ?f d = pr_tool_call req) (dq_entries q)"
  assume ok: "queue_ok q"
  then have d: "distinct (map ?f ?es)"
    using remove_first_gone [of ?f "dq_entries q" "pr_tool_call req"] by (simp add: queue_ok_def remove_first_distinct)
  then have "distinct (map ?f (take 10 ?es))" unfolding take_map [symmetric] by (rule distinct_take)
  with d ok show ?thesis by (simp add: queue_ok_def denial_push_def Let_def del: distinct.simps list.map take_Suc_Cons)
qed

lemma queue_ok_new: "queue_ok (new_denial_queue 10)"
  by (simp add: queue_ok_def new_denial_queue_def)



lemma counters_empty [simp]: "counters_ok Map.empty"
  by (simp add: counters_ok_def state_of_def no_classifier_state_def)

lemma counters_upd:
  "counters_ok m \<Longrightarrow>
   (cs_suspended st \<longleftrightarrow> 3 \<le> cs_consecutive st \<or> 20 \<le> cs_total st) \<Longrightarrow> cs_consecutive st \<le> cs_total st \<Longrightarrow>
   (\<And>q. cs_queue st = Some q \<Longrightarrow> queue_ok q) \<Longrightarrow> counters_ok (m(sid \<mapsto> st))"
  by (simp add: counters_ok_def)

lemma counters_at:
  assumes "counters_ok m"
  shows "cs_suspended (state_of sid m) \<longleftrightarrow> 3 \<le> cs_consecutive (state_of sid m) \<or> 20 \<le> cs_total (state_of sid m)"
    "cs_consecutive (state_of sid m) \<le> cs_total (state_of sid m)"
    "cs_queue (state_of sid m) = Some q \<Longrightarrow> queue_ok q"
  using assms by (simp_all add: counters_ok_def)

lemma counters_push: "counters_ok m \<Longrightarrow> counters_ok (push_denial i now sid req reason retryable m)"
  unfolding push_denial_def Let_def
  by (rule counters_upd) (auto simp: counters_at queue_ok_push queue_ok_new split: option.split)

interpretation counted: states_kept counters_ok
proof
  fix m sid
  assume ok: "counters_ok m"
  note at = counters_at [OF ok, of sid]
  show "counters_ok (reset_blocks sid m)" unfolding reset_blocks_def Let_def
    by (rule counters_upd [OF ok]) (auto simp: at split: if_splits)
  show "counters_ok (record_block sid m)" unfolding record_block_def Let_def
    by (rule counters_upd [OF ok]) (auto simp: at split: if_splits)
  show "counters_ok (fst (should_suspend sid ''auto'' m))" unfolding should_suspend_def
    using ok queue_ok_new by (auto simp: no_classifier_state_def intro!: counters_upd)
qed (rule counters_push)


definition auto_run :: "auto_op list \<Rightarrow> auto_service \<Rightarrow> auto_service" where
  "auto_run xs a = fold auto_step xs a"

lemma auto_run_keeps:
  assumes "P (au_states a)" "\<And>e c b. P (au_states b) \<Longrightarrow> P (au_states (fst (request e c b)))"
    "\<And>sid i m. P m \<Longrightarrow> P (fst (take_denial sid i m))"
  shows "P (au_states (auto_run xs a))"
  using assms(1) unfolding auto_run_def
proof (induction xs arbitrary: a)
  case (Cons x xs)
  have "P (au_states (auto_step x a))" using Cons.prems assms(2,3)
    by (cases x) (simp_all add: clear_auto_persistent_def)
  from Cons.IH [OF this] show ?case by simp
qed simp


lemma blocked_take: "blocked_out sid m \<Longrightarrow> blocked_out sid (fst (take_denial t i m))"
  by (auto simp: take_denial_def blocked_out_def split: option.split prod.split)

text \<open>
  Twenty classifier blocks suspend the auto approval of a session for good: no further run of
  requests, in whatever permission modes the session is meanwhile, and no taking back of denials
  or clearing of the session's permissions ends it, although shouldSuspendAutoApproval is written
  to forget the state of a session that leaves auto mode.
\<close>

theorem suspension_is_final:
  assumes "counters_ok (au_states a)" "20 \<le> cs_total (state_of sid (au_states a))"
    "cs_last_mode (state_of sid (au_states a)) = ''auto''"
  shows "snd (should_suspend sid ''auto'' (au_states (auto_run xs a)))"
proof -
  have b: "blocked_out sid (au_states a)"
    using assms counters_at(1) [OF assms(1), of sid] by (simp add: blocked_out_def)
  have "blocked_out sid (au_states (auto_run xs a))"
    by (rule auto_run_keeps [where P = "blocked_out sid"]) (use b blocked.kept_request blocked_take in blast)+
  then show ?thesis by (simp add: should_suspend_def blocked_out_def)
qed

definition create_of :: "string \<Rightarrow> create_request" where
  "create_of command =
     \<lparr>cr_session = ''s'', cr_authority = [], cr_tool_call = ''c'', cr_tool = ''bash'', cr_description = [],
      cr_action = ''execute'', cr_params = BashParams command False, cr_path = ''/w''\<rparr>"

definition blocks :: "string \<Rightarrow> nat \<Rightarrow> classifier_states" where
  "blocks sid n = (record_block sid ^^ n) Map.empty"

lemma record_block_total: "cs_total (state_of sid (record_block sid m)) = Suc (cs_total (state_of sid m))"
  by (simp add: record_block_def Let_def)

lemma state_of_empty: "cs_total (state_of sid Map.empty) = 0"
  by (simp add: state_of_def no_classifier_state_def)

lemma blocks_state:
  "cs_total (state_of sid (blocks sid n)) = n" "counters_ok (blocks sid n)"
  "0 < n \<Longrightarrow> cs_last_mode (state_of sid (blocks sid n)) = ''auto''"
proof -
  show "cs_total (state_of sid (blocks sid n)) = n"
    by (induction n) (simp_all add: blocks_def record_block_total state_of_empty)
  show "counters_ok (blocks sid n)" by (induction n) (simp_all add: blocks_def counted.kept_record)
  show "0 < n \<Longrightarrow> cs_last_mode (state_of sid (blocks sid n)) = ''auto''"
    by (cases n) (simp_all add: blocks_def record_block_def Let_def)
qed

theorem suspension_is_final_witness:
  "snd (should_suspend ''s'' ''auto''
     (au_states (auto_run [Ask (ex_env AnswerGrant) (create_of ''ls''), TakeDenial ''s'' ''d'', ForgetSession ''s'']
       (ex_service\<lparr>au_states := blocks ''s'' 20\<rparr>))))"
  by (rule suspension_is_final) (simp_all add: blocks_state)


section \<open>What is granted without the user\<close>







text \<open>The verdict of the policies in auto mode, and whether the cache holds the approval it asks for.\<close>

definition auto_verdict :: "request_env \<Rightarrow> string \<Rightarrow> permission_request \<Rightarrow> auto_service \<Rightarrow> policy_verdict" where
  "auto_verdict e sid p a = engine_evaluate (default_engine e (au_rules a)) p (policy_context_of sid a)"

definition auto_cached :: "request_env \<Rightarrow> string \<Rightarrow> permission_request \<Rightarrow> auto_service \<Rightarrow> bool" where
  "auto_cached e sid p a \<longleftrightarrow>
     pv_cacheable (auto_verdict e sid p a) \<and> snd (cache_approved (pv_keys (auto_verdict e sid p a)) (au_cache a))"


lemma auto_verdict_states [simp]:
  "auto_verdict e sid p (a\<lparr>au_states := m\<rparr>) = auto_verdict e sid p a"
  "auto_cached e sid p (a\<lparr>au_states := m\<rparr>) = auto_cached e sid p a" "use_guardian (a\<lparr>au_states := m\<rparr>) = use_guardian a"
  by (simp_all add: auto_cached_def auto_verdict_def policy_context_of_def workspace_write_mode_def use_guardian_def)





end
