(* ===== verification/Hashline.thy ===== *)
theory Hashline
  imports Prelude "HOL-Library.Word"
begin

text \<open>
  Edits addressed by line and hash: hashline.go, hashline\_helpers.go and hashline\_recovery.go of
  internal/agent/tools. A reference names a line of the file as it was read and a short hash of
  it; operations are applied in a batch to the lines of the file, and when the file has changed
  since, the batch is carried over to the new lines along a longest common subsequence.

  Slices of ints are lists of naturals, as no value of theirs is negative. An index or slice
  bound beyond the length, where Go panics (or reads spare capacity), gives \<open>None\<close>.
\<close>

unbundle bit_operations_syntax

section \<open>References\<close>

record hashline_ref =
  hr_line :: nat
  hr_hash :: string

text \<open>The errors of parsing and applying; \<open>OpError\<close> has the number and name of the operation.\<close>

datatype hl_error =
    BadReference string
  | BadLineNumber string
  | NoSuchLine nat nat
  | HashMismatch nat string string
  | StartAfterEnd
  | EmptyContent
  | Unsupported string
  | OutsideFile nat
  | LineGone nat
  | BadRange nat nat
  | PastEnd nat
  | OpError nat string hl_error
  | NoSnapshot
  | Unaligned nat
  | NotRecoverable string
  | EmptyRegister nat string

definition nibble_alphabet :: string where
  "nibble_alphabet = ''ZPMQVRWSNKTXJBYH''"

text \<open>
  computeHashlineID, which ignores its line number; \<open>h\<close> is xxhash.Sum64String. TrimRightFunc
  with unicode.IsSpace is the right half of TrimSpace.
\<close>

definition compute_hashline_id :: "(string \<Rightarrow> 64 word) \<Rightarrow> string \<Rightarrow> string" where
  "compute_hashline_id h line =
     (let val = (ucast (h (trim_right (filter (\<lambda>c. c \<noteq> CHR 0x0D) line))) :: 16 word)
      in map (\<lambda>w. nibble_alphabet ! unat w)
           [drop_bit 12 val, drop_bit 8 val AND 15, drop_bit 4 val AND 15, val AND 15])"

definition regexp_space :: "char \<Rightarrow> bool" where
  "regexp_space c \<longleftrightarrow> c \<in> {CHR 0x09, CHR 0x0A, CHR 0x0C, CHR 0x0D, CHR '' ''}"

definition is_digit :: "char \<Rightarrow> bool" where
  "is_digit c \<longleftrightarrow> c \<in> set ''0123456789''"

definition is_letter :: "char \<Rightarrow> bool" where
  "is_letter c \<longleftrightarrow> 65 \<le> byte_val c \<and> byte_val c \<le> 90 \<or> 97 \<le> byte_val c \<and> byte_val c \<le> 122"

definition to_upper_char :: "char \<Rightarrow> char" where
  "to_upper_char c = (if 97 \<le> byte_val c \<and> byte_val c \<le> 122 then char_of (byte_val c - 32) else c)"

definition digits_value :: "string \<Rightarrow> nat" where
  "digits_value s = foldl (\<lambda>n c. 10 * n + (byte_val c - 48)) 0 s"

text \<open>
  The match of \<^verbatim>\<open>^\s*[>+\-]*\s*(\d+)\s*#\s*([a-zA-Z]{2,4})\<close>: consecutive parts are over disjoint
  characters, so the greedy match is the only one. Atoi fails beyond the 63-bit range.
\<close>

definition parse_hashline_reference :: "string \<Rightarrow> hl_error + hashline_ref" where
  "parse_hashline_reference reference =
     (let s = dropWhile regexp_space reference;
          s = dropWhile (\<lambda>c. c \<in> set ''>+-'') s;
          s = dropWhile regexp_space s;
          digits = takeWhile is_digit s;
          s = dropWhile regexp_space (dropWhile is_digit s)
      in if digits = [] \<or> s = [] \<or> hd s \<noteq> CHR ''#'' then Inl (BadReference reference)
         else
           let letters = take 4 (takeWhile is_letter (dropWhile regexp_space (tl s)));
               n = digits_value digits
           in if length letters < 2 then Inl (BadReference reference)
              else if 2 ^ 63 \<le> n \<or> n < 1 then Inl (BadLineNumber reference)
              else Inr \<lparr>hr_line = n, hr_hash = map to_upper_char letters\<rparr>)"

definition validate_hashline_reference ::
  "(string \<Rightarrow> 64 word) \<Rightarrow> hashline_ref \<Rightarrow> string list \<Rightarrow> hl_error option" where
  "validate_hashline_reference h r lines =
     (if hr_line r < 1 \<or> length lines < hr_line r then Some (NoSuchLine (hr_line r) (length lines))
      else
        let current = compute_hashline_id h (lines ! (hr_line r - 1))
        in if current \<noteq> hr_hash r then Some (HashMismatch (hr_line r) (hr_hash r) current) else None)"

definition parse_and_validate ::
  "(string \<Rightarrow> 64 word) \<Rightarrow> string \<Rightarrow> string list \<Rightarrow> hl_error + hashline_ref" where
  "parse_and_validate h reference lines =
     (case parse_hashline_reference reference of
        Inl err \<Rightarrow> Inl err
      | Inr r \<Rightarrow>
          (case validate_hashline_reference h r lines of
             Some err \<Rightarrow> Inl err
           | None \<Rightarrow> Inr r))"

text \<open>addHashlineLineNumbers of read.go, by which a file is shown with the references of its lines.\<close>

record text_read_line =
  trl_raw :: string
  trl_display :: string

definition pad6 :: "string \<Rightarrow> string" where
  "pad6 s = replicate (6 - length s) (CHR '' '') @ s"

definition hashline_numbered :: "(string \<Rightarrow> 64 word) \<Rightarrow> nat \<Rightarrow> text_read_line \<Rightarrow> string" where
  "hashline_numbered h n l =
     pad6 (show_nat n) @ ''#'' @ compute_hashline_id h (trl_raw l) @ ''|'' @ trl_display l"

definition add_hashline_line_numbers :: "(string \<Rightarrow> 64 word) \<Rightarrow> text_read_line list \<Rightarrow> nat \<Rightarrow> string" where
  "add_hashline_line_numbers h lines start =
     str_join [CHR 0x0A] (map (\<lambda>i. hashline_numbered h (i + start) (lines ! i)) [0..<length lines])"

section \<open>Lines\<close>

definition newline :: char where
  "newline = CHR 0x0A"

definition split_file_lines :: "string \<Rightarrow> string list \<times> bool" where
  "split_file_lines content =
     (if content = [] then ([], False)
      else
        let trailing = has_suffix content [newline];
            lines = str_split newline content
        in (if trailing then butlast lines else lines, trailing))"

definition join_file_lines :: "string list \<Rightarrow> bool \<Rightarrow> string" where
  "join_file_lines lines trailing =
     (if lines = [] then []
      else if trailing then str_join [newline] lines @ [newline]
      else str_join [newline] lines)"

text \<open>ToUnixLineEndings: the second part says that there was a line end to replace.\<close>

fun drop_crlf :: "string \<Rightarrow> string" where
  "drop_crlf (c # d # s) =
     (if c = CHR 0x0D \<and> d = CHR 0x0A then CHR 0x0A # drop_crlf s else c # drop_crlf (d # s))"
| "drop_crlf s = s"

definition to_unix_line_endings :: "string \<Rightarrow> string \<times> bool" where
  "to_unix_line_endings content =
     (if str_contains content [CHR 0x0D, CHR 0x0A] then (drop_crlf content, True) else (content, False))"

text \<open>ToWindowsLineEndings.\<close>

definition to_windows_line_endings :: "string \<Rightarrow> string" where
  "to_windows_line_endings content =
     (if str_contains content [CHR 0x0D, CHR 0x0A] then content
      else concat (map (\<lambda>c. if c = CHR 0x0A then [CHR 0x0D, CHR 0x0A] else [c]) content))"

definition split_content :: "string \<Rightarrow> string list" where
  "split_content content =
     (let normalized = fst (to_unix_line_endings content)
      in if normalized = [] then []
         else
           let lines = str_split newline normalized
           in if last lines = [] then butlast lines else lines)"

section \<open>Operations\<close>

record hashline_operation =
  ho_operation :: string
  ho_line :: string
  ho_start :: string
  ho_end :: string
  ho_content :: string
  ho_register :: string
  ho_before :: bool

record parsed_operation =
  po_operation :: string
  po_line :: hashline_ref
  po_start :: hashline_ref
  po_end :: hashline_ref
  po_content :: "string list"
  po_register :: string
  po_before :: bool

definition no_ref :: hashline_ref where
  "no_ref = \<lparr>hr_line = 0, hr_hash = []\<rparr>"

definition no_operation :: parsed_operation where
  "no_operation =
     \<lparr>po_operation = [], po_line = no_ref, po_start = no_ref, po_end = no_ref, po_content = [],
      po_register = [], po_before = False\<rparr>"

text \<open>The start and end references of replace\_range and cut.\<close>

definition parse_range ::
  "(string \<Rightarrow> 64 word) \<Rightarrow> hashline_operation \<Rightarrow> string list \<Rightarrow> hl_error + hashline_ref \<times> hashline_ref" where
  "parse_range h op lines =
     (case parse_and_validate h (ho_start op) lines of
        Inl err \<Rightarrow> Inl err
      | Inr s \<Rightarrow>
          (case parse_and_validate h (ho_end op) lines of
             Inl err \<Rightarrow> Inl err
           | Inr e \<Rightarrow> if hr_line e < hr_line s then Inl StartAfterEnd else Inr (s, e)))"

definition parse_operation ::
  "(string \<Rightarrow> 64 word) \<Rightarrow> hashline_operation \<Rightarrow> string list \<Rightarrow> hl_error + parsed_operation" where
  "parse_operation h op lines =
     (let content = split_content (ho_content op);
          base = no_operation\<lparr>po_operation := ho_operation op\<rparr> in
      if ho_operation op = ''replace_line'' then
        map_sum id (\<lambda>r. base\<lparr>po_line := r, po_content := content\<rparr>) (parse_and_validate h (ho_line op) lines)
      else if ho_operation op = ''replace_range'' then
        map_sum id (\<lambda>(s, e). base\<lparr>po_start := s, po_end := e, po_content := content\<rparr>) (parse_range h op lines)
      else if ho_operation op = ''prepend'' \<or> ho_operation op = ''append'' then
        (if content = [] then Inl EmptyContent
         else map_sum id (\<lambda>r. base\<lparr>po_line := r, po_content := content\<rparr>) (parse_and_validate h (ho_line op) lines))
      else if ho_operation op = ''cut'' then
        map_sum id (\<lambda>(s, e). base\<lparr>po_start := s, po_end := e, po_register := ho_register op\<rparr>) (parse_range h op lines)
      else if ho_operation op = ''paste'' then
        map_sum id (\<lambda>r. base\<lparr>po_line := r, po_content := content, po_register := ho_register op,
            po_before := ho_before op\<rparr>)
          (parse_and_validate h (ho_line op) lines)
      else Inl (Unsupported (ho_operation op)))"

text \<open>parseHashlineOperations; \<open>i\<close> is the number of the first operation.\<close>

fun parse_operations ::
  "(string \<Rightarrow> 64 word) \<Rightarrow> nat \<Rightarrow> hashline_operation list \<Rightarrow> string list \<Rightarrow> hl_error + parsed_operation list" where
  "parse_operations h i [] lines = Inr []"
| "parse_operations h i (op # ops) lines =
     (case parse_operation h op lines of
        Inl err \<Rightarrow> Inl (OpError i (ho_operation op) err)
      | Inr p \<Rightarrow> map_sum id (\<lambda>ps. p # ps) (parse_operations h (i + 1) ops lines))"

section \<open>Applying operations\<close>

text \<open>
  The state of applyHashlineOperations: the lines, where each original line is now (index 0 is
  unused, 0 means gone) and how many lines were put before and after it.
\<close>

record edit_state =
  es_lines :: "string list"
  es_map :: "nat list"
  es_before :: "nat list"
  es_after :: "nat list"

text \<open>The slices xs[:n] and xs[n:].\<close>

definition slice_to :: "'a list \<Rightarrow> nat \<Rightarrow> 'a list option" where
  "slice_to xs n = (if n \<le> length xs then Some (take n xs) else None)"

definition slice_from :: "'a list \<Rightarrow> nat \<Rightarrow> 'a list option" where
  "slice_from xs n = (if n \<le> length xs then Some (drop n xs) else None)"

definition resolve_current_line :: "nat list \<Rightarrow> nat \<Rightarrow> hl_error + nat" where
  "resolve_current_line m k =
     (if k < 1 \<or> length m \<le> k then Inl (OutsideFile k)
      else if m ! k = 0 then Inl (LineGone k)
      else Inr (m ! k))"

text \<open>One step of the loop that moves the mapping; the delta is added where it is positive in sum.\<close>

definition replaced_position :: "nat \<Rightarrow> nat \<Rightarrow> nat \<Rightarrow> nat \<Rightarrow> nat" where
  "replaced_position s e n position =
     (if position = 0 then position
      else if position < s then position
      else if e < position then position + n - (e - s + 1)
      else if position - s < n then s + (position - s)
      else 0)"

definition map_tail :: "('a \<Rightarrow> 'a) \<Rightarrow> 'a list \<Rightarrow> 'a list" where
  "map_tail f xs = (case xs of [] \<Rightarrow> [] | x # ys \<Rightarrow> x # map f ys)"

definition replace_original_range ::
  "edit_state \<Rightarrow> nat \<Rightarrow> nat \<Rightarrow> string list \<Rightarrow> (hl_error + edit_state) option" where
  "replace_original_range st start_original end_original content =
     (case resolve_current_line (es_map st) start_original of
        Inl err \<Rightarrow> Some (Inl err)
      | Inr s \<Rightarrow>
          (case resolve_current_line (es_map st) end_original of
             Inl err \<Rightarrow> Some (Inl err)
           | Inr e \<Rightarrow>
               if e < s then Some (Inl (BadRange s e))
               else
                 (case (slice_to (es_lines st) (s - 1), slice_from (es_lines st) e) of
                    (Some before, Some after) \<Rightarrow>
                      Some (Inr (st\<lparr>es_lines := before @ content @ after,
                        es_map := map_tail (replaced_position s e (length content)) (es_map st)\<rparr>))
                  | _ \<Rightarrow> None)))"

definition insert_relative ::
  "edit_state \<Rightarrow> nat \<Rightarrow> bool \<Rightarrow> string list \<Rightarrow> (hl_error + edit_state) option" where
  "insert_relative st k before content =
     (if content = [] then Some (Inr st)
      else if length (es_map st) \<le> k \<or> es_map st ! k = 0 then Some (Inl (LineGone k))
      else if \<not> before \<and> length (es_after st) \<le> k then None
      else
        let at = (if before then es_map st ! k else es_map st ! k + 1 + es_after st ! k) in
        if length (es_lines st) < at - 1 then Some (Inl (PastEnd at))
        else
          (case (slice_to (es_lines st) (at - 1), slice_from (es_lines st) (at - 1)) of
             (Some front, Some rest) \<Rightarrow>
               if before \<and> length (es_before st) \<le> k then None
               else Some (Inr (st\<lparr>es_lines := front @ content @ rest,
                 es_map := map_tail (\<lambda>x. if at \<le> x then x + length content else x) (es_map st),
                 es_before := (if before then (es_before st)[k := es_before st ! k + length content] else es_before st),
                 es_after := (if before then es_after st else (es_after st)[k := es_after st ! k + length content])\<rparr>))
           | _ \<Rightarrow> None))"

definition apply_operation :: "edit_state \<Rightarrow> parsed_operation \<Rightarrow> (hl_error + edit_state) option" where
  "apply_operation st op =
     (if po_operation op = ''replace_line''
      then replace_original_range st (hr_line (po_line op)) (hr_line (po_line op)) (po_content op)
      else if po_operation op = ''replace_range''
      then replace_original_range st (hr_line (po_start op)) (hr_line (po_end op)) (po_content op)
      else if po_operation op = ''prepend'' then insert_relative st (hr_line (po_line op)) True (po_content op)
      else if po_operation op = ''append'' then insert_relative st (hr_line (po_line op)) False (po_content op)
      else if po_operation op = ''cut'' then Some (Inr st)
      else if po_operation op = ''paste'' then
        (if po_content op \<noteq> [] then insert_relative st (hr_line (po_line op)) (po_before op) (po_content op)
         else Some (Inr st))
      else Some (Inl (Unsupported (po_operation op))))"

fun apply_operations_from ::
  "nat \<Rightarrow> edit_state \<Rightarrow> parsed_operation list \<Rightarrow> (hl_error + string list) option" where
  "apply_operations_from i st [] = Some (Inr (es_lines st))"
| "apply_operations_from i st (op # ops) =
     (case apply_operation st op of
        None \<Rightarrow> None
      | Some (Inl err) \<Rightarrow> Some (Inl (OpError i (po_operation op) err))
      | Some (Inr st) \<Rightarrow> apply_operations_from (i + 1) st ops)"

definition start_edit :: "string list \<Rightarrow> edit_state" where
  "start_edit lines =
     \<lparr>es_lines = lines, es_map = [0..<length lines + 1], es_before = replicate (length lines + 1) 0,
      es_after = replicate (length lines + 1) 0\<rparr>"

definition apply_hashline_operations ::
  "string list \<Rightarrow> parsed_operation list \<Rightarrow> (hl_error + string list) option" where
  "apply_hashline_operations lines ops = apply_operations_from 1 (start_edit lines) ops"

section \<open>Aligning lines\<close>

definition max_lcs_matrix_size :: nat where
  "max_lcs_matrix_size = 2500000"

text \<open>
  One row of the table: the base line, the lines, the row above from its column j - 1 on, and
  the entry to the left.
\<close>

fun lcs_row :: "string \<Rightarrow> string list \<Rightarrow> nat list \<Rightarrow> nat \<Rightarrow> nat list" where
  "lcs_row b (o' # ours) (diag # up # row) left =
     (let d = (if b = o' then diag + 1 else max up left)
      in d # lcs_row b ours (up # row) d)"
| "lcs_row b _ _ left = []"

text \<open>The rows of the table, the last one first.\<close>

definition lcs_table :: "string list \<Rightarrow> string list \<Rightarrow> nat list list" where
  "lcs_table base ours =
     foldl (\<lambda>rows b. (0 # lcs_row b ours (hd rows) 0) # rows) [replicate (length ours + 1) 0] base"

text \<open>The walk back from the last entry; \<open>dp i j\<close> reads the table.\<close>

function lcs_walk ::
  "(nat \<Rightarrow> nat \<Rightarrow> nat) \<Rightarrow> string list \<Rightarrow> string list \<Rightarrow> nat \<Rightarrow> nat \<Rightarrow> nat list \<Rightarrow> nat list" where
  "lcs_walk dp base ours i j acc =
     (if i = 0 \<or> j = 0 then acc
      else if base ! (i - 1) = ours ! (j - 1) then lcs_walk dp base ours (i - 1) (j - 1) (acc[i := j])
      else if dp i (j - 1) \<le> dp (i - 1) j then lcs_walk dp base ours (i - 1) j acc
      else lcs_walk dp base ours i (j - 1) acc)"
  by pat_completeness auto
termination by (relation "measure (\<lambda>(dp, base, ours, i, j, acc). i + j)") auto

declare lcs_walk.simps [simp del]

text \<open>alignLinesGreedy: the first equal line at or after \<open>start\<close> (counted from 1).\<close>

fun align_greedy_from :: "string list \<Rightarrow> string list \<Rightarrow> nat \<Rightarrow> nat list" where
  "align_greedy_from [] ours start = []"
| "align_greedy_from (b # base) ours start =
     (case find (\<lambda>k. start \<le> k \<and> ours ! (k - 1) = b) [1..<length ours + 1] of
        None \<Rightarrow> 0 # align_greedy_from base ours start
      | Some k \<Rightarrow> k # align_greedy_from base ours (k + 1))"

definition align_lines_greedy :: "string list \<Rightarrow> string list \<Rightarrow> nat list" where
  "align_lines_greedy base ours = 0 # align_greedy_from base ours 1"

definition align_lines_lcs :: "string list \<Rightarrow> string list \<Rightarrow> nat list" where
  "align_lines_lcs base ours =
     (if base = [] \<or> ours = [] then replicate (length base + 1) 0
      else if max_lcs_matrix_size < length base * length ours then align_lines_greedy base ours
      else
        let rows = rev (lcs_table base ours)
        in lcs_walk (\<lambda>i j. rows ! i ! j) base ours (length base) (length ours)
             (replicate (length base + 1) 0))"

section \<open>Recovery\<close>

definition map_operation :: "nat list \<Rightarrow> parsed_operation \<Rightarrow> hl_error + parsed_operation" where
  "map_operation m op =
     (let base = no_operation\<lparr>po_operation := po_operation op, po_content := po_content op\<rparr> in
      if po_operation op \<in> {''replace_line'', ''prepend'', ''append''} then
        (let k = hr_line (po_line op) in
         if k < 1 \<or> length m \<le> k then Inl (Unaligned k)
         else if m ! k = 0 then Inl (Unaligned k)
         else Inr (base\<lparr>po_line := (po_line op)\<lparr>hr_line := m ! k\<rparr>\<rparr>))
      else if po_operation op = ''replace_range'' then
        (let s = hr_line (po_start op); e = hr_line (po_end op) in
         if s < 1 \<or> length m \<le> s \<or> e < 1 \<or> length m \<le> e then Inl (Unaligned s)
         else if m ! s = 0 \<or> m ! e = 0 \<or> int (m ! e) - int (m ! s) \<noteq> int e - int s then Inl (Unaligned s)
         else if list_ex (\<lambda>k. m ! k \<noteq> m ! s + k - s) [s..<e + 1] then Inl (Unaligned s)
         else Inr (base\<lparr>po_start := (po_start op)\<lparr>hr_line := m ! s\<rparr>, po_end := (po_end op)\<lparr>hr_line := m ! e\<rparr>\<rparr>))
      else if po_operation op \<in> {''cut'', ''paste''} then Inl (NotRecoverable (po_operation op))
      else Inr base)"

fun map_operations :: "nat list \<Rightarrow> parsed_operation list \<Rightarrow> hl_error + parsed_operation list" where
  "map_operations m [] = Inr []"
| "map_operations m (op # ops) =
     (case map_operation m op of
        Inl err \<Rightarrow> Inl err
      | Inr p \<Rightarrow> map_sum id (\<lambda>ps. p # ps) (map_operations m ops))"

definition recover_from_snapshot ::
  "(string \<Rightarrow> 64 word) \<Rightarrow> string list \<Rightarrow> string list \<Rightarrow> hashline_operation list \<Rightarrow> (hl_error + string list) option" where
  "recover_from_snapshot h base ours ops =
     (case parse_operations h 1 ops base of
        Inl err \<Rightarrow> Some (Inl err)
      | Inr ps \<Rightarrow>
          (case map_operations (align_lines_lcs base ours) ps of
             Inl err \<Rightarrow> Some (Inl err)
           | Inr ps \<Rightarrow> apply_hashline_operations ours ps))"

text \<open>
  tryRecoverHashline, over the snapshots with the newest first. With no snapshot at all there is
  no error to return either, and the caller takes the nil lines for the result.
\<close>

fun try_snapshots ::
  "(string \<Rightarrow> 64 word) \<Rightarrow> string list list \<Rightarrow> string list \<Rightarrow> hashline_operation list \<Rightarrow> hl_error option \<Rightarrow>
   (hl_error + string list) option" where
  "try_snapshots h [] ours ops last_err =
     Some (case last_err of None \<Rightarrow> Inr [] | Some err \<Rightarrow> Inl err)"
| "try_snapshots h (base # snaps) ours ops last_err =
     (case recover_from_snapshot h base ours ops of
        None \<Rightarrow> None
      | Some (Inr lines) \<Rightarrow> Some (Inr lines)
      | Some (Inl err) \<Rightarrow> try_snapshots h snaps ours ops (Some err))"

definition try_recover ::
  "(string \<Rightarrow> 64 word) \<Rightarrow> string list list option \<Rightarrow> string list \<Rightarrow> hashline_operation list \<Rightarrow>
   (hl_error + string list) option" where
  "try_recover h history ours ops =
     (case history of
        None \<Rightarrow> Some (Inl NoSnapshot)
      | Some snaps \<Rightarrow> try_snapshots h (rev snaps) ours ops None)"

end
