(* ===== verification/Edit_Registers.thy ===== *)
theory Edit_Registers
  imports Hashline
begin

text \<open>
  The two stores that edits share across calls, of internal/agent/tools: the clipboard
  (clipboard.go) and the cache of the lines last read of each file (file\_cache.go). Both are
  kept for each session; a nil map is the empty one. All operations hold the lock throughout.
\<close>

section \<open>The clipboard\<close>

record clipboard =
  cb_named :: "string \<rightharpoonup> (string \<rightharpoonup> string list)"
  cb_anon :: "string \<rightharpoonup> string list"

definition new_clipboard :: clipboard where
  "new_clipboard = \<lparr>cb_named = Map.empty, cb_anon = Map.empty\<rparr>"

definition put_named :: "string \<Rightarrow> string \<Rightarrow> string list \<Rightarrow> clipboard \<Rightarrow> clipboard" where
  "put_named session name lines c =
     (let registers = (case cb_named c session of None \<Rightarrow> Map.empty | Some m \<Rightarrow> m)
      in c\<lparr>cb_named := (cb_named c)(session \<mapsto> registers(name \<mapsto> lines))\<rparr>)"

definition get_named :: "clipboard \<Rightarrow> string \<Rightarrow> string \<Rightarrow> string list option" where
  "get_named c session name =
     (case cb_named c session of None \<Rightarrow> None | Some registers \<Rightarrow> registers name)"

definition put_anonymous :: "string \<Rightarrow> string list \<Rightarrow> clipboard \<Rightarrow> clipboard" where
  "put_anonymous session lines c = c\<lparr>cb_anon := (cb_anon c)(session \<mapsto> lines)\<rparr>"

definition get_anonymous :: "clipboard \<Rightarrow> string \<Rightarrow> string list option" where
  "get_anonymous c session = cb_anon c session"

definition clear_anonymous :: "string \<Rightarrow> clipboard \<Rightarrow> clipboard" where
  "clear_anonymous session c = c\<lparr>cb_anon := (cb_anon c)(session := None)\<rparr>"

definition clear_clipboard :: "string \<Rightarrow> clipboard \<Rightarrow> clipboard" where
  "clear_clipboard session c =
     c\<lparr>cb_named := (cb_named c)(session := None), cb_anon := (cb_anon c)(session := None)\<rparr>"

section \<open>The file cache\<close>

record file_cache =
  fc_cache :: "string \<rightharpoonup> (string \<rightharpoonup> string list)"
  fc_history :: "string \<rightharpoonup> (string \<rightharpoonup> string list list)"
  fc_order :: "string \<rightharpoonup> string list"

definition new_file_cache :: file_cache where
  "new_file_cache = \<lparr>fc_cache = Map.empty, fc_history = Map.empty, fc_order = Map.empty\<rparr>"

text \<open>What Put works on: the files of one session, their snapshots and their order.\<close>

record session_cache =
  sc_files :: "string \<rightharpoonup> string list"
  sc_history :: "string \<rightharpoonup> string list list"
  sc_order :: "string list"

definition session_of :: "file_cache \<Rightarrow> string \<Rightarrow> session_cache" where
  "session_of c session =
     \<lparr>sc_files = (case fc_cache c session of None \<Rightarrow> Map.empty | Some m \<Rightarrow> m),
      sc_history = (case fc_history c session of None \<Rightarrow> Map.empty | Some m \<Rightarrow> m),
      sc_order = (if fc_cache c session = None then []
        else case fc_order c session of None \<Rightarrow> [] | Some ps \<Rightarrow> ps)\<rparr>"

text \<open>The first-in first-out eviction for a file that is not cached.\<close>

definition evict_oldest :: "session_cache \<Rightarrow> session_cache" where
  "evict_oldest s =
     (if 30 \<le> card (dom (sc_files s)) then
        (case sc_order s of
           [] \<Rightarrow> s
         | p # ps \<Rightarrow>
             s\<lparr>sc_files := (sc_files s)(p := None), sc_history := (sc_history s)(p := None), sc_order := ps\<rparr>)
      else s)"

definition push_snapshot :: "string \<Rightarrow> string list \<Rightarrow> session_cache \<Rightarrow> session_cache" where
  "push_snapshot path lines s =
     (let snaps = (case sc_history s path of None \<Rightarrow> [] | Some l \<Rightarrow> l)
      in if snaps = [] \<or> last snaps \<noteq> lines then
           let grown = snaps @ [lines]
           in s\<lparr>sc_history := (sc_history s)(path \<mapsto> (if 4 < length grown then tl grown else grown))\<rparr>
         else s)"

definition put_in_session :: "string \<Rightarrow> string list \<Rightarrow> session_cache \<Rightarrow> session_cache" where
  "put_in_session path lines s =
     (let s1 = (if sc_files s path = None
                then (let e = evict_oldest s in e\<lparr>sc_order := sc_order e @ [path]\<rparr>)
                else s);
          s2 = push_snapshot path lines s1
      in s2\<lparr>sc_files := (sc_files s2)(path \<mapsto> lines)\<rparr>)"

definition put_cache :: "string \<Rightarrow> string \<Rightarrow> string list \<Rightarrow> file_cache \<Rightarrow> file_cache" where
  "put_cache session path lines c =
     (let s = put_in_session path lines (session_of c session)
      in \<lparr>fc_cache = (fc_cache c)(session \<mapsto> sc_files s),
          fc_history = (fc_history c)(session \<mapsto> sc_history s),
          fc_order = (fc_order c)(session \<mapsto> sc_order s)\<rparr>)"

definition get_cache :: "file_cache \<Rightarrow> string \<Rightarrow> string \<Rightarrow> string list option" where
  "get_cache c session path =
     (case fc_cache c session of None \<Rightarrow> None | Some m \<Rightarrow> m path)"

definition get_history :: "file_cache \<Rightarrow> string \<Rightarrow> string \<Rightarrow> string list list option" where
  "get_history c session path =
     (case fc_history c session of None \<Rightarrow> None | Some m \<Rightarrow> m path)"

definition clear_cache :: "string \<Rightarrow> file_cache \<Rightarrow> file_cache" where
  "clear_cache session c =
     \<lparr>fc_cache = (fc_cache c)(session := None), fc_history = (fc_history c)(session := None),
      fc_order = (fc_order c)(session := None)\<rparr>"

definition delete_cache :: "string \<Rightarrow> string \<Rightarrow> file_cache \<Rightarrow> file_cache" where
  "delete_cache session path c =
     \<lparr>fc_cache = (case fc_cache c session of
         None \<Rightarrow> fc_cache c | Some m \<Rightarrow> (fc_cache c)(session \<mapsto> m(path := None))),
      fc_history = (case fc_history c session of
         None \<Rightarrow> fc_history c | Some m \<Rightarrow> (fc_history c)(session \<mapsto> m(path := None))),
      fc_order = (case fc_order c session of
         None \<Rightarrow> fc_order c | Some ps \<Rightarrow> (fc_order c)(session \<mapsto> remove1 path ps))\<rparr>"

end
