(* ===== verification/Hashline_Edit.thy ===== *)
theory Hashline_Edit
  imports Edit_Registers
begin

text \<open>
  The two edit tools that take operations by line and hash: applyHashlineEdit for one file and
  applyFileHashlineOperations for several, of edit.go (internal/agent/tools). The world is what
  they change; what they ask of the file system, the user, the plan-mode guard and the file
  history service is the environment. A panic is \<open>None\<close>.
\<close>

section \<open>Cut and paste\<close>

record pending_cut =
  pc_register :: string
  pc_lines :: "string list"

definition collect_pending_cuts :: "parsed_operation list \<Rightarrow> string list \<Rightarrow> pending_cut list" where
  "collect_pending_cuts ops lines =
     map (\<lambda>op. \<lparr>pc_register = po_register op,
         pc_lines = take (hr_line (po_end op) - (hr_line (po_start op) - 1)) (drop (hr_line (po_start op) - 1) lines)\<rparr>)
       (filter (\<lambda>op. po_operation op = ''cut'' \<and>
           \<not> (hr_line (po_start op) < 1 \<or> length lines < hr_line (po_end op) \<or> hr_line (po_end op) < hr_line (po_start op)))
         ops)"

text \<open>The loop that turns cuts into deletions; \<open>Inl i\<close> for a cut of bad lines.\<close>

fun mark_cuts :: "nat \<Rightarrow> parsed_operation list \<Rightarrow> string list \<Rightarrow> nat + parsed_operation list" where
  "mark_cuts i [] lines = Inr []"
| "mark_cuts i (op # ops) lines =
     (if po_operation op = ''cut'' then
        (if hr_line (po_start op) < 1 \<or> length lines < hr_line (po_end op) \<or> hr_line (po_end op) < hr_line (po_start op)
         then Inl i
         else map_sum id (\<lambda>ps. op\<lparr>po_operation := ''replace_range'', po_content := []\<rparr> # ps) (mark_cuts (i + 1) ops lines))
      else map_sum id (\<lambda>ps. op # ps) (mark_cuts (i + 1) ops lines))"

definition register_lines :: "pending_cut list \<Rightarrow> clipboard \<Rightarrow> string \<Rightarrow> string \<Rightarrow> string list option" where
  "register_lines pending cb session register =
     (case filter (\<lambda>pc. pc_register pc = register) pending of
        [] \<Rightarrow> (if register \<noteq> [] then get_named cb session register else get_anonymous cb session)
      | pcs \<Rightarrow> Some (pc_lines (last pcs)))"

fun resolve_pending_pastes ::
  "nat \<Rightarrow> parsed_operation list \<Rightarrow> pending_cut list \<Rightarrow> clipboard \<Rightarrow> string \<Rightarrow> hl_error + parsed_operation list" where
  "resolve_pending_pastes i [] pending cb session = Inr []"
| "resolve_pending_pastes i (op # ops) pending cb session =
     (if po_operation op \<noteq> ''paste'' \<or> po_content op \<noteq> []
      then map_sum id (\<lambda>ps. op # ps) (resolve_pending_pastes (i + 1) ops pending cb session)
      else
        (case register_lines pending cb session (po_register op) of
           None \<Rightarrow> Inl (EmptyRegister i (po_register op))
         | Some lines \<Rightarrow>
             if lines = [] then Inl (EmptyRegister i (po_register op))
             else map_sum id (\<lambda>ps. op\<lparr>po_content := lines\<rparr> # ps)
               (resolve_pending_pastes (i + 1) ops pending cb session)))"

definition commit_pending_cuts :: "pending_cut list \<Rightarrow> string \<Rightarrow> clipboard \<Rightarrow> clipboard" where
  "commit_pending_cuts pending session cb =
     fold (\<lambda>pc cb. if pc_register pc \<noteq> [] then put_named session (pc_register pc) (pc_lines pc) cb else cb) pending cb"

section \<open>World and environment\<close>

text \<open>
  The files by path, the two stores, the file history by path (oldest version first), the paths
  recorded as read and the number of writes so far.
\<close>

record edit_world =
  ew_files :: "string \<rightharpoonup> string"
  ew_clipboard :: clipboard
  ew_cache :: file_cache
  ew_versions :: "string \<Rightarrow> string list"
  ew_reads :: "string list"
  ew_writes :: nat

datatype stat_result = StatMissing | StatFailed | StatDir nat | StatFile nat

datatype permission_answer = Granted | NotGranted | RefusedWithReply | RequestFailed

text \<open>
  \<open>en_write\<close> gives for the n-th write \<open>None\<close> when it succeeds and otherwise what it leaves of the
  file; \<open>en_history\<close> tells whether Create (\<open>True\<close>) or CreateVersion succeeds.
\<close>

record edit_env =
  en_hash :: "string \<Rightarrow> 64 word"
  en_session :: string
  en_resolve :: "string \<Rightarrow> string"
  en_plan_blocks :: "string \<Rightarrow> bool"
  en_stat :: "string \<Rightarrow> stat_result"
  en_readable :: "string \<Rightarrow> bool"
  en_permission :: "string \<Rightarrow> string \<Rightarrow> string \<Rightarrow> permission_answer"
  en_write :: "nat \<Rightarrow> (string option \<Rightarrow> string option) option"
  en_history :: "bool \<Rightarrow> string \<Rightarrow> bool"

datatype edit_reply =
    NoSession
  | FileMissing string
  | AccessFailed string
  | IsDirectory string
  | ReadFailed string
  | PlanBlocked string
  | PreflightFailed
  | BadOperations string hl_error
  | BadCut nat
  | BadPaste hl_error
  | RecoveryFailed string hl_error hl_error
  | PermissionRefused
  | PermissionFailed
  | WriteFailed string
  | HistoryFailed
  | NoChanges
  | Applied bool
  | AllApplied "(string \<times> bool) list"

text \<open>clientfs.WriteFile.\<close>

definition write_file :: "edit_env \<Rightarrow> string \<Rightarrow> string \<Rightarrow> edit_world \<Rightarrow> bool \<times> edit_world" where
  "write_file e path content w =
     (case en_write e (ew_writes w) of
        None \<Rightarrow> (True, w\<lparr>ew_files := (ew_files w)(path \<mapsto> content), ew_writes := ew_writes w + 1\<rparr>)
      | Some left \<Rightarrow>
          (False, w\<lparr>ew_files := (ew_files w)(path := left (ew_files w path)), ew_writes := ew_writes w + 1\<rparr>))"

definition push_version :: "edit_env \<Rightarrow> bool \<Rightarrow> string \<Rightarrow> string \<Rightarrow> edit_world \<Rightarrow> edit_world" where
  "push_version e create path content w =
     (if en_history e create path
      then w\<lparr>ew_versions := (ew_versions w)(path := ew_versions w path @ [content])\<rparr> else w)"

text \<open>
  The versions of a file around an edit: the old content where the history does not end with it,
  then the new one. The first part is false when the first version could not be created.
\<close>

definition old_version :: "edit_env \<Rightarrow> string \<Rightarrow> string \<Rightarrow> edit_world \<Rightarrow> bool \<times> edit_world" where
  "old_version e path old w =
     (if ew_versions w path = [] then (en_history e True path, push_version e True path old w)
      else if last (ew_versions w path) \<noteq> old then (True, push_version e False path old w)
      else (True, w))"

definition record_read :: "string \<Rightarrow> edit_world \<Rightarrow> edit_world" where
  "record_read path w = w\<lparr>ew_reads := ew_reads w @ [path]\<rparr>"

text \<open>Stat and ReadFile, with the replies they can end in.\<close>

definition read_target :: "edit_env \<Rightarrow> edit_world \<Rightarrow> string \<Rightarrow> edit_reply + string" where
  "read_target e w path =
     (case en_stat e path of
        StatMissing \<Rightarrow> Inl (FileMissing path)
      | StatFailed \<Rightarrow> Inl (AccessFailed path)
      | StatDir n \<Rightarrow> Inl (IsDirectory path)
      | StatFile n \<Rightarrow>
          (case ew_files w path of
             None \<Rightarrow> Inl (ReadFailed path)
           | Some content \<Rightarrow> if en_readable e path then Inr content else Inl (ReadFailed path)))"

definition put_cached :: "edit_env \<Rightarrow> string \<Rightarrow> string list \<Rightarrow> edit_world \<Rightarrow> edit_world" where
  "put_cached e path lines w = w\<lparr>ew_cache := put_cache (en_session e) path lines (ew_cache w)\<rparr>"

definition settle_clipboard :: "edit_env \<Rightarrow> pending_cut list \<Rightarrow> edit_world \<Rightarrow> edit_world" where
  "settle_clipboard e pending w =
     w\<lparr>ew_clipboard := clear_anonymous (en_session e) (commit_pending_cuts pending (en_session e) (ew_clipboard w))\<rparr>"

definition disk_content :: "bool \<Rightarrow> string \<Rightarrow> string" where
  "disk_content crlf content = (if crlf then to_windows_line_endings content else content)"

section \<open>One file\<close>

text \<open>The new lines, and whether they had to be recovered; \<open>parsed\<close> is the outcome of parsing.\<close>

definition edit_lines ::
  "edit_env \<Rightarrow> edit_world \<Rightarrow> string \<Rightarrow> hashline_operation list \<Rightarrow> string list \<Rightarrow> hl_error + parsed_operation list \<Rightarrow>
   (edit_reply + string list \<times> bool) option" where
  "edit_lines e w path ops lines parsed =
     (let recover = (\<lambda>err. map_option (map_sum (RecoveryFailed path err) (\<lambda>ls. (ls, True)))
            (try_recover (en_hash e) (get_history (ew_cache w) (en_session e) path) lines ops))
      in case parsed of
           Inl err \<Rightarrow> recover err
         | Inr ps \<Rightarrow>
             (case apply_hashline_operations lines ps of
                None \<Rightarrow> None
              | Some (Inl err) \<Rightarrow> recover err
              | Some (Inr ls) \<Rightarrow> Some (Inr (ls, False))))"

text \<open>What follows the computation of the new lines.\<close>

definition write_edit ::
  "edit_env \<Rightarrow> string \<Rightarrow> string \<Rightarrow> bool \<Rightarrow> bool \<Rightarrow> pending_cut list \<Rightarrow> string list \<Rightarrow> bool \<Rightarrow> edit_world \<Rightarrow> edit_reply \<times> edit_world" where
  "write_edit e path old crlf trailing pending new_lines recovered w =
     (let new = join_file_lines new_lines trailing in
      if new = old then (NoChanges, settle_clipboard e pending w)
      else
        (case en_permission e path old new of
           RequestFailed \<Rightarrow> (PermissionFailed, w)
         | NotGranted \<Rightarrow> (PermissionFailed, w)
         | RefusedWithReply \<Rightarrow> (PermissionRefused, w)
         | Granted \<Rightarrow>
             (let (ok, w) = write_file e path (disk_content crlf new) w in
              if \<not> ok then (WriteFailed path, w)
              else
                let w = settle_clipboard e pending (put_cached e path new_lines w);
                    (created, w) = old_version e path old w
                in if \<not> created then (HistoryFailed, w)
                   else (Applied recovered, record_read path (push_version e False path new w)))))"

definition apply_hashline_edit ::
  "edit_env \<Rightarrow> string \<Rightarrow> hashline_operation list \<Rightarrow> edit_world \<Rightarrow> (edit_reply \<times> edit_world) option" where
  "apply_hashline_edit e path ops w =
     (if en_session e = [] then Some (NoSession, w)
      else
        (case read_target e w path of
           Inl reply \<Rightarrow> Some (reply, w)
         | Inr content \<Rightarrow>
             (let (old, crlf) = to_unix_line_endings content;
                  (lines, trailing) = split_file_lines old;
                  parsed = parse_operations (en_hash e) 1 ops lines;
                  parsed_ops = (case parsed of Inl err \<Rightarrow> [] | Inr ps \<Rightarrow> ps);
                  pending = collect_pending_cuts parsed_ops lines
              in case mark_cuts 1 parsed_ops lines of
                   Inl i \<Rightarrow> Some (BadCut i, w)
                 | Inr marked \<Rightarrow>
                     (case resolve_pending_pastes 1 marked pending (ew_clipboard w) (en_session e) of
                        Inl err \<Rightarrow> Some (BadPaste err, w)
                      | Inr resolved \<Rightarrow>
                          (case edit_lines e w path ops lines (map_sum id (\<lambda>ps. resolved) parsed) of
                             None \<Rightarrow> None
                           | Some (Inl reply) \<Rightarrow> Some (reply, w)
                           | Some (Inr (new_lines, recovered)) \<Rightarrow>
                               Some (write_edit e path old crlf trailing pending new_lines recovered w))))))"

section \<open>Several files\<close>

record file_state =
  fs_path :: string
  fs_old :: string
  fs_lines :: "string list"
  fs_crlf :: bool
  fs_trailing :: bool
  fs_ops :: "parsed_operation list"

record prepared_file = file_state +
  pf_new_lines :: "string list"
  pf_new :: string
  pf_recovered :: bool

text \<open>checkPreflightLimits: a megabyte for a file, five for all; \<open>used\<close> is the sum so far.\<close>

fun preflight_from :: "edit_env \<Rightarrow> nat \<Rightarrow> string list \<Rightarrow> bool" where
  "preflight_from e used [] \<longleftrightarrow> used \<le> 5 * 1024 * 1024"
| "preflight_from e used (path # paths) \<longleftrightarrow>
     (case en_stat e path of
        StatMissing \<Rightarrow> preflight_from e used paths
      | StatFailed \<Rightarrow> False
      | StatDir n \<Rightarrow> n \<le> 1024 * 1024 \<and> preflight_from e (used + n) paths
      | StatFile n \<Rightarrow> n \<le> 1024 * 1024 \<and> preflight_from e (used + n) paths)"

definition check_preflight_limits :: "edit_env \<Rightarrow> string list \<Rightarrow> bool" where
  "check_preflight_limits e paths = preflight_from e 0 paths"

definition load_file ::
  "edit_env \<Rightarrow> edit_world \<Rightarrow> string \<Rightarrow> hashline_operation list \<Rightarrow> edit_reply + file_state \<times> pending_cut list" where
  "load_file e w path ops =
     (case read_target e w path of
        Inl reply \<Rightarrow> Inl reply
      | Inr content \<Rightarrow>
          (let (old, crlf) = to_unix_line_endings content;
               (lines, trailing) = split_file_lines old
           in case parse_operations (en_hash e) 1 ops lines of
                Inl err \<Rightarrow> Inl (BadOperations path err)
              | Inr ps \<Rightarrow>
                  (case mark_cuts 1 ps lines of
                     Inl i \<Rightarrow> Inl (BadCut i)
                   | Inr marked \<Rightarrow>
                       Inr (\<lparr>fs_path = path, fs_old = old, fs_lines = lines, fs_crlf = crlf, fs_trailing = trailing,
                         fs_ops = marked\<rparr>, collect_pending_cuts ps lines))))"

fun load_files ::
  "edit_env \<Rightarrow> edit_world \<Rightarrow> (string \<times> hashline_operation list) list \<Rightarrow> edit_reply + file_state list \<times> pending_cut list" where
  "load_files e w [] = Inr ([], [])"
| "load_files e w ((path, ops) # rest) =
     (case load_file e w path ops of
        Inl reply \<Rightarrow> Inl reply
      | Inr (st, cuts) \<Rightarrow> map_sum id (\<lambda>(sts, more). (st # sts, cuts @ more)) (load_files e w rest))"

fun resolve_files ::
  "edit_env \<Rightarrow> edit_world \<Rightarrow> pending_cut list \<Rightarrow> file_state list \<Rightarrow> edit_reply + file_state list" where
  "resolve_files e w pending [] = Inr []"
| "resolve_files e w pending (st # sts) =
     (case resolve_pending_pastes 1 (fs_ops st) pending (ew_clipboard w) (en_session e) of
        Inl err \<Rightarrow> Inl (BadPaste err)
      | Inr ps \<Rightarrow> map_sum id (\<lambda>sts. st\<lparr>fs_ops := ps\<rparr> # sts) (resolve_files e w pending sts))"

text \<open>The first pass over a file; the operations for a recovery are those of the first entry of its path.\<close>

definition prepare_file ::
  "edit_env \<Rightarrow> edit_world \<Rightarrow> (string \<times> hashline_operation list) list \<Rightarrow> file_state \<Rightarrow> (edit_reply + prepared_file) option" where
  "prepare_file e w targets st =
     (let ops = (case find (\<lambda>t. fst t = fs_path st) targets of None \<Rightarrow> [] | Some t \<Rightarrow> snd t)
      in case edit_lines e w (fs_path st) ops (fs_lines st) (Inr (fs_ops st)) of
           None \<Rightarrow> None
         | Some (Inl reply) \<Rightarrow> Some (Inl reply)
         | Some (Inr (new_lines, recovered)) \<Rightarrow>
             (let new = join_file_lines new_lines (fs_trailing st)
              in Some (if en_permission e (fs_path st) (fs_old st) new \<noteq> Granted then Inl PermissionFailed
                   else Inr (file_state.extend st
                     (prepared_file.fields new_lines new recovered)))))"

fun prepare_files ::
  "edit_env \<Rightarrow> edit_world \<Rightarrow> (string \<times> hashline_operation list) list \<Rightarrow> file_state list \<Rightarrow>
   (edit_reply + prepared_file list) option" where
  "prepare_files e w targets [] = Some (Inr [])"
| "prepare_files e w targets (st # sts) =
     (case prepare_file e w targets st of
        None \<Rightarrow> None
      | Some (Inl reply) \<Rightarrow> Some (Inl reply)
      | Some (Inr pf) \<Rightarrow> map_option (map_sum id (\<lambda>pfs. pf # pfs)) (prepare_files e w targets sts))"

fun roll_back :: "edit_env \<Rightarrow> prepared_file list \<Rightarrow> edit_world \<Rightarrow> edit_world" where
  "roll_back e [] w = w"
| "roll_back e (pf # pfs) w =
     (let (ok, w) = write_file e (fs_path pf) (disk_content (fs_crlf pf) (fs_old pf)) w
      in roll_back e pfs (if ok then put_cached e (fs_path pf) (fs_lines pf) w else w))"

text \<open>The second pass; \<open>written\<close> are the files written so far, the first one first.\<close>

fun write_files ::
  "edit_env \<Rightarrow> prepared_file list \<Rightarrow> prepared_file list \<Rightarrow> edit_world \<Rightarrow> bool \<times> string \<times> edit_world" where
  "write_files e [] written w = (True, [], w)"
| "write_files e (pf # pfs) written w =
     (let (ok, w) = write_file e (fs_path pf) (disk_content (fs_crlf pf) (pf_new pf)) w in
      if \<not> ok then (False, fs_path pf, roll_back e written w)
      else
        let w = put_cached e (fs_path pf) (pf_new_lines pf) w;
            (created, w) = old_version e (fs_path pf) (fs_old pf) w;
            w = record_read (fs_path pf) (push_version e False (fs_path pf) (pf_new pf) w)
        in write_files e pfs (written @ [pf]) w)"

definition apply_file_operations ::
  "edit_env \<Rightarrow> (string \<times> hashline_operation list) list \<Rightarrow> edit_world \<Rightarrow> (edit_reply \<times> edit_world) option" where
  "apply_file_operations e file_ops w =
     (let targets = map (\<lambda>(path, ops). (en_resolve e path, ops)) file_ops in
      if en_session e = [] then Some (NoSession, w)
      else
        (case find (\<lambda>t. en_plan_blocks e (fst t)) targets of
           Some t \<Rightarrow> Some (PlanBlocked (fst t), w)
         | None \<Rightarrow>
             if \<not> check_preflight_limits e (map fst targets) then Some (PreflightFailed, w)
             else
               (case load_files e w targets of
                  Inl reply \<Rightarrow> Some (reply, w)
                | Inr (sts, pending) \<Rightarrow>
                    (case resolve_files e w pending sts of
                       Inl reply \<Rightarrow> Some (reply, w)
                     | Inr sts \<Rightarrow>
                         (case prepare_files e w targets sts of
                            None \<Rightarrow> None
                          | Some (Inl reply) \<Rightarrow> Some (reply, w)
                          | Some (Inr pfs) \<Rightarrow>
                              (let w1 = w\<lparr>ew_clipboard := commit_pending_cuts pending (en_session e) (ew_clipboard w)\<rparr>;
                                   (ok, path, w2) = write_files e pfs [] w1
                               in Some (if ok
                                    then (AllApplied (map (\<lambda>pf. (fs_path pf, pf_recovered pf)) pfs),
                                      w2\<lparr>ew_clipboard := clear_anonymous (en_session e) (ew_clipboard w2)\<rparr>)
                                    else (WriteFailed path, w2))))))))"

end
