(* ===== verification/Hashline_Batch.thy ===== *)
theory Hashline_Batch
  imports Hashline "HOL-Library.Sublist"
begin

text \<open>
  Batches of operations: the mapping from original lines to current ones stays in order and in
  range, the lines no operation replaces survive, nothing panics; and for batches that keep the
  number of original lines, what each line becomes.
\<close>

section \<open>The mapping of lines\<close>

definition edit_ok :: "nat \<Rightarrow> edit_state \<Rightarrow> bool" where
  "edit_ok n st \<longleftrightarrow>
     length (es_map st) = n + 1 \<and> length (es_before st) = n + 1 \<and> length (es_after st) = n + 1 \<and>
     (\<forall>k. 1 \<le> k \<and> k \<le> n \<longrightarrow> es_map st ! k \<le> length (es_lines st)) \<and>
     (\<forall>i j. 1 \<le> i \<and> i < j \<and> j \<le> n \<and> es_map st ! i \<noteq> 0 \<and> es_map st ! j \<noteq> 0 \<longrightarrow> es_map st ! i < es_map st ! j)"

text \<open>The original lines of a set are still there, where the mapping says.\<close>

definition tracked :: "string list \<Rightarrow> nat set \<Rightarrow> edit_state \<Rightarrow> bool" where
  "tracked original U st \<longleftrightarrow>
     (\<forall>k \<in> U. 1 \<le> k \<and> k \<le> length original \<longrightarrow>
        es_map st ! k \<noteq> 0 \<and> es_lines st ! (es_map st ! k - 1) = original ! (k - 1))"

lemma nth_map_tail: "1 \<le> k \<Longrightarrow> k < length xs \<Longrightarrow> map_tail f xs ! k = f (xs ! k)"
  by (cases xs; cases k) (auto simp: map_tail_def)

lemma length_map_tail [simp]: "length (map_tail f xs) = length xs"
  by (cases xs) (auto simp: map_tail_def)

lemma edit_okD:
  assumes "edit_ok n st"
  shows "length (es_map st) = n + 1" "length (es_before st) = n + 1" "length (es_after st) = n + 1"
    "1 \<le> k \<Longrightarrow> k \<le> n \<Longrightarrow> es_map st ! k \<le> length (es_lines st)"
    "1 \<le> i \<Longrightarrow> i < j \<Longrightarrow> j \<le> n \<Longrightarrow> es_map st ! i \<noteq> 0 \<Longrightarrow> es_map st ! j \<noteq> 0 \<Longrightarrow> es_map st ! i < es_map st ! j"
  using assms by (auto simp: edit_ok_def)

lemma replaced_position_mono:
  "x < y \<Longrightarrow> x \<noteq> 0 \<Longrightarrow> s \<le> e \<Longrightarrow> 0 < s \<Longrightarrow> replaced_position s e n x \<noteq> 0 \<Longrightarrow> replaced_position s e n y \<noteq> 0 \<Longrightarrow>
   replaced_position s e n x < replaced_position s e n y"
  by (auto simp: replaced_position_def split: if_splits)

lemma replaced_position_zero: "replaced_position s e n 0 = 0"
  by (simp add: replaced_position_def)

lemma replaced_position_le:
  "x \<le> l \<Longrightarrow> s \<le> e \<Longrightarrow> 0 < s \<Longrightarrow> e \<le> l \<Longrightarrow> replaced_position s e n x \<le> l + n - (e - s + 1)"
  by (auto simp: replaced_position_def)

lemma nth_splice:
  assumes "a \<le> length xs" "b + d < length xs"
  shows "(take a xs @ c @ drop b xs) ! (a + (length c + d)) = xs ! (b + d)"
proof -
  have "(take a xs @ c @ drop b xs) ! (length (take a xs) + (length c + d)) = (c @ drop b xs) ! (length c + d)"
    by (rule nth_append_length_plus)
  also have "\<dots> = drop b xs ! d" by (rule nth_append_length_plus)
  also have "\<dots> = xs ! (b + d)" using assms by simp
  finally show ?thesis using assms by simp
qed

lemma resolve_current:
  "resolve_current_line m k = Inr p \<longleftrightarrow> 1 \<le> k \<and> k < length m \<and> m ! k = p \<and> p \<noteq> 0"
  by (auto simp: resolve_current_line_def)

lemma replace_original_range_ok:
  assumes ok: "edit_ok n st" and le: "a \<le> b"
  shows "replace_original_range st a b c \<noteq> None"
    "replace_original_range st a b c = Some (Inr st') \<Longrightarrow> edit_ok n st'"
    "replace_original_range st a b c = Some (Inr st') \<Longrightarrow> n = length original \<Longrightarrow> tracked original U st \<Longrightarrow>
       tracked original (U - {a..b}) st'"
proof -
  have "replace_original_range st a b c \<noteq> None \<and>
    (\<forall>st'. replace_original_range st a b c = Some (Inr st') \<longrightarrow> edit_ok n st' \<and>
       (n = length original \<longrightarrow> tracked original U st \<longrightarrow> tracked original (U - {a..b}) st'))"
  proof (cases "\<exists>s e. resolve_current_line (es_map st) a = Inr s \<and> resolve_current_line (es_map st) b = Inr e")
    case True
    then obtain s e where r: "resolve_current_line (es_map st) a = Inr s" "resolve_current_line (es_map st) b = Inr e"
      by blast
    then have idx: "1 \<le> a" "a \<le> n" "1 \<le> b" "b \<le> n" "es_map st ! a = s" "s \<noteq> 0" "es_map st ! b = e" "e \<noteq> 0"
      using edit_okD(1) [OF ok] by (auto simp: resolve_current)
    have se: "s \<le> e" using edit_okD(5) [OF ok, of a b] idx le by (cases "a = b") auto
    have el: "e \<le> length (es_lines st)" using edit_okD(4) [OF ok, of b] idx by simp
    let ?f = "replaced_position s e (length c)"
    let ?st = "st\<lparr>es_lines := take (s - 1) (es_lines st) @ c @ drop e (es_lines st), es_map := map_tail ?f (es_map st)\<rparr>"
    have run: "replace_original_range st a b c = Some (Inr ?st)"
      using r se el by (simp add: replace_original_range_def slice_to_def slice_from_def)
    have m: "es_map ?st ! k = ?f (es_map st ! k)" if "1 \<le> k" "k \<le> n" for k
      using that edit_okD(1) [OF ok] by (simp add: nth_map_tail)
    have len: "length (es_lines ?st) = length (es_lines st) + length c - (e - s + 1)"
      using se el idx by simp
    have "edit_ok n ?st" unfolding edit_ok_def
    proof (intro conjI allI impI)
      fix k assume "1 \<le> k \<and> k \<le> n"
      then show "es_map ?st ! k \<le> length (es_lines ?st)"
        unfolding len using m edit_okD(4) [OF ok, of k] replaced_position_le se el idx by auto
    next
      fix i j assume "1 \<le> i \<and> i < j \<and> j \<le> n \<and> es_map ?st ! i \<noteq> 0 \<and> es_map ?st ! j \<noteq> 0"
      then have ij: "1 \<le> i" "i < j" "j \<le> n" "?f (es_map st ! i) \<noteq> 0" "?f (es_map st ! j) \<noteq> 0" using m by auto
      then have "es_map st ! i \<noteq> 0" "es_map st ! j \<noteq> 0" by (metis replaced_position_zero)+
      with ij replaced_position_mono [of "es_map st ! i" "es_map st ! j" s e] edit_okD(5) [OF ok, of i j] se idx m
      show "es_map ?st ! i < es_map ?st ! j" by auto
    qed (use edit_okD(1-3) [OF ok] in simp_all)
    moreover have "tracked original (U - {a..b}) ?st" if n: "n = length original" and t: "tracked original U st"
      unfolding tracked_def
    proof (intro ballI impI)
      fix k assume k: "k \<in> U - {a..b}" "1 \<le> k \<and> k \<le> length original"
      with t have p: "es_map st ! k \<noteq> 0" "es_lines st ! (es_map st ! k - 1) = original ! (k - 1)"
        by (auto simp: tracked_def)
      let ?p = "es_map st ! k"
      have pl: "?p \<le> length (es_lines st)" using edit_okD(4) [OF ok, of k] k n by simp
      have "?p < s \<or> e < ?p"
        using k edit_okD(5) [OF ok, of k a] edit_okD(5) [OF ok, of b k] p(1) idx n by (cases "k < a") auto
      then show "es_map ?st ! k \<noteq> 0 \<and> es_lines ?st ! (es_map ?st ! k - 1) = original ! (k - 1)"
      proof
        assume lt: "?p < s"
        then have "es_map ?st ! k = ?p" using m k n by (simp add: replaced_position_def)
        moreover have "?p - 1 < s - 1" using lt p by simp
        ultimately show ?thesis using p el se by (simp add: nth_append)
      next
        assume gt: "e < ?p"
        then have q: "es_map ?st ! k = ?p + length c - (e - s + 1)"
          using m k n se by (simp add: replaced_position_def)
        have "es_lines ?st ! (s - 1 + (length c + (?p - 1 - e))) = es_lines st ! (e + (?p - 1 - e))"
          using nth_splice [of "s - 1" "es_lines st" e "?p - 1 - e" c] el se gt pl by simp
        moreover have "s - 1 + (length c + (?p - 1 - e)) = ?p + length c - (e - s + 1) - 1" "e + (?p - 1 - e) = ?p - 1"
          using gt se idx by auto
        ultimately show ?thesis using q p gt se idx by simp
      qed
    qed
    ultimately show ?thesis using run by simp
  next
    case False
    then obtain err where "replace_original_range st a b c = Some (Inl err)"
      by (cases "resolve_current_line (es_map st) a"; cases "resolve_current_line (es_map st) b")
        (auto simp: replace_original_range_def)
    then show ?thesis by simp
  qed
  then show "replace_original_range st a b c \<noteq> None"
    "replace_original_range st a b c = Some (Inr st') \<Longrightarrow> edit_ok n st'"
    "replace_original_range st a b c = Some (Inr st') \<Longrightarrow> n = length original \<Longrightarrow> tracked original U st \<Longrightarrow>
       tracked original (U - {a..b}) st'" by blast+
qed


lemma insert_relative_ok:
  assumes ok: "edit_ok n st" and k: "1 \<le> k"
  shows "insert_relative st k before c \<noteq> None"
    "insert_relative st k before c = Some (Inr st') \<Longrightarrow> edit_ok n st'"
    "insert_relative st k before c = Some (Inr st') \<Longrightarrow> n = length original \<Longrightarrow> tracked original U st \<Longrightarrow>
       tracked original U st'"
proof -
  have "insert_relative st k before c \<noteq> None \<and>
    (\<forall>st'. insert_relative st k before c = Some (Inr st') \<longrightarrow> edit_ok n st' \<and>
       (n = length original \<longrightarrow> tracked original U st \<longrightarrow> tracked original U st'))"
  proof (cases "c = [] \<or> n < k \<or> es_map st ! k = 0")
    case True
    then have "insert_relative st k before c = Some (Inr st) \<or> (\<exists>err. insert_relative st k before c = Some (Inl err))"
      using edit_okD(1) [OF ok] by (auto simp: insert_relative_def)
    with ok show ?thesis by auto
  next
    case False
    define at where "at = (if before then es_map st ! k else es_map st ! k + 1 + es_after st ! k)"
    have at: "1 \<le> at" using False by (auto simp: at_def)
    show ?thesis
    proof (cases "length (es_lines st) < at - 1")
      case True
      then have "insert_relative st k before c = Some (Inl (PastEnd at))"
        using False edit_okD(1-3) [OF ok] by (auto simp: insert_relative_def at_def)
      then show ?thesis by simp
    next
      case inside: False
      let ?f = "\<lambda>x. if at \<le> x then x + length c else x"
      let ?st = "st\<lparr>es_lines := take (at - 1) (es_lines st) @ c @ drop (at - 1) (es_lines st),
        es_map := map_tail ?f (es_map st),
        es_before := (if before then (es_before st)[k := es_before st ! k + length c] else es_before st),
        es_after := (if before then es_after st else (es_after st)[k := es_after st ! k + length c])\<rparr>"
      have run: "insert_relative st k before c = Some (Inr ?st)"
        using False inside edit_okD(1-3) [OF ok]
        by (simp add: insert_relative_def at_def [symmetric] slice_to_def slice_from_def Let_def)
      have m: "es_map ?st ! i = ?f (es_map st ! i)" if "1 \<le> i" "i \<le> n" for i
        using that edit_okD(1) [OF ok] by (simp add: nth_map_tail)
      have len: "length (es_lines ?st) = length (es_lines st) + length c" using inside by simp
      have "edit_ok n ?st" unfolding edit_ok_def
      proof (intro conjI allI impI)
        fix i assume i: "1 \<le> i \<and> i \<le> n"
        then have "es_map st ! i \<le> length (es_lines st)" using edit_okD(4) [OF ok] by simp
        then show "es_map ?st ! i \<le> length (es_lines ?st)" unfolding len using m [of i] i by simp
      next
        fix i j assume "1 \<le> i \<and> i < j \<and> j \<le> n \<and> es_map ?st ! i \<noteq> 0 \<and> es_map ?st ! j \<noteq> 0"
        moreover from this have "es_map st ! i \<noteq> 0" "es_map st ! j \<noteq> 0"
          using m [of i] m [of j] at by (auto split: if_splits)
        ultimately show "es_map ?st ! i < es_map ?st ! j"
          using edit_okD(5) [OF ok, of i j] m [of i] m [of j] by auto
      qed (use edit_okD(1-3) [OF ok] in simp_all)
      moreover have "tracked original U ?st" if n: "n = length original" and t: "tracked original U st"
        unfolding tracked_def
      proof (intro ballI impI)
        fix i assume i: "i \<in> U" "1 \<le> i \<and> i \<le> length original"
        with t have p: "es_map st ! i \<noteq> 0" "es_lines st ! (es_map st ! i - 1) = original ! (i - 1)"
          by (auto simp: tracked_def)
        have pl: "es_map st ! i \<le> length (es_lines st)" using edit_okD(4) [OF ok, of i] i n by simp
        show "es_map ?st ! i \<noteq> 0 \<and> es_lines ?st ! (es_map ?st ! i - 1) = original ! (i - 1)"
        proof (cases "at \<le> es_map st ! i")
          case True
          have "es_lines ?st ! (at - 1 + (length c + (es_map st ! i - at))) = es_lines st ! (at - 1 + (es_map st ! i - at))"
            using nth_splice [of "at - 1" "es_lines st" "at - 1" "es_map st ! i - at" c] inside pl at True by simp
          moreover have "at - 1 + (length c + (es_map st ! i - at)) = es_map st ! i + length c - 1"
            "at - 1 + (es_map st ! i - at) = es_map st ! i - 1"
            using True at by auto
          ultimately show ?thesis using True p m [of i] i n by simp
        next
          case False
          then have "es_map st ! i - 1 < at - 1" using p by simp
          with False p inside pl show ?thesis using m [of i] i n by (simp add: nth_append)
        qed
      qed
      ultimately show ?thesis using run by simp
    qed
  qed
  then show "insert_relative st k before c \<noteq> None"
    "insert_relative st k before c = Some (Inr st') \<Longrightarrow> edit_ok n st'"
    "insert_relative st k before c = Some (Inr st') \<Longrightarrow> n = length original \<Longrightarrow> tracked original U st \<Longrightarrow>
       tracked original U st'" by blast+
qed

section \<open>What a batch replaces\<close>

definition replaces :: "parsed_operation \<Rightarrow> nat \<Rightarrow> bool" where
  "replaces op k \<longleftrightarrow>
     (if po_operation op = ''replace_line'' then k = hr_line (po_line op)
      else if po_operation op = ''replace_range'' then hr_line (po_start op) \<le> k \<and> k \<le> hr_line (po_end op)
      else False)"

definition kept_lines :: "string list \<Rightarrow> parsed_operation list \<Rightarrow> string list" where
  "kept_lines lines ops =
     map (\<lambda>k. lines ! (k - 1)) (filter (\<lambda>k. \<not> list_ex (\<lambda>op. replaces op k) ops) [1..<length lines + 1])"

text \<open>What parsing guarantees of an operation.\<close>

definition well_formed :: "parsed_operation \<Rightarrow> bool" where
  "well_formed op \<longleftrightarrow>
     (if po_operation op = ''replace_range'' then hr_line (po_start op) \<le> hr_line (po_end op)
      else po_operation op \<in> {''replace_line'', ''prepend'', ''append'', ''paste''} \<longrightarrow> 1 \<le> hr_line (po_line op))"

lemma parse_reference_positive: "parse_hashline_reference s = Inr r \<Longrightarrow> 1 \<le> hr_line r"
  by (auto simp: parse_hashline_reference_def Let_def split: if_splits)

lemma parse_and_validate_line:
  assumes "parse_and_validate h s lines = Inr r"
  shows "1 \<le> hr_line r" "hr_line r \<le> length lines" "compute_hashline_id h (lines ! (hr_line r - 1)) = hr_hash r"
  using assms parse_reference_positive
  by (auto simp: parse_and_validate_def validate_hashline_reference_def Let_def split: sum.splits option.splits if_splits)

lemma parse_range_le: "parse_range h op lines = Inr (s, e) \<Longrightarrow> hr_line s \<le> hr_line e"
  by (auto simp: parse_range_def split: sum.splits if_splits)

lemma parse_operation_well_formed: "parse_operation h op lines = Inr p \<Longrightarrow> well_formed p"
  using parse_and_validate_line(1) parse_range_le
  by (auto simp: parse_operation_def well_formed_def no_operation_def Let_def map_sum_def split: if_splits sum.splits)

lemma parse_operations_well_formed: "parse_operations h i ops lines = Inr ps \<Longrightarrow> list_all well_formed ps"
  by (induction ops arbitrary: i ps)
    (auto simp: parse_operation_well_formed map_sum_def split: sum.splits)

lemma apply_operation_cases:
  assumes "well_formed op"
  obtains (replace) a b where "a \<le> b" "apply_operation st op = replace_original_range st a b (po_content op)"
      "{k. replaces op k} = {a..b}"
  | (insert) k before where "1 \<le> k" "apply_operation st op = insert_relative st k before (po_content op)"
      "{k. replaces op k} = {}"
  | (same) "apply_operation st op = Some (Inr st)" "{k. replaces op k} = {}"
  | (unsupported) err where "apply_operation st op = Some (Inl err)"
proof -
  let ?o = "po_operation op"
  consider "?o = ''replace_line''" | "?o = ''replace_range''" | "?o = ''prepend''" | "?o = ''append''"
    | "?o = ''cut''" | "?o = ''paste''" "po_content op = []" | "?o = ''paste''" "po_content op \<noteq> []"
    | "?o \<notin> {''replace_line'', ''replace_range'', ''prepend'', ''append'', ''cut'', ''paste''}"
    by blast
  then show thesis
  proof cases
    case 1
    then show thesis using replace [of "hr_line (po_line op)" "hr_line (po_line op)"]
      by (auto simp: apply_operation_def replaces_def)
  next
    case 2
    then show thesis using assms replace [of "hr_line (po_start op)" "hr_line (po_end op)"]
      by (auto simp: apply_operation_def replaces_def well_formed_def atLeastAtMost_def atLeast_def atMost_def)
  next
    case 3
    then show thesis using assms insert [of "hr_line (po_line op)" True]
      by (simp add: apply_operation_def replaces_def well_formed_def)
  next
    case 4
    then show thesis using assms insert [of "hr_line (po_line op)" False]
      by (simp add: apply_operation_def replaces_def well_formed_def)
  next
    case 7
    then show thesis using assms insert [of "hr_line (po_line op)" "po_before op"]
      by (simp add: apply_operation_def replaces_def well_formed_def)
  qed (use same unsupported in \<open>auto simp: apply_operation_def replaces_def\<close>)
qed

lemma apply_operation_ok:
  assumes ok: "edit_ok (length original) st" and wf: "well_formed op"
  shows "apply_operation st op \<noteq> None"
    "apply_operation st op = Some (Inr st') \<Longrightarrow> edit_ok (length original) st'"
    "apply_operation st op = Some (Inr st') \<Longrightarrow> tracked original U st \<Longrightarrow>
       tracked original (U - {k. replaces op k}) st'"
proof -
  have "apply_operation st op \<noteq> None \<and>
    (\<forall>st'. apply_operation st op = Some (Inr st') \<longrightarrow> edit_ok (length original) st' \<and>
      (tracked original U st \<longrightarrow> tracked original (U - {k. replaces op k}) st'))"
    using wf
  proof (cases rule: apply_operation_cases [where st = st])
    case (replace a b)
    with replace_original_range_ok [OF ok, of a b "po_content op"] show ?thesis by simp
  next
    case (insert k before)
    with insert_relative_ok [OF ok, of k before "po_content op"] show ?thesis by simp
  qed (use ok in simp_all)
  then show "apply_operation st op \<noteq> None"
    "apply_operation st op = Some (Inr st') \<Longrightarrow> edit_ok (length original) st'"
    "apply_operation st op = Some (Inr st') \<Longrightarrow> tracked original U st \<Longrightarrow>
       tracked original (U - {k. replaces op k}) st'" by blast+
qed

lemma subseq_of_positions:
  "sorted_wrt (<) ps \<Longrightarrow> \<forall>p \<in> set ps. b \<le> p \<and> p < length xs \<Longrightarrow> subseq (map (\<lambda>p. xs ! p) ps) (drop b xs)"
proof (induction ps arbitrary: b)
  case (Cons p ps)
  then have "drop b xs = take (p - b) (drop b xs) @ xs ! p # drop (Suc p) xs"
    by (metis (no_types, lifting) append_take_drop_id drop_drop id_take_nth_drop le_add_diff_inverse2 list.set_intros(1)
        Cons_nth_drop_Suc)
  moreover have "subseq (map (\<lambda>p. xs ! p) ps) (drop (Suc p) xs)"
    using Cons by (intro Cons.IH) auto
  ultimately show ?case by (metis list.map(2) subseq_Cons2 subseq_drop_many)
qed simp

lemma tracked_subseq:
  assumes ok: "edit_ok (length original) st" and t: "tracked original {k. P k} st"
  shows "subseq (map (\<lambda>k. original ! (k - 1)) (filter P [1..<length original + 1])) (es_lines st)"
proof -
  let ?ks = "filter P [1..<length original + 1]"
  have k: "1 \<le> k \<and> k \<le> length original \<and> P k" if "k \<in> set ?ks" for k using that by auto
  have nz: "es_map st ! k \<noteq> 0" "es_map st ! k \<le> length (es_lines st)"
    "es_lines st ! (es_map st ! k - 1) = original ! (k - 1)" if "k \<in> set ?ks" for k
    using k [OF that] t edit_okD(4) [OF ok, of k] by (auto simp: tracked_def)
  have "sorted_wrt (<) (map (\<lambda>k. es_map st ! k - 1) ?ks)"
    unfolding sorted_wrt_map
  proof (rule sorted_wrt_mono_rel)
    show "sorted_wrt (<) ?ks" by (intro sorted_wrt_filter sorted_wrt_upt)
    fix i j assume i: "i \<in> set ?ks" and j: "j \<in> set ?ks" and "i < j"
    from i have "1 \<le> i" "es_map st ! i \<noteq> 0" using k nz(1) by blast+
    moreover from j have "j \<le> length original" "es_map st ! j \<noteq> 0" using k nz(1) by blast+
    ultimately show "es_map st ! i - 1 < es_map st ! j - 1"
      using \<open>i < j\<close> edit_okD(5) [OF ok, of i j] by linarith
  qed
  moreover have "\<forall>p \<in> set (map (\<lambda>k. es_map st ! k - 1) ?ks). 0 \<le> p \<and> p < length (es_lines st)"
    using nz(1,2) by fastforce
  ultimately have sub: "subseq (map (\<lambda>p. es_lines st ! p) (map (\<lambda>k. es_map st ! k - 1) ?ks)) (drop 0 (es_lines st))"
    by (rule subseq_of_positions)
  have "map (\<lambda>p. es_lines st ! p) (map (\<lambda>k. es_map st ! k - 1) ?ks) = map (\<lambda>k. original ! (k - 1)) ?ks"
    unfolding map_map comp_def by (rule map_cong [OF refl], rule nz(3))
  with sub show ?thesis by (simp only: drop_0)
qed

lemma apply_operations_kept:
  assumes "edit_ok (length original) st" "list_all well_formed ops" "tracked original {k. P k} st"
  shows "apply_operations_from i st ops \<noteq> None"
    "apply_operations_from i st ops = Some (Inr result) \<Longrightarrow>
       subseq (map (\<lambda>k. original ! (k - 1))
         (filter (\<lambda>k. P k \<and> \<not> list_ex (\<lambda>op. replaces op k) ops) [1..<length original + 1])) result"
proof -
  have "apply_operations_from i st ops \<noteq> None \<and>
    (\<forall>result. apply_operations_from i st ops = Some (Inr result) \<longrightarrow>
       subseq (map (\<lambda>k. original ! (k - 1))
         (filter (\<lambda>k. P k \<and> \<not> list_ex (\<lambda>op. replaces op k) ops) [1..<length original + 1])) result)"
    using assms
  proof (induction ops arbitrary: i st P)
    case Nil
    then show ?case using tracked_subseq by auto
  next
    case (Cons op ops)
    show ?case
    proof (cases "apply_operation st op")
      case None
      with apply_operation_ok(1) [of original st op] Cons.prems show ?thesis by simp
    next
      case (Some r)
      show ?thesis
      proof (cases r)
        case (Inr st')
        have "{k. P k} - {k. replaces op k} = {k. P k \<and> \<not> replaces op k}" by auto
        with Some Inr Cons.prems apply_operation_ok(2) [of original st op st'] apply_operation_ok(3) [of original st op st' "{k. P k}"]
        have "edit_ok (length original) st'" "tracked original {k. P k \<and> \<not> replaces op k} st'" by auto
        with Cons.IH [of st' "\<lambda>k. P k \<and> \<not> replaces op k" "i + 1"] Cons.prems Some Inr
        show ?thesis by simp
      qed (use Some in simp)
    qed
  qed
  then show "apply_operations_from i st ops \<noteq> None"
    "apply_operations_from i st ops = Some (Inr result) \<Longrightarrow>
       subseq (map (\<lambda>k. original ! (k - 1))
         (filter (\<lambda>k. P k \<and> \<not> list_ex (\<lambda>op. replaces op k) ops) [1..<length original + 1])) result" by auto
qed

lemma start_edit_ok: "edit_ok (length lines) (start_edit lines)"
  by (simp add: edit_ok_def start_edit_def del: upt_Suc)

lemma start_edit_tracked: "tracked lines {k. True} (start_edit lines)"
  by (simp add: tracked_def start_edit_def del: upt_Suc)

lemma apply_kept:
  assumes "list_all well_formed ops"
  shows "apply_hashline_operations lines ops \<noteq> None"
    "apply_hashline_operations lines ops = Some (Inr result) \<Longrightarrow> subseq (kept_lines lines ops) result"
  using apply_operations_kept [OF start_edit_ok assms start_edit_tracked, of 1]
  by (auto simp: apply_hashline_operations_def kept_lines_def)

section \<open>The order of a batch\<close>

text \<open>What a batch makes of each line: what stands before it, the line, what stands after it.\<close>

record line_block =
  lb_before :: "string list"
  lb_line :: string
  lb_after :: "string list"

definition block_lines :: "line_block \<Rightarrow> string list" where
  "block_lines b = lb_before b @ lb_line b # lb_after b"

text \<open>Operations that put lines before or after a line.\<close>

definition inserts :: "bool \<Rightarrow> nat \<Rightarrow> parsed_operation \<Rightarrow> bool" where
  "inserts before k op \<longleftrightarrow>
     hr_line (po_line op) = k \<and>
     (po_operation op = (if before then ''prepend'' else ''append'') \<or>
      po_operation op = ''paste'' \<and> po_before op = before)"

text \<open>Operations that keep the number of original lines, at a line of the file.\<close>

definition gentle :: "nat \<Rightarrow> parsed_operation \<Rightarrow> bool" where
  "gentle n op \<longleftrightarrow>
     po_operation op = ''cut'' \<or>
     1 \<le> hr_line (po_line op) \<and> hr_line (po_line op) \<le> n \<and>
     (po_operation op \<in> {''prepend'', ''append'', ''paste''} \<or>
      po_operation op = ''replace_line'' \<and> length (po_content op) = 1)"

definition block_operation :: "parsed_operation \<Rightarrow> nat \<Rightarrow> line_block \<Rightarrow> line_block" where
  "block_operation op k b =
     (if inserts True k op then b\<lparr>lb_before := lb_before b @ po_content op\<rparr>
      else if inserts False k op then b\<lparr>lb_after := lb_after b @ po_content op\<rparr>
      else if replaces op k then b\<lparr>lb_line := hd (po_content op)\<rparr>
      else b)"

definition block_start :: "line_block list \<Rightarrow> nat \<Rightarrow> nat" where
  "block_start bs k = length (concat (map block_lines (take (k - 1) bs)))"

definition blocks_state :: "line_block list \<Rightarrow> edit_state \<Rightarrow> bool" where
  "blocks_state bs st \<longleftrightarrow>
     es_lines st = concat (map block_lines bs) \<and>
     length (es_map st) = length bs + 1 \<and> length (es_before st) = length bs + 1 \<and> length (es_after st) = length bs + 1 \<and>
     (\<forall>k. 1 \<le> k \<and> k \<le> length bs \<longrightarrow>
        es_map st ! k = block_start bs k + length (lb_before (bs ! (k - 1))) + 1 \<and>
        es_after st ! k = length (lb_after (bs ! (k - 1))))"

lemma blocks_stateD:
  assumes "blocks_state bs st"
  shows "es_lines st = concat (map block_lines bs)" "length (es_map st) = length bs + 1"
    "length (es_before st) = length bs + 1" "length (es_after st) = length bs + 1"
    "1 \<le> k \<Longrightarrow> k \<le> length bs \<Longrightarrow> es_map st ! k = block_start bs k + length (lb_before (bs ! (k - 1))) + 1"
    "1 \<le> k \<Longrightarrow> k \<le> length bs \<Longrightarrow> es_after st ! k = length (lb_after (bs ! (k - 1)))"
  using assms by (auto simp: blocks_state_def)

abbreviation blocks_lines :: "line_block list \<Rightarrow> string list" where
  "blocks_lines bs \<equiv> concat (map block_lines bs)"

lemma block_start_split:
  "block_start (pre @ b # post) i =
     (if i \<le> length pre + 1 then length (blocks_lines (take (i - 1) pre))
      else length (blocks_lines pre) + length (block_lines b) + length (blocks_lines (take (i - 2 - length pre) post)))"
proof (cases "i \<le> length pre + 1")
  case False
  then have "take (i - 1) (pre @ b # post) = pre @ b # take (i - 2 - length pre) post"
    by (simp add: take_Cons' numeral_2_eq_2)
  with False show ?thesis by (simp add: block_start_def)
qed (simp add: block_start_def)

lemma block_start_le: "i \<le> length pre \<Longrightarrow> 1 \<le> i \<Longrightarrow>
    block_start (pre @ rest) i + length (block_lines (pre ! (i - 1))) \<le> length (blocks_lines pre)"
proof -
  assume i: "i \<le> length pre" "1 \<le> i"
  then have "pre = take (i - 1) pre @ pre ! (i - 1) # drop i pre"
    using id_take_nth_drop [of "i - 1" pre] by simp
  then have "length (blocks_lines pre) =
      length (blocks_lines (take (i - 1) pre)) + length (block_lines (pre ! (i - 1))) + length (blocks_lines (drop i pre))"
    by (metis (no_types, lifting) add.assoc concat.simps(2) concat_append length_append list.map(2) map_append)
  with i show ?thesis by (simp add: block_start_def)
qed

text \<open>A block that changes leaves the positions before it and shifts those after it.\<close>

lemma blocks_state_update:
  assumes st: "blocks_state (pre @ b # post) st" and k: "k = length pre + 1"
    and lines: "es_lines st' = blocks_lines (pre @ b' # post)"
    and lens: "length (es_map st') = length (es_map st)" "length (es_before st') = length (es_before st)"
      "length (es_after st') = length (es_after st)"
    and map_k: "es_map st' ! k = length (blocks_lines pre) + length (lb_before b') + 1"
    and after_k: "es_after st' ! k = length (lb_after b')"
    and others: "\<And>i. i \<noteq> k \<Longrightarrow> es_after st' ! i = es_after st ! i"
    and low: "\<And>i. 1 \<le> i \<Longrightarrow> i < k \<Longrightarrow> es_map st ! i \<le> length (blocks_lines pre) \<Longrightarrow> es_map st' ! i = es_map st ! i"
    and high: "\<And>i. k < i \<Longrightarrow> i \<le> length pre + 1 + length post \<Longrightarrow>
      length (blocks_lines pre) + length (block_lines b) < es_map st ! i \<Longrightarrow>
      es_map st' ! i + length (block_lines b) = es_map st ! i + length (block_lines b')"
  shows "blocks_state (pre @ b' # post) st'"
  unfolding blocks_state_def
proof (intro conjI allI impI)
  note D = blocks_stateD [OF st]
  fix i assume i: "1 \<le> i \<and> i \<le> length (pre @ b' # post)"
  consider "i < k" | "i = k" | "k < i" by linarith
  then have "es_map st' ! i = block_start (pre @ b' # post) i + length (lb_before ((pre @ b' # post) ! (i - 1))) + 1 \<and>
      es_after st' ! i = length (lb_after ((pre @ b' # post) ! (i - 1)))"
  proof cases
    case 1
    with i k have n: "(pre @ c # post) ! (i - 1) = pre ! (i - 1)" for c by (simp add: nth_append)
    have s: "block_start (pre @ c # post) i = length (blocks_lines (take (i - 1) pre))" for c
      using 1 k by (simp add: block_start_split)
    have "es_map st ! i \<le> length (blocks_lines pre)"
      using D(5) [of i] block_start_le [of i pre "b # post"] i 1 k n by (simp add: block_lines_def)
    with low [of i] D(5,6) [of i] others [of i] i 1 s n k show ?thesis by simp
  next
    case 2
    with map_k after_k k show ?thesis by (simp add: block_start_split)
  next
    case 3
    then have n: "(pre @ c # post) ! (i - 1) = post ! (i - 1 - k)" for c
      using k by (simp add: nth_append nth_Cons')
    with high [of i] D(5,6) [of i] others [of i] i 3 k show ?thesis
      by (simp add: block_start_split)
  qed
  then show "es_map st' ! i = block_start (pre @ b' # post) i + length (lb_before ((pre @ b' # post) ! (i - 1))) + 1"
    "es_after st' ! i = length (lb_after ((pre @ b' # post) ! (i - 1)))" by blast+
qed (use lines lens blocks_stateD(2-4) [OF st] in simp_all)


lemma apply_gentle:
  assumes st: "blocks_state bs st" and g: "gentle (length bs) op"
  shows "\<exists>st'. apply_operation st op = Some (Inr st') \<and>
    blocks_state (map (\<lambda>k. block_operation op k (bs ! (k - 1))) [1..<length bs + 1]) st'"
proof (cases "po_operation op = ''cut'' \<or> po_operation op \<in> {''prepend'', ''append'', ''paste''} \<and> po_content op = []")
  case True
  then have "block_operation op k b = b" for k b
    by (auto simp: block_operation_def inserts_def replaces_def)
  then have "map (\<lambda>k. block_operation op k (bs ! (k - 1))) [1..<length bs + 1] = bs"
    by (intro nth_equalityI) (auto simp del: upt_Suc)
  moreover have "apply_operation st op = Some (Inr st)"
    using True by (auto simp: apply_operation_def insert_relative_def)
  ultimately show ?thesis using st by simp
next
  case False
  let ?k = "hr_line (po_line op)" and ?c = "po_content op"
  from False g have k: "1 \<le> ?k" "?k \<le> length bs" by (auto simp: gentle_def)
  define pre b post where bs': "pre = take (?k - 1) bs" "b = bs ! (?k - 1)" "post = drop ?k bs"
  have bs: "bs = pre @ b # post" and kp: "?k = length pre + 1"
    using k id_take_nth_drop [of "?k - 1" bs] by (simp_all add: bs')
  have new: "map (\<lambda>k. block_operation op k (bs ! (k - 1))) [1..<length bs + 1] = pre @ block_operation op ?k b # post"
  proof (rule nth_equalityI)
    fix i assume "i < length (map (\<lambda>k. block_operation op k (bs ! (k - 1))) [1..<length bs + 1])"
    moreover have "block_operation op j c = c" if "j \<noteq> ?k" for j c
      using that g by (auto simp: block_operation_def inserts_def replaces_def gentle_def)
    ultimately show "map (\<lambda>k. block_operation op k (bs ! (k - 1))) [1..<length bs + 1] ! i = (pre @ block_operation op ?k b # post) ! i"
      using kp bs by (cases "i = length pre") (auto simp: nth_append nth_Cons' simp del: upt_Suc)
  qed (simp add: bs del: upt_Suc)
  note D = blocks_stateD [OF st]
  have pos: "es_map st ! ?k = length (blocks_lines pre) + length (lb_before b) + 1" "es_after st ! ?k = length (lb_after b)"
    using D(5,6) [of ?k] k kp by (simp_all add: bs block_start_split)
  have lines: "es_lines st = blocks_lines pre @ (lb_before b @ lb_line b # lb_after b) @ blocks_lines post"
    using D(1) by (simp add: bs block_lines_def)
  consider (before) "inserts True ?k op" "apply_operation st op = insert_relative st ?k True ?c" "?c \<noteq> []"
    | (after) "inserts False ?k op" "\<not> inserts True ?k op" "apply_operation st op = insert_relative st ?k False ?c" "?c \<noteq> []"
    | (line) x where "\<not> inserts True ?k op" "\<not> inserts False ?k op" "replaces op ?k" "?c = [x]"
        "apply_operation st op = replace_original_range st ?k ?k [x]"
    using False g
    by (cases "po_before op") (auto simp: gentle_def inserts_def replaces_def apply_operation_def length_Suc_conv)
  moreover have goal: ?thesis if "apply_operation st op = Some (Inr st')"
      "blocks_state (pre @ block_operation op ?k b # post) st'" for st'
    unfolding new using that by blast
  ultimately show ?thesis
  proof cases
    case before
    let ?at = "es_map st ! ?k"
    let ?st = "st\<lparr>es_lines := take (?at - 1) (es_lines st) @ ?c @ drop (?at - 1) (es_lines st),
        es_map := map_tail (\<lambda>x. if ?at \<le> x then x + length ?c else x) (es_map st),
        es_before := (es_before st)[?k := es_before st ! ?k + length ?c]\<rparr>"
    have run: "apply_operation st op = Some (Inr ?st)"
      using before k D(2-4) pos lines by (simp add: insert_relative_def slice_to_def slice_from_def)
    have "blocks_state (pre @ block_operation op ?k b # post) ?st"
    proof (rule blocks_state_update [OF st [unfolded bs] kp])
      show "es_lines ?st = blocks_lines (pre @ block_operation op ?k b # post)"
        using before pos lines by (simp add: block_operation_def block_lines_def)
    qed (use before pos D(2) k bs kp in \<open>simp_all add: nth_map_tail block_operation_def block_lines_def\<close>)
    with run show ?thesis by (rule goal)
  next
    case after
    let ?at = "es_map st ! ?k + 1 + es_after st ! ?k"
    let ?st = "st\<lparr>es_lines := take (?at - 1) (es_lines st) @ ?c @ drop (?at - 1) (es_lines st),
        es_map := map_tail (\<lambda>x. if ?at \<le> x then x + length ?c else x) (es_map st),
        es_after := (es_after st)[?k := es_after st ! ?k + length ?c]\<rparr>"
    have run: "apply_operation st op = Some (Inr ?st)"
      using after k D(2-4) pos lines by (simp add: insert_relative_def slice_to_def slice_from_def)
    have "blocks_state (pre @ block_operation op ?k b # post) ?st"
    proof (rule blocks_state_update [OF st [unfolded bs] kp])
      show "es_lines ?st = blocks_lines (pre @ block_operation op ?k b # post)"
        using after pos lines by (simp add: block_operation_def block_lines_def)
    qed (use after pos D(2,4) k bs kp in \<open>simp_all add: nth_map_tail block_operation_def block_lines_def\<close>)
    with run show ?thesis by (rule goal)
  next
    case line
    let ?at = "es_map st ! ?k"
    let ?st = "st\<lparr>es_lines := take (?at - 1) (es_lines st) @ [x] @ drop ?at (es_lines st),
        es_map := map_tail (replaced_position ?at ?at 1) (es_map st)\<rparr>"
    have run: "apply_operation st op = Some (Inr ?st)"
      using line k D(2-4) pos lines
      by (simp add: replace_original_range_def resolve_current_line_def slice_to_def slice_from_def)
    have "blocks_state (pre @ block_operation op ?k b # post) ?st"
    proof (rule blocks_state_update [OF st [unfolded bs] kp])
      show "es_lines ?st = blocks_lines (pre @ block_operation op ?k b # post)"
        using line pos lines by (simp add: block_operation_def block_lines_def)
    qed (use line pos D(2,4) k bs kp in
        \<open>simp_all add: nth_map_tail block_operation_def block_lines_def replaced_position_def\<close>)
    with run show ?thesis by (rule goal)
  qed
qed


text \<open>What a batch puts around line \<open>k\<close>, in the order of the operations.\<close>

definition line_result :: "parsed_operation list \<Rightarrow> nat \<Rightarrow> string \<Rightarrow> string list" where
  "line_result ops k line =
     concat (map po_content (filter (inserts True k) ops)) @
     last (line # map (\<lambda>op. hd (po_content op)) (filter (\<lambda>op. replaces op k) ops)) #
     concat (map po_content (filter (inserts False k) ops))"

lemma inserts_replaces: "inserts before k op \<Longrightarrow> \<not> replaces op k"
  by (auto simp: inserts_def replaces_def split: if_splits)

lemma inserts_once: "inserts True k op \<Longrightarrow> \<not> inserts False k op"
  by (auto simp: inserts_def)

lemma fold_block_operation:
  "block_lines (fold (\<lambda>op. block_operation op k) ops b) =
     lb_before b @ concat (map po_content (filter (inserts True k) ops)) @
     last (lb_line b # map (\<lambda>op. hd (po_content op)) (filter (\<lambda>op. replaces op k) ops)) #
     lb_after b @ concat (map po_content (filter (inserts False k) ops))"
proof (induction ops arbitrary: b)
  case (Cons op ops)
  then show ?case
    using inserts_replaces [of True k op] inserts_replaces [of False k op] inserts_once [of k op]
    by (simp add: block_operation_def)
qed (simp add: block_lines_def)

lemma apply_gentle_from:
  "blocks_state bs st \<Longrightarrow> list_all (gentle (length bs)) ops \<Longrightarrow>
   apply_operations_from i st ops =
     Some (Inr (blocks_lines (map (\<lambda>k. fold (\<lambda>op. block_operation op k) ops (bs ! (k - 1))) [1..<length bs + 1])))"
proof (induction ops arbitrary: i st bs)
  case Nil
  have "map (\<lambda>k. bs ! (k - 1)) [1..<length bs + 1] = bs"
    by (intro nth_equalityI) (simp_all del: upt_Suc)
  with Nil blocks_stateD(1) [OF Nil(1)] show ?case by simp
next
  case (Cons op ops)
  let ?bs = "map (\<lambda>k. block_operation op k (bs ! (k - 1))) [1..<length bs + 1]"
  obtain st' where st': "apply_operation st op = Some (Inr st')" "blocks_state ?bs st'"
    using apply_gentle [OF Cons.prems(1), of op] Cons.prems(2) by auto
  have len: "length ?bs = length bs" by (simp del: upt_Suc)
  have "map (\<lambda>k. fold (\<lambda>op. block_operation op k) ops (?bs ! (k - 1))) [1..<length bs + 1] =
      map (\<lambda>k. fold (\<lambda>op. block_operation op k) (op # ops) (bs ! (k - 1))) [1..<length bs + 1]"
    by (intro map_cong) (auto simp: nth_append simp del: upt_Suc)
  moreover have "apply_operations_from i st (op # ops) = apply_operations_from (i + 1) st' ops"
    using st'(1) by simp
  moreover have "list_all (gentle (length ?bs)) ops" unfolding len using Cons.prems(2) by simp
  ultimately show ?case using Cons.IH [OF st'(2), of "i + 1"] unfolding len by (simp only:)
qed

lemma apply_gentle_batch:
  assumes "list_all (gentle (length lines)) ops"
  shows "apply_hashline_operations lines ops =
    Some (Inr (concat (map (\<lambda>k. line_result ops k (lines ! (k - 1))) [1..<length lines + 1])))"
proof -
  let ?bs = "map (\<lambda>l. \<lparr>lb_before = [], lb_line = l, lb_after = []\<rparr>) lines"
  have "blocks_state ?bs (start_edit lines)"
    by (auto simp: blocks_state_def start_edit_def block_lines_def block_start_def length_concat comp_def
        sum_list_triv take_map simp del: upt_Suc)
  from apply_gentle_from [OF this, of ops 1] assms
  have "apply_hashline_operations lines ops =
    Some (Inr (concat (map (\<lambda>k. block_lines (fold (\<lambda>op. block_operation op k) ops (?bs ! (k - 1)))) [1..<length lines + 1])))"
    by (simp add: apply_hashline_operations_def comp_def del: upt_Suc)
  also have "map (\<lambda>k. block_lines (fold (\<lambda>op. block_operation op k) ops (?bs ! (k - 1)))) [1..<length lines + 1] =
      map (\<lambda>k. line_result ops k (lines ! (k - 1))) [1..<length lines + 1]"
    by (intro map_cong) (auto simp: fold_block_operation line_result_def simp del: upt_Suc)
  finally show ?thesis .
qed

text \<open>Lines appended after a line that was replaced by several go into the replacement.\<close>

lemma append_after_replacement:
  assumes "1 \<le> k" "k \<le> length lines" "c \<noteq> []" "d \<noteq> []"
    "r = no_operation\<lparr>po_operation := ''replace_line'', po_line := \<lparr>hr_line = k, hr_hash = x\<rparr>, po_content := c\<rparr>"
    "a = no_operation\<lparr>po_operation := ''append'', po_line := \<lparr>hr_line = k, hr_hash = x\<rparr>, po_content := d\<rparr>"
  shows "apply_hashline_operations lines [r, a] =
    Some (Inr (take (k - 1) lines @ hd c # d @ tl c @ drop k lines))"
proof (cases c)
  case (Cons y c')
  let ?m = "map_tail (replaced_position k k (length c)) [0..<length lines + 1]"
  let ?st = "(start_edit lines)\<lparr>es_lines := take (k - 1) lines @ c @ drop k lines, es_map := ?m\<rparr>"
  have r: "apply_operation (start_edit lines) r = Some (Inr ?st)"
    using assms by (simp add: apply_operation_def no_operation_def replace_original_range_def resolve_current_line_def
        start_edit_def slice_to_def slice_from_def del: upt_Suc)
  have m: "?m ! k = k" using assms(1,2) Cons by (simp add: nth_map_tail replaced_position_def del: upt_Suc)
  have split: "take k (take (k - 1) lines @ c @ drop k lines) = take (k - 1) lines @ [y]"
    "drop k (take (k - 1) lines @ c @ drop k lines) = c' @ drop k lines"
    using assms(1,2) Cons by (simp_all add: min_def)
  have "\<exists>st'. apply_operation ?st a = Some (Inr st') \<and> es_lines st' = take (k - 1) lines @ y # d @ c' @ drop k lines"
    using assms(1,2,4,6) m split Cons
    by (simp add: apply_operation_def no_operation_def insert_relative_def start_edit_def slice_to_def slice_from_def
        del: upt_Suc)
  with r show ?thesis using assms(5,6) Cons by (auto simp: apply_hashline_operations_def)
qed (use assms in simp)

end
