(* ===== verification/Hashline_Align.thy ===== *)
theory Hashline_Align
  imports Hashline
begin

text \<open>
  The alignment of the lines of a snapshot with those of the file: both routines give one, and
  the table gives one that matches as many lines as any.
\<close>

section \<open>Alignments\<close>

text \<open>A mapping of base lines to equal lines, in order; 0 stands for no line.\<close>

definition alignment :: "string list \<Rightarrow> string list \<Rightarrow> nat list \<Rightarrow> bool" where
  "alignment base ours m \<longleftrightarrow>
     length m = length base + 1 \<and>
     (\<forall>i. 1 \<le> i \<and> i \<le> length base \<and> m ! i \<noteq> 0 \<longrightarrow> m ! i \<le> length ours \<and> base ! (i - 1) = ours ! (m ! i - 1)) \<and>
     (\<forall>i j. 1 \<le> i \<and> i < j \<and> j \<le> length base \<and> m ! i \<noteq> 0 \<and> m ! j \<noteq> 0 \<longrightarrow> m ! i < m ! j)"

definition matched :: "nat list \<Rightarrow> nat" where
  "matched m = length (filter (\<lambda>x. x \<noteq> 0) (tl m))"

text \<open>The length of a longest common subsequence of the first \<open>i\<close> and the first \<open>j\<close> lines.\<close>

fun lcs_prefix :: "string list \<Rightarrow> string list \<Rightarrow> nat \<Rightarrow> nat \<Rightarrow> nat" where
  "lcs_prefix base ours 0 j = 0"
| "lcs_prefix base ours (Suc i) 0 = 0"
| "lcs_prefix base ours (Suc i) (Suc j) =
     (if base ! i = ours ! j then lcs_prefix base ours i j + 1
      else max (lcs_prefix base ours i (Suc j)) (lcs_prefix base ours (Suc i) j))"

lemma lcs_prefix_zero [simp]: "lcs_prefix base ours i 0 = 0"
  by (cases i) simp_all

lemma lcs_row_prefix:
  "j \<le> length ours \<Longrightarrow>
   lcs_row (base ! i) (drop j ours) (map (lcs_prefix base ours i) [j..<length ours + 1]) (lcs_prefix base ours (Suc i) j) =
     map (lcs_prefix base ours (Suc i)) [j + 1..<length ours + 1]"
proof (induction "length ours - j" arbitrary: j)
  case (Suc d)
  then have j: "j < length ours" by simp
  have "drop j ours = ours ! j # drop (Suc j) ours" using j by (simp add: Cons_nth_drop_Suc)
  moreover have "[j..<length ours + 1] = j # Suc j # [Suc (Suc j)..<length ours + 1]"
    "[Suc j..<length ours + 1] = Suc j # [Suc (Suc j)..<length ours + 1]"
    using j by (simp_all add: upt_rec)
  ultimately show ?case using Suc.hyps(1) [of "Suc j"] Suc.hyps(2) j by (simp add: Let_def max.commute del: upt_Suc)
qed simp

lemma lcs_table_prefix:
  "rev (lcs_table base ours) = map (\<lambda>i. map (lcs_prefix base ours i) [0..<length ours + 1]) [0..<length base + 1]"
proof -
  have "foldl (\<lambda>rows b. (0 # lcs_row b ours (hd rows) 0) # rows) [replicate (length ours + 1) 0] (take n base) =
      rev (map (\<lambda>i. map (lcs_prefix base ours i) [0..<length ours + 1]) [0..<n + 1])" if "n \<le> length base" for n
    using that
  proof (induction n)
    case 0
    have "lcs_prefix base ours 0 = (\<lambda>_. 0)" "[0..<0 + 1] = [0::nat]" by (simp_all add: fun_eq_iff)
    then show ?case by (simp add: map_replicate_const del: upt_Suc replicate_Suc)
  next
    case (Suc n)
    have "map (lcs_prefix base ours (Suc n)) [0..<length ours + 1] =
        0 # lcs_row (base ! n) ours (map (lcs_prefix base ours n) [0..<length ours + 1]) 0"
      using lcs_row_prefix [of 0 ours base n] by (simp add: upt_conv_Cons del: upt_Suc)
    with Suc show ?case by (simp add: take_Suc_conv_app_nth upt_Suc_append)
  qed
  from this [of "length base"] show ?thesis by (simp add: lcs_table_def)
qed

text \<open>No alignment matches more lines.\<close>

lemma lcs_prefix_bound:
  assumes "S \<subseteq> {1..p}" "\<forall>k \<in> S. 1 \<le> f k \<and> f k \<le> q \<and> base ! (k - 1) = ours ! (f k - 1)"
    "\<forall>i \<in> S. \<forall>j \<in> S. i < j \<longrightarrow> f i < f j"
  shows "card S \<le> lcs_prefix base ours p q"
  using assms
proof (induction base ours p q arbitrary: S rule: lcs_prefix.induct)
  case (1 base ours q)
  then have "S = {}" by auto
  then show ?case by simp
next
  case (2 base ours i)
  then have "S = {}" by fastforce
  then show ?case by simp
next
  case (3 base ours i j)
  have fin: "finite S" using 3(4) finite_subset by blast
  show ?case
  proof (cases "base ! i = ours ! j")
    case True
    show ?thesis
    proof (cases "S = {}")
      case False
      let ?T = "S - {Max S}"
      have mx: "Max S \<in> S" "\<And>k. k \<in> ?T \<Longrightarrow> k < Max S"
        using fin False by (auto simp: less_le)
      have "card ?T \<le> lcs_prefix base ours i j"
      proof (rule 3(1) [OF True])
        show "?T \<subseteq> {1..i}" using mx 3(4) by fastforce
        show "\<forall>k\<in>?T. 1 \<le> f k \<and> f k \<le> j \<and> base ! (k - 1) = ours ! (f k - 1)"
          using mx 3(5,6) by (metis Diff_iff le_trans less_Suc_eq_le less_le_trans)
      qed (use 3(6) in blast)
      then show ?thesis using True mx(1) fin by (simp add: card_Diff_singleton)
    qed simp
  next
    case False
    show ?thesis
    proof (cases "Suc i \<in> S")
      case True
      have "card S \<le> lcs_prefix base ours (Suc i) j"
      proof (rule 3(3) [OF False 3(4)])
        have top: "f (Suc i) \<le> Suc j" "f (Suc i) \<noteq> Suc j" using True 3(5) False by auto
        have "f k \<le> j" if k: "k \<in> S" for k
        proof (cases "k = Suc i")
          case False
          then have "k < Suc i" using k 3(4) by fastforce
          with 3(6) k True top show ?thesis by fastforce
        qed (use top in simp)
        with 3(5) show "\<forall>k\<in>S. 1 \<le> f k \<and> f k \<le> j \<and> base ! (k - 1) = ours ! (f k - 1)" by blast
      qed (use 3(6) in blast)
      with False show ?thesis by simp
    next
      case out: False
      have "card S \<le> lcs_prefix base ours i (Suc j)"
      proof (rule 3(2) [OF False _ 3(5) 3(6)])
        show "S \<subseteq> {1..i}" using 3(4) out by (auto simp: le_Suc_eq)
      qed
      with False show ?thesis by simp
    qed
  qed
qed

lemma matched_card: "matched m = card {k \<in> {1..length m - 1}. m ! k \<noteq> 0}"
proof (cases m)
  case (Cons x ys)
  have "{k \<in> {1..length m - 1}. m ! k \<noteq> 0} = Suc ` {i. i < length ys \<and> ys ! i \<noteq> 0}"
  proof (rule set_eqI)
    show "k \<in> {k \<in> {1..length m - 1}. m ! k \<noteq> 0} \<longleftrightarrow> k \<in> Suc ` {i. i < length ys \<and> ys ! i \<noteq> 0}" for k
      using Cons by (cases k) (auto simp: image_iff)
  qed
  then show ?thesis using Cons by (simp add: matched_def length_filter_conv_card card_image)
qed (simp add: matched_def)

lemma alignment_bound:
  assumes "alignment base ours m"
  shows "matched m \<le> lcs_prefix base ours (length base) (length ours)"
proof -
  have "card {k \<in> {1..length m - 1}. m ! k \<noteq> 0} \<le> lcs_prefix base ours (length base) (length ours)"
    using assms by (intro lcs_prefix_bound [where f = "\<lambda>k. m ! k"]) (auto simp: alignment_def)
  then show ?thesis by (simp add: matched_card)
qed


text \<open>The walk builds an alignment of that length.\<close>

definition aligned_upto :: "string list \<Rightarrow> string list \<Rightarrow> nat \<Rightarrow> nat \<Rightarrow> nat list \<Rightarrow> bool" where
  "aligned_upto base ours i j m \<longleftrightarrow>
     (\<forall>k. 1 \<le> k \<and> k \<le> i \<and> m ! k \<noteq> 0 \<longrightarrow> m ! k \<le> j \<and> base ! (k - 1) = ours ! (m ! k - 1)) \<and>
     (\<forall>a b. 1 \<le> a \<and> a < b \<and> b \<le> i \<and> m ! a \<noteq> 0 \<and> m ! b \<noteq> 0 \<longrightarrow> m ! a < m ! b) \<and>
     card {k \<in> {1..i}. m ! k \<noteq> 0} = lcs_prefix base ours i j"

lemma aligned_match:
  assumes "aligned_upto base ours i j m" "m ! Suc i = Suc j" "base ! i = ours ! j"
  shows "aligned_upto base ours (Suc i) (Suc j) m"
proof -
  have "{k \<in> {1..Suc i}. m ! k \<noteq> 0} = insert (Suc i) {k \<in> {1..i}. m ! k \<noteq> 0}"
    using assms(2) by (auto simp: le_Suc_eq)
  then have "card {k \<in> {1..Suc i}. m ! k \<noteq> 0} = lcs_prefix base ours (Suc i) (Suc j)"
    using assms by (simp add: aligned_upto_def)
  moreover have "m ! a < m ! Suc i" if "1 \<le> a" "a \<le> i" "m ! a \<noteq> 0" for a
    using assms that by (fastforce simp: aligned_upto_def)
  ultimately show ?thesis using assms unfolding aligned_upto_def by (auto simp: le_Suc_eq)
qed

lemma aligned_skip_base:
  assumes "aligned_upto base ours i (Suc j) m" "m ! Suc i = 0" "base ! i \<noteq> ours ! j"
    "lcs_prefix base ours (Suc i) j \<le> lcs_prefix base ours i (Suc j)"
  shows "aligned_upto base ours (Suc i) (Suc j) m"
proof -
  have "{k \<in> {1..Suc i}. m ! k \<noteq> 0} = {k \<in> {1..i}. m ! k \<noteq> 0}"
    using assms(2) by (auto simp: le_Suc_eq)
  moreover have "lcs_prefix base ours (Suc i) (Suc j) = lcs_prefix base ours i (Suc j)" using assms(3,4) by simp
  ultimately show ?thesis using assms(1,2) unfolding aligned_upto_def by (metis le_SucE less_Suc_eq_le)
qed

lemma aligned_skip_ours:
  assumes "aligned_upto base ours (Suc i) j m" "base ! i \<noteq> ours ! j"
    "lcs_prefix base ours i (Suc j) < lcs_prefix base ours (Suc i) j"
  shows "aligned_upto base ours (Suc i) (Suc j) m"
proof -
  have "lcs_prefix base ours (Suc i) (Suc j) = lcs_prefix base ours (Suc i) j" using assms(2,3) by simp
  with assms(1) show ?thesis unfolding aligned_upto_def by (metis le_SucI)
qed

lemma lcs_walk_prefix:
  assumes "i \<le> length base" "j \<le> length ours" "i < length acc" "\<forall>k. 1 \<le> k \<and> k \<le> i \<longrightarrow> acc ! k = 0"
    and "\<forall>a b. a \<le> length base \<longrightarrow> b \<le> length ours \<longrightarrow> dp a b = lcs_prefix base ours a b"
  shows "length (lcs_walk dp base ours i j acc) = length acc \<and>
    (\<forall>k > i. lcs_walk dp base ours i j acc ! k = acc ! k) \<and>
    aligned_upto base ours i j (lcs_walk dp base ours i j acc)"
  using assms
proof (induction dp base ours i j acc rule: lcs_walk.induct)
  case (1 dp base ours i j acc)
  show ?case
  proof (cases i)
    case 0
    then show ?thesis by (simp add: lcs_walk.simps [of _ _ _ 0] aligned_upto_def)
  next
    case i: (Suc i')
    show ?thesis
    proof (cases j)
      case 0
      have r: "lcs_walk dp base ours i j acc = acc" using 0 by (simp add: lcs_walk.simps [of _ _ _ _ 0])
      have none: "{k \<in> {1..i}. acc ! k \<noteq> 0} = {}" using 1(7) by auto
      have zero: "acc ! k = 0" if "1 \<le> k" "k \<le> i" for k using 1(7) that by blast
      have "aligned_upto base ours i j acc"
        unfolding aligned_upto_def none using zero 0 by auto
      then show ?thesis unfolding r by simp
    next
      case j: (Suc j')
      have dp: "dp i j' = lcs_prefix base ours (Suc i') j'" "dp i' j = lcs_prefix base ours i' (Suc j')"
        using 1(4,5,8) i j by simp_all
      consider "base ! i' = ours ! j'" | "base ! i' \<noteq> ours ! j'" "dp i j' \<le> dp i' j"
        | "base ! i' \<noteq> ours ! j'" "dp i' j < dp i j'" by linarith
      then show ?thesis
      proof cases
        case 1
        let ?r = "lcs_walk dp base ours i' j' (acc[i := j])"
        have r: "lcs_walk dp base ours i j acc = ?r" using 1 i j by (simp add: lcs_walk.simps [of _ _ _ "Suc _"])
        have "length ?r = length acc \<and> (\<forall>k > i'. ?r ! k = acc[i := j] ! k) \<and> aligned_upto base ours i' j' ?r"
          using "1.IH"(1) "1.prems" 1 i j by simp
        with aligned_match [of base ours i' j' ?r] 1 i j "1.prems"(3) show ?thesis unfolding r by simp
      next
        case 2
        let ?r = "lcs_walk dp base ours i' j acc"
        have r: "lcs_walk dp base ours i j acc = ?r" using 2 i j by (simp add: lcs_walk.simps [of _ _ _ "Suc _"])
        have "length ?r = length acc \<and> (\<forall>k > i'. ?r ! k = acc ! k) \<and> aligned_upto base ours i' j ?r"
          using "1.IH"(2) "1.prems" 2 i j by simp
        with aligned_skip_base [of base ours i' j' ?r] 2 i j "1.prems"(4) dp show ?thesis unfolding r by simp
      next
        case 3
        let ?r = "lcs_walk dp base ours i j' acc"
        have r: "lcs_walk dp base ours i j acc = ?r" using 3 i j by (simp add: lcs_walk.simps [of _ _ _ "Suc _"])
        have "length ?r = length acc \<and> (\<forall>k > i. ?r ! k = acc ! k) \<and> aligned_upto base ours i j' ?r"
          using "1.IH"(3) "1.prems" 3 i j by simp
        with aligned_skip_ours [of base ours i' j' ?r] 3 i j dp show ?thesis unfolding r by simp
      qed
    qed
  qed
qed


lemma greedy_from_props:
  "length (align_greedy_from base ours start) = length base \<and>
   (\<forall>i < length base. align_greedy_from base ours start ! i \<noteq> 0 \<longrightarrow>
      start \<le> align_greedy_from base ours start ! i \<and> align_greedy_from base ours start ! i \<le> length ours \<and>
      ours ! (align_greedy_from base ours start ! i - 1) = base ! i) \<and>
   (\<forall>i j. i < j \<and> j < length base \<and> align_greedy_from base ours start ! i \<noteq> 0 \<and> align_greedy_from base ours start ! j \<noteq> 0 \<longrightarrow>
      align_greedy_from base ours start ! i < align_greedy_from base ours start ! j)"
  (is "?P base start")
proof (induction base arbitrary: start)
  case (Cons b base)
  show ?case
  proof (cases "find (\<lambda>k. start \<le> k \<and> ours ! (k - 1) = b) [1..<length ours + 1]")
    case None
    with Cons [of start] show ?thesis
      by (auto simp: nth_Cons' less_Suc_eq_0_disj simp del: upt_Suc)
  next
    case (Some k)
    then have k: "1 \<le> k" "k \<le> length ours" "start \<le> k" "ours ! (k - 1) = b"
      by (auto simp: find_Some_iff simp del: upt_Suc)
    let ?r = "align_greedy_from base ours (k + 1)"
    have r: "align_greedy_from (b # base) ours start = k # ?r" using Some by simp
    have later: "k < ?r ! i \<and> ?r ! i \<le> length ours \<and> ours ! (?r ! i - 1) = base ! i" if "i < length base" "?r ! i \<noteq> 0" for i
      using Cons [of "k + 1"] that by fastforce
    show ?thesis unfolding r
    proof (intro conjI allI impI)
      show "length (k # ?r) = length (b # base)" using Cons [of "k + 1"] by simp
    next
      fix i assume "i < length (b # base)" "(k # ?r) ! i \<noteq> 0"
      with later [of "i - 1"] k
      show "start \<le> (k # ?r) ! i" "(k # ?r) ! i \<le> length ours" "ours ! ((k # ?r) ! i - 1) = (b # base) ! i"
        by (cases i; fastforce)+
    next
      fix i j assume "i < j \<and> j < length (b # base) \<and> (k # ?r) ! i \<noteq> 0 \<and> (k # ?r) ! j \<noteq> 0"
      with later [of "j - 1"] Cons [of "k + 1"] show "(k # ?r) ! i < (k # ?r) ! j"
        by (cases i; cases j) auto
    qed
  qed
qed simp

lemma greedy_alignment: "alignment base ours (align_lines_greedy base ours)"
proof -
  have s: "(0 # xs) ! i = xs ! (i - 1)" if "1 \<le> i" for xs :: "nat list" and i using that by (cases i) simp_all
  note P = greedy_from_props [of base ours 1]
  show ?thesis
    unfolding alignment_def align_lines_greedy_def
  proof (intro conjI allI impI)
    show "length (0 # align_greedy_from base ours 1) = length base + 1" using P by simp
  next
    fix i assume "1 \<le> i \<and> i \<le> length base \<and> (0 # align_greedy_from base ours 1) ! i \<noteq> 0"
    then have "i - 1 < length base" "align_greedy_from base ours 1 ! (i - 1) \<noteq> 0" "1 \<le> i" using s by auto
    moreover from this P have "align_greedy_from base ours 1 ! (i - 1) \<le> length ours"
      "base ! (i - 1) = ours ! (align_greedy_from base ours 1 ! (i - 1) - 1)" by metis+
    ultimately show "(0 # align_greedy_from base ours 1) ! i \<le> length ours"
      "base ! (i - 1) = ours ! ((0 # align_greedy_from base ours 1) ! i - 1)"
      by (simp_all only: s)
  next
    fix i j assume "1 \<le> i \<and> i < j \<and> j \<le> length base \<and> (0 # align_greedy_from base ours 1) ! i \<noteq> 0 \<and>
      (0 # align_greedy_from base ours 1) ! j \<noteq> 0"
    then have "i - 1 < j - 1" "j - 1 < length base" "align_greedy_from base ours 1 ! (i - 1) \<noteq> 0"
      "align_greedy_from base ours 1 ! (j - 1) \<noteq> 0" "1 \<le> i" "1 \<le> j" using s by auto
    moreover from this P have "align_greedy_from base ours 1 ! (i - 1) < align_greedy_from base ours 1 ! (j - 1)" by blast
    ultimately show "(0 # align_greedy_from base ours 1) ! i < (0 # align_greedy_from base ours 1) ! j"
      by (simp only: s)
  qed
qed

lemma align_lines_alignment: "alignment base ours (align_lines_lcs base ours)"
  and align_lines_matched: "length base * length ours \<le> max_lcs_matrix_size \<Longrightarrow>
    matched (align_lines_lcs base ours) = lcs_prefix base ours (length base) (length ours)"
proof -
  have "alignment base ours (align_lines_lcs base ours) \<and> (length base * length ours \<le> max_lcs_matrix_size \<longrightarrow>
    matched (align_lines_lcs base ours) = lcs_prefix base ours (length base) (length ours))"
  proof (cases "base = [] \<or> ours = [] \<or> max_lcs_matrix_size < length base * length ours")
    case True
    then show ?thesis
      using greedy_alignment [of base ours]
      by (auto simp: align_lines_lcs_def alignment_def matched_def nth_append simp del: replicate_Suc)
  next
    case False
    let ?acc = "replicate (length base + 1) (0::nat)"
    let ?dp = "\<lambda>i j. rev (lcs_table base ours) ! i ! j"
    have m: "align_lines_lcs base ours = lcs_walk ?dp base ours (length base) (length ours) ?acc" (is "_ = ?r")
      using False by (simp add: align_lines_lcs_def Let_def)
    have dp: "\<forall>a b. a \<le> length base \<longrightarrow> b \<le> length ours \<longrightarrow> ?dp a b = lcs_prefix base ours a b"
      unfolding lcs_table_prefix by (simp del: upt_Suc)
    have "\<forall>k. 1 \<le> k \<and> k \<le> length base \<longrightarrow> ?acc ! k = 0" by (simp del: replicate_Suc)
    from lcs_walk_prefix [OF le_refl le_refl _ this dp]
    have r: "length ?r = length base + 1" "aligned_upto base ours (length base) (length ours) ?r" by simp_all
    then have "alignment base ours ?r" unfolding alignment_def aligned_upto_def by blast
    moreover have "matched ?r = lcs_prefix base ours (length base) (length ours)"
      unfolding matched_card using r by (simp add: aligned_upto_def)
    ultimately show ?thesis unfolding m by blast
  qed
  then show "alignment base ours (align_lines_lcs base ours)"
    "length base * length ours \<le> max_lcs_matrix_size \<Longrightarrow>
    matched (align_lines_lcs base ours) = lcs_prefix base ours (length base) (length ours)" by blast+
qed

end
