(* ===== verification/Hashline_Recovery.thy ===== *)
theory Hashline_Recovery
  imports Hashline_Batch Hashline_Align
begin

text \<open>
  A batch carried over to a changed file: on an unchanged file it is the batch itself, and on a
  changed one it replaces only lines that are equal to the ones the batch names.
\<close>

section \<open>An unchanged file\<close>

lemma lcs_walk_same:
  "i < length acc \<Longrightarrow> i \<le> length base \<Longrightarrow> acc ! 0 = 0 \<Longrightarrow>
   lcs_walk dp base base i i acc = [0..<i + 1] @ drop (i + 1) acc"
proof (induction i arbitrary: acc)
  case 0
  then show ?case by (cases acc) (simp_all add: lcs_walk.simps)
next
  case (Suc i)
  have "lcs_walk dp base base (Suc i) (Suc i) acc = lcs_walk dp base base i i (acc[Suc i := Suc i])"
    by (simp add: lcs_walk.simps [of _ _ _ "Suc i"])
  also have "\<dots> = [0..<i + 1] @ drop (i + 1) (acc[Suc i := Suc i])"
    using Suc.prems by (intro Suc.IH) simp_all
  also have "drop (i + 1) (acc[Suc i := Suc i]) = Suc i # drop (i + 2) acc"
    using Suc.prems by (simp add: drop_update_swap Cons_nth_drop_Suc [symmetric, of "Suc i" acc])
  finally show ?case by simp
qed

lemma greedy_same: "j \<le> length base \<Longrightarrow> align_greedy_from (drop j base) base (j + 1) = [j + 1..<length base + 1]"
proof (induction "length base - j" arbitrary: j)
  case (Suc d)
  then have j: "j < length base" by simp
  have "find (\<lambda>k. j + 1 \<le> k \<and> base ! (k - 1) = base ! j) [1..<length base + 1] = Some (j + 1)"
    using j by (auto simp: find_Some_iff simp del: upt_Suc intro!: exI [of _ j])
  moreover have "drop j base = base ! j # drop (j + 1) base" using j by (simp add: Cons_nth_drop_Suc)
  moreover have "[j + 1..<length base + 1] = (j + 1) # [j + 2..<length base + 1]" using j by (simp add: upt_conv_Cons)
  ultimately show ?case using Suc.hyps(1) [of "j + 1"] Suc.hyps(2) j by (simp del: upt_Suc)
qed simp

lemma align_same: "align_lines_lcs base base = [0..<length base + 1]"
proof (cases "base = []")
  case False
  have "0 # [1..<length base + 1] = [0..<length base + 1]" by (simp add: upt_conv_Cons del: upt_Suc)
  with False greedy_same [of 0 base] show ?thesis
    by (simp add: align_lines_lcs_def align_lines_greedy_def lcs_walk_same Let_def del: upt_Suc replicate_Suc)
qed (simp add: align_lines_lcs_def)

section \<open>Operations carried over\<close>

text \<open>The lines of an operation lie in the file.\<close>

definition in_file :: "nat \<Rightarrow> parsed_operation \<Rightarrow> bool" where
  "in_file n op \<longleftrightarrow>
     (if po_operation op = ''replace_range''
      then 1 \<le> hr_line (po_start op) \<and> hr_line (po_start op) \<le> hr_line (po_end op) \<and> hr_line (po_end op) \<le> n
      else po_operation op \<in> {''replace_line'', ''prepend'', ''append'', ''paste''} \<longrightarrow>
        1 \<le> hr_line (po_line op) \<and> hr_line (po_line op) \<le> n)"

lemma parse_range_in_file:
  "parse_range h op lines = Inr (s, e) \<Longrightarrow> 1 \<le> hr_line s \<and> hr_line s \<le> hr_line e \<and> hr_line e \<le> length lines"
  using parse_and_validate_line(1,2) by (auto simp: parse_range_def split: sum.splits if_splits)

lemma parse_operation_in_file:
  "parse_operation h op lines = Inr p \<Longrightarrow> in_file (length lines) p \<and> po_operation p = ho_operation op"
  using parse_and_validate_line(1,2) parse_range_in_file
  by (auto simp: parse_operation_def in_file_def no_operation_def Let_def map_sum_def split: if_splits sum.splits)

lemma parse_operations_in_file:
  "parse_operations h i ops lines = Inr ps \<Longrightarrow>
   list_all (in_file (length lines)) ps \<and> map po_operation ps = map ho_operation ops"
  by (induction ops arbitrary: i ps)
    (auto simp: parse_operation_in_file map_sum_def split: sum.splits)

lemma map_operation_same:
  assumes "in_file n op" "po_operation op \<notin> {''cut'', ''paste''}"
  shows "\<exists>op'. map_operation [0..<n + 1] op = Inr op' \<and> po_operation op' = po_operation op \<and>
    (\<forall>st. apply_operation st op' = apply_operation st op)"
proof -
  have nth: "[0..<n + 1] ! k = k" if "k \<le> n" for k using that by (simp del: upt_Suc)
  have "\<not> list_ex (\<lambda>k. [0..<n + 1] ! k \<noteq> k) [s..<e + 1]" if "e \<le> n" for s e
    using that nth by (auto simp: list_ex_iff simp del: upt_Suc)
  with assms nth show ?thesis
    by (auto simp: map_operation_def in_file_def apply_operation_def no_operation_def Let_def simp del: upt_Suc)
qed

lemma map_operations_same:
  "list_all (in_file n) ps \<Longrightarrow> list_all (\<lambda>op. po_operation op \<notin> {''cut'', ''paste''}) ps \<Longrightarrow>
   \<exists>ps'. map_operations [0..<n + 1] ps = Inr ps' \<and> (\<forall>i st. apply_operations_from i st ps' = apply_operations_from i st ps)"
proof (induction ps)
  case (Cons op ps)
  then obtain op' ps' where "map_operation [0..<n + 1] op = Inr op'" "po_operation op' = po_operation op"
    "\<forall>st. apply_operation st op' = apply_operation st op"
    "map_operations [0..<n + 1] ps = Inr ps'" "\<forall>i st. apply_operations_from i st ps' = apply_operations_from i st ps"
    using map_operation_same [of n op] by (auto simp del: upt_Suc)
  then show ?case by (auto simp del: upt_Suc split: option.splits sum.splits)
qed simp


lemma recover_unchanged:
  assumes ps: "parse_operations h 1 ops lines = Inr ps"
    and plain: "list_all (\<lambda>op. ho_operation op \<notin> {''cut'', ''paste''}) ops"
  shows "recover_from_snapshot h lines lines ops = apply_hashline_operations lines ps"
proof -
  have "list_all (in_file (length lines)) ps" "map po_operation ps = map ho_operation ops"
    using parse_operations_in_file [OF ps] by auto
  moreover have "list_all (\<lambda>name. name \<notin> {''cut'', ''paste''}) (map po_operation ps)"
    unfolding calculation(2) using plain by (simp add: list_all_iff)
  then have "list_all (\<lambda>op. po_operation op \<notin> {''cut'', ''paste''}) ps" by (simp add: list_all_iff)
  ultimately obtain ps' where "map_operations [0..<length lines + 1] ps = Inr ps'"
    "\<forall>i st. apply_operations_from i st ps' = apply_operations_from i st ps"
    using map_operations_same by blast
  with ps show ?thesis by (simp add: recover_from_snapshot_def apply_hashline_operations_def align_same del: upt_Suc)
qed

section \<open>A changed file\<close>

text \<open>Whether the batch replaces a base line that is aligned with line \<open>j\<close> and equal to it.\<close>

definition recovery_replaces :: "string list \<Rightarrow> string list \<Rightarrow> parsed_operation list \<Rightarrow> nat \<Rightarrow> bool" where
  "recovery_replaces base ours ps j \<longleftrightarrow>
     list_ex (\<lambda>k. list_ex (\<lambda>op. replaces op k) ps \<and> align_lines_lcs base ours ! k = j \<and>
       base ! (k - 1) = ours ! (j - 1)) [1..<length base + 1]"

lemma map_operation_range:
  assumes "map_operation m op = Inr op'" "po_operation op = ''replace_range''"
  defines "s \<equiv> hr_line (po_start op)" and "e \<equiv> hr_line (po_end op)"
  shows "op' = no_operation\<lparr>po_operation := ''replace_range'', po_content := po_content op,
      po_start := (po_start op)\<lparr>hr_line := m ! s\<rparr>, po_end := (po_end op)\<lparr>hr_line := m ! e\<rparr>\<rparr>"
    "m ! s \<noteq> 0" "int (m ! e) - int (m ! s) = int e - int s"
    "\<not> list_ex (\<lambda>k. m ! k \<noteq> m ! s + k - s) [s..<e + 1]"
proof -
  have run: "map_operation m op =
      (if s < 1 \<or> length m \<le> s \<or> e < 1 \<or> length m \<le> e then Inl (Unaligned s)
       else if m ! s = 0 \<or> m ! e = 0 \<or> int (m ! e) - int (m ! s) \<noteq> int e - int s then Inl (Unaligned s)
       else if list_ex (\<lambda>k. m ! k \<noteq> m ! s + k - s) [s..<e + 1] then Inl (Unaligned s)
       else Inr (no_operation\<lparr>po_operation := ''replace_range'', po_content := po_content op,
         po_start := (po_start op)\<lparr>hr_line := m ! s\<rparr>, po_end := (po_end op)\<lparr>hr_line := m ! e\<rparr>\<rparr>))"
    using assms(2) by (simp add: map_operation_def Let_def s_def e_def del: upt_Suc)
  show "op' = no_operation\<lparr>po_operation := ''replace_range'', po_content := po_content op,
      po_start := (po_start op)\<lparr>hr_line := m ! s\<rparr>, po_end := (po_end op)\<lparr>hr_line := m ! e\<rparr>\<rparr>"
    "m ! s \<noteq> 0" "int (m ! e) - int (m ! s) = int e - int s"
    "\<not> list_ex (\<lambda>k. m ! k \<noteq> m ! s + k - s) [s..<e + 1]"
    using assms(1) unfolding run by (simp_all split: if_split_asm del: upt_Suc)
qed

lemma map_operation_ok:
  assumes "map_operation m op = Inr op'" "in_file n op" "length m = n + 1"
  shows "well_formed op'"
    "replaces op' j \<Longrightarrow> \<exists>k. 1 \<le> k \<and> k \<le> n \<and> replaces op k \<and> m ! k = j \<and> j \<noteq> 0"
proof -
  have wr: "well_formed op' \<and> (replaces op' j \<longrightarrow> (\<exists>k. 1 \<le> k \<and> k \<le> n \<and> replaces op k \<and> m ! k = j \<and> j \<noteq> 0))"
  proof (cases "po_operation op = ''replace_range''")
    case True
    let ?s = "hr_line (po_start op)" and ?e = "hr_line (po_end op)"
    have r: "1 \<le> ?s" "?s \<le> ?e" "?e \<le> n" using assms(2) True by (auto simp: in_file_def)
    have op': "op' = no_operation\<lparr>po_operation := ''replace_range'', po_content := po_content op,
          po_start := (po_start op)\<lparr>hr_line := m ! ?s\<rparr>, po_end := (po_end op)\<lparr>hr_line := m ! ?e\<rparr>\<rparr>"
        and nz: "m ! ?s \<noteq> 0" "int (m ! ?e) - int (m ! ?s) = int ?e - int ?s"
      by (rule map_operation_range [OF assms(1) True])+
    have mid: "m ! k = m ! ?s + k - ?s" if "?s \<le> k" "k \<le> ?e" for k
    proof -
      have "k \<in> set [?s..<?e + 1]" using that by (simp del: upt_Suc)
      with map_operation_range(4) [OF assms(1) True] show ?thesis unfolding list_ex_iff by blast
    qed
    show ?thesis
    proof (intro conjI impI)
      show "well_formed op'" unfolding op' well_formed_def using nz(2) r by simp
      assume "replaces op' j"
      then have j: "m ! ?s \<le> j" "j \<le> m ! ?e" by (auto simp: op' replaces_def)
      let ?k = "?s + (j - m ! ?s)"
      have "?k \<le> ?e" using j nz(2) r by linarith
      moreover from this have "m ! ?k = m ! ?s + ?k - ?s" by (intro mid) simp
      then have "m ! ?k = j" using j(1) by simp
      ultimately have "m ! ?k = j" "replaces op ?k" using True by (simp_all add: replaces_def)
      with \<open>?k \<le> ?e\<close> r j nz(1) show "\<exists>k. 1 \<le> k \<and> k \<le> n \<and> replaces op k \<and> m ! k = j \<and> j \<noteq> 0"
        by (intro exI [of _ ?k]) auto
    qed
  next
    case False
    show ?thesis
    proof (cases "po_operation op \<in> {''replace_line'', ''prepend'', ''append''}")
      case True
      then show ?thesis using assms
        by (auto simp: map_operation_def Let_def well_formed_def replaces_def in_file_def no_operation_def split: if_splits)
    next
      case out: False
      with False assms(1) show ?thesis
        by (auto simp: map_operation_def Let_def well_formed_def replaces_def no_operation_def split: if_splits)
    qed
  qed
  then show "well_formed op'" by blast
  from wr show "replaces op' j \<Longrightarrow> \<exists>k. 1 \<le> k \<and> k \<le> n \<and> replaces op k \<and> m ! k = j \<and> j \<noteq> 0" by blast
qed

lemma map_operations_ok:
  "map_operations m ps = Inr ps' \<Longrightarrow> list_all (in_file n) ps \<Longrightarrow> length m = n + 1 \<Longrightarrow>
   list_all well_formed ps' \<and>
   (\<forall>j. list_ex (\<lambda>op. replaces op j) ps' \<longrightarrow>
      (\<exists>k. 1 \<le> k \<and> k \<le> n \<and> list_ex (\<lambda>op. replaces op k) ps \<and> m ! k = j \<and> j \<noteq> 0))"
proof (induction ps arbitrary: ps')
  case (Cons op ps)
  then obtain q qs where q: "map_operation m op = Inr q" "map_operations m ps = Inr qs" "ps' = q # qs"
    by (auto simp: map_sum_def split: sum.splits)
  with Cons map_operation_ok [OF q(1), of n] show ?case by auto
qed simp

lemma recover_kept:
  shows "recover_from_snapshot h base ours ops \<noteq> None"
    "recover_from_snapshot h base ours ops = Some (Inr result) \<Longrightarrow>
       \<exists>ps. parse_operations h 1 ops base = Inr ps \<and>
         subseq (map (\<lambda>j. ours ! (j - 1)) (filter (\<lambda>j. \<not> recovery_replaces base ours ps j) [1..<length ours + 1])) result"
proof -
  let ?m = "align_lines_lcs base ours"
  have al: "alignment base ours ?m" by (rule align_lines_alignment)
  have "recover_from_snapshot h base ours ops \<noteq> None \<and>
    (\<forall>result. recover_from_snapshot h base ours ops = Some (Inr result) \<longrightarrow>
      (\<exists>ps. parse_operations h 1 ops base = Inr ps \<and>
         subseq (map (\<lambda>j. ours ! (j - 1)) (filter (\<lambda>j. \<not> recovery_replaces base ours ps j) [1..<length ours + 1])) result))"
  proof (cases "parse_operations h 1 ops base")
    case (Inr ps)
    then have inf: "list_all (in_file (length base)) ps" using parse_operations_in_file by blast
    show ?thesis
    proof (cases "map_operations ?m ps")
      case m: (Inr ps')
      have len: "length ?m = length base + 1" using al by (simp add: alignment_def)
      have wf: "list_all well_formed ps'" and rep: "\<And>j. list_ex (\<lambda>op. replaces op j) ps' \<Longrightarrow>
          \<exists>k. 1 \<le> k \<and> k \<le> length base \<and> list_ex (\<lambda>op. replaces op k) ps \<and> ?m ! k = j \<and> j \<noteq> 0"
        using map_operations_ok [OF m inf len] by auto
      have "recovery_replaces base ours ps j" if "list_ex (\<lambda>op. replaces op j) ps'" for j
      proof -
        obtain k where k: "1 \<le> k" "k \<le> length base" "list_ex (\<lambda>op. replaces op k) ps" "?m ! k = j" "j \<noteq> 0"
          using rep [OF \<open>list_ex (\<lambda>op. replaces op j) ps'\<close>] by blast
        with al have "base ! (k - 1) = ours ! (j - 1)" by (auto simp: alignment_def)
        with k show ?thesis
          by (auto simp: recovery_replaces_def list_ex_iff simp del: upt_Suc intro!: bexI [of _ k])
      qed
      then have "filter (\<lambda>j. \<not> recovery_replaces base ours ps j) [1..<length ours + 1] =
          filter (\<lambda>j. \<not> recovery_replaces base ours ps j)
            (filter (\<lambda>j. \<not> list_ex (\<lambda>op. replaces op j) ps') [1..<length ours + 1])"
        unfolding filter_filter by (intro filter_cong) auto
      then have "subseq (map (\<lambda>j. ours ! (j - 1)) (filter (\<lambda>j. \<not> recovery_replaces base ours ps j) [1..<length ours + 1]))
          (kept_lines ours ps')"
        unfolding kept_lines_def by (metis subseq_filter_left subseq_map)
      with apply_kept [OF wf, of ours] m Inr show ?thesis
        by (auto simp: recover_from_snapshot_def intro: subseq_order.order_trans)
    qed (use Inr in \<open>simp add: recover_from_snapshot_def\<close>)
  qed (simp add: recover_from_snapshot_def)
  then show "recover_from_snapshot h base ours ops \<noteq> None"
    "recover_from_snapshot h base ours ops = Some (Inr result) \<Longrightarrow>
       \<exists>ps. parse_operations h 1 ops base = Inr ps \<and>
         subseq (map (\<lambda>j. ours ! (j - 1)) (filter (\<lambda>j. \<not> recovery_replaces base ours ps j) [1..<length ours + 1])) result"
    by blast+
qed

end
