(* ===== verification/Edit_Cache.thy ===== *)
theory Edit_Cache
  imports Edit_Registers
begin

text \<open>
  The invariant of the file cache: for each session the cached files are those in the order of
  insertion, at most thirty, each with one to four snapshots of which the last is what is cached.
\<close>

section \<open>The cache of a session\<close>

definition session_cache_ok :: "session_cache \<Rightarrow> bool" where
  "session_cache_ok s \<longleftrightarrow>
     distinct (sc_order s) \<and> set (sc_order s) = dom (sc_files s) \<and> dom (sc_history s) = dom (sc_files s) \<and>
     length (sc_order s) \<le> 30 \<and>
     (\<forall>p lines. sc_files s p = Some lines \<longrightarrow>
        (\<exists>snaps. sc_history s p = Some snaps \<and> snaps \<noteq> [] \<and> length snaps \<le> 4 \<and> last snaps = lines))"

lemma session_cache_okD:
  assumes "session_cache_ok s"
  shows "distinct (sc_order s)" "set (sc_order s) = dom (sc_files s)" "dom (sc_history s) = dom (sc_files s)"
    "length (sc_order s) \<le> 30"
    "sc_files s p = Some lines \<Longrightarrow>
      \<exists>snaps. sc_history s p = Some snaps \<and> snaps \<noteq> [] \<and> length snaps \<le> 4 \<and> last snaps = lines"
  using assms by (auto simp: session_cache_ok_def)

lemma card_files: "session_cache_ok s \<Longrightarrow> card (dom (sc_files s)) = length (sc_order s)"
  by (metis session_cache_okD(1,2) distinct_card)

lemma evict_ok:
  assumes ok: "session_cache_ok s"
  shows "session_cache_ok (evict_oldest s)" "length (sc_order (evict_oldest s)) < 30"
    "sc_files (evict_oldest s) q = (if 30 \<le> length (sc_order s) \<and> q = hd (sc_order s) then None else sc_files s q)"
proof -
  have "session_cache_ok (evict_oldest s) \<and> length (sc_order (evict_oldest s)) < 30 \<and>
    sc_files (evict_oldest s) q = (if 30 \<le> length (sc_order s) \<and> q = hd (sc_order s) then None else sc_files s q)"
  proof (cases "30 \<le> length (sc_order s)")
    case True
    then obtain p ps where ps: "sc_order s = p # ps" by (cases "sc_order s") auto
    have e: "evict_oldest s = s\<lparr>sc_files := (sc_files s)(p := None), sc_history := (sc_history s)(p := None), sc_order := ps\<rparr>"
      using True ok ps by (simp add: evict_oldest_def card_files)
    have "session_cache_ok (evict_oldest s)"
      unfolding e using session_cache_okD [OF ok] ps by (auto simp: session_cache_ok_def)
    moreover have "length ps < 30" using session_cache_okD(4) [OF ok] ps by simp
    ultimately show ?thesis using ps True by (simp add: e)
  next
    case False
    with ok show ?thesis by (simp add: evict_oldest_def card_files)
  qed
  then show "session_cache_ok (evict_oldest s)" "length (sc_order (evict_oldest s)) < 30"
    "sc_files (evict_oldest s) q = (if 30 \<le> length (sc_order s) \<and> q = hd (sc_order s) then None else sc_files s q)"
    by blast+
qed

lemma put_in_session_ok:
  assumes ok: "session_cache_ok s"
  shows "session_cache_ok (put_in_session path lines s)"
    "sc_files (put_in_session path lines s) path = Some lines"
proof -
  define b where "b = (if sc_files s path = None then evict_oldest s else s)"
  define s1 where "s1 = (if sc_files s path = None
    then (evict_oldest s)\<lparr>sc_order := sc_order (evict_oldest s) @ [path]\<rparr> else s)"
  have s1: "sc_files s1 = sc_files b" "sc_history s1 = sc_history b" by (simp_all add: s1_def b_def)
  have b: "session_cache_ok b" using ok evict_ok(1) by (simp add: b_def)
  have order: "distinct (sc_order s1)" "set (sc_order s1) = insert path (dom (sc_files b))" "length (sc_order s1) \<le> 30"
  proof (atomize (full), cases "sc_files s path = None")
    case True
    then have e: "b = evict_oldest s" "sc_order s1 = sc_order b @ [path]" by (simp_all add: b_def s1_def)
    have "sc_files b path = None" using True evict_ok(3) [OF ok] by (simp add: e)
    then have "path \<notin> set (sc_order b)" using session_cache_okD(2) [OF b] by auto
    then show "distinct (sc_order s1) \<and> set (sc_order s1) = insert path (dom (sc_files b)) \<and> length (sc_order s1) \<le> 30"
      using session_cache_okD(1,2) [OF b] evict_ok(2) [OF ok] by (simp add: e)
  next
    case False
    then have "s1 = b" "path \<in> dom (sc_files b)" by (auto simp: b_def s1_def)
    then show "distinct (sc_order s1) \<and> set (sc_order s1) = insert path (dom (sc_files b)) \<and> length (sc_order s1) \<le> 30"
      using session_cache_okD(1,2,4) [OF b] by auto
  qed
  define snaps where "snaps = (case sc_history b path of None \<Rightarrow> [] | Some l \<Rightarrow> l)"
  have len: "length snaps \<le> 4"
  proof (cases "sc_files b path")
    case None
    then have "sc_history b path = None" using session_cache_okD(3) [OF b] by (metis domIff)
    then show ?thesis by (simp add: snaps_def)
  qed (use session_cache_okD(5) [OF b, of path] in \<open>auto simp: snaps_def\<close>)
  define snaps' where "snaps' = (if snaps = [] \<or> last snaps \<noteq> lines
    then (if 4 < length (snaps @ [lines]) then tl (snaps @ [lines]) else snaps @ [lines]) else snaps)"
  have new: "snaps' \<noteq> []" "length snaps' \<le> 4" "last snaps' = lines"
    using len by (cases snaps; auto simp: snaps'_def)+
  have push: "push_snapshot path lines s1 = s1\<lparr>sc_history := (sc_history b)(path \<mapsto> snaps')\<rparr>"
  proof (cases "snaps = [] \<or> last snaps \<noteq> lines")
    case True
    then show ?thesis by (simp add: push_snapshot_def Let_def s1 snaps_def [symmetric] snaps'_def)
  next
    case False
    then have "sc_history b path = Some snaps" by (auto simp: snaps_def split: option.splits)
    with False have "(sc_history s1)(path \<mapsto> snaps') = sc_history s1" by (simp add: s1 snaps'_def fun_upd_idem)
    with False show ?thesis
      by (simp add: push_snapshot_def Let_def s1 [symmetric] snaps_def [symmetric, folded s1])
  qed
  have p: "put_in_session path lines s =
      s1\<lparr>sc_history := (sc_history b)(path \<mapsto> snaps'), sc_files := (sc_files b)(path \<mapsto> lines)\<rparr>"
  proof -
    have "put_in_session path lines s =
        (push_snapshot path lines s1)\<lparr>sc_files := (sc_files (push_snapshot path lines s1))(path \<mapsto> lines)\<rparr>"
      unfolding put_in_session_def s1_def Let_def by (rule refl)
    then show ?thesis using push s1 by simp
  qed
  show "session_cache_ok (put_in_session path lines s)"
    unfolding p session_cache_ok_def using order new session_cache_okD(3,5) [OF b] by auto
  show "sc_files (put_in_session path lines s) path = Some lines" unfolding p by simp
qed

section \<open>The whole cache\<close>

definition cache_ok :: "file_cache \<Rightarrow> bool" where
  "cache_ok c \<longleftrightarrow>
     (\<forall>session. (fc_cache c session = None \<longleftrightarrow> fc_history c session = None) \<and>
        (fc_cache c session = None \<longleftrightarrow> fc_order c session = None) \<and>
        session_cache_ok (session_of c session))"

lemma cache_okD:
  assumes "cache_ok c"
  shows "fc_cache c session = None \<longleftrightarrow> fc_history c session = None"
    "fc_cache c session = None \<longleftrightarrow> fc_order c session = None"
    "session_cache_ok (session_of c session)"
  using assms unfolding cache_ok_def by blast+

lemma session_of_put: "session_of (put_cache a path lines c) b =
    (if a = b then put_in_session path lines (session_of c a) else session_of c b)"
  by (simp add: session_of_def put_cache_def Let_def)

lemma put_cache_fields:
  "fc_cache (put_cache a path lines c) b = None \<longleftrightarrow> b \<noteq> a \<and> fc_cache c b = None"
  "fc_history (put_cache a path lines c) b = None \<longleftrightarrow> b \<noteq> a \<and> fc_history c b = None"
  "fc_order (put_cache a path lines c) b = None \<longleftrightarrow> b \<noteq> a \<and> fc_order c b = None"
  by (auto simp: put_cache_def Let_def)

lemma put_cache_ok:
  assumes "cache_ok c"
  shows "cache_ok (put_cache session path lines c)"
  unfolding cache_ok_def
proof
  fix b
  show "(fc_cache (put_cache session path lines c) b = None \<longleftrightarrow> fc_history (put_cache session path lines c) b = None) \<and>
      (fc_cache (put_cache session path lines c) b = None \<longleftrightarrow> fc_order (put_cache session path lines c) b = None) \<and>
      session_cache_ok (session_of (put_cache session path lines c) b)"
    unfolding put_cache_fields session_of_put
    using cache_okD [OF assms, of b] put_in_session_ok(1) [OF cache_okD(3) [OF assms]] by simp
qed

definition empty_session :: session_cache where
  "empty_session = \<lparr>sc_files = Map.empty, sc_history = Map.empty, sc_order = []\<rparr>"

lemma empty_session_ok: "session_cache_ok empty_session"
  by (simp add: empty_session_def session_cache_ok_def)

lemma session_of_clear:
  "session_of (clear_cache a c) b = (if a = b then empty_session else session_of c b)"
  by (simp add: session_of_def clear_cache_def empty_session_def)

lemma clear_cache_ok: "cache_ok c \<Longrightarrow> cache_ok (clear_cache session c)"
  unfolding cache_ok_def session_of_clear by (simp add: clear_cache_def empty_session_ok) metis

lemma delete_cache_ok:
  assumes ok: "cache_ok c"
  shows "cache_ok (delete_cache session path c)"
proof (cases "fc_cache c session")
  case None
  with ok have "fc_history c session = None" "fc_order c session = None" by (auto simp: cache_ok_def)
  with None have "delete_cache session path c = c" by (simp add: delete_cache_def)
  with ok show ?thesis by simp
next
  case (Some m)
  with ok obtain hm ps where r: "fc_history c session = Some hm" "fc_order c session = Some ps"
    by (auto simp: cache_ok_def) (metis not_None_eq)
  have "session_of (delete_cache session path c) s =
      (if s = session then \<lparr>sc_files = m(path := None), sc_history = hm(path := None), sc_order = remove1 path ps\<rparr>
       else session_of c s)" for s
    using Some r by (simp add: delete_cache_def session_of_def)
  moreover have "session_cache_ok \<lparr>sc_files = m, sc_history = hm, sc_order = ps\<rparr>"
    using ok Some r by (auto simp: cache_ok_def session_of_def dest!: spec [of _ session])
  then have "session_cache_ok \<lparr>sc_files = m(path := None), sc_history = hm(path := None), sc_order = remove1 path ps\<rparr>"
    by (auto simp: session_cache_ok_def set_remove1_eq distinct_remove1 length_remove1)
  ultimately show ?thesis using ok Some r by (auto simp: cache_ok_def delete_cache_def)
qed

lemma new_cache_ok: "cache_ok new_file_cache"
  using empty_session_ok by (simp add: cache_ok_def new_file_cache_def session_of_def empty_session_def)

datatype cache_operation =
    CachePut string string "string list"
  | CacheClear string
  | CacheDelete string string

fun run_cache :: "cache_operation \<Rightarrow> file_cache \<Rightarrow> file_cache" where
  "run_cache (CachePut session path lines) c = put_cache session path lines c"
| "run_cache (CacheClear session) c = clear_cache session c"
| "run_cache (CacheDelete session path) c = delete_cache session path c"

lemma run_cache_ok: "cache_ok c \<Longrightarrow> cache_ok (fold run_cache ops c)"
proof (induction ops arbitrary: c)
  case (Cons op ops)
  then show ?case by (cases op) (simp_all add: put_cache_ok clear_cache_ok delete_cache_ok)
qed simp

lemma cache_history:
  assumes "cache_ok c"
  shows "get_cache c session path = map_option last (get_history c session path)"
    "get_history c session path = Some snaps \<Longrightarrow> snaps \<noteq> [] \<and> length snaps \<le> 4"
proof -
  have s: "session_cache_ok (session_of c session)" and n: "fc_cache c session = None \<longleftrightarrow> fc_history c session = None"
    using assms by (auto simp: cache_ok_def)
  have g: "get_cache c session path = sc_files (session_of c session) path"
    "get_history c session path = sc_history (session_of c session) path"
    by (simp_all add: get_cache_def get_history_def session_of_def split: option.splits)
  have d: "sc_files (session_of c session) path = None \<longleftrightarrow> sc_history (session_of c session) path = None"
    using session_cache_okD(3) [OF s] by (metis domIff)
  show "get_cache c session path = map_option last (get_history c session path)"
    unfolding g using d session_cache_okD(5) [OF s, of path] by (cases "sc_files (session_of c session) path") auto
  show "get_history c session path = Some snaps \<Longrightarrow> snaps \<noteq> [] \<and> length snaps \<le> 4"
    unfolding g using d session_cache_okD(5) [OF s, of path] by (cases "sc_files (session_of c session) path") auto
qed

end
