(* ===== verification/Edit_Flow.thy ===== *)
theory Edit_Flow
  imports Hashline_Edit Hashline_Recovery Edit_Cache
begin

text \<open>
  Facts on the two edit flows: what cuts and pastes become, what an edit of one file has done by
  each reply, and how a call over several files writes and rolls back.
\<close>

section \<open>Operations after cut and paste are resolved\<close>

text \<open>A cut removes its lines as a replacement does.\<close>

definition removes :: "parsed_operation \<Rightarrow> nat \<Rightarrow> bool" where
  "removes op k \<longleftrightarrow>
     replaces op k \<or> po_operation op = ''cut'' \<and> hr_line (po_start op) \<le> k \<and> k \<le> hr_line (po_end op)"

definition surviving_lines :: "string list \<Rightarrow> parsed_operation list \<Rightarrow> string list" where
  "surviving_lines lines ops =
     map (\<lambda>k. lines ! (k - 1)) (filter (\<lambda>k. \<not> list_ex (\<lambda>op. removes op k) ops) [1..<length lines + 1])"

lemma mark_cuts_ok:
  "mark_cuts i ops lines = Inr marked \<Longrightarrow> list_all well_formed ops \<Longrightarrow>
   list_all well_formed marked \<and> (\<forall>k. list_ex (\<lambda>op. replaces op k) marked = list_ex (\<lambda>op. removes op k) ops)"
proof (induction i ops lines arbitrary: marked rule: mark_cuts.induct)
  case (2 i op ops lines)
  show ?case
  proof (cases "po_operation op = ''cut''")
    case True
    with 2(3) obtain ms where "mark_cuts (i + 1) ops lines = Inr ms"
      "marked = op\<lparr>po_operation := ''replace_range'', po_content := []\<rparr> # ms" "hr_line (po_start op) \<le> hr_line (po_end op)"
      by (auto simp: map_sum_def split: if_splits sum.splits)
    moreover from this True 2(1,3,4) have "list_all well_formed ms \<and>
        (\<forall>k. list_ex (\<lambda>op. replaces op k) ms = list_ex (\<lambda>op. removes op k) ops)" by (auto split: if_splits)
    moreover have "well_formed (op\<lparr>po_operation := ''replace_range'', po_content := []\<rparr>)"
      using calculation(3) by (simp add: well_formed_def)
    moreover have "replaces (op\<lparr>po_operation := ''replace_range'', po_content := []\<rparr>) k = removes op k" for k
      using True by (simp add: replaces_def removes_def)
    ultimately show ?thesis by simp
  next
    case False
    with 2(3) obtain ms where "mark_cuts (i + 1) ops lines = Inr ms" "marked = op # ms"
      by (auto simp: map_sum_def split: if_splits sum.splits)
    with 2(2,4) False show ?thesis by (simp add: removes_def)
  qed
qed simp

lemma resolve_pastes_ok:
  "resolve_pending_pastes i ops pending cb session = Inr resolved \<Longrightarrow>
   map (\<lambda>op. op\<lparr>po_content := []\<rparr>) resolved = map (\<lambda>op. op\<lparr>po_content := []\<rparr>) ops"
proof (induction i ops pending cb session arbitrary: resolved rule: resolve_pending_pastes.induct)
  case (2 i op ops pending cb session)
  show ?case
  proof (cases "po_operation op \<noteq> ''paste'' \<or> po_content op \<noteq> []")
    case True
    with 2(1,3) show ?thesis by (auto simp: map_sum_def split: sum.splits)
  next
    case False
    with 2(2,3) show ?thesis by (auto simp: map_sum_def split: sum.splits option.splits if_splits)
  qed
qed simp

lemma same_but_content:
  assumes "map (\<lambda>op. op\<lparr>po_content := []\<rparr>) xs = map (\<lambda>op. op\<lparr>po_content := []\<rparr>) ys"
  shows "list_all well_formed xs = list_all well_formed ys"
    "list_ex (\<lambda>op. replaces op k) xs = list_ex (\<lambda>op. replaces op k) ys"
proof -
  have w: "well_formed (op\<lparr>po_content := []\<rparr>) = well_formed op" "replaces (op\<lparr>po_content := []\<rparr>) k = replaces op k" for op
    by (simp_all add: well_formed_def replaces_def)
  have "list_all well_formed (map (\<lambda>op. op\<lparr>po_content := []\<rparr>) zs) = list_all well_formed zs"
    "list_ex (\<lambda>op. replaces op k) (map (\<lambda>op. op\<lparr>po_content := []\<rparr>) zs) = list_ex (\<lambda>op. replaces op k) zs" for zs
    by (induction zs) (simp_all add: w)
  with assms show "list_all well_formed xs = list_all well_formed ys"
    "list_ex (\<lambda>op. replaces op k) xs = list_ex (\<lambda>op. replaces op k) ys" by metis+
qed

lemma resolved_ok:
  assumes "parse_operations h 1 ops lines = Inr ps" "mark_cuts 1 ps lines = Inr marked"
    "resolve_pending_pastes 1 marked pending cb session = Inr resolved"
  shows "list_all well_formed resolved" "kept_lines lines resolved = surviving_lines lines ps"
proof -
  have m: "list_all well_formed marked" "\<And>k. list_ex (\<lambda>op. replaces op k) marked = list_ex (\<lambda>op. removes op k) ps"
    using mark_cuts_ok [OF assms(2) parse_operations_well_formed [OF assms(1)]] by auto
  note same = same_but_content [OF resolve_pastes_ok [OF assms(3)]]
  show "list_all well_formed resolved" using same(1) m(1) by simp
  have "list_ex (\<lambda>op. replaces op k) resolved = list_ex (\<lambda>op. removes op k) ps" for k
    unfolding same(2) by (rule m(2))
  then show "kept_lines lines resolved = surviving_lines lines ps"
    by (simp only: kept_lines_def surviving_lines_def)
qed

lemma try_snapshots_total: "try_snapshots h snaps ours ops err \<noteq> None"
proof (induction snaps arbitrary: err)
  case (Cons base snaps)
  then show ?case using recover_kept(1) [of h base ours ops] by (auto split: option.splits sum.splits)
qed simp

lemma try_recover_total: "try_recover h history ours ops \<noteq> None"
  using try_snapshots_total by (simp add: try_recover_def split: option.splits)

lemma edit_lines_total:
  assumes "\<And>ps. parsed = Inr ps \<Longrightarrow> list_all well_formed ps"
  shows "edit_lines e w path ops lines parsed \<noteq> None"
proof (cases parsed)
  case Inl
  then show ?thesis using try_recover_total by (simp add: edit_lines_def)
next
  case (Inr ps)
  then obtain r where "apply_hashline_operations lines ps = Some r" using assms apply_kept(1) by blast
  with Inr show ?thesis using try_recover_total by (cases r) (simp_all add: edit_lines_def)
qed

lemma recovered_flag: "map_option (map_sum f (\<lambda>ls. (ls, True))) x = Some (Inr (ls, recovered)) \<Longrightarrow> recovered"
  by (cases x; cases "the x") auto

lemma edit_lines_direct:
  assumes "edit_lines e w path ops lines parsed = Some (Inr (new_lines, False))"
  obtains ps where "parsed = Inr ps" "apply_hashline_operations lines ps = Some (Inr new_lines)"
proof (cases parsed)
  case Inl
  with assms recovered_flag show ?thesis by (fastforce simp: edit_lines_def)
next
  case (Inr ps)
  show ?thesis
  proof (cases "apply_hashline_operations lines ps")
    case None
    with Inr assms show ?thesis by (simp add: edit_lines_def)
  next
    case (Some r)
    show ?thesis
    proof (cases r)
      case Inl
      with Some Inr assms recovered_flag show ?thesis by (fastforce simp: edit_lines_def)
    next
      case (Inr ls)
      with Some \<open>parsed = Inr ps\<close> assms that show ?thesis by (simp add: edit_lines_def)
    qed
  qed
qed

lemma recover_reply: "map_option (map_sum f g) x = Some (Inl r) \<Longrightarrow> \<exists>err. r = f err"
  and recover_reply_sum: "map_sum f g y = Inl r \<Longrightarrow> \<exists>err. r = f err"
  by (cases x; cases "the x"; auto) (cases y; auto)

lemma edit_lines_failed:
  assumes "edit_lines e w path ops lines parsed = Some (Inl reply)"
  shows "\<exists>err err'. reply = RecoveryFailed path err err'"
proof (cases parsed)
  case Inl
  with assms show ?thesis by (auto simp: edit_lines_def dest!: recover_reply_sum)
next
  case (Inr ps)
  then show ?thesis
  proof (cases "apply_hashline_operations lines ps")
    case (Some r)
    with Inr assms show ?thesis by (cases r) (auto simp: edit_lines_def dest!: recover_reply_sum)
  qed (use Inr assms in \<open>simp add: edit_lines_def\<close>)
qed

section \<open>One file\<close>

text \<open>What the stores of the world are left with by each step.\<close>

lemma write_file_fields [simp]:
  "ew_clipboard (snd (write_file e path c w)) = ew_clipboard w"
  "ew_cache (snd (write_file e path c w)) = ew_cache w"
  "ew_versions (snd (write_file e path c w)) = ew_versions w"
  "ew_reads (snd (write_file e path c w)) = ew_reads w"
  "ew_writes (snd (write_file e path c w)) = ew_writes w + 1"
  "q \<noteq> path \<Longrightarrow> ew_files (snd (write_file e path c w)) q = ew_files w q"
  "fst (write_file e path c w) \<Longrightarrow> ew_files (snd (write_file e path c w)) path = Some c"
  "fst (write_file e path c w) \<longleftrightarrow> en_write e (ew_writes w) = None"
  by (simp_all add: write_file_def split: option.splits)

lemma step_fields [simp]:
  "ew_files (put_cached e path ls w) = ew_files w" "ew_files (settle_clipboard e pending w) = ew_files w"
  "ew_files (snd (old_version e path old w)) = ew_files w" "ew_files (push_version e b path c w) = ew_files w"
  "ew_files (record_read path w) = ew_files w"
  "ew_cache (settle_clipboard e pending w) = ew_cache w" "ew_cache (snd (old_version e path old w)) = ew_cache w"
  "ew_cache (push_version e b path c w) = ew_cache w" "ew_cache (record_read path w) = ew_cache w"
  "ew_clipboard (put_cached e path ls w) = ew_clipboard w" "ew_clipboard (snd (old_version e path old w)) = ew_clipboard w"
  "ew_clipboard (push_version e b path c w) = ew_clipboard w" "ew_clipboard (record_read path w) = ew_clipboard w"
  "ew_writes (put_cached e path ls w) = ew_writes w" "ew_writes (snd (old_version e path old w)) = ew_writes w"
  "ew_writes (push_version e b path c w) = ew_writes w" "ew_writes (record_read path w) = ew_writes w"
  "ew_writes (settle_clipboard e pending w) = ew_writes w"
  "ew_versions (settle_clipboard e pending w) = ew_versions w"
  by (simp_all add: put_cached_def settle_clipboard_def old_version_def push_version_def record_read_def)

lemma put_cached_cache: "ew_cache (put_cached e path ls w) = put_cache (en_session e) path ls (ew_cache w)"
  by (simp add: put_cached_def)

lemma get_put_cache: "get_cache (put_cache session path lines c) session path = Some lines"
  by (simp add: get_cache_def put_cache_def put_in_session_def Let_def)

text \<open>What an edit that ends with a given reply has done.\<close>

definition edit_effect :: "edit_env \<Rightarrow> string \<Rightarrow> string \<Rightarrow> bool \<Rightarrow> bool \<Rightarrow> string list \<Rightarrow> edit_world \<Rightarrow> edit_reply \<Rightarrow> edit_world \<Rightarrow> bool" where
  "edit_effect e path old crlf trailing new_lines w reply w' \<longleftrightarrow>
     (\<forall>q. q \<noteq> path \<longrightarrow> ew_files w' q = ew_files w q) \<and>
     (case reply of
        NoChanges \<Rightarrow> join_file_lines new_lines trailing = old \<and> ew_files w' = ew_files w \<and> ew_cache w' = ew_cache w \<and>
          ew_versions w' = ew_versions w
      | Applied recovered \<Rightarrow>
          en_permission e path old (join_file_lines new_lines trailing) = Granted \<and>
          ew_files w' path = Some (disk_content crlf (join_file_lines new_lines trailing)) \<and>
          get_cache (ew_cache w') (en_session e) path = Some new_lines
      | WriteFailed p \<Rightarrow> p = path \<and> ew_clipboard w' = ew_clipboard w \<and> ew_cache w' = ew_cache w \<and>
          en_permission e path old (join_file_lines new_lines trailing) = Granted
      | HistoryFailed \<Rightarrow> en_permission e path old (join_file_lines new_lines trailing) = Granted \<and>
          ew_files w' path = Some (disk_content crlf (join_file_lines new_lines trailing))
      | _ \<Rightarrow> w' = w)"

lemma write_edit_effect:
  assumes "write_edit e path old crlf trailing pending new_lines recovered w = (reply, w')"
  shows "edit_effect e path old crlf trailing new_lines w reply w'"
    "reply \<in> {NoChanges, PermissionRefused, PermissionFailed, WriteFailed path, HistoryFailed, Applied recovered}"
  using assms
  by (auto simp: write_edit_def edit_effect_def Let_def case_prod_unfold put_cached_cache get_put_cache
      split: if_splits permission_answer.splits)


lemma apply_edit_cases:
  "\<exists>reply w'. apply_hashline_edit e path ops w = Some (reply, w') \<and>
    ((w' = w \<and> reply \<notin> {NoChanges, HistoryFailed, Applied True, Applied False} \<and> (\<forall>p. reply \<noteq> WriteFailed p)) \<or>
     (\<exists>content pending new_lines recovered. ew_files w path = Some content \<and>
        (reply, w') = write_edit e path (fst (to_unix_line_endings content)) (snd (to_unix_line_endings content))
          (snd (split_file_lines (fst (to_unix_line_endings content)))) pending new_lines recovered w \<and>
        (\<not> recovered \<longrightarrow> (\<exists>ps. parse_operations (en_hash e) 1 ops (fst (split_file_lines (fst (to_unix_line_endings content)))) = Inr ps \<and>
           subseq (surviving_lines (fst (split_file_lines (fst (to_unix_line_endings content)))) ps) new_lines))))"
proof (cases "en_session e = []")
  case True
  then show ?thesis by (auto simp: apply_hashline_edit_def)
next
  case session: False
  show ?thesis
  proof (cases "read_target e w path")
    case (Inl reply)
    then have "\<exists>p. reply \<in> {FileMissing p, AccessFailed p, IsDirectory p, ReadFailed p}"
      by (auto simp: read_target_def split: stat_result.splits option.splits if_splits)
    with session Inl show ?thesis by (auto simp: apply_hashline_edit_def)
  next
    case (Inr content)
    then have content: "ew_files w path = Some content"
      by (auto simp: read_target_def split: stat_result.splits option.splits if_splits)
    define old crlf lines trailing where io: "old = fst (to_unix_line_endings content)"
      "crlf = snd (to_unix_line_endings content)" "lines = fst (split_file_lines old)" "trailing = snd (split_file_lines old)"
    define parsed where "parsed = parse_operations (en_hash e) 1 ops lines"
    define parsed_ops where "parsed_ops = (case parsed of Inl err \<Rightarrow> [] | Inr ps \<Rightarrow> ps)"
    define pending where "pending = collect_pending_cuts parsed_ops lines"
    have run: "apply_hashline_edit e path ops w =
      (case mark_cuts 1 parsed_ops lines of
         Inl i \<Rightarrow> Some (BadCut i, w)
       | Inr marked \<Rightarrow>
           (case resolve_pending_pastes 1 marked pending (ew_clipboard w) (en_session e) of
              Inl err \<Rightarrow> Some (BadPaste err, w)
            | Inr resolved \<Rightarrow>
                (case edit_lines e w path ops lines (map_sum id (\<lambda>ps. resolved) parsed) of
                   None \<Rightarrow> None
                 | Some (Inl reply) \<Rightarrow> Some (reply, w)
                 | Some (Inr (new_lines, recovered)) \<Rightarrow>
                     Some (write_edit e path old crlf trailing pending new_lines recovered w))))"
      unfolding apply_hashline_edit_def Let_def case_prod_unfold pending_def parsed_ops_def parsed_def io
      by (simp only: Inr session if_False sum.case)
    show ?thesis
    proof (cases "mark_cuts 1 parsed_ops lines")
      case (Inl i)
      then show ?thesis unfolding run by simp
    next
      case marked: (Inr marked)
      show ?thesis
      proof (cases "resolve_pending_pastes 1 marked pending (ew_clipboard w) (en_session e)")
        case (Inl err)
        with marked show ?thesis unfolding run by simp
      next
        case resolved: (Inr resolved)
        have ok: "list_all well_formed resolved \<and> kept_lines lines resolved = surviving_lines lines ps"
          if "parsed = Inr ps" for ps
          using that marked resolved resolved_ok [of "en_hash e" ops lines ps marked] by (simp add: parsed_def parsed_ops_def)
        have "edit_lines e w path ops lines (map_sum id (\<lambda>ps. resolved) parsed) \<noteq> None"
          using ok by (intro edit_lines_total) (cases parsed; auto)
        then obtain r where r: "edit_lines e w path ops lines (map_sum id (\<lambda>ps. resolved) parsed) = Some r" by blast
        show ?thesis
        proof (cases r)
          case (Inl reply)
          with r have "\<exists>err err'. reply = RecoveryFailed path err err'" by (auto dest: edit_lines_failed)
          with Inl r marked resolved show ?thesis unfolding run by auto
        next
          case (Inr x)
          then obtain new_lines recovered where x: "x = (new_lines, recovered)" by (cases x)
          have "\<exists>ps. parsed = Inr ps \<and> subseq (surviving_lines lines ps) new_lines" if "\<not> recovered"
          proof -
            from r Inr x that obtain rs where "map_sum id (\<lambda>ps. resolved) parsed = Inr rs"
              "apply_hashline_operations lines rs = Some (Inr new_lines)"
              by (auto elim: edit_lines_direct)
            moreover from this(1) obtain ps where "parsed = Inr ps" "rs = resolved" by (cases parsed) auto
            ultimately show ?thesis using ok [of ps] apply_kept(2) [of resolved lines new_lines] by auto
          qed
          moreover have "apply_hashline_edit e path ops w = Some (write_edit e path old crlf trailing pending new_lines recovered w)"
            using r Inr x marked resolved unfolding run by simp
          ultimately show ?thesis using content unfolding parsed_def io by (metis prod.exhaust)
        qed
      qed
    qed
  qed
qed

section \<open>Several files\<close>

text \<open>Content whose line ends are all of one kind, so that it survives the conversion.\<close>

fun crlf_only :: "string \<Rightarrow> bool" where
  "crlf_only (c # d # s) =
     (if c = CHR 0x0D then d = CHR 0x0A \<and> crlf_only s else c \<noteq> CHR 0x0A \<and> crlf_only (d # s))"
| "crlf_only [c] = (c \<noteq> CHR 0x0D \<and> c \<noteq> CHR 0x0A)"
| "crlf_only [] = True"

definition uniform_ends :: "string \<Rightarrow> bool" where
  "uniform_ends s \<longleftrightarrow> \<not> str_contains s [CHR 0x0D, CHR 0x0A] \<or> crlf_only s"

lemma drop_crlf_no_cr: "crlf_only s \<Longrightarrow> CHR 0x0D \<notin> set (drop_crlf s)"
  by (induction s rule: crlf_only.induct) (auto split: if_splits)

lemma expand_drop_crlf:
  "crlf_only s \<Longrightarrow> concat (map (\<lambda>c. if c = CHR 0x0A then [CHR 0x0D, CHR 0x0A] else [c]) (drop_crlf s)) = s"
  by (induction s rule: crlf_only.induct) (auto split: if_splits)

lemma contains_cr: "str_contains s [CHR 0x0D, CHR 0x0A] \<Longrightarrow> CHR 0x0D \<in> set s"
  by (induction s) (auto simp: has_prefix_def split: if_splits)

lemma disk_content_same:
  assumes "uniform_ends s"
  shows "disk_content (snd (to_unix_line_endings s)) (fst (to_unix_line_endings s)) = s"
proof (cases "str_contains s [CHR 0x0D, CHR 0x0A]")
  case True
  with assms have "crlf_only s" by (simp add: uniform_ends_def)
  then show ?thesis
    using True drop_crlf_no_cr expand_drop_crlf contains_cr
    by (auto simp: to_unix_line_endings_def disk_content_def to_windows_line_endings_def)
qed (simp add: to_unix_line_endings_def disk_content_def)

text \<open>What loading, resolving and preparing keep of an entry: its file as it was.\<close>

definition old_of :: "edit_world \<Rightarrow> string \<Rightarrow> string" where
  "old_of w path = (case ew_files w path of None \<Rightarrow> [] | Some content \<Rightarrow> fst (to_unix_line_endings content))"

definition crlf_of :: "edit_world \<Rightarrow> string \<Rightarrow> bool" where
  "crlf_of w path = (case ew_files w path of None \<Rightarrow> False | Some content \<Rightarrow> snd (to_unix_line_endings content))"

definition lines_of :: "edit_world \<Rightarrow> string \<Rightarrow> string list" where
  "lines_of w path = fst (split_file_lines (old_of w path))"

definition state_of :: "edit_world \<Rightarrow> string \<Rightarrow> 'a file_state_scheme \<Rightarrow> bool" where
  "state_of w path st \<longleftrightarrow>
     ew_files w path \<noteq> None \<and> fs_path st = path \<and> fs_old st = old_of w path \<and> fs_crlf st = crlf_of w path \<and>
     fs_lines st = lines_of w path \<and> fs_trailing st = snd (split_file_lines (old_of w path))"

definition file_from :: "edit_env \<Rightarrow> edit_world \<Rightarrow> string \<times> hashline_operation list \<Rightarrow> file_state \<Rightarrow> bool" where
  "file_from e w t st \<longleftrightarrow>
     state_of w (fst t) st \<and> list_all well_formed (fs_ops st) \<and>
     (\<exists>ps. parse_operations (en_hash e) 1 (snd t) (lines_of w (fst t)) = Inr ps \<and>
        kept_lines (lines_of w (fst t)) (fs_ops st) = surviving_lines (lines_of w (fst t)) ps)"

definition prepared_from :: "edit_env \<Rightarrow> edit_world \<Rightarrow> string \<times> hashline_operation list \<Rightarrow> prepared_file \<Rightarrow> bool" where
  "prepared_from e w t pf \<longleftrightarrow>
     state_of w (fst t) pf \<and> pf_new pf = join_file_lines (pf_new_lines pf) (fs_trailing pf) \<and>
     en_permission e (fst t) (fs_old pf) (pf_new pf) = Granted \<and>
     (\<not> pf_recovered pf \<longrightarrow>
        (\<exists>ps. parse_operations (en_hash e) 1 (snd t) (lines_of w (fst t)) = Inr ps \<and>
           subseq (surviving_lines (lines_of w (fst t)) ps) (pf_new_lines pf)))"

lemma load_file_ok:
  assumes "load_file e w path ops = Inr (st, cuts)"
  shows "file_from e w (path, ops) st"
proof -
  obtain content where c: "read_target e w path = Inr content"
    using assms by (cases "read_target e w path") (auto simp: load_file_def)
  then have f: "ew_files w path = Some content"
    by (auto simp: read_target_def split: stat_result.splits option.splits if_splits)
  then have o: "fst (to_unix_line_endings content) = old_of w path" "snd (to_unix_line_endings content) = crlf_of w path"
    by (simp_all add: old_of_def crlf_of_def)
  obtain ps marked where p: "parse_operations (en_hash e) 1 ops (lines_of w path) = Inr ps"
    "mark_cuts 1 ps (lines_of w path) = Inr marked"
    "st = \<lparr>fs_path = path, fs_old = old_of w path, fs_lines = lines_of w path, fs_crlf = crlf_of w path,
       fs_trailing = snd (split_file_lines (old_of w path)), fs_ops = marked\<rparr>"
    using assms c by (auto simp: load_file_def Let_def case_prod_unfold o lines_of_def split: sum.splits)
  have m: "list_all well_formed marked" "\<And>k. list_ex (\<lambda>op. replaces op k) marked = list_ex (\<lambda>op. removes op k) ps"
    using mark_cuts_ok [OF p(2) parse_operations_well_formed [OF p(1)]] by auto
  then have "kept_lines (lines_of w path) marked = surviving_lines (lines_of w path) ps"
    by (simp only: kept_lines_def surviving_lines_def)
  with p m f show ?thesis by (simp add: file_from_def state_of_def)
qed

lemma load_files_ok:
  "load_files e w targets = Inr (sts, cuts) \<Longrightarrow> list_all2 (file_from e w) targets sts"
proof (induction e w targets arbitrary: sts cuts rule: load_files.induct)
  case (2 e w path ops rest)
  then obtain st c sts' cs where "load_file e w path ops = Inr (st, c)" "load_files e w rest = Inr (sts', cs)" "sts = st # sts'"
    by (auto simp: map_sum_def split: sum.splits)
  with 2 load_file_ok [of e w path ops st c] show ?case by simp
qed simp

lemma resolve_file_ok:
  assumes "resolve_pending_pastes 1 (fs_ops st) pending cb session = Inr ps" "file_from e w t st"
  shows "file_from e w t (st\<lparr>fs_ops := ps\<rparr>)"
proof -
  note same = same_but_content [OF resolve_pastes_ok [OF assms(1)]]
  have "kept_lines lines ps = kept_lines lines (fs_ops st)" for lines
    unfolding kept_lines_def same(2) by (rule refl)
  with same(1) assms(2) show ?thesis by (auto simp: file_from_def state_of_def)
qed

lemma resolve_files_ok:
  "resolve_files e w pending sts = Inr sts' \<Longrightarrow> list_all2 (file_from e w) targets sts \<Longrightarrow>
   list_all2 (file_from e w) targets sts'"
proof (induction e w pending sts arbitrary: sts' targets rule: resolve_files.induct)
  case (2 e w pending st sts)
  then obtain ps rest t ts where "resolve_pending_pastes 1 (fs_ops st) pending (ew_clipboard w) (en_session e) = Inr ps"
    "resolve_files e w pending sts = Inr rest" "sts' = st\<lparr>fs_ops := ps\<rparr> # rest" "targets = t # ts"
    by (cases targets) (auto simp: map_sum_def split: sum.splits)
  with 2 resolve_file_ok show ?case by simp
qed simp

lemma prepare_file_ok:
  assumes "file_from e w t st"
  shows "prepare_file e w targets st \<noteq> None"
    "prepare_file e w targets st = Some (Inl reply) \<Longrightarrow> reply = PermissionFailed \<or> (\<exists>p err err'. reply = RecoveryFailed p err err')"
    "prepare_file e w targets st = Some (Inr pf) \<Longrightarrow> prepared_from e w t pf"
proof -
  define ops where "ops = (case find (\<lambda>t. fst t = fs_path st) targets of None \<Rightarrow> [] | Some t \<Rightarrow> snd t)"
  have "edit_lines e w (fs_path st) ops (fs_lines st) (Inr (fs_ops st)) \<noteq> None"
    using assms by (intro edit_lines_total) (simp add: file_from_def)
  then obtain r where r: "edit_lines e w (fs_path st) ops (fs_lines st) (Inr (fs_ops st)) = Some r" by blast
  show "prepare_file e w targets st \<noteq> None"
    using r by (auto simp: prepare_file_def ops_def [symmetric] Let_def split: sum.splits)
  show "prepare_file e w targets st = Some (Inl reply) \<Longrightarrow> reply = PermissionFailed \<or> (\<exists>p err err'. reply = RecoveryFailed p err err')"
    using r edit_lines_failed [of e w "fs_path st" ops "fs_lines st" "Inr (fs_ops st)"]
    by (auto simp: prepare_file_def ops_def [symmetric] Let_def split: sum.splits if_splits)
  assume "prepare_file e w targets st = Some (Inr pf)"
  with r obtain new_lines recovered where x: "r = Inr (new_lines, recovered)"
    "pf = file_state.extend st (prepared_file.fields new_lines (join_file_lines new_lines (fs_trailing st)) recovered)"
    "en_permission e (fs_path st) (fs_old st) (join_file_lines new_lines (fs_trailing st)) = Granted"
    by (auto simp: prepare_file_def ops_def [symmetric] Let_def split: sum.splits if_splits)
  have "subseq (kept_lines (fs_lines st) (fs_ops st)) new_lines" if "\<not> recovered"
  proof -
    have "apply_hashline_operations (fs_lines st) (fs_ops st) = Some (Inr new_lines)"
      using r x that by (auto elim: edit_lines_direct)
    with apply_kept(2) assms show ?thesis by (simp add: file_from_def)
  qed
  with x assms show "prepared_from e w t pf"
    by (auto simp: prepared_from_def file_from_def state_of_def file_state.defs prepared_file.defs)
qed

lemma prepare_files_ok:
  "list_all2 (file_from e w) ts sts \<Longrightarrow>
   \<exists>r. prepare_files e w targets sts = Some r \<and>
     (\<forall>reply. r = Inl reply \<longrightarrow> reply = PermissionFailed \<or> (\<exists>p err err'. reply = RecoveryFailed p err err')) \<and>
     (\<forall>pfs. r = Inr pfs \<longrightarrow> list_all2 (prepared_from e w) ts pfs)"
proof (induction rule: list_all2_induct)
  case (Cons t ts st sts)
  obtain x where x: "prepare_file e w targets st = Some x" using prepare_file_ok(1) [OF Cons(1)] by blast
  obtain r where r: "prepare_files e w targets sts = Some r"
    "\<forall>reply. r = Inl reply \<longrightarrow> reply = PermissionFailed \<or> (\<exists>p err err'. reply = RecoveryFailed p err err')"
    "\<forall>pfs. r = Inr pfs \<longrightarrow> list_all2 (prepared_from e w) ts pfs" using Cons.IH by blast
  show ?case
  proof (cases x)
    case (Inl reply)
    with x prepare_file_ok(2) [OF Cons(1), of targets reply] show ?thesis by simp
  next
    case (Inr pf)
    with x prepare_file_ok(3) [OF Cons(1), of targets pf] r show ?thesis by (cases r) auto
  qed
qed simp

section \<open>Rolling back\<close>

lemma roll_back_files:
  "(\<And>n. ew_writes w \<le> n \<Longrightarrow> en_write e n = None) \<Longrightarrow>
   ew_files (roll_back e pfs w) q =
     (if q \<in> fs_path ` set pfs then Some (disk_content (fs_crlf (last (filter (\<lambda>pf. fs_path pf = q) pfs)))
        (fs_old (last (filter (\<lambda>pf. fs_path pf = q) pfs)))) else ew_files w q)"
proof (induction pfs arbitrary: w)
  case (Cons pf pfs)
  define w1 where "w1 = put_cached e (fs_path pf) (fs_lines pf) (snd (write_file e (fs_path pf) (disk_content (fs_crlf pf) (fs_old pf)) w))"
  have step: "roll_back e (pf # pfs) w = roll_back e pfs w1"
    using Cons.prems [of "ew_writes w"] by (simp add: w1_def case_prod_unfold Let_def)
  have "ew_files (roll_back e pfs w1) q =
     (if q \<in> fs_path ` set pfs then Some (disk_content (fs_crlf (last (filter (\<lambda>pf. fs_path pf = q) pfs)))
        (fs_old (last (filter (\<lambda>pf. fs_path pf = q) pfs)))) else ew_files w1 q)"
    using Cons.prems by (intro Cons.IH) (simp add: w1_def)
  moreover have "filter (\<lambda>pf. fs_path pf = q) pfs = [] \<longleftrightarrow> q \<notin> fs_path ` set pfs"
    by (auto simp: filter_empty_conv)
  moreover have "ew_files w1 q = (if q = fs_path pf then Some (disk_content (fs_crlf pf) (fs_old pf)) else ew_files w q)"
    using Cons.prems [of "ew_writes w"] by (simp add: w1_def)
  ultimately show ?case unfolding step by (cases "q \<in> fs_path ` set pfs") auto
qed simp

lemma roll_back_clipboard [simp]: "ew_clipboard (roll_back e pfs w) = ew_clipboard w"
  by (induction pfs arbitrary: w) (simp_all add: case_prod_unfold Let_def)

lemma write_files_clipboard: "ew_clipboard (snd (snd (write_files e pfs written w))) = ew_clipboard w"
  by (induction pfs arbitrary: written w) (simp_all add: case_prod_unfold Let_def)

lemma write_files_failed:
  assumes "\<And>m n. en_write e m \<noteq> None \<Longrightarrow> en_write e n \<noteq> None \<Longrightarrow> m = n"
  shows "write_files e pfs written w = (False, p, w') \<Longrightarrow>
    (\<And>pf. pf \<in> set (written @ pfs) \<Longrightarrow> files (fs_path pf) = Some (disk_content (fs_crlf pf) (fs_old pf))) \<Longrightarrow>
    (\<And>q. q \<notin> fs_path ` set written \<Longrightarrow> ew_files w q = files q) \<Longrightarrow> q \<noteq> p \<Longrightarrow> ew_files w' q = files q"
proof (induction pfs arbitrary: written w)
  case (Cons pf pfs)
  let ?w1 = "snd (write_file e (fs_path pf) (disk_content (fs_crlf pf) (pf_new pf)) w)"
  show ?case
  proof (cases "en_write e (ew_writes w) = None")
    case False
    then have p: "p = fs_path pf" and w': "w' = roll_back e written ?w1"
      using Cons.prems(1) by (auto simp: case_prod_unfold Let_def)
    have "en_write e n = None" if "ew_writes ?w1 \<le> n" for n
      using that False assms [of n "ew_writes w"] by fastforce
    then have "ew_files w' q = (if q \<in> fs_path ` set written
        then Some (disk_content (fs_crlf (last (filter (\<lambda>pf. fs_path pf = q) written)))
          (fs_old (last (filter (\<lambda>pf. fs_path pf = q) written)))) else ew_files ?w1 q)"
      unfolding w' by (rule roll_back_files)
    moreover have "ew_files ?w1 q = ew_files w q" using Cons.prems(4) p by simp
    moreover have "last (filter (\<lambda>pf. fs_path pf = q) written) \<in> set (filter (\<lambda>pf. fs_path pf = q) written)"
      if "q \<in> fs_path ` set written" using that by (intro last_in_set) (auto simp: filter_empty_conv)
    ultimately show ?thesis
      using Cons.prems(2) [of "last (filter (\<lambda>pf. fs_path pf = q) written)"] Cons.prems(3) [of q]
      by (cases "q \<in> fs_path ` set written") auto
  next
    case True
    define w2 where "w2 = record_read (fs_path pf) (push_version e False (fs_path pf) (pf_new pf)
        (snd (old_version e (fs_path pf) (fs_old pf) (put_cached e (fs_path pf) (pf_new_lines pf) ?w1))))"
    have "write_files e pfs (written @ [pf]) w2 = (False, p, w')"
      using True Cons.prems(1) by (simp add: w2_def case_prod_unfold Let_def)
    then show ?thesis
    proof (rule Cons.IH)
      show "files (fs_path x) = Some (disk_content (fs_crlf x) (fs_old x))" if "x \<in> set ((written @ [pf]) @ pfs)" for x
        using Cons.prems(2) [of x] that by auto
      show "ew_files w2 x = files x" if "x \<notin> fs_path ` set (written @ [pf])" for x
        using Cons.prems(3) [of x] that by (simp add: w2_def)
    qed (rule Cons.prems(4))
  qed
qed simp


lemma write_files_done:
  "write_files e pfs written w = (True, p, w') \<Longrightarrow>
   ew_files w' q =
     (if q \<in> fs_path ` set pfs
      then Some (disk_content (fs_crlf (last (filter (\<lambda>pf. fs_path pf = q) pfs))) (pf_new (last (filter (\<lambda>pf. fs_path pf = q) pfs))))
      else ew_files w q)"
proof (induction pfs arbitrary: written w)
  case (Cons pf pfs)
  let ?w1 = "snd (write_file e (fs_path pf) (disk_content (fs_crlf pf) (pf_new pf)) w)"
  define w2 where "w2 = record_read (fs_path pf) (push_version e False (fs_path pf) (pf_new pf)
      (snd (old_version e (fs_path pf) (fs_old pf) (put_cached e (fs_path pf) (pf_new_lines pf) ?w1))))"
  have ok: "en_write e (ew_writes w) = None" "write_files e pfs (written @ [pf]) w2 = (True, p, w')"
    using Cons.prems by (auto simp: w2_def case_prod_unfold Let_def split: if_splits)
  have "ew_files w2 q = (if q = fs_path pf then Some (disk_content (fs_crlf pf) (pf_new pf)) else ew_files w q)"
    using ok(1) by (simp add: w2_def)
  moreover have "filter (\<lambda>pf. fs_path pf = q) pfs = [] \<longleftrightarrow> q \<notin> fs_path ` set pfs"
    by (auto simp: filter_empty_conv)
  ultimately show ?case using Cons.IH [OF ok(2)] by (cases "q \<in> fs_path ` set pfs") auto
qed simp

section \<open>The whole call\<close>

definition resolved_targets :: "edit_env \<Rightarrow> (string \<times> hashline_operation list) list \<Rightarrow> (string \<times> hashline_operation list) list" where
  "resolved_targets e file_ops = map (\<lambda>(path, ops). (en_resolve e path, ops)) file_ops"

lemma read_target_reply: "read_target e w path = Inl reply \<Longrightarrow>
   (\<forall>rs. reply \<noteq> AllApplied rs) \<and> (\<forall>p. reply \<noteq> WriteFailed p)"
  by (auto simp: read_target_def split: stat_result.splits option.splits if_splits)

lemma load_files_reply: "load_files e w targets = Inl reply \<Longrightarrow>
   (\<forall>rs. reply \<noteq> AllApplied rs) \<and> (\<forall>p. reply \<noteq> WriteFailed p)"
proof (induction e w targets rule: load_files.induct)
  case (2 e w path ops rest)
  show ?case
  proof (cases "load_file e w path ops")
    case (Inl r)
    then have "(\<forall>rs. r \<noteq> AllApplied rs) \<and> (\<forall>p. r \<noteq> WriteFailed p)"
      using read_target_reply [of e w path] by (auto simp: load_file_def Let_def case_prod_unfold split: sum.splits)
    with Inl 2(2) show ?thesis by simp
  next
    case (Inr x)
    with 2 show ?thesis by (cases x) (auto simp: map_sum_def split: sum.splits)
  qed
qed simp

lemma resolve_files_reply: "resolve_files e w pending sts = Inl reply \<Longrightarrow>
   (\<forall>rs. reply \<noteq> AllApplied rs) \<and> (\<forall>p. reply \<noteq> WriteFailed p)"
  by (induction e w pending sts rule: resolve_files.induct) (auto simp: map_sum_def split: sum.splits)

lemma apply_files_run:
  assumes "find (\<lambda>t. en_plan_blocks e (fst t)) (resolved_targets e file_ops) = None" "en_session e \<noteq> []"
    "check_preflight_limits e (map fst (resolved_targets e file_ops))"
  shows "apply_file_operations e file_ops w =
    (case load_files e w (resolved_targets e file_ops) of
       Inl reply \<Rightarrow> Some (reply, w)
     | Inr (sts, pending) \<Rightarrow>
         (case resolve_files e w pending sts of
            Inl reply \<Rightarrow> Some (reply, w)
          | Inr sts \<Rightarrow>
              (case prepare_files e w (resolved_targets e file_ops) sts of
                 None \<Rightarrow> None
               | Some (Inl reply) \<Rightarrow> Some (reply, w)
               | Some (Inr pfs) \<Rightarrow>
                   (let w1 = w\<lparr>ew_clipboard := commit_pending_cuts pending (en_session e) (ew_clipboard w)\<rparr>;
                        (ok, path, w2) = write_files e pfs [] w1
                    in Some (if ok
                         then (AllApplied (map (\<lambda>pf. (fs_path pf, pf_recovered pf)) pfs),
                           w2\<lparr>ew_clipboard := clear_anonymous (en_session e) (ew_clipboard w2)\<rparr>)
                         else (WriteFailed path, w2))))))"
  unfolding apply_file_operations_def resolved_targets_def [symmetric]
  using assms by (simp only: Let_def option.case if_False not_True_eq_False)

lemma apply_files_cases:
  "\<exists>reply w'. apply_file_operations e file_ops w = Some (reply, w') \<and>
    ((w' = w \<and> (\<forall>rs. reply \<noteq> AllApplied rs) \<and> (\<forall>p. reply \<noteq> WriteFailed p)) \<or>
     (\<exists>sts pending pfs ok p w2. load_files e w (resolved_targets e file_ops) = Inr (sts, pending) \<and>
        list_all2 (prepared_from e w) (resolved_targets e file_ops) pfs \<and>
        write_files e pfs [] (w\<lparr>ew_clipboard := commit_pending_cuts pending (en_session e) (ew_clipboard w)\<rparr>) = (ok, p, w2) \<and>
        (if ok then reply = AllApplied (map (\<lambda>pf. (fs_path pf, pf_recovered pf)) pfs) \<and>
             w' = w2\<lparr>ew_clipboard := clear_anonymous (en_session e) (ew_clipboard w2)\<rparr>
         else reply = WriteFailed p \<and> w' = w2)))"
proof (cases "en_session e = [] \<or> find (\<lambda>t. en_plan_blocks e (fst t)) (resolved_targets e file_ops) \<noteq> None \<or>
    \<not> check_preflight_limits e (map fst (resolved_targets e file_ops))")
  case True
  then have "\<exists>reply. apply_file_operations e file_ops w = Some (reply, w) \<and>
      (reply \<in> {NoSession, PreflightFailed} \<or> (\<exists>p. reply = PlanBlocked p))"
    by (auto simp: apply_file_operations_def resolved_targets_def Let_def split: option.splits)
  then show ?thesis by blast
next
  case go: False
  let ?ts = "resolved_targets e file_ops"
  have "find (\<lambda>t. en_plan_blocks e (fst t)) ?ts = None" "en_session e \<noteq> []" "check_preflight_limits e (map fst ?ts)"
    using go by blast+
  note run = apply_files_run [OF this, of w]
  show ?thesis
  proof (cases "load_files e w ?ts")
    case (Inl reply)
    with load_files_reply show ?thesis unfolding run by (intro exI [of _ reply] exI [of _ w]) simp
  next
    case (Inr x)
    then obtain sts pending where l: "load_files e w ?ts = Inr (sts, pending)" by (cases x) simp
    show ?thesis
    proof (cases "resolve_files e w pending sts")
      case (Inl reply)
      with l resolve_files_reply show ?thesis unfolding run by (intro exI [of _ reply] exI [of _ w]) simp
    next
      case (Inr sts')
      have "list_all2 (file_from e w) ?ts sts'" by (rule resolve_files_ok [OF Inr load_files_ok [OF l]])
      from prepare_files_ok [OF this, of ?ts] obtain r where r: "prepare_files e w ?ts sts' = Some r"
        "\<And>reply. r = Inl reply \<Longrightarrow> reply = PermissionFailed \<or> (\<exists>p err err'. reply = RecoveryFailed p err err')"
        "\<And>pfs. r = Inr pfs \<Longrightarrow> list_all2 (prepared_from e w) ?ts pfs" by blast
      show ?thesis
      proof (cases r)
        case (Inl reply)
        with r(1,2) l Inr show ?thesis unfolding run by (intro exI [of _ reply] exI [of _ w]) auto
      next
        case pfs: (Inr pfs)
        obtain ok p w2 where wf: "write_files e pfs []
            (w\<lparr>ew_clipboard := commit_pending_cuts pending (en_session e) (ew_clipboard w)\<rparr>) = (ok, p, w2)"
          by (metis prod.exhaust)
        have "apply_file_operations e file_ops w =
            Some (if ok then (AllApplied (map (\<lambda>pf. (fs_path pf, pf_recovered pf)) pfs),
                w2\<lparr>ew_clipboard := clear_anonymous (en_session e) (ew_clipboard w2)\<rparr>) else (WriteFailed p, w2))"
          using l Inr r(1) pfs wf unfolding run by simp
        with l r(3) [OF pfs] wf show ?thesis by (cases ok) auto
      qed
    qed
  qed
qed

lemma get_named_put: "get_named (put_named session name ls cb) session r =
    (if r = name then Some ls else get_named cb session r)"
  by (simp add: get_named_def put_named_def Let_def split: option.splits)

lemma get_named_commit:
  assumes "r \<noteq> []"
  shows "get_named (commit_pending_cuts pending session cb) session r =
    (case filter (\<lambda>pc. pc_register pc = r) pending of [] \<Rightarrow> get_named cb session r | pcs \<Rightarrow> Some (pc_lines (last pcs)))"
proof (induction pending rule: rev_induct)
  case (snoc pc pending)
  then show ?case using assms
    by (cases "filter (\<lambda>pc. pc_register pc = r) pending") (auto simp: commit_pending_cuts_def get_named_put)
qed (simp add: commit_pending_cuts_def)

end
