(* ===== verification/Hashline_Text.thy ===== *)
theory Hashline_Text
  imports Hashline
begin

text \<open>
  What is printed is read back: the references that read prints beside the lines, and files
  split into lines and joined again.
\<close>

section \<open>References read back\<close>

lemma shown_digits: "c \<in> set (show_nat n) \<Longrightarrow> is_digit c"
proof (induction n rule: show_nat.induct)
  case (1 n)
  have "list_all (\<lambda>m. is_digit (char_of (48 + m))) [0..<10]" by code_simp
  then have d: "is_digit (char_of (48 + m))" if "m < 10" for m :: nat using that by (simp add: list_all_iff)
  have step: "show_nat n = (if n < 10 then [char_of (48 + n)] else show_nat (n div 10) @ [char_of (48 + n mod 10)])"
    by (subst show_nat.simps) simp
  show ?case using 1 d by (auto simp: step split: if_splits)
qed

lemma byte_val_digit: "m < 10 \<Longrightarrow> byte_val (char_of (48 + m)) = 48 + m"
  by (simp add: byte_val_def)

lemma digits_value_append: "digits_value (s @ [c]) = 10 * digits_value s + (byte_val c - 48)"
  by (simp add: digits_value_def)

lemma digits_value_show: "digits_value (show_nat n) = n"
proof (induction n rule: show_nat.induct)
  case (1 n)
  show ?case
  proof (cases "n < 10")
    case True
    then show ?thesis by (simp add: show_nat.simps [of n] digits_value_def byte_val_digit)
  next
    case False
    with 1 show ?thesis
      by (subst show_nat.simps) (simp add: digits_value_append byte_val_digit)
  qed
qed

lemma show_nat_nonempty: "show_nat n \<noteq> []"
  by (subst show_nat.simps) simp

lemma hashline_id_letters:
  "length (compute_hashline_id h line) = 4" "set (compute_hashline_id h line) \<subseteq> set nibble_alphabet"
proof -
  have lt: "unat (drop_bit 12 (w :: 16 word)) < 16" "unat (w AND 15) < 16" for w
  proof -
    have "unat w < 65536" using unsigned_less [of w] by simp
    moreover have "unat (drop_bit 12 w) = drop_bit 12 (unat w)" by (rule unat_drop_bit_eq)
    ultimately show "unat (drop_bit 12 w) < 16" by (simp only: drop_bit_eq_div) simp
    have "w AND 15 \<le> 15" by (rule word_and_le1)
    then show "unat (w AND 15) < 16" by (simp add: word_le_nat_alt)
  qed
  have "length nibble_alphabet = 16" by (simp add: nibble_alphabet_def)
  then show "length (compute_hashline_id h line) = 4" "set (compute_hashline_id h line) \<subseteq> set nibble_alphabet"
    using lt by (auto simp: compute_hashline_id_def Let_def)
qed

lemma nibble_letters: "c \<in> set nibble_alphabet \<Longrightarrow> is_letter c \<and> to_upper_char c = c"
  by (auto simp: nibble_alphabet_def is_letter_def to_upper_char_def byte_val_def)

lemma takeWhile_all: "\<forall>c \<in> set xs. P c \<Longrightarrow> takeWhile P (xs @ ys) = xs @ takeWhile P ys"
  by (induction xs) auto

lemma dropWhile_all: "\<forall>c \<in> set xs. P c \<Longrightarrow> dropWhile P (xs @ ys) = dropWhile P ys"
  by (induction xs) auto

lemma parse_numbered:
  assumes "1 \<le> n" "n < 2 ^ 63"
  shows "parse_hashline_reference (hashline_numbered h n l) =
    Inr \<lparr>hr_line = n, hr_hash = compute_hashline_id h (trl_raw l)\<rparr>"
proof -
  let ?id = "compute_hashline_id h (trl_raw l)" and ?rest = "''|'' @ trl_display l"
  obtain c s where cs: "show_nat n = c # s" using show_nat_nonempty by (cases "show_nat n") auto
  then have c: "is_digit c" using shown_digits [of c n] by simp
  then have nc: "\<not> regexp_space c" "c \<notin> set ''>+-''" by (auto simp: is_digit_def regexp_space_def)
  have 1: "dropWhile regexp_space (hashline_numbered h n l) = show_nat n @ ''#'' @ ?id @ ?rest"
    using nc by (simp add: hashline_numbered_def pad6_def dropWhile_all regexp_space_def cs)
  have 2: "dropWhile (\<lambda>c. c \<in> set ''>+-'') (show_nat n @ t) = show_nat n @ t"
    "dropWhile regexp_space (show_nat n @ t) = show_nat n @ t" for t
    using nc by (simp_all add: cs)
  have nd: "\<not> is_digit (CHR ''#'')" "\<not> regexp_space (CHR ''#'')" "\<not> is_letter (CHR ''|'')"
    by (simp_all add: is_digit_def regexp_space_def is_letter_def byte_val_def)
  have 3: "takeWhile is_digit (show_nat n @ ''#'' @ t) = show_nat n" "dropWhile is_digit (show_nat n @ ''#'' @ t) = ''#'' @ t" for t
    using shown_digits nd by (simp_all add: takeWhile_all dropWhile_all)
  have lets: "\<forall>c \<in> set ?id. is_letter c \<and> to_upper_char c = c" using nibble_letters hashline_id_letters(2) by blast
  have sp: "dropWhile regexp_space (?id @ t) = ?id @ t" for t
  proof -
    obtain a r where a: "?id = a # r" using hashline_id_letters(1) [of h "trl_raw l"] by (cases ?id) auto
    then have "a \<in> set nibble_alphabet" using hashline_id_letters(2) [of h "trl_raw l"] by auto
    then have "\<not> regexp_space a" by (auto simp: nibble_alphabet_def regexp_space_def)
    then show ?thesis by (simp add: a)
  qed
  have 4: "take 4 (takeWhile is_letter (?id @ ?rest)) = ?id" "map to_upper_char ?id = ?id"
    using lets nd hashline_id_letters(1) [of h "trl_raw l"] by (simp_all add: takeWhile_all map_idI)
  show ?thesis
    unfolding parse_hashline_reference_def Let_def 1 2 3
    using nd 4 sp assms show_nat_nonempty hashline_id_letters(1) [of h "trl_raw l"]
    by (simp add: digits_value_show)
qed

lemma validate_exact:
  "validate_hashline_reference h r lines = None \<longleftrightarrow>
   1 \<le> hr_line r \<and> hr_line r \<le> length lines \<and> compute_hashline_id h (lines ! (hr_line r - 1)) = hr_hash r"
  by (auto simp: validate_hashline_reference_def Let_def)

section \<open>Lines read back\<close>

lemma str_join_Cons: "str_join sep ((x # a) # ss) = x # str_join sep (a # ss)"
  by (cases ss) simp_all

lemma join_split: "str_join [c] (str_split c s) = s"
  and split_nonempty: "str_split c s \<noteq> []"
proof (induction s)
  case (Cons x s)
  { case 1 show ?case using Cons by (cases "str_split c s"; cases "tl (str_split c s)") (auto simp: str_join_Cons)
  next
    case 2 show ?case by (auto split: list.splits) }
qed simp_all

lemma split_snoc: "str_split c (s @ [c]) = str_split c s @ [[]]"
proof (induction s)
  case (Cons x s)
  then show ?case using split_nonempty [of c s] by (auto split: list.splits)
qed simp

lemma join_split_lines: "join_file_lines (fst (split_file_lines s)) (snd (split_file_lines s)) = s"
proof (cases "s = [] \<or> \<not> has_suffix s [newline]")
  case True
  then show ?thesis using split_nonempty [of newline s] by (auto simp: split_file_lines_def join_file_lines_def join_split)
next
  case False
  then obtain t where s: "s = t @ [newline]" using has_suffix_iff by blast
  then show ?thesis using False split_nonempty [of newline t]
    by (simp add: split_file_lines_def join_file_lines_def split_snoc join_split)
qed

lemma split_no_sep: "c \<notin> set l \<Longrightarrow> str_split c l = [l]"
  by (induction l) auto

lemma split_append_sep: "c \<notin> set l \<Longrightarrow> str_split c (l @ c # s) = l # str_split c s"
  by (induction l) auto

lemma split_join: "ls \<noteq> [] \<Longrightarrow> \<forall>l \<in> set ls. c \<notin> set l \<Longrightarrow> str_split c (str_join [c] ls) = ls"
  by (induction "[c]" ls rule: str_join.induct) (auto simp: split_no_sep split_append_sep)

end
