(* ===== verification/Hashline_Properties.thy ===== *)
theory Hashline_Properties
  imports Hashline_Recovery Hashline_Text
begin

text \<open>The properties of edits addressed by line and hash.\<close>

text \<open>Operations on given lines, for the examples.\<close>

definition replace_line_op :: "nat \<Rightarrow> string list \<Rightarrow> parsed_operation" where
  "replace_line_op k c =
     no_operation\<lparr>po_operation := ''replace_line'', po_line := \<lparr>hr_line = k, hr_hash = []\<rparr>, po_content := c\<rparr>"

definition append_op :: "nat \<Rightarrow> string list \<Rightarrow> parsed_operation" where
  "append_op k c =
     no_operation\<lparr>po_operation := ''append'', po_line := \<lparr>hr_line = k, hr_hash = []\<rparr>, po_content := c\<rparr>"

definition zero_hash :: "string \<Rightarrow> 64 word" where
  "zero_hash s = 0"

definition example_op :: hashline_operation where
  "example_op = \<lparr>ho_operation = ''replace_line'', ho_line = ''2#ZZZZ'', ho_start = [], ho_end = [], ho_content = ''x'',
        ho_register = [], ho_before = False\<rparr>"

definition example_parsed :: parsed_operation where
 "example_parsed = no_operation\<lparr>po_operation := ''replace_line'', po_line := \<lparr>hr_line = 2, hr_hash = ''ZZZZ''\<rparr>, po_content := [''x'']\<rparr>"

lemma zero_hash_id: "compute_hashline_id zero_hash l = ''ZZZZ''"
  by (simp add: compute_hashline_id_def zero_hash_def nibble_alphabet_def)

lemma example_parts: "parse_hashline_reference ''2#ZZZZ'' = Inr \<lparr>hr_line = 2, hr_hash = ''ZZZZ''\<rparr>"
  by (simp add: parse_hashline_reference_def Let_def regexp_space_def is_digit_def is_letter_def digits_value_def
      to_upper_char_def byte_val_def)

lemma example_content: "split_content ''x'' = [''x'']" by code_simp

lemma parse_example: "2 \<le> length lines \<Longrightarrow> parse_operations zero_hash 1 [example_op] lines = Inr [example_parsed]"
  by (simp add: parse_operation_def parse_and_validate_def validate_hashline_reference_def Let_def example_op_def
    example_parsed_def example_parts example_content zero_hash_id)

lemma example_alignment: "align_lines_lcs [''a'', ''b''] [''n'', ''a'', ''b''] = [0, 2, 3]"
  by (simp add: align_lines_lcs_def max_lcs_matrix_size_def lcs_table_def lcs_walk.simps)

lemma example_recovery: "recover_from_snapshot zero_hash [''a'', ''b''] [''n'', ''a'', ''b''] [example_op] = Some (Inr [''n'', ''a'', ''x''])"
proof -
  have "map_operations [0, 2, 3] [example_parsed] = Inr [example_parsed\<lparr>po_line := \<lparr>hr_line = 3, hr_hash = ''ZZZZ''\<rparr>\<rparr>]" by code_simp
  moreover have "apply_hashline_operations [''n'', ''a'', ''b''] [example_parsed\<lparr>po_line := \<lparr>hr_line = 3, hr_hash = ''ZZZZ''\<rparr>\<rparr>] = Some (Inr [''n'', ''a'', ''x''])" by code_simp
  ultimately show ?thesis using parse_example [of "[''a'', ''b'']"] by (simp add: recover_from_snapshot_def example_alignment)
qed

text \<open>
  A batch whose operations parse against the lines of the file never panics while it is
  applied, and whatever it makes of the file holds, in order, every original line that no
  operation of it replaces.
\<close>

theorem batch_keeps_other_lines:
  assumes "parse_operations h 1 ops lines = Inr ps"
  shows "\<exists>r. apply_hashline_operations lines ps = Some r \<and> (\<forall>result. r = Inr result \<longrightarrow> subseq (kept_lines lines ps) result)"
proof -
  have "list_all well_formed ps" using assms by (rule parse_operations_well_formed)
  from apply_kept [OF this, of lines] show ?thesis by auto
qed

lemma batch_keeps_other_lines_witness:
  "parse_operations zero_hash 1 [example_op] [''a'', ''b'', ''c''] = Inr [example_parsed] \<and>
   kept_lines [''a'', ''b'', ''c''] [example_parsed] = [''a'', ''c''] \<and>
   (\<exists>r. apply_hashline_operations [''a'', ''b'', ''c''] [example_parsed] = Some r \<and>
     (\<forall>result. r = Inr result \<longrightarrow> subseq [''a'', ''c''] result))"
proof -
  have k: "kept_lines [''a'', ''b'', ''c''] [example_parsed] = [''a'', ''c'']" by code_simp
  have p: "parse_operations zero_hash 1 [example_op] [''a'', ''b'', ''c''] = Inr [example_parsed]"
    by (rule parse_example) simp
  from batch_keeps_other_lines [OF p] p k show ?thesis by simp
qed

text \<open>
  C13. What a batch of insertions and one-line replacements makes of a file: around each line
  stand the contents prepended to it and appended to it, in the order of the operations, and the
  line is the content of the last operation that replaces it.
\<close>

theorem batch_result:
  assumes "list_all (gentle (length lines)) ops"
  shows "apply_hashline_operations lines ops =
    Some (Inr (concat (map (\<lambda>k. line_result ops k (lines ! (k - 1))) [1..<length lines + 1])))"
  using assms by (rule apply_gentle_batch)

lemma batch_result_witness:
  "apply_hashline_operations [''a'', ''b''] [append_op 1 [''x''], replace_line_op 1 [''A''], append_op 1 [''y'']] =
     Some (Inr [''A'', ''x'', ''y'', ''b''])"
proof -
  let ?ops = "[append_op 1 [''x''], replace_line_op 1 [''A''], append_op 1 [''y'']]"
  have g: "list_all (gentle (length [''a'', ''b''])) ?ops" by code_simp
  have r: "concat (map (\<lambda>k. line_result ?ops k ([''a'', ''b''] ! (k - 1))) [1..<length [''a'', ''b''] + 1]) =
      [''A'', ''x'', ''y'', ''b'']" by code_simp
  show ?thesis using batch_result [OF g] unfolding r .
qed

text \<open>
  An append to a line that an earlier operation of the batch replaced by several lines does
  not follow the replacement: its content goes in after the first line of it.
\<close>

theorem append_splits_replacement:
  assumes "1 \<le> k" "k \<le> length lines" "c \<noteq> []" "d \<noteq> []"
  shows "apply_hashline_operations lines [replace_line_op k c, append_op k d] =
    Some (Inr (take (k - 1) lines @ hd c # d @ tl c @ drop k lines))"
  by (rule append_after_replacement [OF assms replace_line_op_def append_op_def])

lemma append_splits_replacement_witness:
  "apply_hashline_operations [''a'', ''b''] [replace_line_op 1 [''x'', ''y''], append_op 1 [''z'']] =
     Some (Inr [''x'', ''z'', ''y'', ''b''])"
  using append_splits_replacement [of 1 "[''a'', ''b'']" "[''x'', ''y'']" "[''z'']"] by simp

text \<open>
  C12. The alignment of a snapshot with the file maps lines to equal lines and keeps their order;
  where the table is within its limit, no such mapping matches more lines.
\<close>

theorem alignment_correct_and_maximal:
  "alignment base ours (align_lines_lcs base ours) \<and>
   (length base * length ours \<le> max_lcs_matrix_size \<longrightarrow>
     (\<forall>m. alignment base ours m \<longrightarrow> matched m \<le> matched (align_lines_lcs base ours)))"
  using align_lines_alignment align_lines_matched alignment_bound by simp

lemma alignment_correct_and_maximal_witness:
  "matched [0, 0, 1, 2] \<le> matched (align_lines_lcs [''a'', ''b'', ''c''] [''b'', ''c'', ''a''])"
proof -
  have "alignment [''a'', ''b'', ''c''] [''b'', ''c'', ''a''] [0, 0, 1, 2]"
    by (auto simp: alignment_def nth_Cons' split: if_splits)
  then show ?thesis
    using alignment_correct_and_maximal [of "[''a'', ''b'', ''c'']" "[''b'', ''c'', ''a'']"]
    by (simp add: max_lcs_matrix_size_def)
qed

text \<open>
  C39. Recovery never panics, and when it succeeds the batch parses against the snapshot and
  the new file holds, in order, every line of the current file except those that are aligned
  with, and equal to, a snapshot line that an operation of the batch replaces.
\<close>

theorem recovery_keeps_other_lines:
  "\<exists>r. recover_from_snapshot h base ours ops = Some r \<and>
     (\<forall>result. r = Inr result \<longrightarrow>
       (\<exists>ps. parse_operations h 1 ops base = Inr ps \<and>
         subseq (map (\<lambda>j. ours ! (j - 1)) (filter (\<lambda>j. \<not> recovery_replaces base ours ps j) [1..<length ours + 1])) result))"
proof -
  obtain r where "recover_from_snapshot h base ours ops = Some r" using recover_kept(1) by blast
  with recover_kept(2) [of h base ours ops] show ?thesis by blast
qed

lemma recovery_keeps_other_lines_witness:
  "\<exists>result. recover_from_snapshot zero_hash [''a'', ''b''] [''n'', ''a'', ''b''] [example_op] = Some (Inr result) \<and>
     subseq [''n'', ''a''] result"
proof -
  have k: "map (\<lambda>j. [''n'', ''a'', ''b''] ! (j - 1))
      (filter (\<lambda>j. \<not> recovery_replaces [''a'', ''b''] [''n'', ''a'', ''b''] [example_parsed] j) [1..<length [''n'', ''a'', ''b''] + 1]) = [''n'', ''a'']"
    by (simp add: recovery_replaces_def example_alignment replaces_def example_parsed_def no_operation_def)
  have p: "parse_operations zero_hash 1 [example_op] [''a'', ''b''] = Inr [example_parsed]" by (rule parse_example) simp
  obtain result where r: "recover_from_snapshot zero_hash [''a'', ''b''] [''n'', ''a'', ''b''] [example_op] = Some (Inr result)"
    using example_recovery by blast
  with recovery_keeps_other_lines [of zero_hash "[''a'', ''b'']" "[''n'', ''a'', ''b'']" "[example_op]"] p
  have "subseq (map (\<lambda>j. [''n'', ''a'', ''b''] ! (j - 1))
      (filter (\<lambda>j. \<not> recovery_replaces [''a'', ''b''] [''n'', ''a'', ''b''] [example_parsed] j) [1..<length [''n'', ''a'', ''b''] + 1])) result"
    by (metis option.inject sum.inject(2))
  with r show ?thesis unfolding k by blast
qed

text \<open>
  On a file that has not changed since the snapshot, recovery of a batch without cut and
  paste does exactly what the batch does.
\<close>

theorem recovery_of_unchanged_file:
  assumes "parse_operations h 1 ops lines = Inr ps"
    "list_all (\<lambda>op. ho_operation op \<notin> {''cut'', ''paste''}) ops"
  shows "recover_from_snapshot h lines lines ops = apply_hashline_operations lines ps"
  using assms by (rule recover_unchanged)

lemma recovery_of_unchanged_file_witness:
  "recover_from_snapshot zero_hash [''a'', ''b''] [''a'', ''b''] [example_op] =
    apply_hashline_operations [''a'', ''b''] [example_parsed]"
  by (rule recovery_of_unchanged_file [OF parse_example]) (simp_all add: example_op_def)

text \<open>
  The reference that reading prints before a line parses and validates against any file
  that has this line, in this place, whatever is displayed of it.
\<close>

theorem printed_reference_validates:
  assumes "1 \<le> n" "n \<le> length lines" "n < 2 ^ 63" "lines ! (n - 1) = trl_raw l"
  shows "parse_and_validate h (hashline_numbered h n l) lines =
    Inr \<lparr>hr_line = n, hr_hash = compute_hashline_id h (trl_raw l)\<rparr>"
  using assms parse_numbered [of n h l] validate_exact [of h "\<lparr>hr_line = n, hr_hash = compute_hashline_id h (trl_raw l)\<rparr>" lines]
  by (simp add: parse_and_validate_def)

lemma printed_reference_validates_witness:
  "parse_and_validate zero_hash (hashline_numbered zero_hash 2 \<lparr>trl_raw = ''b'', trl_display = ''b...''\<rparr>) [''a'', ''b''] =
    Inr \<lparr>hr_line = 2, hr_hash = ''ZZZZ''\<rparr>"
proof -
  have "compute_hashline_id zero_hash ''b'' = ''ZZZZ''" by (rule zero_hash_id)
  with printed_reference_validates [of 2 "[''a'', ''b'']" "\<lparr>trl_raw = ''b'', trl_display = ''b...''\<rparr>" zero_hash]
  show ?thesis by simp
qed

text \<open>
  A reference validates only with all four letters of the identifier of the line it names:
  none with two or three letters does, though the pattern takes them.
\<close>

theorem short_reference_never_validates:
  assumes "parse_hashline_reference s = Inr r" "length (hr_hash r) < 4"
  shows "\<exists>err. parse_and_validate h s lines = Inl err"
proof -
  have "validate_hashline_reference h r lines \<noteq> None"
    using assms(2) hashline_id_letters(1) by (metis validate_exact less_irrefl)
  with assms(1) show ?thesis by (auto simp: parse_and_validate_def)
qed

lemma short_reference_never_validates_witness:
  "\<exists>err. parse_and_validate zero_hash ''5#aa'' [''a'', ''b'', ''c'', ''d'', ''e''] = Inl err"
proof -
  have p: "parse_hashline_reference ''5#aa'' = Inr \<lparr>hr_line = 5, hr_hash = ''AA''\<rparr>"
    by (simp add: parse_hashline_reference_def Let_def regexp_space_def is_digit_def is_letter_def digits_value_def
        to_upper_char_def byte_val_def char_of_def bit_Suc bit_0)
  show ?thesis by (rule short_reference_never_validates [OF p]) simp
qed

text \<open>
  A file split into lines and joined again is the same file, with or without a newline at
  its end.
\<close>

theorem lines_round_trip:
  "join_file_lines (fst (split_file_lines content)) (snd (split_file_lines content)) = content"
  by (rule join_split_lines)

end
