(* ===== verification/Edit_Properties.thy ===== *)
theory Edit_Properties
  imports Edit_Flow Hashline_Properties
begin

text \<open>The properties of the edit tools that take operations by line and hash.\<close>

section \<open>An example\<close>

definition example_env :: edit_env where
  "example_env =
     \<lparr>en_hash = zero_hash, en_session = ''s'', en_resolve = (\<lambda>p. p), en_plan_blocks = (\<lambda>p. False),
      en_stat = (\<lambda>p. StatFile 3), en_readable = (\<lambda>p. True), en_permission = (\<lambda>p old new. Granted),
      en_write = (\<lambda>n. None), en_history = (\<lambda>create p. True)\<rparr>"

definition example_world :: edit_world where
  "example_world =
     \<lparr>ew_files = [''f'' \<mapsto> ''a'' @ [newline] @ ''b'', ''g'' \<mapsto> ''a'' @ [newline] @ ''b''], ew_clipboard = new_clipboard,
      ew_cache = new_file_cache, ew_versions = (\<lambda>p. []), ew_reads = [], ew_writes = 0\<rparr>"

lemma example_file_content: "to_unix_line_endings (''a'' @ [newline] @ ''b'') = (''a'' @ [newline] @ ''b'', False)"
  "split_file_lines (''a'' @ [newline] @ ''b'') = ([''a'', ''b''], False)"
  by code_simp+

section \<open>One file\<close>



section \<open>Several files\<close>



text \<open>Cutting line 2 of one file and replacing it in another, where the second write fails.\<close>

definition example_cut :: hashline_operation where
  "example_cut = \<lparr>ho_operation = ''cut'', ho_line = [], ho_start = ''2#ZZZZ'', ho_end = ''2#ZZZZ'', ho_content = [],
     ho_register = ''r'', ho_before = False\<rparr>"

definition example_cut_parsed :: parsed_operation where
  "example_cut_parsed = no_operation\<lparr>po_operation := ''cut'', po_start := \<lparr>hr_line = 2, hr_hash = ''ZZZZ''\<rparr>,
     po_end := \<lparr>hr_line = 2, hr_hash = ''ZZZZ''\<rparr>, po_register := ''r''\<rparr>"

definition failing_env :: edit_env where
  "failing_env = example_env\<lparr>en_write := (\<lambda>n. if n = 1 then Some (\<lambda>f. f) else None)\<rparr>"

lemma parse_cut: "parse_operations zero_hash 1 [example_cut] [''a'', ''b''] = Inr [example_cut_parsed]"
  by (simp add: parse_operation_def parse_range_def parse_and_validate_def validate_hashline_reference_def Let_def
      example_cut_def example_cut_parsed_def example_parts zero_hash_id split_content_def to_unix_line_endings_def)

lemma example_load:
  "load_files failing_env example_world (resolved_targets failing_env [(''f'', [example_cut]), (''g'', [example_op])]) =
     Inr ([\<lparr>fs_path = ''f'', fs_old = ''a'' @ [newline] @ ''b'', fs_lines = [''a'', ''b''], fs_crlf = False, fs_trailing = False,
         fs_ops = [example_cut_parsed\<lparr>po_operation := ''replace_range''\<rparr>]\<rparr>,
       \<lparr>fs_path = ''g'', fs_old = ''a'' @ [newline] @ ''b'', fs_lines = [''a'', ''b''], fs_crlf = False, fs_trailing = False,
         fs_ops = [example_parsed]\<rparr>],
      [\<lparr>pc_register = ''r'', pc_lines = [''b'']\<rparr>])"
proof -
  have f: "mark_cuts 1 [example_cut_parsed] [''a'', ''b''] = Inr [example_cut_parsed\<lparr>po_operation := ''replace_range''\<rparr>]"
    "collect_pending_cuts [example_cut_parsed] [''a'', ''b''] = [\<lparr>pc_register = ''r'', pc_lines = [''b'']\<rparr>]"
    "mark_cuts 1 [example_parsed] [''a'', ''b''] = Inr [example_parsed]"
    "collect_pending_cuts [example_parsed] [''a'', ''b''] = []"
    by code_simp+
  have p: "parse_operations zero_hash 1 [example_op] [''a'', ''b''] = Inr [example_parsed]" by (rule parse_example) simp
  show ?thesis
    using f p parse_cut
    by (simp add: resolved_targets_def load_file_def failing_env_def example_env_def example_world_def read_target_def
        example_file_content [simplified] Let_def)
qed

lemma example_failed_write:
  "\<exists>w'. apply_file_operations failing_env [(''f'', [example_cut]), (''g'', [example_op])] example_world =
    Some (WriteFailed ''g'', w')"
proof -
  let ?ts = "resolved_targets failing_env [(''f'', [example_cut]), (''g'', [example_op])]"
  let ?f = "\<lparr>fs_path = ''f'', fs_old = ''a'' @ [newline] @ ''b'', fs_lines = [''a'', ''b''], fs_crlf = False, fs_trailing = False,
         fs_ops = [example_cut_parsed\<lparr>po_operation := ''replace_range''\<rparr>]\<rparr>"
  let ?g = "\<lparr>fs_path = ''g'', fs_old = ''a'' @ [newline] @ ''b'', fs_lines = [''a'', ''b''], fs_crlf = False, fs_trailing = False,
         fs_ops = [example_parsed]\<rparr>"
  let ?pending = "[\<lparr>pc_register = ''r'', pc_lines = [''b'']\<rparr>]"
  have ts: "?ts = [(''f'', [example_cut]), (''g'', [example_op])]"
    by (simp add: resolved_targets_def failing_env_def example_env_def)
  have resolved: "resolve_files failing_env example_world ?pending [?f, ?g] = Inr [?f, ?g]"
    by (simp add: example_cut_parsed_def example_parsed_def no_operation_def)
  have a: "apply_hashline_operations [''a'', ''b''] [example_cut_parsed\<lparr>po_operation := ''replace_range''\<rparr>] = Some (Inr [''a''])"
    "apply_hashline_operations [''a'', ''b''] [example_parsed] = Some (Inr [''a'', ''x''])"
    by code_simp+
  define pf where "pf = file_state.extend ?f (prepared_file.fields [''a''] (join_file_lines [''a''] False) False)"
  define pg where "pg = file_state.extend ?g (prepared_file.fields [''a'', ''x''] (join_file_lines [''a'', ''x''] False) False)"
  have prepared: "prepare_files failing_env example_world ?ts [?f, ?g] = Some (Inr [pf, pg])"
    using a by (simp add: prepare_file_def edit_lines_def Let_def pf_def pg_def failing_env_def example_env_def)
  have paths: "fs_path pf = ''f''" "fs_path pg = ''g''"
    by (simp_all add: pf_def pg_def file_state.defs prepared_file.defs)
  define w1 where "w1 = example_world\<lparr>ew_clipboard := commit_pending_cuts ?pending (en_session failing_env) (ew_clipboard example_world)\<rparr>"
  have "ew_writes w1 = 0" by (simp add: w1_def example_world_def)
  then have "fst (write_files failing_env [pf, pg] [] w1) = False" "fst (snd (write_files failing_env [pf, pg] [] w1)) = ''g''"
    using paths by (simp_all add: case_prod_unfold Let_def failing_env_def example_env_def)
  then obtain w' where w': "write_files failing_env [pf, pg] [] w1 = (False, ''g'', w')"
    by (cases "write_files failing_env [pf, pg] [] w1") auto
  have go: "find (\<lambda>t. en_plan_blocks failing_env (fst t)) ?ts = None" "en_session failing_env \<noteq> []"
    "check_preflight_limits failing_env (map fst ?ts)"
    unfolding ts by (simp_all add: failing_env_def example_env_def check_preflight_limits_def)
  have "apply_file_operations failing_env [(''f'', [example_cut]), (''g'', [example_op])] example_world =
      Some (WriteFailed ''g'', w')"
    by (simp only: apply_files_run [OF go] example_load resolved prepared w' [unfolded w1_def] sum.case prod.case option.case
        Let_def if_False)
  then show ?thesis by blast
qed

text \<open>
  C38. When a write fails and no other one does, every other file is put back as it was, as long
  as each file's line ends are of one kind.
\<close>

theorem failed_write_rolled_back:
  assumes "apply_file_operations e file_ops w = Some (WriteFailed p, w')"
    "\<And>m n. en_write e m \<noteq> None \<Longrightarrow> en_write e n \<noteq> None \<Longrightarrow> m = n"
    "\<And>q content. ew_files w q = Some content \<Longrightarrow> uniform_ends content"
    "q \<noteq> p"
  shows "ew_files w' q = ew_files w q"
proof -
  obtain pending pfs where c: "list_all2 (prepared_from e w) (resolved_targets e file_ops) pfs"
    "write_files e pfs [] (w\<lparr>ew_clipboard := commit_pending_cuts pending (en_session e) (ew_clipboard w)\<rparr>) = (False, p, w')"
    using apply_files_cases [of e file_ops w] assms(1) by (auto split: if_splits)
  have "ew_files w (fs_path pf) = Some (disk_content (fs_crlf pf) (fs_old pf))" if pf: "pf \<in> set pfs" for pf
  proof -
    obtain t where "prepared_from e w t pf" using c(1) pf by (metis list_all2_conv_all_nth in_set_conv_nth)
    then obtain content where "ew_files w (fs_path pf) = Some content" "fs_old pf = fst (to_unix_line_endings content)"
      "fs_crlf pf = snd (to_unix_line_endings content)"
      by (auto simp: prepared_from_def state_of_def old_of_def crlf_of_def)
    with disk_content_same [OF assms(3)] show ?thesis by simp
  qed
  then show ?thesis
    by (intro write_files_failed [OF assms(2) c(2)]) (use assms(4) in auto)
qed

lemma failed_write_rolled_back_witness:
  "\<exists>w'. apply_file_operations failing_env [(''f'', [example_cut]), (''g'', [example_op])] example_world =
     Some (WriteFailed ''g'', w') \<and> ew_files w' ''f'' = ew_files example_world ''f''"
proof -
  obtain w' where w': "apply_file_operations failing_env [(''f'', [example_cut]), (''g'', [example_op])] example_world =
     Some (WriteFailed ''g'', w')" using example_failed_write by blast
  have "uniform_ends (''a'' @ [newline] @ ''b'')" by code_simp
  then have "ew_files w' ''f'' = ew_files example_world ''f''"
    by (intro failed_write_rolled_back [OF w'])
      (auto simp: failing_env_def example_env_def example_world_def split: if_splits)
  with w' show ?thesis by blast
qed

text \<open>
  After a failed write the named registers still hold what the call has cut, although the
  files it was cut from are put back.
\<close>

theorem failed_write_keeps_cuts:
  assumes "apply_file_operations e file_ops w = Some (WriteFailed p, w')"
    "load_files e w (resolved_targets e file_ops) = Inr (sts, pending)"
    "filter (\<lambda>pc. pc_register pc = r) pending = older @ [newest]" "r \<noteq> []"
  shows "get_named (ew_clipboard w') (en_session e) r = Some (pc_lines newest)"
proof -
  obtain pfs where
    "write_files e pfs [] (w\<lparr>ew_clipboard := commit_pending_cuts pending (en_session e) (ew_clipboard w)\<rparr>) = (False, p, w')"
    using apply_files_cases [of e file_ops w] assms(1,2) by (auto split: if_splits)
  then have "ew_clipboard w' = commit_pending_cuts pending (en_session e) (ew_clipboard w)"
    using write_files_clipboard by (metis edit_world.select_convs(2) edit_world.surjective edit_world.update_convs(2) snd_conv)
  with get_named_commit [OF assms(4)] assms(3) show ?thesis by (cases older) simp_all
qed

lemma failed_write_keeps_cuts_witness:
  "\<exists>w'. apply_file_operations failing_env [(''f'', [example_cut]), (''g'', [example_op])] example_world =
     Some (WriteFailed ''g'', w') \<and> get_named (ew_clipboard w') ''s'' ''r'' = Some [''b'']"
proof -
  obtain w' where w': "apply_file_operations failing_env [(''f'', [example_cut]), (''g'', [example_op])] example_world =
     Some (WriteFailed ''g'', w')" using example_failed_write by blast
  have "get_named (ew_clipboard w') (en_session failing_env) ''r'' = Some (pc_lines \<lparr>pc_register = ''r'', pc_lines = [''b'']\<rparr>)"
    by (rule failed_write_keeps_cuts [OF w' example_load, where older = "[]"]) simp_all
  with w' show ?thesis by (simp add: failing_env_def example_env_def)
qed

text \<open>
  A file that a call names twice keeps the lines that its second entry leaves alone as they
  were before the call: what the first entry did to them is lost.
\<close>

theorem second_entry_overwrites:
  assumes "apply_file_operations e [(path, ops1), (path, ops2)] w = Some (AllApplied [(q, False), (q, False)], w')"
  shows "\<exists>ps new_lines. parse_operations (en_hash e) 1 ops2 (lines_of w q) = Inr ps \<and>
    subseq (surviving_lines (lines_of w q) ps) new_lines \<and>
    ew_files w' q = Some (disk_content (crlf_of w q) (join_file_lines new_lines (snd (split_file_lines (old_of w q)))))"
proof -
  obtain pfs pending w2 p where c: "list_all2 (prepared_from e w) (resolved_targets e [(path, ops1), (path, ops2)]) pfs"
    "write_files e pfs [] (w\<lparr>ew_clipboard := commit_pending_cuts pending (en_session e) (ew_clipboard w)\<rparr>) = (True, p, w2)"
    "map (\<lambda>pf. (fs_path pf, pf_recovered pf)) pfs = [(q, False), (q, False)]" "ew_files w' = ew_files w2"
    using apply_files_cases [of e "[(path, ops1), (path, ops2)]" w] assms by (auto split: if_splits)
  from c(3) obtain a b where pfs: "pfs = [a, b]" "fs_path a = q" "fs_path b = q" "\<not> pf_recovered b" by auto
  from c(1) have b: "prepared_from e w (en_resolve e path, ops2) b" by (simp add: resolved_targets_def pfs)
  then have "en_resolve e path = q" using pfs by (simp add: prepared_from_def state_of_def)
  with b pfs write_files_done [OF c(2), of q] c(4) show ?thesis
    by (auto simp: prepared_from_def state_of_def)
qed

lemma second_entry_overwrites_witness:
  "\<exists>w' new_lines. apply_file_operations example_env [(''f'', [example_op]), (''f'', [])] example_world =
     Some (AllApplied [(''f'', False), (''f'', False)], w') \<and>
     subseq [''a'', ''b''] new_lines \<and> ew_files w' ''f'' = Some (join_file_lines new_lines False)"
proof -
  let ?ts = "resolved_targets example_env [(''f'', [example_op]), (''f'', [])]"
  let ?f = "\<lambda>ops. \<lparr>fs_path = ''f'', fs_old = ''a'' @ [newline] @ ''b'', fs_lines = [''a'', ''b''], fs_crlf = False,
      fs_trailing = False, fs_ops = ops\<rparr>"
  have ts: "?ts = [(''f'', [example_op]), (''f'', [])]" by (simp add: resolved_targets_def example_env_def)
  have p: "parse_operations zero_hash 1 [example_op] [''a'', ''b''] = Inr [example_parsed]" by (rule parse_example) simp
  have f: "mark_cuts 1 [example_parsed] [''a'', ''b''] = Inr [example_parsed]"
    "collect_pending_cuts [example_parsed] [''a'', ''b''] = []" "collect_pending_cuts [] [''a'', ''b''] = []"
    "apply_hashline_operations [''a'', ''b''] [example_parsed] = Some (Inr [''a'', ''x''])"
    "apply_hashline_operations [''a'', ''b''] [] = Some (Inr [''a'', ''b''])"
    by code_simp+
  have loaded: "load_files example_env example_world ?ts = Inr ([?f [example_parsed], ?f []], [])"
    unfolding ts using f p
    by (simp add: load_file_def example_env_def example_world_def read_target_def example_file_content [simplified] Let_def)
  have resolved: "resolve_files example_env example_world [] [?f [example_parsed], ?f []] = Inr [?f [example_parsed], ?f []]"
    by (simp add: example_parsed_def no_operation_def)
  define pf where "pf = (\<lambda>ops ls. file_state.extend (?f ops) (prepared_file.fields ls (join_file_lines ls False) False))"
  have prepared: "prepare_files example_env example_world ?ts [?f [example_parsed], ?f []] =
      Some (Inr [pf [example_parsed] [''a'', ''x''], pf [] [''a'', ''b'']])"
    using f(4,5) by (simp add: prepare_file_def edit_lines_def Let_def pf_def example_env_def)
  have sel: "fs_path (pf ops ls) = ''f''" "pf_recovered (pf ops ls) = False" for ops ls
    by (simp_all add: pf_def file_state.defs prepared_file.defs)
  define w1 where "w1 = example_world\<lparr>ew_clipboard := commit_pending_cuts [] (en_session example_env) (ew_clipboard example_world)\<rparr>"
  have "fst (write_files example_env [pf [example_parsed] [''a'', ''x''], pf [] [''a'', ''b'']] [] w1)"
    by (simp add: case_prod_unfold Let_def example_env_def)
  then obtain q w2 where w2: "write_files example_env [pf [example_parsed] [''a'', ''x''], pf [] [''a'', ''b'']] [] w1 = (True, q, w2)"
    by (cases "write_files example_env [pf [example_parsed] [''a'', ''x''], pf [] [''a'', ''b'']] [] w1") auto
  have go: "find (\<lambda>t. en_plan_blocks example_env (fst t)) ?ts = None" "en_session example_env \<noteq> []"
    "check_preflight_limits example_env (map fst ?ts)"
    unfolding ts by (simp_all add: example_env_def check_preflight_limits_def)
  have "apply_file_operations example_env [(''f'', [example_op]), (''f'', [])] example_world =
      Some (AllApplied [(''f'', False), (''f'', False)],
        w2\<lparr>ew_clipboard := clear_anonymous (en_session example_env) (ew_clipboard w2)\<rparr>)"
    by (simp only: apply_files_run [OF go] loaded resolved prepared w2 [unfolded w1_def] sel sum.case prod.case option.case
        Let_def if_True list.map)
  then obtain w' where w': "apply_file_operations example_env [(''f'', [example_op]), (''f'', [])] example_world =
      Some (AllApplied [(''f'', False), (''f'', False)], w')" by blast
  have "old_of example_world ''f'' = ''a'' @ [newline] @ ''b''" "crlf_of example_world ''f'' = False"
    by (simp_all add: old_of_def crlf_of_def example_world_def example_file_content [simplified])
  moreover have "surviving_lines [''a'', ''b''] [] = [''a'', ''b'']" by code_simp
  ultimately show ?thesis
    using second_entry_overwrites [OF w'] w' by (auto simp: lines_of_def example_file_content [simplified] disk_content_def)
qed

section \<open>Cut and paste\<close>

lemma mark_cuts_nth:
  "mark_cuts i ops lines = Inr marked \<Longrightarrow> length marked = length ops \<and>
   (\<forall>k < length ops. po_operation (ops ! k) \<noteq> ''cut'' \<longrightarrow> marked ! k = ops ! k)"
proof (induction i ops lines arbitrary: marked rule: mark_cuts.induct)
  case (2 i op ops lines)
  then show ?case
    by (auto simp: map_sum_def nth_Cons' split: if_splits sum.splits)
qed simp

lemma resolve_pastes_nth:
  "resolve_pending_pastes i ops pending cb session = Inr resolved \<Longrightarrow> k < length ops \<Longrightarrow>
   po_operation (ops ! k) = ''paste'' \<Longrightarrow> po_content (ops ! k) = [] \<Longrightarrow>
   register_lines pending cb session (po_register (ops ! k)) = Some (po_content (resolved ! k))"
proof (induction i ops pending cb session arbitrary: resolved k rule: resolve_pending_pastes.induct)
  case (2 i op ops pending cb session)
  show ?case
  proof (cases "po_operation op \<noteq> ''paste'' \<or> po_content op \<noteq> []")
    case True
    with 2(1) 2(3-) show ?thesis by (cases k) (auto simp: map_sum_def split: sum.splits)
  next
    case False
    with 2(3) obtain ls ps where "register_lines pending cb session (po_register op) = Some ls" "ls \<noteq> []"
      "resolve_pending_pastes (i + 1) ops pending cb session = Inr ps" "resolved = op\<lparr>po_content := ls\<rparr> # ps"
      by (auto simp: map_sum_def split: sum.splits option.splits if_splits)
    with False 2(2) 2(4-) show ?thesis by (cases k) auto
  qed
qed simp

text \<open>
  A paste takes the lines of the last cut of its register in the batch, also when that cut
  comes after it: of two cuts to one register, no paste of the batch gets the first.
\<close>

theorem paste_takes_last_cut:
  assumes "mark_cuts 1 ops lines = Inr marked"
    "resolve_pending_pastes 1 marked (collect_pending_cuts ops lines) cb session = Inr resolved"
    "k < length ops" "po_operation (ops ! k) = ''paste''" "po_content (ops ! k) = []"
    "filter (\<lambda>pc. pc_register pc = po_register (ops ! k)) (collect_pending_cuts ops lines) = older @ [newest]"
  shows "po_content (resolved ! k) = pc_lines newest"
proof -
  have m: "length marked = length ops" "marked ! k = ops ! k" using mark_cuts_nth [OF assms(1)] assms(3,4) by auto
  have "register_lines (collect_pending_cuts ops lines) cb session (po_register (ops ! k)) = Some (pc_lines newest)"
    using assms(6) by (cases older) (simp_all add: register_lines_def)
  with resolve_pastes_nth [OF assms(2), of k] m assms(3-5) show ?thesis by simp
qed

lemma paste_takes_last_cut_witness:
  "\<exists>resolved. resolve_pending_pastes 1
      [no_operation\<lparr>po_operation := ''replace_range'', po_start := \<lparr>hr_line = 1, hr_hash = []\<rparr>, po_end := \<lparr>hr_line = 1, hr_hash = []\<rparr>\<rparr>,
       no_operation\<lparr>po_operation := ''paste'', po_line := \<lparr>hr_line = 3, hr_hash = []\<rparr>\<rparr>,
       no_operation\<lparr>po_operation := ''replace_range'', po_start := \<lparr>hr_line = 2, hr_hash = []\<rparr>, po_end := \<lparr>hr_line = 2, hr_hash = []\<rparr>\<rparr>]
      [\<lparr>pc_register = [], pc_lines = [''a'']\<rparr>, \<lparr>pc_register = [], pc_lines = [''b'']\<rparr>] new_clipboard ''s'' = Inr resolved \<and>
     po_content (resolved ! 1) = [''b'']"
proof -
  let ?cut = "\<lambda>k. no_operation\<lparr>po_operation := ''cut'', po_start := \<lparr>hr_line = k, hr_hash = []\<rparr>, po_end := \<lparr>hr_line = k, hr_hash = []\<rparr>\<rparr>"
  let ?del = "\<lambda>k. no_operation\<lparr>po_operation := ''replace_range'', po_start := \<lparr>hr_line = k, hr_hash = []\<rparr>, po_end := \<lparr>hr_line = k, hr_hash = []\<rparr>\<rparr>"
  let ?paste = "no_operation\<lparr>po_operation := ''paste'', po_line := \<lparr>hr_line = 3, hr_hash = []\<rparr>\<rparr>"
  let ?pending = "[\<lparr>pc_register = [], pc_lines = [''a'']\<rparr>, \<lparr>pc_register = [], pc_lines = [''b'']\<rparr>]"
  have m: "mark_cuts 1 [?cut 1, ?paste, ?cut 2] [''a'', ''b'', ''c''] = Inr [?del 1, ?paste, ?del 2]"
    by (simp add: no_operation_def no_ref_def)
  have c: "collect_pending_cuts [?cut 1, ?paste, ?cut 2] [''a'', ''b'', ''c''] = ?pending" by code_simp
  obtain resolved where r: "resolve_pending_pastes 1 [?del 1, ?paste, ?del 2] ?pending new_clipboard ''s'' = Inr resolved"
    by (simp add: no_operation_def register_lines_def)
  have "po_content (resolved ! 1) = pc_lines \<lparr>pc_register = [], pc_lines = [''b'']\<rparr>"
    by (rule paste_takes_last_cut [OF m, unfolded c, OF r, where older = "[\<lparr>pc_register = [], pc_lines = [''a'']\<rparr>]"])
      (simp_all add: no_operation_def)
  with r show ?thesis by simp
qed

section \<open>The file cache\<close>

lemma try_snapshots_from:
  "try_snapshots h snaps ours ops err = Some (Inr ls) \<Longrightarrow>
   (\<exists>base \<in> set snaps. recover_from_snapshot h base ours ops = Some (Inr ls)) \<or> snaps = [] \<and> err = None"
proof (induction snaps arbitrary: err)
  case (Cons base snaps)
  then show ?case by (auto split: option.splits sum.splits)
qed (auto split: option.splits)

text \<open>
  Whatever operations the cache has gone through, the last snapshot of a file is what is
  cached of it, there are at most four, and a recovery that succeeds has carried the batch over
  from one of them.
\<close>

theorem recovery_uses_a_snapshot:
  assumes "c = fold run_cache cache_ops new_file_cache"
  shows "get_cache c session path = map_option last (get_history c session path) \<and>
    (\<forall>snaps. get_history c session path = Some snaps \<longrightarrow> length snaps \<le> 4) \<and>
    (\<forall>ls. try_recover h (get_history c session path) ours ops = Some (Inr ls) \<longrightarrow>
      (\<exists>snaps base. get_history c session path = Some snaps \<and> base \<in> set snaps \<and>
         recover_from_snapshot h base ours ops = Some (Inr ls)))"
proof -
  have ok: "cache_ok c" unfolding assms by (rule run_cache_ok [OF new_cache_ok])
  have "\<exists>snaps base. get_history c session path = Some snaps \<and> base \<in> set snaps \<and>
      recover_from_snapshot h base ours ops = Some (Inr ls)"
    if r: "try_recover h (get_history c session path) ours ops = Some (Inr ls)" for ls
  proof (cases "get_history c session path")
    case None
    with r show ?thesis by (simp add: try_recover_def)
  next
    case (Some snaps)
    with cache_history(2) [OF ok] have "snaps \<noteq> []" by blast
    moreover have "try_snapshots h (rev snaps) ours ops None = Some (Inr ls)" using r Some by (simp add: try_recover_def)
    ultimately show ?thesis using try_snapshots_from [of h "rev snaps" ours ops None ls] Some by auto
  qed
  with cache_history [OF ok, of session path] show ?thesis by blast
qed

lemma recovery_uses_a_snapshot_witness:
  "\<exists>snaps base. get_history (fold run_cache [CachePut ''s'' ''f'' [''a'', ''b'']] new_file_cache) ''s'' ''f'' = Some snaps \<and>
     base \<in> set snaps \<and> recover_from_snapshot zero_hash base [''n'', ''a'', ''b''] [example_op] = Some (Inr [''n'', ''a'', ''x''])"
proof -
  let ?c = "fold run_cache [CachePut ''s'' ''f'' [''a'', ''b'']] new_file_cache"
  have "get_history ?c ''s'' ''f'' = Some [[''a'', ''b'']]"
    by (simp add: get_history_def put_cache_def put_in_session_def push_snapshot_def evict_oldest_def session_of_def
        new_file_cache_def Let_def)
  then have "try_recover zero_hash (get_history ?c ''s'' ''f'') [''n'', ''a'', ''b''] [example_op] = Some (Inr [''n'', ''a'', ''x''])"
    using example_recovery by (simp add: try_recover_def)
  with recovery_uses_a_snapshot [OF refl, of "[CachePut ''s'' ''f'' [''a'', ''b'']]" "''s''" "''f''" zero_hash
      "[''n'', ''a'', ''b'']" "[example_op]"]
  show ?thesis by blast
qed

end
