(* ===== verification/Go_Runes.thy ===== *)
theory Go_Runes
  imports Prelude
begin

text \<open>
  Strings read rune by rune: Go's conversions \<^verbatim>\<open>[]rune(s)\<close> and \<^verbatim>\<open>string(r)\<close> and the range
  loop over a string. A rune is kept as the bytes of its encoding, so that
  \<^verbatim>\<open>string(r)\<close> is \<open>concat\<close>; a byte that starts no valid encoding reads as U+FFFD, as in Go.
\<close>

function runes :: "string \<Rightarrow> string list" where
  "runes [] = []"
| "runes (c # cs) =
     (let w = rune_width (c # cs) in
      if w = 0 then replacement_char # runes cs
      else take w (c # cs) # runes (drop w (c # cs)))"
  by pat_completeness auto
termination
  by (relation "measure length") auto

declare runes.simps(2) [simp del]

text \<open>\<^verbatim>\<open>len([]rune(s))\<close>.\<close>

definition rune_count :: "string \<Rightarrow> nat" where
  "rune_count s = length (runes s)"

text \<open>A valid encoding of one rune.\<close>

definition is_rune :: "string \<Rightarrow> bool" where
  "is_rune r \<longleftrightarrow> r \<noteq> [] \<and> rune_width r = length r"

section \<open>Encodings\<close>

lemma rune_width_bounds: "rune_width s \<le> 4" "rune_width s \<le> length s"
  by (cases s; simp add: rune_width.simps Let_def split: list.splits if_splits)+

lemma rune_width_take_eq:
  "rune_width s = w \<Longrightarrow> w \<noteq> 0 \<Longrightarrow> rune_width (take w s @ t) = w"
proof (induction s rule: rune_width.induct)
  case (2 a r)
  consider "r = []" | b where "r = [b]" | b c where "r = [b, c]" | b c d u where "r = b # c # d # u"
    by (metis neq_Nil_conv)
  then show ?case
    by cases (use 2 in \<open>auto simp: rune_width.simps Let_def split: if_split_asm\<close>)
qed simp

lemma rune_width_take:
  "rune_width s \<noteq> 0 \<Longrightarrow> rune_width (take (rune_width s) s @ t) = rune_width s"
  by (rule rune_width_take_eq [OF refl])

lemma rune_width_append [simp]: "is_rune r \<Longrightarrow> rune_width (r @ t) = length r"
  using rune_width_take [of r t] by (auto simp: is_rune_def)

lemma is_rune_take: "rune_width s \<noteq> 0 \<Longrightarrow> is_rune (take (rune_width s) s)"
  using rune_width_take [of s "[]"] rune_width_bounds(2) [of s]
  by (cases s) (auto simp: is_rune_def min_def)

lemma is_rune_ascii [simp]: "byte_val c < 128 \<Longrightarrow> is_rune [c]"
  by (simp add: is_rune_def rune_width.simps)

lemma is_rune_replacement [simp]: "is_rune replacement_char"
  by (simp add: is_rune_def replacement_char_def rune_width.simps in_range_def byte_val_def)

lemma is_rune_nonempty: "is_rune r \<Longrightarrow> r \<noteq> []"
  by (simp add: is_rune_def)

section \<open>Reading and writing back\<close>

lemma runes_are_runes: "r \<in> set (runes s) \<Longrightarrow> is_rune r"
proof (induction s rule: runes.induct)
  case (2 c cs)
  let ?w = "rune_width (c # cs)"
  show ?case
  proof (cases "?w = 0")
    case True
    then show ?thesis using 2 by (auto simp: runes.simps Let_def)
  next
    case False
    then show ?thesis
      using 2 is_rune_take [OF False] by (auto simp: runes.simps Let_def)
  qed
qed simp

lemma runes_rune_append [simp]: "is_rune r \<Longrightarrow> runes (r @ t) = r # runes t"
proof -
  assume r: "is_rune r"
  then obtain c cs where "r = c # cs" by (cases r) (auto simp: is_rune_def)
  then show ?thesis
    using r rune_width_append [OF r, of t] by (simp add: runes.simps(2) Let_def)
qed

lemma runes_concat_append:
  "(\<And>r. r \<in> set rs \<Longrightarrow> is_rune r) \<Longrightarrow> runes (concat rs @ t) = rs @ runes t"
  by (induction rs) auto

lemma runes_concat: "(\<And>r. r \<in> set rs \<Longrightarrow> is_rune r) \<Longrightarrow> runes (concat rs) = rs"
  using runes_concat_append [of rs "[]"] by simp

lemma runes_take_append: "runes (concat (take n (runes s)) @ t) = take n (runes s) @ runes t"
  by (rule runes_concat_append) (auto dest: in_set_takeD runes_are_runes)

lemma runes_drop_append: "runes (concat (drop n (runes s)) @ t) = drop n (runes s) @ runes t"
  by (rule runes_concat_append) (auto dest: in_set_dropD runes_are_runes)

lemma runes_idem: "runes (concat (runes s)) = runes s"
  by (rule runes_concat) (rule runes_are_runes)

lemma rune_count_take_append:
  "rune_count (concat (take n (runes s)) @ t) = min n (rune_count s) + rune_count t"
  by (simp add: rune_count_def runes_take_append min.commute)

lemma rune_count_drop_append:
  "rune_count (concat (drop n (runes s)) @ t) = rune_count s - n + rune_count t"
  by (simp add: rune_count_def runes_drop_append)

lemma rune_count_take:
  "rune_count (concat (take n (runes s))) = min n (rune_count s)"
  using rune_count_take_append [of n s "[]"] by (simp add: rune_count_def)

section \<open>ASCII text\<close>

definition ascii :: "string \<Rightarrow> bool" where
  "ascii s \<longleftrightarrow> (\<forall>c \<in> set s. byte_val c < 128)"

lemma ascii_simps [simp]:
  "ascii []" "ascii (c # s) \<longleftrightarrow> byte_val c < 128 \<and> ascii s" "ascii (s @ t) \<longleftrightarrow> ascii s \<and> ascii t"
  by (auto simp: ascii_def)

lemma runes_ascii_append: "ascii s \<Longrightarrow> runes (s @ t) = map (\<lambda>c. [c]) s @ runes t"
proof (induction s)
  case (Cons c s)
  then show ?case using runes_rune_append [of "[c]" "s @ t"] by simp
qed simp

lemma rune_count_ascii_append: "ascii s \<Longrightarrow> rune_count (s @ t) = length s + rune_count t"
  by (simp add: rune_count_def runes_ascii_append)

lemma rune_count_Nil [simp]: "rune_count [] = 0"
  by (simp add: rune_count_def)

lemma rune_count_pos: "s \<noteq> [] \<Longrightarrow> 0 < rune_count s"
  by (cases s) (auto simp: rune_count_def runes.simps(2) Let_def)

lemma rune_count_ascii: "ascii s \<Longrightarrow> rune_count s = length s"
  using rune_count_ascii_append [of s "[]"] by simp

lemma rune_count_le_length: "rune_count s \<le> length s"
proof (induction s rule: runes.induct)
  case (2 c cs)
  show ?case
  proof (cases "rune_width (c # cs) = 0")
    case True
    then show ?thesis using 2(1) by (simp add: rune_count_def runes.simps(2) Let_def)
  next
    case False
    then show ?thesis
      using 2(2) rune_width_bounds(2) [of "c # cs"]
      by (simp add: rune_count_def runes.simps(2) Let_def)
  qed
qed simp

lemma ascii_show_nat [simp]: "ascii (show_nat n)"
  by (induction n rule: show_nat.induct) (subst show_nat.simps, auto simp: byte_val_def)

end
