(* ===== verification/Conversation.thy ===== *)
theory Conversation
  imports Go_Runes
begin

text \<open>
  Messages of a conversation, after internal/message/content.go: the parts of a message,
  its accessors and every operation by which the run loop builds a message while the model
  streams it. A message is a record; an operation of \<^verbatim>\<open>*Message\<close> maps the record to its
  successor. \<open>now\<close> is what \<^verbatim>\<open>time.Now().Unix()\<close> returns.

  Of the decoded metadata of a tool result only the review of automatic mode is kept; the
  four other decoded fields (subtask, subagent, yield, reducer) travel with the record and
  no operation here reads them.
\<close>

named_theorems message_simps "equations of the message operations"

section \<open>Parts and messages\<close>

datatype role = Assistant | User | System | Tool | OtherRole string

datatype finish_reason =
    FinishReasonEndTurn | FinishReasonMaxTokens | FinishReasonToolUse | FinishReasonCanceled
  | FinishReasonError | FinishReasonPermissionDenied | FinishReasonBudgetExceeded
  | FinishReasonUnknown | NoFinishReason | OtherFinishReason string

record responses_data =
  rd_item_id :: string
  rd_encrypted :: "string option"
  rd_summary :: "string list"

record reasoning_content =
  rs_thinking :: string
  rs_signature :: string
  rs_thought_signature :: string
  rs_tool_id :: string
  rs_responses :: "responses_data option"
  rs_started :: int
  rs_finished :: int

record binary_content =
  bin_path :: string
  bin_mime :: string
  bin_data :: bytes

record call_part =
  tcl_id :: string
  tcl_name :: string
  tcl_input :: string
  tcl_provider_executed :: bool
  tcl_finished :: bool

record result_review =
  rv_suspicious :: bool
  rv_reason :: string
  rv_confidence :: string
  rv_sanitized :: bool
  rv_detector_failed :: bool

record result_part =
  trs_call_id :: string
  trs_name :: string
  trs_content :: string
  trs_data :: string
  trs_mime :: string
  trs_metadata :: string
  trs_error :: bool
  trs_review :: result_review

record finish_part =
  fin_reason :: finish_reason
  fin_time :: int
  fin_message :: string
  fin_details :: string

datatype content_part =
    PReasoning reasoning_content
  | PText string
  | PImage string string
  | PBinary binary_content
  | PCall call_part
  | PResult result_part
  | PFinish finish_part

record usage_counts =
  u_input :: int
  u_output :: int
  u_reasoning :: int
  u_cache_read :: int
  u_cache_write :: int

record message =
  msg_id :: string
  msg_role :: role
  msg_session :: string
  msg_parts :: "content_part list"
  msg_usage :: usage_counts
  msg_model :: string
  msg_provider :: string
  msg_created :: int
  msg_updated :: int
  msg_summary :: bool
  msg_deferred :: "string list"

text \<open>The zero values of the structs.\<close>

definition no_reasoning :: reasoning_content where
  "no_reasoning = \<lparr>rs_thinking = [], rs_signature = [], rs_thought_signature = [], rs_tool_id = [],
     rs_responses = None, rs_started = 0, rs_finished = 0\<rparr>"

definition no_review :: result_review where
  "no_review = \<lparr>rv_suspicious = False, rv_reason = [], rv_confidence = [], rv_sanitized = False,
     rv_detector_failed = False\<rparr>"

definition no_usage :: usage_counts where
  "no_usage = \<lparr>u_input = 0, u_output = 0, u_reasoning = 0, u_cache_read = 0, u_cache_write = 0\<rparr>"

definition prompt_tokens :: "usage_counts \<Rightarrow> int" where
  "prompt_tokens u = u_input u + u_cache_read u + u_cache_write u"

definition completion_tokens :: "usage_counts \<Rightarrow> int" where
  "completion_tokens u = u_output u + u_reasoning u"

definition total_tokens :: "usage_counts \<Rightarrow> int" where
  "total_tokens u = prompt_tokens u + completion_tokens u"

section \<open>Accessors\<close>

fun part_text :: "content_part \<Rightarrow> string option" where
  "part_text (PText t) = Some t"
| "part_text _ = None"

fun part_reasoning :: "content_part \<Rightarrow> reasoning_content option" where
  "part_reasoning (PReasoning r) = Some r"
| "part_reasoning _ = None"

fun part_binary :: "content_part \<Rightarrow> binary_content option" where
  "part_binary (PBinary b) = Some b"
| "part_binary _ = None"

fun part_call :: "content_part \<Rightarrow> call_part option" where
  "part_call (PCall c) = Some c"
| "part_call _ = None"

fun part_result :: "content_part \<Rightarrow> result_part option" where
  "part_result (PResult r) = Some r"
| "part_result _ = None"

fun part_finish :: "content_part \<Rightarrow> finish_part option" where
  "part_finish (PFinish f) = Some f"
| "part_finish _ = None"

fun part_image :: "content_part \<Rightarrow> (string \<times> string) option" where
  "part_image (PImage u d) = Some (u, d)"
| "part_image _ = None"

text \<open>The first part of a type, and all the parts of a type, in order.\<close>

fun first_part :: "(content_part \<Rightarrow> 'a option) \<Rightarrow> content_part list \<Rightarrow> 'a option" where
  "first_part sel [] = None"
| "first_part sel (p # ps) = (case sel p of Some x \<Rightarrow> Some x | None \<Rightarrow> first_part sel ps)"

definition content_text :: "message \<Rightarrow> string" where
  "content_text m = (case first_part part_text (msg_parts m) of Some t \<Rightarrow> t | None \<Rightarrow> [])"

definition reasoning_of :: "message \<Rightarrow> reasoning_content" where
  "reasoning_of m =
     (case first_part part_reasoning (msg_parts m) of Some r \<Rightarrow> r | None \<Rightarrow> no_reasoning)"

definition image_urls :: "message \<Rightarrow> (string \<times> string) list" where
  "image_urls m = List.map_filter part_image (msg_parts m)"

definition binary_contents :: "message \<Rightarrow> binary_content list" where
  "binary_contents m = List.map_filter part_binary (msg_parts m)"

definition tool_calls :: "message \<Rightarrow> call_part list" where
  "tool_calls m = List.map_filter part_call (msg_parts m)"

definition tool_results :: "message \<Rightarrow> result_part list" where
  "tool_results m = List.map_filter part_result (msg_parts m)"

definition is_finished :: "message \<Rightarrow> bool" where
  "is_finished m \<longleftrightarrow> first_part part_finish (msg_parts m) \<noteq> None"

definition finish_of :: "message \<Rightarrow> finish_part option" where
  "finish_of m = first_part part_finish (msg_parts m)"

definition finish_reason_of :: "message \<Rightarrow> finish_reason" where
  "finish_reason_of m = (case finish_of m of Some f \<Rightarrow> fin_reason f | None \<Rightarrow> NoFinishReason)"

definition is_thinking :: "message \<Rightarrow> bool" where
  "is_thinking m \<longleftrightarrow> rs_thinking (reasoning_of m) \<noteq> [] \<and> content_text m = [] \<and>
     tool_calls m = [] \<and> \<not> is_finished m"

text \<open>In seconds; the code multiplies by time.Second.\<close>

definition thinking_duration :: "int \<Rightarrow> message \<Rightarrow> int" where
  "thinking_duration now m =
     (let r = reasoning_of m; end_time = (if rs_finished r = 0 then now else rs_finished r)
      in if rs_started r = 0 then 0 else end_time - rs_started r)"

section \<open>Building a message\<close>

text \<open>
  The loop \<^verbatim>\<open>for i, part := range m.Parts { if ... { m.Parts[i] = ...; return } }\<close>: the first
  part the body matches is replaced; None when no part matches and the loop falls through.
\<close>

fun update_first :: "('a \<Rightarrow> 'a option) \<Rightarrow> 'a list \<Rightarrow> 'a list option" where
  "update_first f [] = None"
| "update_first f (p # ps) =
     (case f p of Some q \<Rightarrow> Some (q # ps)
      | None \<Rightarrow> (case update_first f ps of Some qs \<Rightarrow> Some (p # qs) | None \<Rightarrow> None))"

text \<open>\<^verbatim>\<open>slices.Delete(m.Parts, i, i+1)\<close> at the first matching part.\<close>

fun delete_first :: "('a \<Rightarrow> bool) \<Rightarrow> 'a list \<Rightarrow> 'a list option" where
  "delete_first P [] = None"
| "delete_first P (p # ps) =
     (if P p then Some ps
      else (case delete_first P ps of Some qs \<Rightarrow> Some (p # qs) | None \<Rightarrow> None))"

fun on_text :: "(string \<Rightarrow> string) \<Rightarrow> content_part \<Rightarrow> content_part option" where
  "on_text f (PText t) = Some (PText (f t))"
| "on_text f _ = None"

fun on_reasoning :: "(reasoning_content \<Rightarrow> reasoning_content) \<Rightarrow> content_part \<Rightarrow> content_part option" where
  "on_reasoning f (PReasoning r) = Some (PReasoning (f r))"
| "on_reasoning f _ = None"

fun on_call :: "string \<Rightarrow> (call_part \<Rightarrow> call_part) \<Rightarrow> content_part \<Rightarrow> content_part option" where
  "on_call i f (PCall c) = (if tcl_id c = i then Some (PCall (f c)) else None)"
| "on_call i f _ = None"

definition append_content :: "string \<Rightarrow> message \<Rightarrow> message" where
  "append_content delta m = m\<lparr>msg_parts :=
     (case update_first (on_text (\<lambda>t. t @ delta)) (msg_parts m) of
        Some ps \<Rightarrow> ps
      | None \<Rightarrow> msg_parts m @ [PText delta])\<rparr>"

definition set_content :: "string \<Rightarrow> message \<Rightarrow> message" where
  "set_content text m = m\<lparr>msg_parts :=
     (if text = [] then
        (case delete_first (\<lambda>p. part_text p \<noteq> None) (msg_parts m) of
           Some ps \<Rightarrow> ps | None \<Rightarrow> msg_parts m)
      else
        (case update_first (on_text (\<lambda>_. text)) (msg_parts m) of
           Some ps \<Rightarrow> ps
         | None \<Rightarrow> msg_parts m @ [PText text]))\<rparr>"

text \<open>The loop of AppendReasoningContent has no return: it extends every reasoning part.\<close>

definition append_reasoning_content :: "int \<Rightarrow> string \<Rightarrow> message \<Rightarrow> message" where
  "append_reasoning_content now delta m =
     (let extend = on_reasoning (\<lambda>r. r\<lparr>rs_thinking := rs_thinking r @ delta\<rparr>);
          found = (\<exists>p \<in> set (msg_parts m). part_reasoning p \<noteq> None);
          ps = map (\<lambda>p. case extend p of Some q \<Rightarrow> q | None \<Rightarrow> p) (msg_parts m)
      in m\<lparr>msg_parts :=
           (if found then ps
            else ps @ [PReasoning (no_reasoning\<lparr>rs_thinking := delta, rs_started := now\<rparr>)])\<rparr>)"

definition set_reasoning_thinking :: "int \<Rightarrow> string \<Rightarrow> message \<Rightarrow> message" where
  "set_reasoning_thinking now thinking m = m\<lparr>msg_parts :=
     (case update_first (on_reasoning (\<lambda>r. r\<lparr>rs_thinking := thinking\<rparr>)) (msg_parts m) of
        Some ps \<Rightarrow> ps
      | None \<Rightarrow>
          if thinking \<noteq> []
          then msg_parts m @ [PReasoning (no_reasoning\<lparr>rs_thinking := thinking, rs_started := now\<rparr>)]
          else msg_parts m)\<rparr>"

text \<open>
  The two signature operations rebuild the part without its ResponsesData field, so the
  zero value nil replaces it; the part that AppendThoughtSignature creates has no ToolID.
\<close>

definition append_thought_signature :: "string \<Rightarrow> string \<Rightarrow> message \<Rightarrow> message" where
  "append_thought_signature signature tool_call_id m = m\<lparr>msg_parts :=
     (case update_first (on_reasoning (\<lambda>r. r\<lparr>rs_thought_signature := rs_thought_signature r @ signature,
          rs_tool_id := tool_call_id, rs_responses := None\<rparr>)) (msg_parts m) of
        Some ps \<Rightarrow> ps
      | None \<Rightarrow> msg_parts m @ [PReasoning (no_reasoning\<lparr>rs_thought_signature := signature\<rparr>)])\<rparr>"

definition append_reasoning_signature :: "string \<Rightarrow> message \<Rightarrow> message" where
  "append_reasoning_signature signature m = m\<lparr>msg_parts :=
     (case update_first (on_reasoning (\<lambda>r. r\<lparr>rs_signature := rs_signature r @ signature,
          rs_responses := None\<rparr>)) (msg_parts m) of
        Some ps \<Rightarrow> ps
      | None \<Rightarrow> msg_parts m @ [PReasoning (no_reasoning\<lparr>rs_signature := signature\<rparr>)])\<rparr>"

definition set_responses_data :: "responses_data option \<Rightarrow> message \<Rightarrow> message" where
  "set_responses_data d m = m\<lparr>msg_parts :=
     (case update_first (on_reasoning (\<lambda>r. r\<lparr>rs_responses := d\<rparr>)) (msg_parts m) of
        Some ps \<Rightarrow> ps | None \<Rightarrow> msg_parts m)\<rparr>"

definition finish_thinking :: "int \<Rightarrow> message \<Rightarrow> message" where
  "finish_thinking now m = m\<lparr>msg_parts :=
     (case update_first
         (on_reasoning (\<lambda>r. if rs_finished r = 0 then r\<lparr>rs_finished := now\<rparr> else r)) (msg_parts m) of
        Some ps \<Rightarrow> ps | None \<Rightarrow> msg_parts m)\<rparr>"

definition strip_reasoning_parts :: "message \<Rightarrow> message" where
  "strip_reasoning_parts m =
     m\<lparr>msg_parts := filter (\<lambda>p. part_reasoning p = None) (msg_parts m)\<rparr>"

text \<open>FinishToolCall and AppendToolCallInput rebuild the call without ProviderExecuted.\<close>

definition finish_tool_call :: "string \<Rightarrow> message \<Rightarrow> message" where
  "finish_tool_call i m = m\<lparr>msg_parts :=
     (case update_first (on_call i (\<lambda>c. c\<lparr>tcl_provider_executed := False, tcl_finished := True\<rparr>))
         (msg_parts m) of
        Some ps \<Rightarrow> ps | None \<Rightarrow> msg_parts m)\<rparr>"

definition append_tool_call_input :: "string \<Rightarrow> string \<Rightarrow> message \<Rightarrow> message" where
  "append_tool_call_input i delta m = m\<lparr>msg_parts :=
     (case update_first (on_call i (\<lambda>c. c\<lparr>tcl_input := tcl_input c @ delta,
          tcl_provider_executed := False\<rparr>)) (msg_parts m) of
        Some ps \<Rightarrow> ps | None \<Rightarrow> msg_parts m)\<rparr>"

definition add_tool_call :: "call_part \<Rightarrow> message \<Rightarrow> message" where
  "add_tool_call tc m = m\<lparr>msg_parts :=
     (case update_first (on_call (tcl_id tc) (\<lambda>_. tc)) (msg_parts m) of
        Some ps \<Rightarrow> ps | None \<Rightarrow> msg_parts m @ [PCall tc])\<rparr>"

definition set_tool_calls :: "call_part list \<Rightarrow> message \<Rightarrow> message" where
  "set_tool_calls tcs m =
     m\<lparr>msg_parts := filter (\<lambda>p. part_call p = None) (msg_parts m) @ map PCall tcs\<rparr>"

definition add_tool_result :: "result_part \<Rightarrow> message \<Rightarrow> message" where
  "add_tool_result tr m = m\<lparr>msg_parts := msg_parts m @ [PResult tr]\<rparr>"

definition set_tool_results :: "result_part list \<Rightarrow> message \<Rightarrow> message" where
  "set_tool_results trs m = m\<lparr>msg_parts := msg_parts m @ map PResult trs\<rparr>"

definition add_finish :: "int \<Rightarrow> finish_reason \<Rightarrow> string \<Rightarrow> string \<Rightarrow> message \<Rightarrow> message" where
  "add_finish now reason text details m =
     (let ps = (case delete_first (\<lambda>p. part_finish p \<noteq> None) (msg_parts m) of
                  Some ps \<Rightarrow> ps | None \<Rightarrow> msg_parts m)
      in m\<lparr>msg_parts := ps @ [PFinish \<lparr>fin_reason = reason, fin_time = now,
             fin_message = text, fin_details = details\<rparr>]\<rparr>)"

definition add_image_url :: "string \<Rightarrow> string \<Rightarrow> message \<Rightarrow> message" where
  "add_image_url url detail m = m\<lparr>msg_parts := msg_parts m @ [PImage url detail]\<rparr>"

definition add_binary :: "string \<Rightarrow> bytes \<Rightarrow> message \<Rightarrow> message" where
  "add_binary mime d m =
     m\<lparr>msg_parts := msg_parts m @ [PBinary \<lparr>bin_path = [], bin_mime = mime, bin_data = d\<rparr>]\<rparr>"

definition set_usage :: "usage_counts \<Rightarrow> message \<Rightarrow> message" where
  "set_usage u m = m\<lparr>msg_usage := u\<rparr>"

section \<open>Filters for models without vision\<close>

definition non_text_part :: "content_part \<Rightarrow> bool" where
  "non_text_part p \<longleftrightarrow> part_image p \<noteq> None \<or> part_binary p \<noteq> None"

definition filter_non_text_content :: "message list \<Rightarrow> message list" where
  "filter_non_text_content ms =
     map (\<lambda>m. m\<lparr>msg_parts := filter (\<lambda>p. \<not> non_text_part p) (msg_parts m)\<rparr>) ms"

definition count_non_text_content :: "message list \<Rightarrow> nat" where
  "count_non_text_content ms =
     sum_list (map (\<lambda>m. length (filter non_text_part (msg_parts m))) ms)"

end
