(* ===== verification/Message_Stream.thy ===== *)
theory Message_Stream
  imports Conversation
begin

text \<open>
  What the streaming operations of \<open>Conversation\<close> promise together. The abstract view of a
  message keeps its text, its reasoning, its tool calls by id, its finish and the parts that
  carry data; each operation is an update of that view alone. A message is well-formed when
  it has at most one text, reasoning and finish part and its calls have distinct ids.
\<close>

section \<open>Well-formed messages and their view\<close>

abbreviation parts_of :: "(content_part \<Rightarrow> 'a option) \<Rightarrow> message \<Rightarrow> 'a list" where
  "parts_of sel m \<equiv> List.map_filter sel (msg_parts m)"

definition msg_wf :: "message \<Rightarrow> bool" where
  "msg_wf m \<longleftrightarrow> length (parts_of part_text m) \<le> 1 \<and> length (parts_of part_reasoning m) \<le> 1 \<and>
     length (parts_of part_finish m) \<le> 1 \<and> distinct (map tcl_id (tool_calls m))"

fun data_part :: "content_part \<Rightarrow> content_part option" where
  "data_part (PImage u d) = Some (PImage u d)"
| "data_part (PBinary b) = Some (PBinary b)"
| "data_part (PResult r) = Some (PResult r)"
| "data_part _ = None"

record message_view =
  vm_text :: string
  vm_reasoning :: "(string \<times> string \<times> string) option"
  vm_calls :: "(string \<times> string \<times> string \<times> bool) list"
  vm_finish :: "(finish_reason \<times> string \<times> string) option"
  vm_data :: "content_part list"

definition view_call :: "call_part \<Rightarrow> string \<times> string \<times> string \<times> bool" where
  "view_call c = (tcl_id c, tcl_name c, tcl_input c, tcl_finished c)"

definition view_reasoning :: "reasoning_content \<Rightarrow> string \<times> string \<times> string" where
  "view_reasoning r = (rs_thinking r, rs_signature r, rs_thought_signature r)"

definition view_finish :: "finish_part \<Rightarrow> finish_reason \<times> string \<times> string" where
  "view_finish f = (fin_reason f, fin_message f, fin_details f)"

definition view_of :: "message \<Rightarrow> message_view" where
  "view_of m = \<lparr>vm_text = content_text m,
     vm_reasoning = map_option view_reasoning (first_part part_reasoning (msg_parts m)),
     vm_calls = map view_call (tool_calls m),
     vm_finish = map_option view_finish (finish_of m),
     vm_data = parts_of data_part m\<rparr>"

section \<open>Operations and their abstract effect\<close>

datatype message_op =
    AppendContent string | SetContent string
  | AppendReasoning int string | SetReasoning int string
  | ThoughtSignature string string | ReasoningSignature string
  | SetResponsesData "responses_data option" | FinishThinking int | StripReasoning
  | FinishToolCall string | AppendToolCallInput string string
  | AddToolCall call_part | SetToolCalls "call_part list"
  | AddToolResult result_part | SetToolResults "result_part list"
  | AddFinish int finish_reason string string
  | AddImageURL string string | AddBinary string bytes | SetUsage usage_counts

fun run_op :: "message_op \<Rightarrow> message \<Rightarrow> message" where
  "run_op (AppendContent d) = append_content d"
| "run_op (SetContent t) = set_content t"
| "run_op (AppendReasoning n d) = append_reasoning_content n d"
| "run_op (SetReasoning n t) = set_reasoning_thinking n t"
| "run_op (ThoughtSignature s i) = append_thought_signature s i"
| "run_op (ReasoningSignature s) = append_reasoning_signature s"
| "run_op (SetResponsesData d) = set_responses_data d"
| "run_op (FinishThinking n) = finish_thinking n"
| "run_op StripReasoning = strip_reasoning_parts"
| "run_op (FinishToolCall i) = finish_tool_call i"
| "run_op (AppendToolCallInput i d) = append_tool_call_input i d"
| "run_op (AddToolCall c) = add_tool_call c"
| "run_op (SetToolCalls cs) = set_tool_calls cs"
| "run_op (AddToolResult r) = add_tool_result r"
| "run_op (SetToolResults rs) = set_tool_results rs"
| "run_op (AddFinish n r t d) = add_finish n r t d"
| "run_op (AddImageURL u d) = add_image_url u d"
| "run_op (AddBinary t d) = add_binary t d"
| "run_op (SetUsage u) = set_usage u"

definition view_thinking :: "(string \<Rightarrow> string) \<Rightarrow> (string \<times> string \<times> string) option \<Rightarrow> (string \<times> string \<times> string) option" where
  "view_thinking f v = Some (case v of Some (t, s, g) \<Rightarrow> (f t, s, g) | None \<Rightarrow> (f [], [], []))"

fun view_op :: "message_op \<Rightarrow> message_view \<Rightarrow> message_view" where
  "view_op (AppendContent d) v = v\<lparr>vm_text := vm_text v @ d\<rparr>"
| "view_op (SetContent t) v = v\<lparr>vm_text := t\<rparr>"
| "view_op (AppendReasoning n d) v = v\<lparr>vm_reasoning := view_thinking (\<lambda>t. t @ d) (vm_reasoning v)\<rparr>"
| "view_op (SetReasoning n t) v =
     (if t = [] \<and> vm_reasoning v = None then v
      else v\<lparr>vm_reasoning := view_thinking (\<lambda>_. t) (vm_reasoning v)\<rparr>)"
| "view_op (ThoughtSignature s i) v = v\<lparr>vm_reasoning :=
     Some (case vm_reasoning v of Some (t, g, h) \<Rightarrow> (t, g, h @ s) | None \<Rightarrow> ([], [], s))\<rparr>"
| "view_op (ReasoningSignature s) v = v\<lparr>vm_reasoning :=
     Some (case vm_reasoning v of Some (t, g, h) \<Rightarrow> (t, g @ s, h) | None \<Rightarrow> ([], s, []))\<rparr>"
| "view_op StripReasoning v = v\<lparr>vm_reasoning := None\<rparr>"
| "view_op (FinishToolCall i) v =
     v\<lparr>vm_calls := AList.map_entry i (\<lambda>(n, a, _). (n, a, True)) (vm_calls v)\<rparr>"
| "view_op (AppendToolCallInput i d) v =
     v\<lparr>vm_calls := AList.map_entry i (\<lambda>(n, a, f). (n, a @ d, f)) (vm_calls v)\<rparr>"
| "view_op (AddToolCall c) v =
     v\<lparr>vm_calls := AList.update (tcl_id c) (snd (view_call c)) (vm_calls v)\<rparr>"
| "view_op (SetToolCalls cs) v = v\<lparr>vm_calls := map view_call cs\<rparr>"
| "view_op (AddToolResult r) v = v\<lparr>vm_data := vm_data v @ [PResult r]\<rparr>"
| "view_op (SetToolResults rs) v = v\<lparr>vm_data := vm_data v @ map PResult rs\<rparr>"
| "view_op (AddFinish n r t d) v = v\<lparr>vm_finish := Some (r, t, d)\<rparr>"
| "view_op (AddImageURL u d) v = v\<lparr>vm_data := vm_data v @ [PImage u d]\<rparr>"
| "view_op (AddBinary t d) v =
     v\<lparr>vm_data := vm_data v @ [PBinary \<lparr>bin_path = [], bin_mime = t, bin_data = d\<rparr>]\<rparr>"
| "view_op _ v = v"

fun op_ok :: "message_op \<Rightarrow> bool" where
  "op_ok (SetToolCalls cs) = distinct (map tcl_id cs)"
| "op_ok _ = True"

section \<open>The first part of a type\<close>

lemma first_part_map_filter:
  "first_part sel ps = (case List.map_filter sel ps of [] \<Rightarrow> None | x # _ \<Rightarrow> Some x)"
  by (induction ps) (auto simp: List.map_filter_simps split: option.splits)

lemma map_filter_append [simp]:
  "List.map_filter f (xs @ ys) = List.map_filter f xs @ List.map_filter f ys"
  by (simp add: List.map_filter_def)

lemma map_filter_Cons:
  "List.map_filter f (x # xs) = (case f x of Some y \<Rightarrow> y # List.map_filter f xs | None \<Rightarrow> List.map_filter f xs)"
  by (simp add: List.map_filter_simps)

lemma map_filter_Nil [simp]: "List.map_filter f [] = []"
  by (simp add: List.map_filter_simps)

lemma map_filter_None: "(\<And>x. x \<in> set xs \<Longrightarrow> f x = None) \<Longrightarrow> List.map_filter f xs = []"
  by (induction xs) (auto simp: map_filter_Cons)

text \<open>An update loop with its fall-through: \<open>d\<close> is what the code appends when no part matches.\<close>

definition upd :: "('a \<Rightarrow> 'a option) \<Rightarrow> 'a list \<Rightarrow> 'a list \<Rightarrow> 'a list" where
  "upd f d ps = (case update_first f ps of Some qs \<Rightarrow> qs | None \<Rightarrow> ps @ d)"

lemma upd_Nil [simp]: "upd f d [] = d"
  by (simp add: upd_def)

lemma upd_Cons: "upd f d (p # ps) = (case f p of Some q \<Rightarrow> q # ps | None \<Rightarrow> p # upd f d ps)"
  by (simp add: upd_def split: option.splits)

lemma map_filter_upd_other:
  assumes "\<And>p q. f p = Some q \<Longrightarrow> sel p = None \<and> sel q = None" "\<And>p. p \<in> set d \<Longrightarrow> sel p = None"
  shows "List.map_filter sel (upd f d ps) = List.map_filter sel ps"
  by (induction ps) (auto simp: upd_Cons map_filter_Cons assms map_filter_None split: option.splits dest: assms(1))

lemma map_filter_upd:
  assumes "\<And>p. f p = map_option (con o g) (sel p)" "\<And>x. sel (con x) = Some x"
  shows "List.map_filter sel (upd f d ps) =
     (case List.map_filter sel ps of [] \<Rightarrow> List.map_filter sel d | x # xs \<Rightarrow> g x # xs)"
  by (induction ps) (auto simp: upd_Cons map_filter_Cons assms split: option.splits list.splits)

lemma on_text_map: "on_text g p = map_option (PText o g) (part_text p)"
  by (cases p) auto

lemma on_reasoning_map: "on_reasoning g p = map_option (PReasoning o g) (part_reasoning p)"
  by (cases p) auto

lemma on_text_SomeD: "on_text g p = Some q \<Longrightarrow> \<exists>t. p = PText t \<and> q = PText (g t)"
  by (cases p) auto

lemma on_reasoning_SomeD: "on_reasoning g p = Some q \<Longrightarrow> \<exists>r. p = PReasoning r \<and> q = PReasoning (g r)"
  by (cases p) auto

lemma on_call_SomeD: "on_call i g p = Some q \<Longrightarrow> \<exists>c. p = PCall c \<and> tcl_id c = i \<and> q = PCall (g c)"
  by (cases p) (auto split: if_splits)

lemma text_upd [message_simps]:
  "List.map_filter part_text (upd (on_text g) d ps) =
     (case List.map_filter part_text ps of [] \<Rightarrow> List.map_filter part_text d | t # ts \<Rightarrow> g t # ts)"
  by (rule map_filter_upd [where con = PText]) (auto simp: on_text_map)

lemma reasoning_upd [message_simps]:
  "List.map_filter part_reasoning (upd (on_reasoning g) d ps) =
     (case List.map_filter part_reasoning ps of [] \<Rightarrow> List.map_filter part_reasoning d
      | r # rs \<Rightarrow> g r # rs)"
  by (rule map_filter_upd [where con = PReasoning]) (auto simp: on_reasoning_map)

lemma calls_upd [message_simps]:
  "List.map_filter part_call (upd (on_call i g) d ps) =
     upd (\<lambda>c. if tcl_id c = i then Some (g c) else None) (List.map_filter part_call d)
       (List.map_filter part_call ps)"
proof (induction ps)
  case (Cons p ps)
  then show ?case by (cases p) (auto simp: upd_Cons map_filter_Cons split: option.splits)
qed simp

text \<open>Each loop leaves the parts of the other types alone.\<close>

lemma on_text_others [message_simps]:
  "\<forall>p \<in> set d. part_reasoning p = None \<Longrightarrow>
     List.map_filter part_reasoning (upd (on_text g) d ps) = List.map_filter part_reasoning ps"
  "\<forall>p \<in> set d. part_call p = None \<Longrightarrow>
     List.map_filter part_call (upd (on_text g) d ps) = List.map_filter part_call ps"
  "\<forall>p \<in> set d. part_finish p = None \<Longrightarrow>
     List.map_filter part_finish (upd (on_text g) d ps) = List.map_filter part_finish ps"
  "\<forall>p \<in> set d. data_part p = None \<Longrightarrow>
     List.map_filter data_part (upd (on_text g) d ps) = List.map_filter data_part ps"
  by (rule map_filter_upd_other; force dest: on_text_SomeD)+

lemma on_reasoning_others [message_simps]:
  "\<forall>p \<in> set d. part_text p = None \<Longrightarrow>
     List.map_filter part_text (upd (on_reasoning g) d ps) = List.map_filter part_text ps"
  "\<forall>p \<in> set d. part_call p = None \<Longrightarrow>
     List.map_filter part_call (upd (on_reasoning g) d ps) = List.map_filter part_call ps"
  "\<forall>p \<in> set d. part_finish p = None \<Longrightarrow>
     List.map_filter part_finish (upd (on_reasoning g) d ps) = List.map_filter part_finish ps"
  "\<forall>p \<in> set d. data_part p = None \<Longrightarrow>
     List.map_filter data_part (upd (on_reasoning g) d ps) = List.map_filter data_part ps"
  by (rule map_filter_upd_other; force dest: on_reasoning_SomeD)+

lemma on_call_others [message_simps]:
  "\<forall>p \<in> set d. part_text p = None \<Longrightarrow>
     List.map_filter part_text (upd (on_call i g) d ps) = List.map_filter part_text ps"
  "\<forall>p \<in> set d. part_reasoning p = None \<Longrightarrow>
     List.map_filter part_reasoning (upd (on_call i g) d ps) = List.map_filter part_reasoning ps"
  "\<forall>p \<in> set d. part_finish p = None \<Longrightarrow>
     List.map_filter part_finish (upd (on_call i g) d ps) = List.map_filter part_finish ps"
  "\<forall>p \<in> set d. data_part p = None \<Longrightarrow>
     List.map_filter data_part (upd (on_call i g) d ps) = List.map_filter data_part ps"
  by (rule map_filter_upd_other; force dest: on_call_SomeD)+

text \<open>The deletion loops.\<close>

definition del :: "('a \<Rightarrow> bool) \<Rightarrow> 'a list \<Rightarrow> 'a list" where
  "del P ps = (case delete_first P ps of Some qs \<Rightarrow> qs | None \<Rightarrow> ps)"

lemma del_Nil [simp]: "del P [] = []"
  by (simp add: del_def)

lemma del_Cons: "del P (p # ps) = (if P p then ps else p # del P ps)"
  by (auto simp: del_def split: option.splits)

lemma map_filter_del [message_simps]:
  "List.map_filter sel (del (\<lambda>p. sel p \<noteq> None) ps) = tl (List.map_filter sel ps)"
  by (induction ps) (auto simp: del_Cons map_filter_Cons split: option.splits)

lemma map_filter_del_other:
  "(\<And>p. P p \<Longrightarrow> sel p = None) \<Longrightarrow> List.map_filter sel (del P ps) = List.map_filter sel ps"
  by (induction ps) (auto simp: del_Cons map_filter_Cons split: option.splits)

lemma map_filter_filter_other:
  "(\<And>p. \<not> P p \<Longrightarrow> sel p = None) \<Longrightarrow> List.map_filter sel (filter P ps) = List.map_filter sel ps"
  by (induction ps) (auto simp: map_filter_Cons split: option.splits)

lemma part_kinds:
  "part_text p = Some t \<Longrightarrow> part_reasoning p = None \<and> part_call p = None \<and> part_finish p = None \<and> data_part p = None"
  "part_finish p = Some f \<Longrightarrow> part_text p = None \<and> part_reasoning p = None \<and> part_call p = None \<and> data_part p = None"
  "part_reasoning p = Some r \<Longrightarrow> part_text p = None \<and> part_call p = None \<and> part_finish p = None \<and> data_part p = None"
  "part_call p = Some c \<Longrightarrow> part_text p = None \<and> part_reasoning p = None \<and> part_finish p = None \<and> data_part p = None"
  by (cases p; simp)+

lemma del_others [message_simps]:
  "List.map_filter part_reasoning (del (\<lambda>p. \<exists>y. part_text p = Some y) ps) = List.map_filter part_reasoning ps"
  "List.map_filter part_call (del (\<lambda>p. \<exists>y. part_text p = Some y) ps) = List.map_filter part_call ps"
  "List.map_filter part_finish (del (\<lambda>p. \<exists>y. part_text p = Some y) ps) = List.map_filter part_finish ps"
  "List.map_filter data_part (del (\<lambda>p. \<exists>y. part_text p = Some y) ps) = List.map_filter data_part ps"
  "List.map_filter part_text (del (\<lambda>p. \<exists>y. part_finish p = Some y) ps) = List.map_filter part_text ps"
  "List.map_filter part_reasoning (del (\<lambda>p. \<exists>y. part_finish p = Some y) ps) = List.map_filter part_reasoning ps"
  "List.map_filter part_call (del (\<lambda>p. \<exists>y. part_finish p = Some y) ps) = List.map_filter part_call ps"
  "List.map_filter data_part (del (\<lambda>p. \<exists>y. part_finish p = Some y) ps) = List.map_filter data_part ps"
  "List.map_filter part_text (del (\<lambda>p. \<exists>y. part_text p = Some y) ps) = tl (List.map_filter part_text ps)"
  "List.map_filter part_finish (del (\<lambda>p. \<exists>y. part_finish p = Some y) ps) = tl (List.map_filter part_finish ps)"
  using map_filter_del [of part_text ps] map_filter_del [of part_finish ps]
  by (auto intro!: map_filter_del_other dest: part_kinds)

lemma filter_others [message_simps]:
  "List.map_filter part_text (filter (\<lambda>p. part_reasoning p = None) ps) = List.map_filter part_text ps"
  "List.map_filter part_call (filter (\<lambda>p. part_reasoning p = None) ps) = List.map_filter part_call ps"
  "List.map_filter part_finish (filter (\<lambda>p. part_reasoning p = None) ps) = List.map_filter part_finish ps"
  "List.map_filter data_part (filter (\<lambda>p. part_reasoning p = None) ps) = List.map_filter data_part ps"
  "List.map_filter part_text (filter (\<lambda>p. part_call p = None) ps) = List.map_filter part_text ps"
  "List.map_filter part_reasoning (filter (\<lambda>p. part_call p = None) ps) = List.map_filter part_reasoning ps"
  "List.map_filter part_finish (filter (\<lambda>p. part_call p = None) ps) = List.map_filter part_finish ps"
  "List.map_filter data_part (filter (\<lambda>p. part_call p = None) ps) = List.map_filter data_part ps"
  by (auto intro!: map_filter_filter_other dest: part_kinds)

lemma filter_same [message_simps]:
  "List.map_filter sel (filter (\<lambda>p. sel p = None) ps) = []"
  by (rule map_filter_None) simp

section \<open>The operations in terms of the two loops\<close>

lemma fst_view_call [simp]: "fst (view_call c) = tcl_id c"
  by (simp add: view_call_def)

lemma tl_short: "length xs \<le> 1 \<Longrightarrow> tl xs = []"
  by (cases xs) auto

lemma call_loop_view:
  assumes "\<And>c. view_call (g c) = (tcl_id c, f (snd (view_call c)))"
  shows "map view_call (upd (\<lambda>c. if tcl_id c = i then Some (g c) else None) [] cs) =
     AList.map_entry i f (map view_call cs)"
  by (induction cs) (auto simp: upd_Cons assms)

lemma call_add_view:
  "map view_call (upd (\<lambda>c. if tcl_id c = tcl_id tc then Some tc else None) [tc] cs) =
     AList.update (tcl_id tc) (snd (view_call tc)) (map view_call cs)"
  by (induction cs) (auto simp: upd_Cons view_call_def)

lemma call_keys_map_entry: "map fst (AList.map_entry i f xs) = map fst xs"
  by (induction xs) auto

lemma call_ids_view: "map tcl_id cs = map fst (map view_call cs)"
  by (simp add: view_call_def)

lemma reasoning_loop:
  assumes "length (List.map_filter part_reasoning ps) \<le> 1"
  shows "(if \<exists>p \<in> set ps. part_reasoning p \<noteq> None
      then map (\<lambda>p. case on_reasoning g p of Some q \<Rightarrow> q | None \<Rightarrow> p) ps
      else map (\<lambda>p. case on_reasoning g p of Some q \<Rightarrow> q | None \<Rightarrow> p) ps @ d)
    = upd (on_reasoning g) d ps"
  using assms
proof (induction ps)
  case (Cons p ps)
  have id: "map (\<lambda>p. case on_reasoning g p of Some q \<Rightarrow> q | None \<Rightarrow> p) qs = qs"
    if "List.map_filter part_reasoning qs = []" for qs
    using that by (induction qs) (auto simp: map_filter_Cons on_reasoning_map split: option.splits)
  show ?case
  proof (cases "part_reasoning p")
    case None
    then have "on_reasoning g p = None" by (simp add: on_reasoning_map)
    then show ?thesis using None Cons by (auto simp: map_filter_Cons upd_Cons split: if_split_asm)
  next
    case (Some r)
    then have "on_reasoning g p = Some (PReasoning (g r))" by (simp add: on_reasoning_map)
    then show ?thesis using Some Cons.prems by (auto simp: map_filter_Cons upd_Cons id)
  qed
qed simp

lemma append_reasoning_loop:
  assumes "length (parts_of part_reasoning m) \<le> 1"
  shows "append_reasoning_content now delta m = m\<lparr>msg_parts :=
     upd (on_reasoning (\<lambda>r. r\<lparr>rs_thinking := rs_thinking r @ delta\<rparr>))
       [PReasoning (no_reasoning\<lparr>rs_thinking := delta, rs_started := now\<rparr>)] (msg_parts m)\<rparr>"
  unfolding append_reasoning_content_def Let_def reasoning_loop [OF assms] ..

lemma op_loops:
  "append_content d m = m\<lparr>msg_parts := upd (on_text (\<lambda>t. t @ d)) [PText d] (msg_parts m)\<rparr>"
  "set_content t m = m\<lparr>msg_parts := if t = [] then del (\<lambda>p. \<exists>y. part_text p = Some y) (msg_parts m)
     else upd (on_text (\<lambda>_. t)) [PText t] (msg_parts m)\<rparr>"
  "set_reasoning_thinking n t m = m\<lparr>msg_parts := upd (on_reasoning (\<lambda>r. r\<lparr>rs_thinking := t\<rparr>))
     (if t \<noteq> [] then [PReasoning (no_reasoning\<lparr>rs_thinking := t, rs_started := n\<rparr>)] else []) (msg_parts m)\<rparr>"
  "append_thought_signature s i m = m\<lparr>msg_parts := upd (on_reasoning (\<lambda>r. r\<lparr>rs_thought_signature :=
     rs_thought_signature r @ s, rs_tool_id := i, rs_responses := None\<rparr>))
     [PReasoning (no_reasoning\<lparr>rs_thought_signature := s\<rparr>)] (msg_parts m)\<rparr>"
  "append_reasoning_signature s m = m\<lparr>msg_parts := upd (on_reasoning (\<lambda>r. r\<lparr>rs_signature :=
     rs_signature r @ s, rs_responses := None\<rparr>))
     [PReasoning (no_reasoning\<lparr>rs_signature := s\<rparr>)] (msg_parts m)\<rparr>"
  "set_responses_data rd m = m\<lparr>msg_parts := upd (on_reasoning (\<lambda>r. r\<lparr>rs_responses := rd\<rparr>)) [] (msg_parts m)\<rparr>"
  "finish_thinking n m = m\<lparr>msg_parts := upd (on_reasoning
     (\<lambda>r. if rs_finished r = 0 then r\<lparr>rs_finished := n\<rparr> else r)) [] (msg_parts m)\<rparr>"
  "finish_tool_call i m = m\<lparr>msg_parts := upd (on_call i
     (\<lambda>c. c\<lparr>tcl_provider_executed := False, tcl_finished := True\<rparr>)) [] (msg_parts m)\<rparr>"
  "append_tool_call_input i d m = m\<lparr>msg_parts := upd (on_call i
     (\<lambda>c. c\<lparr>tcl_input := tcl_input c @ d, tcl_provider_executed := False\<rparr>)) [] (msg_parts m)\<rparr>"
  "add_tool_call tc m = m\<lparr>msg_parts := upd (on_call (tcl_id tc) (\<lambda>_. tc)) [PCall tc] (msg_parts m)\<rparr>"
  "add_finish n r t d m = m\<lparr>msg_parts := del (\<lambda>p. \<exists>y. part_finish p = Some y) (msg_parts m) @
     [PFinish \<lparr>fin_reason = r, fin_time = n, fin_message = t, fin_details = d\<rparr>]\<rparr>"
  by (simp_all add: append_content_def set_content_def set_reasoning_thinking_def
      append_thought_signature_def append_reasoning_signature_def set_responses_data_def
      finish_thinking_def finish_tool_call_def append_tool_call_input_def add_tool_call_def
      add_finish_def upd_def del_def split: option.split)

section \<open>Refinement\<close>

lemma view_of_parts:
  "view_of m = \<lparr>vm_text = (case parts_of part_text m of [] \<Rightarrow> [] | t # _ \<Rightarrow> t),
     vm_reasoning = (case parts_of part_reasoning m of [] \<Rightarrow> None | r # _ \<Rightarrow> Some (view_reasoning r)),
     vm_calls = map view_call (parts_of part_call m),
     vm_finish = (case parts_of part_finish m of [] \<Rightarrow> None | f # _ \<Rightarrow> Some (view_finish f)),
     vm_data = parts_of data_part m\<rparr>"
  by (auto simp: view_of_def content_text_def finish_of_def tool_calls_def first_part_map_filter
      split: list.split)

lemma map_filter_PResult [message_simps]:
  "List.map_filter part_call (map PResult rs) = []" "List.map_filter part_text (map PResult rs) = []"
  "List.map_filter part_reasoning (map PResult rs) = []" "List.map_filter part_finish (map PResult rs) = []"
  "List.map_filter data_part (map PResult rs) = map PResult rs"
  by (induction rs) (simp_all add: map_filter_Cons)

lemma map_filter_PCall [message_simps]:
  "List.map_filter part_call (map PCall cs) = cs" "List.map_filter part_text (map PCall cs) = []"
  "List.map_filter part_reasoning (map PCall cs) = []" "List.map_filter part_finish (map PCall cs) = []"
  "List.map_filter data_part (map PCall cs) = []"
  by (induction cs) (simp_all add: map_filter_Cons)

lemma run_op_refines:
  assumes "msg_wf m" "op_ok op"
  shows "view_of (run_op op m) = view_op op (view_of m)"
  using assms
  by (cases op)
     (auto simp: view_of_parts op_loops append_reasoning_loop message_simps map_filter_Cons msg_wf_def
        view_thinking_def view_reasoning_def view_finish_def no_reasoning_def
        call_add_view call_loop_view view_call_def strip_reasoning_parts_def set_tool_calls_def
        add_tool_result_def set_tool_results_def add_image_url_def add_binary_def set_usage_def tl_short
        split: list.split)

lemma run_op_wf:
  assumes "msg_wf m" "op_ok op"
  shows "msg_wf (run_op op m)"
proof -
  have ids: "map tcl_id (tool_calls m') = map fst (vm_calls (view_of m'))" for m'
    by (simp add: view_of_def view_call_def)
  have "distinct (map fst (vm_calls (view_op op (view_of m))))"
    using assms ids [of m]
    by (cases op) (auto simp: call_keys_map_entry msg_wf_def distinct_update call_ids_view [symmetric]
        simp del: map_map split: if_splits)
  then have "distinct (map tcl_id (tool_calls (run_op op m)))"
    using run_op_refines [OF assms] by (simp add: ids)
  moreover have "length (parts_of part_text (run_op op m)) \<le> 1"
    "length (parts_of part_reasoning (run_op op m)) \<le> 1"
    "length (parts_of part_finish (run_op op m)) \<le> 1"
    using assms
    by (cases op; auto simp: op_loops append_reasoning_loop message_simps map_filter_Cons msg_wf_def
        strip_reasoning_parts_def set_tool_calls_def
        add_tool_result_def set_tool_results_def add_image_url_def add_binary_def set_usage_def tl_short
        split: list.split)+
  ultimately show ?thesis by (simp add: msg_wf_def)
qed

lemma run_ops_refine:
  assumes "msg_wf m" "\<forall>op \<in> set ops. op_ok op"
  shows "view_of (fold run_op ops m) = fold view_op ops (view_of m)"
    and "msg_wf (fold run_op ops m)"
  using assms by (induction ops arbitrary: m) (auto simp: run_op_refines run_op_wf)

end
