(* ===== verification/Message_Roundtrip.thy ===== *)
theory Message_Roundtrip
  imports Message_Stream Message_Convert
begin

text \<open>
  A history handed to a plugin is converted to the provider form and back. The lemmas show
  that the second conversion to the provider form gives what the first gave: the model sees
  the same messages whether or not a plugin is installed.
\<close>

section \<open>Names and metadata\<close>

lemma normalize_names_set:
  "n \<in> set (normalize_names_from seen ns) \<Longrightarrow> n \<notin> set seen \<and> n \<noteq> [] \<and> trim_space n = n"
  by (induction seen ns rule: normalize_names_from.induct) (auto simp: Let_def split: if_splits)

lemma normalize_names_distinct: "distinct (normalize_names_from seen ns)"
  by (induction seen ns rule: normalize_names_from.induct)
     (auto simp: Let_def dest: normalize_names_set)

lemma normalize_names_id:
  assumes "distinct ns" "\<forall>n \<in> set ns. n \<notin> set seen \<and> n \<noteq> [] \<and> trim_space n = n"
  shows "normalize_names_from seen ns = ns"
  using assms by (induction seen ns rule: normalize_names_from.induct) (auto simp: Let_def)

lemma normalize_deferred_idem [simp]:
  "normalize_deferred_names (normalize_deferred_names ns) = normalize_deferred_names ns"
  unfolding normalize_deferred_names_def
  by (rule normalize_names_id) (auto simp: normalize_names_distinct dest: normalize_names_set)

lemma normalize_deferred_Nil [simp]: "normalize_deferred_names [] = []"
  by (simp add: normalize_deferred_names_def)

lemma new_metadata_cong:
  assumes "msg_id n = msg_id m" "msg_session n = msg_session m" "msg_model n = msg_model m"
    "msg_provider n = msg_provider m" "msg_created n = msg_created m" "msg_updated n = msg_updated m"
    "msg_summary n = msg_summary m"
    "normalize_deferred_names (msg_deferred n) = normalize_deferred_names (msg_deferred m)"
  shows "new_fantasy_metadata n = new_fantasy_metadata m"
  unfolding new_fantasy_metadata_def assms ..

lemma new_metadata_Some:
  assumes "new_fantasy_metadata m = Some d"
  shows "d = \<lparr>md_id = msg_id m, md_session = msg_session m, md_model = msg_model m,
     md_provider = msg_provider m, md_created = msg_created m, md_updated = msg_updated m,
     md_summary = msg_summary m, md_deferred = normalize_deferred_names (msg_deferred m)\<rparr>"
  using assms unfolding new_fantasy_metadata_def Let_def by (metis option.distinct(1) option.inject)

lemma new_metadata_apply:
  assumes "new_fantasy_metadata m = Some d"
  shows "new_fantasy_metadata (apply_fantasy_metadata d zero_message\<lparr>msg_role := r, msg_parts := ps\<rparr>) = Some d"
  unfolding assms [symmetric]
  by (rule new_metadata_cong) (simp_all add: apply_fantasy_metadata_def new_metadata_Some [OF assms])

lemma new_metadata_zero: "new_fantasy_metadata (zero_message\<lparr>msg_role := r, msg_parts := ps\<rparr>) = None"
  by (simp add: new_fantasy_metadata_def zero_message_def Let_def)

lemma part_options_map [simp]: "part_options (map_options f p) = f (part_options p)"
  by (cases p) auto

definition base_of :: "fantasy_metadata option \<Rightarrow> message" where
  "base_of d = (case d of Some d \<Rightarrow> apply_fantasy_metadata d zero_message | None \<Rightarrow> zero_message)"

lemma new_metadata_base:
  "new_fantasy_metadata m = d \<Longrightarrow> new_fantasy_metadata (base_of d\<lparr>msg_role := r, msg_parts := ps\<rparr>) = d"
  by (cases d) (auto simp: base_of_def new_metadata_apply new_metadata_zero)

lemma first_metadata_None:
  "\<forall>p \<in> set ps. po_metadata (part_options p) = None \<Longrightarrow> first_metadata ps = None"
  by (induction ps) auto

lemma metadata_of_attached:
  assumes "ps \<noteq> []" "\<forall>p \<in> set ps. po_metadata (part_options p) = None"
  shows "metadata_of (fantasy_message_of r (attach_metadata d ps)) = d"
  using assms
  by (cases ps; cases d)
     (auto simp: metadata_of_def fantasy_message_of_def attach_metadata_def no_options_def
       first_metadata_None split: option.splits)

section \<open>Parts back and forth\<close>

lemma attach_back [simp]:
  "system_part_back (map_options f p) = system_part_back p"
  "user_part_back (map_options f p) = user_part_back p"
  by (cases p; simp)+

lemma tool_back_options [simp]: "tool_part_back (map_options f p) = tool_part_back p"
  by (cases p) auto

lemma assistant_back_options [simp]:
  "assistant_part_back (map_options (\<lambda>o1. o1\<lparr>po_metadata := d\<rparr>) p) = assistant_part_back p"
  by (cases p) (auto simp: reasoning_back_def)

lemma map_attach:
  assumes "\<And>p d. g (map_options (\<lambda>o1. o1\<lparr>po_metadata := d\<rparr>) p) = g p"
  shows "map g (attach_metadata d ps) = map g ps"
  by (cases d) (auto simp: attach_metadata_def assms)

lemma reasoning_options_back:
  "reasoning_options (reasoning_back t (reasoning_options r)) = reasoning_options r"
  by (auto simp: reasoning_options_def reasoning_back_def no_reasoning_def no_options_def)

lemma strip_trim [simp]: "trim_space (fst (strip_textual_protocol t)) = fst (strip_textual_protocol t)"
  by (simp add: strip_textual_protocol_def Let_def)

lemma strip_Nil [simp]: "fst (strip_textual_protocol []) = []"
  by (simp add: strip_textual_protocol_def)

lemma no_options_metadata [simp]: "po_metadata no_options = None" "po_metadata (reasoning_options r) = None"
  by (simp_all add: no_options_def reasoning_options_def)

lemma parts_without_metadata:
  "p \<in> set (user_parts m) \<Longrightarrow> po_metadata (part_options p) = None"
  "p \<in> set (assistant_parts m) \<Longrightarrow> po_metadata (part_options p) = None"
  "p \<in> set (tool_parts j m) \<Longrightarrow> po_metadata (part_options p) = None"
  by (auto simp: user_parts_def assistant_parts_def tool_parts_def Let_def split: if_splits)

lemma binary_back:
  "concat (map user_part_back (map (\<lambda>b. FFile (bin_path b) (bin_data b) (bin_mime b) no_options) bs)) = map PBinary bs"
  by (induction bs) auto

lemma call_back:
  "concat (map assistant_part_back (map (\<lambda>c. FCall (tcl_id c) (tcl_name c) (tcl_input c) (tcl_provider_executed c) no_options) cs))
     = map (\<lambda>c. PCall (c\<lparr>tcl_finished := False\<rparr>)) cs"
  by (induction cs) auto

lemma map_filter_binaries [simp]:
  "List.map_filter part_binary (map PBinary bs) = bs"
  "List.map_filter part_text (map PBinary bs) = []"
  by (induction bs) (auto simp: map_filter_Cons)

lemma map_filter_calls [simp]:
  "List.map_filter part_call (map (\<lambda>c. PCall (f c)) cs) = map f cs"
  "List.map_filter part_text (map (\<lambda>c. PCall (f c)) cs) = []"
  "List.map_filter part_reasoning (map (\<lambda>c. PCall (f c)) cs) = []"
  by (induction cs) (auto simp: map_filter_Cons)

text \<open>What a second conversion could change: text that a second clean-up would alter.\<close>

definition convert_stable :: "message \<Rightarrow> bool" where
  "convert_stable m \<longleftrightarrow>
     (case msg_role m of
        User \<Rightarrow> \<forall>b \<in> set (binary_contents m). \<not> is_text_mime (bin_mime b)
      | Assistant \<Rightarrow>
          (let text = fst (strip_textual_protocol (trim_space (content_text m)));
               thinking = fst (strip_textual_protocol (rs_thinking (reasoning_of m)))
           in fst (strip_textual_protocol text) = text \<and> fst (strip_textual_protocol thinking) = thinking \<and>
              \<not> has_prefix text retry_notice \<and> \<not> has_prefix thinking retry_notice)
      | _ \<Rightarrow> True)"

lemma content_text_parts: "content_text m = (case parts_of part_text m of [] \<Rightarrow> [] | t # _ \<Rightarrow> t)"
  by (simp add: content_text_def first_part_map_filter split: list.split)

lemma reasoning_of_parts: "reasoning_of m = (case parts_of part_reasoning m of [] \<Rightarrow> no_reasoning | r # _ \<Rightarrow> r)"
  by (simp add: reasoning_of_def first_part_map_filter split: list.split)

lemma back_system:
  assumes "msg_role m = System" "to_ai_message j m = [fm]"
  shows "\<exists>m'. from_fantasy_message fm = Some [m'] \<and> to_ai_message j m' = [fm]"
proof -
  let ?t = "trim_space (content_text m)"
  let ?d = "new_fantasy_metadata m"
  let ?m = "base_of ?d\<lparr>msg_role := System, msg_parts := [PText ?t]\<rparr>"
  have fm: "fm = fantasy_message_of System (attach_metadata ?d [FText ?t no_options])"
    and t: "?t \<noteq> []" and np: "parse_auto_mode_prompt m = None"
    using assms by (auto simp: to_ai_message_def Let_def split: if_splits)
  have md: "metadata_of fm = ?d" unfolding fm by (rule metadata_of_attached) auto
  have "from_fantasy_message fm = Some [?m]"
    unfolding from_fantasy_message_def md
    by (simp add: fm fantasy_message_of_def map_attach base_of_def)
  moreover have "content_text ?m = ?t" "msg_role ?m = System"
    by (simp_all add: content_text_parts map_filter_Cons)
  then have "parse_auto_mode_prompt ?m = None"
    using np assms(1) by (simp add: parse_auto_mode_prompt_def)
  then have "to_ai_message j ?m = [fm]"
    using t new_metadata_base [of m, OF refl]
    by (simp add: to_ai_message_def fm content_text_parts map_filter_Cons)
  ultimately show ?thesis by blast
qed

lemma back_user:
  assumes "msg_role m = User" "convert_stable m" "to_ai_message j m = [fm]" "fm_content fm \<noteq> []"
  shows "\<exists>m'. from_fantasy_message fm = Some [m'] \<and> to_ai_message j m' = [fm]"
proof -
  let ?t = "trim_space (content_text m)"
  let ?d = "new_fantasy_metadata m"
  let ?ps = "(if ?t \<noteq> [] then [PText ?t] else []) @ map PBinary (binary_contents m)"
  let ?m = "base_of ?d\<lparr>msg_role := User, msg_parts := ?ps\<rparr>"
  have files: "filter (\<lambda>b. is_text_mime (bin_mime b)) (binary_contents m) = []"
    "filter (\<lambda>b. \<not> is_text_mime (bin_mime b)) (binary_contents m) = binary_contents m"
    using assms(1,2) by (simp_all add: convert_stable_def filter_empty_conv filter_id_conv)
  have ps: "user_parts m = (if ?t \<noteq> [] then [FText ?t no_options] else []) @
      map (\<lambda>b. FFile (bin_path b) (bin_data b) (bin_mime b) no_options) (binary_contents m)"
    by (simp add: user_parts_def files prompt_with_attachments_def)
  have fm: "fm = fantasy_message_of User (attach_metadata ?d (user_parts m))"
    using assms(1,3) by (simp add: to_ai_message_def)
  have ne: "user_parts m \<noteq> []"
    using assms(4) by (auto simp: fm fantasy_message_of_def attach_metadata_def split: option.splits)
  have md: "metadata_of fm = ?d"
    unfolding fm by (rule metadata_of_attached) (use ne in \<open>auto dest: parts_without_metadata\<close>)
  have conv: "concat (map user_part_back (user_parts m)) = ?ps"
    unfolding ps by (simp add: binary_back [unfolded map_map comp_def] comp_def)
  have "?ps \<noteq> []" using ne by (auto simp: ps split: if_splits)
  then have "from_fantasy_message fm = Some [?m]"
    unfolding from_fantasy_message_def md
    by (simp add: fm fantasy_message_of_def map_attach base_of_def conv)
  moreover have "user_parts ?m = user_parts m"
  proof -
    have "content_text ?m = ?t" "binary_contents ?m = binary_contents m"
      by (auto simp: content_text_parts binary_contents_def map_filter_Cons)
    then show ?thesis by (simp add: user_parts_def)
  qed
  then have "to_ai_message j ?m = [fm]"
    using new_metadata_base [of m, OF refl] by (simp add: to_ai_message_def fm)
  ultimately show ?thesis by blast
qed

text \<open>The text and the reasoning an assistant message sends.\<close>

definition sent_thinking :: "message \<Rightarrow> string" where
  "sent_thinking m = fst (strip_textual_protocol (rs_thinking (reasoning_of m)))"

definition sent_text :: "message \<Rightarrow> string" where
  "sent_text m =
     (let text = fst (strip_textual_protocol (trim_space (content_text m))) in
      if sent_thinking m \<noteq> [] \<and> reasoning_options (reasoning_of m) = no_options \<and> text = [] \<and> tool_calls m = []
      then sent_thinking m else text)"

lemma assistant_parts_sent:
  "assistant_parts m =
     (if sent_thinking m \<noteq> [] then [FReasoning (sent_thinking m) (reasoning_options (reasoning_of m))] else []) @
     (if sent_text m \<noteq> [] then [FText (sent_text m) no_options] else []) @
     map (\<lambda>c. FCall (tcl_id c) (tcl_name c) (tcl_input c) (tcl_provider_executed c) no_options) (tool_calls m)"
  by (simp add: assistant_parts_def sent_text_def sent_thinking_def Let_def)

definition assistant_back :: "message \<Rightarrow> content_part list" where
  "assistant_back m =
     (if sent_thinking m \<noteq> [] then [PReasoning (reasoning_back (sent_thinking m) (reasoning_options (reasoning_of m)))] else []) @
     (if sent_text m \<noteq> [] then [PText (sent_text m)] else []) @
     map (\<lambda>c. PCall (c\<lparr>tcl_finished := False\<rparr>)) (tool_calls m)"

lemma assistant_parts_conv:
  "concat (map assistant_part_back (assistant_parts m)) = assistant_back m"
  by (simp add: assistant_parts_sent assistant_back_def call_back [unfolded map_map comp_def] comp_def)

lemma closing_finish_parts [simp]:
  "List.map_filter part_text (closing_finish ps) = []"
  "List.map_filter part_reasoning (closing_finish ps) = []"
  "List.map_filter part_call (closing_finish ps) = []"
  by (simp_all add: closing_finish_def map_filter_Cons)

lemma back_accessors:
  assumes "msg_parts m' = assistant_back m @ closing_finish ps"
  shows "content_text m' = sent_text m"
    and "reasoning_of m' = (if sent_thinking m \<noteq> []
           then reasoning_back (sent_thinking m) (reasoning_options (reasoning_of m)) else no_reasoning)"
    and "tool_calls m' = map (\<lambda>c. c\<lparr>tcl_finished := False\<rparr>) (tool_calls m)"
  by (auto simp: content_text_parts reasoning_of_parts tool_calls_def assms assistant_back_def map_filter_Cons)

lemma no_reasoning_options [simp]: "reasoning_options no_reasoning = no_options"
  by (simp add: reasoning_options_def no_reasoning_def no_options_def)

lemma sent_stable:
  assumes "msg_role m = Assistant" "convert_stable m"
  shows "fst (strip_textual_protocol (sent_thinking m)) = sent_thinking m"
    and "fst (strip_textual_protocol (sent_text m)) = sent_text m"
    and "trim_space (sent_text m) = sent_text m" "\<not> has_prefix (sent_text m) retry_notice"
  using assms by (auto simp: convert_stable_def sent_text_def sent_thinking_def Let_def)

lemma sent_again:
  assumes "msg_role m = Assistant" "convert_stable m" "msg_parts m' = assistant_back m @ closing_finish ps"
  shows "sent_thinking m' = sent_thinking m" "sent_text m' = sent_text m"
    and "sent_thinking m \<noteq> [] \<Longrightarrow> reasoning_options (reasoning_of m') = reasoning_options (reasoning_of m)"
proof -
  note acc = back_accessors [OF assms(3)] and st = sent_stable [OF assms(1,2)]
  show th: "sent_thinking m' = sent_thinking m"
    unfolding sent_thinking_def [of m'] acc(2)
    by (simp add: reasoning_back_def st(1)) (simp add: no_reasoning_def)
  show o1: "reasoning_options (reasoning_of m') = reasoning_options (reasoning_of m)"
    if "sent_thinking m \<noteq> []"
    using that by (simp add: acc(2) reasoning_options_back)
  have "sent_text m \<noteq> []"
    if "sent_thinking m \<noteq> []" "reasoning_options (reasoning_of m) = no_options" "tool_calls m = []"
    using that by (auto simp: sent_text_def Let_def)
  then show "sent_text m' = sent_text m"
    using st(2,3) o1 by (auto simp: sent_text_def [of m'] th acc(1,3) Let_def)
qed

lemma back_assistant:
  assumes "msg_role m = Assistant" "convert_stable m" "to_ai_message j m = [fm]"
  shows "\<exists>m'. from_fantasy_message fm = Some [m'] \<and> to_ai_message j m' = [fm]"
proof -
  let ?d = "new_fantasy_metadata m"
  let ?ps = "assistant_back m @ closing_finish (assistant_back m)"
  let ?m = "base_of ?d\<lparr>msg_role := Assistant, msg_parts := ?ps\<rparr>"
  have fm: "fm = fantasy_message_of Assistant (attach_metadata ?d (assistant_parts m))"
    and ne: "assistant_parts m \<noteq> []"
    using assms(1,3) by (auto simp: to_ai_message_def split: if_splits)
  have md: "metadata_of fm = ?d"
    unfolding fm by (rule metadata_of_attached) (use ne in \<open>auto dest: parts_without_metadata\<close>)
  have "assistant_back m \<noteq> []"
    using ne by (auto simp: assistant_parts_sent assistant_back_def split: if_splits)
  then have "from_fantasy_message fm = Some [?m]"
    unfolding from_fantasy_message_def md
    by (simp add: fm fantasy_message_of_def map_attach base_of_def assistant_parts_conv Let_def)
  moreover have parts: "msg_parts ?m = assistant_back m @ closing_finish (assistant_back m)" by simp
  note acc = back_accessors [OF parts] and again = sent_again [OF assms(1,2) parts]
  have "assistant_parts ?m = assistant_parts m"
    using again by (simp add: assistant_parts_sent acc(3) comp_def)
  then have "to_ai_message j ?m = [fm]"
    using new_metadata_base [of m, OF refl] sent_stable(3,4) [OF assms(1,2)] ne
    by (simp add: to_ai_message_def fm acc(1))
  ultimately show ?thesis by blast
qed

text \<open>Tool results.\<close>

definition result_back :: "json_reader \<Rightarrow> result_part \<Rightarrow> result_part" where
  "result_back j r =
     (let base = \<lparr>trs_call_id = trs_call_id r, trs_name = [], trs_content = [], trs_data = [],
            trs_mime = [], trs_metadata = [], trs_error = False, trs_review = no_review\<rparr>
      in if trs_error r then base\<lparr>trs_content := model_safe_content j r, trs_error := True\<rparr>
         else if trs_data r \<noteq> [] then base\<lparr>trs_data := trs_data r, trs_mime := trs_mime r\<rparr>
         else base\<lparr>trs_content := model_safe_content j r\<rparr>)"

lemma model_safe_plain:
  "trs_review t = no_review \<Longrightarrow> trs_metadata t = [] \<Longrightarrow> model_safe_content j t = trs_content t"
  by (simp add: model_safe_content_def auto_review_of_def parse_auto_review_def)

lemma result_back_again: "result_output_of j (result_back j r) = result_output_of j r"
proof -
  let ?b = "result_back j r"
  have "trs_review ?b = no_review" "trs_metadata ?b = []" "trs_error ?b = trs_error r"
    by (simp_all add: result_back_def Let_def)
  moreover have "trs_data ?b = (if trs_error r then [] else trs_data r)"
    "trs_mime ?b = (if trs_error r \<or> trs_data r = [] then [] else trs_mime r)"
    "trs_content ?b = (if trs_error r \<or> trs_data r = [] then model_safe_content j r else [])"
    by (simp_all add: result_back_def Let_def)
  ultimately show ?thesis by (simp add: result_output_of_def model_safe_plain)
qed

lemma map_filter_results [simp]: "List.map_filter part_result (map (\<lambda>r. PResult (f r)) rs) = map f rs"
  by (induction rs) (auto simp: map_filter_Cons)

lemma result_back_id [simp]: "trs_call_id (result_back j r) = trs_call_id r"
  by (simp add: result_back_def Let_def)

lemma those_map_Some: "those (map (\<lambda>x. Some (f x)) xs) = Some (map f xs)"
  by (induction xs) auto

lemma tool_parts_conv:
  "map tool_part_back (tool_parts j m) = map (\<lambda>r. Some [PResult (result_back j r)]) (tool_results m)"
  by (auto simp: tool_parts_def result_output_of_def result_back_def Let_def)

lemma back_tool:
  assumes "msg_role m = Tool" "to_ai_message j m = [fm]" "fm_content fm \<noteq> []"
  shows "\<exists>m'. from_fantasy_message fm = Some [m'] \<and> to_ai_message j m' = [fm]"
proof -
  let ?d = "new_fantasy_metadata m"
  let ?ps = "map (\<lambda>r. PResult (result_back j r)) (tool_results m)"
  let ?m = "base_of ?d\<lparr>msg_role := Tool, msg_parts := ?ps\<rparr>"
  have fm: "fm = fantasy_message_of Tool (attach_metadata ?d (tool_parts j m))"
    using assms(1,2) by (simp add: to_ai_message_def)
  have ne: "tool_parts j m \<noteq> []"
    using assms(3) by (auto simp: fm fantasy_message_of_def attach_metadata_def split: option.splits)
  have md: "metadata_of fm = ?d"
    unfolding fm by (rule metadata_of_attached) (use ne in \<open>auto dest: parts_without_metadata\<close>)
  have conv: "those (map tool_part_back (tool_parts j m)) = Some (map (\<lambda>r. [PResult (result_back j r)]) (tool_results m))"
    by (simp add: tool_parts_conv those_map_Some)
  have "tool_results m \<noteq> []" using ne by (simp add: tool_parts_def)
  then have "from_fantasy_message fm = Some [?m]"
    unfolding from_fantasy_message_def md
    by (simp add: fm fantasy_message_of_def map_attach base_of_def conv concat_map_singleton)
  moreover have "tool_results ?m = map (result_back j) (tool_results m)"
    unfolding tool_results_def by (simp add: tool_results_def [symmetric])
  then have "tool_parts j ?m = tool_parts j m"
    by (simp add: tool_parts_def result_back_again comp_def)
  then have "to_ai_message j ?m = [fm]"
    using new_metadata_base [of m, OF refl] by (simp add: to_ai_message_def fm)
  ultimately show ?thesis by blast
qed

lemma convert_back:
  assumes "convert_stable m" "to_ai_message j m = [fm]" "fm_content fm \<noteq> []"
  shows "\<exists>m'. from_fantasy_message fm = Some [m'] \<and> to_ai_message j m' = [fm]"
proof (cases "msg_role m")
  case Assistant
  then show ?thesis using assms(1,2) by (rule back_assistant)
next
  case User
  then show ?thesis using assms by (rule back_user)
next
  case System
  then show ?thesis using assms(2) by (rule back_system)
next
  case Tool
  then show ?thesis using assms(2,3) by (rule back_tool)
next
  case (OtherRole r)
  then show ?thesis using assms(2) by (simp add: to_ai_message_def)
qed

end
