(* ===== verification/Token_Estimate.thy ===== *)
theory Token_Estimate
  imports Message_Convert
begin

text \<open>
  The estimate of prompt tokens of internal/agent/agent_estimate.go: four ASCII bytes or one
  other rune make a token, an image is a constant, and the estimate of a message is taken
  over all its parts at once. Token counts are unbounded integers here.
\<close>

section \<open>Text\<close>

text \<open>A rune below utf8.RuneSelf is the one whose encoding is one byte.\<close>

definition ascii_runes :: "string \<Rightarrow> int" where
  "ascii_runes s = int (length (filter (\<lambda>r. length r = 1) (runes s)))"

definition other_runes :: "string \<Rightarrow> int" where
  "other_runes s = int (length (filter (\<lambda>r. length r \<noteq> 1) (runes s)))"

definition tokens_from_units :: "int \<Rightarrow> int \<Rightarrow> bool \<Rightarrow> int" where
  "tokens_from_units ascii_bytes non_ascii round_up =
     ascii_bytes div 4 + (if round_up \<and> ascii_bytes mod 4 \<noteq> 0 then 1 else 0) + non_ascii"

definition estimate_text_tokens :: "string \<Rightarrow> bool \<Rightarrow> int" where
  "estimate_text_tokens s round_up =
     (if s = [] then 0 else tokens_from_units (ascii_runes s) (other_runes s) round_up)"

definition estimate_string_tokens :: "string \<Rightarrow> int" where
  "estimate_string_tokens s = (if s = [] then 0 else estimate_text_tokens s True)"

section \<open>Messages\<close>

definition estimated_image_tokens :: int where
  "estimated_image_tokens = 2000"

definition is_image_media_type :: "string \<Rightarrow> bool" where
  "is_image_media_type t \<longleftrightarrow>
     t \<in> {''image/png'', ''image/jpeg'', ''image/gif'', ''image/webp'', ''image/bmp''}"

text \<open>The counters asciiBytes, nonASCIIRunes and imageCount.\<close>

type_synonym units = "int \<times> int \<times> int"

definition text_units :: "string \<Rightarrow> units" where
  "text_units s = (ascii_runes s, other_runes s, 0)"

definition data_units :: "string \<Rightarrow> string \<Rightarrow> units" where
  "data_units d media =
     (if d = [] then (0, 0, 0)
      else if is_image_media_type media then (0, 0, 1) else (int (length d), 0, 0))"

definition add_units :: "units \<Rightarrow> units \<Rightarrow> units" where
  "add_units u v = (fst u + fst v, fst (snd u) + fst (snd v), snd (snd u) + snd (snd v))"

fun part_units :: "fantasy_part \<Rightarrow> units" where
  "part_units (FText t _) = text_units t"
| "part_units (FReasoning t _) = text_units t"
| "part_units (FCall _ _ input _ _) = text_units input"
| "part_units (FFile name d media _) =
     add_units (data_units d media) (add_units (text_units name) (text_units media))"
| "part_units (FResult r _) =
     (case fr_output r of
        Some (OutText t) \<Rightarrow> text_units t
      | Some (OutError (Some e)) \<Rightarrow> text_units e
      | Some (OutMedia d media t) \<Rightarrow>
          add_units (data_units d media) (add_units (text_units media) (text_units t))
      | _ \<Rightarrow> (0, 0, 0))"

definition units_of :: "fantasy_part list \<Rightarrow> units" where
  "units_of ps = fold (\<lambda>p u. add_units u (part_units p)) ps (0, 0, 0)"

definition estimate_content_tokens :: "fantasy_part list \<Rightarrow> int" where
  "estimate_content_tokens ps =
     (let (a, n, i) = units_of ps in tokens_from_units a n False + i * estimated_image_tokens)"

text \<open>compaction_fit.go: the estimate of stored messages.\<close>

definition estimate_messages :: "json_reader \<Rightarrow> message list \<Rightarrow> int" where
  "estimate_messages j ms =
     sum_list (map (\<lambda>m. sum_list (map (estimate_content_tokens \<circ> fm_content) (to_ai_message j m))) ms)"

text \<open>A tool definition; the schema is the JSON of its parameters, None when encoding fails.\<close>

record tool_info =
  inf_name :: string
  inf_description :: string
  inf_schema :: "string option"

definition tool_tokens :: "tool_info \<Rightarrow> int" where
  "tool_tokens t = estimate_text_tokens (inf_name t) False + estimate_text_tokens (inf_description t) False +
     (case inf_schema t of Some s \<Rightarrow> estimate_text_tokens s False | None \<Rightarrow> 75)"

definition estimate_prompt_tokens :: "fantasy_message list \<Rightarrow> tool_info list \<Rightarrow> int" where
  "estimate_prompt_tokens ms tools =
     sum_list (map (estimate_content_tokens \<circ> fm_content) ms) + sum_list (map tool_tokens tools)"

definition estimate_session_prompt ::
  "fantasy_message list \<Rightarrow> string \<Rightarrow> binary_content list \<Rightarrow> tool_info list \<Rightarrow> string \<Rightarrow> string \<Rightarrow> string \<Rightarrow> int" where
  "estimate_session_prompt history prompt attachments tools system prefix1 suffix1 =
     estimate_prompt_tokens history tools + estimate_string_tokens system + estimate_string_tokens prefix1 +
     estimate_string_tokens suffix1 + estimate_string_tokens (prompt_with_attachments prompt attachments)"

section \<open>Bounds\<close>

lemma unit_counts: "ascii_runes s + other_runes s = int (rune_count s)"
  using sum_length_filter_compl [of "\<lambda>r. length r = 1" "runes s"]
  by (simp add: ascii_runes_def other_runes_def rune_count_def)

lemma counts_nonneg [simp]: "0 \<le> ascii_runes s" "0 \<le> other_runes s"
  by (simp_all add: ascii_runes_def other_runes_def)

lemma counts_Nil [simp]: "ascii_runes [] = 0" "other_runes [] = 0"
  by (simp_all add: ascii_runes_def other_runes_def)

definition nonneg_units :: "units \<Rightarrow> bool" where
  "nonneg_units u \<longleftrightarrow> 0 \<le> fst u \<and> 0 \<le> fst (snd u) \<and> 0 \<le> snd (snd u)"

lemma nonneg_add: "nonneg_units u \<Longrightarrow> nonneg_units v \<Longrightarrow> nonneg_units (add_units u v)"
  by (auto simp: nonneg_units_def add_units_def)

lemma nonneg_text [simp]: "nonneg_units (text_units s)" "nonneg_units (data_units d t)" "nonneg_units (0, 0, 0)"
  by (auto simp: nonneg_units_def text_units_def data_units_def)

lemma nonneg_part [simp]: "nonneg_units (part_units p)"
  by (cases p) (simp_all add: nonneg_add split: option.split result_output.split)

lemma add_units_assoc: "add_units (add_units u v) w = add_units u (add_units v w)"
  by (simp add: add_units_def)

lemma add_units_zero [simp]: "add_units (0, 0, 0) u = u" "add_units u (0, 0, 0) = u"
  by (simp_all add: add_units_def)

lemma fold_units: "fold (\<lambda>p u. add_units u (part_units p)) ps u = add_units u (units_of ps)"
proof (induction ps arbitrary: u)
  case (Cons p ps)
  show ?case
    using Cons [of "add_units u (part_units p)"] Cons [of "part_units p"]
    by (simp add: units_of_def add_units_assoc)
qed (simp add: units_of_def)

lemma units_Cons: "units_of (p # ps) = add_units (part_units p) (units_of ps)"
  using fold_units [of ps "part_units p"] by (simp add: units_of_def)

lemma units_append: "units_of (ps @ qs) = add_units (units_of ps) (units_of qs)"
  by (induction ps) (simp_all add: units_Cons add_units_assoc, simp add: units_of_def)

lemma nonneg_units_of [simp]: "nonneg_units (units_of ps)"
  by (induction ps) (simp_all add: units_Cons nonneg_add, simp add: units_of_def)

lemma tokens_from_add:
  assumes "0 \<le> a" "0 \<le> b"
  shows "tokens_from_units a n False + tokens_from_units b k False \<le> tokens_from_units (a + b) (n + k) False"
    and "tokens_from_units (a + b) (n + k) False \<le> tokens_from_units a n False + tokens_from_units b k False + 1"
  by (simp_all add: tokens_from_units_def)

lemma estimate_nonneg [simp]: "0 \<le> estimate_content_tokens ps"
  using nonneg_units_of [of ps]
  by (auto simp: estimate_content_tokens_def nonneg_units_def tokens_from_units_def estimated_image_tokens_def
      split: prod.split)

text \<open>Splitting the parts of a message over two loses at most one token of the estimate.\<close>

lemma estimate_split:
  "estimate_content_tokens ps + estimate_content_tokens qs \<le> estimate_content_tokens (ps @ qs)"
  "estimate_content_tokens (ps @ qs) \<le> estimate_content_tokens ps + estimate_content_tokens qs + 1"
  by (auto simp: estimate_content_tokens_def units_append add_units_def tokens_from_units_def
      algebra_simps split: prod.split)

lemma estimate_messages_append [simp]:
  "estimate_messages j (ms @ ns) = estimate_messages j ms + estimate_messages j ns"
  by (simp add: estimate_messages_def)

lemma estimate_messages_nonneg [simp]: "0 \<le> estimate_messages j ms"
  by (auto simp: estimate_messages_def intro!: sum_list_nonneg)

lemma estimate_messages_Nil [simp]: "estimate_messages j [] = 0"
  by (simp add: estimate_messages_def)

text \<open>A text costs at least a token for each rune beyond ASCII and a quarter for each ASCII byte.\<close>

lemma estimate_string_bounds:
  "other_runes s \<le> estimate_string_tokens s"
  "int (rune_count s) \<le> 4 * estimate_string_tokens s"
  "estimate_string_tokens s \<le> int (rune_count s)"
  using unit_counts [of s] counts_nonneg [of s]
  by (auto simp: estimate_string_tokens_def estimate_text_tokens_def tokens_from_units_def; presburger)+

end
