(* ===== verification/Tool_Budget.thy ===== *)
theory Tool_Budget
  imports Token_Estimate
begin

text \<open>
  The size limits on tool results, after internal/agent/context_window.go: the limit of one
  result, the budget of one step, the budget of the results of one provider message, and
  their application to a stored history. Lengths are in runes.

  The archive of full outputs is an environment: whether the agent has directories to write
  to, the SHA-256 of a content in hexadecimal, and whether writing the file succeeds. The
  store accepts or refuses each Update (\<open>ok\<close>).
\<close>

record archive_env =
  ae_agent :: bool
  ae_data_dir :: string
  ae_working_dir :: string
  ae_hash :: "string \<Rightarrow> string"
  ae_write :: "string \<Rightarrow> bool"

section \<open>Notices\<close>

definition result_limit :: int where "result_limit = 20000"
definition step_limit :: int where "step_limit = 40000"
definition message_limit :: int where "message_limit = 200000"
definition preview_limit :: nat where "preview_limit = 2000"

text \<open>The dash U+2014.\<close>

definition dash :: string where
  "dash = [CHR 0xE2, CHR 0x80, CHR 0x94]"

definition quoted :: "string \<Rightarrow> string" where
  "quoted s = [CHR 0x60] @ s @ [CHR 0x60]"

definition saved_hint :: "string \<Rightarrow> string" where
  "saved_hint path = ''This excerpt is incomplete; do not guess from it or assume it contains the full result. The full output was saved to '' @ quoted path @ ''. Use the read tool with offset/limit, or the grep tool with path='' @ quoted path @ '', to search inside it. Only the grep tool can read archive:// paths; shell grep cannot.]''"

definition truncated_notice :: "int \<Rightarrow> string \<Rightarrow> string" where
  "truncated_notice omitted path =
     [CHR 0x0A, CHR 0x0A] @ ''['' @ show_int omitted @ '' characters omitted '' @ dash @
     '' output exceeded the context window limit. '' @
     (if path \<noteq> [] then saved_hint path
      else ''This excerpt is incomplete; do not guess from it or assume it contains the full result. If you need more detail, rerun the tool with a narrower scope or use a precise read with offset/limit when available.]'')"

text \<open>The preview keeps the last characters; the counts are those shown and those there were.\<close>

definition exhausted_preview :: "string \<Rightarrow> string \<times> nat \<times> nat" where
  "exhausted_preview content =
     (let original = rune_count content; shown = min original preview_limit
      in if shown = 0 then ([], 0, original)
         else (concat (drop (original - shown) (runes content)), shown, original))"

definition exhausted_notice :: "string \<Rightarrow> nat \<Rightarrow> nat \<Rightarrow> string \<Rightarrow> string" where
  "exhausted_notice head original shown path =
     head @ ''Showing the last '' @ show_int (int shown) @ '' of '' @ show_int (int original) @
     '' characters as a preview; '' @ show_int (int original - int shown) @
     '' characters omitted from this excerpt. '' @
     (if path \<noteq> [] then saved_hint path
      else ''This excerpt is incomplete; do not guess from it or assume it contains the full result. Re-run the tool with a narrower scope if you still need it, or use a precise read with offset/limit when available.]'')"

definition step_notice :: "nat \<Rightarrow> nat \<Rightarrow> string \<Rightarrow> string" where
  "step_notice original shown path =
     exhausted_notice ''[Step tool-result budget exhausted. '' original shown path"

definition message_notice :: "int \<Rightarrow> nat \<Rightarrow> nat \<Rightarrow> string \<Rightarrow> string" where
  "message_notice used original shown path =
     exhausted_notice (''[Message tool-result budget exhausted ('' @ show_int used @ ''/'' @
       show_int message_limit @ '' chars used). '') original shown path"

definition exhausted_content :: "string \<Rightarrow> string \<Rightarrow> string" where
  "exhausted_content preview notice =
     (if preview = [] then notice else preview @ [CHR 0x0A, CHR 0x0A] @ notice)"

section \<open>The archive\<close>

definition cleared_prefix :: string where
  "cleared_prefix = ''[Old tool result content cleared''"

text \<open>The reference under which the output can be read again; None is an error.\<close>

definition persist_result :: "archive_env \<Rightarrow> result_part \<Rightarrow> string option" where
  "persist_result e tr =
     (let content = to_valid_utf8 (trs_content tr) replacement_char in
      if \<not> ae_agent e \<or> trs_content tr = [] then Some []
      else if has_prefix (trs_content tr) cleared_prefix then Some []
      else if ae_data_dir e = [] \<and> ae_working_dir e = [] then Some []
      else if ae_write e content then Some (''archive://'' @ take 12 (ae_hash e content))
      else None)"

definition output_path :: "archive_env \<Rightarrow> result_part \<Rightarrow> string" where
  "output_path e tr =
     (if ae_agent e then (case persist_result e tr of Some p \<Rightarrow> p | None \<Rightarrow> []) else [])"

section \<open>One result\<close>

text \<open>Only successful text results are limited.\<close>

definition limited :: "result_part \<Rightarrow> bool" where
  "limited tr \<longleftrightarrow> \<not> trs_error tr \<and> trs_data tr = [] \<and> trs_mime tr = []"

text \<open>
  The three rounds that make room for the notice, whose length depends on the number of
  characters it says were omitted.
\<close>

definition keep_round :: "int \<Rightarrow> int \<Rightarrow> string \<Rightarrow> int \<Rightarrow> int" where
  "keep_round limit chars path keep =
     (let k = limit - int (rune_count (truncated_notice (chars - keep) path));
          k = (if k < 0 then 0 else k)
      in if k > chars then chars else k)"

definition keep_chars :: "int \<Rightarrow> int \<Rightarrow> string \<Rightarrow> int" where
  "keep_chars limit chars path =
     keep_round limit chars path (keep_round limit chars path (keep_round limit chars path limit))"

definition truncate_to :: "int \<Rightarrow> string \<Rightarrow> string \<Rightarrow> string" where
  "truncate_to limit path content =
     (let chars = int (rune_count content); keep = keep_chars limit chars path
      in concat (take (nat keep) (runes content)) @ truncated_notice (chars - keep) path)"

definition truncate_tool_result :: "archive_env \<Rightarrow> result_part \<Rightarrow> result_part \<times> bool" where
  "truncate_tool_result e tr =
     (if \<not> limited tr \<or> int (rune_count (trs_content tr)) \<le> result_limit then (tr, False)
      else (tr\<lparr>trs_content := truncate_to result_limit (output_path e tr) (trs_content tr)\<rparr>, True))"

text \<open>The pointer \<^verbatim>\<open>used\<close>: None is nil.\<close>

definition enforce_step_budget :: "archive_env \<Rightarrow> result_part \<Rightarrow> int option \<Rightarrow> result_part \<times> int option" where
  "enforce_step_budget e tr used =
     (case used of
        None \<Rightarrow> (tr, None)
      | Some u \<Rightarrow>
          let remaining = step_limit - u; chars = int (rune_count (trs_content tr)) in
          if \<not> limited tr then (tr, used)
          else if remaining \<le> 0 then
            (case exhausted_preview (trs_content tr) of (preview, shown, original) \<Rightarrow>
               (tr\<lparr>trs_content := exhausted_content preview (step_notice original shown (output_path e tr))\<rparr>, used))
          else if chars \<le> remaining then (tr, Some (u + chars))
          else (tr\<lparr>trs_content := truncate_to remaining (output_path e tr) (trs_content tr)\<rparr>, Some step_limit))"

section \<open>The results of one provider message\<close>

fun message_budget_from :: "archive_env \<Rightarrow> int \<Rightarrow> result_part list \<Rightarrow> result_part list" where
  "message_budget_from e used [] = []"
| "message_budget_from e used (tr # trs) =
     (let remaining = message_limit - used; chars = int (rune_count (trs_content tr)) in
      if \<not> limited tr then tr # message_budget_from e used trs
      else if remaining \<le> 0 then
        (case exhausted_preview (trs_content tr) of (preview, shown, original) \<Rightarrow>
           tr\<lparr>trs_content := exhausted_content preview (message_notice used original shown (output_path e tr))\<rparr>)
        # message_budget_from e used trs
      else if chars \<le> remaining then tr # message_budget_from e (used + chars) trs
      else tr\<lparr>trs_content := truncate_to remaining (output_path e tr) (trs_content tr)\<rparr>
        # message_budget_from e message_limit trs)"

definition enforce_message_budget :: "archive_env \<Rightarrow> result_part list \<Rightarrow> result_part list" where
  "enforce_message_budget e trs = message_budget_from e 0 trs"

section \<open>A stored history\<close>

fun part_limited :: "content_part \<Rightarrow> result_part option" where
  "part_limited (PResult r) = (if limited r then Some r else None)"
| "part_limited _ = None"

text \<open>Writing results back to the places they were collected from, in order.\<close>

fun put_results :: "content_part list \<Rightarrow> result_part list \<Rightarrow> content_part list \<times> result_part list" where
  "put_results [] rs = ([], rs)"
| "put_results (p # ps) rs =
     (case part_limited p of
        None \<Rightarrow> (let (qs, rs') = put_results ps rs in (p # qs, rs'))
      | Some _ \<Rightarrow>
          (case rs of [] \<Rightarrow> (p # ps, [])
           | r # rs1 \<Rightarrow> (let (qs, rs') = put_results ps rs1 in (PResult r # qs, rs'))))"

fun put_group :: "message list \<Rightarrow> result_part list \<Rightarrow> message list" where
  "put_group [] rs = []"
| "put_group (m # ms) rs =
     (let (ps, rs') = put_results (msg_parts m) rs in m\<lparr>msg_parts := ps\<rparr> # put_group ms rs')"

definition group_results :: "message list \<Rightarrow> result_part list" where
  "group_results ms = concat (map (\<lambda>m. List.map_filter part_limited (msg_parts m)) ms)"

definition result_chars :: "result_part list \<Rightarrow> int" where
  "result_chars rs = sum_list (map (\<lambda>r. int (rune_count (trs_content r))) rs)"

definition budget_group :: "archive_env \<Rightarrow> message list \<Rightarrow> message list" where
  "budget_group e ms =
     (if result_chars (group_results ms) \<le> message_limit then ms
      else put_group ms (enforce_message_budget e (group_results ms)))"

text \<open>Updating the rows of a group in order; the first refusal ends the pass.\<close>

fun write_rows :: "(message \<Rightarrow> bool) \<Rightarrow> message list \<Rightarrow> message list \<Rightarrow> message list \<times> bool" where
  "write_rows ok (m # ms) (m' # ms') =
     (if ok m' then (let (rs, b) = write_rows ok ms ms' in (m' # rs, b)) else (m # ms, False))"
| "write_rows ok ms ms' = (ms, True)"

function enforce_message_budgets ::
  "archive_env \<Rightarrow> (message \<Rightarrow> bool) \<Rightarrow> message list \<Rightarrow> message list \<times> bool" where
  "enforce_message_budgets e ok [] = ([], True)"
| "enforce_message_budgets e ok (m # ms) =
     (if msg_role m \<noteq> Tool
      then (let (rs, b) = enforce_message_budgets e ok ms in (m # rs, b))
      else
        (let g = m # takeWhile (\<lambda>m. msg_role m = Tool) ms;
             rest = dropWhile (\<lambda>m. msg_role m = Tool) ms;
             g' = budget_group e g;
             w = (if g' = g then (g, True) else write_rows ok g g')
         in if snd w then (let (rs, b) = enforce_message_budgets e ok rest in (fst w @ rs, b))
            else (fst w @ rest, False)))"
  by pat_completeness auto
termination
  by (relation "measure (\<lambda>(e, ok, ms). length ms)") (auto simp: less_Suc_eq_le length_dropWhile_le)

definition truncate_part :: "archive_env \<Rightarrow> content_part \<Rightarrow> content_part" where
  "truncate_part e p =
     (case p of PResult r \<Rightarrow> PResult (fst (truncate_tool_result e r)) | _ \<Rightarrow> p)"

fun truncate_rows :: "archive_env \<Rightarrow> (message \<Rightarrow> bool) \<Rightarrow> message list \<Rightarrow> message list \<times> bool" where
  "truncate_rows e ok [] = ([], True)"
| "truncate_rows e ok (m # ms) =
     (let m' = m\<lparr>msg_parts := map (truncate_part e) (msg_parts m)\<rparr> in
      if msg_role m \<noteq> Tool \<or> (\<forall>r \<in> set (tool_results m). \<not> snd (truncate_tool_result e r))
      then (let (rs, b) = truncate_rows e ok ms in (m # rs, b))
      else if ok m' then (let (rs, b) = truncate_rows e ok ms in (m' # rs, b))
      else (m # ms, False))"

definition truncate_oversized :: "archive_env \<Rightarrow> (message \<Rightarrow> bool) \<Rightarrow> message list \<Rightarrow> message list \<times> bool" where
  "truncate_oversized e ok ms =
     (let (rows, done1) = truncate_rows e ok ms in
      if done1 then enforce_message_budgets e ok rows else (rows, False))"

section \<open>The copy sent to the model\<close>

fun replace_output :: "(string \<Rightarrow> string option) \<Rightarrow> fantasy_part \<Rightarrow> fantasy_part" where
  "replace_output truncated (FResult r o1) =
     (case truncated (fr_call_id r) of
        None \<Rightarrow> FResult r o1
      | Some replacement \<Rightarrow>
          (case fr_output r of
             Some (OutText t) \<Rightarrow> FResult (r\<lparr>fr_output := Some (OutText replacement)\<rparr>) o1
           | _ \<Rightarrow> FResult r o1))"
| "replace_output truncated p = p"

definition apply_truncated_results :: "(string \<Rightarrow> string option) \<Rightarrow> fantasy_message list \<Rightarrow> fantasy_message list" where
  "apply_truncated_results truncated ms =
     map (\<lambda>m. if fm_role m = Tool then m\<lparr>fm_content := map (replace_output truncated) (fm_content m)\<rparr> else m) ms"

end
