(* ===== verification/Compaction_Prune.thy ===== *)
theory Compaction_Prune
  imports Tool_Budget
begin

text \<open>
  The built-in pruning of old tool results, after internal/agent/compact_builtin.go: a walk
  from the newest message back that protects the recent turns and a budget of tool output,
  then the replacement of what is left by a placeholder. \<open>protect\<close>, \<open>cached\<close> and \<open>archive\<close>
  are the three optional arguments, None for nil.
\<close>

definition prune_protect_tokens :: int where "prune_protect_tokens = 40000"
definition prune_min_tokens :: int where "prune_min_tokens = 20000"
definition prune_recent_turns :: nat where "prune_recent_turns = 2"

definition prune_protected_names :: "string set" where
  "prune_protected_names = {''skill'', ''goal''}"

section \<open>The walk\<close>

text \<open>A target: message index, part index, estimated tokens, characters.\<close>

type_synonym target = "nat \<times> nat \<times> int \<times> nat"

record prune_state =
  pr_turns :: nat
  pr_protected :: int
  pr_targets :: "target list"
  pr_total :: int

text \<open>
  What the loop body does with a part: pass over it, leave the walk at a result cleared
  before, or count its tokens.
\<close>

datatype part_action = SkipPart | StopWalk | CountPart result_part

definition part_action :: "(result_part \<Rightarrow> bool) option \<Rightarrow> content_part \<Rightarrow> part_action" where
  "part_action protect p =
     (case part_result p of
        None \<Rightarrow> SkipPart
      | Some tr \<Rightarrow>
          if trs_error tr \<or> trs_content tr = [] then SkipPart
          else if trs_name tr \<in> prune_protected_names then SkipPart
          else if (case protect of Some f \<Rightarrow> f tr | None \<Rightarrow> False) then SkipPart
          else if has_prefix (trs_content tr) cleared_prefix then StopWalk
          else CountPart tr)"

text \<open>The loop over the parts of one tool message; True when the walk is left.\<close>

fun prune_parts ::
  "(result_part \<Rightarrow> bool) option \<Rightarrow> nat \<Rightarrow> nat \<Rightarrow> content_part list \<Rightarrow> prune_state \<Rightarrow> prune_state \<times> bool" where
  "prune_parts protect i j [] s = (s, False)"
| "prune_parts protect i j (p # ps) s =
     (case part_action protect p of
        SkipPart \<Rightarrow> prune_parts protect i (Suc j) ps s
      | StopWalk \<Rightarrow> (s, True)
      | CountPart tr \<Rightarrow>
          let tokens = estimate_string_tokens (trs_content tr) in
          if pr_protected s < prune_protect_tokens
          then prune_parts protect i (Suc j) ps (s\<lparr>pr_protected := pr_protected s + tokens\<rparr>)
          else prune_parts protect i (Suc j) ps
                 (s\<lparr>pr_targets := pr_targets s @ [(i, j, tokens, rune_count (trs_content tr))],
                    pr_total := pr_total s + tokens\<rparr>))"

text \<open>The loop over the messages, newest first.\<close>

fun prune_walk ::
  "(result_part \<Rightarrow> bool) option \<Rightarrow> nat set option \<Rightarrow> (nat \<times> message) list \<Rightarrow> prune_state \<Rightarrow> prune_state" where
  "prune_walk protect cached [] s = s"
| "prune_walk protect cached ((i, m) # rest) s =
     (let s = (if msg_role m = User then s\<lparr>pr_turns := Suc (pr_turns s)\<rparr> else s) in
      if msg_role m = Assistant \<and> msg_summary m then s
      else if pr_turns s < prune_recent_turns then prune_walk protect cached rest s
      else if msg_role m \<noteq> Tool then prune_walk protect cached rest s
      else if (case cached of Some c \<Rightarrow> i \<in> c | None \<Rightarrow> False) then prune_walk protect cached rest s
      else (case prune_parts protect i 0 (msg_parts m) s of
              (s', stop) \<Rightarrow> if stop then s' else prune_walk protect cached rest s'))"

definition prune_scan ::
  "(result_part \<Rightarrow> bool) option \<Rightarrow> nat set option \<Rightarrow> message list \<Rightarrow> prune_state" where
  "prune_scan protect cached ms =
     prune_walk protect cached (rev (List.enumerate 0 ms))
       \<lparr>pr_turns = 0, pr_protected = 0, pr_targets = [], pr_total = 0\<rparr>"

section \<open>The replacement\<close>

definition cleared_notice :: "int \<Rightarrow> nat \<Rightarrow> string \<Rightarrow> string" where
  "cleared_notice tokens chars path =
     cleared_prefix @ '' to reduce context size. '' @ show_int tokens @ '' estimated tokens omitted, '' @
     show_int (int chars) @
     (if path \<noteq> []
      then '' characters omitted. The full output was archived to '' @ quoted path @ ''; use the read tool to inspect it.]''
      else '' characters omitted.]'')"

definition clear_result :: "(result_part \<Rightarrow> string) option \<Rightarrow> int \<Rightarrow> nat \<Rightarrow> result_part \<Rightarrow> result_part" where
  "clear_result archive tokens chars tr =
     tr\<lparr>trs_content := cleared_notice tokens chars (case archive of Some f \<Rightarrow> f tr | None \<Rightarrow> [])\<rparr>"

definition clear_target ::
  "(result_part \<Rightarrow> string) option \<Rightarrow> target \<Rightarrow> message list \<Rightarrow> message list" where
  "clear_target archive t ms =
     (case t of (i, j, tokens, chars) \<Rightarrow>
        ms[i := (ms ! i)\<lparr>msg_parts := (msg_parts (ms ! i))
             [j := (case msg_parts (ms ! i) ! j of
                      PResult tr \<Rightarrow> PResult (clear_result archive tokens chars tr)
                    | p \<Rightarrow> p)]\<rparr>])"

definition prune_tool_results ::
  "(result_part \<Rightarrow> bool) option \<Rightarrow> nat set option \<Rightarrow> (result_part \<Rightarrow> string) option \<Rightarrow> message list \<Rightarrow> message list" where
  "prune_tool_results protect cached archive ms =
     (let s = prune_scan protect cached ms in
      if ms = [] \<or> pr_total s \<le> prune_min_tokens \<or> pr_targets s = [] then ms
      else fold (clear_target archive) (pr_targets s) ms)"

text \<open>The two wrappers: without an archive, and without any argument.\<close>

definition prune_with_protection ::
  "(result_part \<Rightarrow> bool) option \<Rightarrow> nat set option \<Rightarrow> message list \<Rightarrow> message list" where
  "prune_with_protection protect cached ms = prune_tool_results protect cached None ms"

definition prune_builtin :: "message list \<Rightarrow> message list" where
  "prune_builtin ms = prune_with_protection None None ms"

section \<open>Where targets lie\<close>

definition counted :: "(result_part \<Rightarrow> bool) option \<Rightarrow> content_part \<Rightarrow> bool" where
  "counted protect p \<longleftrightarrow> (\<exists>tr. part_action protect p = CountPart tr)"

lemma part_action_Count:
  "part_action protect p = CountPart tr \<longleftrightarrow>
     p = PResult tr \<and> \<not> trs_error tr \<and> trs_content tr \<noteq> [] \<and> trs_name tr \<notin> prune_protected_names \<and>
     (case protect of Some f \<Rightarrow> \<not> f tr | None \<Rightarrow> True) \<and> \<not> has_prefix (trs_content tr) cleared_prefix"
  by (cases p) (auto simp: part_action_def split: option.splits)

text \<open>
  A place that may be pruned: a counted result of a tool message with two newer user turns
  and no summary of the assistant after it.
\<close>

definition prunable :: "(result_part \<Rightarrow> bool) option \<Rightarrow> nat set option \<Rightarrow> message list \<Rightarrow> nat \<Rightarrow> nat \<Rightarrow> bool" where
  "prunable protect cached ms i j \<longleftrightarrow>
     i < length ms \<and> msg_role (ms ! i) = Tool \<and> j < length (msg_parts (ms ! i)) \<and>
     prune_recent_turns \<le> length (filter (\<lambda>m. msg_role m = User) (drop i ms)) \<and>
     (\<forall>m \<in> set (drop i ms). \<not> (msg_role m = Assistant \<and> msg_summary m)) \<and>
     (case cached of Some c \<Rightarrow> i \<notin> c | None \<Rightarrow> True) \<and>
     counted protect (msg_parts (ms ! i) ! j)"

text \<open>The targets one message adds.\<close>

definition part_targets :: "(result_part \<Rightarrow> bool) option \<Rightarrow> nat \<Rightarrow> nat \<Rightarrow> content_part list \<Rightarrow> target list \<Rightarrow> bool" where
  "part_targets protect i j ps ts \<longleftrightarrow> distinct (map (fst \<circ> snd) ts) \<and>
     (\<forall>t \<in> set ts. fst t = i \<and> j \<le> fst (snd t) \<and> fst (snd t) < j + length ps \<and>
        counted protect (ps ! (fst (snd t) - j)))"

lemma part_targets_Cons:
  "part_targets protect i (Suc j) ps ts \<Longrightarrow> part_targets protect i j (p # ps) ts"
  by (auto simp: part_targets_def nth_Cons' )

lemma part_targets_hit:
  assumes "part_targets protect i (Suc j) ps ts" "counted protect p"
  shows "part_targets protect i j (p # ps) ((i, j, k, n) # ts)"
  using assms by (fastforce simp: part_targets_def nth_Cons')

lemma prune_parts_targets:
  "\<exists>ts. pr_targets (fst (prune_parts protect i j ps s)) = pr_targets s @ ts \<and>
     pr_turns (fst (prune_parts protect i j ps s)) = pr_turns s \<and> part_targets protect i j ps ts"
proof (induction ps arbitrary: j s)
  case (Cons p ps)
  have step: ?case
    if "prune_parts protect i j (p # ps) s = prune_parts protect i (Suc j) ps s'"
      "pr_turns s' = pr_turns s" "pr_targets s' = pr_targets s @ us"
      "us = [] \<or> (\<exists>k n. us = [(i, j, k, n)]) \<and> counted protect p" for s' us
  proof -
    obtain ts where ts: "pr_targets (fst (prune_parts protect i (Suc j) ps s')) = pr_targets s' @ ts"
      "pr_turns (fst (prune_parts protect i (Suc j) ps s')) = pr_turns s'"
      "part_targets protect i (Suc j) ps ts"
      using Cons [of "Suc j" s'] by blast
    have "part_targets protect i j (p # ps) (us @ ts)"
      using that(4) part_targets_Cons [OF ts(3)] part_targets_hit [OF ts(3)] by auto
    then show ?thesis using that(1-3) ts(1,2) by (intro exI [of _ "us @ ts"]) simp
  qed
  show ?case
  proof (cases "part_action protect p")
    case SkipPart
    then show ?thesis using step [of s "[]"] by simp
  next
    case StopWalk
    then show ?thesis by (simp add: part_targets_def)
  next
    case (CountPart tr)
    then have "counted protect p" by (simp add: counted_def)
    then show ?thesis
      using CountPart
        step [of "s\<lparr>pr_protected := pr_protected s + estimate_string_tokens (trs_content tr)\<rparr>" "[]"]
        step [of "s\<lparr>pr_targets := pr_targets s @ [(i, j, estimate_string_tokens (trs_content tr), rune_count (trs_content tr))],
            pr_total := pr_total s + estimate_string_tokens (trs_content tr)\<rparr>"
          "[(i, j, estimate_string_tokens (trs_content tr), rune_count (trs_content tr))]"]
      by (cases "pr_protected s < prune_protect_tokens") (simp_all add: Let_def)
  qed
qed (simp add: part_targets_def)

abbreviation place :: "target \<Rightarrow> nat \<times> nat" where
  "place t \<equiv> (fst t, fst (snd t))"

lemma enumerate_snoc: "List.enumerate 0 (xs @ [x]) = List.enumerate 0 xs @ [(length xs, x)]"
  by (simp add: enumerate_append_eq)

lemma prune_walk_targets:
  assumes "pr_turns s = length (filter (\<lambda>m. msg_role m = User) ys)"
    and "\<forall>m \<in> set ys. \<not> (msg_role m = Assistant \<and> msg_summary m)"
  shows "\<exists>ts. pr_targets (prune_walk protect cached (rev (List.enumerate 0 xs)) s) = pr_targets s @ ts \<and>
     distinct (map place ts) \<and> (\<forall>t \<in> set ts. fst t < length xs) \<and>
     (\<forall>t \<in> set ts. prunable protect cached (xs @ ys) (fst t) (fst (snd t)))"
  using assms
proof (induction xs arbitrary: ys s rule: rev_induct)
  case (snoc m xs)
  define s' where "s' = (if msg_role m = User then s\<lparr>pr_turns := Suc (pr_turns s)\<rparr> else s)"
  have s': "pr_turns s' = length (filter (\<lambda>m. msg_role m = User) (m # ys))" "pr_targets s' = pr_targets s"
    using snoc(2) by (simp_all add: s'_def)
  let ?w = "prune_walk protect cached (rev (List.enumerate 0 xs))"
  let ?i = "length xs"
  have walk: "prune_walk protect cached (rev (List.enumerate 0 (xs @ [m]))) s =
     (if msg_role m = Assistant \<and> msg_summary m then s'
      else if pr_turns s' < prune_recent_turns \<or> msg_role m \<noteq> Tool \<or>
        (case cached of Some c \<Rightarrow> ?i \<in> c | None \<Rightarrow> False) then ?w s'
      else (case prune_parts protect ?i 0 (msg_parts m) s' of (u, stop) \<Rightarrow> if stop then u else ?w u))"
    by (simp add: enumerate_snoc s'_def Let_def)
  have rest: ?case if "prune_walk protect cached (rev (List.enumerate 0 (xs @ [m]))) s = ?w u \<or>
      prune_walk protect cached (rev (List.enumerate 0 (xs @ [m]))) s = u"
    "pr_turns u = pr_turns s'" "pr_targets u = pr_targets s @ us" "part_targets protect ?i 0 (msg_parts m) us"
    "us \<noteq> [] \<longrightarrow> \<not> pr_turns s' < prune_recent_turns \<and> msg_role m = Tool \<and> \<not> (case cached of Some c \<Rightarrow> ?i \<in> c | None \<Rightarrow> False)"
    "\<not> (msg_role m = Assistant \<and> msg_summary m)" for u us
  proof -
    note h = that
    have ys: "\<forall>x \<in> set (m # ys). \<not> (msg_role x = Assistant \<and> msg_summary x)"
      using snoc(3) h(6) by simp
    obtain ts where ts: "pr_targets (?w u) = pr_targets u @ ts" "distinct (map place ts)"
      "\<forall>t \<in> set ts. fst t < length xs"
      "\<forall>t \<in> set ts. prunable protect cached (xs @ (m # ys)) (fst t) (fst (snd t))"
      using snoc(1) [OF trans [OF h(2) s'(1)] ys] by blast
    have us: "\<forall>t \<in> set us. fst t = ?i \<and> prunable protect cached (xs @ (m # ys)) (fst t) (fst (snd t))"
    proof
      fix t assume t: "t \<in> set us"
      have "fst t = ?i" "fst (snd t) < length (msg_parts m)" "counted protect (msg_parts m ! fst (snd t))"
        using h(4) t by (auto simp: part_targets_def)
      moreover have "us \<noteq> []" using t by auto
      ultimately show "fst t = ?i \<and> prunable protect cached (xs @ (m # ys)) (fst t) (fst (snd t))"
        using h(5) ys s'(1) by (auto simp: prunable_def split: option.splits)
    qed
    have du: "distinct (map place us)"
      using h(4) by (auto simp: part_targets_def distinct_map inj_on_def)
    have sep: "set (map place us) \<inter> set (map place ts) = {}" using us ts(3) by fastforce
    show ?thesis
    proof (cases "prune_walk protect cached (rev (List.enumerate 0 (xs @ [m]))) s = ?w u")
      case True
      then show ?thesis
        using ts us du sep h(3) by (intro exI [of _ "us @ ts"]) (auto simp: less_Suc_eq)
    next
      case False
      then show ?thesis using us du h(1,3) by (intro exI [of _ us]) auto
    qed
  qed
  show ?case
  proof (cases "msg_role m = Assistant \<and> msg_summary m")
    case True
    then show ?thesis unfolding walk by (auto simp: s')
  next
    case False
    obtain u stop where u: "prune_parts protect ?i 0 (msg_parts m) s' = (u, stop)" by fastforce
    obtain us where us: "pr_targets u = pr_targets s' @ us" "pr_turns u = pr_turns s'"
      "part_targets protect ?i 0 (msg_parts m) us"
      using prune_parts_targets [of protect ?i 0 "msg_parts m" s'] u by auto
    show ?thesis
    proof (cases "pr_turns s' < prune_recent_turns \<or> msg_role m \<noteq> Tool \<or> (case cached of Some c \<Rightarrow> ?i \<in> c | None \<Rightarrow> False)")
      case True
      show ?thesis by (rule rest [of s' "[]"]) (use False True in \<open>auto simp: walk s' part_targets_def\<close>)
    next
      case F: False
      show ?thesis by (rule rest [of u us]) (use False F u us in \<open>auto simp: walk s'\<close>)
    qed
  qed
qed simp

lemma prune_scan_targets:
  "distinct (map place (pr_targets (prune_scan protect cached ms)))"
  "t \<in> set (pr_targets (prune_scan protect cached ms)) \<Longrightarrow>
     prunable protect cached ms (fst t) (fst (snd t))"
  using prune_walk_targets [of "\<lparr>pr_turns = 0, pr_protected = 0, pr_targets = [], pr_total = 0\<rparr>" "[]" protect cached ms]
  by (auto simp: prune_scan_def)

section \<open>What the replacement changes\<close>

definition clear_part :: "(result_part \<Rightarrow> string) option \<Rightarrow> int \<Rightarrow> nat \<Rightarrow> content_part \<Rightarrow> content_part" where
  "clear_part archive k n p = (case p of PResult tr \<Rightarrow> PResult (clear_result archive k n tr) | _ \<Rightarrow> p)"

text \<open>The messages after clearing the targets \<open>ts\<close>, place by place.\<close>

definition cleared :: "(result_part \<Rightarrow> string) option \<Rightarrow> target list \<Rightarrow> message list \<Rightarrow> message list \<Rightarrow> bool" where
  "cleared archive ts ms ns \<longleftrightarrow> length ns = length ms \<and>
     (\<forall>i < length ms. \<exists>ps. ns ! i = (ms ! i)\<lparr>msg_parts := ps\<rparr> \<and> length ps = length (msg_parts (ms ! i)) \<and>
        (\<forall>j < length ps.
           ((i, j) \<notin> set (map place ts) \<longrightarrow> ps ! j = msg_parts (ms ! i) ! j) \<and>
           (\<forall>k n. (i, j, k, n) \<in> set ts \<longrightarrow> ps ! j = clear_part archive k n (msg_parts (ms ! i) ! j))))"

lemma cleared_Nil: "cleared archive [] ms ms"
proof -
  have "\<exists>ps. m = m\<lparr>msg_parts := ps\<rparr> \<and> length ps = length (msg_parts m) \<and>
      (\<forall>j < length ps. ps ! j = msg_parts m ! j)" for m :: message
    by (rule exI [of _ "msg_parts m"]) simp
  then show ?thesis by (simp add: cleared_def)
qed

lemma clear_target_alt:
  "clear_target archive (i, j, k, n) ms =
     ms[i := (ms ! i)\<lparr>msg_parts := (msg_parts (ms ! i))[j := clear_part archive k n (msg_parts (ms ! i) ! j)]\<rparr>]"
  by (cases "msg_parts (ms ! i) ! j") (simp_all add: clear_target_def clear_part_def)

lemma cleared_step:
  assumes "cleared archive ts ms ns" "place t \<notin> set (map place ts)"
  shows "cleared archive (ts @ [t]) ms (clear_target archive t ns)"
proof -
  obtain i j k n where t: "t = (i, j, k, n)" by (metis prod_cases4)
  have new: "\<And>k n. (i, j, k, n) \<notin> set ts" using assms(2) by (force simp: t)
  show ?thesis
    unfolding cleared_def t
  proof (intro conjI allI impI)
    show "length (clear_target archive (i, j, k, n) ns) = length ms"
      using assms(1) by (simp add: cleared_def clear_target_alt)
    fix i' assume i': "i' < length ms"
    obtain ps where ps: "ns ! i' = (ms ! i')\<lparr>msg_parts := ps\<rparr>" "length ps = length (msg_parts (ms ! i'))"
      "\<forall>j < length ps. ((i', j) \<notin> set (map place ts) \<longrightarrow> ps ! j = msg_parts (ms ! i') ! j) \<and>
         (\<forall>k n. (i', j, k, n) \<in> set ts \<longrightarrow> ps ! j = clear_part archive k n (msg_parts (ms ! i') ! j))"
      using assms(1) i' by (auto simp: cleared_def)
    have len: "length ns = length ms" using assms(1) by (simp add: cleared_def)
    let ?ps = "if i' = i then ps[j := clear_part archive k n (ps ! j)] else ps"
    have "clear_target archive (i, j, k, n) ns ! i' = (ms ! i')\<lparr>msg_parts := ?ps\<rparr>"
      using i' len ps(1) by (auto simp: clear_target_alt)
    moreover have "length ?ps = length (msg_parts (ms ! i'))" using ps(2) by simp
    moreover have "\<forall>j' < length ?ps.
        ((i', j') \<notin> set (map place (ts @ [(i, j, k, n)])) \<longrightarrow> ?ps ! j' = msg_parts (ms ! i') ! j') \<and>
        (\<forall>k' n'. (i', j', k', n') \<in> set (ts @ [(i, j, k, n)]) \<longrightarrow> ?ps ! j' = clear_part archive k' n' (msg_parts (ms ! i') ! j'))"
    proof (intro allI impI)
      fix j' assume "j' < length ?ps"
      then show "((i', j') \<notin> set (map place (ts @ [(i, j, k, n)])) \<longrightarrow> ?ps ! j' = msg_parts (ms ! i') ! j') \<and>
        (\<forall>k' n'. (i', j', k', n') \<in> set (ts @ [(i, j, k, n)]) \<longrightarrow> ?ps ! j' = clear_part archive k' n' (msg_parts (ms ! i') ! j'))"
        using ps(2,3) new assms(2) by (cases "j' = j") (auto simp: t)
    qed
    ultimately show "\<exists>ps. clear_target archive (i, j, k, n) ns ! i' = (ms ! i')\<lparr>msg_parts := ps\<rparr> \<and>
        length ps = length (msg_parts (ms ! i')) \<and>
        (\<forall>j' < length ps. ((i', j') \<notin> set (map place (ts @ [(i, j, k, n)])) \<longrightarrow> ps ! j' = msg_parts (ms ! i') ! j') \<and>
          (\<forall>k' n'. (i', j', k', n') \<in> set (ts @ [(i, j, k, n)]) \<longrightarrow> ps ! j' = clear_part archive k' n' (msg_parts (ms ! i') ! j')))"
      by blast
  qed
qed

lemma cleared_fold:
  assumes "distinct (map place ts)"
  shows "cleared archive ts ms (fold (clear_target archive) ts ms)"
  using assms
proof (induction ts rule: rev_induct)
  case (snoc t ts)
  then show ?case using cleared_step [of archive ts ms _ t] by simp
qed (simp add: cleared_Nil)

section \<open>Pruning again\<close>

text \<open>
  The second walk sees what the first saw until the first target, and there it meets a
  cleared result and stops: it finds no target.
\<close>

definition stopped_at :: "(result_part \<Rightarrow> bool) option \<Rightarrow> target list \<Rightarrow> nat \<Rightarrow> nat \<Rightarrow> content_part list \<Rightarrow> content_part list \<Rightarrow> bool" where
  "stopped_at protect ts i j ps qs \<longleftrightarrow> length qs = length ps \<and>
     (\<forall>k < length ps. if (i, j + k) \<in> place ` set ts then part_action protect (qs ! k) = StopWalk
        else qs ! k = ps ! k)"

lemma stopped_at_Cons:
  "stopped_at protect ts i j (p # ps) qs \<longleftrightarrow>
     (\<exists>q rs. qs = q # rs \<and> (if (i, j) \<in> place ` set ts then part_action protect q = StopWalk else q = p) \<and>
        stopped_at protect ts i (Suc j) ps rs)"
  by (cases qs) (auto simp: stopped_at_def All_less_Suc2)

lemma stopped_at_same: "(\<forall>t \<in> set ts. fst t \<noteq> i) \<Longrightarrow> stopped_at protect ts i j ps qs \<Longrightarrow> qs = ps"
  by (auto simp: stopped_at_def intro!: nth_equalityI split: if_splits)

lemma parts_again:
  assumes "stopped_at protect ts i j ps qs"
    and "pr_targets (fst (prune_parts protect i j ps s)) = pr_targets s @ ts"
  shows "if ts = [] then qs = ps
     else \<exists>u. prune_parts protect i j qs s = (u, True) \<and> pr_targets u = pr_targets s"
  using assms
proof (induction ps arbitrary: j qs s)
  case (Cons p ps)
  obtain q rs where q: "qs = q # rs" "if (i, j) \<in> place ` set ts then part_action protect q = StopWalk else q = p"
    "stopped_at protect ts i (Suc j) ps rs"
    using Cons(2) by (auto simp: stopped_at_Cons)
  have later: "(i, j) \<notin> place ` set ts"
    if "pr_targets (fst (prune_parts protect i (Suc j) ps u)) = pr_targets u @ ts" for u
    using prune_parts_targets [of protect i "Suc j" ps u] that by (force simp: part_targets_def)
  have step: ?case
    if "prune_parts protect i j (p # ps) s = prune_parts protect i (Suc j) ps u"
      "\<And>rs. prune_parts protect i j (p # rs) s = prune_parts protect i (Suc j) rs u"
      "pr_targets u = pr_targets s" for u
  proof -
    have ts: "pr_targets (fst (prune_parts protect i (Suc j) ps u)) = pr_targets u @ ts"
      using Cons(3) that by simp
    then have "q = p" using q(2) later by simp
    then show ?thesis using Cons(1) [OF q(3) ts] that q(1) by auto
  qed
  show ?case
  proof (cases "part_action protect p")
    case SkipPart
    then show ?thesis using step [of s] by simp
  next
    case StopWalk
    then have "ts = []" using Cons(3) by simp
    then show ?thesis using stopped_at_same [OF _ Cons(2)] by simp
  next
    case (CountPart tr)
    let ?n = "estimate_string_tokens (trs_content tr)"
    show ?thesis
    proof (cases "pr_protected s < prune_protect_tokens")
      case True
      then show ?thesis using CountPart step [of "s\<lparr>pr_protected := pr_protected s + ?n\<rparr>"] by (simp add: Let_def)
    next
      case False
      let ?u = "s\<lparr>pr_targets := pr_targets s @ [(i, j, ?n, rune_count (trs_content tr))], pr_total := pr_total s + ?n\<rparr>"
      have "prune_parts protect i j (p # ps) s = prune_parts protect i (Suc j) ps ?u"
        using CountPart False by (simp add: Let_def)
      then have "(i, j, ?n, rune_count (trs_content tr)) \<in> set ts"
        using Cons(3) prune_parts_targets [of protect i "Suc j" ps ?u] by (auto simp: append_eq_append_conv2)
      then have "(i, j) \<in> place ` set ts" "ts \<noteq> []" by force+
      then show ?thesis using q(1,2) by simp
    qed
  qed
qed (auto simp: stopped_at_def)

lemma walk_targets_index:
  "\<exists>ts. pr_targets (prune_walk protect cached (rev (List.enumerate 0 xs)) s) = pr_targets s @ ts \<and>
     (\<forall>t \<in> set ts. fst t < length xs)"
proof (induction xs arbitrary: s rule: rev_induct)
  case (snoc m xs)
  define s' where "s' = (if msg_role m = User then s\<lparr>pr_turns := Suc (pr_turns s)\<rparr> else s)"
  have s': "pr_targets s' = pr_targets s" by (simp add: s'_def)
  obtain u stop where u: "prune_parts protect (length xs) 0 (msg_parts m) s' = (u, stop)" by fastforce
  obtain us where us: "pr_targets u = pr_targets s' @ us" "\<forall>t \<in> set us. fst t = length xs"
    using prune_parts_targets [of protect "length xs" 0 "msg_parts m" s'] u by (auto simp: part_targets_def)
  obtain ts where ts: "pr_targets (prune_walk protect cached (rev (List.enumerate 0 xs)) s') = pr_targets s' @ ts"
    "\<forall>t \<in> set ts. fst t < length xs" using snoc by blast
  obtain vs where vs: "pr_targets (prune_walk protect cached (rev (List.enumerate 0 xs)) u) = pr_targets u @ vs"
    "\<forall>t \<in> set vs. fst t < length xs" using snoc by blast
  have less: "\<forall>t \<in> set (us @ vs). fst t < length (xs @ [m])" "\<forall>t \<in> set ts. fst t < length (xs @ [m])"
    "\<forall>t \<in> set us. fst t < length (xs @ [m])"
    using us(2) vs(2) ts(2) by (auto simp: less_Suc_eq)
  show ?case
    using s' ts(1) us(1) vs(1) less
    by (auto simp: enumerate_snoc Let_def u s'_def [symmetric] split: option.split)
qed simp

lemma walk_again:
  assumes "length ys = length xs"
    and "\<forall>i < length xs. \<exists>ps. ys ! i = (xs ! i)\<lparr>msg_parts := ps\<rparr> \<and> stopped_at protect ts i 0 (msg_parts (xs ! i)) ps"
    and "pr_targets (prune_walk protect cached (rev (List.enumerate 0 xs)) s) = pr_targets s @ ts"
  shows "if ts = [] then ys = xs
     else pr_targets (prune_walk protect cached (rev (List.enumerate 0 ys)) s) = pr_targets s"
  using assms
proof (induction xs arbitrary: ys s ts rule: rev_induct)
  case (snoc m xs)
  obtain zs m' where ys: "ys = zs @ [m']" "length zs = length xs"
    using snoc(2) by (cases ys rule: rev_cases) auto
  let ?i = "length xs"
  let ?W = "\<lambda>xs. prune_walk protect cached (rev (List.enumerate 0 xs))"
  have rel: "\<forall>i < ?i. \<exists>ps. zs ! i = (xs ! i)\<lparr>msg_parts := ps\<rparr> \<and> stopped_at protect ts i 0 (msg_parts (xs ! i)) ps"
  proof (intro allI impI)
    fix i assume "i < ?i"
    then show "\<exists>ps. zs ! i = (xs ! i)\<lparr>msg_parts := ps\<rparr> \<and> stopped_at protect ts i 0 (msg_parts (xs ! i)) ps"
      using snoc(3) [rule_format, of i] ys by (simp add: nth_append)
  qed
  obtain ps where ps: "m' = m\<lparr>msg_parts := ps\<rparr>" "stopped_at protect ts ?i 0 (msg_parts m) ps"
    using snoc(3) [rule_format, of ?i] ys by (auto simp: nth_append)
  define s' where "s' = (if msg_role m = User then s\<lparr>pr_turns := Suc (pr_turns s)\<rparr> else s)"
  have s': "pr_targets s' = pr_targets s" by (simp add: s'_def)
  have walk: "?W (xs @ [n]) s =
     (if msg_role n = Assistant \<and> msg_summary n then s'
      else if pr_turns s' < prune_recent_turns \<or> msg_role n \<noteq> Tool \<or>
        (case cached of Some c \<Rightarrow> length xs \<in> c | None \<Rightarrow> False) then ?W xs s'
      else (case prune_parts protect (length xs) 0 (msg_parts n) s' of (u, stop) \<Rightarrow> if stop then u else ?W xs u))"
    if "msg_role n = msg_role m" for n xs
    using that by (simp add: enumerate_snoc s'_def Let_def)
  have pass: ?case if W: "?W (xs @ [m]) s = ?W xs u" "?W (zs @ [m]) s = ?W zs u" "pr_targets u = pr_targets s" for u
  proof -
    have ts: "pr_targets (?W xs u) = pr_targets u @ ts" using snoc(4) W by simp
    then have "\<forall>t \<in> set ts. fst t < ?i" using walk_targets_index [of protect cached xs u] by auto
    then have "\<forall>t \<in> set ts. fst t \<noteq> ?i" by auto
    then have "m' = m" using stopped_at_same ps by auto
    then show ?thesis using snoc(1) [OF ys(2) rel ts] W ys by auto
  qed
  have m': "msg_role m' = msg_role m" "msg_summary m' = msg_summary m" "msg_parts m' = ps" using ps(1) by simp_all
  show ?case
  proof (cases "msg_role m = Assistant \<and> msg_summary m")
    case True
    then have "ts = []" using snoc(4) s' by (simp add: walk)
    then have "ys = xs @ [m]"
      using ys ps rel stopped_at_same [of "[]"] by (auto intro!: nth_equalityI)
    then show ?thesis using \<open>ts = []\<close> by simp
  next
    case F: False
    show ?thesis
    proof (cases "pr_turns s' < prune_recent_turns \<or> msg_role m \<noteq> Tool \<or> (case cached of Some c \<Rightarrow> ?i \<in> c | None \<Rightarrow> False)")
      case True
      then show ?thesis using F s' ys(2) by (intro pass [of s']) (auto simp: walk split: option.splits)
    next
      case G: False
      obtain u stop where u: "prune_parts protect ?i 0 (msg_parts m) s' = (u, stop)" by fastforce
      obtain us where us: "pr_targets u = pr_targets s' @ us" "part_targets protect ?i 0 (msg_parts m) us"
        using prune_parts_targets [of protect ?i 0 "msg_parts m" s'] u by auto
      obtain vs where vs: "pr_targets (?W xs u) = pr_targets u @ vs" "\<forall>t \<in> set vs. fst t < ?i"
        using walk_targets_index by blast
      have ts: "ts = us @ (if stop then [] else vs)"
        using snoc(4) F G u us vs s' by (auto simp: walk)
      have "(?i, k) \<in> place ` set ts \<longleftrightarrow> (?i, k) \<in> place ` set us" for k
        using vs(2) by (auto simp: ts)
      then have st: "stopped_at protect us ?i 0 (msg_parts m) ps"
        using ps(2) by (simp add: stopped_at_def)
      note again = parts_again [OF st, of s', unfolded u fst_conv, OF us(1)]
      show ?thesis
      proof (cases "us = []")
        case True
        then have "m' = m" using again ps(1) by simp
        then show ?thesis
        proof (cases stop)
          case True
          then have "ts = []" using ts \<open>us = []\<close> by simp
          then have "ys = xs @ [m]"
            using ys \<open>m' = m\<close> rel stopped_at_same [of "[]"] by (auto intro!: nth_equalityI)
          then show ?thesis using \<open>ts = []\<close> by simp
        next
          case False
          then show ?thesis
            using F G u us(1) \<open>us = []\<close> s' ys(2) by (intro pass [of u]) (auto simp: walk split: option.splits)
        qed
      next
        case False
        then obtain w where "prune_parts protect ?i 0 ps s' = (w, True)" "pr_targets w = pr_targets s'"
          using again by auto
        then show ?thesis using False ts F G m' ys s' by (auto simp: walk split: option.splits)
      qed
    qed
  qed
qed simp

lemma cleared_stopped:
  assumes "cleared archive ts ms ns" "i < length ms" "distinct (map place ts)"
    and counted: "\<And>t. t \<in> set ts \<Longrightarrow> fst t = i \<Longrightarrow> counted protect (msg_parts (ms ! i) ! fst (snd t))"
    and insensitive: "\<And>f tr c. protect = Some f \<Longrightarrow> f (tr\<lparr>trs_content := c\<rparr>) = f tr"
  shows "\<exists>ps. ns ! i = (ms ! i)\<lparr>msg_parts := ps\<rparr> \<and> stopped_at protect ts i 0 (msg_parts (ms ! i)) ps"
proof -
  obtain ps where ps1: "ns ! i = (ms ! i)\<lparr>msg_parts := ps\<rparr>" "length ps = length (msg_parts (ms ! i))"
    and ps2: "\<forall>j < length ps. ((i, j) \<notin> set (map place ts) \<longrightarrow> ps ! j = msg_parts (ms ! i) ! j) \<and>
      (\<forall>k n. (i, j, k, n) \<in> set ts \<longrightarrow> ps ! j = clear_part archive k n (msg_parts (ms ! i) ! j))"
    using assms(1) [unfolded cleared_def] assms(2) by blast
  have "(i, j) \<notin> place ` set ts \<Longrightarrow> ps ! j = msg_parts (ms ! i) ! j"
    "(i, j, k, n) \<in> set ts \<Longrightarrow> ps ! j = clear_part archive k n (msg_parts (ms ! i) ! j)"
    if "j < length ps" for j k n
    using ps2 that by simp_all
  note ps = ps1 this
  have "part_action protect (ps ! j) = StopWalk" if j: "j < length ps" "(i, j) \<in> place ` set ts" for j
  proof -
    obtain k n where t: "(i, j, k, n) \<in> set ts" using j(2) by force
    obtain tr where tr: "part_action protect (msg_parts (ms ! i) ! j) = CountPart tr"
      using counted [OF t] by (auto simp: counted_def)
    then show ?thesis
      using ps(4) [OF j(1) t] insensitive unfolding part_action_Count
      by (auto simp: part_action_def clear_part_def clear_result_def cleared_notice_def
          cleared_prefix_def split: option.splits)
  qed
  then have "stopped_at protect ts i 0 (msg_parts (ms ! i)) ps"
    using ps(2,3) by (auto simp: stopped_at_def)
  then show ?thesis using ps(1) by blast
qed

lemma prune_twice:
  assumes "\<And>f tr c. protect = Some f \<Longrightarrow> f (tr\<lparr>trs_content := c\<rparr>) = f tr"
  shows "prune_tool_results protect cached archive' (prune_tool_results protect cached archive ms) =
     prune_tool_results protect cached archive ms"
proof (cases "ms = [] \<or> pr_total (prune_scan protect cached ms) \<le> prune_min_tokens \<or> pr_targets (prune_scan protect cached ms) = []")
  case True
  then show ?thesis by (auto simp: prune_tool_results_def Let_def)
next
  case False
  let ?ts = "pr_targets (prune_scan protect cached ms)"
  let ?ns = "fold (clear_target archive) ?ts ms"
  note targets = prune_scan_targets [where protect = protect and cached = cached and ms = ms]
  have c: "cleared archive ?ts ms ?ns" by (rule cleared_fold [OF targets(1)])
  then have len: "length ?ns = length ms" by (simp add: cleared_def)
  have "\<forall>i < length ms. \<exists>ps. ?ns ! i = (ms ! i)\<lparr>msg_parts := ps\<rparr> \<and> stopped_at protect ?ts i 0 (msg_parts (ms ! i)) ps"
  proof (intro allI impI)
    fix i assume i: "i < length ms"
    show "\<exists>ps. ?ns ! i = (ms ! i)\<lparr>msg_parts := ps\<rparr> \<and> stopped_at protect ?ts i 0 (msg_parts (ms ! i)) ps"
      by (rule cleared_stopped [OF c i targets(1) _ assms])
         (use targets(2) in \<open>auto simp: prunable_def\<close>)
  qed
  from walk_again [OF len this, of cached "\<lparr>pr_turns = 0, pr_protected = 0, pr_targets = [], pr_total = 0\<rparr>"]
  have "pr_targets (prune_scan protect cached ?ns) = []"
    using False by (simp add: prune_scan_def)
  then show ?thesis using False by (simp add: prune_tool_results_def Let_def)
qed

end
