(* ===== verification/Conversation_Properties.thy ===== *)
theory Conversation_Properties
  imports Message_Roundtrip Token_Estimate Compaction_Prune
begin

text \<open>
  Properties of conversations: the streaming operations build the message they describe,
  the trip through the provider form changes nothing the model sees, and what that trip
  loses for the pruning that follows it.
\<close>

section \<open>Streaming\<close>

text \<open> C9. Streaming refines an abstract message. On a well-formed message every sequence of
  streaming operations has, on the view of the message (text, reasoning, calls by id, finish,
  data parts), exactly the effect of the abstract operations, and the message stays
  well-formed: no interleaving of text, reasoning and tool call deltas mixes them up.\<close>

theorem message_stream_refines:
  assumes "msg_wf m" "\<forall>op \<in> set ops. op_ok op"
  shows "view_of (fold run_op ops m) = fold view_op ops (view_of m) \<and> msg_wf (fold run_op ops m)"
  using run_ops_refine [OF assms] by blast

theorem message_stream_refines_witness:
  "let c = \<lparr>tcl_id = ''1'', tcl_name = ''ls'', tcl_input = [], tcl_provider_executed = False, tcl_finished = False\<rparr>;
       m = fold run_op [AppendReasoning 7 ''Hm'', AppendContent ''He'', AddToolCall c, AppendContent ''llo'',
             AppendToolCallInput ''1'' ''{}'', FinishToolCall ''1'', AddFinish 9 FinishReasonToolUse [] []] zero_message
   in vm_text (view_of m) = ''Hello'' \<and> vm_calls (view_of m) = [(''1'', ''ls'', ''{}'', True)] \<and> msg_wf m"
proof -
  let ?c = "\<lparr>tcl_id = ''1'', tcl_name = ''ls'', tcl_input = [], tcl_provider_executed = False, tcl_finished = False\<rparr>"
  let ?ops = "[AppendReasoning 7 ''Hm'', AppendContent ''He'', AddToolCall ?c, AppendContent ''llo'',
     AppendToolCallInput ''1'' ''{}'', FinishToolCall ''1'', AddFinish 9 FinishReasonToolUse [] []]"
  have "msg_wf zero_message"
    by (simp add: msg_wf_def zero_message_def tool_calls_def)
  from message_stream_refines [OF this, of ?ops] show ?thesis
    by (simp add: Let_def view_of_def zero_message_def content_text_def finish_of_def tool_calls_def
        view_call_def view_thinking_def)
qed

section \<open>The provider form\<close>

text \<open> C18. A trip through a plugin changes nothing the model sees: a message that is sent with
  some content and whose text a second clean-up would not alter is converted to the provider
  form, back, and to the provider form again with the same result.\<close>

theorem plugin_round_trip:
  assumes "convert_stable m" "to_ai_message j m = [fm]" "fm_content fm \<noteq> []"
  shows "\<exists>m'. from_fantasy_messages [fm] = Some [m'] \<and> to_ai_message j m' = [fm]"
proof -
  obtain m' where "from_fantasy_message fm = Some [m']" "to_ai_message j m' = [fm]"
    using convert_back [OF assms] by blast
  then show ?thesis by (simp add: from_fantasy_messages_def)
qed

definition sample_user :: message where
  "sample_user = zero_message\<lparr>msg_id := ''m1'', msg_role := User, msg_parts := [PText ''hi'']\<rparr>"

lemma trim_hi: "trim_space ''hi'' = ''hi''"
  by (simp add: trim_space_def trim_left.simps trim_right.simps ws_runes_def has_suffix_def)

theorem plugin_round_trip_witness:
  "\<exists>fm m'. to_ai_message \<lparr>jr_keys = (\<lambda>_. None), jr_review = (\<lambda>_. None)\<rparr> sample_user = [fm] \<and>
     from_fantasy_messages [fm] = Some [m'] \<and>
     to_ai_message \<lparr>jr_keys = (\<lambda>_. None), jr_review = (\<lambda>_. None)\<rparr> m' = [fm]"
proof -
  let ?j = "\<lparr>jr_keys = (\<lambda>_. None), jr_review = (\<lambda>_. None)\<rparr>"
  let ?fm = "fantasy_message_of User (attach_metadata (new_fantasy_metadata sample_user) (user_parts sample_user))"
  have parts: "user_parts sample_user = [FText ''hi'' no_options]"
    by (simp add: user_parts_def sample_user_def zero_message_def content_text_def binary_contents_def
        List.map_filter_simps prompt_with_attachments_def trim_hi)
  have stable: "convert_stable sample_user"
    by (simp add: convert_stable_def sample_user_def zero_message_def binary_contents_def List.map_filter_simps)
  have ai: "to_ai_message ?j sample_user = [?fm]"
    by (simp add: to_ai_message_def) (simp add: sample_user_def)
  have "fm_content ?fm \<noteq> []"
    by (simp add: fantasy_message_of_def attach_metadata_def parts split: option.split)
  from plugin_round_trip [OF stable ai this] ai show ?thesis by blast
qed

section \<open>What the provider form loses\<close>

lemma those_map_SomeD: "those (map f xs) = Some ys \<Longrightarrow> y \<in> set ys \<Longrightarrow> \<exists>x \<in> set xs. f x = Some y"
  by (induction xs arbitrary: ys) (auto split: option.splits)

lemma tool_part_back_nameless:
  "tool_part_back p = Some ps \<Longrightarrow> PResult tr \<in> set ps \<Longrightarrow> trs_name tr = [] \<and> trs_metadata tr = []"
  by (induction p rule: tool_part_back.induct)
     (auto simp: Let_def split: option.splits result_output.splits)

lemma other_parts_back:
  "PResult tr \<notin> set (system_part_back p)" "PResult tr \<notin> set (user_part_back p)"
  "PResult tr \<notin> set (assistant_part_back p)"
  by (cases p; simp)+

lemma converted_result_nameless:
  assumes "from_fantasy_messages fms = Some ms" "m \<in> set ms" "PResult tr \<in> set (msg_parts m)"
  shows "trs_name tr = [] \<and> trs_metadata tr = []"
proof -
  obtain mss where mss: "those (map from_fantasy_message fms) = Some mss" "ms = concat mss"
    using assms(1) by (auto simp: from_fantasy_messages_def)
  then obtain ns where "ns \<in> set mss" "m \<in> set ns" using assms(2) by auto
  then obtain fm where fm: "from_fantasy_message fm = Some ns" "m \<in> set ns"
    using those_map_SomeD [OF mss(1)] by blast
  show ?thesis
  proof (cases "fm_role fm")
    case Tool
    then obtain pss where "those (map tool_part_back (fm_content fm)) = Some pss" "msg_parts m = concat pss"
      using fm by (auto simp: from_fantasy_message_def Let_def split: if_splits)
    then show ?thesis
      using assms(3) those_map_SomeD [of tool_part_back "fm_content fm" pss] tool_part_back_nameless
      by fastforce
  qed (use fm assms(3) in \<open>auto simp: from_fantasy_message_def Let_def closing_finish_def other_parts_back split: if_splits\<close>)
qed

text \<open> C40. Pruning a converted history protects no tool by name. FromFantasyMessages cannot
  restore the name of the tool behind a result, so in a history converted from the provider
  form the results of the protected tools (skill, goal) are counted for pruning like any other.\<close>

theorem converted_results_unprotected:
  assumes "from_fantasy_messages fms = Some ms" "m \<in> set ms" "PResult tr \<in> set (msg_parts m)"
    and "\<not> trs_error tr" "trs_content tr \<noteq> []" "\<not> has_prefix (trs_content tr) cleared_prefix"
  shows "counted None (PResult tr)"
  using converted_result_nameless [OF assms(1-3)] assms(4-6)
  by (simp add: counted_def part_action_def prune_protected_names_def)

definition skill_result :: result_part where
  "skill_result = \<lparr>trs_call_id = ''c'', trs_name = ''skill'', trs_content = ''x'', trs_data = [],
     trs_mime = [], trs_metadata = [], trs_error = False, trs_review = no_review\<rparr>"

theorem converted_results_unprotected_witness:
  "\<not> counted None (PResult skill_result) \<and>
   (\<exists>m. from_fantasy_messages
       (to_ai_message \<lparr>jr_keys = (\<lambda>_. None), jr_review = (\<lambda>_. None)\<rparr>
          (zero_message\<lparr>msg_role := Tool, msg_parts := [PResult skill_result]\<rparr>)) = Some [m] \<and>
     (\<forall>p \<in> set (msg_parts m). counted None p))"
proof -
  let ?j = "\<lparr>jr_keys = (\<lambda>_. None), jr_review = (\<lambda>_. None)\<rparr>"
  let ?fms = "to_ai_message ?j (zero_message\<lparr>msg_role := Tool, msg_parts := [PResult skill_result]\<rparr>)"
  let ?tr = "skill_result\<lparr>trs_name := []\<rparr>"
  have "model_safe_content ?j skill_result = ''x''"
    by (simp add: model_safe_content_def auto_review_of_def parse_auto_review_def skill_result_def)
  then have "from_fantasy_messages ?fms = Some [zero_message\<lparr>msg_role := Tool, msg_parts := [PResult ?tr]\<rparr>]"
    by (simp add: to_ai_message_def new_metadata_zero attach_metadata_def tool_parts_def tool_results_def
        List.map_filter_simps result_output_of_def fantasy_message_of_def from_fantasy_messages_def
        from_fantasy_message_def metadata_of_def no_options_def)
       (simp add: skill_result_def)
  moreover from converted_results_unprotected
      [OF this, of "zero_message\<lparr>msg_role := Tool, msg_parts := [PResult ?tr]\<rparr>" ?tr]
  have "counted None (PResult ?tr)"
    by (simp add: skill_result_def cleared_prefix_def)
  moreover have "\<not> counted None (PResult skill_result)"
    by (simp add: counted_def part_action_def skill_result_def prune_protected_names_def)
  ultimately show ?thesis by simp
qed

end
