(* ===== verification/Compaction_Turns.thy ===== *)
theory Compaction_Turns
  imports Token_Estimate
begin

text \<open>
  Selection of the recent work that compaction keeps, after
  internal/agent/compaction_turns.go: where a history may be cut without separating a tool
  call from its result. The specification reads a history as the sequence of its calls and
  results; a cut is safe when every result that is kept answers a call that is kept.
\<close>

section \<open>Open calls and orphaned results\<close>

definition call_ids :: "message \<Rightarrow> string list" where
  "call_ids m = map tcl_id (tool_calls m)"

definition result_ids :: "message \<Rightarrow> string list" where
  "result_ids m = map trs_call_id (tool_results m)"

text \<open>The inner loop of firstOrphanedToolCallID over the results of a message: the open calls
  left, or the id of the orphan that it returns.\<close>

fun take_results :: "string set \<Rightarrow> string list \<Rightarrow> string set + string" where
  "take_results open1 [] = Inl open1"
| "take_results open1 (r # rs) =
     (if r \<in> open1 then take_results (open1 - {r}) rs else Inr r)"

fun first_orphan_from :: "string set \<Rightarrow> message list \<Rightarrow> string" where
  "first_orphan_from open1 [] = []"
| "first_orphan_from open1 (m # ms) =
     (case take_results (open1 \<union> {i \<in> set (call_ids m). i \<noteq> []}) (result_ids m) of
        Inl open2 \<Rightarrow> first_orphan_from open2 ms
      | Inr r \<Rightarrow> r)"

definition first_orphaned_tool_call :: "message list \<Rightarrow> string" where
  "first_orphaned_tool_call ms = first_orphan_from {} ms"

text \<open>The index of the last message that issued the call; -1 is None.\<close>

fun last_call_index :: "message list \<Rightarrow> string \<Rightarrow> nat option" where
  "last_call_index [] i = None"
| "last_call_index (m # ms) i =
     (case last_call_index ms i of
        Some k \<Rightarrow> Some (Suc k)
      | None \<Rightarrow> if i \<in> set (call_ids m) then Some 0 else None)"

fun open_calls :: "string set \<Rightarrow> message list \<Rightarrow> string set" where
  "open_calls open1 [] = open1"
| "open_calls open1 (m # ms) =
     open_calls ((open1 \<union> {i \<in> set (call_ids m). i \<noteq> []}) - set (result_ids m)) ms"

definition has_open_tool_call :: "message list \<Rightarrow> bool" where
  "has_open_tool_call ms \<longleftrightarrow> open_calls {} ms \<noteq> {}"

lemma last_call_index_less: "last_call_index ms i = Some k \<Longrightarrow> k < length ms"
  by (induction ms arbitrary: k) (auto split: option.splits if_splits)

section \<open>Cuts\<close>

text \<open>The index of the most recent user message that is not a summary.\<close>

fun most_recent_user :: "message list \<Rightarrow> nat option" where
  "most_recent_user [] = None"
| "most_recent_user (m # ms) =
     (case most_recent_user ms of
        Some k \<Rightarrow> Some (Suc k)
      | None \<Rightarrow> if msg_role m = User \<and> \<not> msg_summary m then Some 0 else None)"

function extend_past_orphans :: "message list \<Rightarrow> nat \<Rightarrow> nat" where
  "extend_past_orphans ms start =
     (if start = 0 then start
      else let orphan = first_orphaned_tool_call (drop start ms) in
        if orphan = [] then start
        else case last_call_index (take start ms) orphan of
          None \<Rightarrow> start
        | Some k \<Rightarrow> extend_past_orphans ms k)"
  by pat_completeness auto
termination
  by (relation "measure snd") (auto dest: last_call_index_less)

declare extend_past_orphans.simps [simp del]

definition filter_summaries :: "message list \<Rightarrow> message list" where
  "filter_summaries ms = filter (\<lambda>m. \<not> msg_summary m) ms"

record work_segment =
  seg_messages :: "message list"
  seg_pending :: bool

definition segment_of :: "message list \<Rightarrow> work_segment" where
  "segment_of ms = \<lparr>seg_messages = ms, seg_pending = has_open_tool_call ms\<rparr>"

definition no_segment :: work_segment where
  "no_segment = \<lparr>seg_messages = [], seg_pending = False\<rparr>"

text \<open>The lower bound is an int in the code; a negative one counts as 0.\<close>

definition recent_start :: "message list \<Rightarrow> nat" where
  "recent_start candidates =
     extend_past_orphans candidates
       (case most_recent_user candidates of Some k \<Rightarrow> k | None \<Rightarrow> 0)"

definition select_recent_work :: "message list \<Rightarrow> int \<Rightarrow> work_segment" where
  "select_recent_work ms lower =
     (let lb = (if lower < 0 then 0 else lower) in
      if lb \<ge> int (length ms) then no_segment
      else let candidates = drop (nat lb) ms in
        segment_of (filter_summaries (drop (recent_start candidates) candidates)))"

text \<open>Index 0 and every later user message that is not a summary, in order.\<close>

definition turn_starts :: "message list \<Rightarrow> nat list" where
  "turn_starts ms =
     (if ms = [] then []
      else 0 # filter (\<lambda>i. msg_role (ms ! i) = User \<and> \<not> msg_summary (ms ! i)) [1..<length ms])"

text \<open>The loop over the turn boundaries, newest first, that stops at the first that does not fit.\<close>

fun grow_segment :: "json_reader \<Rightarrow> message list \<Rightarrow> int \<Rightarrow> int \<Rightarrow> nat list \<Rightarrow> work_segment \<Rightarrow> work_segment" where
  "grow_segment j candidates prefix_tokens max_tokens [] best = best"
| "grow_segment j candidates prefix_tokens max_tokens (s # ss) best =
     (let segment = filter_summaries (drop (extend_past_orphans candidates s) candidates) in
      if prefix_tokens + estimate_messages j segment > max_tokens then best
      else grow_segment j candidates prefix_tokens max_tokens ss (segment_of segment))"

definition select_fitting :: "json_reader \<Rightarrow> message list \<Rightarrow> int \<Rightarrow> int \<Rightarrow> work_segment" where
  "select_fitting j ms lower max_tokens =
     (let floor1 = select_recent_work ms lower; lb = (if lower < 0 then 0 else lower) in
      if lb \<ge> int (length ms) then floor1
      else let candidates = drop (nat lb) ms in
        grow_segment j candidates (estimate_messages j (take (nat lb) ms)) max_tokens
          (rev (turn_starts candidates)) floor1)"

section \<open>Calls and results in sequence\<close>

datatype call_event = Called string | Answered string

definition message_events :: "message \<Rightarrow> call_event list" where
  "message_events m = map Called (filter (\<lambda>i. i \<noteq> []) (call_ids m)) @ map Answered (result_ids m)"

definition history_events :: "message list \<Rightarrow> call_event list" where
  "history_events ms = concat (map message_events ms)"

text \<open>Every result answers a call made before it and not answered in between.\<close>

definition answers_match :: "call_event list \<Rightarrow> bool" where
  "answers_match es \<longleftrightarrow>
     (\<forall>p < length es. \<forall>i. es ! p = Answered i \<longrightarrow>
        (\<exists>q < p. es ! q = Called i \<and> (\<forall>k. q < k \<and> k < p \<longrightarrow> es ! k \<noteq> Answered i)))"

definition well_paired :: "message list \<Rightarrow> bool" where
  "well_paired ms \<longleftrightarrow> answers_match (history_events ms)"

text \<open>The same by running through the sequence with the set of open calls.\<close>

fun first_unmatched :: "string set \<Rightarrow> call_event list \<Rightarrow> string option" where
  "first_unmatched open1 [] = None"
| "first_unmatched open1 (Called i # es) = first_unmatched (insert i open1) es"
| "first_unmatched open1 (Answered i # es) =
     (if i \<in> open1 then first_unmatched (open1 - {i}) es else Some i)"

fun after_events :: "string set \<Rightarrow> call_event list \<Rightarrow> string set" where
  "after_events open1 [] = open1"
| "after_events open1 (Called i # es) = after_events (insert i open1) es"
| "after_events open1 (Answered i # es) = after_events (open1 - {i}) es"

end
