(* ===== verification/Compaction_Cuts.thy ===== *)
theory Compaction_Cuts
  imports Compaction_Turns
begin

text \<open>
  Correctness of the cuts of \<open>Compaction_Turns\<close>. In a well-paired history the extension
  ends at a cut that separates no result from its call, and at the latest such cut; so the
  extension is monotone, and a segment grown from an older turn contains the minimal one.
\<close>

section \<open>Sequences of calls and results\<close>

lemma first_unmatched_append:
  "first_unmatched o1 (xs @ ys) =
     (case first_unmatched o1 xs of None \<Rightarrow> first_unmatched (after_events o1 xs) ys | Some i \<Rightarrow> Some i)"
  by (induction o1 xs rule: first_unmatched.induct) (auto split: option.split)

lemma after_events_append: "after_events o1 (xs @ ys) = after_events (after_events o1 xs) ys"
  by (induction o1 xs rule: after_events.induct) auto

lemma first_unmatched_Answered: "first_unmatched o1 es = Some x \<Longrightarrow> Answered x \<in> set es"
  by (induction o1 es rule: first_unmatched.induct) (auto split: if_splits)

lemma after_events_subset: "after_events o1 es \<subseteq> o1 \<union> {i. Called i \<in> set es}"
  by (induction o1 es rule: after_events.induct) auto

text \<open>A result that only the calls of a larger open set answer is answered by one of them.\<close>

lemma unmatched_needs_open:
  "first_unmatched o1 es = Some x \<Longrightarrow> first_unmatched (o1 \<union> p) es = None \<Longrightarrow> x \<in> p"
proof (induction o1 es arbitrary: p rule: first_unmatched.induct)
  case (2 o1 i es)
  then show ?case by (metis Un_insert_left first_unmatched.simps(2))
next
  case (3 o1 i es)
  show ?case
  proof (cases "i \<in> o1")
    case True
    have "first_unmatched (o1 - {i} \<union> (p - {i})) es = None"
      using "3.prems"(2) True by (simp add: Un_Diff)
    then show ?thesis using "3.IH" [OF True] "3.prems"(1) True by auto
  next
    case False
    then show ?thesis using "3.prems" by (auto split: if_splits)
  qed
qed simp

definition open_at :: "call_event list \<Rightarrow> nat \<Rightarrow> string \<Rightarrow> bool" where
  "open_at es p i \<longleftrightarrow> (\<exists>q < p. es ! q = Called i \<and> (\<forall>k. q < k \<and> k < p \<longrightarrow> es ! k \<noteq> Answered i))"

lemma open_at_append: "p \<le> length es \<Longrightarrow> open_at (es @ fs) p i \<longleftrightarrow> open_at es p i"
  by (auto simp: open_at_def nth_append)

lemma open_at_snoc:
  "open_at (es @ [e]) (Suc (length es)) i \<longleftrightarrow> e = Called i \<or> e \<noteq> Answered i \<and> open_at es (length es) i"
proof -
  let ?n = "length es"
  have eq: "((es @ [e]) ! q = Called i \<and> (\<forall>k. q < k \<and> k < Suc ?n \<longrightarrow> (es @ [e]) ! k \<noteq> Answered i)) \<longleftrightarrow>
      (if q = ?n then e = Called i
       else es ! q = Called i \<and> (\<forall>k. q < k \<and> k < ?n \<longrightarrow> es ! k \<noteq> Answered i) \<and> e \<noteq> Answered i)"
    if "q < Suc ?n" for q
  proof (cases "q = ?n")
    case False
    then have "q < ?n" using that by simp
    then have "(\<forall>k. q < k \<and> k < Suc ?n \<longrightarrow> (es @ [e]) ! k \<noteq> Answered i) \<longleftrightarrow>
        (\<forall>k. q < k \<and> k < ?n \<longrightarrow> es ! k \<noteq> Answered i) \<and> e \<noteq> Answered i"
      by (metis less_Suc_eq nth_append nth_append_length)
    then show ?thesis using False \<open>q < ?n\<close> by (simp add: nth_append)
  next
    case True
    have none: "(\<forall>k. ?n < k \<and> k < Suc ?n \<longrightarrow> P k) = True" for P by auto
    show ?thesis by (simp only: True none nth_append_length simp_thms if_True)
  qed
  have "open_at (es @ [e]) (Suc ?n) i \<longleftrightarrow>
      (\<exists>q < Suc ?n. if q = ?n then e = Called i
        else es ! q = Called i \<and> (\<forall>k. q < k \<and> k < ?n \<longrightarrow> es ! k \<noteq> Answered i) \<and> e \<noteq> Answered i)"
    unfolding open_at_def by (rule ex_cong1, rule conj_cong [OF refl], rule eq)
  also have "\<dots> \<longleftrightarrow> e = Called i \<or> e \<noteq> Answered i \<and> open_at es ?n i"
    unfolding open_at_def Ex_less_Suc by (auto cong: conj_cong)
  finally show ?thesis .
qed

lemma after_events_open: "i \<in> after_events {} es \<longleftrightarrow> open_at es (length es) i"
proof (induction es rule: rev_induct)
  case (snoc e es)
  then show ?case by (cases e) (auto simp: after_events_append open_at_snoc)
qed (simp add: open_at_def)

lemma answers_match_snoc:
  "answers_match (es @ [e]) \<longleftrightarrow>
     answers_match es \<and> (\<forall>i. e = Answered i \<longrightarrow> open_at es (length es) i)"
  unfolding answers_match_def open_at_def [symmetric]
  by (auto simp: nth_append less_Suc_eq open_at_append)

lemma answers_match_iff: "answers_match es \<longleftrightarrow> first_unmatched {} es = None"
proof (induction es rule: rev_induct)
  case (snoc e es)
  then show ?case
    by (cases e)
       (auto simp: answers_match_snoc first_unmatched_append after_events_open split: option.splits)
qed (simp add: answers_match_def)

section \<open>Histories\<close>

lemma history_events_append [simp]: "history_events (xs @ ys) = history_events xs @ history_events ys"
  by (simp add: history_events_def)

lemma history_events_simps [simp]:
  "history_events [] = []" "history_events (m # ms) = message_events m @ history_events ms"
  by (simp_all add: history_events_def)

lemma well_paired_iff: "well_paired ms \<longleftrightarrow> first_unmatched {} (history_events ms) = None"
  by (simp add: well_paired_def answers_match_iff)

lemma unmatched_called: "first_unmatched o1 (map Called is @ es) = first_unmatched (o1 \<union> set is) es"
  by (induction "is" arbitrary: o1) auto

lemma after_called: "after_events o1 (map Called is) = o1 \<union> set is"
  by (induction "is" arbitrary: o1) auto

lemma unmatched_called_only: "first_unmatched o1 (map Called is) = None"
  by (induction "is" arbitrary: o1) auto

lemma take_results_events:
  "take_results o1 rs = (case first_unmatched o1 (map Answered rs) of
     None \<Rightarrow> Inl (after_events o1 (map Answered rs)) | Some i \<Rightarrow> Inr i)"
  by (induction o1 rs rule: take_results.induct) (auto split: option.split)

lemma after_answered: "after_events o1 (map Answered rs) = o1 - set rs"
  by (induction rs arbitrary: o1) auto

lemma message_events_run:
  "first_unmatched o1 (message_events m @ es) =
     (case take_results (o1 \<union> {i \<in> set (call_ids m). i \<noteq> []}) (result_ids m) of
        Inl o2 \<Rightarrow> first_unmatched o2 es | Inr i \<Rightarrow> Some i)"
  by (auto simp: take_results_events message_events_def first_unmatched_append unmatched_called_only
      after_called after_events_append split: option.split)

lemma first_orphan_events:
  "first_orphan_from o1 ms = (case first_unmatched o1 (history_events ms) of None \<Rightarrow> [] | Some i \<Rightarrow> i)"
  by (induction o1 ms rule: first_orphan_from.induct)
     (simp_all add: message_events_run split: sum.split)

lemma open_calls_events: "open_calls o1 ms = after_events o1 (history_events ms)"
  by (induction o1 ms rule: open_calls.induct)
     (simp_all add: message_events_def after_events_append after_called after_answered)

lemma pending_iff:
  "has_open_tool_call ms \<longleftrightarrow> (\<exists>i. open_at (history_events ms) (length (history_events ms)) i)"
  by (auto simp: has_open_tool_call_def open_calls_events after_events_open [symmetric])

lemma called_in_history:
  "Called i \<in> set (history_events ms) \<longleftrightarrow> i \<noteq> [] \<and> (\<exists>m \<in> set ms. i \<in> set (call_ids m))"
  by (induction ms) (auto simp: message_events_def)

lemma answered_in_history:
  "Answered i \<in> set (history_events ms) \<longleftrightarrow> (\<exists>m \<in> set ms. i \<in> set (result_ids m))"
  by (induction ms) (auto simp: message_events_def)

lemma last_call_index_None: "last_call_index ms i = None \<longleftrightarrow> (\<forall>m \<in> set ms. i \<notin> set (call_ids m))"
  by (induction ms) (auto split: option.splits)

lemma last_call_index_Some:
  "last_call_index ms i = Some k \<Longrightarrow> \<forall>m \<in> set (drop (Suc k) ms). i \<notin> set (call_ids m)"
  by (induction ms arbitrary: k) (auto simp: last_call_index_None split: option.splits if_splits)

section \<open>Safe cuts\<close>

definition results_named :: "message list \<Rightarrow> bool" where
  "results_named ms \<longleftrightarrow> (\<forall>m \<in> set ms. [] \<notin> set (result_ids m))"

lemma extend_le: "extend_past_orphans ms s \<le> s"
proof (induction ms s rule: extend_past_orphans.induct)
  case (1 ms s)
  let ?x = "first_orphaned_tool_call (drop s ms)"
  show ?case
  proof (cases "s = 0 \<or> ?x = [] \<or> last_call_index (take s ms) ?x = None")
    case True
    then show ?thesis by (subst extend_past_orphans.simps) (auto simp: Let_def)
  next
    case False
    then obtain k where k: "last_call_index (take s ms) ?x = Some k" by blast
    then have "extend_past_orphans ms k \<le> k" using 1 [OF _ refl _ k] False by simp
    moreover have "k < s" using last_call_index_less [OF k] by simp
    ultimately show ?thesis using False k by (subst extend_past_orphans.simps) (simp add: Let_def)
  qed
qed

lemma drop_split: "e \<le> s \<Longrightarrow> drop e ms = drop e (take s ms) @ drop s ms"
  by (subst append_take_drop_id [of s ms, symmetric], subst drop_append) (auto simp: min_def)

lemma orphan_called_before:
  assumes "well_paired (drop e ms)" "e \<le> s" "first_unmatched {} (history_events (drop s ms)) = Some x"
  shows "x \<noteq> [] \<and> (\<exists>m \<in> set (drop e (take s ms)). x \<in> set (call_ids m))"
proof -
  let ?d = "history_events (drop e (take s ms))"
  have "first_unmatched {} (?d @ history_events (drop s ms)) = None"
    using assms(1) drop_split [OF assms(2), of ms] by (metis history_events_append well_paired_iff)
  then have "first_unmatched ({} \<union> after_events {} ?d) (history_events (drop s ms)) = None"
    by (auto simp: first_unmatched_append split: option.splits)
  from unmatched_needs_open [OF assms(3) this]
  have "Called x \<in> set ?d" using after_events_subset [of "{}" ?d] by auto
  then show ?thesis by (simp add: called_in_history)
qed

lemma extend_correct:
  assumes "well_paired ms" "results_named ms"
  shows "well_paired (drop (extend_past_orphans ms s) ms) \<and>
     (\<forall>e \<le> s. well_paired (drop e ms) \<longrightarrow> e \<le> extend_past_orphans ms s)"
  using assms
proof (induction ms s rule: extend_past_orphans.induct)
  case (1 ms s)
  show ?case
  proof (cases "first_unmatched {} (history_events (drop s ms))")
    case None
    then have "first_orphaned_tool_call (drop s ms) = []"
      by (simp add: first_orphaned_tool_call_def first_orphan_events)
    then have "extend_past_orphans ms s = s" by (subst extend_past_orphans.simps) simp
    then show ?thesis using None by (simp add: well_paired_iff)
  next
    case (Some x)
    have s: "s \<noteq> 0"
    proof
      assume "s = 0"
      then show False using Some 1(2) by (simp add: well_paired_iff)
    qed
    have "Answered x \<in> set (history_events (drop s ms))" by (rule first_unmatched_Answered [OF Some])
    then have x: "x \<noteq> []"
      using 1(3) by (auto simp: answered_in_history results_named_def dest: in_set_dropD)
    have fo: "first_orphaned_tool_call (drop s ms) = x"
      using Some by (simp add: first_orphaned_tool_call_def first_orphan_events)
    have before: "\<exists>m \<in> set (drop e (take s ms)). x \<in> set (call_ids m)"
      if "e \<le> s" "well_paired (drop e ms)" for e
      using orphan_called_before [OF that(2,1) Some] by blast
    obtain k where k: "last_call_index (take s ms) x = Some k"
      using before [of 0] 1(2) last_call_index_None [of "take s ms" x] by auto
    have E: "extend_past_orphans ms s = extend_past_orphans ms k"
      using s fo x k by (subst extend_past_orphans.simps) (simp add: Let_def)
    have IH: "well_paired (drop (extend_past_orphans ms k) ms) \<and>
        (\<forall>e \<le> k. well_paired (drop e ms) \<longrightarrow> e \<le> extend_past_orphans ms k)"
      using 1(1) [OF s refl _ , of k] fo x k 1(2,3) by simp
    have "e \<le> k" if e: "e \<le> s" "well_paired (drop e ms)" for e
    proof (rule ccontr)
      assume "\<not> e \<le> k"
      then have "drop e (take s ms) = drop (e - Suc k) (drop (Suc k) (take s ms))" by simp
      then have "set (drop e (take s ms)) \<subseteq> set (drop (Suc k) (take s ms))"
        by (metis set_drop_subset)
      then show False using before [OF e] last_call_index_Some [OF k] by blast
    qed
    then show ?thesis using IH E by auto
  qed
qed

lemma extend_mono:
  assumes "well_paired ms" "results_named ms" "e \<le> s"
  shows "extend_past_orphans ms e \<le> extend_past_orphans ms s"
  using extend_correct [OF assms(1,2), of s] extend_correct [OF assms(1,2), of e] extend_le [of ms e] assms(3)
  by (meson order_trans)

section \<open>Segments\<close>

text \<open>A summary message neither calls nor answers.\<close>

definition summaries_silent :: "message list \<Rightarrow> bool" where
  "summaries_silent ms \<longleftrightarrow> (\<forall>m \<in> set ms. msg_summary m \<longrightarrow> tool_calls m = [] \<and> tool_results m = [])"

lemma filter_summaries_events:
  "summaries_silent ms \<Longrightarrow> history_events (filter_summaries ms) = history_events ms"
  by (induction ms)
     (auto simp: filter_summaries_def summaries_silent_def message_events_def call_ids_def result_ids_def)

lemma silent_drop: "summaries_silent ms \<Longrightarrow> summaries_silent (drop n ms)"
  by (auto simp: summaries_silent_def dest: in_set_dropD)

lemma named_drop: "results_named ms \<Longrightarrow> results_named (drop n ms)"
  by (auto simp: results_named_def dest: in_set_dropD)

lemma most_recent_user_Some:
  "most_recent_user ms = Some k \<Longrightarrow> k < length ms \<and> msg_role (ms ! k) = User \<and> \<not> msg_summary (ms ! k) \<and>
     (\<forall>i. k < i \<and> i < length ms \<longrightarrow> \<not> (msg_role (ms ! i) = User \<and> \<not> msg_summary (ms ! i)))"
proof (induction ms arbitrary: k)
  case (Cons m ms)
  show ?case
  proof (cases "most_recent_user ms")
    case None
    have "\<not> (msg_role x = User \<and> \<not> msg_summary x)" if "x \<in> set ms" for x
      using None that by (induction ms) (auto split: option.splits if_splits)
    then show ?thesis using Cons.prems None by (auto simp: nth_Cons' split: if_splits)
  next
    case (Some n)
    then show ?thesis using Cons.IH [OF Some] Cons.prems by (auto simp: nth_Cons split: nat.splits)
  qed
qed simp

lemma most_recent_user_None:
  "most_recent_user ms = None \<longleftrightarrow> (\<forall>m \<in> set ms. \<not> (msg_role m = User \<and> \<not> msg_summary m))"
  by (induction ms) (auto split: option.splits)

lemma turn_starts_last:
  assumes "ms \<noteq> []"
  shows "last (turn_starts ms) = (case most_recent_user ms of Some k \<Rightarrow> k | None \<Rightarrow> 0)"
proof -
  let ?P = "\<lambda>i. msg_role (ms ! i) = User \<and> \<not> msg_summary (ms ! i)"
  have last: "last (0 # filter ?P [1..<n]) = k"
    if "k < n" "\<forall>i. k < i \<and> i < n \<longrightarrow> \<not> ?P i" "k = 0 \<or> ?P k" for n k
    using that
  proof (induction n)
    case (Suc n)
    show ?case
    proof (cases "k = n")
      case True
      then show ?thesis using Suc.prems(3) by (cases n) auto
    next
      case False
      then have "last (0 # filter ?P [1..<n]) = k" "\<not> ?P n" "0 < n" using Suc by auto
      then show ?thesis by (auto simp: upt_Suc split: if_splits)
    qed
  qed simp
  show ?thesis
  proof (cases "most_recent_user ms")
    case None
    have "\<forall>i. 0 < i \<and> i < length ms \<longrightarrow> \<not> ?P i" using None by (auto simp: most_recent_user_None)
    then show ?thesis using assms None last [of 0 "length ms"] by (simp add: turn_starts_def)
  next
    case (Some k)
    then show ?thesis using assms most_recent_user_Some [OF Some] last [of k "length ms"]
      by (simp add: turn_starts_def)
  qed
qed

end
