(* ===== verification/Compaction_Input.thy ===== *)
theory Compaction_Input
  imports Session_Data Conversation
begin

text \<open>
  The fixed block that opens every summarization prompt, after
  internal/agent/compaction_input.go: where the goal of the user is taken from, the previous
  summary, and the rendering of the session anchor.
\<close>

definition message_text :: "message \<Rightarrow> string" where
  "message_text m = trim_space (content_text m)"

text \<open>A genuine request of the user: not a summary that was given the role of the user.\<close>

definition user_request :: "message \<Rightarrow> bool" where
  "user_request m \<longleftrightarrow> msg_role m = User \<and> \<not> msg_summary m"

fun earliest_user_goal :: "message list \<Rightarrow> string" where
  "earliest_user_goal [] = []"
| "earliest_user_goal (m # ms) =
     (if \<not> user_request m then earliest_user_goal ms
      else if message_text m \<noteq> [] then message_text m else earliest_user_goal ms)"

definition last_user_message_text :: "message list \<Rightarrow> string" where
  "last_user_message_text ms = earliest_user_goal (rev ms)"

definition previous_summary_text :: "string \<Rightarrow> message list \<Rightarrow> string" where
  "previous_summary_text summary_id ms =
     (case (if summary_id \<noteq> [] then find (\<lambda>m. msg_id m = summary_id) ms else None) of
        Some m \<Rightarrow> message_text m
      | None \<Rightarrow> (case ms of m # _ \<Rightarrow> if msg_summary m then message_text m else [] | [] \<Rightarrow> []))"

text \<open>strings.Index.\<close>

fun str_index :: "string \<Rightarrow> string \<Rightarrow> nat option" where
  "str_index [] p = (if p = [] then Some 0 else None)"
| "str_index (c # s) p = (if has_prefix (c # s) p then Some 0 else map_option Suc (str_index s p))"

definition extract_section :: "string \<Rightarrow> string \<Rightarrow> string" where
  "extract_section summary section1 =
     (let marker = ''## '' @ section1 in
      case str_index summary marker of
        None \<Rightarrow> []
      | Some start \<Rightarrow>
          let body = drop (start + length marker) summary in
          trim_space (case str_index body ([CHR 0x0A] @ ''## '') of Some n \<Rightarrow> take n body | None \<Rightarrow> body))"

definition ellipsis :: string where
  "ellipsis = [CHR 0xE2, CHR 0x80, CHR 0xA6]"

definition compact_anchor_text :: "string \<Rightarrow> string" where
  "compact_anchor_text text =
     (let t = str_join '' '' (str_fields text) in
      if rune_count t > 4000 then concat (take 4000 (runes t)) @ ellipsis else t)"

datatype goal_source = GoalTool | EarliestUserMessage | PreviousSummary | GoalUnavailable

fun source_label :: "goal_source \<Rightarrow> string" where
  "source_label GoalTool = ''goal-tool''"
| "source_label EarliestUserMessage = ''earliest-user-message''"
| "source_label PreviousSummary = ''previous-summary''"
| "source_label GoalUnavailable = ''unavailable''"

definition goal_and_source :: "session \<Rightarrow> message list \<Rightarrow> string \<Rightarrow> string \<times> goal_source" where
  "goal_and_source se raw previous =
     (let goal1 = trim_space (gl_text (se_goal se)) in
      if goal1 \<noteq> [] \<and> (is_active (se_goal se) \<or> gl_status (se_goal se) = ''paused'') then (goal1, GoalTool)
      else if earliest_user_goal raw \<noteq> [] then (earliest_user_goal raw, EarliestUserMessage)
      else if previous \<noteq> [] \<and> extract_section previous ''Goal'' \<noteq> []
      then (extract_section previous ''Goal'', PreviousSummary)
      else ([], GoalUnavailable))"

text \<open>The lines of the anchor; each ends with a newline and the whole is trimmed.\<close>

definition anchor_line :: "string \<Rightarrow> string" where
  "anchor_line s = s @ [CHR 0x0A]"

definition summary_lines :: "string \<Rightarrow> bool \<Rightarrow> string" where
  "summary_lines previous inline =
     (if previous \<noteq> [] \<and> inline then
        anchor_line ''- Previous summary: dropped from history under budget pressure; key sections inlined below:'' @
        concat (map (\<lambda>sec. let text = extract_section previous sec in
            if text \<noteq> [] then anchor_line (''  ## '' @ sec) @ anchor_line (''  '' @ compact_anchor_text text) else [])
          [''Goal'', ''Current State'', ''Next Steps''])
      else if previous \<noteq> [] then anchor_line ''- Previous summary: present''
      else anchor_line ''- Previous summary: absent'')"

definition build_anchor :: "session \<Rightarrow> message list \<Rightarrow> message list \<Rightarrow> string \<Rightarrow> bool \<Rightarrow> string" where
  "build_anchor se raw projection previous inline =
     (case goal_and_source se raw previous of (goal1, source) \<Rightarrow>
        let request = last_user_message_text projection; g = se_goal se in
        trim_space
          (anchor_line ''## Session Anchor'' @
           anchor_line (''- Original user goal: '' @
             (if goal1 \<noteq> [] then compact_anchor_text goal1 else ''[unavailable in retained history]'')) @
           anchor_line (''- Goal source: '' @ source_label source) @
           (if gl_status g \<noteq> [] then
              anchor_line (''- Goal status: '' @ gl_status g) @
              (if has_budget g then anchor_line (''- Goal budget: '' @ show_int (gl_tokens_used g) @ ''/'' @
                 show_int (gl_token_budget g)) else [])
            else []) @
           (if request \<noteq> [] then anchor_line (''- Current/latest user request: '' @ compact_anchor_text request) else []) @
           (if se_cwd se \<noteq> [] then anchor_line (''- Workspace: '' @ se_cwd se) else []) @
           (if se_plan_path se \<noteq> [] then anchor_line (''- Active plan file: '' @ se_plan_path se @
              '' (authoritative -- re-read it after compaction before continuing plan work)'') else []) @
           (if se_todos se \<noteq> [] then
              anchor_line ''- Running subagents (not a task list):'' @
              concat (map (\<lambda>t. anchor_line (''  - ['' @ td_status t @ ''] '' @ td_content t)) (se_todos se))
            else []) @
           summary_lines previous inline))"

section \<open>Where the goal comes from\<close>

lemma earliest_user_goal_iff:
  "earliest_user_goal ms = [] \<longleftrightarrow> (\<forall>m \<in> set ms. user_request m \<longrightarrow> message_text m = [])"
  by (induction ms) auto

lemma earliest_user_goal_from:
  "earliest_user_goal ms \<noteq> [] \<Longrightarrow>
     \<exists>xs m ys. ms = xs @ m # ys \<and> user_request m \<and> message_text m = earliest_user_goal ms \<and>
       (\<forall>x \<in> set xs. user_request x \<longrightarrow> message_text x = [])"
proof (induction ms)
  case (Cons m ms)
  show ?case
  proof (cases "user_request m \<and> message_text m \<noteq> []")
    case True
    then show ?thesis by (intro exI [of _ "[]"] exI [of _ m] exI [of _ ms]) simp
  next
    case False
    then have "earliest_user_goal (m # ms) = earliest_user_goal ms" by auto
    then obtain xs n ys where "ms = xs @ n # ys" "user_request n" "message_text n = earliest_user_goal ms"
      "\<forall>x \<in> set xs. user_request x \<longrightarrow> message_text x = []"
      using Cons by auto
    then show ?thesis using False \<open>earliest_user_goal (m # ms) = _\<close>
      by (intro exI [of _ "m # xs"] exI [of _ n] exI [of _ ys]) auto
  qed
qed simp

text \<open>A summary message never supplies the goal or the request.\<close>

lemma summaries_ignored:
  "earliest_user_goal (filter (\<lambda>m. \<not> msg_summary m) ms) = earliest_user_goal ms"
  by (induction ms) (auto simp: user_request_def)

lemma last_user_ignores_summaries:
  "last_user_message_text (filter (\<lambda>m. \<not> msg_summary m) ms) = last_user_message_text ms"
  by (simp add: last_user_message_text_def rev_filter summaries_ignored)

end
