(* ===== verification/Compaction_Fit.thy ===== *)
theory Compaction_Fit
  imports Compaction_Cuts Compaction_Input Tool_Budget
begin

text \<open>
  Fitting a history into the token budget of a summarization, after
  internal/agent/compaction_fit.go: the whole history, else the prefix and as many recent
  turns as fit, else a bounded representation of the newest turn, else nothing but the fixed
  envelope. \<open>now\<close> is the clock that stamps the rendered message.
\<close>

section \<open>Bounded texts\<close>

definition cap_runes :: "string \<Rightarrow> nat \<Rightarrow> string" where
  "cap_runes s limit =
     (if rune_count s \<le> limit then s else concat (take limit (runes s)) @ ellipsis @ '' (truncated)'')"

definition head_tail_runes :: "string \<Rightarrow> nat \<Rightarrow> nat \<Rightarrow> string" where
  "head_tail_runes s head tail =
     (if rune_count s \<le> head + tail then s
      else concat (take head (runes s)) @ [CHR 0x0A] @ ellipsis @ '' (truncated) '' @ ellipsis @ [CHR 0x0A] @
        concat (drop (rune_count s - tail) (runes s)))"

definition user_request_limit :: nat where "user_request_limit = 4000"
definition assistant_half :: nat where "assistant_half = 2000"
definition max_activities :: nat where "max_activities = 12"
definition input_limit :: nat where "input_limit = 500"
definition output_half :: nat where "output_half = 1000"

definition bounded_user_request :: "message list \<Rightarrow> string" where
  "bounded_user_request ms =
     (let text = last_user_message_text ms in if text \<noteq> [] then cap_runes text user_request_limit else [])"

fun last_assistant_text :: "message list \<Rightarrow> string" where
  "last_assistant_text [] = []"
| "last_assistant_text (m # ms) =
     (if last_assistant_text ms \<noteq> [] then last_assistant_text ms
      else if msg_role m = Assistant then message_text m else [])"

definition bounded_assistant_text :: "message list \<Rightarrow> string" where
  "bounded_assistant_text ms =
     (let text = last_assistant_text ms
      in if text \<noteq> [] then head_tail_runes text assistant_half assistant_half else [])"

section \<open>Tool activities\<close>

record activity =
  ac_name :: string
  ac_call :: string
  ac_status :: string
  ac_input :: string
  ac_output :: string

definition new_activity :: "call_part \<Rightarrow> activity" where
  "new_activity c = \<lparr>ac_name = tcl_name c, ac_call = tcl_id c, ac_status = ''pending'',
     ac_input = cap_runes (trim_space (tcl_input c)) input_limit, ac_output = []\<rparr>"

definition finish_activity :: "result_part \<Rightarrow> activity \<Rightarrow> activity" where
  "finish_activity tr a =
     (let a = a\<lparr>ac_status := if trs_error tr then ''error'' else ''completed''\<rparr> in
      if trs_content tr = [] then a
      else a\<lparr>ac_output := if has_prefix (trs_content tr) cleared_prefix then trs_content tr
               else head_tail_runes (trs_content tr) output_half output_half\<rparr>)"

text \<open>The map byCallID holds the newest activity of an id; a result updates that one.\<close>

definition update_newest :: "string \<Rightarrow> (activity \<Rightarrow> activity) \<Rightarrow> activity list \<Rightarrow> activity list option" where
  "update_newest i f as =
     map_option rev (update_first (\<lambda>a. if ac_call a = i then Some (f a) else None) (rev as))"

fun update_group :: "string \<Rightarrow> (activity \<Rightarrow> activity) \<Rightarrow> activity list list \<Rightarrow> activity list list option" where
  "update_group i f [] = None"
| "update_group i f (g # gs) =
     (case update_group i f gs of
        Some gs' \<Rightarrow> Some (g # gs')
      | None \<Rightarrow> map_option (\<lambda>g'. g' # gs) (update_newest i f g))"

definition apply_result :: "result_part \<Rightarrow> activity list list \<Rightarrow> activity list list" where
  "apply_result tr gs =
     (case update_group (trs_call_id tr) (finish_activity tr) gs of Some gs' \<Rightarrow> gs' | None \<Rightarrow> gs)"

definition collect_message :: "message \<Rightarrow> activity list list \<Rightarrow> activity list list" where
  "collect_message m gs =
     (case msg_role m of
        Assistant \<Rightarrow>
          (let group1 = map new_activity (filter (\<lambda>c. tcl_id c \<noteq> []) (tool_calls m))
           in if group1 = [] then gs else gs @ [group1])
      | Tool \<Rightarrow> fold apply_result (tool_results m) gs
      | _ \<Rightarrow> gs)"

text \<open>The newest groups, at least one, while the total stays within the limit; newest first.\<close>

fun keep_groups :: "nat \<Rightarrow> activity list list \<Rightarrow> activity list list" where
  "keep_groups count [] = []"
| "keep_groups count (g # gs) =
     (if count > 0 \<and> count + length g > max_activities then []
      else g # keep_groups (count + length g) gs)"

definition bounded_activities :: "message list \<Rightarrow> activity list" where
  "bounded_activities ms =
     concat (rev (keep_groups 0 (rev (fold collect_message ms []))))"

definition render_activity :: "activity \<Rightarrow> string" where
  "render_activity a =
     [CHR 0x0A, CHR 0x0A] @ ''- '' @ ac_name a @ '' ('' @ ac_call a @ ''): '' @ ac_status a @
     (if ac_input a \<noteq> [] then [CHR 0x0A] @ ''  input: '' @ ac_input a else []) @
     (if ac_output a \<noteq> [] then [CHR 0x0A] @ ''  output: '' @ ac_output a else [])"

definition bounded_text :: "message list \<Rightarrow> string" where
  "bounded_text ms =
     (let user = bounded_user_request ms; progress = bounded_assistant_text ms; acts = bounded_activities ms in
      ''[The most recent work segment exceeded the summarization budget. '' @
      ''This is a bounded representation of it, not full history: '' @
      ''the request, most recent visible progress, and recent tool activity, each truncated to a fixed limit.]'' @
      [CHR 0x0A, CHR 0x0A] @ ''User request:'' @ [CHR 0x0A] @
      (if user \<noteq> [] then user else ''[no user message in this segment]'') @
      [CHR 0x0A, CHR 0x0A] @ ''Assistant progress:'' @ [CHR 0x0A] @
      (if progress \<noteq> [] then progress else ''[no assistant text in this segment]'') @
      [CHR 0x0A, CHR 0x0A] @ ''Tool activity:'' @
      (if acts = [] then '' [none in this segment]'' else []) @
      concat (map render_activity acts))"

definition bounded_segment :: "int \<Rightarrow> work_segment \<Rightarrow> message list" where
  "bounded_segment now seg =
     [add_finish now FinishReasonEndTurn [] []
        (zero_message\<lparr>msg_role := Assistant, msg_parts := [PText (bounded_text (seg_messages seg))]\<rparr>)]"

section \<open>The four tiers\<close>

record fit_result =
  ft_messages :: "message list"
  ft_bounded :: bool
  ft_envelope_only :: bool

definition fit_history :: "json_reader \<Rightarrow> int \<Rightarrow> message list \<Rightarrow> int \<Rightarrow> int \<Rightarrow> fit_result" where
  "fit_history j now ms lower max_tokens =
     (if ms = [] then \<lparr>ft_messages = ms, ft_bounded = False, ft_envelope_only = False\<rparr>
      else if max_tokens \<le> 0 then \<lparr>ft_messages = [], ft_bounded = False, ft_envelope_only = True\<rparr>
      else
        let lb = (if lower < 0 then 0 else if lower > int (length ms) then int (length ms) else lower) in
        if estimate_messages j ms \<le> max_tokens
        then \<lparr>ft_messages = ms, ft_bounded = False, ft_envelope_only = False\<rparr>
        else
          let prefix1 = take (nat lb) ms;
              segment = select_fitting j ms lb max_tokens;
              candidate = prefix1 @ seg_messages segment
          in if estimate_messages j candidate \<le> max_tokens
             then \<lparr>ft_messages = candidate, ft_bounded = False, ft_envelope_only = False\<rparr>
             else
               let bounded = prefix1 @ bounded_segment now segment in
               if estimate_messages j bounded \<le> max_tokens
               then \<lparr>ft_messages = bounded, ft_bounded = True, ft_envelope_only = False\<rparr>
               else \<lparr>ft_messages = [], ft_bounded = True, ft_envelope_only = True\<rparr>)"

end
