(* ===== verification/Compaction_Growth.thy ===== *)
theory Compaction_Growth
  imports Compaction_Fit
begin

text \<open>
  What the search for the largest fitting segment finds. In a well-paired history the
  segments of the turn boundaries are nested, so the loop that stops at the first boundary
  over budget returns the largest segment within it.
\<close>

abbreviation seg_at :: "message list \<Rightarrow> nat \<Rightarrow> message list" where
  "seg_at c s \<equiv> filter_summaries (drop (extend_past_orphans c s) c)"

lemma segment_of_sel [simp]:
  "seg_messages (segment_of ms) = ms" "seg_pending (segment_of ms) = has_open_tool_call ms"
  by (simp_all add: segment_of_def)

lemma grow_segment_result:
  "grow_segment j c p k ss best =
     (let fit = takeWhile (\<lambda>s. p + estimate_messages j (seg_at c s) \<le> k) ss in
      if fit = [] then best else segment_of (seg_at c (last fit)))"
  by (induction ss arbitrary: best) (auto simp: Let_def)

lemma estimate_drop_mono:
  assumes "e \<le> e'"
  shows "estimate_messages j (filter_summaries (drop e' c)) \<le> estimate_messages j (filter_summaries (drop e c))"
proof -
  have "drop e c = drop e (take e' c) @ drop e' c" by (rule drop_split [OF assms])
  then have "estimate_messages j (filter_summaries (drop e c)) =
      estimate_messages j (filter_summaries (drop e (take e' c))) + estimate_messages j (filter_summaries (drop e' c))"
    by (simp add: filter_summaries_def)
  then show ?thesis by simp
qed

lemma turn_starts_sorted: "sorted_wrt (\<ge>) (rev (turn_starts ms))"
proof -
  have "sorted_wrt (<) (turn_starts ms)"
    by (auto simp: turn_starts_def intro: sorted_wrt_filter)
  then show ?thesis by (auto simp: sorted_wrt_rev intro: sorted_wrt_mono_rel [of _ "(<)"])
qed

lemma turn_starts_rev:
  assumes "ms \<noteq> []"
  shows "\<exists>ss. rev (turn_starts ms) = (case most_recent_user ms of Some k \<Rightarrow> k | None \<Rightarrow> 0) # ss"
proof -
  have "turn_starts ms \<noteq> []" using assms by (simp add: turn_starts_def)
  then show ?thesis
    using turn_starts_last [OF assms]
    by (metis append_butlast_last_id rev_append rev_singleton_conv append_Cons append_Nil)
qed

text \<open>The candidates and the prefix of a lower bound inside the history.\<close>

lemma select_recent_inside:
  assumes "0 \<le> lower" "lower < int (length ms)" "c = drop (nat lower) ms"
  shows "select_recent_work ms lower = segment_of (filter_summaries (drop (recent_start c) c))"
  using assms by (simp add: select_recent_work_def Let_def)

lemma select_fitting_inside:
  assumes "0 \<le> lower" "lower < int (length ms)" "c = drop (nat lower) ms"
  shows "select_fitting j ms lower k =
     grow_segment j c (estimate_messages j (take (nat lower) ms)) k (rev (turn_starts c)) (select_recent_work ms lower)"
  using assms by (simp add: select_fitting_def Let_def)

lemma fitting_largest:
  assumes "0 \<le> lower" "lower < int (length ms)" "c = drop (nat lower) ms"
    and paired: "well_paired c" "results_named c"
  obtains e where "select_fitting j ms lower k = segment_of (filter_summaries (drop e c))"
    and "e \<le> recent_start c" "well_paired (drop e c)"
    and "e = recent_start c \<or>
      estimate_messages j (take (nat lower) ms) + estimate_messages j (filter_summaries (drop e c)) \<le> k"
    and "\<forall>s \<in> set (turn_starts c).
      estimate_messages j (take (nat lower) ms) + estimate_messages j (seg_at c s) \<le> k \<longrightarrow>
        e \<le> extend_past_orphans c s"
proof -
  let ?p = "estimate_messages j (take (nat lower) ms)"
  let ?P = "\<lambda>s. ?p + estimate_messages j (seg_at c s) \<le> k"
  let ?fit = "takeWhile ?P (rev (turn_starts c))"
  have c: "c \<noteq> []" using assms(1-3) by simp
  obtain t ss where t: "rev (turn_starts c) = t # ss" "recent_start c = extend_past_orphans c t"
    using turn_starts_rev [OF c] by (auto simp: recent_start_def)
  have sorted: "sorted_wrt (\<ge>) (t # ss)" using turn_starts_sorted [of c] t(1) by simp
  have in_ts: "set (turn_starts c) = set (t # ss)" using t(1) by (metis set_rev)
  have mono: "\<not> ?P s" if "s \<le> s'" "\<not> ?P s'" for s s'
    using estimate_drop_mono [OF extend_mono [OF paired that(1)], of j c] that(2) by linarith
  have res: "select_fitting j ms lower k =
      (if ?fit = [] then segment_of (seg_at c t) else segment_of (seg_at c (last ?fit)))"
    by (simp add: select_fitting_inside [OF assms(1-3)] grow_segment_result Let_def
        select_recent_inside [OF assms(1-3)] t(2))
  show thesis
  proof (cases "?fit = []")
    case True
    then have "\<not> ?P t" using t(1) by (auto split: if_splits)
    then have none: "\<not> ?P s" if "s \<in> set (turn_starts c)" for s
      using that mono [of s t] sorted by (auto simp: in_ts)
    show thesis
      by (rule that [of "recent_start c"])
         (use res True t(2) none extend_correct [OF paired, of t] in auto)
  next
    case False
    let ?l = "last ?fit"
    have l: "?l \<in> set ?fit" using False by (rule last_in_set)
    then have Pl: "?P ?l" and "?l \<in> set (t # ss)" using t(1) by (auto dest: set_takeWhileD)
    then have "?l \<le> t" using sorted by auto
    then have "extend_past_orphans c ?l \<le> recent_start c" using extend_mono [OF paired] t(2) by simp
    moreover have "extend_past_orphans c ?l \<le> extend_past_orphans c s"
      if s: "s \<in> set (turn_starts c)" "?P s" for s
    proof (rule extend_mono [OF paired], rule ccontr)
      assume "\<not> ?l \<le> s"
      let ?rest = "dropWhile ?P (t # ss)"
      have split: "?fit @ ?rest = t # ss" using t(1) by (simp only: takeWhile_dropWhile_id)
      then have both: "sorted_wrt (\<ge>) (?fit @ ?rest)" using sorted by (simp only: split)
      then have fit_sorted: "sorted_wrt (\<ge>) ?fit" unfolding sorted_wrt_append by blast
      have last_min: "\<forall>x \<in> set xs. last xs \<le> x" if "sorted_wrt (\<ge>) xs" for xs :: "nat list"
        using that by (induction xs) auto
      have "s \<notin> set ?fit" using \<open>\<not> ?l \<le> s\<close> last_min [OF fit_sorted] by auto
      moreover have "s \<in> set (?fit @ ?rest)" using s(1) by (simp only: split in_ts)
      ultimately have sr: "s \<in> set ?rest" by (simp only: set_append Un_iff simp_thms)
      then obtain h rs where h: "?rest = h # rs" by (cases ?rest) auto
      have "\<not> ?P h" using hd_dropWhile [of ?P "t # ss"] unfolding h by simp
      moreover have "sorted_wrt (\<ge>) (h # rs)" using both unfolding h sorted_wrt_append by blast
      then have "s \<le> h" using sr h by auto
      ultimately show False using mono s(2) by blast
    qed
    ultimately show thesis
      by (intro that [of "extend_past_orphans c ?l"])
         (use res False Pl extend_correct [OF paired, of ?l] in auto)
  qed
qed

section \<open>The budget\<close>

lemma fit_history_within:
  "estimate_messages j (ft_messages (fit_history j now ms lower k)) \<le> max 0 k"
  by (simp add: fit_history_def Let_def)

end
