(* ===== verification/Tool_Limits.thy ===== *)
theory Tool_Limits
  imports Tool_Budget
begin

text \<open>
  What the limits of \<open>Tool_Budget\<close> guarantee. The notice of a truncation states how many
  characters were omitted, so its own length depends on the cut; the three rounds of the code
  reach the fixed point, and the truncated result has exactly the length asked for.
\<close>

section \<open>Digits\<close>

definition digits :: "nat \<Rightarrow> nat" where
  "digits n = length (show_nat n)"

lemma digits_rec: "digits n = (if n < 10 then 1 else Suc (digits (n div 10)))"
  by (subst digits_def, subst show_nat.simps) (simp add: digits_def)

lemma digits_le_iff: "digits n \<le> Suc k \<longleftrightarrow> n < 10 ^ Suc k"
proof (induction k arbitrary: n)
  case 0
  show ?case by (subst digits_rec) (auto simp: digits_rec [of "n div 10"] Suc_le_eq)
next
  case (Suc k)
  have "n div 10 < 10 ^ Suc k \<longleftrightarrow> n < 10 ^ Suc (Suc k)"
    by (metis div_less_iff_less_mult mult.commute power_Suc zero_less_numeral)
  then show ?case
    using Suc [of "n div 10"] by (subst digits_rec) (auto intro: order_less_le_trans)
qed

lemma digits_pos [simp]: "0 < digits n"
  by (subst digits_rec) simp

lemma digits_mono: "m \<le> n \<Longrightarrow> digits m \<le> digits n"
proof -
  assume "m \<le> n"
  obtain k where k: "digits n = Suc k" using digits_pos [of n] gr0_implies_Suc by blast
  then show ?thesis using digits_le_iff [of n k] digits_le_iff [of m k] \<open>m \<le> n\<close> by simp
qed

text \<open>The fixed point: the digits settle after three rounds.\<close>

lemma digits_settle:
  assumes "d0 = digits x" "d1 = digits (a + d0)" "d2 = digits (a + d1)" "x \<le> a" "a + d1 < 10 ^ 40"
  shows "digits (a + d2) = d2"
proof -
  have d01: "d0 \<le> d1" unfolding assms(1,2) by (rule digits_mono) (use assms(4) in simp)
  have d12: "d1 \<le> d2"
    using d01 digits_mono [of "a + d0" "a + d1"] assms(2,3) by simp
  show ?thesis
  proof (cases "d1 = d2")
    case True
    then show ?thesis using assms(3) by simp
  next
    case False
    obtain k where k: "d1 = Suc k" using assms(2) digits_pos [of "a + d0"] gr0_implies_Suc by metis
    have small: "a + d0 < 10 ^ d1" using digits_le_iff [of "a + d0" k] k assms(2) by simp
    have "d2 \<le> 40" using digits_le_iff [of "a + d1" 39] assms(3,5) by simp
    then have "a + d2 < 10 ^ d1 + 40" using small by simp
    also have "\<dots> \<le> 10 ^ Suc d1"
    proof -
      have "1 \<le> (10::nat) ^ k" by simp
      then show ?thesis unfolding k power_Suc by linarith
    qed
    finally have "digits (a + d2) \<le> Suc d1" using digits_le_iff [of "a + d2" d1] by simp
    moreover have "d2 \<le> digits (a + d2)"
      using digits_mono [of "a + d1" "a + d2"] d12 assms(3) by simp
    ultimately show ?thesis using False d12 by simp
  qed
qed

section \<open>The length of a notice\<close>

definition notice_rest :: "string \<Rightarrow> string" where
  "notice_rest path = '' characters omitted '' @ dash @
     '' output exceeded the context window limit. '' @
     (if path \<noteq> [] then saved_hint path
      else ''This excerpt is incomplete; do not guess from it or assume it contains the full result. If you need more detail, rerun the tool with a narrower scope or use a precise read with offset/limit when available.]'')"

definition notice_base :: "string \<Rightarrow> nat" where
  "notice_base path = 3 + rune_count (notice_rest path)"

lemma ascii_show_int [simp]: "ascii (show_int i)"
  by (simp add: show_int_def byte_val_def)

lemma notice_length:
  "rune_count (truncated_notice (int o1) path) = notice_base path + digits o1"
proof -
  have "truncated_notice (int o1) path = ([CHR 0x0A, CHR 0x0A] @ ''['' @ show_int (int o1)) @ notice_rest path"
    by (simp add: truncated_notice_def notice_rest_def)
  then show ?thesis
    by (subst \<open>truncated_notice _ _ = _\<close>, subst rune_count_ascii_append)
       (simp_all add: notice_base_def show_int_def digits_def byte_val_def)
qed

section \<open>A truncated result\<close>

lemma keep_round_free:
  assumes "keep \<le> chars" "int (notice_base path + digits (nat (chars - keep))) \<le> limit" "limit \<le> chars"
  shows "keep_round limit chars path keep = limit - int (notice_base path + digits (nat (chars - keep)))"
proof -
  have "truncated_notice (chars - keep) path = truncated_notice (int (nat (chars - keep))) path"
    using assms(1) by simp
  then have "rune_count (truncated_notice (chars - keep) path) = notice_base path + digits (nat (chars - keep))"
    by (simp only: notice_length)
  then show ?thesis using assms by (simp add: keep_round_def Let_def)
qed

lemma keep_chars_exact:
  assumes "limit < chars" "int (notice_base path) + 40 \<le> limit" "chars + int (notice_base path) + 40 < 10 ^ 40"
  shows "0 \<le> keep_chars limit chars path" "keep_chars limit chars path \<le> chars"
    and "keep_chars limit chars path + int (rune_count (truncated_notice (chars - keep_chars limit chars path) path)) = limit"
proof -
  let ?b = "notice_base path"
  define x where "x = nat (chars - limit)"
  define a where "a = x + ?b"
  define d0 where "d0 = digits x"
  define d1 where "d1 = digits (a + d0)"
  define d2 where "d2 = digits (a + d1)"
  have bound: "digits y \<le> 40" if "int y < 10 ^ 40" for y
  proof -
    have "int y < int (10 ^ 40)" using that by simp
    then have "y < 10 ^ Suc 39" unfolding of_nat_less_iff by simp
    then show ?thesis using digits_le_iff [of y 39] by simp
  qed
  have x: "int x = chars - limit" using assms(1) by (simp add: x_def)
  have b0: "d0 \<le> 40" unfolding d0_def by (rule bound) (use x assms in linarith)
  have b1: "d1 \<le> 40" unfolding d1_def by (rule bound) (use x b0 assms in \<open>simp add: a_def\<close>)
  have b2: "d2 \<le> 40" unfolding d2_def by (rule bound) (use x b1 assms in \<open>simp add: a_def\<close>)
  have small: "a + d1 < 10 ^ 40"
  proof -
    have "int (a + d1) < int (10 ^ 40)" using x b1 assms by (simp add: a_def)
    then show ?thesis unfolding of_nat_less_iff by simp
  qed
  have settle: "digits (a + d2) = d2"
    by (rule digits_settle [OF d0_def d1_def d2_def _ small]) (simp add: a_def)
  have k1: "keep_round limit chars path limit = limit - int (?b + d0)"
    using keep_round_free [of limit chars path limit] assms b0 by (simp add: d0_def x_def)
  have n1: "nat (chars - (limit - int (?b + d0))) = a + d0"
    using x by (simp add: a_def)
  have k2: "keep_round limit chars path (limit - int (?b + d0)) = limit - int (?b + d1)"
    by (subst keep_round_free) (use assms b1 n1 in \<open>simp_all add: d1_def\<close>)
  have n2: "nat (chars - (limit - int (?b + d1))) = a + d1"
    using x by (simp add: a_def)
  have k3: "keep_round limit chars path (limit - int (?b + d1)) = limit - int (?b + d2)"
    by (subst keep_round_free) (use assms b2 n2 in \<open>simp_all add: d2_def\<close>)
  have keep: "keep_chars limit chars path = limit - int (?b + d2)"
    by (simp only: keep_chars_def k1 k2 k3)
  then show "0 \<le> keep_chars limit chars path" "keep_chars limit chars path \<le> chars"
    using assms b2 by simp_all
  have "chars - keep_chars limit chars path = int (a + d2)"
    using x by (simp add: keep a_def)
  then show "keep_chars limit chars path + int (rune_count (truncated_notice (chars - keep_chars limit chars path) path)) = limit"
    by (simp only: notice_length settle) (simp add: keep)
qed

lemma rune_count_truncate_to:
  assumes "0 \<le> keep_chars limit (int (rune_count c)) path" "keep_chars limit (int (rune_count c)) path \<le> int (rune_count c)"
  shows "int (rune_count (truncate_to limit path c)) = keep_chars limit (int (rune_count c)) path +
     int (rune_count (truncated_notice (int (rune_count c) - keep_chars limit (int (rune_count c)) path) path))"
  using assms by (simp add: truncate_to_def Let_def rune_count_take_append)

lemma output_path_length: "length (output_path e tr) \<le> 22"
  by (auto simp: output_path_def persist_result_def Let_def split: option.splits)

lemma saved_hint_length: "length (saved_hint p) = 275 + 2 * length p"
  by (simp add: saved_hint_def quoted_def)

lemma notice_base_bound: "notice_base (output_path e tr) \<le> 600"
proof -
  have "length (notice_rest (output_path e tr)) \<le> 500"
    using output_path_length [of e tr] by (simp add: notice_rest_def saved_hint_length dash_def)
  then show ?thesis
    using rune_count_le_length [of "notice_rest (output_path e tr)"] by (simp add: notice_base_def)
qed

text \<open>A length of a Go string is below \<open>2 ^ 63\<close>.\<close>

abbreviation go_length :: "string \<Rightarrow> bool" where
  "go_length s \<equiv> rune_count s < 2 ^ 63"

lemma truncate_to_exact:
  assumes "limit < int (rune_count c)" "640 \<le> limit" "go_length c" "path = output_path e tr"
  shows "int (rune_count (truncate_to limit path c)) = limit"
    and "\<exists>k < rune_count c. truncate_to limit path c =
       concat (take k (runes c)) @ truncated_notice (int (rune_count c - k)) path"
proof -
  let ?n = "int (rune_count c)"
  let ?k = "keep_chars limit ?n path"
  have b: "int (notice_base path) \<le> 600" using notice_base_bound [of e tr] assms(4) by simp
  have n: "?n < 2 ^ 63" using assms(3) by simp
  have "?n + int (notice_base path) + 40 < 10 ^ 40" using b n by simp
  note k = keep_chars_exact [OF assms(1) _ this]
  have k0: "0 \<le> ?k" "?k \<le> ?n" using k(1,2) b assms(2) by simp_all
  show "int (rune_count (truncate_to limit path c)) = limit"
    using rune_count_truncate_to [OF k0] k(3) b assms(2) by simp
  have "?k + int (rune_count (truncated_notice (?n - ?k) path)) = limit"
    using k(3) b assms(2) by simp
  then have "nat ?k < rune_count c" using k0 assms(1) by linarith
  moreover have "?n - ?k = int (rune_count c - nat ?k)" using k0 by simp
  ultimately show "\<exists>k < rune_count c. truncate_to limit path c =
       concat (take k (runes c)) @ truncated_notice (int (rune_count c - k)) path"
    by (auto simp: truncate_to_def Let_def)
qed

section \<open>The message budget\<close>

lemma keep_round_le: "0 < limit \<Longrightarrow> 0 \<le> chars \<Longrightarrow> 0 \<le> keep_round limit chars path k \<and>
    keep_round limit chars path k \<le> limit \<and> keep_round limit chars path k \<le> chars"
  by (simp add: keep_round_def Let_def)

lemma digits_small: "n < 2 ^ 63 \<Longrightarrow> digits n \<le> 40"
  using digits_le_iff [of n 39] by simp

lemma truncate_to_bound:
  assumes "0 < limit" "go_length c" "path = output_path e tr"
  shows "int (rune_count (truncate_to limit path c)) \<le> limit + 640"
proof -
  let ?n = "int (rune_count c)"
  let ?k = "keep_chars limit ?n path"
  have k: "0 \<le> ?k" "?k \<le> limit" "?k \<le> ?n"
    using keep_round_le [of limit ?n path] assms(1) by (simp_all add: keep_chars_def)
  have "truncated_notice (?n - ?k) path = truncated_notice (int (rune_count c - nat ?k)) path"
    using k by simp
  then have "rune_count (truncated_notice (?n - ?k) path) = notice_base path + digits (rune_count c - nat ?k)"
    by (simp only: notice_length)
  also have "\<dots> \<le> 600 + 40"
    using notice_base_bound [of e tr] digits_small [OF le_less_trans [OF diff_le_self assms(2)]] assms(3)
    by (intro add_mono) simp_all
  finally show ?thesis using rune_count_truncate_to [OF k(1,3)] k(2) by simp
qed

lemma exhausted_bound:
  assumes "exhausted_preview c = (preview, shown, original)" "go_length c" "path = output_path e tr"
    and "0 \<le> used" "used \<le> message_limit"
  shows "rune_count (exhausted_content preview (message_notice used original shown path)) \<le> 3000"
proof -
  have num: "length (show_int i) \<le> 40" if "0 \<le> i" "i < 2 ^ 63" for i
    using digits_small [of "nat i"] that by (simp add: show_int_def digits_def)
  have pv: "rune_count preview \<le> 2000" "original = rune_count c" "shown \<le> original"
    using assms(1) rune_count_drop_append [of "rune_count c - min (rune_count c) preview_limit" c "[]"]
    by (auto simp: exhausted_preview_def Let_def preview_limit_def split: if_splits)
  have "rune_count (message_notice used original shown path) \<le> length (message_notice used original shown path)"
    by (rule rune_count_le_length)
  also have "\<dots> \<le> 900"
    using num [of used] num [of message_limit] num [of "int shown"] num [of "int original"]
      num [of "int original - int shown"] output_path_length [of e tr] assms(2-5) pv(2,3)
    by (simp add: message_notice_def exhausted_notice_def saved_hint_length message_limit_def)
  finally have nb: "rune_count (message_notice used original shown path) \<le> 900" .
  have "runes (preview @ t) = runes preview @ runes t" for t
    using assms(1) runes_drop_append [of _ c t] runes_drop_append [of _ c "[]"]
    by (auto simp: exhausted_preview_def Let_def split: if_splits)
  then have "rune_count (preview @ CHR 0x0A # CHR 0x0A # t) = rune_count preview + (2 + rune_count t)" for t
    using rune_count_ascii_append [of "[CHR 0x0A, CHR 0x0A]" t] by (simp add: rune_count_def byte_val_def)
  then show ?thesis using nb pv(1) by (simp add: exhausted_content_def)
qed

lemma message_budget_bound:
  assumes "\<forall>r \<in> set rs. go_length (trs_content r)" "0 \<le> used" "used \<le> message_limit"
  shows "result_chars (filter limited (message_budget_from e used rs)) \<le>
     message_limit - used + 3000 * int (length rs)"
  using assms
proof (induction e used rs rule: message_budget_from.induct)
  case (2 e used tr trs)
  let ?c = "trs_content tr"
  let ?n = "int (rune_count ?c)"
  have go: "go_length ?c" "\<forall>r \<in> set trs. go_length (trs_content r)" using 2(5) by simp_all
  consider "\<not> limited tr" | "limited tr" "message_limit - used \<le> 0"
    | "limited tr" "0 < message_limit - used" "?n \<le> message_limit - used"
    | "limited tr" "0 < message_limit - used" "message_limit - used < ?n"
    by linarith
  then show ?case
  proof cases
    case 1
    then show ?thesis using 2(1) [OF refl refl] go 2(6,7) by simp
  next
    case 2
    obtain p s o1 where e: "exhausted_preview ?c = (p, s, o1)" by (metis prod_cases3)
    let ?r = "tr\<lparr>trs_content := exhausted_content p (message_notice used o1 s (output_path e tr))\<rparr>"
    have "rune_count (trs_content ?r) \<le> 3000"
      using exhausted_bound [OF e go(1) refl "2.prems"(2,3)] by simp
    moreover have "limited ?r" using 2 by (simp add: limited_def)
    moreover have "message_budget_from e used (tr # trs) = ?r # message_budget_from e used trs"
      using 2 e by simp
    moreover have "result_chars (filter limited (message_budget_from e used trs)) \<le>
        message_limit - used + 3000 * int (length trs)"
      using "2.IH"(2) [OF refl refl] 2 go(2) "2.prems"(2,3) by blast
    ultimately show ?thesis by (simp add: result_chars_def)
  next
    case 3
    have "result_chars (filter limited (message_budget_from e (used + ?n) trs)) \<le>
        message_limit - (used + ?n) + 3000 * int (length trs)"
      by (rule "2.IH"(3) [OF refl refl]) (use 3 go(2) "2.prems"(2) in auto)
    then show ?thesis using 3 by (simp add: result_chars_def)
  next
    case 4
    let ?t = "truncate_to (message_limit - used) (output_path e tr) ?c"
    have "int (rune_count ?t) \<le> message_limit - used + 640"
      by (rule truncate_to_bound [OF 4(2) go(1) refl])
    moreover have "result_chars (filter limited (message_budget_from e message_limit trs)) \<le>
        message_limit - message_limit + 3000 * int (length trs)"
      by (rule "2.IH"(4) [OF refl refl]) (use 4 go(2) in \<open>auto simp: message_limit_def\<close>)
    moreover have "message_budget_from e used (tr # trs) =
        tr\<lparr>trs_content := ?t\<rparr> # message_budget_from e message_limit trs"
      using 4 by simp
    moreover have "limited (tr\<lparr>trs_content := ?t\<rparr>)" using 4 by (simp add: limited_def)
    ultimately show ?thesis by (simp add: result_chars_def)
  qed
qed (simp add: result_chars_def)

end
