(* ===== verification/Compaction_Properties.thy ===== *)
theory Compaction_Properties
  imports Compaction_Growth Compaction_Prune Tool_Limits
begin

text \<open>
  Properties of what keeps a conversation within the context window: truncated results have
  the exact length allowed, budgets bound what is sent, pruning touches only old results and
  is stable, and compaction cuts a history only where no result loses its call.
\<close>

section \<open>Tool results\<close>

text \<open> C20. A truncated result has exactly the allowed length. A text result over the limit is cut
  to a prefix of its characters and a notice that states exactly how many were omitted, and
  the result has exactly 20000 characters: the three rounds of the code are enough although
  the notice's own length depends on the number it states.\<close>

theorem truncated_result_exact:
  assumes "limited tr" "result_limit < int (rune_count (trs_content tr))" "go_length (trs_content tr)"
  shows "let c = trs_content tr; c' = trs_content (fst (truncate_tool_result e tr)) in
     int (rune_count c') = result_limit \<and>
     (\<exists>k < rune_count c. c' = concat (take k (runes c)) @ truncated_notice (int (rune_count c - k)) (output_path e tr))"
  using truncate_to_exact [OF assms(2) _ assms(3) refl, of e tr] assms
  by (simp add: truncate_tool_result_def result_limit_def Let_def)

definition long_result :: "nat \<Rightarrow> result_part" where
  "long_result n = \<lparr>trs_call_id = ''c'', trs_name = ''bash'', trs_content = replicate n CHR ''a'', trs_data = [],
     trs_mime = [], trs_metadata = [], trs_error = False, trs_review = no_review\<rparr>"

definition no_archive :: archive_env where
  "no_archive = \<lparr>ae_agent = False, ae_data_dir = [], ae_working_dir = [], ae_hash = (\<lambda>_. []), ae_write = (\<lambda>_. False)\<rparr>"

lemma long_result [simp]:
  "limited (long_result n)" "rune_count (trs_content (long_result n)) = n"
  by (simp_all add: limited_def long_result_def rune_count_ascii ascii_def byte_val_def)

theorem truncated_result_exact_witness:
  "int (rune_count (trs_content (fst (truncate_tool_result no_archive (long_result 25000))))) = 20000"
  using truncated_result_exact [of "long_result 25000" no_archive]
  by (simp add: result_limit_def Let_def)

text \<open> The budget of a provider message bounds its results up to a constant for each: whatever
  the tools returned, the text results of one message together have at most 200000 characters
  and 3000 for each result.\<close>

theorem message_budget_bounded:
  assumes "\<forall>r \<in> set rs. go_length (trs_content r)"
  shows "result_chars (filter limited (enforce_message_budget e rs)) \<le> 200000 + 3000 * int (length rs)"
  using message_budget_bound [OF assms, of 0 e] by (simp add: enforce_message_budget_def message_limit_def)

theorem message_budget_bounded_witness:
  "result_chars (filter limited (enforce_message_budget no_archive [long_result 150000, long_result 90000, long_result 9])) \<le> 209000"
  using message_budget_bounded [of "[long_result 150000, long_result 90000, long_result 9]" no_archive]
  by simp

section \<open>Pruning\<close>

text \<open> C19. Pruning touches only old results. Every message keeps its place and all its fields but
  its parts; a part changes only if it is a successful, unprotected result of a tool message
  that lies before the two most recent user turns and after the last summary, and then only
  its content is replaced by the placeholder.\<close>

theorem prune_only_old_results:
  "let ns = prune_tool_results protect cached archive ms in
   length ns = length ms \<and>
   (\<forall>i < length ms. \<exists>ps. ns ! i = (ms ! i)\<lparr>msg_parts := ps\<rparr> \<and> length ps = length (msg_parts (ms ! i)) \<and>
      (\<forall>j < length ps. ps ! j = msg_parts (ms ! i) ! j \<or>
         prunable protect cached ms i j \<and>
         (\<exists>tr text. msg_parts (ms ! i) ! j = PResult tr \<and>
            ps ! j = PResult (tr\<lparr>trs_content := cleared_prefix @ text\<rparr>))))"
proof -
  let ?s = "prune_scan protect cached ms"
  let ?rel = "\<lambda>ns. length ns = length ms \<and>
   (\<forall>i < length ms. \<exists>ps. ns ! i = (ms ! i)\<lparr>msg_parts := ps\<rparr> \<and> length ps = length (msg_parts (ms ! i)) \<and>
      (\<forall>j < length ps. ps ! j = msg_parts (ms ! i) ! j \<or>
         prunable protect cached ms i j \<and>
         (\<exists>tr text. msg_parts (ms ! i) ! j = PResult tr \<and>
            ps ! j = PResult (tr\<lparr>trs_content := cleared_prefix @ text\<rparr>))))"
  note targets = prune_scan_targets [where protect = protect and cached = cached and ms = ms]
  have rel: "?rel ns" if c: "cleared archive ts ms ns" and ts: "set ts \<subseteq> set (pr_targets ?s)" for ts ns
  proof (intro conjI allI impI)
    show "length ns = length ms" using c by (simp add: cleared_def)
    fix i assume i: "i < length ms"
    obtain ps where ps: "ns ! i = (ms ! i)\<lparr>msg_parts := ps\<rparr>" "length ps = length (msg_parts (ms ! i))"
      "\<forall>j < length ps. ((i, j) \<notin> set (map place ts) \<longrightarrow> ps ! j = msg_parts (ms ! i) ! j) \<and>
         (\<forall>k n. (i, j, k, n) \<in> set ts \<longrightarrow> ps ! j = clear_part archive k n (msg_parts (ms ! i) ! j))"
      using c [unfolded cleared_def] i by blast
    have "ps ! j = msg_parts (ms ! i) ! j \<or> prunable protect cached ms i j \<and>
         (\<exists>tr text. msg_parts (ms ! i) ! j = PResult tr \<and> ps ! j = PResult (tr\<lparr>trs_content := cleared_prefix @ text\<rparr>))"
      if j: "j < length ps" for j
    proof (cases "(i, j) \<in> set (map place ts)")
      case False
      then show ?thesis using ps(3) j by blast
    next
      case True
      then obtain k n where t: "(i, j, k, n) \<in> set ts" by force
      then have p: "prunable protect cached ms i j" using targets(2) [of "(i, j, k, n)"] ts by auto
      then obtain tr where "msg_parts (ms ! i) ! j = PResult tr"
        by (auto simp: prunable_def counted_def part_action_Count)
      moreover have "ps ! j = clear_part archive k n (msg_parts (ms ! i) ! j)" using ps(3) j t by blast
      ultimately show ?thesis
        using p by (auto simp: clear_part_def clear_result_def cleared_notice_def)
    qed
    then show "\<exists>ps. ns ! i = (ms ! i)\<lparr>msg_parts := ps\<rparr> \<and> length ps = length (msg_parts (ms ! i)) \<and>
      (\<forall>j < length ps. ps ! j = msg_parts (ms ! i) ! j \<or> prunable protect cached ms i j \<and>
         (\<exists>tr text. msg_parts (ms ! i) ! j = PResult tr \<and> ps ! j = PResult (tr\<lparr>trs_content := cleared_prefix @ text\<rparr>)))"
      using ps(1,2) by blast
  qed
  show ?thesis
    using rel [OF cleared_Nil] rel [OF cleared_fold [OF targets(1)] order_refl]
    unfolding prune_tool_results_def Let_def by (auto split: if_split)
qed

theorem prune_only_old_results_witness:
  "length (prune_tool_results None None None [zero_message]) = 1"
  using prune_only_old_results [of None None None "[zero_message]"] by (simp add: Let_def)

text \<open> Pruning twice is pruning once, when the protection of a result does not depend on its
  content: the second walk stops at the first placeholder.\<close>

theorem prune_idempotent:
  assumes "\<And>f tr c. protect = Some f \<Longrightarrow> f (tr\<lparr>trs_content := c\<rparr>) = f tr"
  shows "prune_tool_results protect cached archive' (prune_tool_results protect cached archive ms) =
     prune_tool_results protect cached archive ms"
  by (rule prune_twice [OF assms])

theorem prune_idempotent_witness:
  "prune_builtin (prune_builtin [zero_message]) = prune_builtin [zero_message]"
  unfolding prune_builtin_def prune_with_protection_def by (rule prune_idempotent) simp

section \<open>Cutting a history\<close>

text \<open> C17. The recent work never splits a call from its result. In a well-paired history the
  selected segment, without summaries, is well-paired, and its start is the latest safe cut
  at or before the most recent user message: nothing is added that pairing does not force.\<close>

theorem recent_work_cut:
  assumes "0 \<le> lower" "lower < int (length ms)" "c = drop (nat lower) ms"
    and "well_paired c" "results_named c" "summaries_silent c"
    and "start = (case most_recent_user c of Some k \<Rightarrow> k | None \<Rightarrow> 0)"
  shows "\<exists>e \<le> start. seg_messages (select_recent_work ms lower) = filter_summaries (drop e c) \<and>
     well_paired (filter_summaries (drop e c)) \<and>
     (\<forall>e'. e' \<le> start \<and> well_paired (drop e' c) \<longrightarrow> e' \<le> e)"
proof (intro exI conjI)
  let ?e = "extend_past_orphans c start"
  show "?e \<le> start" by (rule extend_le)
  show "seg_messages (select_recent_work ms lower) = filter_summaries (drop ?e c)"
    using select_recent_inside [OF assms(1-3)] by (simp add: recent_start_def assms(7))
  show "well_paired (filter_summaries (drop ?e c))"
    using extend_correct [OF assms(4,5), of start] filter_summaries_events [OF silent_drop [OF assms(6)]]
    by (simp add: well_paired_def)
  show "\<forall>e'. e' \<le> start \<and> well_paired (drop e' c) \<longrightarrow> e' \<le> ?e"
    using extend_correct [OF assms(4,5), of start] by blast
qed

definition user_says :: "string \<Rightarrow> message" where
  "user_says t = zero_message\<lparr>msg_role := User, msg_parts := [PText t]\<rparr>"

definition calls_tool :: "string \<Rightarrow> message" where
  "calls_tool i = zero_message\<lparr>msg_role := Assistant, msg_parts := [PCall \<lparr>tcl_id = i, tcl_name = ''ls'',
     tcl_input = [], tcl_provider_executed = False, tcl_finished = True\<rparr>]\<rparr>"

definition tool_answers :: "string \<Rightarrow> message" where
  "tool_answers i = zero_message\<lparr>msg_role := Tool, msg_parts := [PResult \<lparr>trs_call_id = i, trs_name = ''ls'',
     trs_content = ''ok'', trs_data = [], trs_mime = [], trs_metadata = [], trs_error = False, trs_review = no_review\<rparr>]\<rparr>"

lemma sample_messages [simp]:
  "call_ids (user_says t) = []" "result_ids (user_says t) = []" "tool_calls (user_says t) = []" "tool_results (user_says t) = []"
  "call_ids (calls_tool i) = [i]" "result_ids (calls_tool i) = []"
  "call_ids (tool_answers i) = []" "result_ids (tool_answers i) = [i]"
  "msg_role (user_says t) = User" "msg_role (calls_tool i) = Assistant" "msg_role (tool_answers i) = Tool"
  "\<not> msg_summary (user_says t)" "\<not> msg_summary (calls_tool i)" "\<not> msg_summary (tool_answers i)"
  by (simp_all add: user_says_def calls_tool_def tool_answers_def call_ids_def result_ids_def tool_calls_def
      tool_results_def List.map_filter_simps zero_message_def)

text \<open>A user redirect that arrives while a tool runs.\<close>

definition redirected :: "message list" where
  "redirected = [user_says ''a'', calls_tool ''1'', user_says ''b'', tool_answers ''1'']"

lemma redirected_ok: "well_paired redirected" "results_named redirected" "summaries_silent redirected"
  by (simp_all add: redirected_def well_paired_iff message_events_def results_named_def summaries_silent_def)

lemma redirected_start: "length redirected = 4" "drop (nat 0) redirected = redirected"
  "most_recent_user redirected = Some 2" "recent_start redirected = extend_past_orphans redirected 2"
  by (simp_all add: redirected_def recent_start_def numeral_2_eq_2)

theorem recent_work_cut_witness:
  "\<exists>e \<le> 2. seg_messages (select_recent_work redirected 0) = filter_summaries (drop e redirected) \<and>
     well_paired (filter_summaries (drop e redirected)) \<and>
     (\<forall>e'. e' \<le> 2 \<and> well_paired (drop e' redirected) \<longrightarrow> e' \<le> e)"
  using recent_work_cut [of 0 redirected redirected 2] redirected_ok by (simp add: redirected_start)

text \<open> A stray result hides the orphans after it. When some result has no call to extend to,
  the extension stops there: the segment keeps the result of call 1 and drops the call,
  although the call is within reach of the lower bound.\<close>

theorem stray_result_hides_orphan:
  "let h = [user_says ''a'', calls_tool ''1'', user_says ''b'', tool_answers ''9'', tool_answers ''1''] in
   seg_messages (select_recent_work h 0) = drop 2 h \<and>
   ''1'' \<in> set (call_ids (h ! 1)) \<and> ''1'' \<in> set (result_ids (last (drop 2 h))) \<and>
   \<not> well_paired (drop 2 h) \<and> first_unmatched {''9''} (history_events (drop 1 h)) = None"
proof -
  let ?h = "[user_says ''a'', calls_tool ''1'', user_says ''b'', tool_answers ''9'', tool_answers ''1'']"
  have "first_orphaned_tool_call (drop 2 ?h) = ''9''"
    by (simp add: first_orphaned_tool_call_def)
  then have "extend_past_orphans ?h 2 = 2"
    by (subst extend_past_orphans.simps) (simp add: Let_def)
  then have "seg_messages (select_recent_work ?h 0) = drop 2 ?h"
    by (simp add: select_recent_work_def recent_start_def filter_summaries_def numeral_2_eq_2 Let_def)
  then show ?thesis by (simp add: Let_def well_paired_iff message_events_def)
qed

section \<open>Fitting a history into a budget\<close>

text \<open> C16. The largest recent segment within the budget is chosen. In a well-paired history the
  segment contains the minimal recent work, is well-paired, is within the budget unless it is
  the minimal one, and contains the segment of every turn that is within the budget.\<close>

theorem fitting_segment_largest:
  assumes "0 \<le> lower" "lower < int (length ms)" "c = drop (nat lower) ms" "well_paired c" "results_named c"
    and "p = estimate_messages j (take (nat lower) ms)"
  shows "\<exists>e \<le> recent_start c. select_fitting j ms lower k = segment_of (filter_summaries (drop e c)) \<and>
     well_paired (drop e c) \<and>
     (e = recent_start c \<or> p + estimate_messages j (filter_summaries (drop e c)) \<le> k) \<and>
     (\<forall>s \<in> set (turn_starts c). p + estimate_messages j (seg_at c s) \<le> k \<longrightarrow> e \<le> extend_past_orphans c s)"
  using fitting_largest [OF assms(1-5), of j k] unfolding assms(6) by blast

definition no_json :: json_reader where
  "no_json = \<lparr>jr_keys = (\<lambda>_. None), jr_review = (\<lambda>_. None)\<rparr>"

theorem fitting_segment_largest_witness:
  "\<exists>e \<le> recent_start redirected. select_fitting no_json redirected 0 90 = segment_of (filter_summaries (drop e redirected)) \<and>
     well_paired (drop e redirected)"
  using fitting_segment_largest [of 0 redirected redirected "estimate_messages no_json (take (nat 0) redirected)" no_json 90]
    redirected_ok by (auto simp: redirected_start)



end
