(* ===== verification/Agent_Content.thy ===== *)
theory Agent_Content
  imports Message_Convert Goal_Runtime
begin

text \<open>
  What a model generates in one step (fantasy/content.go, fantasy/model.go): content blocks, the
  parts of a stream, the response of a step, and its conversion to the messages that are sent
  back (toResponseMessages of fantasy/agent.go). Provider metadata is kept in the record of
  provider options that Message\_Convert uses.
\<close>

section \<open>Content\<close>

text \<open>The validation error of a call; a toolValidationError has a text of its own for the model.\<close>

datatype call_error = CallError string | ToolValidationError string string

fun error_text :: "call_error \<Rightarrow> string" where
  "error_text (CallError t) = t"
| "error_text (ToolValidationError t safe) = t"

fun model_safe_error :: "call_error \<Rightarrow> string" where
  "model_safe_error (CallError t) = t"
| "model_safe_error (ToolValidationError t safe) = safe"

record tool_use =
  tu_id :: string
  tu_name :: string
  tu_input :: string
  tu_provider :: bool
  tu_meta :: provider_options
  tu_invalid :: "call_error option"

record tool_outcome =
  to_id :: string
  to_name :: string
  to_output :: "result_output option"
  to_client_meta :: string
  to_provider :: bool
  to_meta :: provider_options
  to_stop :: bool

record source_ref =
  so_type :: string
  so_id :: string
  so_url :: string
  so_title :: string
  so_meta :: provider_options

datatype content =
    CText string provider_options
  | CReasoning string provider_options
  | CFile string bytes provider_options
  | CSource source_ref
  | CCall tool_use
  | CResult tool_outcome

fun content_call :: "content \<Rightarrow> tool_use option" where
  "content_call (CCall c) = Some c"
| "content_call _ = None"

fun content_result :: "content \<Rightarrow> tool_outcome option" where
  "content_result (CResult r) = Some r"
| "content_result _ = None"

definition used_tools :: "content list \<Rightarrow> tool_use list" where
  "used_tools cs = List.map_filter content_call cs"

definition tool_outcomes :: "content list \<Rightarrow> tool_outcome list" where
  "tool_outcomes cs = List.map_filter content_result cs"

record call_warning =
  wa_type :: string
  wa_setting :: string
  wa_tool :: string
  wa_details :: string
  wa_message :: string

section \<open>Responses and steps\<close>

definition reason_tool_calls :: string where "reason_tool_calls = ''tool-calls''"
definition reason_unknown :: string where "reason_unknown = ''unknown''"

record response =
  re_content :: "content list"
  re_reason :: string
  re_usage :: fantasy_usage
  re_warnings :: "call_warning list"
  re_meta :: provider_options

record step_result =
  st_response :: response
  st_messages :: "fantasy_message list"

definition zero_usage :: fantasy_usage where
  "zero_usage = \<lparr>fu_input = 0, fu_output = 0, fu_total = 0, fu_reasoning = 0, fu_cache_creation = 0, fu_cache_read = 0\<rparr>"

definition zero_response :: response where
  "zero_response = \<lparr>re_content = [], re_reason = [], re_usage = zero_usage, re_warnings = [], re_meta = no_options\<rparr>"

text \<open>addUsage; the counters are int64.\<close>

definition add_usage :: "fantasy_usage \<Rightarrow> fantasy_usage \<Rightarrow> fantasy_usage" where
  "add_usage a b =
     \<lparr>fu_input = i64 (fu_input a + fu_input b),
      fu_output = i64 (fu_output a + fu_output b),
      fu_total = i64 (fu_total a + fu_total b),
      fu_reasoning = i64 (fu_reasoning a + fu_reasoning b),
      fu_cache_creation = i64 (fu_cache_creation a + fu_cache_creation b),
      fu_cache_read = i64 (fu_cache_read a + fu_cache_read b)\<rparr>"

fun nonblank_text :: "content \<Rightarrow> bool" where
  "nonblank_text (CText t m) = (trim_space t \<noteq> [])"
| "nonblank_text _ = False"

definition has_nonblank_text :: "content list \<Rightarrow> bool" where
  "has_nonblank_text cs = (\<exists>c \<in> set cs. nonblank_text c)"

text \<open>The loop of finalResponse, over the steps from the last one.\<close>

fun last_spoken :: "step_result list \<Rightarrow> response option" where
  "last_spoken [] = None"
| "last_spoken (s # ss) =
     (if has_nonblank_text (re_content (st_response s)) then Some (st_response s) else last_spoken ss)"

definition final_response :: "step_result list \<Rightarrow> response" where
  "final_response ss =
     (case last_spoken (rev ss) of
        Some r \<Rightarrow> r
      | None \<Rightarrow> if ss \<noteq> [] then st_response (last ss) else zero_response)"

section \<open>Messages of a response\<close>

definition result_part_of :: "tool_outcome \<Rightarrow> fantasy_part" where
  "result_part_of r = FResult \<lparr>fr_call_id = to_id r, fr_output = to_output r,
     fr_provider_executed = to_provider r, fr_client_metadata = to_client_meta r\<rparr> (to_meta r)"

text \<open>What a block adds to the parts of the assistant message and of the tool message.\<close>

fun content_parts :: "content \<Rightarrow> fantasy_part list \<times> fantasy_part list" where
  "content_parts (CText t m) = ([FText t m], [])"
| "content_parts (CReasoning t m) = ([FReasoning t m], [])"
| "content_parts (CCall c) = ([FCall (tu_id c) (tu_name c) (tu_input c) (tu_provider c) (tu_meta c)], [])"
| "content_parts (CFile t d m) = ([FFile [] d t m], [])"
| "content_parts (CSource s) = ([], [])"
| "content_parts (CResult r) =
     (if to_provider r then ([result_part_of r], []) else ([], [result_part_of r]))"

definition message_of_parts :: "role \<Rightarrow> fantasy_part list \<Rightarrow> fantasy_message list" where
  "message_of_parts r ps =
     (if ps = [] then [] else [\<lparr>fm_role = r, fm_content = ps, fm_options = no_options\<rparr>])"

definition to_response_messages :: "content list \<Rightarrow> fantasy_message list" where
  "to_response_messages cs =
     message_of_parts Assistant (concat (map (fst \<circ> content_parts) cs)) @
     message_of_parts Tool (concat (map (snd \<circ> content_parts) cs))"

section \<open>Stream parts\<close>

datatype 'e stream_part =
    SpWarnings "call_warning list"
  | SpTextStart string
  | SpTextDelta string string
  | SpTextEnd string provider_options
  | SpReasoningStart string string "provider_options option"
  | SpReasoningDelta string string "provider_options option"
  | SpReasoningEnd string "provider_options option"
  | SpInputStart string string bool
  | SpInputDelta string string
  | SpInputEnd string
  | SpCall string string string bool provider_options
  | SpResult string string bool provider_options
  | SpSource source_ref
  | SpFinish fantasy_usage string provider_options
  | SpError 'e

section \<open>Stop conditions\<close>

definition step_count_is :: "int \<Rightarrow> step_result list \<Rightarrow> bool" where
  "step_count_is n steps = (int (length steps) \<ge> n)"

definition last_content :: "step_result list \<Rightarrow> content list" where
  "last_content steps = re_content (st_response (last steps))"

definition has_tool_call :: "string \<Rightarrow> step_result list \<Rightarrow> bool" where
  "has_tool_call name steps =
     (steps \<noteq> [] \<and> (\<exists>c \<in> set (used_tools (last_content steps)). tu_name c = name))"

definition finish_reason_is :: "string \<Rightarrow> step_result list \<Rightarrow> bool" where
  "finish_reason_is reason steps = (steps \<noteq> [] \<and> re_reason (st_response (last steps)) = reason)"

definition max_tokens_used :: "int \<Rightarrow> step_result list \<Rightarrow> bool" where
  "max_tokens_used n steps =
     (foldl (\<lambda>sum s. i64 (sum + fu_total (re_usage (st_response s)))) 0 steps \<ge> n)"

definition is_stop_condition_met :: "(step_result list \<Rightarrow> bool) list \<Rightarrow> step_result list \<Rightarrow> bool" where
  "is_stop_condition_met conds steps = (\<exists>c \<in> set conds. c steps)"

definition has_stop_turn :: "tool_outcome list \<Rightarrow> bool" where
  "has_stop_turn rs = (\<exists>r \<in> set rs. to_stop r)"

section \<open>Calls and results of the messages\<close>

fun part_call_id :: "fantasy_part \<Rightarrow> string option" where
  "part_call_id (FCall i n a p m) = (if p then None else Some i)"
| "part_call_id _ = None"

fun part_result_id :: "fantasy_part \<Rightarrow> string option" where
  "part_result_id (FResult r m) = (if fr_provider_executed r then None else Some (fr_call_id r))"
| "part_result_id _ = None"

text \<open>Ids of the client's calls and results in a message, as multisets of occurrences.\<close>

definition message_calls :: "fantasy_message \<Rightarrow> string list" where
  "message_calls m = List.map_filter part_call_id (fm_content m)"

definition message_results :: "fantasy_message \<Rightarrow> string list" where
  "message_results m = List.map_filter part_result_id (fm_content m)"

lemma map_filter_app: "List.map_filter f (xs @ ys) = List.map_filter f xs @ List.map_filter f ys"
  by (simp add: List.map_filter_def)

lemma map_filter_concat:
  "List.map_filter f (concat xss) = concat (map (List.map_filter f) xss)"
  by (induction xss) (simp_all add: List.map_filter_def)

lemma used_tools_simps [simp]:
  "used_tools [] = []" "used_tools (c # cs) = (case content_call c of Some x \<Rightarrow> [x] | None \<Rightarrow> []) @ used_tools cs"
  "used_tools (cs @ ds) = used_tools cs @ used_tools ds"
  by (simp_all add: used_tools_def List.map_filter_simps map_filter_app split: option.split)

lemma tool_outcomes_simps [simp]:
  "tool_outcomes [] = []" "tool_outcomes (c # cs) = (case content_result c of Some x \<Rightarrow> [x] | None \<Rightarrow> []) @ tool_outcomes cs"
  "tool_outcomes (cs @ ds) = tool_outcomes cs @ tool_outcomes ds"
  by (simp_all add: tool_outcomes_def List.map_filter_simps map_filter_app split: option.split)

end
