(* ===== verification/Agent_Tools.thy ===== *)
theory Agent_Tools
  imports Agent_Content "HOL-Library.Char_ord" "HOL-Library.List_Lexorder" "HOL-Library.Multiset"
begin

text \<open>
  The tools of one step of the agent (fantasy/agent.go): which are offered to the model, how its
  calls are validated and repaired, what running one gives, and how the calls of a step are
  dispatched: tools that allow it run in parallel, at most five at a time, the others one after
  the other in the coordinator. The code that handles JSON (parsing and repairing arguments,
  checking them against a schema) and the tools themselves are parameters.
\<close>

section \<open>Tools of a step\<close>

record agent_tool =
  at_name :: string
  at_parallel :: bool

record tool_response =
  rs_type :: string
  rs_content :: string
  rs_data :: bytes
  rs_media :: string
  rs_metadata :: string
  rs_error :: bool
  rs_stop :: bool

text \<open>
  Fields: the tools and the executable provider tools of the step, parseToolCallInput (arguments
  and repaired text), validateAndNormalizeToolArguments, mapsEqual, json.Marshal, the caller's
  repair function (None also when it fails), repairToolArguments, the text of an error and the
  base64 encoding.
\<close>

record ('e, 'j) tool_env =
  te_tools :: "agent_tool list"
  te_exec :: "string list"
  te_parse :: "string \<Rightarrow> call_error + 'j \<times> string"
  te_normalize :: "agent_tool \<Rightarrow> 'j \<Rightarrow> call_error + 'j"
  te_equal :: "'j \<Rightarrow> 'j \<Rightarrow> bool"
  te_marshal :: "'j \<Rightarrow> call_error + string"
  te_repair :: "tool_use \<Rightarrow> call_error \<Rightarrow> tool_use option"
  te_builtin_repair :: "tool_use \<Rightarrow> call_error \<Rightarrow> tool_use option"
  te_error :: "'e \<Rightarrow> string"
  te_base64 :: "bytes \<Rightarrow> string"

definition filter_exec_tools :: "string list \<Rightarrow> string list \<Rightarrow> string list" where
  "filter_exec_tools active exec = (if active = [] then exec else filter (\<lambda>t. t \<in> set active) exec)"

text \<open>prepareTools; of a prepared tool the name is kept.\<close>

definition prepare_tools :: "agent_tool list \<Rightarrow> string list \<Rightarrow> string list \<Rightarrow> bool \<Rightarrow> string list" where
  "prepare_tools tools provider_defined active disable_all =
     (if disable_all then []
      else filter (\<lambda>t. active = [] \<or> t \<in> set active) (map at_name tools) @
        filter (\<lambda>t. active = [] \<or> t \<in> set active) provider_defined)"

section \<open>Validation\<close>

definition max_listed :: nat where "max_listed = 20"

definition tool_not_found_message :: "string \<Rightarrow> string list \<Rightarrow> string" where
  "tool_not_found_message name names =
     (if names = [] then ''tool not found: '' @ name
      else let sorted_names = remdups_adj (sort names);
        available = str_join '', '' (take max_listed sorted_names) @
          (if length sorted_names > max_listed then '', ...'' else [])
      in ''tool not found: '' @ name @ '' (available tools: '' @ available @ '')'')"

definition validate_tool_call :: "('e, 'j) tool_env \<Rightarrow> tool_use \<Rightarrow> call_error + tool_use" where
  "validate_tool_call env c =
     (case List.find (\<lambda>t. at_name t = tu_name c) (te_tools env) of
        None \<Rightarrow>
          if tu_name c \<in> set (te_exec env)
          then (case te_parse env (tu_input c) of
                  Inl e \<Rightarrow> Inl e
                | Inr (args, repaired) \<Rightarrow> Inr (c\<lparr>tu_input := repaired\<rparr>))
          else Inl (CallError (tool_not_found_message (tu_name c) (map at_name (te_tools env) @ te_exec env)))
      | Some tool \<Rightarrow>
          (case te_parse env (tu_input c) of
             Inl e \<Rightarrow> Inl e
           | Inr (args, repaired) \<Rightarrow>
               (case te_normalize env tool args of
                  Inl e \<Rightarrow> Inl e
                | Inr normalized \<Rightarrow>
                    if te_equal env args normalized then Inr (c\<lparr>tu_input := repaired\<rparr>)
                    else (case te_marshal env normalized of
                            Inl e \<Rightarrow> Inl e
                          | Inr text \<Rightarrow> Inr (c\<lparr>tu_input := text\<rparr>)))))"

text \<open>One attempt to repair: the repaired call counts only if it validates.\<close>

definition try_repair :: "('e, 'j) tool_env \<Rightarrow> tool_use option \<Rightarrow> tool_use option" where
  "try_repair env repaired =
     (case repaired of
        None \<Rightarrow> None
      | Some c \<Rightarrow> (case validate_tool_call env c of Inl e \<Rightarrow> None | Inr v \<Rightarrow> Some v))"

definition validate_and_repair :: "('e, 'j) tool_env \<Rightarrow> tool_use \<Rightarrow> tool_use" where
  "validate_and_repair env c =
     (case validate_tool_call env c of
        Inr v \<Rightarrow> v
      | Inl e \<Rightarrow>
          (case try_repair env (te_repair env c e) of
             Some v \<Rightarrow> v
           | None \<Rightarrow>
               (case try_repair env (te_builtin_repair env c e) of
                  Some v \<Rightarrow> v
                | None \<Rightarrow> c\<lparr>tu_invalid := Some e\<rparr>)))"

section \<open>Running a tool\<close>

text \<open>What happens when a tool runs: it returns a response and an error or none, or it panics.\<close>

datatype 'e run_outcome = Returned tool_response "'e option" | Panicked string string

definition text_error_response :: "string \<Rightarrow> tool_response" where
  "text_error_response text = \<lparr>rs_type = ''text'', rs_content = text, rs_data = [], rs_media = [],
     rs_metadata = [], rs_error = True, rs_stop = False\<rparr>"

fun run_tool_safely :: "string \<Rightarrow> 'e run_outcome \<Rightarrow> tool_response \<times> 'e option" where
  "run_tool_safely name (Returned resp err) = (resp, err)"
| "run_tool_safely name (Panicked value stack) =
     (text_error_response (''tool '' @ go_quote name @ '' panicked: '' @ value @ [CHR 0x0A, CHR 0x0A] @ stack), None)"

definition runnable :: "('e, 'j) tool_env \<Rightarrow> string \<Rightarrow> bool" where
  "runnable env name = (name \<in> at_name ` set (te_tools env) \<or> name \<in> set (te_exec env))"

definition bare_outcome :: "tool_use \<Rightarrow> result_output \<Rightarrow> tool_outcome" where
  "bare_outcome c out = \<lparr>to_id = tu_id c, to_name = tu_name c, to_output = Some out, to_client_meta = [],
     to_provider = False, to_meta = no_options, to_stop = False\<rparr>"

definition response_output :: "('e, 'j) tool_env \<Rightarrow> tool_response \<Rightarrow> result_output" where
  "response_output env resp =
     (if rs_error resp then OutError (Some (rs_content resp))
      else if rs_type resp = ''image'' \<or> rs_type resp = ''media''
      then OutMedia (te_base64 env (rs_data resp)) (rs_media resp) (rs_content resp)
      else OutText (rs_content resp))"

text \<open>executeSingleTool: the result and the critical error. The outcome is used only if the tool runs.\<close>

definition execute_single :: "('e, 'j) tool_env \<Rightarrow> tool_use \<Rightarrow> 'e run_outcome \<Rightarrow> tool_outcome \<times> 'e option" where
  "execute_single env c outcome =
     (case tu_invalid c of
        Some err \<Rightarrow> (bare_outcome c (OutError (Some (model_safe_error err))), None)
      | None \<Rightarrow>
          if \<not> runnable env (tu_name c)
          then (bare_outcome c (OutError (Some (''tool not found: '' @ tu_name c))), None)
          else case run_tool_safely (tu_name c) outcome of
            (resp, Some e) \<Rightarrow>
              ((bare_outcome c (OutError (Some (te_error env e))))
                 \<lparr>to_client_meta := rs_metadata resp, to_stop := rs_stop resp\<rparr>, Some e)
          | (resp, None) \<Rightarrow>
              ((bare_outcome c (response_output env resp))
                 \<lparr>to_client_meta := rs_metadata resp, to_stop := rs_stop resp\<rparr>, None))"

text \<open>executeTools, the sequential form Generate uses: a critical error discards the results.\<close>

fun execute_tools :: "('e, 'j) tool_env \<Rightarrow> (tool_use \<Rightarrow> 'e run_outcome) \<Rightarrow> tool_use list \<Rightarrow> 'e + tool_outcome list" where
  "execute_tools env run [] = Inr []"
| "execute_tools env run (c # cs) =
     (case execute_single env c (run c) of
        (r, Some e) \<Rightarrow> Inl e
      | (r, None) \<Rightarrow> (case execute_tools env run cs of Inl e \<Rightarrow> Inl e | Inr rs \<Rightarrow> Inr (r # rs)))"

lemma execute_single_id [simp]:
  "to_id (fst (execute_single env c out)) = tu_id c"
  "to_provider (fst (execute_single env c out)) = False"
  by (simp_all add: execute_single_def bare_outcome_def split: option.split prod.split)

text \<open>A call that does not run has the same result whatever the tool would do.\<close>

lemma execute_single_not_run:
  assumes "tu_invalid c \<noteq> None \<or> \<not> runnable env (tu_name c)"
  shows "execute_single env c out = execute_single env c out'" "snd (execute_single env c out) = None"
  using assms by (auto simp: execute_single_def split: option.split)

section \<open>Dispatch\<close>

text \<open>
  The state of the dispatch: the channel of requests, the parallel jobs, the job the coordinator
  runs itself, the results and the first critical error, and the state the callback OnToolResult
  changes. A job first executes its tool and calls the callback, whose error is ignored, then
  records the result; other jobs can come in between.
\<close>

datatype 'e job = Executing tool_use | Reported tool_use tool_outcome "'e option"

record ('e, 'w) dispatch =
  dp_queue :: "(tool_use \<times> bool) list"
  dp_running :: "'e job list"
  dp_serial :: "'e job option"
  dp_results :: "tool_outcome list"
  dp_error :: "'e option"
  dp_world :: 'w

definition parallel_limit :: nat where "parallel_limit = 5"

definition execute_job :: "('e, 'j) tool_env \<Rightarrow> tool_use \<Rightarrow> 'e run_outcome \<Rightarrow> 'e job" where
  "execute_job env c outcome = (case execute_single env c outcome of (r, err) \<Rightarrow> Reported c r err)"

definition report :: "(tool_outcome \<Rightarrow> 'w \<Rightarrow> 'w) \<Rightarrow> ('e, 'j) tool_env \<Rightarrow> tool_use \<Rightarrow> 'e run_outcome \<Rightarrow>
    ('e, 'w) dispatch \<Rightarrow> ('e, 'w) dispatch" where
  "report cb env c outcome d = d\<lparr>dp_world := cb (fst (execute_single env c outcome)) (dp_world d)\<rparr>"

definition record_result :: "tool_outcome \<Rightarrow> 'e option \<Rightarrow> ('e, 'w) dispatch \<Rightarrow> ('e, 'w) dispatch" where
  "record_result r err d = d\<lparr>dp_results := dp_results d @ [r],
     dp_error := (case dp_error d of Some e \<Rightarrow> Some e | None \<Rightarrow> err)\<rparr>"

inductive dispatch_step ::
  "(tool_outcome \<Rightarrow> 'w \<Rightarrow> 'w) \<Rightarrow> ('e, 'j) tool_env \<Rightarrow> ('e, 'w) dispatch \<Rightarrow> ('e, 'w) dispatch \<Rightarrow> bool"
  for cb :: "tool_outcome \<Rightarrow> 'w \<Rightarrow> 'w" and env :: "('e, 'j) tool_env" where
  start_parallel:
    "dp_queue d = (c, True) # q \<Longrightarrow> dp_serial d = None \<Longrightarrow> length (dp_running d) < parallel_limit \<Longrightarrow>
     dispatch_step cb env d (d\<lparr>dp_queue := q, dp_running := dp_running d @ [Executing c]\<rparr>)"
| start_serial:
    "dp_queue d = (c, False) # q \<Longrightarrow> dp_serial d = None \<Longrightarrow>
     dispatch_step cb env d (d\<lparr>dp_queue := q, dp_serial := Some (Executing c)\<rparr>)"
| report_parallel:
    "dp_running d = xs @ Executing c # ys \<Longrightarrow>
     dispatch_step cb env d (report cb env c outcome d\<lparr>dp_running := xs @ execute_job env c outcome # ys\<rparr>)"
| record_parallel:
    "dp_running d = xs @ Reported c r err # ys \<Longrightarrow>
     dispatch_step cb env d (record_result r err d\<lparr>dp_running := xs @ ys\<rparr>)"
| report_serial:
    "dp_serial d = Some (Executing c) \<Longrightarrow>
     dispatch_step cb env d (report cb env c outcome d\<lparr>dp_serial := Some (execute_job env c outcome)\<rparr>)"
| record_serial:
    "dp_serial d = Some (Reported c r err) \<Longrightarrow>
     dispatch_step cb env d (record_result r err d\<lparr>dp_serial := None\<rparr>)"

definition start_dispatch :: "(tool_use \<times> bool) list \<Rightarrow> 'w \<Rightarrow> ('e, 'w) dispatch" where
  "start_dispatch reqs w = \<lparr>dp_queue = reqs, dp_running = [], dp_serial = None, dp_results = [],
     dp_error = None, dp_world = w\<rparr>"

definition dispatched :: "('e, 'w) dispatch \<Rightarrow> bool" where
  "dispatched d = (dp_queue d = [] \<and> dp_running d = [] \<and> dp_serial d = None)"

end
