(* ===== verification/Agent_Dispatch.thy ===== *)
theory Agent_Dispatch
  imports Agent_Tools
begin

text \<open>
  Every interleaving of the dispatch runs each call exactly once, keeps the order of the calls
  that must not run in parallel, and ends.
\<close>

section \<open>What has happened\<close>

fun job_call :: "'e job \<Rightarrow> tool_use" where
  "job_call (Executing c) = c"
| "job_call (Reported c r err) = c"

fun first_some :: "'a option list \<Rightarrow> 'a option" where
  "first_some [] = None"
| "first_some (None # xs) = first_some xs"
| "first_some (Some x # xs) = Some x"

lemma first_some_append: "first_some (xs @ ys) = (case first_some xs of Some x \<Rightarrow> Some x | None \<Rightarrow> first_some ys)"
  by (induction xs rule: first_some.induct) simp_all

lemma first_some_single [simp]: "first_some [x] = x"
  by (cases x) simp_all

lemma first_some_None: "first_some xs = None \<longleftrightarrow> (\<forall>x \<in> set xs. x = None)"
  by (induction xs rule: first_some.induct) simp_all

text \<open>A recorded run: the request and what the tool did.\<close>

type_synonym 'e tool_run = "(tool_use \<times> bool) \<times> 'e run_outcome"

definition run_result :: "('e, 'j) tool_env \<Rightarrow> 'e tool_run \<Rightarrow> tool_outcome \<times> 'e option" where
  "run_result env t = execute_single env (fst (fst t)) (snd t)"

definition serial_only :: "(tool_use \<times> bool) list \<Rightarrow> (tool_use \<times> bool) list" where
  "serial_only reqs = filter (\<lambda>r. \<not> snd r) reqs"

definition waiting :: "('e, 'w) dispatch \<Rightarrow> (tool_use \<times> bool) list" where
  "waiting d = map (\<lambda>j. (job_call j, True)) (dp_running d)"

definition serial_waiting :: "('e, 'w) dispatch \<Rightarrow> (tool_use \<times> bool) list" where
  "serial_waiting d = (case dp_serial d of None \<Rightarrow> [] | Some j \<Rightarrow> [(job_call j, False)])"

definition job_ok :: "('e, 'j) tool_env \<Rightarrow> 'e job \<Rightarrow> bool" where
  "job_ok env j = (\<forall>c r err. j = Reported c r err \<longrightarrow> (\<exists>out. execute_single env c out = (r, err)))"

text \<open>The runs recorded so far, the jobs under way and the queue make up the requests.\<close>

definition accounts :: "('e, 'j) tool_env \<Rightarrow> (tool_use \<times> bool) list \<Rightarrow> 'e tool_run list \<Rightarrow> ('e, 'w) dispatch \<Rightarrow> bool" where
  "accounts env reqs runs d \<longleftrightarrow>
     dp_results d = map (fst \<circ> run_result env) runs \<and>
     dp_error d = first_some (map (snd \<circ> run_result env) runs) \<and>
     mset reqs = mset (map fst runs) + mset (waiting d) + mset (serial_waiting d) + mset (dp_queue d) \<and>
     serial_only reqs = serial_only (map fst runs) @ serial_waiting d @ serial_only (dp_queue d) \<and>
     length (dp_running d) \<le> parallel_limit \<and>
     (\<forall>j \<in> set (dp_running d) \<union> set_option (dp_serial d). job_ok env j)"

lemma serial_only_simps [simp]:
  "serial_only [] = []" "serial_only ((c, p) # rs) = (if p then serial_only rs else (c, p) # serial_only rs)"
  "serial_only (rs @ ss) = serial_only rs @ serial_only ss"
  by (simp_all add: serial_only_def)

lemma job_ok_simps [simp]:
  "job_ok env (Executing c)" "job_ok env (execute_job env c out)"
  "job_ok env (Reported c r err) \<longleftrightarrow> (\<exists>out. execute_single env c out = (r, err))"
  by (auto simp: job_ok_def execute_job_def split: prod.splits)

lemma job_call_execute [simp]: "job_call (execute_job env c out) = c"
  by (simp add: execute_job_def split: prod.split)

lemma report_simps [simp]:
  "dp_queue (report cb env c out d) = dp_queue d" "dp_running (report cb env c out d) = dp_running d"
  "dp_serial (report cb env c out d) = dp_serial d" "dp_results (report cb env c out d) = dp_results d"
  "dp_error (report cb env c out d) = dp_error d"
  by (simp_all add: report_def)

lemma record_simps [simp]:
  "dp_queue (record_result r err d) = dp_queue d" "dp_running (record_result r err d) = dp_running d"
  "dp_serial (record_result r err d) = dp_serial d" "dp_results (record_result r err d) = dp_results d @ [r]"
  "dp_error (record_result r err d) = (case dp_error d of Some e \<Rightarrow> Some e | None \<Rightarrow> err)"
  by (simp_all add: record_result_def)

lemma accounts_start: "accounts env reqs [] (start_dispatch reqs w)"
  by (simp add: accounts_def start_dispatch_def waiting_def serial_waiting_def)

lemma accounts_step:
  assumes "dispatch_step cb env d d'" "accounts env reqs runs d"
  shows "\<exists>runs'. accounts env reqs runs' d'"
  using assms
proof (cases rule: dispatch_step.cases)
  case (start_parallel c q)
  then have "accounts env reqs runs d'"
    using assms(2) by (simp add: accounts_def waiting_def serial_waiting_def)
  then show ?thesis ..
next
  case (start_serial c q)
  then have "accounts env reqs runs d'"
    using assms(2) by (simp add: accounts_def waiting_def serial_waiting_def)
  then show ?thesis ..
next
  case (report_parallel xs c ys out)
  then have "accounts env reqs runs d'"
    using assms(2) by (auto simp: accounts_def waiting_def serial_waiting_def)
  then show ?thesis ..
next
  case (record_parallel xs c r err ys)
  then obtain out where "execute_single env c out = (r, err)"
    using assms(2) by (auto simp: accounts_def)
  then have "accounts env reqs (runs @ [((c, True), out)]) d'"
    using assms(2) record_parallel
    by (auto simp: accounts_def waiting_def serial_waiting_def run_result_def first_some_append split: option.split)
  then show ?thesis ..
next
  case (report_serial c out)
  then have "accounts env reqs runs d'"
    using assms(2) by (auto simp: accounts_def waiting_def serial_waiting_def)
  then show ?thesis ..
next
  case (record_serial c r err)
  then obtain out where out: "execute_single env c out = (r, err)"
    using assms(2) by (auto simp: accounts_def)
  have "accounts env reqs (runs @ [((c, False), out)]) (record_result r err d\<lparr>dp_serial := None\<rparr>)"
    using assms(2) unfolding accounts_def serial_waiting_def waiting_def record_serial(2)
    by (cases "dp_error d") (simp_all add: out run_result_def first_some_append split: option.split)
  then show ?thesis unfolding record_serial(1) ..
qed

lemma accounts_reachable:
  assumes "(dispatch_step cb env)\<^sup>*\<^sup>* (start_dispatch reqs w) d"
  shows "\<exists>runs. accounts env reqs runs d"
  using assms
proof (induction rule: rtranclp_induct)
  case base
  show ?case using accounts_start by (rule exI)
next
  case (step d d')
  then show ?case by (elim exE) (rule accounts_step)
qed

section \<open>Progress\<close>

fun job_weight :: "'e job \<Rightarrow> nat" where
  "job_weight (Executing c) = 2"
| "job_weight (Reported c r err) = 1"

definition dispatch_weight :: "('e, 'w) dispatch \<Rightarrow> nat" where
  "dispatch_weight d = 3 * length (dp_queue d) + sum_list (map job_weight (dp_running d)) +
     (case dp_serial d of None \<Rightarrow> 0 | Some j \<Rightarrow> job_weight j)"

lemma job_weight_execute [simp]: "job_weight (execute_job env c out) = 1"
  by (simp add: execute_job_def split: prod.split)

lemma dispatch_step_weight:
  assumes "dispatch_step cb env d d'"
  shows "dispatch_weight d = Suc (dispatch_weight d')"
  using assms by (cases rule: dispatch_step.cases) (simp_all add: dispatch_weight_def)

lemma dispatch_steps_bounded:
  assumes "(dispatch_step cb env ^^ n) d d'"
  shows "dispatch_weight d = n + dispatch_weight d'"
  using assms
proof (induction n arbitrary: d')
  case (Suc n)
  then obtain e where "(dispatch_step cb env ^^ n) d e" "dispatch_step cb env e d'" by auto
  then show ?case using Suc.IH [of e] dispatch_step_weight [of cb env e d'] by simp
qed simp

lemma dispatch_progress:
  assumes "\<not> dispatched d"
  shows "\<exists>d'. dispatch_step cb env d d'"
proof (cases "dp_serial d")
  case (Some j)
  then show ?thesis by (cases j) (auto intro: dispatch_step.report_serial dispatch_step.record_serial)
next
  case None
  note free = None
  show ?thesis
  proof (cases "dp_running d")
    case Nil
    then obtain c p q where "dp_queue d = (c, p) # q"
      using assms None by (cases "dp_queue d") (auto simp: dispatched_def)
    then show ?thesis
      using free Nil dispatch_step.start_parallel [of d c q cb env] dispatch_step.start_serial [of d c q cb env]
      by (cases p) (auto simp: parallel_limit_def)
  next
    case (Cons j js)
    then show ?thesis
      using dispatch_step.report_parallel [of d "[]" _ js cb env] dispatch_step.record_parallel [of d "[]" _ _ _ js cb env]
      by (cases j) auto
  qed
qed

lemma dispatch_drains: "\<exists>d'. (dispatch_step cb env)\<^sup>*\<^sup>* d d' \<and> dispatched d'"
proof (induction "dispatch_weight d" arbitrary: d rule: less_induct)
  case less
  show ?case
  proof (cases "dispatched d")
    case False
    then obtain e where e: "dispatch_step cb env d e" using dispatch_progress by blast
    then obtain d' where "(dispatch_step cb env)\<^sup>*\<^sup>* e d'" "dispatched d'"
      using less [of e] dispatch_step_weight [OF e] by auto
    then show ?thesis using e by (meson converse_rtranclp_into_rtranclp)
  qed blast
qed

text \<open>The result of a dispatch that has ended.\<close>

lemma dispatch_complete:
  assumes "(dispatch_step cb env)\<^sup>*\<^sup>* (start_dispatch reqs w) d" "dispatched d"
  shows "\<exists>runs. dp_results d = map (fst \<circ> run_result env) runs \<and>
     dp_error d = first_some (map (snd \<circ> run_result env) runs) \<and>
     mset (map fst runs) = mset reqs \<and> serial_only (map fst runs) = serial_only reqs"
proof -
  obtain runs where "accounts env reqs runs d" using accounts_reachable [OF assms(1)] by blast
  then show ?thesis
    using assms(2) by (intro exI [of _ runs]) (simp add: accounts_def dispatched_def waiting_def serial_waiting_def)
qed

lemma run_result_id [simp]: "to_id (fst (run_result env t)) = tu_id (fst (fst t))"
  "to_provider (fst (run_result env t)) = False"
  by (simp_all add: run_result_def)

lemma dispatch_ids:
  assumes "(dispatch_step cb env)\<^sup>*\<^sup>* (start_dispatch reqs w) d" "dispatched d"
  shows "mset (map to_id (dp_results d)) = mset (map (tu_id \<circ> fst) reqs)"
    and "\<forall>r \<in> set (dp_results d). \<not> to_provider r"
proof -
  obtain runs where runs: "dp_results d = map (fst \<circ> run_result env) runs" "mset (map fst runs) = mset reqs"
    using dispatch_complete [OF assms] by blast
  have "map to_id (dp_results d) = map (tu_id \<circ> fst) (map fst runs)" using runs(1) by simp
  then show "mset (map to_id (dp_results d)) = mset (map (tu_id \<circ> fst) reqs)"
    using runs(2) by (simp only: mset_map)
  show "\<forall>r \<in> set (dp_results d). \<not> to_provider r" using runs(1) by auto
qed

end
