(* ===== verification/Agent_Stream.thy ===== *)
theory Agent_Stream
  imports Agent_Dispatch
begin

text \<open>
  One step of the agent, processStepStream of fantasy/agent.go: the parts of the stream are
  collected into content blocks and validated calls, then the calls are dispatched and their
  results end the content of the step. The callbacks are one function on the state they keep;
  it is given what happened and returns an error or none.
\<close>

section \<open>Callbacks\<close>

datatype 'e notice =
    NChunk "'e stream_part"
  | NWarnings "call_warning list"
  | NTextStart string
  | NTextDelta string string
  | NTextEnd string
  | NReasoningStart string string "provider_options option"
  | NReasoningDelta string string
  | NReasoningEnd string string "provider_options option"
  | NInputStart string string
  | NInputDelta string string
  | NInputEnd string
  | NCall tool_use
  | NResult tool_outcome
  | NSource source_ref
  | NStreamFinish fantasy_usage string provider_options

type_synonym ('e, 'w) callbacks = "'e notice \<Rightarrow> 'w \<Rightarrow> 'w \<times> 'e option"

text \<open>The callback for a part; its error ends the step.\<close>

definition notified :: "('e, 'w) callbacks \<Rightarrow> 'e notice \<Rightarrow> 's \<Rightarrow> 'w \<Rightarrow> 'w \<times> ('e + 's)" where
  "notified notify n s w = (case notify n w of (w', None) \<Rightarrow> (w', Inr s) | (w', Some e) \<Rightarrow> (w', Inl e))"

section \<open>Collecting the stream\<close>

record stream_state =
  ss_content :: "content list"
  ss_calls :: "tool_use list"
  ss_usage :: fantasy_usage
  ss_reason :: string
  ss_warnings :: "call_warning list"
  ss_meta :: provider_options
  ss_texts :: "string \<Rightarrow> string option"
  ss_reasonings :: "string \<Rightarrow> (string \<times> provider_options option) option"
  ss_inputs :: "string \<Rightarrow> (string \<times> string \<times> bool) option"
  ss_pending :: "(tool_use \<times> bool) list"

definition empty_stream :: stream_state where
  "empty_stream = \<lparr>ss_content = [], ss_calls = [], ss_usage = zero_usage, ss_reason = reason_unknown,
     ss_warnings = [], ss_meta = no_options, ss_texts = (\<lambda>_. None), ss_reasonings = (\<lambda>_. None),
     ss_inputs = (\<lambda>_. None), ss_pending = []\<rparr>"

definition add_content :: "content \<Rightarrow> stream_state \<Rightarrow> stream_state" where
  "add_content c s = s\<lparr>ss_content := ss_content s @ [c]\<rparr>"

definition newer_options :: "provider_options option \<Rightarrow> provider_options option \<Rightarrow> provider_options option" where
  "newer_options new old = (case new of None \<Rightarrow> old | Some m \<Rightarrow> Some m)"

definition options_of :: "provider_options option \<Rightarrow> provider_options" where
  "options_of m = (case m of None \<Rightarrow> no_options | Some m \<Rightarrow> m)"

text \<open>The tool map holds the last tool of a name.\<close>

definition is_parallel :: "('e, 'j) tool_env \<Rightarrow> string \<Rightarrow> bool" where
  "is_parallel env name =
     (case List.find (\<lambda>t. at_name t = name) (rev (te_tools env)) of None \<Rightarrow> False | Some t \<Rightarrow> at_parallel t)"

definition add_call :: "('e, 'j) tool_env \<Rightarrow> tool_use \<Rightarrow> stream_state \<Rightarrow> stream_state" where
  "add_call env c s = s\<lparr>ss_calls := ss_calls s @ [c], ss_content := ss_content s @ [CCall c],
     ss_pending := ss_pending s @ [(c, is_parallel env (tu_name c))]\<rparr>"

definition use_tool :: "string \<Rightarrow> string \<Rightarrow> string \<Rightarrow> bool \<Rightarrow> provider_options \<Rightarrow> tool_use" where
  "use_tool i name input provider meta = \<lparr>tu_id = i, tu_name = name, tu_input = input, tu_provider = provider,
     tu_meta = meta, tu_invalid = None\<rparr>"

definition drop_input :: "string \<Rightarrow> stream_state \<Rightarrow> stream_state" where
  "drop_input i s = s\<lparr>ss_inputs := (ss_inputs s)(i := None)\<rparr>"

fun process_part :: "('e, 'w) callbacks \<Rightarrow> ('e, 'j) tool_env \<Rightarrow> 'e stream_part \<Rightarrow> stream_state \<Rightarrow> 'w \<Rightarrow>
    'w \<times> ('e + stream_state)" where
  "process_part nf env (SpWarnings ws) s w = notified nf (NWarnings ws) (s\<lparr>ss_warnings := ws\<rparr>) w"
| "process_part nf env (SpTextStart i) s w =
     notified nf (NTextStart i) (s\<lparr>ss_texts := (ss_texts s)(i := Some [])\<rparr>) w"
| "process_part nf env (SpTextDelta i d) s w =
     notified nf (NTextDelta i d)
       (case ss_texts s i of None \<Rightarrow> s | Some t \<Rightarrow> s\<lparr>ss_texts := (ss_texts s)(i := Some (t @ d))\<rparr>) w"
| "process_part nf env (SpTextEnd i m) s w =
     notified nf (NTextEnd i)
       (case ss_texts s i of
          None \<Rightarrow> s
        | Some t \<Rightarrow> (add_content (CText t m) s)\<lparr>ss_texts := (ss_texts s)(i := None)\<rparr>) w"
| "process_part nf env (SpReasoningStart i d m) s w =
     notified nf (NReasoningStart i d m) (s\<lparr>ss_reasonings := (ss_reasonings s)(i := Some (d, m))\<rparr>) w"
| "process_part nf env (SpReasoningDelta i d m) s w =
     notified nf (NReasoningDelta i d)
       (case ss_reasonings s i of
          None \<Rightarrow> s
        | Some (t, m0) \<Rightarrow> s\<lparr>ss_reasonings := (ss_reasonings s)(i := Some (t @ d, newer_options m m0))\<rparr>) w"
| "process_part nf env (SpReasoningEnd i m) s w =
     (case ss_reasonings s i of
        None \<Rightarrow> (w, Inr s)
      | Some (t, m0) \<Rightarrow>
          notified nf (NReasoningEnd i t (newer_options m m0))
            ((add_content (CReasoning t (options_of (newer_options m m0))) s)
               \<lparr>ss_reasonings := (ss_reasonings s)(i := None)\<rparr>) w)"
| "process_part nf env (SpInputStart i name p) s w =
     notified nf (NInputStart i name) (s\<lparr>ss_inputs := (ss_inputs s)(i := Some (name, [], p))\<rparr>) w"
| "process_part nf env (SpInputDelta i d) s w =
     notified nf (NInputDelta i d)
       (case ss_inputs s i of
          None \<Rightarrow> s
        | Some (name, input, p) \<Rightarrow> s\<lparr>ss_inputs := (ss_inputs s)(i := Some (name, input @ d, p))\<rparr>) w"
| "process_part nf env (SpInputEnd i) s w = notified nf (NInputEnd i) s w"
| "process_part nf env (SpCall i name input p m) s w =
     (let c = use_tool i name input p m in
      if p then notified nf (NCall c) (drop_input i (add_content (CCall c) s)) w
      else let v = validate_and_repair env c in notified nf (NCall v) (drop_input i (add_call env v s)) w)"
| "process_part nf env (SpResult i name p m) s w =
     (if p
      then let r = \<lparr>to_id = i, to_name = name, to_output = None, to_client_meta = [], to_provider = True,
                    to_meta = m, to_stop = False\<rparr>
        in notified nf (NResult r) (add_content (CResult r) s) w
      else (w, Inr s))"
| "process_part nf env (SpSource src) s w = notified nf (NSource src) (add_content (CSource src) s) w"
| "process_part nf env (SpFinish u r m) s w =
     notified nf (NStreamFinish u r m) (s\<lparr>ss_usage := u, ss_reason := r, ss_meta := m\<rparr>) w"
| "process_part nf env (SpError e) s w = (w, Inl e)"

fun consume :: "('e, 'w) callbacks \<Rightarrow> ('e, 'j) tool_env \<Rightarrow> 'e stream_part list \<Rightarrow> stream_state \<Rightarrow> 'w \<Rightarrow>
    'w \<times> ('e + stream_state)" where
  "consume nf env [] s w = (w, Inr s)"
| "consume nf env (p # ps) s w =
     (case nf (NChunk p) w of
        (w1, Some e) \<Rightarrow> (w1, Inl e)
      | (w1, None) \<Rightarrow>
          (case process_part nf env p s w1 of
             (w2, Inl e) \<Rightarrow> (w2, Inl e)
           | (w2, Inr s2) \<Rightarrow> consume nf env ps s2 w2))"

section \<open>The step\<close>

record step_execution =
  se_step :: step_result
  se_continue :: bool

definition step_of :: "stream_state \<Rightarrow> tool_outcome list \<Rightarrow> step_execution" where
  "step_of s results =
     (let cs = ss_content s @ map CResult results in
      \<lparr>se_step = \<lparr>st_response = \<lparr>re_content = cs, re_reason = ss_reason s, re_usage = ss_usage s,
                                 re_warnings = ss_warnings s, re_meta = ss_meta s\<rparr>,
                  st_messages = to_response_messages cs\<rparr>,
       se_continue = (ss_calls s \<noteq> [] \<and> ss_reason s = reason_tool_calls \<and> \<not> has_stop_turn results)\<rparr>)"

text \<open>The callback for a result of the dispatch; its error is ignored.\<close>

definition on_result :: "('e, 'w) callbacks \<Rightarrow> tool_outcome \<Rightarrow> 'w \<Rightarrow> 'w" where
  "on_result nf r w = fst (nf (NResult r) w)"

inductive process_step :: "('e, 'w) callbacks \<Rightarrow> ('e, 'j) tool_env \<Rightarrow> 'e stream_part list \<Rightarrow> 'w \<Rightarrow>
    'e + step_execution \<Rightarrow> 'w \<Rightarrow> bool" for nf env where
  stream_fails:
    "consume nf env ps empty_stream w = (w', Inl e) \<Longrightarrow> process_step nf env ps w (Inl e) w'"
| tools_fail:
    "consume nf env ps empty_stream w = (w1, Inr s) \<Longrightarrow>
     (dispatch_step (on_result nf) env)\<^sup>*\<^sup>* (start_dispatch (ss_pending s) w1) d \<Longrightarrow> dispatched d \<Longrightarrow>
     dp_error d = Some e \<Longrightarrow> process_step nf env ps w (Inl e) (dp_world d)"
| step_ends:
    "consume nf env ps empty_stream w = (w1, Inr s) \<Longrightarrow>
     (dispatch_step (on_result nf) env)\<^sup>*\<^sup>* (start_dispatch (ss_pending s) w1) d \<Longrightarrow> dispatched d \<Longrightarrow>
     dp_error d = None \<Longrightarrow> process_step nf env ps w (Inr (step_of s (dp_results d))) (dp_world d)"

section \<open>What the collected state holds\<close>

definition client_calls :: "content list \<Rightarrow> tool_use list" where
  "client_calls cs = filter (\<lambda>c. \<not> tu_provider c) (used_tools cs)"

definition client_results :: "content list \<Rightarrow> tool_outcome list" where
  "client_results cs = filter (\<lambda>r. \<not> to_provider r) (tool_outcomes cs)"

text \<open>A repair function keeps a call a call of the client.\<close>

definition repairs_client_calls :: "('e, 'j) tool_env \<Rightarrow> bool" where
  "repairs_client_calls env \<longleftrightarrow>
     (\<forall>c e c'. \<not> tu_provider c \<and> (te_repair env c e = Some c' \<or> te_builtin_repair env c e = Some c') \<longrightarrow> \<not> tu_provider c')"

lemma validate_provider:
  "validate_tool_call env c = Inr v \<Longrightarrow> tu_provider v = tu_provider c"
  by (auto simp: validate_tool_call_def split: option.splits if_splits sum.splits prod.splits)

lemma try_repair_provider:
  "try_repair env (Some c) = Some v \<Longrightarrow> tu_provider v = tu_provider c"
  by (auto simp: try_repair_def split: sum.splits dest: validate_provider)

lemma validate_and_repair_provider:
  assumes "repairs_client_calls env" "\<not> tu_provider c"
  shows "\<not> tu_provider (validate_and_repair env c)"
proof (cases "validate_tool_call env c")
  case (Inr v)
  then show ?thesis using assms validate_provider [OF Inr] by (simp add: validate_and_repair_def)
next
  case (Inl e)
  have keeps: "\<not> tu_provider v" if "try_repair env r = Some v" "r = te_repair env c e \<or> r = te_builtin_repair env c e" for r v
  proof -
    note h = that
    obtain c' where c': "r = Some c'" using h(1) by (cases r) (auto simp: try_repair_def)
    then have "\<not> tu_provider c'" using assms h(2) unfolding repairs_client_calls_def by metis
    then show ?thesis using try_repair_provider h(1) c' by blast
  qed
  show ?thesis
    using Inl assms(2) keeps [OF _ disjI1 [OF refl]] keeps [OF _ disjI2 [OF refl]]
    by (simp add: validate_and_repair_def split: option.split)
qed

definition stream_ok :: "stream_state \<Rightarrow> bool" where
  "stream_ok s \<longleftrightarrow> client_calls (ss_content s) = ss_calls s \<and> map fst (ss_pending s) = ss_calls s \<and>
     client_results (ss_content s) = []"

lemma client_simps [simp]:
  "client_calls [] = []" "client_results [] = []"
  "client_calls (cs @ ds) = client_calls cs @ client_calls ds"
  "client_results (cs @ ds) = client_results cs @ client_results ds"
  "client_calls (c # cs) = (case c of CCall u \<Rightarrow> if tu_provider u then [] else [u] | _ \<Rightarrow> []) @ client_calls cs"
  "client_results (c # cs) = (case c of CResult r \<Rightarrow> if to_provider r then [] else [r] | _ \<Rightarrow> []) @ client_results cs"
  by (simp_all add: client_calls_def client_results_def split: content.split)

lemma notified_Inr: "notified nf n s w = (w', Inr s') \<Longrightarrow> s' = s"
  by (auto simp: notified_def split: prod.splits option.splits)

lemma stream_ok_empty [simp]: "stream_ok empty_stream"
  by (simp add: stream_ok_def empty_stream_def)

lemma use_tool_provider [simp]: "tu_provider (use_tool i name input p m) = p"
  by (simp add: use_tool_def)

lemma process_part_ok:
  assumes "repairs_client_calls env" "stream_ok s" "process_part nf env p s w = (w', Inr s')"
  shows "stream_ok s'"
proof (cases p)
  case (SpCall i name input prov m)
  then show ?thesis
    using assms validate_and_repair_provider [OF assms(1), of "use_tool i name input False m"]
    by (cases prov)
      (auto simp: stream_ok_def add_content_def add_call_def drop_input_def Let_def dest!: notified_Inr)
next
  case (SpResult i name prov m)
  then show ?thesis
    using assms by (cases prov) (auto simp: stream_ok_def add_content_def Let_def dest!: notified_Inr)
qed (use assms in \<open>auto simp: stream_ok_def add_content_def dest!: notified_Inr split: option.splits prod.splits\<close>)

lemma consume_ok:
  assumes "repairs_client_calls env" "stream_ok s" "consume nf env ps s w = (w', Inr s')"
  shows "stream_ok s'"
  using assms(2,3)
proof (induction ps arbitrary: s w)
  case (Cons p ps)
  then obtain w1 w2 s2 where part: "process_part nf env p s w1 = (w2, Inr s2)" "consume nf env ps s2 w2 = (w', Inr s')"
    by (auto split: prod.splits option.splits sum.splits)
  show ?case by (rule Cons.IH [OF process_part_ok [OF assms(1) Cons.prems(1) part(1)] part(2)])
qed simp

section \<open>Messages of a step are paired\<close>

text \<open>
  The messages of a step: none, an assistant message without calls of the client, or an assistant
  message and the tool message that answers each of its calls once.
\<close>

definition paired :: "fantasy_message list \<Rightarrow> bool" where
  "paired ms \<longleftrightarrow> ms = [] \<or>
     (\<exists>a. ms = [a] \<and> fm_role a = Assistant \<and> message_calls a = [] \<and> message_results a = []) \<or>
     (\<exists>a t. ms = [a, t] \<and> fm_role a = Assistant \<and> fm_role t = Tool \<and> message_results a = [] \<and> message_calls t = [] \<and>
        mset (message_calls a) = mset (message_results t))"

definition parts_calls :: "fantasy_part list \<Rightarrow> string list" where
  "parts_calls ps = List.map_filter part_call_id ps"

definition parts_results :: "fantasy_part list \<Rightarrow> string list" where
  "parts_results ps = List.map_filter part_result_id ps"

definition assistant_side :: "content list \<Rightarrow> fantasy_part list" where
  "assistant_side cs = concat (map (fst \<circ> content_parts) cs)"

definition tool_side :: "content list \<Rightarrow> fantasy_part list" where
  "tool_side cs = concat (map (snd \<circ> content_parts) cs)"

lemma content_parts_ids:
  "List.map_filter part_result_id (fst (content_parts c)) = []" "List.map_filter part_call_id (snd (content_parts c)) = []"
  by (cases c; simp add: List.map_filter_simps result_part_of_def)+

lemma side_calls:
  "parts_calls (assistant_side cs) = map tu_id (client_calls cs)" "parts_results (assistant_side cs) = []"
  "parts_calls (tool_side cs) = []" "parts_results (tool_side cs) = map to_id (client_results cs)"
  by (induction cs)
    (simp_all add: assistant_side_def tool_side_def parts_calls_def parts_results_def map_filter_app
      List.map_filter_simps content_parts_ids result_part_of_def split: content.split)

lemma to_response_messages_paired:
  assumes "mset (map tu_id (client_calls cs)) = mset (map to_id (client_results cs))"
  shows "paired (to_response_messages cs)"
proof -
  have sides: "to_response_messages cs = message_of_parts Assistant (assistant_side cs) @ message_of_parts Tool (tool_side cs)"
    by (simp add: to_response_messages_def assistant_side_def tool_side_def)
  have calls: "message_calls \<lparr>fm_role = r, fm_content = ps, fm_options = o1\<rparr> = parts_calls ps"
    "message_results \<lparr>fm_role = r, fm_content = ps, fm_options = o1\<rparr> = parts_results ps" for r ps o1
    by (simp_all add: message_calls_def message_results_def parts_calls_def parts_results_def)
  have tool: "tool_side cs = [] \<longleftrightarrow> client_results cs = []"
    by (induction cs) (simp_all add: tool_side_def result_part_of_def split: content.split)
  have calling: "assistant_side cs = [] \<Longrightarrow> client_calls cs = []"
    using side_calls(1) [of cs] by (simp add: parts_calls_def List.map_filter_simps)
  show ?thesis
  proof (cases "tool_side cs = []")
    case True
    then have "client_calls cs = []" using tool assms by simp
    then show ?thesis unfolding sides using True
      by (simp add: message_of_parts_def paired_def calls side_calls)
  next
    case False
    then have "client_calls cs \<noteq> []" using tool assms by auto
    then have "assistant_side cs \<noteq> []" using calling by blast
    then show ?thesis unfolding sides using False assms
      by (simp add: message_of_parts_def paired_def calls side_calls)
  qed
qed

lemma client_of_results:
  "\<forall>r \<in> set rs. \<not> to_provider r \<Longrightarrow> client_results (map CResult rs) = rs \<and> client_calls (map CResult rs) = []"
  by (induction rs) simp_all

lemma process_step_paired:
  assumes "process_step nf env ps w (Inr x) w'" "repairs_client_calls env"
  shows "paired (to_response_messages (re_content (st_response (se_step x))))"
  using assms(1)
proof (cases rule: process_step.cases)
  case (step_ends w1 s d)
  have ok: "stream_ok s" using consume_ok [OF assms(2) stream_ok_empty step_ends(3)] .
  note ids = dispatch_ids [OF step_ends(4,5)]
  have "map tu_id (ss_calls s) = map (tu_id \<circ> fst) (ss_pending s)"
    using ok unfolding stream_ok_def by (metis map_map)
  then have "mset (map tu_id (ss_calls s)) = mset (map to_id (dp_results d))"
    using ids(1) by simp
  then show ?thesis
    using ok client_of_results [OF ids(2)] step_ends(1)
    by (intro to_response_messages_paired) (simp add: step_of_def Let_def stream_ok_def)
qed

end
