(* ===== verification/Agent_Loop.thy ===== *)
theory Agent_Loop
  imports Agent_Stream
begin

text \<open>
  The loop of the agent: Stream of fantasy/agent.go with the retries of fantasy/retry.go. The model
  is arbitrary: every attempt to call it fails or gives any stream. PrepareStep, the stop
  conditions and the classification of errors are parameters. Of a call to the model the prompt,
  the names of the tools and the tool choice are kept.
\<close>

section \<open>The prompt\<close>

definition system_message :: "string \<Rightarrow> fantasy_message" where
  "system_message t = \<lparr>fm_role = System, fm_content = [FText t no_options], fm_options = no_options\<rparr>"

definition user_message :: "string \<Rightarrow> fantasy_part list \<Rightarrow> fantasy_message" where
  "user_message t files = \<lparr>fm_role = User, fm_content = FText t no_options # files, fm_options = no_options\<rparr>"

definition create_prompt :: "string \<Rightarrow> string \<Rightarrow> fantasy_message list \<Rightarrow> fantasy_part list \<Rightarrow> string + fantasy_message list" where
  "create_prompt sys prompt ms files =
     (if prompt = [] \<and> ms = [] then Inl ''prompt can't be empty when there are no messages''
      else if prompt = [] \<and> files \<noteq> [] then Inl ''prompt can't be empty when there are files''
      else if prompt = [] \<and> fm_role (last ms) \<notin> {User, Tool}
      then Inl ''prompt can't be empty when the last message is not a user or tool message''
      else Inr ((if sys \<noteq> [] then [system_message sys] else []) @ ms @
             (if prompt \<noteq> [] then [user_message prompt files] else [])))"

section \<open>Retries\<close>

datatype 'e failure = Failure 'e | RetryFailure "'e list"

text \<open>Unwrapping reaches the last error of a RetryError.\<close>

fun failure_error :: "'e failure \<Rightarrow> 'e" where
  "failure_error (Failure e) = e"
| "failure_error (RetryFailure es) = last es"

record ('e, 'w) retry_options =
  ro_max :: int
  ro_abort :: "'e \<Rightarrow> bool"
  ro_retryable :: "'e \<Rightarrow> bool"
  ro_should :: "('e \<Rightarrow> bool) option"
  ro_auth :: "'e \<Rightarrow> bool"
  ro_refresh :: bool
  ro_on_retry :: "'e \<Rightarrow> 'w \<Rightarrow> 'w"

definition no_retry :: "('e, 'w) retry_options \<Rightarrow> 'e \<Rightarrow> bool" where
  "no_retry opts e = (ro_abort opts e \<or> (case ro_should opts of Some f \<Rightarrow> \<not> f e | None \<Rightarrow> False) \<or> ro_max opts = 0)"

text \<open>retryWithExponentialBackoff, with the number of attempts. The delays are not modelled.\<close>

inductive retry_pass :: "('e, 'w) retry_options \<Rightarrow> ('w \<Rightarrow> 'e + 'r \<Rightarrow> 'w \<Rightarrow> bool) \<Rightarrow> 'e list \<Rightarrow> 'w \<Rightarrow> nat \<Rightarrow>
    'e failure + 'r \<Rightarrow> 'w \<Rightarrow> bool" for opts fn where
  succeeds: "fn w (Inr r) w' \<Longrightarrow> retry_pass opts fn errs w 1 (Inr r) w'"
| surfaces: "fn w (Inl e) w' \<Longrightarrow> no_retry opts e \<Longrightarrow> retry_pass opts fn errs w 1 (Inl (Failure e)) w'"
| exhausted: "fn w (Inl e) w' \<Longrightarrow> \<not> no_retry opts e \<Longrightarrow> int (length errs + 1) > ro_max opts \<Longrightarrow>
    retry_pass opts fn errs w 1 (Inl (RetryFailure (errs @ [e]))) w'"
| again: "fn w (Inl e) w' \<Longrightarrow> \<not> no_retry opts e \<Longrightarrow> int (length errs + 1) \<le> ro_max opts \<Longrightarrow> ro_retryable opts e \<Longrightarrow>
    retry_pass opts fn (errs @ [e]) (ro_on_retry opts e w') n r w'' \<Longrightarrow> retry_pass opts fn errs w (Suc n) r w''"
| canceled: "fn w (Inl e) w' \<Longrightarrow> \<not> no_retry opts e \<Longrightarrow> int (length errs + 1) \<le> ro_max opts \<Longrightarrow> ro_retryable opts e \<Longrightarrow>
    ro_abort opts c \<Longrightarrow> retry_pass opts fn errs w 1 (Inl (Failure c)) (ro_on_retry opts e w')"
| first_permanent: "fn w (Inl e) w' \<Longrightarrow> \<not> no_retry opts e \<Longrightarrow> int (length errs + 1) \<le> ro_max opts \<Longrightarrow>
    \<not> ro_retryable opts e \<Longrightarrow> errs = [] \<Longrightarrow> retry_pass opts fn errs w 1 (Inl (Failure e)) w'"
| permanent: "fn w (Inl e) w' \<Longrightarrow> \<not> no_retry opts e \<Longrightarrow> int (length errs + 1) \<le> ro_max opts \<Longrightarrow>
    \<not> ro_retryable opts e \<Longrightarrow> errs \<noteq> [] \<Longrightarrow> retry_pass opts fn errs w 1 (Inl (RetryFailure (errs @ [e]))) w'"

text \<open>With a hook for authentication errors the whole pass may run once more; the hook may fail.\<close>

inductive retry_run :: "('e, 'w) retry_options \<Rightarrow> ('w \<Rightarrow> 'e + 'r \<Rightarrow> 'w \<Rightarrow> bool) \<Rightarrow> 'w \<Rightarrow> nat \<Rightarrow>
    'e failure + 'r \<Rightarrow> 'w \<Rightarrow> bool" for opts fn where
  one_pass: "retry_pass opts fn [] w n r w' \<Longrightarrow> retry_run opts fn w n r w'"
| refreshed: "retry_pass opts fn [] w n (Inl f) w' \<Longrightarrow> ro_refresh opts \<Longrightarrow> ro_auth opts (failure_error f) \<Longrightarrow>
    retry_pass opts fn [] w' k r w'' \<Longrightarrow> retry_run opts fn w (n + k) r w''"

lemma retry_pass_bound:
  assumes "retry_pass opts fn errs w n r w'" "int (length errs) \<le> max 0 (ro_max opts)"
  shows "int n \<le> max 0 (ro_max opts) + 1 - int (length errs)"
  using assms by (induction rule: retry_pass.induct) auto

lemma retry_pass_result:
  assumes "retry_pass opts fn errs w n res w'" "res = Inr r"
  shows "\<exists>w0. fn w0 (Inr r) w'"
  using assms by (induction rule: retry_pass.induct) auto

lemma retry_run_result:
  assumes "retry_run opts fn w n (Inr r) w'"
  shows "\<exists>w0. fn w0 (Inr r) w'"
  using assms by (cases rule: retry_run.cases) (auto dest: retry_pass_result)

section \<open>Preparing a step\<close>

record prepared =
  pp_messages :: "fantasy_message list option"
  pp_system :: "string option"
  pp_choice :: "string option"
  pp_active :: "string list"
  pp_disable_all :: bool
  pp_tools :: "agent_tool list option"

record ('e, 'j, 'w) agent_config =
  ag_system :: string
  ag_prompt :: string
  ag_messages :: "fantasy_message list"
  ag_files :: "fantasy_part list"
  ag_tools :: "agent_tool list"
  ag_defined :: "string list"
  ag_exec :: "string list"
  ag_active :: "string list"
  ag_choice :: "string option"
  ag_stop :: "(step_result list \<Rightarrow> bool) list"
  ag_prepare :: "(step_result list \<Rightarrow> fantasy_message list \<Rightarrow> bool \<Rightarrow> 'e + prepared) option"
  ag_replay :: "('e failure \<Rightarrow> bool) option"
  ag_env :: "('e, 'j) tool_env"
  ag_retry :: "('e, 'w) retry_options"
  ag_invalid :: "string \<Rightarrow> 'e"

record model_call =
  mc_prompt :: "fantasy_message list"
  mc_tools :: "string list"
  mc_choice :: string

record prep_state =
  su_messages :: "fantasy_message list"
  su_full :: "fantasy_message list"
  su_initial :: "fantasy_message list"
  su_system :: string
  su_choice :: string
  su_active :: "string list"
  su_disable :: bool
  su_tools :: "agent_tool list"

datatype 'e loop_status = Going | Finished | Failed "'e failure"

record ('e, 'w) loop_state =
  lo_initial :: "fantasy_message list"
  lo_response :: "fantasy_message list"
  lo_steps :: "step_result list"
  lo_usage :: fantasy_usage
  lo_sent :: "model_call list"
  lo_status :: "'e loop_status"
  lo_world :: 'w

definition default_setup :: "('e, 'j, 'w) agent_config \<Rightarrow> ('e, 'w) loop_state \<Rightarrow> prep_state" where
  "default_setup cfg s = \<lparr>su_messages = lo_initial s @ lo_response s, su_full = lo_initial s @ lo_response s,
     su_initial = lo_initial s, su_system = ag_system cfg,
     su_choice = (case ag_choice cfg of Some c \<Rightarrow> c | None \<Rightarrow> ''auto''),
     su_active = ag_active cfg, su_disable = False, su_tools = ag_tools cfg\<rparr>"

definition apply_prepared :: "prepared \<Rightarrow> prep_state \<Rightarrow> prep_state" where
  "apply_prepared p su = su
     \<lparr>su_messages := (case pp_messages p of Some ms \<Rightarrow> ms | None \<Rightarrow> su_messages su),
      su_system := (case pp_system p of Some t \<Rightarrow> t | None \<Rightarrow> su_system su),
      su_choice := (case pp_choice p of Some c \<Rightarrow> c | None \<Rightarrow> su_choice su),
      su_active := (if pp_active p \<noteq> [] then pp_active p else su_active su),
      su_disable := pp_disable_all p,
      su_tools := (case pp_tools p of Some ts \<Rightarrow> ts | None \<Rightarrow> su_tools su)\<rparr>"

definition replace_first :: "fantasy_message \<Rightarrow> fantasy_message list \<Rightarrow> fantasy_message list" where
  "replace_first m ms = (if ms = [] then [] else m # tl ms)"

text \<open>
  A changed system prompt overwrites the first message of the input. When the messages were not
  replaced, the input and fullStepMessages are one slice, and it shares its elements with the
  initial prompt when append did not have to copy: always in the first step, otherwise when
  the slice has room (\<open>shared\<close>).
\<close>

definition override_system :: "('e, 'j, 'w) agent_config \<Rightarrow> bool \<Rightarrow> bool \<Rightarrow> prep_state \<Rightarrow> 'e + prep_state" where
  "override_system cfg replaced shared su =
     (if su_system su = ag_system cfg then Inr su
      else case create_prompt (su_system su) (ag_prompt cfg) (ag_messages cfg) (ag_files cfg) of
        Inl text \<Rightarrow> Inl (ag_invalid cfg text)
      | Inr [] \<Rightarrow> Inr su
      | Inr (m # ms) \<Rightarrow>
          if su_messages su = [] then Inr su
          else Inr (su\<lparr>su_messages := replace_first m (su_messages su),
                 su_full := (if replaced then su_full su else replace_first m (su_full su)),
                 su_initial := (if \<not> replaced \<and> shared then replace_first m (su_initial su) else su_initial su)\<rparr>))"

definition setup_step :: "('e, 'j, 'w) agent_config \<Rightarrow> bool \<Rightarrow> ('e, 'w) loop_state \<Rightarrow> 'e + prep_state" where
  "setup_step cfg room s =
     (case ag_prepare cfg of
        None \<Rightarrow> Inr (default_setup cfg s)
      | Some prep \<Rightarrow>
          (case prep (lo_steps s) (su_messages (default_setup cfg s)) False of
             Inl e \<Rightarrow> Inl e
           | Inr p \<Rightarrow> override_system cfg (pp_messages p \<noteq> None) (lo_response s = [] \<or> room)
               (apply_prepared p (default_setup cfg s))))"

definition step_env :: "('e, 'j, 'w) agent_config \<Rightarrow> prep_state \<Rightarrow> ('e, 'j) tool_env" where
  "step_env cfg su = (ag_env cfg)\<lparr>te_tools := su_tools su, te_exec := filter_exec_tools (su_active su) (ag_exec cfg)\<rparr>"

definition call_of :: "('e, 'j, 'w) agent_config \<Rightarrow> prep_state \<Rightarrow> model_call" where
  "call_of cfg su = \<lparr>mc_prompt = su_messages su,
     mc_tools = prepare_tools (su_tools su) (ag_defined cfg) (su_active su) (su_disable su), mc_choice = su_choice su\<rparr>"

text \<open>
  The second preparation of a step whose server-side state is gone. The fallback call is the
  earlier one with a new prompt; its tools are those of the first preparation.
\<close>

definition replay_setup :: "prepared \<Rightarrow> prep_state \<Rightarrow> prep_state" where
  "replay_setup p su = (apply_prepared p (su\<lparr>su_messages := su_full su\<rparr>))\<lparr>su_system := su_system su\<rparr>"

definition replay_call :: "model_call \<Rightarrow> prep_state \<Rightarrow> model_call" where
  "replay_call c su = c\<lparr>mc_prompt := su_messages su, mc_choice := su_choice su\<rparr>"

section \<open>The loop\<close>

inductive attempt :: "('e, 'w) callbacks \<Rightarrow> ('e, 'j) tool_env \<Rightarrow> 'w \<Rightarrow> 'e + step_execution \<Rightarrow> 'w \<Rightarrow> bool"
  for nf env where
  model_fails: "attempt nf env w (Inl e) w"
| model_streams: "process_step nf env ps w r w' \<Longrightarrow> attempt nf env w r w'"

definition finish_step :: "('e, 'j, 'w) agent_config \<Rightarrow> (step_result \<Rightarrow> 'w \<Rightarrow> 'w) \<Rightarrow> prep_state \<Rightarrow> model_call list \<Rightarrow>
    step_execution \<Rightarrow> 'w \<Rightarrow> ('e, 'w) loop_state \<Rightarrow> ('e, 'w) loop_state" where
  "finish_step cfg on_step su calls x w s =
     (let steps = lo_steps s @ [se_step x] in
      s\<lparr>lo_initial := su_initial su, lo_steps := steps,
        lo_response := lo_response s @ to_response_messages (re_content (st_response (se_step x))),
        lo_usage := add_usage (lo_usage s) (re_usage (st_response (se_step x))),
        lo_sent := lo_sent s @ calls,
        lo_status := (if is_stop_condition_met (ag_stop cfg) steps \<or> \<not> se_continue x then Finished else Going),
        lo_world := on_step (se_step x) w\<rparr>)"

definition fail_step :: "prep_state \<Rightarrow> model_call list \<Rightarrow> 'e failure \<Rightarrow> 'w \<Rightarrow> ('e, 'w) loop_state \<Rightarrow> ('e, 'w) loop_state" where
  "fail_step su calls f w s = s\<lparr>lo_initial := su_initial su, lo_sent := lo_sent s @ calls, lo_status := Failed f, lo_world := w\<rparr>"

definition replays :: "('e, 'j, 'w) agent_config \<Rightarrow> 'e failure \<Rightarrow> bool" where
  "replays cfg f = (ag_prepare cfg \<noteq> None \<and> (case ag_replay cfg of Some g \<Rightarrow> g f | None \<Rightarrow> False))"

text \<open>An error that needs a replay is not retried.\<close>

definition step_retry :: "('e, 'j, 'w) agent_config \<Rightarrow> ('e, 'w) retry_options" where
  "step_retry cfg = (case ag_replay cfg of
     None \<Rightarrow> ag_retry cfg
   | Some g \<Rightarrow> (ag_retry cfg)\<lparr>ro_should := Some (\<lambda>e. \<not> g (Failure e))\<rparr>)"

inductive loop_step :: "('e, 'j, 'w) agent_config \<Rightarrow> ('e, 'w) callbacks \<Rightarrow> (step_result \<Rightarrow> 'w \<Rightarrow> 'w) \<Rightarrow>
    ('e, 'w) loop_state \<Rightarrow> ('e, 'w) loop_state \<Rightarrow> bool" for cfg nf on_step where
  prepare_fails: "lo_status s = Going \<Longrightarrow> setup_step cfg room s = Inl e \<Longrightarrow>
    loop_step cfg nf on_step s (s\<lparr>lo_status := Failed (Failure e)\<rparr>)"
| step_done: "lo_status s = Going \<Longrightarrow> setup_step cfg room s = Inr su \<Longrightarrow>
    retry_run (step_retry cfg) (attempt nf (step_env cfg su)) (lo_world s) n (Inr x) w \<Longrightarrow>
    loop_step cfg nf on_step s (finish_step cfg on_step su [call_of cfg su] x w s)"
| step_fails: "lo_status s = Going \<Longrightarrow> setup_step cfg room s = Inr su \<Longrightarrow>
    retry_run (step_retry cfg) (attempt nf (step_env cfg su)) (lo_world s) n (Inl f) w \<Longrightarrow> \<not> replays cfg f \<Longrightarrow>
    loop_step cfg nf on_step s (fail_step su [call_of cfg su] f w s)"
| replay_refused: "lo_status s = Going \<Longrightarrow> setup_step cfg room s = Inr su \<Longrightarrow>
    retry_run (step_retry cfg) (attempt nf (step_env cfg su)) (lo_world s) n (Inl f) w \<Longrightarrow> replays cfg f \<Longrightarrow>
    ag_prepare cfg = Some prep \<Longrightarrow> prep (lo_steps s) (su_full su) True = Inl e \<Longrightarrow>
    loop_step cfg nf on_step s (fail_step su [call_of cfg su] (Failure e) w s)"
| replay_done: "lo_status s = Going \<Longrightarrow> setup_step cfg room s = Inr su \<Longrightarrow>
    retry_run (step_retry cfg) (attempt nf (step_env cfg su)) (lo_world s) n (Inl f) w \<Longrightarrow> replays cfg f \<Longrightarrow>
    ag_prepare cfg = Some prep \<Longrightarrow> prep (lo_steps s) (su_full su) True = Inr p \<Longrightarrow> su' = replay_setup p su \<Longrightarrow>
    retry_run (step_retry cfg) (attempt nf (step_env cfg su')) w k (Inr x) w' \<Longrightarrow>
    loop_step cfg nf on_step s (finish_step cfg on_step su' [call_of cfg su, replay_call (call_of cfg su) su'] x w' s)"
| replay_fails: "lo_status s = Going \<Longrightarrow> setup_step cfg room s = Inr su \<Longrightarrow>
    retry_run (step_retry cfg) (attempt nf (step_env cfg su)) (lo_world s) n (Inl f) w \<Longrightarrow> replays cfg f \<Longrightarrow>
    ag_prepare cfg = Some prep \<Longrightarrow> prep (lo_steps s) (su_full su) True = Inr p \<Longrightarrow> su' = replay_setup p su \<Longrightarrow>
    retry_run (step_retry cfg) (attempt nf (step_env cfg su')) w k (Inl f') w' \<Longrightarrow>
    loop_step cfg nf on_step s (fail_step su' [call_of cfg su, replay_call (call_of cfg su) su'] f' w' s)"

definition start_loop :: "fantasy_message list \<Rightarrow> 'w \<Rightarrow> ('e, 'w) loop_state" where
  "start_loop initial w = \<lparr>lo_initial = initial, lo_response = [], lo_steps = [], lo_usage = zero_usage,
     lo_sent = [], lo_status = Going, lo_world = w\<rparr>"

section \<open>Invariant of the loop\<close>

definition step_messages :: "step_result list \<Rightarrow> fantasy_message list" where
  "step_messages steps = concat (map (to_response_messages \<circ> re_content \<circ> st_response) steps)"

definition loop_ok :: "('e, 'j, 'w) agent_config \<Rightarrow> ('e, 'w) loop_state \<Rightarrow> bool" where
  "loop_ok cfg s \<longleftrightarrow>
     lo_response s = step_messages (lo_steps s) \<and>
     (\<forall>x \<in> set (lo_steps s). paired (to_response_messages (re_content (st_response x)))) \<and>
     lo_usage s = foldl add_usage zero_usage (map (re_usage \<circ> st_response) (lo_steps s)) \<and>
     (\<forall>k. 0 < k \<and> k < length (lo_steps s) \<longrightarrow> \<not> is_stop_condition_met (ag_stop cfg) (take k (lo_steps s))) \<and>
     (lo_status s = Going \<and> lo_steps s \<noteq> [] \<longrightarrow> \<not> is_stop_condition_met (ag_stop cfg) (lo_steps s))"

lemma loop_ok_start [simp]: "loop_ok cfg (start_loop initial w)"
  by (simp add: loop_ok_def start_loop_def step_messages_def)

lemma attempt_paired:
  assumes "retry_run opts (attempt nf env) w n (Inr x) w'" "repairs_client_calls env"
  shows "paired (to_response_messages (re_content (st_response (se_step x))))"
proof -
  obtain w0 where "attempt nf env w0 (Inr x) w'" using retry_run_result [OF assms(1)] by blast
  then obtain ps where "process_step nf env ps w0 (Inr x) w'" by (cases rule: attempt.cases) auto
  then show ?thesis by (rule process_step_paired [OF _ assms(2)])
qed

lemma step_env_repairs [simp]: "repairs_client_calls (step_env cfg su) = repairs_client_calls (ag_env cfg)"
  by (simp add: repairs_client_calls_def step_env_def)

lemma finish_step_ok:
  assumes "loop_ok cfg s" "lo_status s = Going" "paired (to_response_messages (re_content (st_response (se_step x))))"
  shows "loop_ok cfg (finish_step cfg on_step su calls x w s)"
proof -
  have earlier: "\<not> is_stop_condition_met (ag_stop cfg) (take k (lo_steps s @ [se_step x]))"
    if "0 < k" "k < Suc (length (lo_steps s))" for k
  proof (cases "k = length (lo_steps s)")
    case True
    then show ?thesis using that assms(1,2) by (simp add: loop_ok_def)
  next
    case False
    then show ?thesis using that assms(1) by (simp add: loop_ok_def)
  qed
  show ?thesis
    using assms(1,3) earlier unfolding loop_ok_def finish_step_def Let_def
    by (simp add: step_messages_def)
qed

lemma loop_step_ok:
  assumes "loop_step cfg nf on_step s s'" "loop_ok cfg s" "repairs_client_calls (ag_env cfg)"
  shows "loop_ok cfg s'"
  using assms(1)
proof (cases rule: loop_step.cases)
  case (step_done room su n x w)
  show ?thesis unfolding step_done(1)
    by (rule finish_step_ok [OF assms(2) step_done(2) attempt_paired [OF step_done(4)]]) (simp add: assms(3))
next
  case (replay_done room su n f w prep p su' k x w')
  show ?thesis unfolding replay_done(1)
    by (rule finish_step_ok [OF assms(2) replay_done(2) attempt_paired [OF replay_done(9)]]) (simp add: assms(3))
qed (use assms(2) in \<open>simp_all add: loop_ok_def fail_step_def\<close>)

lemma loop_reachable_ok:
  assumes "(loop_step cfg nf on_step)\<^sup>*\<^sup>* (start_loop initial w) s" "repairs_client_calls (ag_env cfg)"
  shows "loop_ok cfg s"
  using assms(1)
proof (induction rule: rtranclp_induct)
  case (step s s')
  then show ?case using loop_step_ok assms(2) by blast
qed simp

lemma loop_step_grows:
  assumes "loop_step cfg nf on_step s s'"
  shows "lo_status s = Going" "lo_status s' = Going \<longrightarrow> length (lo_steps s') = Suc (length (lo_steps s))"
  using assms by (cases rule: loop_step.cases; simp add: finish_step_def fail_step_def Let_def)+

end
