(* ===== verification/Agent_Properties.thy ===== *)
theory Agent_Properties
  imports Agent_Loop
begin

text \<open>
  Properties of the agent loop: the history it builds is paired, every tool call of a step runs
  once in every interleaving, the loop and its retries end, and streamed text is complete.
\<close>

section \<open>A sample run\<close>

text \<open>A model that calls the tool ls once, in a step that offers only the tool view.\<close>

definition sample_tools :: "agent_tool list" where
  "sample_tools = [\<lparr>at_name = ''view'', at_parallel = True\<rparr>, \<lparr>at_name = ''ls'', at_parallel = False\<rparr>]"

definition sample_env :: "(string, string) tool_env" where
  "sample_env = \<lparr>te_tools = sample_tools, te_exec = [], te_parse = (\<lambda>t. Inr (t, t)), te_normalize = (\<lambda>t j. Inr j),
     te_equal = (=), te_marshal = Inr, te_repair = (\<lambda>c e. None), te_builtin_repair = (\<lambda>c e. None),
     te_error = id, te_base64 = id\<rparr>"

definition sample_retry :: "(string, unit) retry_options" where
  "sample_retry = \<lparr>ro_max = 3, ro_abort = (\<lambda>_. False), ro_retryable = (\<lambda>_. True), ro_should = None,
     ro_auth = (\<lambda>_. False), ro_refresh = False, ro_on_retry = (\<lambda>_ w. w)\<rparr>"

definition sample_config :: "(string, string, unit) agent_config" where
  "sample_config = \<lparr>ag_system = ''s'', ag_prompt = ''p'', ag_messages = [], ag_files = [], ag_tools = sample_tools,
     ag_defined = [], ag_exec = [], ag_active = [''view''], ag_choice = None, ag_stop = [step_count_is 1],
     ag_prepare = None, ag_replay = None, ag_env = sample_env, ag_retry = sample_retry, ag_invalid = id\<rparr>"

definition quiet :: "(string, unit) callbacks" where
  "quiet n w = (w, None)"

definition sample_stream :: "string stream_part list" where
  "sample_stream = [SpTextStart ''t'', SpTextDelta ''t'' ''hel'', SpTextDelta ''t'' ''lo'', SpTextEnd ''t'' no_options,
     SpCall ''1'' ''ls'' ''{}'' False no_options, SpFinish zero_usage reason_tool_calls no_options]"

definition sample_call :: tool_use where
  "sample_call = use_tool ''1'' ''ls'' ''{}'' False no_options"

definition sample_response :: tool_response where
  "sample_response = \<lparr>rs_type = ''text'', rs_content = ''files'', rs_data = [], rs_media = [], rs_metadata = [],
     rs_error = False, rs_stop = False\<rparr>"

definition sample_outcome :: tool_outcome where
  "sample_outcome = bare_outcome sample_call (OutText ''files'')"

definition sample_prompt :: "fantasy_message list" where
  "sample_prompt = [system_message ''s'', user_message ''p'' []]"

lemma sample_single: "execute_single sample_env sample_call (Returned sample_response None) = (sample_outcome, None)"
  by (simp add: execute_single_def sample_call_def use_tool_def runnable_def sample_env_def sample_tools_def
      sample_response_def response_output_def sample_outcome_def bare_outcome_def)

lemma sample_consume:
  "\<exists>s. consume quiet sample_env sample_stream empty_stream () = ((), Inr s) \<and>
     ss_content s = [CText ''hello'' no_options, CCall sample_call] \<and> ss_pending s = [(sample_call, False)]"
  by (simp add: sample_stream_def quiet_def notified_def empty_stream_def add_content_def add_call_def drop_input_def
      Let_def validate_and_repair_def validate_tool_call_def sample_env_def sample_tools_def use_tool_def
      is_parallel_def sample_call_def)

lemma sample_dispatch:
  "\<exists>d :: (string, unit) dispatch.
     (dispatch_step (on_result quiet) sample_env)\<^sup>*\<^sup>* (start_dispatch [(sample_call, False)] ()) d \<and> dispatched d \<and>
     dp_error d = None \<and> dp_results d = [sample_outcome]"
proof -
  let ?step = "dispatch_step (on_result quiet) sample_env"
  let ?d0 = "start_dispatch [(sample_call, False)] () :: (string, unit) dispatch"
  let ?d1 = "?d0\<lparr>dp_queue := [], dp_serial := Some (Executing sample_call)\<rparr>"
  let ?d2 = "report (on_result quiet) sample_env sample_call (Returned sample_response None) ?d1
     \<lparr>dp_serial := Some (execute_job sample_env sample_call (Returned sample_response None))\<rparr>"
  let ?d3 = "record_result sample_outcome None ?d2\<lparr>dp_serial := None\<rparr>"
  have 1: "?step ?d0 ?d1" by (rule dispatch_step.start_serial) (simp_all add: start_dispatch_def)
  have 2: "?step ?d1 ?d2" by (rule dispatch_step.report_serial) simp
  have 3: "?step ?d2 ?d3" by (rule dispatch_step.record_serial) (simp add: execute_job_def sample_single)
  have "?step\<^sup>*\<^sup>* ?d0 ?d3" using 1 2 3 by (meson converse_rtranclp_into_rtranclp rtranclp.rtrancl_refl)
  then show ?thesis
    by (intro exI [of _ ?d3]) (simp add: dispatched_def start_dispatch_def)
qed

lemma sample_step:
  "\<exists>x. process_step quiet sample_env sample_stream () (Inr x) () \<and>
     re_content (st_response (se_step x)) = [CText ''hello'' no_options, CCall sample_call, CResult sample_outcome]"
proof -
  obtain s where s: "consume quiet sample_env sample_stream empty_stream () = ((), Inr s)"
    "ss_content s = [CText ''hello'' no_options, CCall sample_call]" "ss_pending s = [(sample_call, False)]"
    using sample_consume by blast
  obtain d :: "(string, unit) dispatch"
    where d: "(dispatch_step (on_result quiet) sample_env)\<^sup>*\<^sup>* (start_dispatch (ss_pending s) ()) d" "dispatched d"
      "dp_error d = None" "dp_results d = [sample_outcome]"
    using sample_dispatch s(3) by auto
  show ?thesis
    using process_step.step_ends [OF s(1) d(1,2,3)] s(2) d(4)
    by (intro exI [of _ "step_of s (dp_results d)"]) (simp add: step_of_def Let_def)
qed

lemma sample_repairs [simp]: "repairs_client_calls (ag_env sample_config)"
  by (simp add: repairs_client_calls_def sample_config_def sample_env_def)

lemma sample_run:
  "\<exists>s. loop_step sample_config quiet (\<lambda>_ w. w) (start_loop sample_prompt ()) s \<and>
     length (lo_steps s) = 1 \<and> map mc_tools (lo_sent s) = [[''view'']] \<and>
     sample_outcome \<in> set (tool_outcomes (last_content (lo_steps s)))"
proof -
  obtain x where x: "process_step quiet sample_env sample_stream () (Inr x) ()"
    "re_content (st_response (se_step x)) = [CText ''hello'' no_options, CCall sample_call, CResult sample_outcome]"
    using sample_step by blast
  let ?s = "start_loop sample_prompt () :: (string, unit) loop_state"
  let ?su = "default_setup sample_config ?s"
  have env: "step_env sample_config ?su = sample_env"
    by (simp add: step_env_def default_setup_def sample_config_def sample_env_def filter_exec_tools_def)
  have "retry_run (step_retry sample_config) (attempt quiet (step_env sample_config ?su)) () 1 (Inr x) ()"
    unfolding env using x(1) by (intro retry_run.one_pass retry_pass.succeeds attempt.model_streams)
  then have round: "loop_step sample_config quiet (\<lambda>_ w. w) ?s
      (finish_step sample_config (\<lambda>_ w. w) ?su [call_of sample_config ?su] x () ?s)"
    by (intro loop_step.step_done [where room = False]) (simp_all add: setup_step_def sample_config_def start_loop_def)
  show ?thesis
    by (intro exI conjI, rule round)
      (simp_all add: x(2) finish_step_def Let_def start_loop_def call_of_def default_setup_def sample_config_def
        prepare_tools_def sample_tools_def last_content_def)
qed

section \<open>The history\<close>

text \<open> C3. The history the agent builds is paired. However the model answers, and in every interleaving
  of its tools, what is added to the prompt is, step by step, an assistant message and the tool
  message that answers each of its calls exactly once; the usage is the sum over the steps.\<close>

theorem agent_history_paired:
  assumes "(loop_step cfg nf on_step)\<^sup>*\<^sup>* (start_loop initial w) s" "repairs_client_calls (ag_env cfg)"
  shows "lo_response s = concat (map (\<lambda>x. to_response_messages (re_content (st_response x))) (lo_steps s)) \<and>
     (\<forall>x \<in> set (lo_steps s). paired (to_response_messages (re_content (st_response x)))) \<and>
     lo_usage s = foldl add_usage zero_usage (map (\<lambda>x. re_usage (st_response x)) (lo_steps s))"
  using loop_reachable_ok [OF assms] by (simp add: loop_ok_def step_messages_def comp_def)

theorem agent_history_paired_witness:
  "\<exists>s. length (lo_steps s) = 1 \<and> (loop_step sample_config quiet (\<lambda>_ w. w))\<^sup>*\<^sup>* (start_loop sample_prompt ()) s \<and>
     (\<forall>x \<in> set (lo_steps s). paired (to_response_messages (re_content (st_response x))))"
proof -
  obtain s where s: "loop_step sample_config quiet (\<lambda>_ w. w) (start_loop sample_prompt ()) s" "length (lo_steps s) = 1"
    using sample_run by blast
  then show ?thesis
    using agent_history_paired [OF r_into_rtranclp [of "loop_step sample_config quiet (\<lambda>_ w. w)", OF s(1)] sample_repairs]
    by blast
qed

text \<open> C21. The loop ends. With a limit of n steps among the stop conditions, no run of the agent has
  more than n rounds, or one if n is less, whatever model, tools and other conditions do.\<close>

theorem agent_loop_ends:
  assumes "step_count_is n \<in> set (ag_stop cfg)" "repairs_client_calls (ag_env cfg)"
    and "(loop_step cfg nf on_step ^^ k) (start_loop initial w) s"
  shows "int k \<le> max 1 n \<and> (lo_status s = Going \<and> 0 < k \<longrightarrow> int k < n)"
  using assms(3)
proof (induction k arbitrary: s)
  case (Suc k)
  have rounds: "(loop_step cfg nf on_step ^^ m) (start_loop initial w) t \<Longrightarrow> lo_status t = Going \<Longrightarrow> length (lo_steps t) = m" for m t
    by (induction m arbitrary: t) (auto simp: start_loop_def dest: loop_step_grows)
  obtain t where t: "(loop_step cfg nf on_step ^^ k) (start_loop initial w) t" "loop_step cfg nf on_step t s"
    using Suc.prems by auto
  note going = loop_step_grows [OF t(2)]
  have "int (Suc k) < n" if "lo_status s = Going"
  proof -
    have "loop_ok cfg s"
      using loop_reachable_ok [OF relpowp_imp_rtranclp [OF Suc.prems] assms(2)] .
    moreover have "length (lo_steps s) = Suc k" using rounds [OF Suc.prems that] .
    ultimately show ?thesis
      using that assms(1) by (auto simp: loop_ok_def is_stop_condition_met_def step_count_is_def)
  qed
  then show ?case using Suc.IH [OF t(1)] going(1) by (cases k) auto
qed simp

theorem agent_loop_ends_witness:
  "\<exists>s. (loop_step sample_config quiet (\<lambda>_ w. w) ^^ 1) (start_loop sample_prompt ()) s \<and> lo_status s \<noteq> Going"
proof -
  obtain s where s: "(loop_step sample_config quiet (\<lambda>_ w. w) ^^ 1) (start_loop sample_prompt ()) s"
    using sample_run by auto
  have "step_count_is 1 \<in> set (ag_stop sample_config)" by (simp add: sample_config_def)
  then show ?thesis using s agent_loop_ends [OF _ sample_repairs s, of 1] by auto
qed

section \<open>Tools\<close>

text \<open> C4. Every tool call runs exactly once. In every interleaving at most five parallel tools are under
  way, the dispatch can always be completed and never takes more than three steps for a call;
  when it is complete the results are those of one run of each call, the calls that must not
  run in parallel in the order of the model, and the error is the first critical one.\<close>

theorem tool_calls_run_once:
  assumes "(dispatch_step cb env)\<^sup>*\<^sup>* (start_dispatch reqs w) d"
  shows "length (dp_running d) \<le> 5 \<and> (\<exists>d'. (dispatch_step cb env)\<^sup>*\<^sup>* d d' \<and> dispatched d') \<and>
     (\<forall>n d'. (dispatch_step cb env ^^ n) (start_dispatch reqs w) d' \<longrightarrow> n \<le> 3 * length reqs) \<and>
     (dispatched d \<longrightarrow> (\<exists>runs. dp_results d = map (\<lambda>(r, out). fst (execute_single env (fst r) out)) runs \<and>
        dp_error d = first_some (map (\<lambda>(r, out). snd (execute_single env (fst r) out)) runs) \<and>
        mset (map fst runs) = mset reqs \<and> serial_only (map fst runs) = serial_only reqs))"
proof (intro conjI impI allI)
  obtain runs where runs: "accounts env reqs runs d" using accounts_reachable [OF assms] by blast
  show "length (dp_running d) \<le> 5" using runs by (simp add: accounts_def parallel_limit_def)
  show "\<exists>d'. (dispatch_step cb env)\<^sup>*\<^sup>* d d' \<and> dispatched d'" by (rule dispatch_drains)
  show "n \<le> 3 * length reqs" if "(dispatch_step cb env ^^ n) (start_dispatch reqs w) d'" for n d'
    using dispatch_steps_bounded [OF that] by (simp add: dispatch_weight_def start_dispatch_def)
  show "\<exists>runs. dp_results d = map (\<lambda>(r, out). fst (execute_single env (fst r) out)) runs \<and>
        dp_error d = first_some (map (\<lambda>(r, out). snd (execute_single env (fst r) out)) runs) \<and>
        mset (map fst runs) = mset reqs \<and> serial_only (map fst runs) = serial_only reqs" if "dispatched d"
    using dispatch_complete [OF assms that] by (simp add: run_result_def comp_def case_prod_beta')
qed

theorem tool_calls_run_once_witness:
  "\<exists>d :: (string, unit) dispatch. dp_results d = [sample_outcome] \<and> length (dp_running d) \<le> 5"
proof -
  obtain d :: "(string, unit) dispatch"
    where d: "(dispatch_step (on_result quiet) sample_env)\<^sup>*\<^sup>* (start_dispatch [(sample_call, False)] ()) d"
      "dp_results d = [sample_outcome]"
    using sample_dispatch by blast
  then show ?thesis using tool_calls_run_once [OF d(1)] by blast
qed

text \<open> C23. A tool that was not offered runs. With the tool view alone active, the model is offered view, but
  its call of the registered tool ls passes validation and runs: the tools given to validation
  and dispatch are not restricted to the active ones.\<close>

theorem inactive_tool_runs:
  "\<exists>s. (loop_step sample_config quiet (\<lambda>_ w. w))\<^sup>*\<^sup>* (start_loop sample_prompt ()) s \<and>
     ag_active sample_config = [''view''] \<and> map mc_tools (lo_sent s) = [[''view'']] \<and>
     (\<exists>r \<in> set (tool_outcomes (last_content (lo_steps s))). to_name r = ''ls'' \<and> to_output r = Some (OutText ''files''))"
proof -
  have "to_name sample_outcome = ''ls'' \<and> to_output sample_outcome = Some (OutText ''files'')"
    by (simp add: sample_outcome_def bare_outcome_def sample_call_def use_tool_def)
  note sample_result = this
  obtain s where s: "loop_step sample_config quiet (\<lambda>_ w. w) (start_loop sample_prompt ()) s"
    "map mc_tools (lo_sent s) = [[''view'']]" "sample_outcome \<in> set (tool_outcomes (last_content (lo_steps s)))"
    using sample_run by (elim exE conjE) (rule that)
  have reach: "(loop_step sample_config quiet (\<lambda>_ w. w))\<^sup>*\<^sup>* (start_loop sample_prompt ()) s"
    by (rule r_into_rtranclp) (rule s(1))
  have active: "ag_active sample_config = [''view'']" by (simp add: sample_config_def)
  show ?thesis
    by (rule exI [of _ s], intro conjI, rule reach, rule active, rule s(2), rule bexI [OF _ s(3)], rule sample_result)
qed

section \<open>Streaming\<close>

text \<open>The text a stream carries for an id.\<close>

fun text_deltas :: "string \<Rightarrow> 'e stream_part list \<Rightarrow> string" where
  "text_deltas i [] = []"
| "text_deltas i (SpTextDelta k d # ps) = (if k = i then d @ text_deltas i ps else text_deltas i ps)"
| "text_deltas i (p # ps) = text_deltas i ps"

definition text_bound :: "string \<Rightarrow> 'e stream_part \<Rightarrow> bool" where
  "text_bound i p \<longleftrightarrow> p = SpTextStart i \<or> (\<exists>m. p = SpTextEnd i m)"

lemma process_part_extends:
  assumes "process_part nf env p s w = (w', Inr s')"
  shows "\<exists>cs. ss_content s' = ss_content s @ cs"
  using assms
  by (cases p)
    (auto simp: add_content_def add_call_def drop_input_def Let_def dest!: notified_Inr split: option.splits if_splits prod.splits)

lemma process_part_text:
  assumes "process_part nf env p s w = (w', Inr s')" "ss_texts s i = Some t" "\<not> text_bound i p"
  shows "ss_texts s' i = Some (t @ text_deltas i [p])"
  using assms
  by (cases p)
    (auto simp: text_bound_def add_content_def add_call_def drop_input_def Let_def dest!: notified_Inr
      split: option.splits if_splits prod.splits)

lemma text_deltas_Cons: "text_deltas i (p # ps) = text_deltas i [p] @ text_deltas i ps"
  by (cases p) auto

lemma consume_Cons:
  assumes "consume nf env (p # ps) s w = (w', Inr s')"
  obtains w1 w2 s2 where "process_part nf env p s w1 = (w2, Inr s2)" "consume nf env ps s2 w2 = (w', Inr s')"
  using assms by (auto split: prod.splits option.splits sum.splits)

lemma consume_extends:
  assumes "consume nf env ps s w = (w', Inr s')"
  shows "\<exists>cs. ss_content s' = ss_content s @ cs"
  using assms
proof (induction ps arbitrary: s w)
  case (Cons p ps)
  then obtain w1 w2 s2 where "process_part nf env p s w1 = (w2, Inr s2)" "consume nf env ps s2 w2 = (w', Inr s')"
    by (elim consume_Cons)
  then show ?case using Cons.IH process_part_extends by (metis append.assoc)
qed simp

lemma consume_text:
  assumes "consume nf env ps s w = (w', Inr s')" "ss_texts s i = Some t" "\<forall>p \<in> set ps. \<not> text_bound i p"
  shows "ss_texts s' i = Some (t @ text_deltas i ps)"
  using assms
proof (induction ps arbitrary: s w t)
  case (Cons p ps)
  obtain w1 w2 s2 where part: "process_part nf env p s w1 = (w2, Inr s2)" "consume nf env ps s2 w2 = (w', Inr s')"
    using Cons.prems(1) by (elim consume_Cons)
  show ?case
    using Cons.IH [OF part(2) process_part_text [OF part(1) Cons.prems(2)]] Cons.prems(3)
    by (simp add: text_deltas_Cons [of i p ps])
qed simp

lemma consume_append:
  assumes "consume nf env (ps @ qs) s w = (w', Inr s')"
  shows "\<exists>w1 s1. consume nf env ps s w = (w1, Inr s1) \<and> consume nf env qs s1 w1 = (w', Inr s')"
  using assms by (induction ps arbitrary: s w) (auto split: prod.splits option.splits sum.splits)

text \<open> C22. Streamed text is complete. A text that is started and ended becomes a block with exactly the
  deltas of its id in between, in order, whatever else the stream carries; the block stands
  after the content of everything before its end.\<close>

theorem streamed_text_complete:
  assumes "consume nf env (pre @ SpTextStart i # mid @ SpTextEnd i m # post) empty_stream w = (w', Inr s)"
    and "\<forall>p \<in> set mid. \<not> text_bound i p"
  shows "\<exists>w1 s1 cs. consume nf env (pre @ SpTextStart i # mid) empty_stream w = (w1, Inr s1) \<and>
     ss_content s = ss_content s1 @ CText (text_deltas i mid) m # cs"
proof -
  obtain w1 s1 where s1: "consume nf env (pre @ SpTextStart i # mid) empty_stream w = (w1, Inr s1)"
    "consume nf env (SpTextEnd i m # post) s1 w1 = (w', Inr s)"
    using consume_append [of nf env "pre @ SpTextStart i # mid"] assms(1) by (metis append.assoc append_Cons)
  obtain w0 s0 where s0: "consume nf env (SpTextStart i # mid) s0 w0 = (w1, Inr s1)"
    using consume_append [OF s1(1)] by blast
  obtain wa wb sb where start: "process_part nf env (SpTextStart i) s0 wa = (wb, Inr sb)" "consume nf env mid sb wb = (w1, Inr s1)"
    using s0 by (elim consume_Cons)
  have "ss_texts sb i = Some []" using start(1) by (auto dest!: notified_Inr)
  then have open_text: "ss_texts s1 i = Some (text_deltas i mid)"
    using consume_text [OF start(2) _ assms(2)] by simp
  obtain wc wd sd where stop: "process_part nf env (SpTextEnd i m) s1 wc = (wd, Inr sd)" "consume nf env post sd wd = (w', Inr s)"
    using s1(2) by (elim consume_Cons)
  have "ss_content sd = ss_content s1 @ [CText (text_deltas i mid) m]"
    using stop(1) open_text by (auto simp: add_content_def dest!: notified_Inr)
  then show ?thesis using s1(1) consume_extends [OF stop(2)] by auto
qed

theorem streamed_text_complete_witness:
  "\<exists>s. consume quiet sample_env sample_stream empty_stream () = ((), Inr s) \<and>
     CText ''hello'' no_options \<in> set (ss_content s)"
proof -
  let ?mid = "[SpTextDelta ''t'' ''hel'', SpTextDelta ''t'' ''lo''] :: string stream_part list"
  let ?post = "[SpCall ''1'' ''ls'' ''{}'' False no_options, SpFinish zero_usage reason_tool_calls no_options] :: string stream_part list"
  have parts: "sample_stream = [] @ SpTextStart ''t'' # ?mid @ SpTextEnd ''t'' no_options # ?post"
    by (simp add: sample_stream_def)
  obtain s where s: "consume quiet sample_env sample_stream empty_stream () = ((), Inr s)"
    using sample_consume by blast
  have mid: "\<forall>p \<in> set ?mid. \<not> text_bound ''t'' p" by (simp add: text_bound_def)
  from streamed_text_complete [OF s [unfolded parts] mid]
  have "\<exists>(s1 :: stream_state) cs. ss_content s = ss_content s1 @ CText (text_deltas ''t'' ?mid) no_options # cs"
    by (elim exE conjE) (intro exI, assumption)
  moreover have "text_deltas ''t'' ?mid = ''hello''" by simp
  ultimately have "CText ''hello'' no_options \<in> set (ss_content s)" by auto
  then show ?thesis using s by blast
qed

section \<open>Retries\<close>

text \<open> Retries are bounded. One step calls the model at most twice as often as the limit of retries
  and one allow, and without a hook for authentication at most that often once.\<close>

theorem retries_bounded:
  assumes "retry_run opts fn w n r w'"
  shows "int n \<le> 2 * (max 0 (ro_max opts) + 1) \<and> (\<not> ro_refresh opts \<longrightarrow> int n \<le> max 0 (ro_max opts) + 1)"
  using assms by (cases rule: retry_run.cases) (fastforce dest: retry_pass_bound)+

theorem retries_bounded_witness:
  "\<exists>x. retry_run sample_retry (attempt quiet sample_env) () 2 (Inr x) () \<and> int 2 \<le> max 0 (ro_max sample_retry) + 1"
proof -
  obtain x where x: "process_step quiet sample_env sample_stream () (Inr x) ()" using sample_step by blast
  let ?fn = "attempt quiet sample_env"
  have "retry_pass sample_retry ?fn [''down''] () 1 (Inr x) ()"
    by (rule retry_pass.succeeds, rule attempt.model_streams, rule x)
  then have "retry_pass sample_retry ?fn [] () (Suc 1) (Inr x) ()"
    using retry_pass.again [of ?fn "()" "''down''" "()" sample_retry "[]" 1 "Inr x" "()"] attempt.model_fails [of quiet sample_env "()" "''down''"]
    by (simp add: sample_retry_def no_retry_def)
  then have run: "retry_run sample_retry ?fn () 2 (Inr x) ()"
    by (intro retry_run.one_pass) (simp add: numeral_2_eq_2)
  have "\<not> ro_refresh sample_retry" by (simp add: sample_retry_def)
  then show ?thesis using run retries_bounded [OF run] by blast
qed

end
