(* ===== verification/Spec2Isabelle.thy ===== *)
theory Spec2Isabelle
  imports Event_Properties Turn_Properties Git_Properties Session_Properties Plan_Exclusion Goal_Turns
    Approval_Properties Edit_Properties Conversation_Properties Compaction_Properties
    Agent_Properties
begin

text \<open>
  A model of the core of crush, an agent for the terminal written in Go: sessions with their goals
  and modes, the queue of turns, the stream of session events, and the decisions which commands
  run, which are asked and which are refused. Names of files are relative to src/.

  \<^bold>\<open>How the parts work together.\<close> A client starts turns on a session (internal/turn); the service
  queues them, hands one at a time to the agent and publishes what happens through the event hub
  (internal/sessionevent), from which clients read with a bounded queue of their own. The session
  (internal/session) stores conversation settings, tasks, plan and permission modes and the goal;
  the goal runtime (internal/goal) books tokens, time and progress after each turn and decides
  whether the agent goes on by itself. When the agent calls a tool, the permission service
  (internal/permission) is asked; in front of it stands the auto-approval service
  (internal/autopermission) with its policies, its cache and its classifier, and in plan mode the
  restricted bash policy (internal/agent/tools/bash\_policy.go). The edit tools (internal/agent/tools)
  change files by operations on lines and their hashes, once the permission service grants it.
  What the agent and the tools say is kept as messages (internal/message). Before a request the
  messages are converted to the form of the provider layer (fantasy), long tool results are
  truncated, old ones cleared, and when the estimated tokens exceed the window the history is cut
  and summarised (internal/agent); each of these steps must leave a history in which every result
  still follows its call. The loop itself (fantasy/agent.go) sends the history to the model, runs the
  tools it calls and goes on until a stop condition holds.

  \<^bold>\<open>Theories and code.\<close>
  \<^item> Prelude: strings as Go has them (trimming of Unicode white space, cutting, splitting, joining,
    prefixes, lower case, decimal numbers), wrapping 64-bit integers, association lists.
  \<^item> Session\_Events, Event\_Journal, Event\_Coalescer, Event\_Hub: internal/sessionevent. A journal is
    the ring buffer with its start index; a subscription is its queue, its signal channel (one
    slot) and its closed flag; the hub holds one state for each session. Event\_Properties has the
    theorems: no gaps for a reader, exact replay, bounded queues that never drop a reliable event,
    and merging that keeps the bytes.
  \<^item> Turn\_Service, Turn\_Threads, Turn\_Invariant, Turn\_Properties: internal/turn. The sections
    under the mutex are functions on the state; the goroutines are a step relation over them, and
    the invariant is proved for every reachable state.
  \<^item> Shell\_Syntax, Git\_Policy, Git\_Properties: the syntax trees of the shell parser (a parameter)
    and the policy for read-only git commands and filters in plan mode.
  \<^item> Session\_Data, Session\_Store, Session\_Properties: internal/session with the SQL queries it
    uses; the table is a list of rows, an update a function on the rows it matches.
  \<^item> Goal\_Runtime, Goal\_Prompts, Goal\_Calls, Goal\_Spec, Goal\_Properties, Goal\_Turns,
    Plan\_Exclusion: internal/goal, the specification of goals as a transition relation it refines,
    and the exclusion of plan mode and running goals.
  \<^item> Permission\_Service, Permission\_Properties: internal/permission. A channel of capacity one is an
    option, an operation that would block is None, and a call that waits is split at its select.
  \<^item> Go\_Path, Exec\_Policy, Exec\_Names, Exec\_Properties: paths of path/filepath, and the bash policy
    of exec\_policy.go and command\_canonicalization.go, characterised by an inductive relation.
  \<^item> Approval\_State, Approval\_Cache, Auto\_Permission, Approval\_Properties: approval\_cache.go,
    denial\_queue.go, policy\_engine.go and service.go of internal/autopermission.
  \<^item> Hashline, Hashline\_Batch, Hashline\_Align, Hashline\_Recovery, Hashline\_Text,
    Hashline\_Properties: edits addressed by line and hash (hashline.go, hashline\_helpers.go,
    hashline\_recovery.go of internal/agent/tools). The model is in Hashline; the others show that a
    batch keeps the lines it does not name, what it makes of each line, that the alignment of a
    changed file is a longest one and that recovery replaces only what the batch names.
  \<^item> Edit\_Registers, Edit\_Cache, Hashline\_Edit, Edit\_Flow, Edit\_Properties: the clipboard, the file
    cache and the two edit tools of edit.go over them, with grants, writes and rolling back.
  \<^item> Go\_Runes, Conversation, Message\_Stream: internal/message/content.go. A message is a record
    with a list of parts; the mutators change the first part of a kind, as the loops in the code
    do. Message\_Stream is the abstract view of a streamed message (text, reasoning, calls, finish)
    that they refine.
  \<^item> Message\_Convert, Message\_Roundtrip, Conversation\_Properties: ToAIMessage, FromFantasyMessages
    and the metadata that travels with the parts. The two regular expressions for textual tool
    calls are a small matcher. Reading JSON metadata is the parameter json\_reader.
  \<^item> Token\_Estimate, Tool\_Budget, Tool\_Limits: agent\_estimate.go and context\_window.go of
    internal/agent. The archive of full results (directories, hash, success of the write) is the
    parameter archive\_env; a pass over the stored messages takes the outcome of each update.
  \<^item> Compaction\_Prune: compact\_builtin.go, with protection, cached indices and archive as arguments.
  \<^item> Compaction\_Turns, Compaction\_Cuts, Compaction\_Input, Compaction\_Fit, Compaction\_Growth,
    Compaction\_Properties: compaction\_turns.go, compaction\_input.go and compaction\_fit.go. The
    specification reads a history as a sequence of calls and answers; a cut is safe when every
    answer after it follows its call.

  \<^item> Agent\_Content, Agent\_Tools, Agent\_Dispatch, Agent\_Stream, Agent\_Loop, Agent\_Properties:
    the agent loop of fantasy/agent.go with fantasy/retry.go. The model is any sequence of streams
    and failures; the goroutines that run the tools of a step are a step relation; a round of the
    loop is a step of another, which includes retries and the replay of a lost conversation. The
    tools, the handling of JSON arguments and PrepareStep are parameters.

  \<^bold>\<open>Conventions.\<close> A struct is a record, an error a value of a sum or option, a panic the missing
  value. Integers that can wrap are words or go through i64; counters that cannot are nat. Strings
  are lists of bytes, so that a multi-byte rune is several characters. Time is an integer the
  caller passes. Locks that cover a whole operation make it one step; where two locked sections of
  one operation can be interleaved they are two steps. Code outside the repository (the parser of
  the shell, url.Parse, JSON, random ids, the model behind the classifier) is an argument of the
  definitions that use it; each property about such an argument holds for every value of it.

  \<^bold>\<open>Bounds and fuel.\<close> All loops are structural recursion or functions with a termination proof;
  no definition has fuel. The bounds in the statements are those of the code: the queue limit plus
  two of a subscription, 512 approvals, ten denials, three and twenty classifier blocks.

  \<^bold>\<open>Not modelled.\<close> Logging and metrics; the conversion to and from wire formats and terminal
  rendering, which is most of the repository; the providers; storage in SQL beyond the sessions;
  processes and files; of the conversation the text shown to the user, the merging of JSON
  metadata and the cost of a call, which is a float. The components of PROJECT.json give a reason
  each.
\<close>

end
